(* ===== verification/Prelude.thy ===== *)
theory Prelude
  imports Main "HOL-Library.Char_ord" "HOL-Library.List_Lexorder" "HOL-Library.Sublist"
begin

text \<open>
  Shared notions of the development.

  Go strings are byte strings, so they are HOL's \<open>string\<close> (a list of 8-bit characters).
  The functions of Go's package \<open>strings\<close> that the program uses are written out here for the
  ASCII range: case mapping and white space are those of the bytes below 128, and a byte of a
  multi-byte UTF-8 sequence is left alone by both.

  Errors are values of a sum type (\<open>Inl\<close> the error), a Go map is a partial function, a Go
  \<open>nil\<close> pointer is \<open>None\<close>, an instant or a duration is an \<open>int\<close> in the unit the code uses.
\<close>

named_theorems go_string \<comment> \<open>facts about the string functions\<close>
named_theorems state_defs \<comment> \<open>definitions of the state-changing operations\<close>

type_synonym instant = int
type_synonym duration = int

section \<open>Characters\<close>

abbreviation byte :: "char \<Rightarrow> nat" where
  "byte c \<equiv> of_char c"

definition is_upper :: "char \<Rightarrow> bool" where
  "is_upper c \<longleftrightarrow> 65 \<le> byte c \<and> byte c \<le> 90"

definition is_lower :: "char \<Rightarrow> bool" where
  "is_lower c \<longleftrightarrow> 97 \<le> byte c \<and> byte c \<le> 122"

definition is_digit :: "char \<Rightarrow> bool" where
  "is_digit c \<longleftrightarrow> 48 \<le> byte c \<and> byte c \<le> 57"

definition is_space :: "char \<Rightarrow> bool" where
  "is_space c \<longleftrightarrow> byte c = 32 \<or> (9 \<le> byte c \<and> byte c \<le> 13)"

definition lower_char :: "char \<Rightarrow> char" where
  "lower_char c = (if is_upper c then char_of (byte c + 32) else c)"

lemma lower_char_not_upper [simp]: "\<not> is_upper (lower_char c)"
  by (auto simp: lower_char_def is_upper_def)

lemma lower_char_idem [simp]: "lower_char (lower_char c) = lower_char c"
  by (simp add: lower_char_def [of "lower_char c"])

lemma is_space_lower_char [simp]: "is_space (lower_char c) = is_space c"
  by (auto simp: lower_char_def is_space_def is_upper_def)

lemma is_digit_lower_char [simp]: "is_digit (lower_char c) = is_digit c"
  by (auto simp: lower_char_def is_digit_def is_upper_def)

lemma lower_char_fix: "\<not> is_upper c \<Longrightarrow> lower_char c = c"
  by (simp add: lower_char_def)

section \<open>Package strings\<close>

definition ToLower :: "string \<Rightarrow> string" where
  "ToLower s = map lower_char s"

definition TrimLeftSpace :: "string \<Rightarrow> string" where
  "TrimLeftSpace s = dropWhile is_space s"

definition TrimRightSpace :: "string \<Rightarrow> string" where
  "TrimRightSpace s = rev (dropWhile is_space (rev s))"

definition TrimSpace :: "string \<Rightarrow> string" where
  "TrimSpace s = TrimRightSpace (TrimLeftSpace s)"

definition HasPrefix :: "string \<Rightarrow> string \<Rightarrow> bool" where
  "HasPrefix s p \<longleftrightarrow> take (length p) s = p"

definition TrimPrefix :: "string \<Rightarrow> string \<Rightarrow> string" where
  "TrimPrefix s p = (if HasPrefix s p then drop (length p) s else s)"

fun Index :: "string \<Rightarrow> string \<Rightarrow> nat option" where
  "Index [] sub = (if sub = [] then Some 0 else None)"
| "Index (c # cs) sub =
     (if HasPrefix (c # cs) sub then Some 0 else map_option Suc (Index cs sub))"

definition Contains :: "string \<Rightarrow> string \<Rightarrow> bool" where
  "Contains s sub \<longleftrightarrow> Index s sub \<noteq> None"

text \<open>The number of non-overlapping occurrences of a non-empty substring.\<close>

function CountSub :: "string \<Rightarrow> string \<Rightarrow> nat" where
  "CountSub s sub =
     (if sub = [] \<or> length s < length sub then 0
      else if HasPrefix s sub then Suc (CountSub (drop (length sub) s) sub)
      else CountSub (tl s) sub)"
  by pat_completeness auto
termination
  by (relation "measure (\<lambda>(s, sub). length s)") (auto, (case_tac s; simp)+)

declare CountSub.simps [simp del]

definition ReplaceAllChar :: "string \<Rightarrow> char \<Rightarrow> char \<Rightarrow> string" where
  "ReplaceAllChar s old new = map (\<lambda>c. if c = old then new else c) s"

text \<open>\<open>strings.SplitN s sep n\<close> for a one-character separator and \<open>n > 0\<close>.\<close>

fun SplitN :: "char \<Rightarrow> nat \<Rightarrow> string \<Rightarrow> string list" where
  "SplitN c 0 s = []"
| "SplitN c (Suc 0) s = [s]"
| "SplitN c (Suc (Suc n)) s =
     (case Index s [c] of
        None \<Rightarrow> [s]
      | Some i \<Rightarrow> take i s # SplitN c (Suc n) (drop (Suc i) s))"

definition EqualFold :: "string \<Rightarrow> string \<Rightarrow> bool" where
  "EqualFold s t \<longleftrightarrow> ToLower s = ToLower t"

lemma ToLower_Nil [simp]: "ToLower [] = []"
  and ToLower_append [simp]: "ToLower (s @ t) = ToLower s @ ToLower t"
  and ToLower_Cons [simp]: "ToLower (c # s) = lower_char c # ToLower s"
  and ToLower_eq_Nil [simp]: "ToLower s = [] \<longleftrightarrow> s = []"
  and length_ToLower [simp]: "length (ToLower s) = length s"
  by (simp_all add: ToLower_def)

lemma ToLower_idem [simp]: "ToLower (ToLower s) = ToLower s"
  by (simp add: ToLower_def o_def)

lemma ToLower_fix: "(\<forall>c \<in> set s. \<not> is_upper c) \<Longrightarrow> ToLower s = s"
  by (induction s) (auto simp: lower_char_fix)

lemma ToLower_eqI: "list_all2 (\<lambda>c d. lower_char c = lower_char d) s t \<Longrightarrow> ToLower s = ToLower t"
  by (induction rule: list_all2_induct) auto

lemma TrimSpace_Nil [simp]: "TrimSpace [] = []"
  by (simp add: TrimSpace_def TrimLeftSpace_def TrimRightSpace_def)

lemma dropWhile_map_comp: "dropWhile P (map f xs) = map f (dropWhile (P \<circ> f) xs)"
  by (induction xs) auto

lemma is_space_o_lower [simp]: "is_space \<circ> lower_char = is_space"
  by (simp add: fun_eq_iff)

lemma TrimSpace_ToLower [go_string]: "TrimSpace (ToLower s) = ToLower (TrimSpace s)"
  by (simp add: TrimSpace_def TrimLeftSpace_def TrimRightSpace_def ToLower_def
      dropWhile_map_comp rev_map)

lemma TrimLeftSpace_hd: "TrimLeftSpace s \<noteq> [] \<Longrightarrow> \<not> is_space (hd (TrimLeftSpace s))"
  by (simp add: TrimLeftSpace_def hd_dropWhile)

lemma TrimRightSpace_last: "TrimRightSpace s \<noteq> [] \<Longrightarrow> \<not> is_space (last (TrimRightSpace s))"
  by (simp add: TrimRightSpace_def last_rev hd_dropWhile)

lemma TrimRightSpace_prefix: "prefix (TrimRightSpace s) s"
proof -
  have "suffix (dropWhile is_space (rev s)) (rev s)"
    by (rule suffix_dropWhile)
  then show ?thesis
    by (simp add: TrimRightSpace_def suffix_to_prefix)
qed

lemma TrimLeftSpace_suffix: "suffix (TrimLeftSpace s) s"
  by (simp add: TrimLeftSpace_def suffix_dropWhile)

lemma hd_prefix: "prefix p s \<Longrightarrow> p \<noteq> [] \<Longrightarrow> hd p = hd s"
  by (auto simp: prefix_def)

text \<open>A string without white space at its two ends is what \<open>TrimSpace\<close> returns, and only that.\<close>

definition trimmed :: "string \<Rightarrow> bool" where
  "trimmed s \<longleftrightarrow> s = [] \<or> (\<not> is_space (hd s) \<and> \<not> is_space (last s))"

lemma trimmed_TrimSpace [simp]: "trimmed (TrimSpace s)"
proof (cases "TrimSpace s = []")
  case False
  let ?t = "TrimLeftSpace s"
  from False have ne: "TrimRightSpace ?t \<noteq> []"
    by (simp add: TrimSpace_def)
  then have "?t \<noteq> []"
    using TrimRightSpace_prefix [of ?t] by auto
  with ne have "\<not> is_space (hd (TrimRightSpace ?t))"
    using hd_prefix [OF TrimRightSpace_prefix ne] TrimLeftSpace_hd by metis
  with ne TrimRightSpace_last show ?thesis
    by (simp add: trimmed_def TrimSpace_def)
qed (simp add: trimmed_def)

lemma TrimSpace_trimmed [go_string]: "trimmed s \<Longrightarrow> TrimSpace s = s"
proof (cases s)
  case (Cons c cs)
  assume "trimmed s"
  with Cons have "\<not> is_space c" and "\<not> is_space (last s)"
    by (auto simp: trimmed_def)
  with Cons show ?thesis
    by (simp add: TrimSpace_def TrimLeftSpace_def TrimRightSpace_def dropWhile_eq_self_iff hd_append
        hd_rev split: if_splits)
qed simp

lemma TrimSpace_idem [simp]: "TrimSpace (TrimSpace s) = TrimSpace s"
  by (simp add: TrimSpace_trimmed)

lemma set_TrimSpace: "set (TrimSpace s) \<subseteq> set s"
  unfolding TrimSpace_def
  using set_mono_prefix [OF TrimRightSpace_prefix] set_mono_suffix [OF TrimLeftSpace_suffix]
  by blast

lemma HasPrefix_iff [go_string]: "HasPrefix s p \<longleftrightarrow> prefix p s"
  by (auto simp: HasPrefix_def prefix_def) (metis append_take_drop_id)

lemma HasPrefix_append [simp]: "HasPrefix (p @ s) p"
  by (simp add: HasPrefix_def)

lemma HasPrefix_ToLower: "HasPrefix s p \<Longrightarrow> HasPrefix (ToLower s) (ToLower p)"
  by (auto simp: HasPrefix_iff prefix_def)

lemma Index_Some_iff_split:
  "Index s sub = Some i \<Longrightarrow> \<exists>ys. s = take i s @ sub @ ys \<and> i + length sub \<le> length s"
proof (induction s arbitrary: i)
  case Nil
  then show ?case by (auto split: if_splits)
next
  case (Cons c cs)
  show ?case
  proof (cases "HasPrefix (c # cs) sub")
    case True
    with Cons.prems have "i = 0" by simp
    with True show ?thesis
      by (auto simp: HasPrefix_iff prefix_def dest: arg_cong [where f = length])
  next
    case False
    with Cons.prems obtain j where j: "Index cs sub = Some j" "i = Suc j"
      by auto
    from Cons.IH [OF j(1)] obtain ys where
      "cs = take j cs @ sub @ ys" "j + length sub \<le> length cs" by blast
    with j show ?thesis by auto
  qed
qed

lemma Index_None_iff: "Index s sub = None \<longleftrightarrow> (\<forall>ys zs. s \<noteq> ys @ sub @ zs)"
proof (induction s)
  case Nil
  then show ?case by auto
next
  case (Cons c cs)
  have "(\<exists>ys zs. c # cs = ys @ sub @ zs) \<longleftrightarrow>
      HasPrefix (c # cs) sub \<or> (\<exists>ys zs. cs = ys @ sub @ zs)"
  proof
    assume "\<exists>ys zs. c # cs = ys @ sub @ zs"
    then obtain ys zs where "c # cs = ys @ sub @ zs" by blast
    then show "HasPrefix (c # cs) sub \<or> (\<exists>ys zs. cs = ys @ sub @ zs)"
      by (cases ys) (auto simp: HasPrefix_iff prefix_def)
  next
    assume "HasPrefix (c # cs) sub \<or> (\<exists>ys zs. cs = ys @ sub @ zs)"
    then show "\<exists>ys zs. c # cs = ys @ sub @ zs"
    proof
      assume "HasPrefix (c # cs) sub"
      then obtain zs where "c # cs = [] @ sub @ zs"
        by (auto simp: HasPrefix_iff prefix_def)
      then show ?thesis by blast
    next
      assume "\<exists>ys zs. cs = ys @ sub @ zs"
      then obtain ys zs where "c # cs = (c # ys) @ sub @ zs" by auto
      then show ?thesis by blast
    qed
  qed
  with Cons.IH show ?case by auto
qed

lemma Contains_iff [go_string]: "Contains s sub \<longleftrightarrow> (\<exists>ys zs. s = ys @ sub @ zs)"
  by (simp add: Contains_def Index_None_iff)

lemma Index_char_notin: "c \<notin> set s \<Longrightarrow> Index s [c] = None"
  by (auto simp: Index_None_iff)

lemma Index_char_append: "c \<notin> set s \<Longrightarrow> Index (s @ c # t) [c] = Some (length s)"
  by (induction s) (auto simp: HasPrefix_def)

lemma SplitN_cut: "c \<notin> set s \<Longrightarrow> SplitN c (Suc (Suc n)) (s @ c # t) = s # SplitN c (Suc n) t"
  by (simp add: Index_char_append)

section \<open>Lists and maps\<close>

text \<open>The first element of a list that satisfies a predicate is \<open>List.find\<close>; a Go slice
  expression \<open>xs[i:]\<close> with \<open>i\<close> in range is \<open>drop\<close>.\<close>

lemma find_Some_in: "List.find P xs = Some x \<Longrightarrow> x \<in> set xs \<and> P x"
  by (induction xs) (auto split: if_splits)

lemma find_None_all: "List.find P xs = None \<longleftrightarrow> (\<forall>x \<in> set xs. \<not> P x)"
  by (induction xs) auto

text \<open>Removing duplicates in order, as a Go loop with a \<open>seen\<close> map does.\<close>

fun dedup :: "'a list \<Rightarrow> 'a list \<Rightarrow> 'a list" where
  "dedup seen [] = []"
| "dedup seen (x # xs) =
     (if x \<in> set seen then dedup seen xs else x # dedup (x # seen) xs)"

lemma set_dedup: "set (dedup seen xs) = set xs - set seen"
  by (induction xs arbitrary: seen) auto

lemma distinct_dedup [simp]: "distinct (dedup seen xs)"
  by (induction xs arbitrary: seen) (auto simp: set_dedup)

lemma dedup_distinct: "distinct xs \<Longrightarrow> set seen \<inter> set xs = {} \<Longrightarrow> dedup seen xs = xs"
  by (induction xs arbitrary: seen) auto

section \<open>Go maps that are iterated\<close>

text \<open>A Go map whose iteration matters is an association list: the order of the list is the order of
  the iteration, which Go leaves open.\<close>

definition assoc_put :: "'k \<Rightarrow> 'v \<Rightarrow> ('k \<times> 'v) list \<Rightarrow> ('k \<times> 'v) list" where
  "assoc_put k v m = (k, v) # filter (\<lambda>e. fst e \<noteq> k) m"

definition assoc_del :: "'k \<Rightarrow> ('k \<times> 'v) list \<Rightarrow> ('k \<times> 'v) list" where
  "assoc_del k m = filter (\<lambda>e. fst e \<noteq> k) m"

lemma map_of_assoc_del [simp]: "map_of (assoc_del k m) i = (if i = k then None else map_of m i)"
  by (induction m) (auto simp: assoc_del_def)

lemma map_of_assoc_put [simp]: "map_of (assoc_put k v m) i = (if i = k then Some v else map_of m i)"
  using map_of_assoc_del [of k m i] by (simp add: assoc_put_def assoc_del_def)

lemma distinct_filter_keys: "distinct (map fst m) \<Longrightarrow> distinct (map fst (filter P m))"
  by (induction m) auto

lemma keys_assoc_del [simp]: "distinct (map fst m) \<Longrightarrow> distinct (map fst (assoc_del k m))"
  and keys_assoc_put [simp]: "distinct (map fst m) \<Longrightarrow> distinct (map fst (assoc_put k v m))"
  by (auto simp: assoc_del_def assoc_put_def distinct_filter_keys)

end
