(* ===== verification/AgentId.thy ===== *)
theory AgentId
  imports Prelude
begin

text \<open>
  Agent and account identifiers: \<open>pkg/routing/agent_id.go\<close>. The regular expressions of the file
  are written out as list functions: \<open>matches_validIDRe\<close> decides \<open>validIDRe\<close>,
  \<open>collapse_invalid\<close> is \<open>invalidCharsRe.ReplaceAllString(_, "-")\<close>, and the two dash expressions
  drop a prefix or a suffix of dashes.
\<close>

definition DefaultAgentID :: string where "DefaultAgentID = ''main''"
definition DefaultMainKey :: string where "DefaultMainKey = ''main''"
definition DefaultHeartbeatKey :: string where "DefaultHeartbeatKey = ''heartbeat''"
definition DefaultAccountID :: string where "DefaultAccountID = ''default''"
definition MaxAgentIDLength :: nat where "MaxAgentIDLength = 64"

lemmas routing_consts =
  DefaultAgentID_def DefaultMainKey_def DefaultHeartbeatKey_def DefaultAccountID_def
  MaxAgentIDLength_def

abbreviation dash :: char where "dash \<equiv> CHR ''-''"

definition is_alnum :: "char \<Rightarrow> bool" where
  "is_alnum c \<longleftrightarrow> is_lower c \<or> is_digit c"

definition valid_char :: "char \<Rightarrow> bool" where
  "valid_char c \<longleftrightarrow> is_alnum c \<or> c = CHR ''_'' \<or> c = dash"

definition matches_validIDRe :: "string \<Rightarrow> bool" where
  "matches_validIDRe s \<longleftrightarrow>
     s \<noteq> [] \<and> is_alnum (hd s) \<and> list_all valid_char (tl s) \<and> length s \<le> 64"

function collapse_invalid :: "string \<Rightarrow> string" where
  "collapse_invalid [] = []"
| "collapse_invalid (c # cs) =
     (if valid_char c then c # collapse_invalid cs
      else dash # collapse_invalid (dropWhile (\<lambda>d. \<not> valid_char d) cs))"
  by pat_completeness auto
termination
  by (relation "measure length") (auto simp: le_imp_less_Suc length_dropWhile_le)

definition strip_leading_dashes :: "string \<Rightarrow> string" where
  "strip_leading_dashes s = dropWhile (\<lambda>c. c = dash) s"

definition strip_trailing_dashes :: "string \<Rightarrow> string" where
  "strip_trailing_dashes s = rev (dropWhile (\<lambda>c. c = dash) (rev s))"

text \<open>The shared body of \<open>NormalizeAgentID\<close> and \<open>NormalizeAccountID\<close>, which differ only in the
  identifier they return for an empty one.\<close>

definition sanitize_id :: "string \<Rightarrow> string" where
  "sanitize_id lower =
     take MaxAgentIDLength (strip_trailing_dashes (strip_leading_dashes (collapse_invalid lower)))"

definition NormalizeAgentID :: "string \<Rightarrow> string" where
  "NormalizeAgentID ident =
     (let trimmed = TrimSpace ident in
      if trimmed = [] then DefaultAgentID
      else let lower = ToLower trimmed in
        if matches_validIDRe lower then lower
        else let result = sanitize_id lower in
          if result = [] then DefaultAgentID else result)"

definition NormalizeAccountID :: "string \<Rightarrow> string" where
  "NormalizeAccountID ident =
     (let trimmed = TrimSpace ident in
      if trimmed = [] then DefaultAccountID
      else let lower = ToLower trimmed in
        if matches_validIDRe lower then lower
        else let result = sanitize_id lower in
          if result = [] then DefaultAccountID else result)"

section \<open>The shape of a normalized identifier\<close>

text \<open>What every normalized identifier satisfies: not empty, at most 64 characters, only characters
  of the class \<open>[a-z0-9_-]\<close>, and no dash in front.\<close>

definition id_shape :: "string \<Rightarrow> bool" where
  "id_shape s \<longleftrightarrow>
     s \<noteq> [] \<and> length s \<le> MaxAgentIDLength \<and> list_all valid_char s \<and> hd s \<noteq> dash"

lemma valid_dash [simp]: "valid_char dash"
  by (simp add: valid_char_def)

lemma dash_not_alnum [simp]: "\<not> is_alnum dash"
  by (simp add: is_alnum_def is_lower_def is_digit_def)

lemma collapse_invalid_valid: "list_all valid_char (collapse_invalid s)"
  by (induction s rule: collapse_invalid.induct) auto

lemma collapse_invalid_fix: "list_all valid_char s \<Longrightarrow> collapse_invalid s = s"
  by (induction s) auto

lemma list_all_dropWhile: "list_all P s \<Longrightarrow> list_all P (dropWhile Q s)"
  by (induction s) auto

lemma strip_leading_valid: "list_all valid_char s \<Longrightarrow> list_all valid_char (strip_leading_dashes s)"
  by (simp add: strip_leading_dashes_def list_all_dropWhile)

lemma strip_trailing_valid: "list_all valid_char s \<Longrightarrow> list_all valid_char (strip_trailing_dashes s)"
  by (simp add: strip_trailing_dashes_def list_all_dropWhile)

lemma strip_trailing_prefix: "prefix (strip_trailing_dashes s) s"
  unfolding strip_trailing_dashes_def suffix_to_prefix [symmetric]
  by (metis rev_rev_ident suffix_dropWhile suffix_to_prefix)

lemma strip_leading_hd: "strip_leading_dashes s \<noteq> [] \<Longrightarrow> hd (strip_leading_dashes s) \<noteq> dash"
  using hd_dropWhile [of "\<lambda>c. c = dash" s] by (simp add: strip_leading_dashes_def)

lemma strip_trailing_last: "strip_trailing_dashes s \<noteq> [] \<Longrightarrow> last (strip_trailing_dashes s) \<noteq> dash"
  using hd_dropWhile [of "\<lambda>c. c = dash" "rev s"]
  by (simp add: strip_trailing_dashes_def last_rev)

lemma list_all_take: "list_all P s \<Longrightarrow> list_all P (take n s)"
  by (auto simp: list_all_iff dest: in_set_takeD)

lemma sanitize_valid: "list_all valid_char (sanitize_id s)"
  unfolding sanitize_id_def
  by (intro list_all_take strip_trailing_valid strip_leading_valid collapse_invalid_valid)

lemma sanitize_length: "length (sanitize_id s) \<le> MaxAgentIDLength"
  by (simp add: sanitize_id_def)

lemma sanitize_hd: "sanitize_id s \<noteq> [] \<Longrightarrow> hd (sanitize_id s) \<noteq> dash"
proof -
  let ?l = "strip_leading_dashes (collapse_invalid s)"
  let ?t = "strip_trailing_dashes ?l"
  assume ne: "sanitize_id s \<noteq> []"
  then have t: "?t \<noteq> []" and hd: "hd (sanitize_id s) = hd ?t"
    by (auto simp: sanitize_id_def hd_take MaxAgentIDLength_def)
  from t have "hd ?t = hd ?l"
    by (rule hd_prefix [OF strip_trailing_prefix])
  moreover from t have "?l \<noteq> []"
    using strip_trailing_prefix [of ?l] by auto
  ultimately show ?thesis
    using hd strip_leading_hd by simp
qed

lemma matches_shape: "matches_validIDRe s \<Longrightarrow> id_shape s"
  by (cases s)
    (auto simp: matches_validIDRe_def id_shape_def MaxAgentIDLength_def valid_char_def)

lemma default_shapes: "id_shape DefaultAgentID" "id_shape DefaultAccountID"
  by (simp_all add: id_shape_def routing_consts valid_char_def is_alnum_def is_lower_def)

lemma sanitize_shape: "sanitize_id s \<noteq> [] \<Longrightarrow> id_shape (sanitize_id s)"
  by (simp add: id_shape_def sanitize_length sanitize_valid sanitize_hd)

lemma NormalizeAgentID_id_shape: "id_shape (NormalizeAgentID ident)"
  by (simp add: NormalizeAgentID_def Let_def default_shapes matches_shape sanitize_shape)

lemma NormalizeAccountID_id_shape: "id_shape (NormalizeAccountID ident)"
  by (simp add: NormalizeAccountID_def Let_def default_shapes matches_shape sanitize_shape)

lemma valid_char_facts:
  assumes "valid_char c"
  shows "\<not> is_space c" and "\<not> is_upper c" and "c \<noteq> CHR '':''"
  using assms
  by (auto simp: valid_char_def is_alnum_def is_lower_def is_digit_def is_space_def is_upper_def)

lemma id_shape_trimmed: "id_shape s \<Longrightarrow> trimmed s"
  by (auto simp: id_shape_def trimmed_def list_all_iff valid_char_facts)

lemma id_shape_lower: "id_shape s \<Longrightarrow> ToLower s = s"
  by (rule ToLower_fix) (auto simp: id_shape_def list_all_iff valid_char_facts)

lemma id_shape_no_colon: "id_shape s \<Longrightarrow> CHR '':'' \<notin> set s"
  by (auto simp: id_shape_def list_all_iff dest: valid_char_facts(3))

lemma id_shape_nonempty: "id_shape s \<Longrightarrow> s \<noteq> []"
  by (simp add: id_shape_def)

lemma trimmed_ToLower [simp]: "trimmed (ToLower s) = trimmed s"
  by (auto simp: trimmed_def ToLower_def hd_map last_map)

section \<open>Identifiers that normalization keeps\<close>

lemma NormalizeAgentID_valid: "matches_validIDRe s \<Longrightarrow> NormalizeAgentID s = s"
proof -
  assume m: "matches_validIDRe s"
  from matches_shape [OF m] have "TrimSpace s = s" "ToLower s = s" "s \<noteq> []"
    by (simp_all add: id_shape_trimmed TrimSpace_trimmed id_shape_lower id_shape_nonempty)
  with m show ?thesis by (simp add: NormalizeAgentID_def)
qed

lemma id_shape_matches:
  "id_shape s \<Longrightarrow> hd s \<noteq> CHR ''_'' \<Longrightarrow> matches_validIDRe s"
  by (cases s) (auto simp: id_shape_def matches_validIDRe_def MaxAgentIDLength_def valid_char_def)

text \<open>Normalizing twice is normalizing once, unless the identifier starts with an underscore (such a
  result is outside \<open>validIDRe\<close>, is sanitized again, and may lose a dash that the cut at 64
  characters left at its end).\<close>

lemma NormalizeAgentID_idem:
  "hd (NormalizeAgentID ident) \<noteq> CHR ''_'' \<Longrightarrow>
   NormalizeAgentID (NormalizeAgentID ident) = NormalizeAgentID ident"
  by (intro NormalizeAgentID_valid id_shape_matches NormalizeAgentID_id_shape)

text \<open>Whatever the configuration or a channel supplies, a normalized agent or account identifier
  is non-empty, has at most 64 characters, uses only lower-case letters, digits, underscores and
  dashes, and does not start with a dash.\<close>

theorem normalized_ids_well_formed:
  "id_shape (NormalizeAgentID ident) \<and> id_shape (NormalizeAccountID ident)"
  by (simp add: NormalizeAgentID_id_shape NormalizeAccountID_id_shape)

text \<open>The comment of \<open>NormalizeAgentID\<close> promises the language of \<open>validIDRe\<close> and that trailing
  dashes are stripped; neither holds for every input: an identifier that starts with an underscore
  is returned as it is, and one cut at 64 characters can end with a dash.\<close>

theorem normalized_id_outside_documented_shape:
  "NormalizeAgentID ''_ops'' = ''_ops'' \<and> \<not> matches_validIDRe ''_ops'' \<and>
   last (NormalizeAgentID (replicate 63 CHR ''a'' @ ''!b'')) = dash"
  by code_simp

end
