(* ===== verification/SessionKey.thy ===== *)
theory SessionKey
  imports AgentId
begin

text \<open>
  Session keys: \<open>pkg/routing/session_key.go\<close>. A key is \<open>agent:<agent>:<rest>\<close>; the functions here
  build the keys of the direct-message scopes, of groups and of heartbeats, and parse them back.

  \<open>IdentityLinks\<close> is a Go map, which is iterated in an unspecified order: it is modelled as the list
  of its entries in the order of the iteration, so a statement about every list is a statement
  about every order.
\<close>

datatype DMScope =
  DMScopeUnset | DMScopeMain | DMScopePerPeer | DMScopePerChannelPeer
| DMScopePerAccountChannelPeer | DMScopeOther string

text \<open>\<open>DMScope(cfg)\<close>: the configured string as a scope.\<close>

definition DMScope_of :: "string \<Rightarrow> DMScope" where
  "DMScope_of s =
     (if s = '''' then DMScopeUnset
      else if s = ''main'' then DMScopeMain
      else if s = ''per-peer'' then DMScopePerPeer
      else if s = ''per-channel-peer'' then DMScopePerChannelPeer
      else if s = ''per-account-channel-peer'' then DMScopePerAccountChannelPeer
      else DMScopeOther s)"

record RoutePeer =
  Kind :: string
  PeerID :: string

type_synonym identity_links = "(string \<times> string list) list"

record SessionKeyParams =
  AgentID :: string
  Channel :: string
  AccountID :: string
  Peer :: "RoutePeer option"
  Scope :: DMScope
  IdentityLinks :: identity_links

record ParsedSessionKey =
  ParsedAgentID :: string
  Rest :: string

datatype key_panic = HeartbeatRunIDRequired

abbreviation colon :: char where "colon \<equiv> CHR '':''"

definition BuildAgentMainSessionKey :: "string \<Rightarrow> string" where
  "BuildAgentMainSessionKey agentID =
     ''agent:'' @ NormalizeAgentID agentID @ colon # DefaultMainKey"

definition BuildAgentHeartbeatSessionKey :: "string \<Rightarrow> string" where
  "BuildAgentHeartbeatSessionKey agentID =
     ''agent:'' @ NormalizeAgentID agentID @ colon # DefaultHeartbeatKey"

definition BuildAgentHeartbeatRunSessionKey :: "string \<Rightarrow> string \<Rightarrow> key_panic + string" where
  "BuildAgentHeartbeatRunSessionKey agentID runID =
     (let normalizedRunID = TrimSpace (ToLower runID) in
      if normalizedRunID = [] then Inl HeartbeatRunIDRequired
      else Inr (''agent:'' @ NormalizeAgentID agentID @ colon # DefaultHeartbeatKey @
             colon # normalizedRunID))"

definition normalizeChannel :: "string \<Rightarrow> string" where
  "normalizeChannel channel =
     (let c = TrimSpace (ToLower channel) in if c = [] then ''unknown'' else c)"

text \<open>The keys of the map \<open>candidates\<close> that \<open>resolveLinkedPeerID\<close> builds.\<close>

definition link_candidates :: "string \<Rightarrow> string \<Rightarrow> string list" where
  "link_candidates channel peerID =
     (let rawCandidate = ToLower peerID;
          ch = ToLower (TrimSpace channel);
          scoped = (if ch \<noteq> [] then [ch @ colon # ToLower peerID] else []);
          bare = (case Index rawCandidate [colon] of
                    Some idx \<Rightarrow>
                      if 0 < idx \<and> idx < length rawCandidate - 1
                      then [drop (Suc idx) rawCandidate] else []
                  | None \<Rightarrow> [])
      in (if rawCandidate \<noteq> [] then [rawCandidate] else []) @ scoped @ bare)"

fun link_lookup :: "string list \<Rightarrow> identity_links \<Rightarrow> string" where
  "link_lookup candidates [] = ''''"
| "link_lookup candidates ((canonical, ids) # rest) =
     (let canonicalName = TrimSpace canonical in
      if canonicalName = [] then link_lookup candidates rest
      else if \<exists>i \<in> set ids. ToLower (TrimSpace i) \<noteq> [] \<and> ToLower (TrimSpace i) \<in> set candidates
      then canonicalName
      else link_lookup candidates rest)"

definition resolveLinkedPeerID :: "identity_links \<Rightarrow> string \<Rightarrow> string \<Rightarrow> string" where
  "resolveLinkedPeerID identityLinks channel peerID =
     (if identityLinks = [] then ''''
      else let p = TrimSpace peerID in
        if p = [] then ''''
        else let candidates = link_candidates channel p in
          if candidates = [] then '''' else link_lookup candidates identityLinks)"

definition BuildAgentPeerSessionKey :: "SessionKeyParams \<Rightarrow> string" where
  "BuildAgentPeerSessionKey params =
     (let agentID = NormalizeAgentID (AgentID params);
          peer = (case Peer params of
                    None \<Rightarrow> \<lparr>Kind = ''direct'', PeerID = ''''\<rparr> | Some p \<Rightarrow> p);
          peerKind = (if TrimSpace (Kind peer) = [] then ''direct'' else TrimSpace (Kind peer))
      in
      if peerKind = ''direct'' then
        let dmScope = (if Scope params = DMScopeUnset then DMScopeMain else Scope params);
            peerID0 = TrimSpace (PeerID peer);
            linked = resolveLinkedPeerID (IdentityLinks params) (Channel params) peerID0;
            peerID1 = (if dmScope \<noteq> DMScopeMain \<and> peerID0 \<noteq> [] \<and> linked \<noteq> []
                       then linked else peerID0);
            peerID = ToLower peerID1
        in
        (case dmScope of
           DMScopePerAccountChannelPeer \<Rightarrow>
             if peerID \<noteq> [] then
               ''agent:'' @ agentID @ colon # normalizeChannel (Channel params) @
               colon # NormalizeAccountID (AccountID params) @ '':direct:'' @ peerID
             else BuildAgentMainSessionKey agentID
         | DMScopePerChannelPeer \<Rightarrow>
             if peerID \<noteq> [] then
               ''agent:'' @ agentID @ colon # normalizeChannel (Channel params) @
               '':direct:'' @ peerID
             else BuildAgentMainSessionKey agentID
         | DMScopePerPeer \<Rightarrow>
             if peerID \<noteq> [] then ''agent:'' @ agentID @ '':direct:'' @ peerID
             else BuildAgentMainSessionKey agentID
         | _ \<Rightarrow> BuildAgentMainSessionKey agentID)
      else
        let channel = normalizeChannel (Channel params);
            peerID0 = ToLower (TrimSpace (PeerID peer));
            peerID = (if peerID0 = [] then ''unknown'' else peerID0)
        in ''agent:'' @ agentID @ colon # channel @ colon # peerKind @ colon # peerID)"

definition ParseAgentSessionKey :: "string \<Rightarrow> ParsedSessionKey option" where
  "ParseAgentSessionKey sessionKey =
     (let raw = TrimSpace sessionKey in
      if raw = [] then None
      else case SplitN colon 3 raw of
        [p0, p1, p2] \<Rightarrow>
          if p0 \<noteq> ''agent'' then None
          else let agentID = TrimSpace p1 in
            if agentID = [] \<or> p2 = [] then None
            else Some \<lparr>ParsedAgentID = agentID, Rest = p2\<rparr>
      | _ \<Rightarrow> None)"

definition IsSubagentSessionKey :: "string \<Rightarrow> bool" where
  "IsSubagentSessionKey sessionKey =
     (let raw = TrimSpace sessionKey in
      if raw = [] then False
      else if HasPrefix (ToLower raw) ''subagent:'' then True
      else case ParseAgentSessionKey raw of
        None \<Rightarrow> False
      | Some parsed \<Rightarrow> HasPrefix (ToLower (Rest parsed)) ''subagent:'')"

definition IsHeartbeatSessionKey :: "string \<Rightarrow> bool" where
  "IsHeartbeatSessionKey sessionKey =
     (case ParseAgentSessionKey (TrimSpace sessionKey) of
        None \<Rightarrow> False
      | Some parsed \<Rightarrow>
          let rest = ToLower (TrimSpace (Rest parsed)) in
          rest = DefaultHeartbeatKey \<or> HasPrefix rest (DefaultHeartbeatKey @ [colon]))"

section \<open>Keys that are built can be parsed\<close>

text \<open>The general parsing lemma: an agent identifier in normal form and a non-empty trimmed rest.\<close>

lemma trimmed_last_append:
  "t \<noteq> [] \<Longrightarrow> \<not> is_space (last t) \<Longrightarrow> trimmed (''agent:'' @ a @ colon # t)"
  by (simp add: trimmed_def is_space_def)

lemma three_eq: "3 = Suc (Suc (Suc 0))"
  by simp

lemma ParseAgentSessionKey_key:
  assumes "id_shape a" and "r \<noteq> []" and "\<not> is_space (last r)"
  shows "ParseAgentSessionKey (''agent:'' @ a @ colon # r) =
    Some \<lparr>ParsedAgentID = a, Rest = r\<rparr>"
proof -
  let ?k = "''agent:'' @ a @ colon # r"
  have raw: "TrimSpace ?k = ?k"
    using assms(2,3) by (intro TrimSpace_trimmed trimmed_last_append)
  have "SplitN colon 3 ?k = SplitN colon (Suc (Suc (Suc 0))) (''agent'' @ colon # (a @ colon # r))"
    by (simp only: three_eq append.simps)
  also have "\<dots> = ''agent'' # SplitN colon (Suc (Suc 0)) (a @ colon # r)"
    by (rule SplitN_cut) simp
  also have "\<dots> = [''agent'', a, r]"
    using id_shape_no_colon [OF assms(1)] by (subst SplitN_cut) simp_all
  finally have split: "SplitN colon 3 ?k = [''agent'', a, r]" .
  have "TrimSpace a = a" "a \<noteq> []"
    using assms(1) by (simp_all add: TrimSpace_trimmed id_shape_trimmed id_shape_nonempty)
  with raw split assms(2) show ?thesis
    by (simp add: ParseAgentSessionKey_def)
qed

text \<open>Every built key has this form, with a rest that survives trimming.\<close>

definition good_rest :: "string \<Rightarrow> bool" where
  "good_rest r \<longleftrightarrow> r \<noteq> [] \<and> \<not> is_space (last r)"

definition is_key :: "string \<Rightarrow> string \<Rightarrow> bool" where
  "is_key a s \<longleftrightarrow> (\<exists>r. s = ''agent:'' @ a @ colon # r \<and> good_rest r)"

lemma is_keyI: "good_rest r \<Longrightarrow> is_key a (''agent:'' @ a @ colon # r)"
  by (auto simp: is_key_def)

lemmas is_key_intro = is_keyI [simplified]

lemma good_rest_append: "good_rest r \<Longrightarrow> good_rest (s @ r)"
  and good_rest_Cons: "good_rest r \<Longrightarrow> good_rest (c # r)"
  by (simp_all add: good_rest_def)

lemma good_rest_trimmed: "trimmed s \<Longrightarrow> s \<noteq> [] \<Longrightarrow> good_rest s"
  by (simp add: trimmed_def good_rest_def)

lemma good_rest_ToLower: "good_rest (ToLower r) = good_rest r"
  by (auto simp: good_rest_def ToLower_def last_map)

lemma good_rest_main: "good_rest DefaultMainKey"
  by (simp add: good_rest_def is_space_def routing_consts)

lemma good_rest_unknown: "good_rest ''unknown''"
  by (simp add: good_rest_def is_space_def)

lemmas good_rest_rules = is_key_intro good_rest_append good_rest_Cons

lemma link_lookup_trimmed: "trimmed (link_lookup cs links)"
  by (induction cs links rule: link_lookup.induct) (simp_all add: Let_def trimmed_def [of "[]"])

lemma resolveLinkedPeerID_trimmed: "trimmed (resolveLinkedPeerID links ch p)"
  by (simp add: resolveLinkedPeerID_def Let_def link_lookup_trimmed trimmed_def [of "[]"])

lemma main_is_key: "is_key (NormalizeAgentID a) (BuildAgentMainSessionKey a)"
  unfolding BuildAgentMainSessionKey_def by (intro is_keyI good_rest_main)

text \<open>The agent part of a peer key is the normalized agent, normalized once more where the key of
  a direct message falls back to the main key.\<close>

lemma peer_is_key:
  "\<exists>a \<in> {NormalizeAgentID (AgentID p), NormalizeAgentID (NormalizeAgentID (AgentID p))}.
     is_key a (BuildAgentPeerSessionKey p)"
proof -
  define a where "a = NormalizeAgentID (AgentID p)"
  define peer where
    "peer = (case Peer p of None \<Rightarrow> \<lparr>Kind = ''direct'', PeerID = ''''\<rparr> | Some q \<Rightarrow> q)"
  define kind where
    "kind = (if TrimSpace (Kind peer) = [] then ''direct'' else TrimSpace (Kind peer))"
  define scope where "scope = (if Scope p = DMScopeUnset then DMScopeMain else Scope p)"
  define pid where "pid = TrimSpace (PeerID peer)"
  define linked where "linked = resolveLinkedPeerID (IdentityLinks p) (Channel p) pid"
  define dm where
    "dm = ToLower (if scope \<noteq> DMScopeMain \<and> pid \<noteq> [] \<and> linked \<noteq> [] then linked else pid)"
  define grp where "grp = (if ToLower pid = [] then ''unknown'' else ToLower pid)"
  define ch where "ch = normalizeChannel (Channel p)"
  define acc where "acc = NormalizeAccountID (AccountID p)"
  have eq: "BuildAgentPeerSessionKey p =
    (if kind = ''direct'' then
       (case scope of
          DMScopePerAccountChannelPeer \<Rightarrow>
            if dm \<noteq> [] then ''agent:'' @ a @ colon # ch @ colon # acc @ '':direct:'' @ dm
            else BuildAgentMainSessionKey a
        | DMScopePerChannelPeer \<Rightarrow>
            if dm \<noteq> [] then ''agent:'' @ a @ colon # ch @ '':direct:'' @ dm
            else BuildAgentMainSessionKey a
        | DMScopePerPeer \<Rightarrow>
            if dm \<noteq> [] then ''agent:'' @ a @ '':direct:'' @ dm else BuildAgentMainSessionKey a
        | _ \<Rightarrow> BuildAgentMainSessionKey a)
     else ''agent:'' @ a @ colon # ch @ colon # kind @ colon # grp)"
    unfolding BuildAgentPeerSessionKey_def Let_def a_def peer_def kind_def scope_def pid_def
      linked_def dm_def grp_def ch_def acc_def ..
  have dm: "dm \<noteq> [] \<Longrightarrow> good_rest dm"
    unfolding dm_def good_rest_ToLower
    by (rule good_rest_trimmed) (simp_all add: pid_def linked_def resolveLinkedPeerID_trimmed)
  have grp: "good_rest grp"
    by (simp add: grp_def good_rest_unknown good_rest_trimmed pid_def good_rest_ToLower)
  have main: "is_key (NormalizeAgentID a) (BuildAgentMainSessionKey a)"
    by (rule main_is_key)
  show ?thesis
    unfolding a_def [symmetric] eq
    by (cases scope) (use main in \<open>auto intro!: good_rest_rules dm grp\<close>)
qed

lemma is_key_parse:
  assumes "id_shape a" and "is_key a s"
  shows "\<exists>r. ParseAgentSessionKey s = Some \<lparr>ParsedAgentID = a, Rest = r\<rparr>"
proof -
  from assms(2) obtain r where "s = ''agent:'' @ a @ colon # r" "good_rest r"
    by (auto simp: is_key_def)
  with ParseAgentSessionKey_key [OF assms(1)] show ?thesis
    by (auto simp: good_rest_def)
qed

lemma is_key_ToLower: "id_shape a \<Longrightarrow> is_key a s \<Longrightarrow> is_key a (ToLower s)"
  by (auto simp: is_key_def id_shape_lower good_rest_ToLower lower_char_def is_upper_def)

text \<open>Round trip of session keys: the key that is built for a peer, in the lower case in which
  routing stores it, parses back to the normalized agent, whatever the channel, the account, the
  peer and the identity links are (for an agent identifier that does not normalize to a name with
  a leading underscore).\<close>

theorem peer_session_key_parses:
  assumes "hd (NormalizeAgentID (AgentID p)) \<noteq> CHR ''_''"
  shows "\<exists>r. ParseAgentSessionKey (ToLower (BuildAgentPeerSessionKey p)) =
    Some \<lparr>ParsedAgentID = NormalizeAgentID (AgentID p), Rest = r\<rparr>"
proof -
  let ?a = "NormalizeAgentID (AgentID p)"
  from peer_is_key [of p] have "is_key ?a (BuildAgentPeerSessionKey p)"
    by (simp add: NormalizeAgentID_idem [OF assms])
  then have "is_key ?a (ToLower (BuildAgentPeerSessionKey p))"
    by (intro is_key_ToLower NormalizeAgentID_id_shape)
  then show ?thesis
    by (intro is_key_parse NormalizeAgentID_id_shape)
qed

theorem peer_session_key_parses_witness:
  "\<exists>r. ParseAgentSessionKey (ToLower (BuildAgentPeerSessionKey
     \<lparr>AgentID = ''Ops Bot'', Channel = ''telegram'', AccountID = '''', Peer = None,
      Scope = DMScopeMain, IdentityLinks = []\<rparr>)) = Some \<lparr>ParsedAgentID = ''ops-bot'', Rest = r\<rparr>"
proof -
  let ?p = "\<lparr>AgentID = ''Ops Bot'', Channel = ''telegram'', AccountID = '''', Peer = None,
      Scope = DMScopeMain, IdentityLinks = []\<rparr>"
  have n: "NormalizeAgentID ''Ops Bot'' = ''ops-bot''" by code_simp
  have "hd (NormalizeAgentID (AgentID ?p)) \<noteq> CHR ''_''" by (simp add: n)
  from peer_session_key_parses [OF this] show ?thesis by (simp add: n)
qed

end
