(* ===== verification/Route.thy ===== *)
theory Route
  imports SessionKey
begin

text \<open>
  Agent routing: \<open>pkg/routing/route.go\<close>, with the configuration types it reads
  (\<open>pkg/config/config.go\<close>). \<open>ResolveRoute\<close> goes through the seven tiers of bindings in order and
  builds the session keys of the agent it picks.
\<close>

record PeerMatch =
  MatchKind :: string
  MatchPeerID :: string

record BindingMatch =
  MatchChannel :: string
  MatchAccountID :: string
  MatchPeer :: "PeerMatch option"
  MatchGuildID :: string
  MatchTeamID :: string

record AgentBinding =
  BindAgentID :: string
  Match :: BindingMatch

record AgentConfig =
  ConfID :: string
  Default :: bool

record RouteConfig =
  Agents :: "AgentConfig list"
  Bindings :: "AgentBinding list"
  ConfDMScope :: string
  ConfIdentityLinks :: identity_links

record RouteInput =
  InChannel :: string
  InAccountID :: string
  InPeer :: "RoutePeer option"
  InParentPeer :: "RoutePeer option"
  InGuildID :: string
  InTeamID :: string

datatype MatchedBy =
  BindingPeer | BindingPeerParent | BindingGuild | BindingTeam | BindingAccount
| BindingChannel | DefaultRoute

record ResolvedRoute =
  RouteAgentID :: string
  RouteChannel :: string
  RouteAccountID :: string
  RouteSessionKey :: string
  RouteMainSessionKey :: string
  RouteMatchedBy :: MatchedBy

section \<open>Matching bindings\<close>

definition matchesAccountID :: "string \<Rightarrow> string \<Rightarrow> bool" where
  "matchesAccountID matchAccountID actual =
     (let t = TrimSpace matchAccountID in
      if t = [] then actual = DefaultAccountID
      else if t = ''*'' then True
      else ToLower t = ToLower actual)"

definition binding_applies :: "string \<Rightarrow> string \<Rightarrow> AgentBinding \<Rightarrow> bool" where
  "binding_applies channel accountID b =
     (let matchChannel = ToLower (TrimSpace (MatchChannel (Match b))) in
      \<not> (matchChannel = [] \<or> matchChannel \<noteq> channel) \<and>
      matchesAccountID (MatchAccountID (Match b)) accountID)"

definition filterBindings :: "RouteConfig \<Rightarrow> string \<Rightarrow> string \<Rightarrow> AgentBinding list" where
  "filterBindings cfg channel accountID =
     filter (binding_applies channel accountID) (Bindings cfg)"

definition peer_matches :: "RoutePeer \<Rightarrow> AgentBinding \<Rightarrow> bool" where
  "peer_matches peer b =
     (case MatchPeer (Match b) of
        None \<Rightarrow> False
      | Some mp \<Rightarrow>
          let peerKind = ToLower (TrimSpace (MatchKind mp));
              peerID = TrimSpace (MatchPeerID mp)
          in \<not> (peerKind = [] \<or> peerID = []) \<and>
             peerKind = ToLower (Kind peer) \<and> peerID = PeerID peer)"

definition findPeerMatch :: "AgentBinding list \<Rightarrow> RoutePeer \<Rightarrow> AgentBinding option" where
  "findPeerMatch bindings peer = List.find (peer_matches peer) bindings"

definition guild_matches :: "string \<Rightarrow> AgentBinding \<Rightarrow> bool" where
  "guild_matches guildID b =
     (let matchGuild = TrimSpace (MatchGuildID (Match b)) in
      matchGuild \<noteq> [] \<and> matchGuild = guildID)"

definition findGuildMatch :: "AgentBinding list \<Rightarrow> string \<Rightarrow> AgentBinding option" where
  "findGuildMatch bindings guildID = List.find (guild_matches guildID) bindings"

definition team_matches :: "string \<Rightarrow> AgentBinding \<Rightarrow> bool" where
  "team_matches teamID b =
     (let matchTeam = TrimSpace (MatchTeamID (Match b)) in
      matchTeam \<noteq> [] \<and> matchTeam = teamID)"

definition findTeamMatch :: "AgentBinding list \<Rightarrow> string \<Rightarrow> AgentBinding option" where
  "findTeamMatch bindings teamID = List.find (team_matches teamID) bindings"

definition narrow :: "AgentBinding \<Rightarrow> bool" where
  "narrow b \<longleftrightarrow>
     MatchPeer (Match b) \<noteq> None \<or> MatchGuildID (Match b) \<noteq> [] \<or> MatchTeamID (Match b) \<noteq> []"

definition account_matches :: "AgentBinding \<Rightarrow> bool" where
  "account_matches b \<longleftrightarrow> TrimSpace (MatchAccountID (Match b)) \<noteq> ''*'' \<and> \<not> narrow b"

definition findAccountMatch :: "AgentBinding list \<Rightarrow> AgentBinding option" where
  "findAccountMatch bindings = List.find account_matches bindings"

definition wildcard_matches :: "AgentBinding \<Rightarrow> bool" where
  "wildcard_matches b \<longleftrightarrow> TrimSpace (MatchAccountID (Match b)) = ''*'' \<and> \<not> narrow b"

definition findChannelWildcardMatch :: "AgentBinding list \<Rightarrow> AgentBinding option" where
  "findChannelWildcardMatch bindings = List.find wildcard_matches bindings"

section \<open>Choosing the agent\<close>

definition resolveDefaultAgentID :: "RouteConfig \<Rightarrow> string" where
  "resolveDefaultAgentID cfg =
     (case Agents cfg of
        [] \<Rightarrow> DefaultAgentID
      | first # _ \<Rightarrow>
          (case List.find (\<lambda>a. Default a \<and> TrimSpace (ConfID a) \<noteq> []) (Agents cfg) of
             Some a \<Rightarrow> NormalizeAgentID (TrimSpace (ConfID a))
           | None \<Rightarrow>
               if TrimSpace (ConfID first) \<noteq> [] then NormalizeAgentID (TrimSpace (ConfID first))
               else DefaultAgentID))"

definition pickAgentID :: "RouteConfig \<Rightarrow> string \<Rightarrow> string" where
  "pickAgentID cfg agentID =
     (let t = TrimSpace agentID in
      if t = [] then NormalizeAgentID (resolveDefaultAgentID cfg)
      else let normalized = NormalizeAgentID t in
        if Agents cfg = [] then normalized
        else if \<exists>a \<in> set (Agents cfg). NormalizeAgentID (ConfID a) = normalized then normalized
        else NormalizeAgentID (resolveDefaultAgentID cfg))"

text \<open>The closure \<open>choose\<close> of \<open>ResolveRoute\<close>.\<close>

definition choose_route :: "RouteConfig \<Rightarrow> RouteInput \<Rightarrow> string \<Rightarrow> MatchedBy \<Rightarrow> ResolvedRoute" where
  "choose_route cfg inp agentID matchedBy =
     (let channel = ToLower (TrimSpace (InChannel inp));
          accountID = NormalizeAccountID (InAccountID inp);
          dmScope0 = DMScope_of (ConfDMScope cfg);
          dmScope = (if dmScope0 = DMScopeUnset then DMScopeMain else dmScope0);
          resolvedAgentID = pickAgentID cfg agentID;
          sessionKey = ToLower (BuildAgentPeerSessionKey
            \<lparr>AgentID = resolvedAgentID, Channel = channel, AccountID = accountID,
             Peer = InPeer inp, Scope = dmScope, IdentityLinks = ConfIdentityLinks cfg\<rparr>)
      in \<lparr>RouteAgentID = resolvedAgentID, RouteChannel = channel, RouteAccountID = accountID,
          RouteSessionKey = sessionKey,
          RouteMainSessionKey = ToLower (BuildAgentMainSessionKey resolvedAgentID),
          RouteMatchedBy = matchedBy\<rparr>)"

definition ResolveRoute :: "RouteConfig \<Rightarrow> RouteInput \<Rightarrow> ResolvedRoute" where
  "ResolveRoute cfg inp =
     (let channel = ToLower (TrimSpace (InChannel inp));
          accountID = NormalizeAccountID (InAccountID inp);
          bindings = filterBindings cfg channel accountID;
          by_peer = (\<lambda>peer. case peer of None \<Rightarrow> None
            | Some p \<Rightarrow> if TrimSpace (PeerID p) = [] then None else findPeerMatch bindings p);
          guildID = TrimSpace (InGuildID inp);
          teamID = TrimSpace (InTeamID inp)
      in
      case by_peer (InPeer inp) of
        Some m \<Rightarrow> choose_route cfg inp (BindAgentID m) BindingPeer
      | None \<Rightarrow>
      (case by_peer (InParentPeer inp) of
        Some m \<Rightarrow> choose_route cfg inp (BindAgentID m) BindingPeerParent
      | None \<Rightarrow>
      (case (if guildID = [] then None else findGuildMatch bindings guildID) of
        Some m \<Rightarrow> choose_route cfg inp (BindAgentID m) BindingGuild
      | None \<Rightarrow>
      (case (if teamID = [] then None else findTeamMatch bindings teamID) of
        Some m \<Rightarrow> choose_route cfg inp (BindAgentID m) BindingTeam
      | None \<Rightarrow>
      (case findAccountMatch bindings of
        Some m \<Rightarrow> choose_route cfg inp (BindAgentID m) BindingAccount
      | None \<Rightarrow>
      (case findChannelWildcardMatch bindings of
        Some m \<Rightarrow> choose_route cfg inp (BindAgentID m) BindingChannel
      | None \<Rightarrow> choose_route cfg inp (resolveDefaultAgentID cfg) DefaultRoute))))))"

section \<open>The priority cascade\<close>

text \<open>The specification of routing, tier by tier: which bindings a tier accepts for an input.\<close>

fun tier_accepts :: "MatchedBy \<Rightarrow> RouteInput \<Rightarrow> AgentBinding \<Rightarrow> bool" where
  "tier_accepts BindingPeer inp b =
     (case InPeer inp of None \<Rightarrow> False | Some p \<Rightarrow> TrimSpace (PeerID p) \<noteq> [] \<and> peer_matches p b)"
| "tier_accepts BindingPeerParent inp b =
     (case InParentPeer inp of None \<Rightarrow> False
      | Some p \<Rightarrow> TrimSpace (PeerID p) \<noteq> [] \<and> peer_matches p b)"
| "tier_accepts BindingGuild inp b =
     (TrimSpace (InGuildID inp) \<noteq> [] \<and> guild_matches (TrimSpace (InGuildID inp)) b)"
| "tier_accepts BindingTeam inp b =
     (TrimSpace (InTeamID inp) \<noteq> [] \<and> team_matches (TrimSpace (InTeamID inp)) b)"
| "tier_accepts BindingAccount inp b = account_matches b"
| "tier_accepts BindingChannel inp b = wildcard_matches b"
| "tier_accepts DefaultRoute inp b = False"

definition tiers :: "MatchedBy list" where
  "tiers = [BindingPeer, BindingPeerParent, BindingGuild, BindingTeam, BindingAccount, BindingChannel]"

text \<open>The first tier with a binding it accepts, and its first such binding.\<close>

fun first_match :: "MatchedBy list \<Rightarrow> RouteInput \<Rightarrow> AgentBinding list \<Rightarrow> (MatchedBy \<times> AgentBinding) option" where
  "first_match [] inp bs = None"
| "first_match (t # ts) inp bs =
     (case List.find (tier_accepts t inp) bs of
        Some b \<Rightarrow> Some (t, b) | None \<Rightarrow> first_match ts inp bs)"

definition route_bindings :: "RouteConfig \<Rightarrow> RouteInput \<Rightarrow> AgentBinding list" where
  "route_bindings cfg inp =
     filterBindings cfg (ToLower (TrimSpace (InChannel inp))) (NormalizeAccountID (InAccountID inp))"

lemma find_False [simp]: "List.find (\<lambda>_. False) bs = None"
  by (induction bs) auto

lemma find_tier:
  "List.find (tier_accepts BindingPeer inp) bs =
     (case InPeer inp of None \<Rightarrow> None
      | Some p \<Rightarrow> if TrimSpace (PeerID p) = [] then None else findPeerMatch bs p)"
  "List.find (tier_accepts BindingPeerParent inp) bs =
     (case InParentPeer inp of None \<Rightarrow> None
      | Some p \<Rightarrow> if TrimSpace (PeerID p) = [] then None else findPeerMatch bs p)"
  "List.find (tier_accepts BindingGuild inp) bs =
     (if TrimSpace (InGuildID inp) = [] then None
      else findGuildMatch bs (TrimSpace (InGuildID inp)))"
  "List.find (tier_accepts BindingTeam inp) bs =
     (if TrimSpace (InTeamID inp) = [] then None
      else findTeamMatch bs (TrimSpace (InTeamID inp)))"
  "List.find (tier_accepts BindingAccount inp) bs = findAccountMatch bs"
  "List.find (tier_accepts BindingChannel inp) bs = findChannelWildcardMatch bs"
  by (induction bs)
    (auto simp: findPeerMatch_def findGuildMatch_def findTeamMatch_def findAccountMatch_def
      findChannelWildcardMatch_def split: option.splits)

lemma ResolveRoute_first_match:
  "ResolveRoute cfg inp =
     (case first_match tiers inp (route_bindings cfg inp) of
        Some (t, b) \<Rightarrow> choose_route cfg inp (BindAgentID b) t
      | None \<Rightarrow> choose_route cfg inp (resolveDefaultAgentID cfg) DefaultRoute)"
  unfolding ResolveRoute_def Let_def tiers_def first_match.simps find_tier route_bindings_def
  by (auto split: option.splits)

lemma find_Some_first:
  "List.find P xs = Some x \<Longrightarrow> \<exists>pre post. xs = pre @ x # post \<and> P x \<and> (\<forall>y \<in> set pre. \<not> P y)"
proof (induction xs)
  case (Cons y ys)
  show ?case
  proof (cases "P y")
    case True
    with Cons.prems show ?thesis by (intro exI [of _ "[]"] exI [of _ ys]) auto
  next
    case False
    with Cons obtain pre post where "ys = pre @ x # post" "P x" "\<forall>z \<in> set pre. \<not> P z" by auto
    with False show ?thesis by (intro exI [of _ "y # pre"] exI [of _ post]) auto
  qed
qed simp

lemma first_match_Some:
  "first_match ts inp bs = Some (t, b) \<Longrightarrow>
   t \<in> set ts \<and> (\<exists>pre post. bs = pre @ b # post \<and> tier_accepts t inp b \<and> (\<forall>c \<in> set pre. \<not> tier_accepts t inp c)) \<and>
   (\<forall>u \<in> set (takeWhile (\<lambda>u. u \<noteq> t) ts). \<forall>c \<in> set bs. \<not> tier_accepts u inp c)"
proof (induction ts)
  case (Cons u ts)
  show ?case
  proof (cases "List.find (tier_accepts u inp) bs")
    case None
    with Cons have "t \<in> set ts \<and> (\<exists>pre post. bs = pre @ b # post \<and> tier_accepts t inp b \<and> (\<forall>c \<in> set pre. \<not> tier_accepts t inp c)) \<and>
      (\<forall>u \<in> set (takeWhile (\<lambda>u. u \<noteq> t) ts). \<forall>c \<in> set bs. \<not> tier_accepts u inp c)" by auto
    with None show ?thesis by (auto simp: find_None_all)
  next
    case (Some c)
    with Cons.prems have "t = u" "c = b" by auto
    with find_Some_first [OF Some] show ?thesis by auto
  qed
qed simp

lemma first_match_None:
  "first_match ts inp bs = None \<longleftrightarrow> (\<forall>t \<in> set ts. \<forall>b \<in> set bs. \<not> tier_accepts t inp b)"
  by (induction ts) (auto simp: find_None_all split: option.splits dest: find_Some_in)

text \<open>The bindings that a message is subject to: those of its channel and of its account (a binding without an account is for the
  default one, and \<open>*\<close> for all).\<close>

definition concerns :: "RouteInput \<Rightarrow> AgentBinding \<Rightarrow> bool" where
  "concerns inp b \<longleftrightarrow>
     TrimSpace (MatchChannel (Match b)) \<noteq> [] \<and> EqualFold (TrimSpace (MatchChannel (Match b))) (TrimSpace (InChannel inp)) \<and>
     (let account = TrimSpace (MatchAccountID (Match b)) in
      if account = [] then NormalizeAccountID (InAccountID inp) = DefaultAccountID
      else account = ''*'' \<or> EqualFold account (NormalizeAccountID (InAccountID inp)))"

lemma route_bindings_concern: "route_bindings cfg inp = filter (concerns inp) (Bindings cfg)"
  by (auto simp: route_bindings_def filterBindings_def binding_applies_def concerns_def matchesAccountID_def EqualFold_def Let_def
      split: if_splits intro!: filter_cong)

lemma NormalizeAgentID_TrimSpace [simp]: "NormalizeAgentID (TrimSpace s) = NormalizeAgentID s"
  by (simp add: NormalizeAgentID_def)

lemma pickAgentID_cases:
  "pickAgentID cfg a =
     (if TrimSpace a \<noteq> [] \<and> (Agents cfg = [] \<or> (\<exists>c \<in> set (Agents cfg). NormalizeAgentID (ConfID c) = NormalizeAgentID a))
      then NormalizeAgentID a else NormalizeAgentID (resolveDefaultAgentID cfg))"
  by (simp add: pickAgentID_def Let_def)

lemma choose_route_fields:
  "RouteAgentID (choose_route cfg inp a t) = pickAgentID cfg a"
  "RouteMatchedBy (choose_route cfg inp a t) = t"
  "RouteMainSessionKey (choose_route cfg inp a t) =
     ToLower (BuildAgentMainSessionKey (pickAgentID cfg a))"
  by (simp_all add: choose_route_def Let_def)

text \<open>C2. The seven-level priority cascade. Among the bindings of the message's channel and account, the route is decided by the first
  tier (peer, parent peer, guild, team, account, channel) that accepts a binding, and in it by the first binding in the order of the
  configuration: no tier before accepts any, and no binding before is accepted by it. The agent is the one that this binding names,
  or, when it names none or one that is not configured, the default agent. Where no tier accepts a binding the default agent is
  taken.\<close>

theorem ResolveRoute_cascade:
  defines "default_agent \<equiv> \<lambda>cfg. NormalizeAgentID (resolveDefaultAgentID cfg)"
    and "known \<equiv> \<lambda>cfg a. Agents cfg = [] \<or> (\<exists>c \<in> set (Agents cfg). NormalizeAgentID (ConfID c) = NormalizeAgentID a)"
  assumes "r = ResolveRoute cfg inp" and "bs = filter (concerns inp) (Bindings cfg)"
  shows "if RouteMatchedBy r = DefaultRoute
    then (\<forall>t \<in> set tiers. \<forall>b \<in> set bs. \<not> tier_accepts t inp b) \<and> RouteAgentID r = default_agent cfg
    else RouteMatchedBy r \<in> set tiers \<and>
      (\<forall>t \<in> set (takeWhile (\<lambda>t. t \<noteq> RouteMatchedBy r) tiers). \<forall>b \<in> set bs. \<not> tier_accepts t inp b) \<and>
      (\<exists>pre b post. bs = pre @ b # post \<and> tier_accepts (RouteMatchedBy r) inp b \<and>
        (\<forall>c \<in> set pre. \<not> tier_accepts (RouteMatchedBy r) inp c) \<and>
        RouteAgentID r = (if TrimSpace (BindAgentID b) \<noteq> [] \<and> known cfg (BindAgentID b) then NormalizeAgentID (BindAgentID b)
                          else default_agent cfg))"
proof (cases "first_match tiers inp (route_bindings cfg inp)")
  case None
  then have "r = choose_route cfg inp (resolveDefaultAgentID cfg) DefaultRoute" by (simp add: assms(3) ResolveRoute_first_match)
  moreover have "pickAgentID cfg (resolveDefaultAgentID cfg) = default_agent cfg"
    by (simp add: pickAgentID_cases default_agent_def)
  ultimately show ?thesis
    using None [unfolded first_match_None route_bindings_concern] by (simp add: choose_route_fields assms(4))
next
  case (Some tb)
  obtain t b where tb: "tb = (t, b)" by fastforce
  with Some have r: "r = choose_route cfg inp (BindAgentID b) t" by (simp add: assms(3) ResolveRoute_first_match)
  note first = first_match_Some [OF Some [unfolded tb route_bindings_concern], folded assms(4)]
  then have "t \<noteq> DefaultRoute" by (auto simp: tiers_def)
  moreover have "pickAgentID cfg (BindAgentID b) = (if TrimSpace (BindAgentID b) \<noteq> [] \<and> known cfg (BindAgentID b)
      then NormalizeAgentID (BindAgentID b) else default_agent cfg)"
    by (simp add: pickAgentID_cases default_agent_def known_def)
  ultimately show ?thesis
    using first r by (auto simp: choose_route_fields)
qed

section \<open>Which agent and which session\<close>

definition configured :: "RouteConfig \<Rightarrow> string \<Rightarrow> bool" where
  "configured cfg a \<longleftrightarrow>
     (\<exists>c \<in> set (Agents cfg). TrimSpace (ConfID c) \<noteq> [] \<and> a = NormalizeAgentID (TrimSpace (ConfID c)))"

lemma resolveDefaultAgentID_cases:
  "resolveDefaultAgentID cfg = DefaultAgentID \<or> configured cfg (resolveDefaultAgentID cfg)"
  by (auto simp: resolveDefaultAgentID_def configured_def dest!: find_Some_in
      split: list.splits option.splits if_splits)

lemma resolveDefaultAgentID_shape: "id_shape (resolveDefaultAgentID cfg)"
  by (auto simp: resolveDefaultAgentID_def default_shapes NormalizeAgentID_id_shape
      split: list.splits option.splits)

lemma pickAgentID_shape: "id_shape (pickAgentID cfg a)"
  by (simp add: pickAgentID_def Let_def NormalizeAgentID_id_shape)

lemma ResolveRoute_chosen:
  "\<exists>a t. ResolveRoute cfg inp = choose_route cfg inp a t"
  unfolding ResolveRoute_first_match by (auto split: option.splits)

text \<open>An agent name as it should be written in the configuration: it does not normalize to a name
  with a leading underscore.\<close>

definition plain_agents :: "RouteConfig \<Rightarrow> bool" where
  "plain_agents cfg \<longleftrightarrow>
     (\<forall>a \<in> set (Agents cfg). hd (NormalizeAgentID (ConfID a)) \<noteq> CHR ''_'')"

lemma plain_configured:
  "plain_agents cfg \<Longrightarrow> configured cfg a \<Longrightarrow> NormalizeAgentID a = a"
  by (auto simp: plain_agents_def configured_def NormalizeAgentID_idem)

lemma Normalize_DefaultAgentID [simp]: "NormalizeAgentID DefaultAgentID = DefaultAgentID"
  by code_simp

lemma default_normal:
  "plain_agents cfg \<Longrightarrow> NormalizeAgentID (resolveDefaultAgentID cfg) = resolveDefaultAgentID cfg"
  using resolveDefaultAgentID_cases [of cfg] plain_configured by auto

lemma pickAgentID_known:
  assumes "Agents cfg \<noteq> []" and "plain_agents cfg"
  shows "pickAgentID cfg a = resolveDefaultAgentID cfg \<or>
    (\<exists>c \<in> set (Agents cfg). pickAgentID cfg a = NormalizeAgentID (ConfID c))"
  using assms default_normal [of cfg] unfolding pickAgentID_def Let_def
  by (simp split: if_splits) metis

text \<open>Routing never invents an agent: once agents are configured, the agent of a route is one of
  them or the default agent, also where a binding names an unknown one.\<close>

theorem ResolveRoute_agent_known:
  assumes "Agents cfg \<noteq> []" and "plain_agents cfg"
  shows "RouteAgentID (ResolveRoute cfg inp) = resolveDefaultAgentID cfg \<or>
    (\<exists>c \<in> set (Agents cfg). RouteAgentID (ResolveRoute cfg inp) = NormalizeAgentID (ConfID c))"
proof -
  obtain a t where "ResolveRoute cfg inp = choose_route cfg inp a t"
    using ResolveRoute_chosen by blast
  with pickAgentID_known [OF assms, of a] show ?thesis
    by (simp add: choose_route_fields)
qed

text \<open>The session key of a route belongs to its agent: it parses back to the agent the message is
  routed to, so two agents never share a session of a peer.\<close>

theorem ResolveRoute_session_of_agent:
  assumes "hd (RouteAgentID (ResolveRoute cfg inp)) \<noteq> CHR ''_''"
  shows "\<exists>r. ParseAgentSessionKey (RouteSessionKey (ResolveRoute cfg inp)) =
    Some \<lparr>ParsedAgentID = RouteAgentID (ResolveRoute cfg inp), Rest = r\<rparr>"
proof -
  obtain a t where r: "ResolveRoute cfg inp = choose_route cfg inp a t"
    using ResolveRoute_chosen by blast
  let ?g = "pickAgentID cfg a"
  from assms have "hd ?g \<noteq> CHR ''_''"
    by (simp add: r choose_route_fields)
  then have g: "NormalizeAgentID ?g = ?g"
    by (intro NormalizeAgentID_valid id_shape_matches pickAgentID_shape)
  have key: "is_key ?g (BuildAgentPeerSessionKey p)" if "AgentID p = ?g" for p
    using peer_is_key [of p] g by (simp add: that)
  have "is_key ?g (RouteSessionKey (ResolveRoute cfg inp))"
    by (simp add: r choose_route_def Let_def is_key_ToLower pickAgentID_shape key)
  then have "\<exists>r'. ParseAgentSessionKey (RouteSessionKey (ResolveRoute cfg inp)) =
      Some \<lparr>ParsedAgentID = ?g, Rest = r'\<rparr>"
    by (rule is_key_parse [OF pickAgentID_shape])
  then show ?thesis by (simp add: r choose_route_fields)
qed

section \<open>Witnesses\<close>

definition demo_config :: RouteConfig where
  "demo_config =
     \<lparr>Agents = [\<lparr>ConfID = ''main'', Default = False\<rparr>, \<lparr>ConfID = ''Ops Bot'', Default = True\<rparr>],
      Bindings = [\<lparr>BindAgentID = ''main'', Match = \<lparr>MatchChannel = ''telegram'',
        MatchAccountID = ''*'', MatchPeer = None, MatchGuildID = '''', MatchTeamID = ''''\<rparr>\<rparr>],
      ConfDMScope = ''per-channel-peer'', ConfIdentityLinks = []\<rparr>"

definition demo_input :: RouteInput where
  "demo_input = \<lparr>InChannel = ''Telegram'', InAccountID = '''',
     InPeer = Some \<lparr>Kind = ''direct'', PeerID = ''42''\<rparr>, InParentPeer = None,
     InGuildID = '''', InTeamID = ''''\<rparr>"

theorem ResolveRoute_agent_known_witness:
  "RouteAgentID (ResolveRoute demo_config demo_input) = resolveDefaultAgentID demo_config \<or>
   (\<exists>c \<in> set (Agents demo_config).
      RouteAgentID (ResolveRoute demo_config demo_input) = NormalizeAgentID (ConfID c))"
proof (rule ResolveRoute_agent_known)
  show "Agents demo_config \<noteq> []" by (simp add: demo_config_def)
  show "plain_agents demo_config" by code_simp
qed

theorem ResolveRoute_session_of_agent_witness:
  "\<exists>r. ParseAgentSessionKey (RouteSessionKey (ResolveRoute demo_config demo_input)) =
     Some \<lparr>ParsedAgentID = RouteAgentID (ResolveRoute demo_config demo_input), Rest = r\<rparr>"
proof (rule ResolveRoute_session_of_agent)
  show "hd (RouteAgentID (ResolveRoute demo_config demo_input)) \<noteq> CHR ''_''" by code_simp
qed

theorem ResolveRoute_cascade_witness:
  "\<exists>r. r = ResolveRoute demo_config demo_input \<and>
     (if RouteMatchedBy r = DefaultRoute then RouteAgentID r = NormalizeAgentID (resolveDefaultAgentID demo_config)
      else RouteMatchedBy r \<in> set tiers)"
  using ResolveRoute_cascade [OF refl refl, of demo_config demo_input] by (auto split: if_splits)

end
