(* ===== verification/Float64.thy ===== *)
theory Float64
  imports Prelude Complex_Main
begin

text \<open>
  Go's \<open>float64\<close> arithmetic as the program uses it: a finite non-negative double is a rational
  number, and an operation is the exact operation followed by \<open>fl\<close>, rounding to 53 significant
  bits, ties to even. The values of the program (ratios, scores, token counts below \<open>2 ^ 53\<close>) stay
  far from overflow and from the subnormal range, so exponents are not bounded here.
\<close>

function bits :: "int \<Rightarrow> nat" where
  "bits n = (if n \<le> 0 then 0 else Suc (bits (n div 2)))"
  by pat_completeness auto
termination
  by (relation "measure nat") auto

declare bits.simps [simp del]

definition pow2 :: "int \<Rightarrow> rat" where
  "pow2 e = (if 0 \<le> e then 2 ^ nat e else 1 / 2 ^ nat (- e))"

text \<open>The exponent of the leading bit of a positive rational: \<open>2 ^ e \<le> x < 2 ^ (e + 1)\<close>.\<close>

definition exponent :: "rat \<Rightarrow> int" where
  "exponent x =
     (let (n, d) = quotient_of x;
          e = int (bits n) - int (bits d)
      in if pow2 e \<le> x then e else e - 1)"

definition round_even :: "rat \<Rightarrow> int" where
  "round_even x =
     (let f = \<lfloor>x\<rfloor>; r = x - of_int f in
      if r < 1 / 2 then f else if 1 / 2 < r then f + 1 else if even f then f else f + 1)"

definition fl :: "rat \<Rightarrow> rat" where
  "fl x =
     (if x \<le> 0 then 0
      else let k = 52 - exponent x in of_int (round_even (x * pow2 k)) / pow2 k)"

text \<open>\<open>int(x)\<close> of a non-negative double truncates.\<close>

definition trunc :: "rat \<Rightarrow> int" where
  "trunc x = \<lfloor>x\<rfloor>"

lemma pow2_pos [simp]: "0 < pow2 e"
  by (simp add: pow2_def)

lemma pow2_int: "0 \<le> k \<Longrightarrow> pow2 k = of_int (2 ^ nat k)"
  by (simp add: pow2_def)

lemma round_even_ge: "of_int m \<le> x \<Longrightarrow> m \<le> round_even x"
proof -
  assume "of_int m \<le> x"
  then have "m \<le> \<lfloor>x\<rfloor>" by (simp add: le_floor_iff)
  then show ?thesis by (auto simp: round_even_def Let_def)
qed

lemma round_even_le: "x \<le> of_int m \<Longrightarrow> round_even x \<le> m"
proof -
  assume le: "x \<le> of_int m"
  show ?thesis
  proof (cases "x = of_int m")
    case True
    then show ?thesis by (simp add: round_even_def)
  next
    case False
    with le have "\<lfloor>x\<rfloor> < m" by (simp add: floor_less_iff)
    then show ?thesis by (auto simp: round_even_def Let_def)
  qed
qed

lemma fl_nonneg [simp]: "0 \<le> fl x"
proof (cases "x \<le> 0")
  case False
  let ?k = "52 - exponent x"
  from False have "0 \<le> x * pow2 ?k"
    by (simp add: less_imp_le)
  then have "0 \<le> round_even (x * pow2 ?k)"
    by (intro round_even_ge) simp
  with False show ?thesis
    by (simp add: fl_def Let_def divide_nonneg_pos)
qed (simp add: fl_def)

text \<open>Rounding a number whose exponent is at most 52 never crosses an integer.\<close>

lemma fl_le_int:
  assumes "exponent x \<le> 52" and "x \<le> of_int n" and "0 \<le> n"
  shows "fl x \<le> of_int n"
proof (cases "x \<le> 0")
  case False
  let ?k = "52 - exponent x"
  from assms(1) have k: "pow2 ?k = of_int (2 ^ nat ?k)"
    by (intro pow2_int) simp
  have "x * pow2 ?k \<le> of_int (n * 2 ^ nat ?k)"
    using assms(2) by (simp add: k mult_right_mono)
  then have "round_even (x * pow2 ?k) \<le> n * 2 ^ nat ?k"
    by (rule round_even_le)
  then have "(of_int (round_even (x * pow2 ?k)) :: rat) \<le> of_int (n * 2 ^ nat ?k)"
    by (simp only: of_int_le_iff)
  also have "\<dots> = of_int n * pow2 ?k"
    by (simp add: k)
  finally show ?thesis
    using False by (simp add: fl_def Let_def pos_divide_le_eq)
qed (use assms(3) in \<open>simp add: fl_def\<close>)

lemma trunc_fl_le:
  assumes "exponent x \<le> 52" and "x \<le> of_int n" and "0 \<le> n"
  shows "trunc (fl x) \<le> n"
  using fl_le_int [OF assms] by (simp add: trunc_def floor_le_iff)

lemma trunc_fl_nonneg: "0 \<le> trunc (fl x)"
  by (simp add: trunc_def)

section \<open>The exponent\<close>

lemma bits_bounds: "0 \<le> n \<Longrightarrow> n < 2 ^ bits n \<and> (0 < n \<longrightarrow> 2 ^ bits n \<le> 2 * n)"
proof (induction n rule: bits.induct)
  case (1 n)
  show ?case
  proof (cases "n = 0")
    case False
    with 1 have "n div 2 < 2 ^ bits (n div 2)" and
      up: "0 < n div 2 \<longrightarrow> 2 ^ bits (n div 2) \<le> 2 * (n div 2)"
      by auto
    then have "n < 2 * 2 ^ bits (n div 2)" by simp
    moreover have "2 * 2 ^ bits (n div 2) \<le> 2 * n"
    proof (cases "n div 2 = 0")
      case True
      then show ?thesis using False "1.prems" by (simp add: bits.simps)
    next
      case False
      with up "1.prems" have "2 ^ bits (n div 2) \<le> 2 * (n div 2)" by simp
      then show ?thesis by simp
    qed
    ultimately show ?thesis
      using False "1.prems" by (simp add: bits.simps [of n])
  qed (simp add: bits.simps)
qed

lemma pow2_Suc: "pow2 (e + 1) = 2 * pow2 e"
proof -
  consider "0 \<le> e" | "e = -1" | "e < -1" by linarith
  then show ?thesis
  proof cases
    case 1
    then show ?thesis by (simp add: pow2_def nat_add_distrib)
  next
    case 3
    then have "nat (- e) = Suc (nat (- (e + 1)))" by linarith
    with 3 show ?thesis by (simp add: pow2_def)
  qed (simp add: pow2_def)
qed

lemma pow2_add: "pow2 a \<le> pow2 (a + int n)"
proof (induction n)
  case (Suc n)
  have "pow2 (a + int (Suc n)) = 2 * pow2 (a + int n)"
    using pow2_Suc [of "a + int n"] by (simp add: ac_simps)
  with Suc pow2_pos [of "a + int n"] show ?case by linarith
qed simp

lemma pow2_mono: "a \<le> b \<Longrightarrow> pow2 a \<le> pow2 b"
  using pow2_add [of a "nat (b - a)"] by simp

lemma pow2_diff: "pow2 (int a - int b) = 2 ^ a / 2 ^ b"
proof (cases "b \<le> a")
  case True
  then have "nat (int a - int b) = a - b" by simp
  with True show ?thesis by (simp add: pow2_def power_diff)
next
  case False
  then have "nat (- (int a - int b)) = b - a" by simp
  with False show ?thesis by (simp add: pow2_def power_diff)
qed

lemma pow2_exponent_le:
  assumes "0 < x"
  shows "pow2 (exponent x) \<le> x"
proof -
  obtain n d where q: "quotient_of x = (n, d)" by fastforce
  have d: "0 < d" and x: "x = of_int n / of_int d"
    using quotient_of_denom_pos [OF q] quotient_of_div [OF q] by auto
  with assms have n: "0 < n"
    by (simp add: zero_less_divide_iff)
  let ?a = "bits n" and ?b = "bits d"
  have "(2::int) ^ ?a \<le> 2 * n"
    using bits_bounds [of n] n by simp
  then have A: "(2::rat) ^ ?a \<le> 2 * of_int n"
    by (metis of_int_le_iff of_int_mult of_int_numeral of_int_power)
  have "d < 2 ^ ?b"
    using bits_bounds [of d] d by simp
  then have B: "of_int d < (2::rat) ^ ?b"
    by (metis of_int_less_iff of_int_numeral of_int_power)
  have "pow2 (int ?a - int ?b - 1) = 2 ^ ?a / 2 ^ ?b / 2"
    using pow2_Suc [of "int ?a - int ?b - 1"] by (simp add: pow2_diff)
  also have "\<dots> = (2 ^ ?a / 2) / 2 ^ ?b" by simp
  also have "\<dots> \<le> of_int n / 2 ^ ?b"
    using A by (intro divide_right_mono) simp_all
  also have "\<dots> \<le> x"
    unfolding x using B n d by (intro divide_left_mono) (auto simp: less_imp_le)
  finally show ?thesis
    by (simp add: exponent_def q Let_def)
qed

lemma exponent_le_52:
  assumes "0 < x" and "x < 2 ^ 53"
  shows "exponent x \<le> 52"
proof (rule ccontr)
  assume "\<not> ?thesis"
  then have "pow2 53 \<le> pow2 (exponent x)"
    by (intro pow2_mono) simp
  also have "\<dots> \<le> x" by (rule pow2_exponent_le [OF assms(1)])
  finally show False
    using assms(2) by (simp add: pow2_def)
qed

text \<open>What the users of this theory need: scaling a count by a ratio of at most 1 and rounding back
  to an integer stays within the count.\<close>

lemma trunc_scale_le:
  assumes "0 \<le> n" and "n < 2 ^ 53" and "0 < r" and "r \<le> 1"
  shows "0 \<le> trunc (fl (of_int n * r)) \<and> trunc (fl (of_int n * r)) \<le> n"
proof (cases "n = 0")
  case True
  then show ?thesis by (simp add: fl_def trunc_def)
next
  case False
  with assms have pos: "0 < of_int n * r" by simp
  have le: "of_int n * r \<le> of_int n"
    using mult_left_mono [OF assms(4), of "of_int n"] assms(1) by simp
  also have "of_int n < (2::rat) ^ 53"
    using assms(2) by (metis of_int_less_iff of_int_numeral of_int_power)
  finally have "exponent (of_int n * r) \<le> 52"
    by (rule exponent_le_52 [OF pos])
  with le assms(1) show ?thesis
    using trunc_fl_nonneg trunc_fl_le by blast
qed

end
