(* ===== verification/Messages.thy ===== *)
theory Messages
  imports Prelude
begin

text \<open>
  The messages of a conversation: \<open>pkg/providers/protocoltypes/types.go\<close>. A value of Go's type
  \<open>any\<close> that came from JSON is a \<open>json\<close>; \<open>Arguments\<close> and \<open>Parameters\<close> are lists of named values.
\<close>

datatype json =
  JNull | JBool bool | JInt int | JString string | JArray "json list"
| JObject "(string \<times> json) list"

record FunctionCall =
  FnName :: string
  FnArguments :: string

record ToolCall =
  ID :: string
  CallType :: string
  Function :: "FunctionCall option"
  Name :: string
  Arguments :: "(string \<times> json) list"

record UsageInfo =
  PromptTokens :: int
  CompletionTokens :: int
  TotalTokens :: int

record ContentBlock =
  BlockType :: string
  BlockText :: string
  Ephemeral :: bool

record Message =
  Role :: string
  Content :: string
  Media :: "string list"
  ReasoningContent :: string
  Usage :: "UsageInfo option"
  SystemParts :: "ContentBlock list"
  ToolCalls :: "ToolCall list"
  ToolCallID :: string

definition text_message :: "string \<Rightarrow> string \<Rightarrow> Message" where
  "text_message role content =
     \<lparr>Role = role, Content = content, Media = [], ReasoningContent = '''', Usage = None,
      SystemParts = [], ToolCalls = [], ToolCallID = ''''\<rparr>"

record ToolFunctionDefinition =
  FDName :: string
  FDDescription :: string
  FDParameters :: "(string \<times> json) list"

record ToolDefinition =
  TDType :: string
  TDFunction :: ToolFunctionDefinition

end
