(* ===== verification/ModelRouting.thy ===== *)
theory ModelRouting
  imports Float64 Runes Messages
begin

text \<open>
  Choosing between the primary and the light model: \<open>pkg/routing/features.go\<close>,
  \<open>classifier.go\<close> and \<open>router.go\<close>. Scores are the \<open>float64\<close> numbers of the code.
\<close>

definition lookbackWindow :: nat where "lookbackWindow = 6"

record Features =
  TokenEstimate :: nat
  CodeBlockCount :: nat
  RecentToolCalls :: nat
  ConversationDepth :: nat
  HasAttachments :: bool

definition is_cjk :: "rune \<Rightarrow> bool" where
  "is_cjk r \<longleftrightarrow> (11904 \<le> r \<and> r \<le> 40959) \<or> (63744 \<le> r \<and> r \<le> 64255) \<or> (44032 \<le> r \<and> r \<le> 55215)"

definition estimateTokens :: "string \<Rightarrow> nat" where
  "estimateTokens msg =
     (let total = length (runes msg) in
      if total = 0 then 0
      else let cjk = length (filter is_cjk (runes msg)) in cjk + (total - cjk) div 4)"

definition countCodeBlocks :: "string \<Rightarrow> nat" where
  "countCodeBlocks msg = CountSub msg ''```'' div 2"

definition countRecentToolCalls :: "Message list \<Rightarrow> nat" where
  "countRecentToolCalls history =
     (let start = length history - lookbackWindow in
      sum_list (map (\<lambda>msg. length (ToolCalls msg)) (drop start history)))"

definition mediaExts :: "string list" where
  "mediaExts = [''.jpg'', ''.jpeg'', ''.png'', ''.gif'', ''.webp'', ''.bmp'',
     ''.mp3'', ''.wav'', ''.ogg'', ''.m4a'', ''.flac'', ''.mp4'', ''.avi'', ''.mov'', ''.webm'']"

definition hasAttachments :: "string \<Rightarrow> bool" where
  "hasAttachments msg =
     (let lower = ToLower msg in
      Contains lower ''data:image/'' \<or> Contains lower ''data:audio/'' \<or>
      Contains lower ''data:video/'' \<or> list_ex (Contains lower) mediaExts)"

definition ExtractFeatures :: "string \<Rightarrow> Message list \<Rightarrow> Features" where
  "ExtractFeatures msg history =
     \<lparr>TokenEstimate = estimateTokens msg, CodeBlockCount = countCodeBlocks msg,
      RecentToolCalls = countRecentToolCalls history, ConversationDepth = length history,
      HasAttachments = hasAttachments msg\<rparr>"

text \<open>A decimal constant of the source, and addition, in \<open>float64\<close>.\<close>

definition hundredths :: "int \<Rightarrow> rat" where
  "hundredths n = fl (of_int n / 100)"

definition fadd :: "rat \<Rightarrow> rat \<Rightarrow> rat" where
  "fadd a b = fl (a + b)"

definition Score :: "Features \<Rightarrow> rat" where
  "Score f =
     (if HasAttachments f then 1
      else
        let s0 = (0::rat);
            s1 = (if 200 < TokenEstimate f then fadd s0 (hundredths 35)
                  else if 50 < TokenEstimate f then fadd s0 (hundredths 15) else s0);
            s2 = (if 0 < CodeBlockCount f then fadd s1 (hundredths 40) else s1);
            s3 = (if 3 < RecentToolCalls f then fadd s2 (hundredths 25)
                  else if 0 < RecentToolCalls f then fadd s2 (hundredths 10) else s2);
            s4 = (if 10 < ConversationDepth f then fadd s3 (hundredths 10) else s3)
        in if 1 < s4 then 1 else s4)"

definition defaultThreshold :: rat where
  "defaultThreshold = hundredths 35"

record RouterConfig =
  LightModel :: string
  Threshold :: rat

text \<open>\<open>New\<close>, and \<open>newWithClassifier\<close>, which takes any classifier.\<close>

record Router =
  cfg :: RouterConfig
  classifier :: "Features \<Rightarrow> rat"

definition newWithClassifier :: "RouterConfig \<Rightarrow> (Features \<Rightarrow> rat) \<Rightarrow> Router" where
  "newWithClassifier c cl =
     \<lparr>cfg = (if Threshold c \<le> 0 then c\<lparr>Threshold := defaultThreshold\<rparr> else c), classifier = cl\<rparr>"

definition NewRouter :: "RouterConfig \<Rightarrow> Router" where
  "NewRouter c =
     \<lparr>cfg = (if Threshold c \<le> 0 then c\<lparr>Threshold := defaultThreshold\<rparr> else c), classifier = Score\<rparr>"

definition SelectModel :: "Router \<Rightarrow> string \<Rightarrow> Message list \<Rightarrow> string \<Rightarrow> string \<times> bool \<times> rat" where
  "SelectModel r msg history primaryModel =
     (let features = ExtractFeatures msg history;
          score = classifier r features
      in if score < Threshold (cfg r) then (LightModel (cfg r), True, score)
         else (primaryModel, False, score))"

section \<open>Scores\<close>

text \<open>The score depends on four small classes of the features only, so its properties are checked on
  the 36 combinations, in the arithmetic of the code.\<close>

definition token_class :: "nat \<Rightarrow> nat" where
  "token_class n = (if 200 < n then 2 else if 50 < n then 1 else 0)"

definition tool_class :: "nat \<Rightarrow> nat" where
  "tool_class n = (if 3 < n then 2 else if 0 < n then 1 else 0)"

definition class_score :: "nat \<Rightarrow> bool \<Rightarrow> nat \<Rightarrow> bool \<Rightarrow> rat" where
  "class_score t c u d =
     Score \<lparr>TokenEstimate = (if t = 2 then 201 else if t = 1 then 51 else 0),
       CodeBlockCount = (if c then 1 else 0),
       RecentToolCalls = (if u = 2 then 4 else if u = 1 then 1 else 0),
       ConversationDepth = (if d then 11 else 0), HasAttachments = False\<rparr>"

lemma Score_class:
  "\<not> HasAttachments f \<Longrightarrow> Score f =
     class_score (token_class (TokenEstimate f)) (0 < CodeBlockCount f)
       (tool_class (RecentToolCalls f)) (10 < ConversationDepth f)"
  by (simp add: Score_def class_score_def token_class_def tool_class_def Let_def)

lemma token_class_in: "token_class n \<in> set [0, 1, 2]"
  and tool_class_in: "tool_class n \<in> set [0, 1, 2]"
  by (simp_all add: token_class_def tool_class_def)

text \<open>The rounded constants and the sums that can occur.\<close>

lemma hundredths_values:
  "hundredths 35 = 3152519739159347 / 9007199254740992 \<and>
   hundredths 15 = 5404319552844595 / 36028797018963968 \<and>
   hundredths 40 = 3602879701896397 / 9007199254740992 \<and>
   hundredths 25 = 1 / 4 \<and>
   hundredths 10 = 3602879701896397 / 36028797018963968"
  by code_simp

lemma fadd_values:
  "fadd 0 (5404319552844595 / 36028797018963968) = 5404319552844595 / 36028797018963968 \<and>
   fadd 0 (3152519739159347 / 9007199254740992) = 3152519739159347 / 9007199254740992 \<and>
   fadd 0 (3602879701896397 / 9007199254740992) = 3602879701896397 / 9007199254740992 \<and>
   fadd (5404319552844595 / 36028797018963968) (3602879701896397 / 9007199254740992) = 2476979795053773 / 4503599627370496 \<and>
   fadd (3152519739159347 / 9007199254740992) (3602879701896397 / 9007199254740992) = 3 / 4 \<and>
   fadd 0 (1 / 4) = 1 / 4 \<and>
   fadd 0 (3602879701896397 / 36028797018963968) = 3602879701896397 / 36028797018963968 \<and>
   fadd (3602879701896397 / 9007199254740992) (1 / 4) = 5854679515581645 / 9007199254740992 \<and>
   fadd (3602879701896397 / 9007199254740992) (3602879701896397 / 36028797018963968) = 1 / 2 \<and>
   fadd (5404319552844595 / 36028797018963968) (1 / 4) = 3602879701896397 / 9007199254740992 \<and>
   fadd (5404319552844595 / 36028797018963968) (3602879701896397 / 36028797018963968) = 1 / 4 \<and>
   fadd (2476979795053773 / 4503599627370496) (1 / 4) = 3602879701896397 / 4503599627370496 \<and>
   fadd (2476979795053773 / 4503599627370496) (3602879701896397 / 36028797018963968) = 5854679515581645 / 9007199254740992 \<and>
   fadd (3152519739159347 / 9007199254740992) (1 / 4) = 5404319552844595 / 9007199254740992 \<and>
   fadd (3152519739159347 / 9007199254740992) (3602879701896397 / 36028797018963968) = 2026619832316723 / 4503599627370496 \<and>
   fadd (3 / 4) (1 / 4) = 1 \<and>
   fadd (3 / 4) (3602879701896397 / 36028797018963968) = 7656119366529843 / 9007199254740992 \<and>
   fadd (1 / 4) (3602879701896397 / 36028797018963968) = 3152519739159347 / 9007199254740992 \<and>
   fadd (3602879701896397 / 36028797018963968) (3602879701896397 / 36028797018963968) = 3602879701896397 / 18014398509481984 \<and>
   fadd (5854679515581645 / 9007199254740992) (3602879701896397 / 36028797018963968) = 3 / 4 \<and>
   fadd (1 / 2) (3602879701896397 / 36028797018963968) = 5404319552844595 / 9007199254740992 \<and>
   fadd (3602879701896397 / 4503599627370496) (3602879701896397 / 36028797018963968) = 8106479329266893 / 9007199254740992 \<and>
   fadd (5404319552844595 / 9007199254740992) (3602879701896397 / 36028797018963968) = 3152519739159347 / 4503599627370496 \<and>
   fadd (2026619832316723 / 4503599627370496) (3602879701896397 / 36028797018963968) = 4953959590107545 / 9007199254740992 \<and>
   fadd 1 (3602879701896397 / 36028797018963968) = 2476979795053773 / 2251799813685248 \<and>
   fadd (7656119366529843 / 9007199254740992) (3602879701896397 / 36028797018963968) = 4278419646001971 / 4503599627370496"
  by code_simp

lemmas score_values = class_score_def Score_def Let_def hundredths_values fadd_values

lemma class_score_in_range:
  "t \<in> set [0, 1, 2] \<Longrightarrow> u \<in> set [0, 1, 2] \<Longrightarrow>
   0 \<le> class_score t c u d \<and> class_score t c u d \<le> 1"
  by (cases c; cases d) (auto simp: score_values)

lemma class_score_heavy:
  "t \<in> set [0, 1, 2] \<Longrightarrow> u \<in> set [0, 1, 2] \<Longrightarrow>
     (defaultThreshold \<le> class_score t c u d) =
       (c \<or> t = 2 \<or> (t = 1 \<and> u = 2) \<or> (t = 1 \<and> u = 1 \<and> d) \<or> (u = 2 \<and> d))"
  by (cases c; cases d) (auto simp: score_values defaultThreshold_def)

lemma Score_range: "0 \<le> Score f" "Score f \<le> 1"
  and Score_gate: "HasAttachments f \<Longrightarrow> Score f = 1"
proof -
  have "0 \<le> Score f \<and> Score f \<le> 1"
  proof (cases "HasAttachments f")
    case True
    then show ?thesis by (simp add: Score_def)
  next
    case False
    with class_score_in_range [OF token_class_in tool_class_in] show ?thesis
      by (simp add: Score_class)
  qed
  then show "0 \<le> Score f" "Score f \<le> 1" by simp_all
qed (simp add: Score_def)

text \<open>What the router relies on in a classifier, and what follows for it.\<close>

locale turn_classifier =
  fixes score :: "Features \<Rightarrow> rat"
  assumes score_ge_0: "0 \<le> score f"
    and score_le_1: "score f \<le> 1"
    and attachments_gate: "HasAttachments f \<Longrightarrow> score f = 1"
begin

lemma gated_turn_primary:
  assumes "Threshold (cfg r) \<le> 1" and "classifier r = score"
    and "HasAttachments (ExtractFeatures msg history)"
  shows "SelectModel r msg history primary = (primary, False, 1)"
  using assms by (simp add: SelectModel_def Let_def attachments_gate)

lemma over_one_light:
  assumes "1 < Threshold (cfg r)" and "classifier r = score"
  shows "fst (SelectModel r msg history primary) = LightModel (cfg r)"
  using assms score_le_1 [of "ExtractFeatures msg history"] by (simp add: SelectModel_def Let_def)

end

interpretation rule_classifier: turn_classifier Score
  by unfold_locales (simp_all add: Score_range Score_gate)

text \<open>The score keeps the contract of \<open>Classifier\<close>: it lies in the interval from 0 to 1, also after
  the rounding of every addition, and attachments force it to 1.\<close>

theorem Score_in_unit_interval:
  "0 \<le> Score f \<and> Score f \<le> 1 \<and> Score (f\<lparr>HasAttachments := True\<rparr>) = 1"
  by (simp add: Score_range Score_gate)

text \<open>Hard gate: whatever threshold up to 1 is configured (a zero or negative one included), a turn
  with an attachment is never sent to the light model.\<close>

theorem attachment_never_light:
  assumes "Threshold c \<le> 1" and "HasAttachments (ExtractFeatures msg history)"
  shows "SelectModel (NewRouter c) msg history primary = (primary, False, 1)"
  using assms by (intro rule_classifier.gated_turn_primary)
    (auto simp: NewRouter_def defaultThreshold_def hundredths_values)

theorem attachment_never_light_witness:
  "SelectModel (NewRouter \<lparr>LightModel = ''lite'', Threshold = 1\<rparr>) ''see data:image/png;'' [] ''big'' =
     (''big'', False, 1)"
proof (rule attachment_never_light)
  show "HasAttachments (ExtractFeatures ''see data:image/png;'' [])"
    by (simp add: ExtractFeatures_def hasAttachments_def) code_simp
qed simp

lemma default_heavy:
  "defaultThreshold \<le> Score f \<longleftrightarrow>
     HasAttachments f \<or> 0 < CodeBlockCount f \<or> 200 < TokenEstimate f \<or>
     (50 < TokenEstimate f \<and> 3 < RecentToolCalls f) \<or>
     (50 < TokenEstimate f \<and> 0 < RecentToolCalls f \<and> 10 < ConversationDepth f) \<or>
     (3 < RecentToolCalls f \<and> 10 < ConversationDepth f)"
proof (cases "HasAttachments f")
  case True
  then show ?thesis by (simp add: Score_def defaultThreshold_def hundredths_values)
next
  case False
  have "(defaultThreshold \<le> Score f) =
    (0 < CodeBlockCount f \<or> token_class (TokenEstimate f) = 2 \<or>
     (token_class (TokenEstimate f) = 1 \<and> tool_class (RecentToolCalls f) = 2) \<or>
     (token_class (TokenEstimate f) = 1 \<and> tool_class (RecentToolCalls f) = 1 \<and>
       10 < ConversationDepth f) \<or>
     (tool_class (RecentToolCalls f) = 2 \<and> 10 < ConversationDepth f))"
    unfolding Score_class [OF False] by (rule class_score_heavy [OF token_class_in tool_class_in])
  with False show ?thesis
    by (auto simp: token_class_def tool_class_def split: if_splits)
qed

text \<open>What the default router sends to the primary model: exactly the turns with an attachment, a
  code block, more than 200 estimated tokens, or two of the weaker signals (a medium message, dense
  tool use, a deep conversation) in the combinations whose rounded sum reaches 0.35.\<close>

theorem SelectModel_default:
  assumes "Threshold c \<le> 0"
  shows "fst (SelectModel (NewRouter c) msg history primary) =
    (let f = ExtractFeatures msg history in
     if HasAttachments f \<or> 0 < CodeBlockCount f \<or> 200 < TokenEstimate f \<or>
        (50 < TokenEstimate f \<and> 3 < RecentToolCalls f) \<or>
        (50 < TokenEstimate f \<and> 0 < RecentToolCalls f \<and> 10 < ConversationDepth f) \<or>
        (3 < RecentToolCalls f \<and> 10 < ConversationDepth f)
     then primary else LightModel c)"
  using assms default_heavy [of "ExtractFeatures msg history"]
  by (simp add: SelectModel_def NewRouter_def Let_def not_less [symmetric] split: if_splits) blast

theorem SelectModel_default_witness:
  "fst (SelectModel (NewRouter \<lparr>LightModel = ''lite'', Threshold = 0\<rparr>) ''hi'' [] ''big'') = ''lite''"
  by (subst SelectModel_default)
    (simp, simp add: Let_def ExtractFeatures_def,
     simp add: hasAttachments_def countCodeBlocks_def estimateTokens_def countRecentToolCalls_def
       runes_ascii mediaExts_def Let_def, code_simp)

end
