(* ===== verification/Cooldown.thy ===== *)
theory Cooldown
  imports Prelude
begin

text \<open>
  Provider cooldowns: \<open>pkg/providers/cooldown.go\<close>, with the failure reasons of
  \<open>pkg/providers/types.go\<close>. Instants and durations are integers in nanoseconds; the zero
  \<open>time.Time\<close> is \<open>None\<close>. Every operation runs under the tracker's mutex and is one step; the
  value that \<open>nowFunc\<close> returns is an argument.
\<close>

datatype FailoverReason =
  FailoverAuth | FailoverRateLimit | FailoverBilling | FailoverTimeout | FailoverFormat
| FailoverOverloaded | FailoverUnknown

definition Millisecond :: duration where "Millisecond = 1000000"
definition Hour :: duration where "Hour = 3600000 * Millisecond"

definition defaultFailureWindow :: duration where
  "defaultFailureWindow = 24 * Hour"

record cooldownEntry =
  ErrorCount :: nat
  FailureCounts :: "FailoverReason \<Rightarrow> nat"
  CooldownEnd :: "instant option"
  DisabledUntil :: "instant option"
  DisabledReason :: "FailoverReason option"
  LastFailure :: "instant option"

record CooldownTracker =
  entries :: "string \<rightharpoonup> cooldownEntry"
  failureWindow :: duration

definition NewCooldownTracker :: CooldownTracker where
  "NewCooldownTracker = \<lparr>entries = Map.empty, failureWindow = defaultFailureWindow\<rparr>"

definition calculateStandardCooldown :: "nat \<Rightarrow> duration" where
  "calculateStandardCooldown errorCount =
     (let n = max 1 errorCount;
          e = min (n - 1) 3;
          ms = 60000 * (5 ^ e);
          capped = min 3600000 ms
      in capped * Millisecond)"

definition calculateBillingCooldown :: "nat \<Rightarrow> duration" where
  "calculateBillingCooldown billingErrorCount =
     (let baseMs = 5 * 60 * 60 * 1000;
          maxMs = 24 * 60 * 60 * 1000;
          n = max 1 billingErrorCount;
          e = min (n - 1) 10;
          raw = baseMs * 2 ^ e
      in min maxMs raw * Millisecond)"

definition emptyEntry :: cooldownEntry where
  "emptyEntry = \<lparr>ErrorCount = 0, FailureCounts = (\<lambda>_. 0), CooldownEnd = None,
     DisabledUntil = None, DisabledReason = None, LastFailure = None\<rparr>"

definition getOrCreate :: "CooldownTracker \<Rightarrow> string \<Rightarrow> cooldownEntry" where
  "getOrCreate ct provider = (case entries ct provider of None \<Rightarrow> emptyEntry | Some e \<Rightarrow> e)"

text \<open>The update of one entry by \<open>MarkFailure\<close>.\<close>

definition fail_entry :: "duration \<Rightarrow> instant \<Rightarrow> FailoverReason \<Rightarrow> cooldownEntry \<Rightarrow> cooldownEntry" where
  "fail_entry window now reason e0 =
     (let e1 = (case LastFailure e0 of
                  Some t \<Rightarrow> if window < now - t
                    then e0\<lparr>ErrorCount := 0, FailureCounts := (\<lambda>_. 0)\<rparr> else e0
                | None \<Rightarrow> e0);
          counts = (FailureCounts e1)(reason := Suc (FailureCounts e1 reason));
          e2 = e1\<lparr>ErrorCount := Suc (ErrorCount e1), FailureCounts := counts,
                  LastFailure := Some now\<rparr>
      in if reason = FailoverBilling then
           e2\<lparr>DisabledUntil := Some (now + calculateBillingCooldown (counts FailoverBilling)),
              DisabledReason := Some FailoverBilling\<rparr>
         else e2\<lparr>CooldownEnd := Some (now + calculateStandardCooldown (ErrorCount e2))\<rparr>)"

definition MarkFailure ::
  "CooldownTracker \<Rightarrow> instant \<Rightarrow> string \<Rightarrow> FailoverReason \<Rightarrow> CooldownTracker" where
  "MarkFailure ct now provider reason =
     ct\<lparr>entries := (entries ct)
        (provider \<mapsto> fail_entry (failureWindow ct) now reason (getOrCreate ct provider))\<rparr>"

definition MarkSuccess :: "CooldownTracker \<Rightarrow> string \<Rightarrow> CooldownTracker" where
  "MarkSuccess ct provider =
     (case entries ct provider of
        None \<Rightarrow> ct
      | Some e \<Rightarrow> ct\<lparr>entries := (entries ct)(provider \<mapsto>
          e\<lparr>ErrorCount := 0, FailureCounts := (\<lambda>_. 0), CooldownEnd := None,
            DisabledUntil := None, DisabledReason := None\<rparr>)\<rparr>)"

definition pending :: "instant \<Rightarrow> instant option \<Rightarrow> bool" where
  "pending now t \<longleftrightarrow> (case t of None \<Rightarrow> False | Some u \<Rightarrow> now < u)"

definition IsAvailable :: "CooldownTracker \<Rightarrow> instant \<Rightarrow> string \<Rightarrow> bool" where
  "IsAvailable ct now provider =
     (case entries ct provider of
        None \<Rightarrow> True
      | Some e \<Rightarrow>
          if pending now (DisabledUntil e) then False
          else if pending now (CooldownEnd e) then False
          else True)"

definition CooldownRemaining :: "CooldownTracker \<Rightarrow> instant \<Rightarrow> string \<Rightarrow> duration" where
  "CooldownRemaining ct now provider =
     (case entries ct provider of
        None \<Rightarrow> 0
      | Some e \<Rightarrow>
          (let r0 = 0;
               r1 = (case DisabledUntil e of None \<Rightarrow> r0
                     | Some u \<Rightarrow> if now < u \<and> r0 < u - now then u - now else r0);
               r2 = (case CooldownEnd e of None \<Rightarrow> r1
                     | Some u \<Rightarrow> if now < u \<and> r1 < u - now then u - now else r1)
           in r2))"

definition TrackerErrorCount :: "CooldownTracker \<Rightarrow> string \<Rightarrow> nat" where
  "TrackerErrorCount ct provider =
     (case entries ct provider of None \<Rightarrow> 0 | Some e \<Rightarrow> ErrorCount e)"

definition FailureCount :: "CooldownTracker \<Rightarrow> string \<Rightarrow> FailoverReason \<Rightarrow> nat" where
  "FailureCount ct provider reason =
     (case entries ct provider of None \<Rightarrow> 0 | Some e \<Rightarrow> FailureCounts e reason)"

lemmas [state_defs] = MarkFailure_def MarkSuccess_def getOrCreate_def fail_entry_def
lemmas cooldown_units = Millisecond_def Hour_def

section \<open>Back-off\<close>

lemma calculateStandardCooldown_table:
  "calculateStandardCooldown n =
     (if n \<le> 1 then 60000 else if n = 2 then 300000 else if n = 3 then 1500000 else 3600000)
     * Millisecond"
proof -
  consider "n = 0" | "n = 1" | "n = 2" | "n = 3" | "4 \<le> n" by linarith
  then show ?thesis
  proof cases
    case 5
    then have "min (n - 1) 3 = 3" by simp
    with 5 show ?thesis by (simp add: calculateStandardCooldown_def max_def Let_def)
  qed (simp_all add: calculateStandardCooldown_def min_def)
qed

lemma calculateBillingCooldown_table:
  "calculateBillingCooldown n =
     (if n \<le> 1 then 5 else if n = 2 then 10 else if n = 3 then 20 else 24) * Hour"
proof -
  consider "n = 0" | "n = 1" | "n = 2" | "n = 3" | "4 \<le> n" by linarith
  then show ?thesis
  proof cases
    case 5
    then have "(8::int) \<le> 2 ^ min (n - 1) 10"
      using power_increasing [of 3 "min (n - 1) 10" "2::int"] by simp
    with 5 show ?thesis
      by (simp add: calculateBillingCooldown_def cooldown_units max_def Let_def)
  qed (simp_all add: calculateBillingCooldown_def cooldown_units min_def)
qed

lemma standard_bounds:
  "60000 * Millisecond \<le> calculateStandardCooldown n \<and> calculateStandardCooldown n \<le> Hour"
  by (simp add: calculateStandardCooldown_table cooldown_units)

lemma billing_bounds:
  "5 * Hour \<le> calculateBillingCooldown n \<and> calculateBillingCooldown n \<le> 24 * Hour"
  by (simp add: calculateBillingCooldown_table cooldown_units)

lemma backoff_pos: "0 < calculateStandardCooldown n" "0 < calculateBillingCooldown n"
  using standard_bounds [of n] billing_bounds [of n] by (auto simp: cooldown_units)

text \<open>Back-off: the standard cooldown is 1, 5, 25 minutes and then 1 hour, the billing cooldown 5,
  10, 20 and then 24 hours, and neither ever shrinks when failures pile up.\<close>

theorem cooldown_schedule:
  "map calculateStandardCooldown [1, 2, 3, 4] =
     [60000 * Millisecond, 300000 * Millisecond, 1500000 * Millisecond, Hour] \<and>
   map calculateBillingCooldown [1, 2, 3, 4] = [5 * Hour, 10 * Hour, 20 * Hour, 24 * Hour] \<and>
   mono calculateStandardCooldown \<and> mono calculateBillingCooldown"
  by (auto simp: calculateStandardCooldown_table calculateBillingCooldown_table cooldown_units
      mono_def)

section \<open>Availability\<close>

lemma MarkFailure_other [simp]:
  "p \<noteq> q \<Longrightarrow> entries (MarkFailure ct now q r) p = entries ct p"
  by (simp add: state_defs)

lemma MarkSuccess_other [simp]:
  "p \<noteq> q \<Longrightarrow> entries (MarkSuccess ct q) p = entries ct p"
  by (simp add: state_defs split: option.splits)

lemma IsAvailable_cong: "entries a p = entries b p \<Longrightarrow> IsAvailable a now p = IsAvailable b now p"
  by (simp add: IsAvailable_def)

lemma MarkSuccess_available: "IsAvailable (MarkSuccess ct p) now p"
  by (simp add: state_defs IsAvailable_def pending_def split: option.splits)

lemma MarkFailure_pending:
  assumes "t < now + (if r = FailoverBilling then 5 * Hour else 60000 * Millisecond)"
  shows "\<not> IsAvailable (MarkFailure ct now p r) t p"
proof -
  let ?e = "fail_entry (failureWindow ct) now r (getOrCreate ct p)"
  have "pending t (DisabledUntil ?e) \<or> pending t (CooldownEnd ?e)"
    using assms standard_bounds billing_bounds
    by (fastforce simp: fail_entry_def Let_def pending_def split: option.splits if_splits
        intro: order_less_le_trans)
  then show ?thesis
    by (auto simp: MarkFailure_def IsAvailable_def)
qed

text \<open>\<open>IsAvailable\<close> and \<open>CooldownRemaining\<close> agree: a provider can be used exactly when nothing
  remains of its cooldown, and what remains is exactly the wait after which it can be used again
  (and not a moment earlier).\<close>

theorem available_iff_nothing_remains:
  "(IsAvailable ct now p \<longleftrightarrow> CooldownRemaining ct now p = 0) \<and>
   0 \<le> CooldownRemaining ct now p \<and>
   IsAvailable ct (now + CooldownRemaining ct now p) p \<and>
   (\<forall>t. now \<le> t \<and> t < now + CooldownRemaining ct now p \<longrightarrow> \<not> IsAvailable ct t p)"
  by (cases "entries ct p")
    (auto simp: IsAvailable_def CooldownRemaining_def pending_def Let_def
      split: option.splits if_splits)

theorem available_iff_nothing_remains_witness:
  "\<not> IsAvailable (MarkFailure NewCooldownTracker 0 ''openai'' FailoverTimeout) 7 ''openai''"
proof -
  let ?ct = "MarkFailure NewCooldownTracker 0 ''openai'' FailoverTimeout"
  have "CooldownRemaining ?ct 0 ''openai'' = 60000 * Millisecond"
    by (simp add: CooldownRemaining_def state_defs NewCooldownTracker_def emptyEntry_def
        calculateStandardCooldown_table cooldown_units)
  with available_iff_nothing_remains [of ?ct 0 "''openai''"] show ?thesis
    by (simp add: cooldown_units)
qed

section \<open>Counters\<close>

definition all_reasons :: "FailoverReason list" where
  "all_reasons = [FailoverAuth, FailoverRateLimit, FailoverBilling, FailoverTimeout, FailoverFormat,
     FailoverOverloaded, FailoverUnknown]"

definition counts_inv :: "CooldownTracker \<Rightarrow> bool" where
  "counts_inv ct \<longleftrightarrow>
     (\<forall>p e. entries ct p = Some e \<longrightarrow> ErrorCount e = sum_list (map (FailureCounts e) all_reasons))"

lemma counts_inv_New: "counts_inv NewCooldownTracker"
  by (simp add: counts_inv_def NewCooldownTracker_def)

lemma sum_reasons_upd:
  "sum_list (map (c(r := Suc (c r))) all_reasons) = Suc (sum_list (map c all_reasons))"
  by (cases r) (simp_all add: all_reasons_def)

lemma sum_reasons_zero: "sum_list (map (\<lambda>_. 0 :: nat) xs) = 0"
  by (induction xs) simp_all

lemma fail_entry_counts:
  assumes "ErrorCount e = sum_list (map (FailureCounts e) all_reasons)"
  shows "ErrorCount (fail_entry w now r e) =
    sum_list (map (FailureCounts (fail_entry w now r e)) all_reasons)"
proof (cases "\<exists>t. LastFailure e = Some t \<and> w < now - t")
  case True
  then show ?thesis
    using sum_reasons_upd [of "\<lambda>_. 0" r] by (auto simp: fail_entry_def Let_def sum_reasons_zero)
next
  case False
  then have "(case LastFailure e of
      Some t \<Rightarrow> if w < now - t then e\<lparr>ErrorCount := 0, FailureCounts := (\<lambda>_. 0)\<rparr> else e
    | None \<Rightarrow> e) = e"
    by (auto split: option.splits)
  with assms sum_reasons_upd [of "FailureCounts e" r] show ?thesis
    by (cases "r = FailoverBilling") (simp_all add: fail_entry_def Let_def)
qed

lemma counts_inv_MarkFailure:
  assumes "counts_inv ct"
  shows "counts_inv (MarkFailure ct now p r)"
proof -
  have "ErrorCount (getOrCreate ct p) =
      sum_list (map (FailureCounts (getOrCreate ct p)) all_reasons)"
    using assms by (auto simp: counts_inv_def getOrCreate_def emptyEntry_def sum_reasons_zero
        split: option.splits)
  from fail_entry_counts [OF this] assms show ?thesis
    by (auto simp: counts_inv_def MarkFailure_def)
qed

lemma counts_inv_MarkSuccess: "counts_inv ct \<Longrightarrow> counts_inv (MarkSuccess ct p)"
  by (auto simp: counts_inv_def MarkSuccess_def all_reasons_def split: option.splits)

section \<open>The interface the fallback chain uses\<close>

text \<open>
  What the chain relies on: a success makes the provider available at once, a failure makes it
  unavailable at once, and both leave every other provider alone.
\<close>

locale cooldown_gate =
  fixes available :: "'s \<Rightarrow> instant \<Rightarrow> string \<Rightarrow> bool"
    and mark_failure :: "'s \<Rightarrow> instant \<Rightarrow> string \<Rightarrow> FailoverReason \<Rightarrow> 's"
    and mark_success :: "'s \<Rightarrow> string \<Rightarrow> 's"
  assumes success_opens: "available (mark_success s p) t p"
    and failure_closes: "\<not> available (mark_failure s t p r) t p"
    and success_other: "p \<noteq> q \<Longrightarrow> available (mark_success s q) t p = available s t p"
    and failure_other: "p \<noteq> q \<Longrightarrow> available (mark_failure s t' q r) t p = available s t p"
begin

text \<open>Failures of a list of providers leave any other provider as it was.\<close>

lemma failures_other:
  "p \<notin> fst ` set fs \<Longrightarrow>
   available (fold (\<lambda>(q, r) s. mark_failure s t' q r) fs s) t p = available s t p"
  by (induction fs arbitrary: s) (auto simp: failure_other)

lemma success_after_failures:
  "available (mark_success (fold (\<lambda>(q, r) s. mark_failure s t' q r) fs s) p) t p"
  by (rule success_opens)

end

interpretation tracker: cooldown_gate IsAvailable MarkFailure MarkSuccess
proof
  fix s t p r
  show "\<not> IsAvailable (MarkFailure s t p r) t p"
    by (rule MarkFailure_pending) (simp add: cooldown_units)
qed (simp_all add: MarkSuccess_available cong: IsAvailable_cong)

end
