(* ===== verification/ErrorClassifier.thy ===== *)
theory ErrorClassifier
  imports Cooldown
begin

text \<open>
  Classification of provider errors: \<open>pkg/providers/error_classifier.go\<close> and the
  \<open>FailoverError\<close> of \<open>pkg/providers/types.go\<close>. Error texts are byte strings; case folding is that
  of ASCII letters (which is what \<open>strings.ToLower\<close> and \<open>(?i)\<close> do on ASCII texts).

  The regular expressions of the file are sequences of items; \<open>rx_at\<close> is the leftmost-greedy
  matcher of Go's \<open>regexp\<close> for them, \<open>rx_rel\<close> says independently of any strategy when a sequence
  matches, and \<open>rx_find_iff\<close> proves that the matcher finds a match exactly when there is one.
\<close>

section \<open>Regular expressions\<close>

datatype rx =
  One "char \<Rightarrow> bool"     \<comment> \<open>one byte of a class\<close>
| Opt "char \<Rightarrow> bool"     \<comment> \<open>\<open>c?\<close>\<close>
| Many "char \<Rightarrow> bool"    \<comment> \<open>\<open>c*\<close>\<close>
| Boundary               \<comment> \<open>\<open>\b\<close>\<close>
| Mark                   \<comment> \<open>start of the capture group\<close>

definition is_word :: "char \<Rightarrow> bool" where
  "is_word c \<longleftrightarrow> is_upper c \<or> is_lower c \<or> is_digit c \<or> c = CHR ''_''"

definition word_at :: "char option \<Rightarrow> bool" where
  "word_at p = (case p of None \<Rightarrow> False | Some c \<Rightarrow> is_word c)"

definition first_of :: "string \<Rightarrow> char option" where
  "first_of s = (case s of [] \<Rightarrow> None | c # _ \<Rightarrow> Some c)"

text \<open>Matches a sequence at one position, \<open>p\<close> being the byte before it. The result is the text from
  the capture group on, or the text after the match when there is no group.\<close>

function rx_at :: "rx list \<Rightarrow> char option \<Rightarrow> string \<Rightarrow> string option" where
  "rx_at [] p s = Some s"
| "rx_at (Mark # r) p s = (case rx_at r p s of None \<Rightarrow> None | Some _ \<Rightarrow> Some s)"
| "rx_at (Boundary # r) p s = (if word_at p \<noteq> word_at (first_of s) then rx_at r p s else None)"
| "rx_at (One f # r) p [] = None"
| "rx_at (One f # r) p (c # s) = (if f c then rx_at r (Some c) s else None)"
| "rx_at (Opt f # r) p [] = rx_at r p []"
| "rx_at (Opt f # r) p (c # s) =
     (if f c then
        (case rx_at r (Some c) s of None \<Rightarrow> rx_at r p (c # s) | Some t \<Rightarrow> Some t)
      else rx_at r p (c # s))"
| "rx_at (Many f # r) p [] = rx_at r p []"
| "rx_at (Many f # r) p (c # s) =
     (if f c then
        (case rx_at (Many f # r) (Some c) s of None \<Rightarrow> rx_at r p (c # s) | Some t \<Rightarrow> Some t)
      else rx_at r p (c # s))"
  by pat_completeness auto
termination
  by (relation "measure (\<lambda>(r, p, s). length r + length s)") auto

fun rx_find :: "rx list \<Rightarrow> char option \<Rightarrow> string \<Rightarrow> string option" where
  "rx_find r p [] = rx_at r p []"
| "rx_find r p (c # s) =
     (case rx_at r p (c # s) of None \<Rightarrow> rx_find r (Some c) s | Some t \<Rightarrow> Some t)"

definition MatchString :: "rx list \<Rightarrow> string \<Rightarrow> bool" where
  "MatchString r s = (rx_find r None s \<noteq> None)"

text \<open>The meaning of a sequence.\<close>

inductive rx_rel :: "rx list \<Rightarrow> char option \<Rightarrow> string \<Rightarrow> bool" where
  rel_nil: "rx_rel [] p s"
| rel_mark: "rx_rel r p s \<Longrightarrow> rx_rel (Mark # r) p s"
| rel_boundary: "rx_rel r p s \<Longrightarrow> word_at p \<noteq> word_at (first_of s) \<Longrightarrow> rx_rel (Boundary # r) p s"
| rel_one: "rx_rel r (Some c) s \<Longrightarrow> f c \<Longrightarrow> rx_rel (One f # r) p (c # s)"
| rel_opt_none: "rx_rel r p s \<Longrightarrow> rx_rel (Opt f # r) p s"
| rel_opt_some: "rx_rel r (Some c) s \<Longrightarrow> f c \<Longrightarrow> rx_rel (Opt f # r) p (c # s)"
| rel_many_stop: "rx_rel r p s \<Longrightarrow> rx_rel (Many f # r) p s"
| rel_many_more: "rx_rel (Many f # r) (Some c) s \<Longrightarrow> f c \<Longrightarrow> rx_rel (Many f # r) p (c # s)"

lemma rx_at_sound: "rx_at r p s = Some t \<Longrightarrow> rx_rel r p s"
  by (induction r p s arbitrary: t rule: rx_at.induct)
    (auto intro: rx_rel.intros split: option.splits if_splits)

lemma rx_at_complete: "rx_rel r p s \<Longrightarrow> rx_at r p s \<noteq> None"
proof (induction rule: rx_rel.induct)
  case (rel_opt_none r p s f)
  then show ?case by (cases s) (auto split: option.splits)
next
  case (rel_many_stop r p s f)
  then show ?case by (cases s) (auto split: option.splits)
qed (auto split: option.splits)

lemma rx_at_iff: "rx_at r p s \<noteq> None \<longleftrightarrow> rx_rel r p s"
  using rx_at_sound rx_at_complete by blast

lemma rx_find_iff:
  "rx_find r p s \<noteq> None \<longleftrightarrow>
   (\<exists>pre post. s = pre @ post \<and> rx_rel r (if pre = [] then p else Some (last pre)) post)"
proof (induction s arbitrary: p)
  case Nil
  then show ?case using rx_at_iff [of r p "[]"] by simp
next
  case (Cons c s)
  have "rx_find r p (c # s) \<noteq> None \<longleftrightarrow> rx_rel r p (c # s) \<or> rx_find r (Some c) s \<noteq> None"
    using rx_at_iff [of r p "c # s"] by (auto split: option.splits)
  also have "\<dots> \<longleftrightarrow> (\<exists>pre post. c # s = pre @ post \<and>
      rx_rel r (if pre = [] then p else Some (last pre)) post)"
  proof
    assume "rx_rel r p (c # s) \<or> rx_find r (Some c) s \<noteq> None"
    then show "\<exists>pre post. c # s = pre @ post \<and>
        rx_rel r (if pre = [] then p else Some (last pre)) post"
    proof
      assume "rx_rel r p (c # s)"
      then show ?thesis by (intro exI [of _ "[]"] exI [of _ "c # s"]) simp
    next
      assume "rx_find r (Some c) s \<noteq> None"
      with Cons [of "Some c"] obtain pre post where
        "s = pre @ post" "rx_rel r (if pre = [] then Some c else Some (last pre)) post" by blast
      then show ?thesis by (intro exI [of _ "c # pre"] exI [of _ post]) auto
    qed
  next
    assume "\<exists>pre post. c # s = pre @ post \<and>
        rx_rel r (if pre = [] then p else Some (last pre)) post"
    then obtain pre post where eq: "c # s = pre @ post"
      and m: "rx_rel r (if pre = [] then p else Some (last pre)) post" by blast
    show "rx_rel r p (c # s) \<or> rx_find r (Some c) s \<noteq> None"
    proof (cases pre)
      case Nil
      with eq m show ?thesis by simp
    next
      case (Cons d pre')
      with eq m have "s = pre' @ post" "rx_rel r (if pre' = [] then Some c else Some (last pre')) post"
        by auto
      with Cons.IH [of "Some c"] show ?thesis by blast
    qed
  qed
  finally show ?case .
qed

section \<open>Patterns\<close>

datatype errorPattern = substr string | rxp "rx list"

text \<open>A literal of a pattern with the \<open>(?i)\<close> flag, and one of a pattern without it.\<close>

definition lit_i :: "string \<Rightarrow> rx list" where
  "lit_i s = map (\<lambda>c. One (\<lambda>d. lower_char d = lower_char c)) s"

definition lit :: "string \<Rightarrow> rx list" where
  "lit s = map (\<lambda>c. One (\<lambda>d. d = c)) s"

definition among :: "string \<Rightarrow> char \<Rightarrow> bool" where
  "among cs c \<longleftrightarrow> c \<in> set cs"

definition dot :: "char \<Rightarrow> bool" where
  "dot c \<longleftrightarrow> byte c \<noteq> 10"

text \<open>RE2's \<open>\s\<close> is \<open>[\t\n\f\r ]\<close>, without the vertical tab.\<close>

definition re_space :: "char \<Rightarrow> bool" where
  "re_space c \<longleftrightarrow> byte c \<in> {9, 10, 12, 13, 32}"

definition rateLimitPatterns :: "errorPattern list" where
  "rateLimitPatterns = [
     rxp (lit_i ''rate'' @ [One (among ''_ '')] @ lit_i ''limit''),
     substr ''too many requests'',
     substr ''429'',
     substr ''exceeded your current quota'',
     rxp (lit_i ''exceeded'' @ [Many dot] @ lit_i ''quota''),
     rxp (lit_i ''resource has been exhausted''),
     rxp (lit_i ''resource'' @ [Many dot] @ lit_i ''exhausted''),
     substr ''resource_exhausted'',
     substr ''quota exceeded'',
     substr ''usage limit'']"

definition overloadedPatterns :: "errorPattern list" where
  "overloadedPatterns = [
     rxp (lit_i ''overloaded_error''),
     rxp (lit_i [CHR 0x22] @ lit_i ''type'' @ lit_i [CHR 0x22] @ [Many re_space] @ lit_i '':'' @
       [Many re_space] @ lit_i [CHR 0x22] @ lit_i ''overloaded_error'' @ lit_i [CHR 0x22]),
     substr ''overloaded'']"

definition timeoutPatterns :: "errorPattern list" where
  "timeoutPatterns = [
     substr ''timeout'',
     substr ''timed out'',
     substr ''deadline exceeded'',
     substr ''context deadline exceeded'']"

definition billingPatterns :: "errorPattern list" where
  "billingPatterns = [
     rxp ([Boundary] @ lit_i ''402'' @ [Boundary]),
     substr ''payment required'',
     substr ''insufficient credits'',
     substr ''credit balance'',
     substr ''plans & billing'',
     substr ''insufficient balance'']"

definition authPatterns :: "errorPattern list" where
  "authPatterns = [
     rxp (lit_i ''invalid'' @ [Opt (among ''_ '')] @ lit_i ''api'' @ [Opt (among ''_ '')] @
       lit_i ''key''),
     substr ''incorrect api key'',
     substr ''invalid token'',
     substr ''authentication'',
     substr ''re-authenticate'',
     substr ''oauth token refresh failed'',
     substr ''unauthorized'',
     substr ''forbidden'',
     substr ''access denied'',
     substr ''expired'',
     substr ''token has expired'',
     rxp ([Boundary] @ lit_i ''401'' @ [Boundary]),
     rxp ([Boundary] @ lit_i ''403'' @ [Boundary]),
     substr ''no credentials found'',
     substr ''no api key found'']"

definition formatPatterns :: "errorPattern list" where
  "formatPatterns = [
     substr ''string should match pattern'',
     substr ''tool_use.id'',
     substr ''tool_use_id'',
     substr ''messages.1.content.1.tool_use.id'',
     substr ''invalid request format'']"

definition imageDimensionPatterns :: "errorPattern list" where
  "imageDimensionPatterns = [rxp (lit_i ''image dimensions exceed max'')]"

definition imageSizePatterns :: "errorPattern list" where
  "imageSizePatterns = [rxp (lit_i ''image exceeds'' @ [Many dot] @ lit_i ''mb'')]"

definition httpStatusPatterns :: "rx list list" where
  "httpStatusPatterns = [
     lit ''status'' @ [One (\<lambda>c. among '':'' c \<or> re_space c), Many (\<lambda>c. among '':'' c \<or> re_space c),
       Mark, One is_digit, One is_digit, One is_digit],
     lit ''http'' @ [One (\<lambda>c. among ''/'' c \<or> re_space c), Many (\<lambda>c. among ''/'' c \<or> re_space c),
       Many is_digit, Opt (among ''.''), Many is_digit, One re_space, Many re_space,
       Mark, One is_digit, One is_digit, One is_digit],
     [Boundary, Mark, One (among ''345''), One is_digit, One is_digit, Boundary]]"

definition transientStatusCodes :: "int list" where
  "transientStatusCodes = [500, 502, 503, 521, 522, 523, 524, 529]"

fun matchesAny :: "string \<Rightarrow> errorPattern list \<Rightarrow> bool" where
  "matchesAny msg [] = False"
| "matchesAny msg (rxp r # ps) = (if MatchString r msg then True else matchesAny msg ps)"
| "matchesAny msg (substr s # ps) =
     (if s \<noteq> [] \<and> Contains msg s then True else matchesAny msg ps)"

definition IsImageDimensionError :: "string \<Rightarrow> bool" where
  "IsImageDimensionError msg = matchesAny msg imageDimensionPatterns"

definition IsImageSizeError :: "string \<Rightarrow> bool" where
  "IsImageSizeError msg = matchesAny msg imageSizePatterns"

definition parseDigits :: "string \<Rightarrow> int" where
  "parseDigits s =
     fold (\<lambda>c n. if is_digit c then n * 10 + (int (byte c) - 48) else n) s 0"

text \<open>Every capture group of \<open>httpStatusPatterns\<close> is three bytes long.\<close>

fun extract_first :: "rx list list \<Rightarrow> string \<Rightarrow> int" where
  "extract_first [] msg = 0"
| "extract_first (r # rs) msg =
     (case rx_find r None msg of
        Some t \<Rightarrow> parseDigits (take 3 t)
      | None \<Rightarrow> extract_first rs msg)"

definition extractHTTPStatus :: "string \<Rightarrow> int" where
  "extractHTTPStatus msg = extract_first httpStatusPatterns msg"

section \<open>Classification\<close>

text \<open>The empty reason of the code is \<open>None\<close>.\<close>

definition classifyByStatus :: "int \<Rightarrow> FailoverReason option" where
  "classifyByStatus status =
     (if status = 401 \<or> status = 403 then Some FailoverAuth
      else if status = 402 then Some FailoverBilling
      else if status = 408 then Some FailoverTimeout
      else if status = 429 then Some FailoverRateLimit
      else if status = 400 then Some FailoverFormat
      else if status \<in> set transientStatusCodes then Some FailoverTimeout
      else None)"

definition classifyByMessage :: "string \<Rightarrow> FailoverReason option" where
  "classifyByMessage msg =
     (if matchesAny msg rateLimitPatterns then Some FailoverRateLimit
      else if matchesAny msg overloadedPatterns then Some FailoverRateLimit
      else if matchesAny msg billingPatterns then Some FailoverBilling
      else if matchesAny msg timeoutPatterns then Some FailoverTimeout
      else if matchesAny msg authPatterns then Some FailoverAuth
      else if matchesAny msg formatPatterns then Some FailoverFormat
      else None)"

text \<open>An error value: the two sentinels of package \<open>context\<close>, compared by identity, and any other
  error, of which the code only reads the text.\<close>

datatype go_error = Canceled | DeadlineExceeded | ErrText string

fun error_text :: "go_error \<Rightarrow> string" where
  "error_text Canceled = ''context canceled''"
| "error_text DeadlineExceeded = ''context deadline exceeded''"
| "error_text (ErrText s) = s"

record FailoverError =
  Reason :: FailoverReason
  FEProvider :: string
  FEModel :: string
  Status :: int
  Wrapped :: go_error

definition IsRetriable :: "FailoverError \<Rightarrow> bool" where
  "IsRetriable e \<longleftrightarrow> Reason e \<noteq> FailoverFormat"

definition failover ::
  "FailoverReason \<Rightarrow> string \<Rightarrow> string \<Rightarrow> int \<Rightarrow> go_error \<Rightarrow> FailoverError" where
  "failover r p m st w =
     \<lparr>Reason = r, FEProvider = p, FEModel = m, Status = st, Wrapped = w\<rparr>"

lemmas failover_simps [simp] = failover_def

definition classify_text :: "string \<Rightarrow> go_error \<Rightarrow> string \<Rightarrow> string \<Rightarrow> FailoverError option" where
  "classify_text msg err provider model =
     (if IsImageDimensionError msg \<or> IsImageSizeError msg then
        Some (failover FailoverFormat provider model 0 err)
      else
        (let status = extractHTTPStatus msg;
             by_message =
               (case classifyByMessage msg of
                  Some r \<Rightarrow> Some (failover r provider model 0 err)
                | None \<Rightarrow> None)
         in if 0 < status then
              (case classifyByStatus status of
                 Some r \<Rightarrow> Some (failover r provider model status err)
               | None \<Rightarrow> by_message)
            else by_message))"

definition ClassifyError ::
  "go_error option \<Rightarrow> string \<Rightarrow> string \<Rightarrow> FailoverError option" where
  "ClassifyError err provider model =
     (case err of
        None \<Rightarrow> None
      | Some Canceled \<Rightarrow> None
      | Some DeadlineExceeded \<Rightarrow>
          Some (failover FailoverTimeout provider model 0 DeadlineExceeded)
      | Some (ErrText s) \<Rightarrow> classify_text (ToLower s) (ErrText s) provider model)"

section \<open>What the classification gives\<close>

lemma lit_i_rel:
  assumes "ToLower s = ToLower t" and "rx_rel r (if s = [] then p else Some (last s)) u"
  shows "rx_rel (lit_i t @ r) p (s @ u)"
  using assms
proof (induction t arbitrary: s p)
  case Nil
  then show ?case by (simp add: lit_i_def)
next
  case (Cons c t)
  then obtain d s' where s: "s = d # s'" and d: "lower_char d = lower_char c"
    and s': "ToLower s' = ToLower t" by (cases s) auto
  have "rx_rel (lit_i t @ r) (Some d) (s' @ u)"
    using Cons.prems(2) by (intro Cons.IH s') (auto simp: s split: if_splits)
  then have "rx_rel (One (\<lambda>e. lower_char e = lower_char c) # lit_i t @ r) p (d # s' @ u)"
    using d by (rule rel_one)
  then show ?case by (simp add: lit_i_def s)
qed

lemma many_rel:
  assumes "\<forall>c\<in>set s. f c" and "rx_rel r (if s = [] then p else Some (last s)) u"
  shows "rx_rel (Many f # r) p (s @ u)"
  using assms
proof (induction s arbitrary: p)
  case Nil
  then show ?case by (auto intro: rel_many_stop)
next
  case (Cons c s)
  then show ?case by (auto intro!: rel_many_more split: if_splits)
qed

lemma MatchString_at:
  assumes "rx_rel r (if pre = [] then None else Some (last pre)) post"
  shows "MatchString r (pre @ post)"
  unfolding MatchString_def rx_find_iff using assms by blast

lemma image_size_recognised:
  assumes "\<forall>c\<in>set mid. dot c"
  shows "IsImageSizeError (pre @ ''image exceeds'' @ mid @ ''mb'' @ post)"
proof -
  let ?r = "lit_i ''mb'' :: rx list"
  have "rx_rel (lit_i ''mb'' @ []) p (''mb'' @ post)" for p
    by (rule lit_i_rel) (simp_all add: rel_nil)
  then have mb: "rx_rel ?r p (''mb'' @ post)" for p by simp
  have "rx_rel (Many dot # ?r) p (mid @ ''mb'' @ post)" for p
    by (rule many_rel [OF assms mb])
  then have "rx_rel (lit_i ''image exceeds'' @ [Many dot] @ ?r) p
      (''image exceeds'' @ mid @ ''mb'' @ post)" for p
    by (intro lit_i_rel) simp_all
  then show ?thesis
    using MatchString_at [of "lit_i ''image exceeds'' @ [Many dot] @ ?r" pre]
    unfolding IsImageSizeError_def imageSizePatterns_def matchesAny.simps by presburger
qed

text \<open>An "image exceeds ... mb" error always stops the fallback: whatever else its text says, a
  retriable status code included, it is classified as a format error.\<close>

theorem image_size_error_aborts:
  assumes "ToLower s = pre @ ''image exceeds'' @ mid @ ''mb'' @ post"
    and "\<forall>c\<in>set mid. byte c \<noteq> 10"
  shows "\<exists>fe. ClassifyError (Some (ErrText s)) provider model = Some fe \<and>
    Reason fe = FailoverFormat \<and> \<not> IsRetriable fe"
  using image_size_recognised [of mid pre post] assms
  by (simp add: ClassifyError_def classify_text_def IsRetriable_def dot_def)

theorem image_size_error_aborts_witness:
  "\<exists>fe. ClassifyError (Some (ErrText ''Status: 503 Image exceeds 5 MB'')) ''openai'' ''gpt'' = Some fe \<and>
    Reason fe = FailoverFormat \<and> \<not> IsRetriable fe"
proof (rule image_size_error_aborts)
  show "ToLower ''Status: 503 Image exceeds 5 MB'' =
      ''status: 503 '' @ ''image exceeds'' @ '' 5 '' @ ''mb'' @ []"
    by code_simp
  show "\<forall>c\<in>set '' 5 ''. byte c \<noteq> 10" by code_simp
qed

definition reported_reasons :: "FailoverReason set" where
  "reported_reasons =
     {FailoverAuth, FailoverRateLimit, FailoverBilling, FailoverTimeout, FailoverFormat}"

lemma reported_simps [simp]:
  "FailoverAuth \<in> reported_reasons" "FailoverRateLimit \<in> reported_reasons"
  "FailoverBilling \<in> reported_reasons" "FailoverTimeout \<in> reported_reasons"
  "FailoverFormat \<in> reported_reasons" "FailoverOverloaded \<notin> reported_reasons"
  "FailoverUnknown \<notin> reported_reasons"
  by (simp_all add: reported_reasons_def)

lemma classifyByStatus_some:
  "classifyByStatus st = Some r \<Longrightarrow> 400 \<le> st \<and> st \<le> 529 \<and> r \<in> reported_reasons"
  by (auto simp: classifyByStatus_def transientStatusCodes_def split: if_splits)

lemma classifyByMessage_some: "classifyByMessage msg = Some r \<Longrightarrow> r \<in> reported_reasons"
  by (auto simp: classifyByMessage_def split: if_splits)

lemma classify_text_some:
  assumes "classify_text msg err p m = Some fe"
  shows "FEProvider fe = p \<and> FEModel fe = m \<and> Wrapped fe = err \<and> Reason fe \<in> reported_reasons \<and>
    (Status fe = 0 \<or> classifyByStatus (Status fe) = Some (Reason fe))"
  using assms classifyByStatus_some classifyByMessage_some
  by (auto simp: classify_text_def Let_def split: option.splits if_splits)

text \<open>A classified error keeps the error, the provider and the model it came from; its reason is one
  of five (\<open>FailoverOverloaded\<close> and \<open>FailoverUnknown\<close> are never produced), a recorded status code is
  the one that determined the reason, and a cancellation is never classified.\<close>

theorem ClassifyError_sound:
  assumes "ClassifyError err provider model = Some fe"
  shows "err = Some (Wrapped fe) \<and> Wrapped fe \<noteq> Canceled \<and>
    FEProvider fe = provider \<and> FEModel fe = model \<and>
    Reason fe \<in> reported_reasons \<and>
    (Status fe = 0 \<or> 400 \<le> Status fe \<and> Status fe \<le> 529 \<and>
       classifyByStatus (Status fe) = Some (Reason fe))"
  using assms classify_text_some [of _ _ provider model fe] classifyByStatus_some [of "Status fe"]
  by (auto simp: ClassifyError_def split: option.splits go_error.splits)

theorem ClassifyError_sound_witness:
  "\<exists>fe. ClassifyError (Some (ErrText ''status 429'')) ''openai'' ''gpt'' = Some fe \<and>
    Reason fe = FailoverRateLimit \<and> Status fe = 429 \<and> Wrapped fe \<noteq> Canceled"
proof -
  have eq: "ClassifyError (Some (ErrText ''status 429'')) ''openai'' ''gpt'' =
      Some (failover FailoverRateLimit ''openai'' ''gpt'' 429 (ErrText ''status 429''))"
    by code_simp
  from ClassifyError_sound [OF eq] eq show ?thesis by auto
qed

text \<open>The text of an HTTP error as \<open>pkg/providers/common/common.go\<close> words it.\<close>

definition http_error_text :: "string \<Rightarrow> string \<Rightarrow> string" where
  "http_error_text code body =
     ''API request failed:'' @ [CHR 0x0A] @ ''  Status: '' @ code @ [CHR 0x0A] @ ''  Body:   '' @ body"

lemma is_digit_lower: "is_digit d \<Longrightarrow> lower_char d = d"
  by (auto simp: is_digit_def is_upper_def lower_char_def)

lemma rx_find_skip:
  assumes "k \<notin> set s"
  shows "rx_find (One (\<lambda>d. d = k) # r) p (s @ t) =
    rx_find (One (\<lambda>d. d = k) # r) (if s = [] then p else Some (last s)) t"
  using assms by (induction s arbitrary: p) auto

lemma rx_find_here: "rx_at r p s = Some t \<Longrightarrow> rx_find r p s = Some t"
  by (cases s) simp_all

lemma lower_http_error:
  assumes "is_digit a" "is_digit b" "is_digit c"
  shows "ToLower (http_error_text [a, b, c] body) =
    ''api reque'' @ ''s'' @ (''t failed:'' @ [CHR 0x0A] @ ''  '') @
    ''status: '' @ [a, b, c] @ ToLower ([CHR 0x0A] @ ''  Body:   '' @ body)"
proof -
  have "ToLower (''API request failed:'' @ [CHR 0x0A] @ ''  Status: '') =
      ''api request failed:'' @ [CHR 0x0A] @ ''  status: ''" by code_simp
  then show ?thesis
    using assms by (simp add: http_error_text_def is_digit_lower)
qed

definition status_rx :: "rx list" where
  "status_rx = lit ''status'' @ [One (\<lambda>c. among '':'' c \<or> re_space c),
     Many (\<lambda>c. among '':'' c \<or> re_space c), Mark, One is_digit, One is_digit, One is_digit]"

lemma status_rx_here:
  assumes "is_digit a" "is_digit b" "is_digit c"
  shows "rx_at status_rx p (''status: '' @ [a, b, c] @ t) = Some ([a, b, c] @ t)"
proof -
  have "\<not> among '':'' a" "\<not> re_space a"
    using assms(1) by (auto simp: among_def re_space_def is_digit_def)
  with assms show ?thesis
    by (simp add: status_rx_def lit_def) (simp add: among_def re_space_def)
qed

lemma extract_http_error:
  assumes "is_digit a" "is_digit b" "is_digit c"
  shows "extractHTTPStatus (ToLower (http_error_text [a, b, c] body)) = parseDigits [a, b, c]"
proof -
  let ?u = "''status: '' @ [a, b, c] @ ToLower ([CHR 0x0A] @ ''  Body:   '' @ body)"
  let ?mid = "''t failed:'' @ [CHR 0x0A] @ ''  ''"
  obtain r where r: "status_rx = One (\<lambda>d. d = CHR ''s'') # One (\<lambda>d. d = CHR ''t'') #
      One (\<lambda>d. d = CHR ''a'') # r"
    by (simp add: status_rx_def lit_def)
  have "rx_find status_rx None (''api reque'' @ ''s'' @ ?mid @ ?u) =
      rx_find status_rx (Some CHR ''e'') (''s'' @ ?mid @ ?u)"
    unfolding r by (subst rx_find_skip) simp_all
  also have "\<dots> = rx_find status_rx (Some CHR ''s'') (?mid @ ?u)"
    by (simp add: r)
  also have "\<dots> = rx_find status_rx (Some CHR '' '') ?u"
    unfolding r by (subst rx_find_skip) simp_all
  also have "\<dots> = Some ([a, b, c] @ ToLower ([CHR 0x0A] @ ''  Body:   '' @ body))"
    by (rule rx_find_here) (rule status_rx_here [OF assms])
  finally have find: "rx_find status_rx None (ToLower (http_error_text [a, b, c] body)) =
      Some ([a, b, c] @ ToLower ([CHR 0x0A] @ ''  Body:   '' @ body))"
    by (simp only: lower_http_error [OF assms] append_assoc)
  have "httpStatusPatterns = status_rx # tl httpStatusPatterns"
    by (simp add: httpStatusPatterns_def status_rx_def)
  then have "extractHTTPStatus msg = extract_first (status_rx # tl httpStatusPatterns) msg" for msg
    by (simp add: extractHTTPStatus_def)
  with find show ?thesis by (simp del: ToLower_Cons ToLower_append)
qed

text \<open>The HTTP errors that the provider adapters report are classified by their status code, unless
  the body is about an image: the code decides even when the body names another cause.\<close>

theorem http_error_by_status:
  assumes "is_digit a" "is_digit b" "is_digit c"
    and "classifyByStatus (parseDigits [a, b, c]) = Some r"
    and "\<not> IsImageDimensionError (ToLower (http_error_text [a, b, c] body))"
    and "\<not> IsImageSizeError (ToLower (http_error_text [a, b, c] body))"
  shows "ClassifyError (Some (ErrText (http_error_text [a, b, c] body))) provider model =
    Some (failover r provider model (parseDigits [a, b, c])
      (ErrText (http_error_text [a, b, c] body)))"
  using assms(4-6) extract_http_error [OF assms(1-3), of body] classifyByStatus_some [OF assms(4)]
  by (simp add: ClassifyError_def classify_text_def)

theorem http_error_by_status_witness:
  "map_option Reason (ClassifyError (Some (ErrText (http_error_text ''402'' ''rate limit''))) ''p'' ''m'')
    = Some FailoverBilling"
proof -
  have "ClassifyError (Some (ErrText (http_error_text [CHR ''4'', CHR ''0'', CHR ''2''] ''rate limit'')))
      ''p'' ''m'' = Some (failover FailoverBilling ''p'' ''m''
        (parseDigits [CHR ''4'', CHR ''0'', CHR ''2''])
        (ErrText (http_error_text [CHR ''4'', CHR ''0'', CHR ''2''] ''rate limit'')))"
    by (rule http_error_by_status) code_simp+
  then show ?thesis by simp
qed

end
