(* ===== verification/ModelRef.thy ===== *)
theory ModelRef
  imports Prelude
begin

text \<open>
  Model references and the candidate list of a fallback chain: \<open>pkg/providers/model_ref.go\<close> and
  \<open>ResolveCandidates\<close> of \<open>pkg/providers/fallback.go\<close>.
\<close>

record ModelRef =
  RefProvider :: string
  RefModel :: string

definition NormalizeProvider :: "string \<Rightarrow> string" where
  "NormalizeProvider provider =
     (let p = ToLower (TrimSpace provider) in
      if p = ''z.ai'' \<or> p = ''z-ai'' then ''zai''
      else if p = ''opencode-zen'' then ''opencode''
      else if p = ''qwen'' then ''qwen-portal''
      else if p = ''kimi-code'' then ''kimi-coding''
      else if p = ''gpt'' then ''openai''
      else if p = ''claude'' then ''anthropic''
      else if p = ''glm'' then ''zhipu''
      else if p = ''google'' then ''gemini''
      else p)"

definition ModelKey :: "string \<Rightarrow> string \<Rightarrow> string" where
  "ModelKey provider model = NormalizeProvider provider @ ''/'' @ ToLower (TrimSpace model)"

definition ParseModelRef :: "string \<Rightarrow> string \<Rightarrow> ModelRef option" where
  "ParseModelRef raw0 defaultProvider =
     (let raw = TrimSpace raw0 in
      if raw = [] then None
      else
        (case Index raw ''/'' of
           Some (Suc i) \<Rightarrow>
             (let provider = NormalizeProvider (take (Suc i) raw);
                  model = TrimSpace (drop (Suc (Suc i)) raw)
              in if model = [] then None
                 else Some \<lparr>RefProvider = provider, RefModel = model\<rparr>)
         | _ \<Rightarrow> Some \<lparr>RefProvider = NormalizeProvider defaultProvider, RefModel = raw\<rparr>))"

record FallbackCandidate =
  CandProvider :: string
  CandModel :: string

record ModelConfig =
  Primary :: string
  Fallbacks :: "string list"

type_synonym model_lookup = "string \<Rightarrow> string option"

text \<open>The closure \<open>addCandidate\<close>, over the set of seen keys and the candidates so far.\<close>

definition addCandidate ::
  "model_lookup option \<Rightarrow> string \<Rightarrow> string \<Rightarrow> string list \<times> FallbackCandidate list \<Rightarrow>
   string list \<times> FallbackCandidate list" where
  "addCandidate lookup defaultProvider raw st =
     (let candidateRaw0 = TrimSpace raw;
          candidateRaw = (case lookup of None \<Rightarrow> candidateRaw0
            | Some f \<Rightarrow> (case f candidateRaw0 of Some resolved \<Rightarrow> resolved | None \<Rightarrow> candidateRaw0))
      in case ParseModelRef candidateRaw defaultProvider of
           None \<Rightarrow> st
         | Some ref \<Rightarrow>
             let key = ModelKey (RefProvider ref) (RefModel ref) in
             if key \<in> set (fst st) then st
             else (key # fst st,
               snd st @ [\<lparr>CandProvider = RefProvider ref, CandModel = RefModel ref\<rparr>]))"

definition ResolveCandidatesWithLookup ::
  "ModelConfig \<Rightarrow> string \<Rightarrow> model_lookup option \<Rightarrow> FallbackCandidate list" where
  "ResolveCandidatesWithLookup c defaultProvider lookup =
     snd (fold (addCandidate lookup defaultProvider) (Fallbacks c)
       (addCandidate lookup defaultProvider (Primary c) ([], [])))"

definition ResolveCandidates :: "ModelConfig \<Rightarrow> string \<Rightarrow> FallbackCandidate list" where
  "ResolveCandidates c defaultProvider = ResolveCandidatesWithLookup c defaultProvider None"

section \<open>Canonical keys\<close>

lemma provider_alias_fixed:
  "NormalizeProvider ''zai'' = ''zai''" "NormalizeProvider ''opencode'' = ''opencode''"
  "NormalizeProvider ''qwen-portal'' = ''qwen-portal''"
  "NormalizeProvider ''kimi-coding'' = ''kimi-coding''"
  "NormalizeProvider ''openai'' = ''openai''" "NormalizeProvider ''anthropic'' = ''anthropic''"
  "NormalizeProvider ''zhipu'' = ''zhipu''" "NormalizeProvider ''gemini'' = ''gemini''"
  by code_simp+

lemma NormalizeProvider_plain:
  "p = ToLower (TrimSpace s) \<Longrightarrow> NormalizeProvider s = NormalizeProvider p"
  by (simp add: NormalizeProvider_def TrimSpace_ToLower)

lemma NormalizeProvider_cases:
  "NormalizeProvider s \<in> {''zai'', ''opencode'', ''qwen-portal'', ''kimi-coding'', ''openai'',
     ''anthropic'', ''zhipu'', ''gemini''} \<or> NormalizeProvider s = ToLower (TrimSpace s)"
  by (simp add: NormalizeProvider_def Let_def)

lemma NormalizeProvider_idem [simp]: "NormalizeProvider (NormalizeProvider s) = NormalizeProvider s"
proof (cases "NormalizeProvider s = ToLower (TrimSpace s)")
  case True
  with NormalizeProvider_plain [OF refl, of s] show ?thesis by simp
next
  case False
  with NormalizeProvider_cases [of s] have "NormalizeProvider s \<in>
    {''zai'', ''opencode'', ''qwen-portal'', ''kimi-coding'', ''openai'', ''anthropic'', ''zhipu'',
     ''gemini''}" by blast
  then show ?thesis
    by (elim insertE emptyE) (simp_all only: provider_alias_fixed)
qed

lemma ModelKey_normal [simp]: "ModelKey (NormalizeProvider p) m = ModelKey p m"
  by (simp add: ModelKey_def)

lemma ParseModelRef_normal:
  "ParseModelRef raw d = Some ref \<Longrightarrow>
     NormalizeProvider (RefProvider ref) = RefProvider ref \<and> RefModel ref \<noteq> [] \<and>
     trimmed (RefModel ref)"
  by (auto simp: ParseModelRef_def Let_def split: option.splits nat.splits if_splits)

section \<open>The candidate list\<close>

definition cand_key :: "FallbackCandidate \<Rightarrow> string" where
  "cand_key c = ModelKey (CandProvider c) (CandModel c)"

definition cand_inv :: "string list \<times> FallbackCandidate list \<Rightarrow> bool" where
  "cand_inv st \<longleftrightarrow> set (fst st) = cand_key ` set (snd st) \<and> distinct (map cand_key (snd st))"

text \<open>The reference an entry of the configuration stands for.\<close>

definition entry_ref :: "model_lookup option \<Rightarrow> string \<Rightarrow> string \<Rightarrow> ModelRef option" where
  "entry_ref lookup d raw =
     ParseModelRef
       (case lookup of None \<Rightarrow> TrimSpace raw
        | Some f \<Rightarrow> (case f (TrimSpace raw) of Some r \<Rightarrow> r | None \<Rightarrow> TrimSpace raw)) d"

definition entry_key :: "model_lookup option \<Rightarrow> string \<Rightarrow> string \<Rightarrow> string option" where
  "entry_key lookup d raw =
     map_option (\<lambda>ref. ModelKey (RefProvider ref) (RefModel ref)) (entry_ref lookup d raw)"

lemma addCandidate_step:
  "addCandidate lookup d raw st =
     (case entry_ref lookup d raw of
        None \<Rightarrow> st
      | Some ref \<Rightarrow>
          if ModelKey (RefProvider ref) (RefModel ref) \<in> set (fst st) then st
          else (ModelKey (RefProvider ref) (RefModel ref) # fst st,
            snd st @ [\<lparr>CandProvider = RefProvider ref, CandModel = RefModel ref\<rparr>]))"
  by (simp add: addCandidate_def entry_ref_def Let_def cong: option.case_cong)

lemma addCandidate_inv: "cand_inv st \<Longrightarrow> cand_inv (addCandidate lookup d raw st)"
  by (auto simp: addCandidate_step cand_inv_def cand_key_def split: option.splits)

lemma addCandidate_keys:
  "cand_inv st \<Longrightarrow>
   cand_key ` set (snd (addCandidate lookup d raw st)) =
     cand_key ` set (snd st) \<union> set_option (entry_key lookup d raw)"
  by (auto simp: addCandidate_step cand_inv_def cand_key_def entry_key_def split: option.splits)

lemma addCandidate_extends: "\<exists>more. snd (addCandidate lookup d raw st) = snd st @ more"
  by (simp add: addCandidate_step split: option.splits)

lemma fold_addCandidate_inv: "cand_inv st \<Longrightarrow> cand_inv (fold (addCandidate lookup d) raws st)"
  by (induction raws arbitrary: st) (simp_all add: addCandidate_inv)

lemma fold_addCandidate_keys:
  "cand_inv st \<Longrightarrow>
   cand_key ` set (snd (fold (addCandidate lookup d) raws st)) =
     cand_key ` set (snd st) \<union> (\<Union>raw \<in> set raws. set_option (entry_key lookup d raw))"
  by (induction raws arbitrary: st) (simp_all add: addCandidate_inv addCandidate_keys Un_assoc)

lemma fold_addCandidate_extends:
  "\<exists>more. snd (fold (addCandidate lookup d) raws st) = snd st @ more"
proof (induction raws arbitrary: st)
  case (Cons raw raws)
  from Cons.IH [of "addCandidate lookup d raw st"] addCandidate_extends [of lookup d raw st]
  show ?case by auto
qed simp

lemma cand_inv_Nil [simp]: "cand_inv ([], [])"
  by (simp add: cand_inv_def)

text \<open>The candidate list of a fallback chain is the configuration without duplicates: no two
  candidates share a canonical key, every entry that parses is represented, nothing else is added,
  and the primary model comes first whenever it parses.\<close>

theorem ResolveCandidates_dedup:
  "distinct (map cand_key (ResolveCandidatesWithLookup c d lookup)) \<and>
   cand_key ` set (ResolveCandidatesWithLookup c d lookup) =
     (\<Union>raw \<in> set (Primary c # Fallbacks c). set_option (entry_key lookup d raw)) \<and>
   (\<forall>ref \<in> set_option (entry_ref lookup d (Primary c)).
      \<exists>rest. ResolveCandidatesWithLookup c d lookup =
        \<lparr>CandProvider = RefProvider ref, CandModel = RefModel ref\<rparr> # rest)"
proof -
  let ?st = "addCandidate lookup d (Primary c) ([], [])"
  have inv: "cand_inv ?st" by (simp add: addCandidate_inv)
  have keys: "cand_key ` set (snd ?st) = set_option (entry_key lookup d (Primary c))"
    by (simp add: addCandidate_keys)
  let ?fin = "fold (addCandidate lookup d) (Fallbacks c) ?st"
  have res: "ResolveCandidatesWithLookup c d lookup = snd ?fin"
    by (simp add: ResolveCandidatesWithLookup_def)
  have "distinct (map cand_key (snd ?fin))"
    using fold_addCandidate_inv [OF inv] by (simp add: cand_inv_def)
  moreover have "cand_key ` set (snd ?fin) =
      (\<Union>raw \<in> set (Primary c # Fallbacks c). set_option (entry_key lookup d raw))"
    using fold_addCandidate_keys [OF inv] keys by simp
  moreover have "\<forall>ref \<in> set_option (entry_ref lookup d (Primary c)). \<exists>rest. snd ?fin =
      \<lparr>CandProvider = RefProvider ref, CandModel = RefModel ref\<rparr> # rest"
    using fold_addCandidate_extends [of lookup d "Fallbacks c" ?st]
    by (auto simp: addCandidate_step)
  ultimately show ?thesis unfolding res by blast
qed

definition demo_models :: ModelConfig where
  "demo_models = \<lparr>Primary = ''claude/opus'', Fallbacks = [''Anthropic/OPUS'', ''gpt-4'']\<rparr>"

theorem ResolveCandidates_dedup_witness:
  "distinct (map cand_key (ResolveCandidatesWithLookup demo_models ''openai'' None)) \<and>
   (\<exists>rest. ResolveCandidatesWithLookup demo_models ''openai'' None =
      \<lparr>CandProvider = ''anthropic'', CandModel = ''opus''\<rparr> # rest)"
proof -
  have "entry_ref None ''openai'' (Primary demo_models) =
      Some \<lparr>RefProvider = ''anthropic'', RefModel = ''opus''\<rparr>"
    by code_simp
  with ResolveCandidates_dedup [where c = demo_models and d = "''openai''" and lookup = None] show ?thesis by simp
qed

end
