(* ===== verification/Fallback.thy ===== *)
theory Fallback
  imports ErrorClassifier ModelRef
begin

text \<open>
  The fallback chain: \<open>Execute\<close> and \<open>ExecuteImage\<close> of \<open>pkg/providers/fallback.go\<close>.

  The callback \<open>run\<close>, the context and the clock are the chain's environment: \<open>env i\<close> holds what
  the \<open>i\<close>-th iteration observes of them (\<open>run\<close>'s outcome for a provider and a model, the answers
  of \<open>ctx.Err()\<close> before and after, the clock at each call of the tracker). Both functions return
  the tracker, the calls they made of \<open>run\<close>, and the result or the error.
\<close>

record 'r attempt_env =
  canceled_before :: bool
  t_check :: instant
  t_remaining :: instant
  run_outcome :: "string \<Rightarrow> string \<Rightarrow> 'r + go_error"
  elapsed :: duration
  canceled_after :: bool
  t_fail :: instant

datatype attempt_error =
  CooldownError string duration
| RunError go_error
| ClassifiedError FailoverError

record FallbackAttempt =
  AttProvider :: string
  AttModel :: string
  AttError :: attempt_error
  AttReason :: "FailoverReason option"
  AttDuration :: duration
  Skipped :: bool

record 'r FallbackResult =
  Response :: 'r
  ResProvider :: string
  ResModel :: string
  Attempts :: "FallbackAttempt list"

datatype fallback_error =
  NoCandidates
| ContextCanceled
| Unclassified string string go_error
| NonRetriable FailoverError
| FallbackExhausted "FallbackAttempt list"

type_synonym call = "string \<times> string"
type_synonym 'r fallback_outcome = "fallback_error + 'r FallbackResult"

definition Second :: duration where "Second = 1000 * Millisecond"

text \<open>\<open>Duration.Round\<close> for a non-negative duration.\<close>

definition round_to :: "duration \<Rightarrow> duration \<Rightarrow> duration" where
  "round_to d m = (let r = d mod m in if r + r < m then d - r else d + (m - r))"

text \<open>One iteration of \<open>Execute\<close>: it stops with an outcome, or leaves an attempt and goes on.\<close>

definition skipped_attempt :: "FallbackCandidate \<Rightarrow> duration \<Rightarrow> FallbackAttempt" where
  "skipped_attempt c remaining =
     \<lparr>AttProvider = CandProvider c, AttModel = CandModel c,
      AttError = CooldownError (CandProvider c) (round_to remaining Second),
      AttReason = Some FailoverRateLimit, AttDuration = 0, Skipped = True\<rparr>"

definition failed_attempt :: "FallbackCandidate \<Rightarrow> attempt_error \<Rightarrow> FailoverReason option \<Rightarrow>
    duration \<Rightarrow> FallbackAttempt" where
  "failed_attempt c err reason d =
     \<lparr>AttProvider = CandProvider c, AttModel = CandModel c, AttError = err, AttReason = reason,
      AttDuration = d, Skipped = False\<rparr>"

definition try_candidate :: "'r attempt_env \<Rightarrow> FallbackCandidate \<Rightarrow> FallbackAttempt list \<Rightarrow>
    CooldownTracker \<Rightarrow> CooldownTracker \<times> call list \<times> ('r fallback_outcome + FallbackAttempt)" where
  "try_candidate e c atts ct =
     (let p = CandProvider c; m = CandModel c in
      if canceled_before e then (ct, [], Inl (Inl ContextCanceled))
      else if \<not> IsAvailable ct (t_check e) p then
        (ct, [], Inr (skipped_attempt c (CooldownRemaining ct (t_remaining e) p)))
      else
        (case run_outcome e p m of
           Inl resp \<Rightarrow>
             (MarkSuccess ct p, [(p, m)],
              Inl (Inr \<lparr>Response = resp, ResProvider = p, ResModel = m, Attempts = atts\<rparr>))
         | Inr err \<Rightarrow>
             if canceled_after e then (ct, [(p, m)], Inl (Inl ContextCanceled))
             else
               (case ClassifyError (Some err) p m of
                  None \<Rightarrow> (ct, [(p, m)], Inl (Inl (Unclassified p m err)))
                | Some fe \<Rightarrow>
                    if \<not> IsRetriable fe then (ct, [(p, m)], Inl (Inl (NonRetriable fe)))
                    else (MarkFailure ct (t_fail e) p (Reason fe), [(p, m)],
                          Inr (failed_attempt c (ClassifiedError fe) (Some (Reason fe))
                            (elapsed e))))))"

fun execute_loop :: "(nat \<Rightarrow> 'r attempt_env) \<Rightarrow> nat \<Rightarrow> FallbackCandidate list \<Rightarrow>
    FallbackAttempt list \<Rightarrow> CooldownTracker \<Rightarrow>
    CooldownTracker \<times> call list \<times> 'r fallback_outcome" where
  "execute_loop env i [] atts ct = (ct, [], Inl (FallbackExhausted atts))"
| "execute_loop env i (c # cs) atts ct =
     (case try_candidate (env i) c atts ct of
        (ct', calls, Inl out) \<Rightarrow> (ct', calls, out)
      | (ct', calls, Inr att) \<Rightarrow>
          (let atts' = atts @ [att] in
           if cs = [] \<and> \<not> Skipped att then (ct', calls, Inl (FallbackExhausted atts'))
           else
             (let (ct'', calls', out) = execute_loop env (Suc i) cs atts' ct'
              in (ct'', calls @ calls', out))))"

definition Execute :: "(nat \<Rightarrow> 'r attempt_env) \<Rightarrow> FallbackCandidate list \<Rightarrow> CooldownTracker \<Rightarrow>
    CooldownTracker \<times> call list \<times> 'r fallback_outcome" where
  "Execute env candidates ct =
     (if candidates = [] then (ct, [], Inl NoCandidates)
      else execute_loop env 0 candidates [] ct)"

text \<open>The chain for image requests: no tracker, and only image errors stop it.\<close>

definition try_image :: "'r attempt_env \<Rightarrow> FallbackCandidate \<Rightarrow> FallbackAttempt list \<Rightarrow>
    call list \<times> ('r fallback_outcome + FallbackAttempt)" where
  "try_image e c atts =
     (let p = CandProvider c; m = CandModel c in
      if canceled_before e then ([], Inl (Inl ContextCanceled))
      else
        (case run_outcome e p m of
           Inl resp \<Rightarrow>
             ([(p, m)], Inl (Inr \<lparr>Response = resp, ResProvider = p, ResModel = m, Attempts = atts\<rparr>))
         | Inr err \<Rightarrow>
             if canceled_after e then ([(p, m)], Inl (Inl ContextCanceled))
             else
               (let msg = ToLower (error_text err) in
                if IsImageDimensionError msg \<or> IsImageSizeError msg then
                  ([(p, m)], Inl (Inl (NonRetriable (failover FailoverFormat p m 0 err))))
                else ([(p, m)], Inr (failed_attempt c (RunError err) None (elapsed e))))))"

fun image_loop :: "(nat \<Rightarrow> 'r attempt_env) \<Rightarrow> nat \<Rightarrow> FallbackCandidate list \<Rightarrow>
    FallbackAttempt list \<Rightarrow> call list \<times> 'r fallback_outcome" where
  "image_loop env i [] atts = ([], Inl (FallbackExhausted atts))"
| "image_loop env i (c # cs) atts =
     (case try_image (env i) c atts of
        (calls, Inl out) \<Rightarrow> (calls, out)
      | (calls, Inr att) \<Rightarrow>
          (let atts' = atts @ [att] in
           if cs = [] then (calls, Inl (FallbackExhausted atts'))
           else (let (calls', out) = image_loop env (Suc i) cs atts' in (calls @ calls', out))))"

definition ExecuteImage :: "(nat \<Rightarrow> 'r attempt_env) \<Rightarrow> FallbackCandidate list \<Rightarrow>
    call list \<times> 'r fallback_outcome" where
  "ExecuteImage env candidates =
     (if candidates = [] then ([], Inl NoCandidates) else image_loop env 0 candidates [])"

section \<open>One iteration\<close>


definition cand_call :: "FallbackCandidate \<Rightarrow> call" where
  "cand_call c = (CandProvider c, CandModel c)"

definition att_call :: "FallbackAttempt \<Rightarrow> call" where
  "att_call a = (AttProvider a, AttModel a)"

text \<open>What one iteration can leave behind when the chain goes on.\<close>

lemma try_candidate_go_on:
  assumes "try_candidate e c atts ct = (ct', calls, Inr att)"
  shows "att_call att = cand_call c \<and> calls = (if Skipped att then [] else [cand_call c]) \<and>
    (if Skipped att then ct' = ct \<and> \<not> IsAvailable ct (t_check e) (CandProvider c)
     else IsAvailable ct (t_check e) (CandProvider c) \<and>
       (\<exists>err fe. run_outcome e (CandProvider c) (CandModel c) = Inr err \<and>
         ClassifyError (Some err) (CandProvider c) (CandModel c) = Some fe \<and> IsRetriable fe \<and>
         AttReason att = Some (Reason fe) \<and>
         ct' = MarkFailure ct (t_fail e) (CandProvider c) (Reason fe)))"
  using assms
  by (auto simp: try_candidate_def Let_def skipped_attempt_def failed_attempt_def att_call_def
      cand_call_def split: if_splits sum.splits option.splits)

lemma try_candidate_success:
  assumes "try_candidate e c atts ct = (ct', calls, Inl (Inr res))"
  shows "run_outcome e (CandProvider c) (CandModel c) = Inl (Response res) \<and>
    ResProvider res = CandProvider c \<and> ResModel res = CandModel c \<and> Attempts res = atts \<and>
    calls = [cand_call c] \<and> IsAvailable ct (t_check e) (CandProvider c) \<and>
    ct' = MarkSuccess ct (CandProvider c)"
  using assms
  by (auto simp: try_candidate_def Let_def cand_call_def
      split: if_splits sum.splits option.splits)

lemma try_candidate_not_exhausted:
  "try_candidate e c atts ct \<noteq> (ct', calls, Inl (Inl (FallbackExhausted xs)))"
  by (auto simp: try_candidate_def Let_def split: if_splits sum.splits option.splits)

lemma try_candidate_calls:
  assumes "try_candidate e c atts ct = (ct', calls, x)"
  shows "calls = [] \<or> calls = [cand_call c] \<and> IsAvailable ct (t_check e) (CandProvider c)"
  using assms
  by (auto simp: try_candidate_def Let_def cand_call_def
      split: if_splits sum.splits option.splits)

section \<open>The loop\<close>

text \<open>An attempt that let the chain go on: the candidate was skipped, or its call failed with an
  error that is classified and retriable.\<close>

definition att_ok :: "'r attempt_env \<Rightarrow> FallbackCandidate \<Rightarrow> FallbackAttempt \<Rightarrow> bool" where
  "att_ok e c a \<longleftrightarrow> att_call a = cand_call c \<and>
     (\<not> Skipped a \<longrightarrow>
       (\<exists>err fe. run_outcome e (CandProvider c) (CandModel c) = Inr err \<and>
          ClassifyError (Some err) (CandProvider c) (CandModel c) = Some fe \<and> IsRetriable fe \<and>
          AttReason a = Some (Reason fe)))"

definition called :: "FallbackAttempt list \<Rightarrow> call list" where
  "called atts = map att_call (filter (\<lambda>a. \<not> Skipped a) atts)"

lemma called_simps [simp]:
  "called [] = []"
  "called (a # atts) = (if Skipped a then [] else [att_call a]) @ called atts"
  by (simp_all add: called_def)

text \<open>How the loop ends: with an outcome of some iteration, or with the list of all the attempts.\<close>

definition loop_end :: "(nat \<Rightarrow> 'r attempt_env) \<Rightarrow> nat \<Rightarrow> FallbackCandidate list \<Rightarrow>
    FallbackAttempt list \<Rightarrow> call list \<Rightarrow> CooldownTracker \<Rightarrow> 'r fallback_outcome \<Rightarrow> bool" where
  "loop_end env i cs atts calls ct' out \<longleftrightarrow>
     (case out of
        Inr res \<Rightarrow>
          (\<exists>k new ct. k < length cs \<and> Attempts res = atts @ new \<and> length new = k \<and>
             (\<forall>j<k. att_ok (env (i + j)) (cs ! j) (new ! j)) \<and>
             cand_call (cs ! k) = (ResProvider res, ResModel res) \<and>
             run_outcome (env (i + k)) (ResProvider res) (ResModel res) = Inl (Response res) \<and>
             calls = called new @ [(ResProvider res, ResModel res)] \<and>
             ct' = MarkSuccess ct (ResProvider res))
      | Inl (FallbackExhausted xs) \<Rightarrow>
          (\<exists>new. xs = atts @ new \<and> length new = length cs \<and>
             (\<forall>j<length cs. att_ok (env (i + j)) (cs ! j) (new ! j)) \<and> calls = called new)
      | Inl e \<Rightarrow> e \<noteq> NoCandidates)"

lemma all_less_Suc_shift: "(\<forall>j<Suc k. P j) \<longleftrightarrow> P 0 \<and> (\<forall>j<k. P (Suc j))"
  using less_Suc_eq_0_disj by auto

lemma loop_end_Cons:
  assumes a: "att_ok (env i) c att" and cs: "calls = (if Skipped att then [] else [cand_call c])"
    and e: "loop_end env (Suc i) cs (atts @ [att]) calls' ct' out"
  shows "loop_end env i (c # cs) atts (calls @ calls') ct' out"
proof (cases out)
  case (Inr res)
  with e obtain k new ct where new: "k < length cs" "Attempts res = (atts @ [att]) @ new"
    "length new = k" "\<forall>j<k. att_ok (env (Suc i + j)) (cs ! j) (new ! j)"
    "cand_call (cs ! k) = (ResProvider res, ResModel res)"
    "run_outcome (env (Suc i + k)) (ResProvider res) (ResModel res) = Inl (Response res)"
    "calls' = called new @ [(ResProvider res, ResModel res)]" "ct' = MarkSuccess ct (ResProvider res)"
    by (auto simp: loop_end_def)
  have "loop_end env i (c # cs) atts (calls @ calls') ct' (Inr res)"
    unfolding loop_end_def sum.case
    using new a cs
    by (intro exI [of _ "Suc k"] exI [of _ "att # new"] exI [of _ ct])
      (auto simp: all_less_Suc_shift att_ok_def)
  with Inr show ?thesis by simp
next
  case (Inl err)
  show ?thesis
  proof (cases err)
    case (FallbackExhausted xs)
    with e Inl obtain new where new: "xs = (atts @ [att]) @ new" "length new = length cs"
      "\<forall>j<length cs. att_ok (env (Suc i + j)) (cs ! j) (new ! j)" "calls' = called new"
      by (auto simp: loop_end_def)
    have "loop_end env i (c # cs) atts (calls @ calls') ct' (Inl (FallbackExhausted xs))"
      unfolding loop_end_def sum.case fallback_error.case
      using new a cs
      by (intro exI [of _ "att # new"]) (auto simp: all_less_Suc_shift att_ok_def)
    with Inl FallbackExhausted show ?thesis by simp
  qed (use e Inl in \<open>simp_all add: loop_end_def\<close>)
qed

lemma loop_end_exhausted: "loop_end env i [] atts [] ct (Inl (FallbackExhausted atts))"
  by (simp add: loop_end_def)

lemma execute_loop_end:
  assumes "execute_loop env i cs atts ct = (ct', calls, out)"
  shows "loop_end env i cs atts calls ct' out"
  using assms
proof (induction cs arbitrary: i atts ct calls)
  case Nil
  then show ?case by (auto simp: loop_end_exhausted)
next
  case (Cons c cs)
  obtain ct1 calls1 x where step: "try_candidate (env i) c atts ct = (ct1, calls1, x)"
    by (metis prod_cases3)
  show ?case
  proof (cases x)
    case (Inl out1)
    with step Cons.prems have out: "out = out1" "ct' = ct1" "calls = calls1" by auto
    show ?thesis
    proof (cases out1)
      case (Inr res)
      with step Inl out try_candidate_success [of "env i" c atts ct ct1 calls1 res] show ?thesis
        by (auto simp: loop_end_def cand_call_def intro!: exI [of _ 0] exI [of _ ct])
    next
      case (Inl err)
      with step \<open>x = Inl out1\<close> try_candidate_not_exhausted [of "env i" c atts ct]
      have "\<And>xs. err \<noteq> FallbackExhausted xs" by auto
      moreover have "err \<noteq> NoCandidates"
        using step \<open>x = Inl out1\<close> Inl
        by (auto simp: try_candidate_def Let_def split: if_splits sum.splits option.splits)
      ultimately show ?thesis
        using out Inl by (cases err) (auto simp: loop_end_def)
    qed
  next
    case (Inr att)
    from try_candidate_go_on [OF step [unfolded Inr]]
    have ok: "att_ok (env i) c att" and c1: "calls1 = (if Skipped att then [] else [cand_call c])"
      by (auto simp: att_ok_def)
    obtain calls2 where rest: "loop_end env (Suc i) cs (atts @ [att]) calls2 ct' out"
      "calls = calls1 @ calls2"
    proof (cases "cs = [] \<and> \<not> Skipped att")
      case True
      with step Inr Cons.prems have "ct' = ct1" "calls = calls1"
        "out = Inl (FallbackExhausted (atts @ [att]))" by auto
      with True that [of "[]"] show ?thesis by (simp add: loop_end_exhausted)
    next
      case False
      obtain ct2 calls2 out2 where rec: "execute_loop env (Suc i) cs (atts @ [att]) ct1 =
          (ct2, calls2, out2)" by (metis prod_cases3)
      with step Inr Cons.prems False have "ct' = ct2" "calls = calls1 @ calls2" "out = out2"
        by (auto simp: Let_def split: if_splits)
      with Cons.IH [of "Suc i" "atts @ [att]" ct1 calls2] rec that show ?thesis by auto
    qed
    from loop_end_Cons [OF ok c1 rest(1)] rest(2) show ?thesis by simp
  qed
qed

lemma Execute_end:
  assumes "Execute env cands ct = (ct', calls, out)" and "cands \<noteq> []"
  shows "loop_end env 0 cands [] calls ct' out"
  using assms execute_loop_end [of env 0 cands "[]" ct] by (simp add: Execute_def)

text \<open>A successful run: the response is that of some candidate; every candidate before it was
  skipped or failed with a retriable error, and is recorded in order as an attempt; nobody else was
  called; and the provider that answered is available again.\<close>

theorem Execute_success:
  assumes "Execute env cands ct = (ct', calls, Inr res)"
  shows "\<exists>k < length cands.
    cand_call (cands ! k) = (ResProvider res, ResModel res) \<and>
    run_outcome (env k) (ResProvider res) (ResModel res) = Inl (Response res) \<and>
    length (Attempts res) = k \<and>
    (\<forall>j < k. att_ok (env j) (cands ! j) (Attempts res ! j)) \<and>
    calls = called (Attempts res) @ [(ResProvider res, ResModel res)] \<and>
    (\<forall>t. IsAvailable ct' t (ResProvider res))"
proof -
  have "cands \<noteq> []" using assms by (auto simp: Execute_def)
  from Execute_end [OF assms this] show ?thesis
    by (auto simp: loop_end_def tracker.success_opens)
qed

text \<open>Exhaustion: the aggregate error lists every candidate once, in order, and each of them was
  skipped or failed with a retriable error.\<close>

theorem Execute_exhausted:
  assumes "Execute env cands ct = (ct', calls, Inl (FallbackExhausted atts))"
  shows "cands \<noteq> [] \<and> map att_call atts = map cand_call cands \<and>
    (\<forall>j < length cands. att_ok (env j) (cands ! j) (atts ! j)) \<and> calls = called atts"
proof -
  have ne: "cands \<noteq> []" using assms by (auto simp: Execute_def)
  from Execute_end [OF assms this]
  have "length atts = length cands" "\<forall>j < length cands. att_ok (env j) (cands ! j) (atts ! j)"
    "calls = called atts" by (auto simp: loop_end_def)
  moreover from this have "map att_call atts = map cand_call cands"
    by (auto intro: nth_equalityI simp: att_ok_def)
  ultimately show ?thesis using ne by simp
qed

section \<open>Cooldowns\<close>

lemma loop_calls_closed:
  assumes "execute_loop env i cs atts ct = (ct', calls, out)"
    and "i + length cs \<le> n" and "\<forall>j<n. \<not> IsAvailable ct (t_check (env j)) p"
  shows "p \<notin> fst ` set calls"
  using assms
proof (induction cs arbitrary: i atts ct calls ct' out)
  case (Cons c cs)
  obtain ct1 calls1 x where step: "try_candidate (env i) c atts ct = (ct1, calls1, x)"
    by (metis prod_cases3)
  have here: "p \<notin> fst ` set calls1"
    using try_candidate_calls [OF step] Cons.prems(2,3) by (auto simp: cand_call_def)
  show ?case
  proof (cases x)
    case (Inl out1)
    with step Cons.prems(1) here show ?thesis by auto
  next
    case (Inr att)
    have keep: "\<forall>j<n. \<not> IsAvailable ct1 (t_check (env j)) p"
      using try_candidate_go_on [OF step [unfolded Inr]] Cons.prems(2,3)
        tracker.failure_other [of p "CandProvider c"]
      by (cases "Skipped att"; cases "p = CandProvider c") auto
    show ?thesis
    proof (cases "cs = [] \<and> \<not> Skipped att")
      case True
      with step Inr Cons.prems(1) here show ?thesis by auto
    next
      case False
      obtain ct2 calls2 out2 where rec: "execute_loop env (Suc i) cs (atts @ [att]) ct1 =
          (ct2, calls2, out2)" by (metis prod_cases3)
      with step Inr Cons.prems(1) False have "calls = calls1 @ calls2"
        by (auto simp: Let_def split: if_splits)
      with Cons.IH [OF rec _ keep] Cons.prems(2) here show ?thesis by auto
    qed
  qed
qed simp

lemma loop_calls_distinct:
  assumes "execute_loop env i cs atts ct = (ct', calls, out)"
    and "i + length cs \<le> n"
    and "\<forall>j<n. \<forall>k<n. t_check (env j) < t_fail (env k) + 60000 * Millisecond"
  shows "distinct (map fst calls)"
  using assms
proof (induction cs arbitrary: i atts ct calls ct' out)
  case (Cons c cs)
  obtain ct1 calls1 x where step: "try_candidate (env i) c atts ct = (ct1, calls1, x)"
    by (metis prod_cases3)
  have here: "calls1 = [] \<or> calls1 = [cand_call c]"
    using try_candidate_calls [OF step] by auto
  show ?case
  proof (cases x)
    case (Inl out1)
    with step Cons.prems(1) here show ?thesis by auto
  next
    case (Inr att)
    show ?thesis
    proof (cases "cs = [] \<and> \<not> Skipped att")
      case True
      with step Inr Cons.prems(1) here show ?thesis by auto
    next
      case False
      obtain ct2 calls2 out2 where rec: "execute_loop env (Suc i) cs (atts @ [att]) ct1 =
          (ct2, calls2, out2)" by (metis prod_cases3)
      with step Inr Cons.prems(1) False have calls: "calls = calls1 @ calls2"
        by (auto simp: Let_def split: if_splits)
      have "CandProvider c \<notin> fst ` set calls2" if "calls1 \<noteq> []"
      proof (rule loop_calls_closed [OF rec])
        from that try_candidate_go_on [OF step [unfolded Inr]] obtain r where
          ct1: "ct1 = MarkFailure ct (t_fail (env i)) (CandProvider c) r" by (cases "Skipped att") auto
        have ms: "(60000 * Millisecond :: int) \<le> 5 * Hour" by (simp add: cooldown_units)
        show "\<forall>j<n. \<not> IsAvailable ct1 (t_check (env j)) (CandProvider c)"
          unfolding ct1
        proof (intro allI impI MarkFailure_pending)
          fix j assume "j < n"
          moreover have "i < n" using Cons.prems(2) by simp
          ultimately have "t_check (env j) < t_fail (env i) + 60000 * Millisecond"
            using Cons.prems(3) by blast
          with ms show "t_check (env j) < t_fail (env i) +
              (if r = FailoverBilling then 5 * Hour else 60000 * Millisecond)" by simp
        qed
      qed (use Cons.prems(2) in simp)
      moreover have "distinct (map fst calls2)"
        using Cons.IH [OF rec _ Cons.prems(3)] Cons.prems(2) by simp
      ultimately show ?thesis using here calls by (force simp: cand_call_def)
    qed
  qed
qed simp

text \<open>C11. A provider that is in cooldown whenever the chain looks is never called.\<close>

theorem Execute_respects_cooldown:
  assumes "Execute env cands ct = (ct', calls, out)"
    and "\<forall>j < length cands. \<not> IsAvailable ct (t_check (env j)) p"
  shows "p \<notin> fst ` set calls"
  using assms loop_calls_closed [of env 0 cands "[]" ct ct' calls out "length cands" p]
  by (auto simp: Execute_def split: if_splits)

text \<open>In a run of less than a minute no provider is called twice: once a model of a provider has
  failed with a retriable error, the other models of that provider are skipped.\<close>

theorem Execute_calls_provider_once:
  assumes "Execute env cands ct = (ct', calls, out)"
    and "\<forall>j < length cands. \<forall>k < length cands.
      t_check (env j) < t_fail (env k) + 60000 * Millisecond"
  shows "distinct (map fst calls)"
  using assms loop_calls_distinct [of env 0 cands "[]" ct ct' calls out "length cands"]
  by (auto simp: Execute_def split: if_splits)

section \<open>A concrete chain\<close>

definition demo_cands :: "FallbackCandidate list" where
  "demo_cands = [\<lparr>CandProvider = ''a'', CandModel = ''m''\<rparr>, \<lparr>CandProvider = ''a'', CandModel = ''n''\<rparr>,
     \<lparr>CandProvider = ''b'', CandModel = ''m''\<rparr>]"

definition demo_env :: "bool \<Rightarrow> nat \<Rightarrow> int attempt_env" where
  "demo_env ok i =
     \<lparr>canceled_before = False, t_check = 0, t_remaining = 0,
      run_outcome = (\<lambda>p m. if ok \<and> p = ''b'' then Inl 42 else Inr (ErrText ''429'')),
      elapsed = 5, canceled_after = False, t_fail = 0\<rparr>"

lemma demo_429: "ClassifyError (Some (ErrText ''429'')) p m =
    Some (failover FailoverRateLimit p m 429 (ErrText ''429''))"
proof -
  have "extractHTTPStatus (ToLower ''429'') = 429" "\<not> IsImageDimensionError (ToLower ''429'')"
    "\<not> IsImageSizeError (ToLower ''429'')" by code_simp+
  then show ?thesis
    by (simp add: ClassifyError_def classify_text_def classifyByStatus_def)
qed

lemmas demo_simps = Execute_def demo_cands_def demo_env_def try_candidate_def demo_429
  NewCooldownTracker_def IsAvailable_def MarkFailure_def getOrCreate_def fail_entry_def
  emptyEntry_def pending_def calculateStandardCooldown_table cooldown_units IsRetriable_def
  skipped_attempt_def failed_attempt_def

lemma demo_run:
  "\<exists>ct' atts. Execute (demo_env True) demo_cands NewCooldownTracker =
     (ct', [(''a'', ''m''), (''b'', ''m'')],
      Inr \<lparr>Response = 42, ResProvider = ''b'', ResModel = ''m'', Attempts = atts\<rparr>)"
  by (simp add: demo_simps Let_def)

lemma demo_run_exhausted:
  "\<exists>ct' atts. Execute (demo_env False) demo_cands NewCooldownTracker =
     (ct', [(''a'', ''m''), (''b'', ''m'')], Inl (FallbackExhausted atts))"
  by (simp add: demo_simps Let_def)

theorem Execute_success_witness:
  "\<exists>ct' calls res. Execute (demo_env True) demo_cands NewCooldownTracker = (ct', calls, Inr res) \<and>
     Response res = 42 \<and> length (Attempts res) = 2 \<and> IsAvailable ct' 0 ''b''"
proof -
  obtain ct' atts where run: "Execute (demo_env True) demo_cands NewCooldownTracker =
     (ct', [(''a'', ''m''), (''b'', ''m'')],
      Inr \<lparr>Response = 42, ResProvider = ''b'', ResModel = ''m'', Attempts = atts\<rparr>)"
    using demo_run by blast
  from Execute_success [OF run] obtain k where "k < length demo_cands"
    "cand_call (demo_cands ! k) = (''b'', ''m'')" "length atts = k" "\<forall>t. IsAvailable ct' t ''b''"
    by auto
  moreover from this have "k = 2"
    by (auto simp: demo_cands_def cand_call_def less_Suc_eq numeral_3_eq_3)
  ultimately show ?thesis using run by auto
qed

theorem Execute_exhausted_witness:
  "\<exists>ct' calls atts. Execute (demo_env False) demo_cands NewCooldownTracker =
     (ct', calls, Inl (FallbackExhausted atts)) \<and>
     map att_call atts = [(''a'', ''m''), (''a'', ''n''), (''b'', ''m'')]"
proof -
  obtain ct' atts where run: "Execute (demo_env False) demo_cands NewCooldownTracker =
     (ct', [(''a'', ''m''), (''b'', ''m'')], Inl (FallbackExhausted atts))"
    using demo_run_exhausted by blast
  from Execute_exhausted [OF run] have "map att_call atts = map cand_call demo_cands" by blast
  with run show ?thesis by (auto simp: demo_cands_def cand_call_def)
qed

theorem Execute_respects_cooldown_witness:
  "\<exists>ct' calls out. Execute (demo_env True) demo_cands
       (MarkFailure NewCooldownTracker 0 ''a'' FailoverBilling) = (ct', calls, out) \<and>
     ''a'' \<notin> fst ` set calls"
proof -
  let ?ct = "MarkFailure NewCooldownTracker 0 ''a'' FailoverBilling"
  obtain ct' calls out where run: "Execute (demo_env True) demo_cands ?ct = (ct', calls, out)"
    by (metis prod_cases3)
  have "\<not> IsAvailable ?ct (t_check (demo_env True j)) ''a''" for j
    by (rule MarkFailure_pending) (simp add: demo_env_def cooldown_units)
  with Execute_respects_cooldown [OF run, of "''a''"] run show ?thesis by blast
qed

theorem Execute_calls_provider_once_witness:
  "\<exists>ct' calls out. Execute (demo_env False) demo_cands NewCooldownTracker = (ct', calls, out) \<and>
     calls \<noteq> [] \<and> distinct (map fst calls)"
proof -
  obtain ct' atts where run: "Execute (demo_env False) demo_cands NewCooldownTracker =
     (ct', [(''a'', ''m''), (''b'', ''m'')], Inl (FallbackExhausted atts))"
    using demo_run_exhausted by blast
  have "distinct (map fst [(''a'', ''m''), (''b'', ''m'')])"
    by (rule Execute_calls_provider_once [OF run]) (simp add: demo_env_def cooldown_units)
  with run show ?thesis by blast
qed

end
