(* ===== verification/JSONL.thy ===== *)
theory JSONL
  imports Messages
begin

text \<open>
  The session store: \<open>pkg/memory/jsonl.go\<close>. A session is two files, an append-only file of JSON
  lines and a small file of metadata.

  The disk is a pair of maps from file stems to files. An operation computes, from the disk it
  reads, the list of its disk operations and its result; \<open>run_plan\<close> performs them, and a fault
  \<open>Some (n, k)\<close> makes the \<open>n\<close>-th disk operation fail, \<open>k\<close> bytes of it having reached the file
  when it is an append (a torn write). A crash at that point leaves the same disk. A replacement
  goes through \<open>WriteFileAtomic\<close>, which leaves the old file or the new one.

  Package \<open>encoding/json\<close> is a parameter: \<open>json_codec\<close> holds its four uses, and \<open>stored m\<close> is
  what a message is after a trip through JSON (the fields tagged \<open>json:"-"\<close> are gone). What the
  proofs use of it is \<open>json_laws\<close>. The clock is an argument. Each operation runs under the lock of
  its session key.
\<close>

section \<open>Files\<close>

datatype disk_file = Absent | Unreadable | Contents string

record disk =
  jsonl :: "string \<Rightarrow> disk_file"
  metaf :: "string \<Rightarrow> disk_file"

datatype disk_op =
  AppendJSONL string string
| ReplaceJSONL string string
| ReplaceMeta string string

type_synonym fault = "(nat \<times> nat) option"

fun bytes_of :: "disk_file \<Rightarrow> string" where
  "bytes_of (Contents s) = s"
| "bytes_of Absent = []"
| "bytes_of Unreadable = []"

fun apply_op :: "disk_op \<Rightarrow> disk \<Rightarrow> disk option" where
  "apply_op (AppendJSONL f s) d =
     (if jsonl d f = Unreadable then None
      else Some (d\<lparr>jsonl := (jsonl d)(f := Contents (bytes_of (jsonl d f) @ s))\<rparr>))"
| "apply_op (ReplaceJSONL f s) d = Some (d\<lparr>jsonl := (jsonl d)(f := Contents s)\<rparr>)"
| "apply_op (ReplaceMeta f s) d = Some (d\<lparr>metaf := (metaf d)(f := Contents s)\<rparr>)"

fun torn :: "nat \<Rightarrow> disk_op \<Rightarrow> disk \<Rightarrow> disk" where
  "torn k (AppendJSONL f s) d =
     (case apply_op (AppendJSONL f (take k s)) d of None \<Rightarrow> d | Some d' \<Rightarrow> d')"
| "torn k (ReplaceJSONL f s) d = d"
| "torn k (ReplaceMeta f s) d = d"

fun exec_ops :: "fault \<Rightarrow> disk_op list \<Rightarrow> disk \<Rightarrow> disk \<times> bool" where
  "exec_ops ft [] d = (d, True)"
| "exec_ops (Some (0, k)) (op # ops) d = (torn k op d, False)"
| "exec_ops (Some (Suc n, k)) (op # ops) d =
     (case apply_op op d of None \<Rightarrow> (d, False) | Some d' \<Rightarrow> exec_ops (Some (n, k)) ops d')"
| "exec_ops None (op # ops) d =
     (case apply_op op d of None \<Rightarrow> (d, False) | Some d' \<Rightarrow> exec_ops None ops d')"

datatype store_error =
  MarshalError | IOError | ReadMetaError | DecodeMetaError | EncodeMetaError
| OpenJSONLError | ScanTooLong

type_synonym 'a plan = "disk_op list \<times> (store_error + 'a)"

definition run_plan :: "fault \<Rightarrow> 'a plan \<Rightarrow> disk \<Rightarrow> disk \<times> (store_error + 'a)" where
  "run_plan ft p d =
     (case exec_ops ft (fst p) d of (d', ok) \<Rightarrow> (d', if ok then snd p else Inl IOError))"

text \<open>What happens after the disk operations of a step that succeeded.\<close>

definition and_then :: "'a plan \<Rightarrow> 'b plan \<Rightarrow> 'b plan" where
  "and_then p q = (case snd p of Inl e \<Rightarrow> (fst p, Inl e) | Inr _ \<Rightarrow> (fst p @ fst q, snd q))"

section \<open>Keys and locks\<close>

definition sanitizeKey :: "string \<Rightarrow> string" where
  "sanitizeKey key =
     (let s1 = ReplaceAllChar key (CHR '':'') (CHR ''_'');
          s2 = ReplaceAllChar s1 (CHR ''/'') (CHR ''_'')
      in ReplaceAllChar s2 (CHR 0x5C) (CHR ''_''))"

definition numLockShards :: int where "numLockShards = 64"

text \<open>The shard of a session: FNV-1a as \<open>hash/fnv\<close> computes it, on unsigned 32-bit integers.\<close>

definition fnv32a :: "string \<Rightarrow> int" where
  "fnv32a s = fold (\<lambda>c h. (xor h (of_char c) * 16777619) mod 2 ^ 32) s 2166136261"

definition sessionLock :: "string \<Rightarrow> int" where
  "sessionLock key = fnv32a key mod numLockShards"

section \<open>Metadata\<close>

record sessionMeta =
  MetaKey :: string
  MetaSummary :: string
  MetaTools :: "string list"
  Skip :: int
  Count :: int
  CreatedAt :: "instant option"
  UpdatedAt :: "instant option"

text \<open>A decoding error of the kinds that \<open>readMeta\<close> recovers from, and any other.\<close>

datatype decode_error = CorruptJSON | OtherDecodeError

record json_codec =
  marshal_msg :: "Message \<Rightarrow> string option"
  unmarshal_msg :: "string \<Rightarrow> Message option"
  stored :: "Message \<Rightarrow> Message"
  marshal_meta :: "sessionMeta \<Rightarrow> string option"
  unmarshal_meta :: "string \<Rightarrow> decode_error + sessionMeta"

definition zeroMeta :: "string \<Rightarrow> sessionMeta" where
  "zeroMeta key = \<lparr>MetaKey = key, MetaSummary = [], MetaTools = [], Skip = 0, Count = 0,
     CreatedAt = None, UpdatedAt = None\<rparr>"

definition readMeta :: "json_codec \<Rightarrow> disk \<Rightarrow> string \<Rightarrow> store_error + sessionMeta" where
  "readMeta js d key =
     (case metaf d (sanitizeKey key) of
        Absent \<Rightarrow> Inr (zeroMeta key)
      | Unreadable \<Rightarrow> Inl ReadMetaError
      | Contents data \<Rightarrow>
          if TrimSpace data = [] then Inr (zeroMeta key)
          else (case unmarshal_meta js data of
                  Inl CorruptJSON \<Rightarrow> Inr (zeroMeta key)
                | Inl OtherDecodeError \<Rightarrow> Inl DecodeMetaError
                | Inr m \<Rightarrow> Inr (if TrimSpace (MetaKey m) = [] then m\<lparr>MetaKey := key\<rparr> else m)))"

definition writeMeta :: "json_codec \<Rightarrow> string \<Rightarrow> sessionMeta \<Rightarrow> unit plan" where
  "writeMeta js key m =
     (case marshal_meta js m of
        None \<Rightarrow> ([], Inl EncodeMetaError)
      | Some data \<Rightarrow> ([ReplaceMeta (sanitizeKey key) data], Inr ()))"

section \<open>Lines\<close>

abbreviation nl :: char where "nl \<equiv> CHR 0x0A"
abbreviation cr :: char where "cr \<equiv> CHR 0x0D"

definition maxLineSize :: int where "maxLineSize = 10 * 1024 * 1024"

text \<open>\<open>bufio.Scanner\<close> with \<open>ScanLines\<close> and a buffer of \<open>maxLineSize\<close> bytes: the lines, a trailing
  carriage return cut off, and whether the scan stopped at a line that does not fit.\<close>

definition dropCR :: "string \<Rightarrow> string" where
  "dropCR s = (if s \<noteq> [] \<and> last s = cr then butlast s else s)"

function scan :: "string \<Rightarrow> string list \<times> bool" where
  "scan [] = ([], False)"
| "scan (c # s) =
     (let line = takeWhile (\<lambda>x. x \<noteq> nl) (c # s);
          rest = dropWhile (\<lambda>x. x \<noteq> nl) (c # s)
      in if maxLineSize \<le> int (length line) then ([], True)
         else let (ls, e) = scan (tl rest) in (dropCR line # ls, e))"
  by pat_completeness auto
termination
proof (relation "measure length")
  fix c s line rest assume "line = takeWhile (\<lambda>x. x \<noteq> nl) (c # s)"
    and rest: "rest = dropWhile (\<lambda>x. x \<noteq> nl) (c # s)"
  have "length (dropWhile (\<lambda>x. x \<noteq> nl) s) \<le> length s" by (rule length_dropWhile_le)
  then show "(tl rest, c # s) \<in> measure length"
    unfolding rest by auto
qed simp

definition nonempty_lines :: "string \<Rightarrow> string list" where
  "nonempty_lines s = filter (\<lambda>l. l \<noteq> []) (fst (scan s))"

definition readMessages :: "json_codec \<Rightarrow> disk_file \<Rightarrow> int \<Rightarrow> store_error + Message list" where
  "readMessages js f skip =
     (case f of
        Absent \<Rightarrow> Inr []
      | Unreadable \<Rightarrow> Inl OpenJSONLError
      | Contents s \<Rightarrow>
          if snd (scan s) then Inl ScanTooLong
          else Inr (List.map_filter (unmarshal_msg js) (drop (nat skip) (nonempty_lines s))))"

definition countLines :: "disk_file \<Rightarrow> store_error + int" where
  "countLines f =
     (case f of
        Absent \<Rightarrow> Inr 0
      | Unreadable \<Rightarrow> Inl OpenJSONLError
      | Contents s \<Rightarrow>
          if snd (scan s) then Inl ScanTooLong else Inr (int (length (nonempty_lines s))))"

section \<open>Operations\<close>

definition added_meta :: "instant \<Rightarrow> sessionMeta \<Rightarrow> sessionMeta" where
  "added_meta now m =
     m\<lparr>CreatedAt := (if Count m = 0 \<and> CreatedAt m = None then Some now else CreatedAt m),
       Count := Count m + 1, UpdatedAt := Some now\<rparr>"

lemma Skip_added_meta [simp]: "Skip (added_meta now m) = Skip m"
  and Count_added_meta [simp]: "Count (added_meta now m) = Count m + 1"
  by (simp_all add: added_meta_def)

definition addMsg_plan :: "json_codec \<Rightarrow> instant \<Rightarrow> disk \<Rightarrow> string \<Rightarrow> Message \<Rightarrow> unit plan" where
  "addMsg_plan js now d key msg =
     (case marshal_msg js msg of
        None \<Rightarrow> ([], Inl MarshalError)
      | Some line \<Rightarrow>
          and_then ([AppendJSONL (sanitizeKey key) (line @ [nl])], Inr ())
            (case readMeta js d key of
               Inl e \<Rightarrow> ([], Inl e)
             | Inr m \<Rightarrow> writeMeta js key (added_meta now m)))"

definition AddFullMessage ::
  "json_codec \<Rightarrow> fault \<Rightarrow> instant \<Rightarrow> disk \<Rightarrow> string \<Rightarrow> Message \<Rightarrow> disk \<times> (store_error + unit)" where
  "AddFullMessage js ft now d key msg = run_plan ft (addMsg_plan js now d key msg) d"

definition AddMessage ::
  "json_codec \<Rightarrow> fault \<Rightarrow> instant \<Rightarrow> disk \<Rightarrow> string \<Rightarrow> string \<Rightarrow> string \<Rightarrow>
   disk \<times> (store_error + unit)" where
  "AddMessage js ft now d key role content =
     AddFullMessage js ft now d key (text_message role content)"

definition GetHistory :: "json_codec \<Rightarrow> disk \<Rightarrow> string \<Rightarrow> store_error + Message list" where
  "GetHistory js d key =
     (case readMeta js d key of
        Inl e \<Rightarrow> Inl e
      | Inr m \<Rightarrow> readMessages js (jsonl d (sanitizeKey key)) (Skip m))"

definition GetSummary :: "json_codec \<Rightarrow> disk \<Rightarrow> string \<Rightarrow> store_error + string" where
  "GetSummary js d key = (case readMeta js d key of Inl e \<Rightarrow> Inl e | Inr m \<Rightarrow> Inr (MetaSummary m))"

definition created_at :: "instant \<Rightarrow> sessionMeta \<Rightarrow> sessionMeta" where
  "created_at now m = m\<lparr>CreatedAt := (if CreatedAt m = None then Some now else CreatedAt m)\<rparr>"

definition meta_plan ::
  "json_codec \<Rightarrow> disk \<Rightarrow> string \<Rightarrow> (sessionMeta \<Rightarrow> sessionMeta) \<Rightarrow> unit plan" where
  "meta_plan js d key f =
     (case readMeta js d key of Inl e \<Rightarrow> ([], Inl e) | Inr m \<Rightarrow> writeMeta js key (f m))"

definition SetSummary ::
  "json_codec \<Rightarrow> fault \<Rightarrow> instant \<Rightarrow> disk \<Rightarrow> string \<Rightarrow> string \<Rightarrow> disk \<times> (store_error + unit)" where
  "SetSummary js ft now d key summary =
     run_plan ft (meta_plan js d key
       (\<lambda>m. (created_at now m)\<lparr>MetaSummary := summary, UpdatedAt := Some now\<rparr>)) d"

definition normalizeDiscoveredTools :: "string list \<Rightarrow> string list" where
  "normalizeDiscoveredTools names =
     sort (dedup [] (filter (\<lambda>n. n \<noteq> []) (map TrimSpace names)))"

definition GetDiscoveredTools :: "json_codec \<Rightarrow> disk \<Rightarrow> string \<Rightarrow> store_error + string list" where
  "GetDiscoveredTools js d key =
     (case readMeta js d key of Inl e \<Rightarrow> Inl e | Inr m \<Rightarrow> Inr (MetaTools m))"

definition SetDiscoveredTools ::
  "json_codec \<Rightarrow> fault \<Rightarrow> instant \<Rightarrow> disk \<Rightarrow> string \<Rightarrow> string list \<Rightarrow> disk \<times> (store_error + unit)" where
  "SetDiscoveredTools js ft now d key names =
     run_plan ft (meta_plan js d key
       (\<lambda>m. (created_at now m)
          \<lparr>MetaTools := normalizeDiscoveredTools names, UpdatedAt := Some now\<rparr>)) d"

definition truncate_plan :: "json_codec \<Rightarrow> instant \<Rightarrow> disk \<Rightarrow> string \<Rightarrow> int \<Rightarrow> unit plan" where
  "truncate_plan js now d key keepLast =
     (case readMeta js d key of
        Inl e \<Rightarrow> ([], Inl e)
      | Inr m \<Rightarrow>
          (case countLines (jsonl d (sanitizeKey key)) of
             Inl e \<Rightarrow> ([], Inl e)
           | Inr n \<Rightarrow>
               writeMeta js key
                 (m\<lparr>Count := n,
                    Skip := (if keepLast \<le> 0 then n
                             else if keepLast < n - Skip m then n - keepLast else Skip m),
                    UpdatedAt := Some now\<rparr>)))"

definition TruncateHistory ::
  "json_codec \<Rightarrow> fault \<Rightarrow> instant \<Rightarrow> disk \<Rightarrow> string \<Rightarrow> int \<Rightarrow> disk \<times> (store_error + unit)" where
  "TruncateHistory js ft now d key keepLast = run_plan ft (truncate_plan js now d key keepLast) d"

fun encode_lines :: "json_codec \<Rightarrow> Message list \<Rightarrow> string option" where
  "encode_lines js [] = Some []"
| "encode_lines js (m # ms) =
     (case marshal_msg js m of
        None \<Rightarrow> None
      | Some line \<Rightarrow> map_option (\<lambda>s. line @ [nl] @ s) (encode_lines js ms))"

definition rewriteJSONL :: "json_codec \<Rightarrow> string \<Rightarrow> Message list \<Rightarrow> unit plan" where
  "rewriteJSONL js key msgs =
     (case encode_lines js msgs of
        None \<Rightarrow> ([], Inl MarshalError)
      | Some s \<Rightarrow> ([ReplaceJSONL (sanitizeKey key) s], Inr ()))"

definition set_history_plan ::
  "json_codec \<Rightarrow> instant \<Rightarrow> disk \<Rightarrow> string \<Rightarrow> Message list \<Rightarrow> unit plan" where
  "set_history_plan js now d key history =
     and_then
       (meta_plan js d key (\<lambda>m. (created_at now m)
          \<lparr>Skip := 0, Count := int (length history), UpdatedAt := Some now\<rparr>))
       (rewriteJSONL js key history)"

definition SetHistory ::
  "json_codec \<Rightarrow> fault \<Rightarrow> instant \<Rightarrow> disk \<Rightarrow> string \<Rightarrow> Message list \<Rightarrow> disk \<times> (store_error + unit)" where
  "SetHistory js ft now d key history = run_plan ft (set_history_plan js now d key history) d"

definition compact_plan :: "json_codec \<Rightarrow> instant \<Rightarrow> disk \<Rightarrow> string \<Rightarrow> unit plan" where
  "compact_plan js now d key =
     (case readMeta js d key of
        Inl e \<Rightarrow> ([], Inl e)
      | Inr m \<Rightarrow>
          if Skip m = 0 then ([], Inr ())
          else
            (case readMessages js (jsonl d (sanitizeKey key)) (Skip m) of
               Inl e \<Rightarrow> ([], Inl e)
             | Inr active \<Rightarrow>
                 and_then
                   (writeMeta js key
                     (m\<lparr>Skip := 0, Count := int (length active), UpdatedAt := Some now\<rparr>))
                   (rewriteJSONL js key active)))"

definition Compact :: "json_codec \<Rightarrow> fault \<Rightarrow> instant \<Rightarrow> disk \<Rightarrow> string \<Rightarrow> disk \<times> (store_error + unit)" where
  "Compact js ft now d key = run_plan ft (compact_plan js now d key) d"

lemmas jsonl_ops [state_defs] = AddFullMessage_def TruncateHistory_def SetHistory_def Compact_def
  SetSummary_def SetDiscoveredTools_def

section \<open>Lines of a file\<close>

definition unlines :: "string list \<Rightarrow> string" where
  "unlines ls = concat (map (\<lambda>l. l @ [nl]) ls)"

lemma unlines_simps [simp]:
  "unlines [] = []" "unlines (l # ls) = l @ nl # unlines ls" "unlines (ls @ ls') = unlines ls @ unlines ls'"
  by (simp_all add: unlines_def)

text \<open>A line that the scanner gives back as it was written.\<close>

definition plain_line :: "string \<Rightarrow> bool" where
  "plain_line l \<longleftrightarrow> l \<noteq> [] \<and> nl \<notin> set l \<and> cr \<notin> set l"

lemma takeWhile_nl: "nl \<notin> set l \<Longrightarrow> takeWhile (\<lambda>x. x \<noteq> nl) (l @ nl # s) = l"
  and dropWhile_nl: "nl \<notin> set l \<Longrightarrow> dropWhile (\<lambda>x. x \<noteq> nl) (l @ nl # s) = nl # s"
  and takeWhile_no_nl: "nl \<notin> set l \<Longrightarrow> takeWhile (\<lambda>x. x \<noteq> nl) l = l"
  and dropWhile_no_nl: "nl \<notin> set l \<Longrightarrow> dropWhile (\<lambda>x. x \<noteq> nl) l = []"
  by (induction l) auto

lemma dropCR_plain: "cr \<notin> set l \<Longrightarrow> dropCR l = l"
  by (metis dropCR_def last_in_set)

lemma scan_nonempty:
  "s \<noteq> [] \<Longrightarrow> scan s =
     (if maxLineSize \<le> int (length (takeWhile (\<lambda>x. x \<noteq> nl) s)) then ([], True)
      else (dropCR (takeWhile (\<lambda>x. x \<noteq> nl) s) # fst (scan (tl (dropWhile (\<lambda>x. x \<noteq> nl) s))),
            snd (scan (tl (dropWhile (\<lambda>x. x \<noteq> nl) s)))))"
  by (cases s) (simp_all add: Let_def split_beta)

lemma scan_line:
  assumes "plain_line l"
  shows "scan (l @ nl # s) =
    (if maxLineSize \<le> int (length l) then ([], True) else (l # fst (scan s), snd (scan s)))"
  using assms
  by (subst scan_nonempty) (simp_all add: plain_line_def takeWhile_nl dropWhile_nl dropCR_plain)

lemma scan_partial:
  assumes "plain_line p"
  shows "scan p = (if maxLineSize \<le> int (length p) then ([], True) else ([p], False))"
  using assms
  by (subst scan_nonempty)
    (simp_all add: plain_line_def takeWhile_no_nl dropWhile_no_nl dropCR_plain)

definition small_lines :: "string list \<Rightarrow> bool" where
  "small_lines ls \<longleftrightarrow> (\<forall>l \<in> set ls. plain_line l \<and> int (length l) < maxLineSize)"

lemma scan_unlines:
  "small_lines ls \<Longrightarrow> scan (unlines ls @ s) = (ls @ fst (scan s), snd (scan s))"
  by (induction ls) (auto simp: small_lines_def scan_line)

lemma nonempty_unlines:
  assumes "small_lines ls"
  shows "nonempty_lines (unlines ls @ s) = ls @ nonempty_lines s"
proof -
  have "filter (\<lambda>l. l \<noteq> []) ls = ls"
    using assms by (auto simp: small_lines_def plain_line_def filter_id_conv)
  then show ?thesis by (simp add: nonempty_lines_def scan_unlines [OF assms])
qed

lemma nonempty_Nil [simp]: "nonempty_lines [] = []"
  by (simp add: nonempty_lines_def)

text \<open>A line that is too long stops every later scan, whatever is appended.\<close>

lemma scan_too_long:
  assumes "small_lines ls" "plain_line l" "maxLineSize \<le> int (length l)"
  shows "snd (scan (unlines ls @ l @ nl # s))"
  using assms by (simp add: scan_unlines scan_line)

section \<open>What is assumed of the JSON package\<close>

definition json_laws :: "json_codec \<Rightarrow> bool" where
  "json_laws js \<longleftrightarrow>
     (\<forall>m l. marshal_msg js m = Some l \<longrightarrow>
        plain_line l \<and> unmarshal_msg js l = Some (stored js m) \<and>
        stored js (stored js m) = stored js m \<and>
        (\<exists>l'. marshal_msg js (stored js m) = Some l' \<and> length l' \<le> length l)) \<and>
     (\<forall>m data. marshal_meta js m = Some data \<longrightarrow> TrimSpace data \<noteq> [] \<and>
        (\<exists>m'. unmarshal_meta js data = Inr m' \<and> Skip m' = Skip m \<and> Count m' = Count m))"

text \<open>No proper prefix of an encoded message is itself an encoding (a JSON object ends with its
  closing brace).\<close>

definition prefix_law :: "json_codec \<Rightarrow> bool" where
  "prefix_law js \<longleftrightarrow> (\<forall>m l k. marshal_msg js m = Some l \<longrightarrow> k < length l \<longrightarrow>
     unmarshal_msg js (take k l) = None)"

definition line :: "json_codec \<Rightarrow> Message \<Rightarrow> string" where
  "line js m = the (marshal_msg js m)"

definition fits :: "json_codec \<Rightarrow> Message \<Rightarrow> bool" where
  "fits js m \<longleftrightarrow> (\<exists>l. marshal_msg js m = Some l \<and> int (length l) < maxLineSize)"

lemma json_msg:
  assumes "json_laws js" "marshal_msg js m = Some l"
  shows "plain_line l" "unmarshal_msg js l = Some (stored js m)"
    "stored js (stored js m) = stored js m"
  using assms by (auto simp: json_laws_def)

lemma fits_line:
  assumes "json_laws js" "fits js m"
  shows "marshal_msg js m = Some (line js m)" "plain_line (line js m)"
    "int (length (line js m)) < maxLineSize" "unmarshal_msg js (line js m) = Some (stored js m)"
    "stored js (stored js m) = stored js m"
  using assms json_msg [OF assms(1)] by (auto simp: fits_def line_def)

lemma fits_stored:
  assumes "json_laws js" "fits js m"
  shows "fits js (stored js m)"
  using assms unfolding fits_def json_laws_def by (metis of_nat_mono order_le_less_trans)

lemma fits_small: "json_laws js \<Longrightarrow> \<forall>m \<in> set ms. fits js m \<Longrightarrow> small_lines (map (line js) ms)"
  by (auto simp: small_lines_def fits_line)

lemma fits_decode:
  "json_laws js \<Longrightarrow> \<forall>m \<in> set ms. fits js m \<Longrightarrow>
   List.map_filter (unmarshal_msg js) (map (line js) ms) = map (stored js) ms"
  by (induction ms) (simp_all add: fits_line List.map_filter_simps)

lemma encode_lines_fits:
  "json_laws js \<Longrightarrow> \<forall>m \<in> set ms. fits js m \<Longrightarrow>
   encode_lines js ms = Some (unlines (map (line js) ms))"
  by (induction ms) (simp_all add: fits_line)

section \<open>The state of a session\<close>

text \<open>The file of \<open>key\<close> holds the messages \<open>ms\<close>, written by the store, and \<open>sk\<close> of them are
  logically truncated.\<close>

definition session_at :: "json_codec \<Rightarrow> disk \<Rightarrow> string \<Rightarrow> Message list \<Rightarrow> nat \<Rightarrow> bool" where
  "session_at js d key ms sk \<longleftrightarrow>
     (jsonl d (sanitizeKey key) = Contents (unlines (map (line js) ms)) \<or>
      jsonl d (sanitizeKey key) = Absent \<and> ms = []) \<and>
     (\<forall>m \<in> set ms. fits js m) \<and> sk \<le> length ms \<and>
     (\<exists>meta. readMeta js d key = Inr meta \<and> Skip meta = int sk)"

lemma map_filter_append:
  "List.map_filter f (xs @ ys) = List.map_filter f xs @ List.map_filter f ys"
  by (induction xs) (simp_all add: List.map_filter_simps split: option.splits)

lemma readMessages_lines:
  assumes laws: "json_laws js" and ms: "\<forall>m \<in> set ms. fits js m" and sk: "sk \<le> length ms"
    and ok: "\<not> snd (scan p)"
  shows "readMessages js (Contents (unlines (map (line js) ms) @ p)) (int sk) =
    Inr (map (stored js) (drop sk ms) @ List.map_filter (unmarshal_msg js) (nonempty_lines p))"
proof -
  have small: "small_lines (map (line js) ms)" by (rule fits_small [OF laws ms])
  have "\<forall>m \<in> set (drop sk ms). fits js m" using ms by (meson in_set_dropD)
  with fits_decode [OF laws] have dec:
    "List.map_filter (unmarshal_msg js) (map (line js) (drop sk ms)) = map (stored js) (drop sk ms)"
    by blast
  have "\<not> snd (scan (unlines (map (line js) ms) @ p))"
    using ok by (simp add: scan_unlines [OF small])
  moreover have "drop sk (nonempty_lines (unlines (map (line js) ms) @ p)) =
      map (line js) (drop sk ms) @ nonempty_lines p"
    using sk by (simp add: nonempty_unlines [OF small] drop_map)
  ultimately show ?thesis
    using dec by (simp add: readMessages_def map_filter_append)
qed

lemma session_history:
  assumes "json_laws js" "session_at js d key ms sk"
  shows "GetHistory js d key = Inr (map (stored js) (drop sk ms))"
proof -
  from assms(2) obtain meta where meta: "readMeta js d key = Inr meta" "Skip meta = int sk"
    and ms: "\<forall>m \<in> set ms. fits js m" "sk \<le> length ms"
    and f: "jsonl d (sanitizeKey key) = Contents (unlines (map (line js) ms)) \<or>
      jsonl d (sanitizeKey key) = Absent \<and> ms = []"
    by (auto simp: session_at_def)
  from f show ?thesis
    using readMessages_lines [OF assms(1) ms, of "[]"] meta
    by (auto simp: GetHistory_def readMessages_def List.map_filter_simps)
qed

lemma readMeta_cong:
  "metaf d' (sanitizeKey key) = metaf d (sanitizeKey key) \<Longrightarrow> readMeta js d' key = readMeta js d key"
  by (simp add: readMeta_def)

lemma readMeta_written:
  assumes "json_laws js" "marshal_meta js m = Some data" "metaf d (sanitizeKey key) = Contents data"
  shows "\<exists>m'. readMeta js d key = Inr m' \<and> Skip m' = Skip m"
proof -
  from assms(1,2) obtain m' where "TrimSpace data \<noteq> []" "unmarshal_meta js data = Inr m'"
    "Skip m' = Skip m" unfolding json_laws_def by blast
  with assms(3) show ?thesis by (auto simp: readMeta_def)
qed

section \<open>One operation at a time\<close>

lemma run_one [simp]:
  "run_plan None ([op], r) d =
     (case apply_op op d of None \<Rightarrow> (d, Inl IOError) | Some d' \<Rightarrow> (d', r))"
  "run_plan ft ([], r) d = (d, r)"
  by (simp_all add: run_plan_def split: option.splits)

lemma run_two [simp]:
  "run_plan None (op # op' # ops, r) d =
     (case apply_op op d of None \<Rightarrow> (d, Inl IOError) | Some d' \<Rightarrow> run_plan None (op' # ops, r) d')"
  by (simp add: run_plan_def split: option.splits prod.splits)

text \<open>An append that the store acknowledges.\<close>

lemma session_add:
  assumes laws: "json_laws js" and at: "session_at js d key ms sk" and m: "fits js m"
    and step: "AddFullMessage js None now d key m = (d', Inr ())"
  shows "session_at js d' key (ms @ [m]) sk"
proof -
  let ?f = "sanitizeKey key"
  from at obtain meta where meta: "readMeta js d key = Inr meta" "Skip meta = int sk"
    and f: "jsonl d ?f = Contents (unlines (map (line js) ms)) \<or> jsonl d ?f = Absent \<and> ms = []"
    by (auto simp: session_at_def)
  then have bytes: "bytes_of (jsonl d ?f) = unlines (map (line js) ms)" and rd: "jsonl d ?f \<noteq> Unreadable"
    by auto
  from step meta rd fits_line(1) [OF laws m] obtain data where data: "marshal_meta js (added_meta now meta) = Some data"
    and d': "d' = d\<lparr>jsonl := (jsonl d)(?f := Contents (unlines (map (line js) ms) @ line js m @ [nl])),
      metaf := (metaf d)(?f := Contents data)\<rparr>"
    by (auto simp: AddFullMessage_def addMsg_plan_def and_then_def writeMeta_def bytes
        split: option.splits)
  from readMeta_written [OF laws data, of d' key] meta d'
  have "\<exists>m'. readMeta js d' key = Inr m' \<and> Skip m' = int sk" by simp
  with at m d' show ?thesis by (auto simp: session_at_def)
qed

lemma session_meta_only:
  assumes laws: "json_laws js" and at: "session_at js d key ms sk"
    and step: "run_plan None (writeMeta js key meta) d = (d', Inr ())"
    and sk': "Skip meta = int sk'" "sk' \<le> length ms"
  shows "session_at js d' key ms sk'"
proof -
  from step obtain data where data: "marshal_meta js meta = Some data"
    and d': "d' = d\<lparr>metaf := (metaf d)(sanitizeKey key := Contents data)\<rparr>"
    by (auto simp: writeMeta_def split: option.splits)
  from readMeta_written [OF laws data, of d' key] sk' d'
  have "\<exists>m'. readMeta js d' key = Inr m' \<and> Skip m' = int sk'" by simp
  with at sk' d' show ?thesis by (auto simp: session_at_def)
qed

lemma session_count:
  assumes laws: "json_laws js" and at: "session_at js d key ms sk"
  shows "countLines (jsonl d (sanitizeKey key)) = Inr (int (length ms))"
proof -
  have small: "small_lines (map (line js) ms)"
    using at by (intro fits_small [OF laws]) (simp add: session_at_def)
  from at show ?thesis
    using scan_unlines [OF small, of "[]"] nonempty_unlines [OF small, of "[]"]
    by (auto simp: session_at_def countLines_def)
qed

definition keep_last :: "int \<Rightarrow> 'a list \<Rightarrow> 'a list" where
  "keep_last n xs = (if n \<le> 0 then [] else drop (length xs - nat n) xs)"

lemma keep_last_map: "keep_last n (map f xs) = map f (keep_last n xs)"
  by (simp add: keep_last_def drop_map)

lemma session_truncate:
  assumes laws: "json_laws js" and at: "session_at js d key ms sk"
    and step: "TruncateHistory js None now d key n = (d', Inr ())"
  shows "\<exists>sk'. session_at js d' key ms sk' \<and> drop sk' ms = keep_last n (drop sk ms)"
proof -
  from at obtain meta where meta: "readMeta js d key = Inr meta" "Skip meta = int sk"
    and sk: "sk \<le> length ms" by (auto simp: session_at_def)
  define sk' where "sk' = (if n \<le> 0 then length ms
    else if n < int (length ms) - int sk then length ms - nat n else sk)"
  have le: "sk' \<le> length ms" using sk by (auto simp: sk'_def)
  have "int sk' = (if n \<le> 0 then int (length ms)
    else if n < int (length ms) - int sk then int (length ms) - n else int sk)"
    by (auto simp: sk'_def)
  with step meta session_count [OF laws at] session_meta_only [OF laws at _ _ le]
  have "session_at js d' key ms sk'"
    by (simp add: TruncateHistory_def truncate_plan_def)
  moreover have "drop sk' ms = keep_last n (drop sk ms)"
    using sk by (auto simp: sk'_def keep_last_def)
  ultimately show ?thesis by blast
qed

lemma session_rewrite:
  assumes laws: "json_laws js" and ms: "\<forall>m \<in> set ms. fits js m" and meta: "Skip meta = 0"
    and step: "run_plan None (and_then (writeMeta js key meta) (rewriteJSONL js key ms)) d = (d', Inr ())"
  shows "session_at js d' key ms 0"
proof -
  from step encode_lines_fits [OF laws ms] obtain data where data: "marshal_meta js meta = Some data"
    and d': "d' = d\<lparr>metaf := (metaf d)(sanitizeKey key := Contents data),
      jsonl := (jsonl d)(sanitizeKey key := Contents (unlines (map (line js) ms)))\<rparr>"
    by (auto simp: and_then_def writeMeta_def rewriteJSONL_def split: option.splits)
  from readMeta_written [OF laws data, of d' key] meta d'
  have "\<exists>m'. readMeta js d' key = Inr m' \<and> Skip m' = 0" by simp
  with ms d' show ?thesis by (simp add: session_at_def)
qed

lemma session_set_history:
  assumes laws: "json_laws js" and ms: "\<forall>m \<in> set ms. fits js m"
    and step: "SetHistory js None now d key ms = (d', Inr ())"
  shows "session_at js d' key ms 0"
proof (cases "readMeta js d key")
  case (Inl e)
  with step show ?thesis by (simp add: SetHistory_def set_history_plan_def meta_plan_def and_then_def)
next
  case (Inr meta)
  show ?thesis
    by (rule session_rewrite [OF laws ms, where meta = "(created_at now meta)
        \<lparr>Skip := 0, Count := int (length ms), UpdatedAt := Some now\<rparr>"])
      (use Inr step in \<open>simp_all add: SetHistory_def set_history_plan_def meta_plan_def\<close>)
qed

lemma session_compact:
  assumes laws: "json_laws js" and at: "session_at js d key ms sk"
    and step: "Compact js None now d key = (d', Inr ())"
  shows "\<exists>ms' sk'. session_at js d' key ms' sk' \<and>
    map (stored js) (drop sk' ms') = map (stored js) (drop sk ms)"
proof (cases "sk = 0")
  case True
  from at True obtain meta where "readMeta js d key = Inr meta" "Skip meta = 0"
    by (auto simp: session_at_def)
  with step have "d' = d" by (simp add: Compact_def compact_plan_def)
  with at show ?thesis by blast
next
  case False
  from at obtain meta where meta: "readMeta js d key = Inr meta" "Skip meta = int sk"
    and fit: "\<forall>m \<in> set ms. fits js m"
    by (auto simp: session_at_def)
  let ?active = "map (stored js) (drop sk ms)"
  from session_history [OF laws at] meta
  have active: "readMessages js (jsonl d (sanitizeKey key)) (int sk) = Inr ?active"
    by (simp add: GetHistory_def)
  have fit': "\<forall>m \<in> set ?active. fits js m"
    using fit by (auto dest: in_set_dropD intro: fits_stored [OF laws])
  have "session_at js d' key ?active 0"
    by (rule session_rewrite [OF laws fit', where meta = "meta
        \<lparr>Skip := 0, Count := int (length ?active), UpdatedAt := Some now\<rparr>"])
      (use step meta active False in \<open>simp_all add: Compact_def compact_plan_def\<close>)
  moreover have "map (stored js) ?active = ?active"
    using fit by (auto dest: in_set_dropD simp: fits_line [OF laws])
  ultimately show ?thesis by (intro exI [of _ ?active] exI [of _ 0]) simp
qed

end
