(* ===== verification/JSONLFaults.thy ===== *)
theory JSONLFaults
  imports JSONL SessionKey
begin

text \<open>
  What the session store of \<open>pkg/memory/jsonl.go\<close> keeps under faults: torn appends, a stop between
  the two files of a rewrite, messages that are too long for the reader, and keys that share a
  file. \<open>demo_codec\<close> is a small codec for plain text messages that satisfies the assumed laws.
\<close>

section \<open>A concrete codec\<close>

definition clean_text :: "string \<Rightarrow> bool" where
  "clean_text s \<longleftrightarrow> list_all (\<lambda>c. c \<noteq> nl \<and> c \<noteq> cr \<and> c \<noteq> CHR ''{'' \<and> c \<noteq> CHR ''}'' \<and> c \<noteq> CHR ''|'') s"

definition demo_marshal :: "Message \<Rightarrow> string option" where
  "demo_marshal m =
     (if m = text_message (Role m) (Content m) \<and> clean_text (Role m) \<and> clean_text (Content m)
      then Some (CHR ''{'' # Role m @ CHR ''|'' # Content m @ [CHR ''}'']) else None)"

definition demo_unmarshal :: "string \<Rightarrow> Message option" where
  "demo_unmarshal l =
     (case l of
        [] \<Rightarrow> None
      | c # r \<Rightarrow>
          if r = [] \<or> last r \<noteq> CHR ''}'' then None
          else
            (let role = takeWhile (\<lambda>x. x \<noteq> CHR ''|'') (butlast r);
                 rest = dropWhile (\<lambda>x. x \<noteq> CHR ''|'') (butlast r)
             in if rest \<noteq> [] \<and> clean_text role \<and> clean_text (tl rest)
                then Some (text_message role (tl rest)) else None))"

definition demo_codec :: json_codec where
  "demo_codec =
     \<lparr>marshal_msg = demo_marshal, unmarshal_msg = demo_unmarshal, stored = (\<lambda>m. m),
      marshal_meta = (\<lambda>m. if 0 \<le> Skip m \<and> 0 \<le> Count m
        then Some (replicate (nat (Skip m)) CHR ''s'' @ replicate (Suc (nat (Count m))) CHR ''c'')
        else None),
      unmarshal_meta = (\<lambda>s. Inr ((zeroMeta [])
        \<lparr>Skip := int (length (takeWhile (\<lambda>c. c = CHR ''s'') s)),
         Count := int (length (dropWhile (\<lambda>c. c = CHR ''s'') s)) - 1\<rparr>))\<rparr>"

lemma clean_text_simps [simp]:
  "clean_text []"
  "clean_text (c # s) \<longleftrightarrow> c \<noteq> nl \<and> c \<noteq> cr \<and> c \<noteq> CHR ''{'' \<and> c \<noteq> CHR ''}'' \<and> c \<noteq> CHR ''|'' \<and> clean_text s"
  by (simp_all add: clean_text_def)

lemma clean_text_notin:
  "clean_text s \<Longrightarrow> nl \<notin> set s \<and> cr \<notin> set s \<and> CHR ''}'' \<notin> set s \<and> CHR ''|'' \<notin> set s"
  by (auto simp: clean_text_def list_all_iff)

lemma takeWhile_bar: "CHR ''|'' \<notin> set s \<Longrightarrow>
    takeWhile (\<lambda>x. x \<noteq> CHR ''|'') (s @ CHR ''|'' # t) = s"
  and dropWhile_bar: "CHR ''|'' \<notin> set s \<Longrightarrow>
    dropWhile (\<lambda>x. x \<noteq> CHR ''|'') (s @ CHR ''|'' # t) = CHR ''|'' # t"
  by (induction s) auto

lemma demo_marshal_some:
  assumes "demo_marshal m = Some l"
  obtains r c where "m = text_message r c" "clean_text r" "clean_text c"
    "l = CHR ''{'' # r @ CHR ''|'' # c @ [CHR ''}'']"
  using assms by (auto simp: demo_marshal_def split: if_splits)

lemma demo_marshal_text:
  "clean_text r \<Longrightarrow> clean_text c \<Longrightarrow>
   demo_marshal (text_message r c) = Some (CHR ''{'' # r @ CHR ''|'' # c @ [CHR ''}''])"
  by (simp add: demo_marshal_def text_message_def)

lemma demo_unmarshal_text:
  "clean_text r \<Longrightarrow> clean_text c \<Longrightarrow>
   demo_unmarshal (CHR ''{'' # r @ CHR ''|'' # c @ [CHR ''}'']) = Some (text_message r c)"
  by (simp add: demo_unmarshal_def butlast_append takeWhile_bar dropWhile_bar clean_text_notin)

lemma demo_meta:
  "takeWhile (\<lambda>c. c = CHR ''s'') (replicate n CHR ''s'' @ replicate (Suc k) CHR ''c'') =
     replicate n CHR ''s''"
  "dropWhile (\<lambda>c. c = CHR ''s'') (replicate n CHR ''s'' @ replicate (Suc k) CHR ''c'') =
     replicate (Suc k) CHR ''c''"
  by (induction n) simp_all

lemma demo_meta_nonblank: "TrimSpace (replicate n CHR ''s'' @ replicate (Suc k) CHR ''c'') \<noteq> []"
proof -
  have "\<not> is_space (hd (replicate n CHR ''s'' @ replicate (Suc k) CHR ''c''))"
    by (cases n) (simp_all add: is_space_def)
  moreover have "\<not> is_space (last (replicate n CHR ''s'' @ replicate (Suc k) CHR ''c''))"
    by (simp add: is_space_def del: replicate_Suc)
  ultimately have "trimmed (replicate n CHR ''s'' @ replicate (Suc k) CHR ''c'')"
    by (simp add: trimmed_def)
  then show ?thesis by (simp add: TrimSpace_trimmed)
qed

lemma demo_laws: "json_laws demo_codec"
  unfolding json_laws_def
proof (intro conjI allI impI)
  fix m l assume "marshal_msg demo_codec m = Some l"
  then have "demo_marshal m = Some l" by (simp add: demo_codec_def)
  then obtain r c where m: "m = text_message r c" "clean_text r" "clean_text c"
    and l: "l = CHR ''{'' # r @ CHR ''|'' # c @ [CHR ''}'']" by (rule demo_marshal_some)
  show "plain_line l" using clean_text_notin m l by (auto simp: plain_line_def)
  show "unmarshal_msg demo_codec l = Some (stored demo_codec m)"
    using m l by (simp add: demo_codec_def demo_unmarshal_text)
  show "stored demo_codec (stored demo_codec m) = stored demo_codec m"
    by (simp add: demo_codec_def)
  show "\<exists>l'. marshal_msg demo_codec (stored demo_codec m) = Some l' \<and> length l' \<le> length l"
    using m l by (simp add: demo_codec_def demo_marshal_text)
next
  fix m data assume "marshal_meta demo_codec m = Some data"
  then have m: "0 \<le> Skip m" "0 \<le> Count m"
    and d: "data = replicate (nat (Skip m)) CHR ''s'' @ replicate (Suc (nat (Count m))) CHR ''c''"
    by (auto simp: demo_codec_def split: if_splits)
  show "TrimSpace data \<noteq> []" unfolding d by (rule demo_meta_nonblank)
  show "\<exists>m'. unmarshal_meta demo_codec data = Inr m' \<and> Skip m' = Skip m \<and> Count m' = Count m"
    using m unfolding d by (simp add: demo_codec_def demo_meta del: replicate_Suc)
qed

lemma demo_prefix: "prefix_law demo_codec"
  unfolding prefix_law_def
proof (intro allI impI)
  fix m l and k :: nat assume "marshal_msg demo_codec m = Some l" and k: "k < length l"
  then have "demo_marshal m = Some l" by (simp add: demo_codec_def)
  then obtain r c where m: "clean_text r" "clean_text c"
    and l: "l = CHR ''{'' # r @ CHR ''|'' # c @ [CHR ''}'']" by (rule demo_marshal_some)
  let ?b = "CHR ''{'' # r @ CHR ''|'' # c"
  have "l = ?b @ [CHR ''}'']" "k \<le> length ?b" using k l by simp_all
  then have "take k l = take k ?b" by (simp only: take_append) simp
  moreover have "CHR ''}'' \<notin> set (take k ?b)"
    using m clean_text_notin by (auto dest!: in_set_takeD)
  ultimately have no: "CHR ''}'' \<notin> set (take k l)" by simp
  show "unmarshal_msg demo_codec (take k l) = None"
  proof (cases "take k l")
    case (Cons x t)
    with no have "t = [] \<or> last t \<noteq> CHR ''}''" by (metis last_in_set list.set_intros(2))
    with Cons show ?thesis by (simp add: demo_codec_def demo_unmarshal_def)
  next
    case Nil
    then show ?thesis by (simp only:) (simp add: demo_codec_def demo_unmarshal_def)
  qed
qed

definition empty_disk :: disk where
  "empty_disk = \<lparr>jsonl = (\<lambda>_. Absent), metaf = (\<lambda>_. Absent)\<rparr>"

lemma session_empty: "session_at js empty_disk key [] 0"
  by (simp add: session_at_def empty_disk_def readMeta_def zeroMeta_def)

section \<open>Torn appends\<close>

lemma history_after_bytes:
  assumes laws: "json_laws js" and at: "session_at js d key ms sk"
    and f: "jsonl d' (sanitizeKey key) = Contents (unlines (map (line js) ms) @ p)"
    and meta: "\<exists>m. readMeta js d' key = Inr m \<and> Skip m = int sk"
    and ok: "\<not> snd (scan p)"
  shows "GetHistory js d' key =
    Inr (map (stored js) (drop sk ms) @ List.map_filter (unmarshal_msg js) (nonempty_lines p))"
  using at f meta readMessages_lines [OF laws _ _ ok, of ms sk]
  by (auto simp: session_at_def GetHistory_def)

lemma scan_take_line:
  assumes "plain_line l" "int (length l) < maxLineSize"
  shows "\<not> snd (scan (take k (l @ [nl])))"
    and "nonempty_lines (take k (l @ [nl])) = (if k = 0 then [] else [take k l])"
proof -
  have "scan (take k (l @ [nl])) = (if k = 0 then [] else [take k l], False)"
  proof (cases "k \<le> length l")
    case True
    have "plain_line (take k l)" if "k \<noteq> 0"
      using that assms(1) by (auto simp: plain_line_def dest!: in_set_takeD)
    with True assms(2) show ?thesis by (auto simp: scan_partial)
  next
    case False
    with assms scan_line [OF assms(1), of "[]"] show ?thesis by auto
  qed
  moreover have "take k l \<noteq> []" if "k \<noteq> 0" using that assms(1) by (auto simp: plain_line_def)
  ultimately show "\<not> snd (scan (take k (l @ [nl])))"
    "nonempty_lines (take k (l @ [nl])) = (if k = 0 then [] else [take k l])"
    by (auto simp: nonempty_lines_def)
qed

lemma fault_cases:
  obtains (never) "ft = None" | (first) k where "ft = Some (0, k)"
  | (second) k where "ft = Some (Suc 0, k)" | (late) n k where "ft = Some (Suc (Suc n), k)"
proof (cases ft)
  case (Some x)
  obtain n k where "x = (n, k)" by (cases x)
  with Some that show ?thesis by (cases n; cases "n - 1") auto
qed (use that in auto)

text \<open>The disks that an append can leave: some bytes of the line and the old metadata, or the whole
  line and the new metadata.\<close>

lemma add_outcomes:
  assumes laws: "json_laws js" and at: "session_at js d key ms sk" and m: "fits js m"
    and step: "AddFullMessage js ft now d key m = (d', r)"
  shows "(r = Inr () \<and> session_at js d' key (ms @ [m]) sk) \<or>
    ((\<exists>k. jsonl d' (sanitizeKey key) =
        Contents (unlines (map (line js) ms) @ take k (line js m @ [nl])) \<and>
        metaf d' = metaf d) \<and> r \<noteq> Inr ())"
proof -
  let ?f = "sanitizeKey key"
  from at obtain meta where meta: "readMeta js d key = Inr meta"
    and f: "jsonl d ?f = Contents (unlines (map (line js) ms)) \<or> jsonl d ?f = Absent \<and> ms = []"
    by (auto simp: session_at_def)
  then have bytes: "bytes_of (jsonl d ?f) = unlines (map (line js) ms)" and rd: "jsonl d ?f \<noteq> Unreadable"
    by auto
  show ?thesis
  proof (cases "r = Inr ()")
    case True
    have "AddFullMessage js None now d key m = (d', Inr ())"
      using step True meta rd fits_line(1) [OF laws m]
      by (cases ft rule: fault_cases)
        (auto simp: AddFullMessage_def addMsg_plan_def and_then_def writeMeta_def run_plan_def
          split: option.splits)
    with session_add [OF laws at m] True show ?thesis by blast
  next
    case False
    have "\<exists>k. jsonl d' ?f = Contents (unlines (map (line js) ms) @ take k (line js m @ [nl])) \<and>
        metaf d' = metaf d"
      using step False meta rd fits_line(1) [OF laws m]
      by (cases ft rule: fault_cases)
        (auto simp: AddFullMessage_def addMsg_plan_def and_then_def writeMeta_def run_plan_def bytes
          split: option.splits intro: exI [of _ "Suc (length (line js m))"])
    with False show ?thesis by blast
  qed
qed

section \<open>Appends are atomic, but a torn one swallows its successor\<close>

lemma history_added:
  assumes laws: "json_laws js" and pre: "prefix_law js"
    and at: "session_at js d key ms sk" and m: "fits js m"
    and step: "AddFullMessage js ft now d key m = (d', r)"
  shows "(r = Inr () \<longrightarrow> GetHistory js d' key = Inr (map (stored js) (drop sk ms) @ [stored js m])) \<and>
    (r \<noteq> Inr () \<longrightarrow> GetHistory js d' key \<in>
       {Inr (map (stored js) (drop sk ms)), Inr (map (stored js) (drop sk ms) @ [stored js m])})"
proof (cases "r = Inr ()")
  case True
  with add_outcomes [OF laws at m step] have "session_at js d' key (ms @ [m]) sk" by blast
  with session_history [OF laws this] at True show ?thesis by (simp add: session_at_def)
next
  case False
  with add_outcomes [OF laws at m step] obtain k where
    f: "jsonl d' (sanitizeKey key) = Contents (unlines (map (line js) ms) @ take k (line js m @ [nl]))"
    and meta: "metaf d' = metaf d" by blast
  note l = fits_line [OF laws m]
  from at meta have "\<exists>meta. readMeta js d' key = Inr meta \<and> Skip meta = int sk"
    by (simp add: session_at_def readMeta_def)
  from history_after_bytes [OF laws at f this scan_take_line(1) [OF l(2,3)]]
  have h: "GetHistory js d' key = Inr (map (stored js) (drop sk ms) @
      List.map_filter (unmarshal_msg js) (if k = 0 then [] else [take k (line js m)]))"
    by (simp only: scan_take_line(2) [OF l(2,3)])
  have "unmarshal_msg js (take k (line js m)) = None" if "k < length (line js m)"
    using pre l(1) that unfolding prefix_law_def by blast
  with h l(4) False show ?thesis
    by (cases "k < length (line js m)") (auto simp: List.map_filter_simps)
qed

text \<open>Appends are atomic: wherever the writing of a message fails or the process stops, the history
  afterwards is the old one or the old one with the new message, and it is the latter when the store
  acknowledged the message. A torn last line is never read back.\<close>

theorem add_message_atomic:
  assumes "json_laws js" and "prefix_law js" and "session_at js d key ms sk" and "fits js m"
    and "AddFullMessage js ft now d key m = (d', r)"
  shows "(r = Inr () \<longrightarrow> GetHistory js d' key = Inr (map (stored js) (drop sk ms) @ [stored js m])) \<and>
    (r \<noteq> Inr () \<longrightarrow> GetHistory js d' key \<in>
       {Inr (map (stored js) (drop sk ms)), Inr (map (stored js) (drop sk ms) @ [stored js m])})"
  by (rule history_added [OF assms])

text \<open>A torn append swallows the next message: when the process stopped after some bytes of a line,
  the next message is appended to those bytes, so the store acknowledges it and no history ever
  shows it (unless the merged line happens to be a message).\<close>

theorem torn_append_loses_next:
  assumes laws: "json_laws js" and pre: "prefix_law js"
    and at: "session_at js d key ms sk" and m: "fits js m" "fits js m'"
    and torn: "AddFullMessage js (Some (0, k)) now d key m = (d1, r)" "0 < k" "k < length (line js m)"
    and short: "int (k + length (line js m')) < maxLineSize"
    and merged: "unmarshal_msg js (take k (line js m) @ line js m') = None"
    and ack: "AddFullMessage js None now' d1 key m' = (d2, Inr ())"
  shows "GetHistory js d2 key = Inr (map (stored js) (drop sk ms))"
proof -
  let ?f = "sanitizeKey key"
  let ?p = "take k (line js m) @ line js m'"
  note l = fits_line [OF laws m(1)] and l' = fits_line [OF laws m(2)]
  from at obtain meta where meta: "readMeta js d key = Inr meta" "Skip meta = int sk"
    and f: "jsonl d ?f = Contents (unlines (map (line js) ms)) \<or> jsonl d ?f = Absent \<and> ms = []"
    by (auto simp: session_at_def)
  then have bytes: "bytes_of (jsonl d ?f) = unlines (map (line js) ms)" "jsonl d ?f \<noteq> Unreadable"
    by auto
  have d1: "d1 = d\<lparr>jsonl := (jsonl d)
      (?f := Contents (unlines (map (line js) ms) @ take k (line js m)))\<rparr>"
    using torn meta bytes l(1)
    by (simp add: AddFullMessage_def addMsg_plan_def and_then_def run_plan_def)
  then have meta1: "readMeta js d1 key = Inr meta"
    using meta by (simp add: readMeta_def)
  from ack meta1 l'(1) d1 obtain data where data: "marshal_meta js (added_meta now' meta) = Some data"
    and d2: "d2 = d1\<lparr>jsonl := (jsonl d1)(?f := Contents (unlines (map (line js) ms) @ ?p @ [nl])),
      metaf := (metaf d1)(?f := Contents data)\<rparr>"
    by (auto simp: AddFullMessage_def addMsg_plan_def and_then_def writeMeta_def split: option.splits)
  from readMeta_written [OF laws data, of d2 key] meta(2) d2
  have meta2: "\<exists>m. readMeta js d2 key = Inr m \<and> Skip m = int sk" by simp
  have plain: "plain_line ?p"
    using l(2) l'(2) by (auto simp: plain_line_def dest!: in_set_takeD)
  have "length ?p = k + length (line js m')" using torn(3) by simp
  with short have "int (length ?p) < maxLineSize" by simp
  then have sc: "scan (?p @ [nl]) = ([?p], False)"
    using scan_line [OF plain, of "[]"] by (simp del: append_assoc)
  then have "\<not> snd (scan (?p @ [nl]))" "nonempty_lines (?p @ [nl]) = [?p]"
    using plain by (simp_all add: nonempty_lines_def plain_line_def del: append_assoc)
  with history_after_bytes [OF laws at _ meta2, of "?p @ [nl]"] d2 merged show ?thesis
    by (simp add: List.map_filter_simps)
qed

text \<open>A message of the demonstration, and what the store does with it.\<close>

definition demo_msg :: "string \<Rightarrow> Message" where
  "demo_msg s = text_message ''user'' s"

lemma demo_marshal_msg [simp]: "marshal_msg demo_codec = demo_marshal"
    "unmarshal_msg demo_codec = demo_unmarshal" "stored demo_codec m = m"
  by (simp_all add: demo_codec_def)

lemma demo_line: "clean_text s \<Longrightarrow> line demo_codec (demo_msg s) = CHR ''{'' # ''user'' @ CHR ''|'' # s @ [CHR ''}'']"
  by (simp add: line_def demo_msg_def demo_marshal_text)

lemma demo_marshal_demo_msg: "clean_text s \<Longrightarrow>
    demo_marshal (demo_msg s) = Some (CHR ''{'' # ''user'' @ CHR ''|'' # s @ [CHR ''}''])"
  by (simp add: demo_msg_def demo_marshal_text)

lemma demo_fits: "clean_text s \<Longrightarrow> length s < 1000 \<Longrightarrow> fits demo_codec (demo_msg s)"
  by (simp add: fits_def demo_marshal_demo_msg maxLineSize_def)

text \<open>An addition to a session with this codec is acknowledged.\<close>

lemma demo_add_acked:
  assumes at: "\<exists>meta. readMeta demo_codec d key = Inr meta \<and> 0 \<le> Skip meta \<and> 0 \<le> Count meta"
    and m: "demo_marshal m = Some l" and rd: "jsonl d (sanitizeKey key) \<noteq> Unreadable"
  shows "\<exists>d'. AddFullMessage demo_codec None now d key m = (d', Inr ()) \<and>
    (\<exists>meta. readMeta demo_codec d' key = Inr meta \<and> 0 \<le> Skip meta \<and> 0 \<le> Count meta) \<and>
    jsonl d' (sanitizeKey key) \<noteq> Unreadable"
proof -
  from at obtain meta where meta: "readMeta demo_codec d key = Inr meta" "0 \<le> Skip meta" "0 \<le> Count meta"
    by blast
  then obtain data where data: "marshal_meta demo_codec (added_meta now meta) = Some data"
    by (simp add: demo_codec_def added_meta_def)
  let ?d = "d\<lparr>jsonl := (jsonl d)(sanitizeKey key := Contents (bytes_of (jsonl d (sanitizeKey key)) @ l @ [nl])),
    metaf := (metaf d)(sanitizeKey key := Contents data)\<rparr>"
  have "AddFullMessage demo_codec None now d key m = (?d, Inr ())"
    using meta data m rd
    by (simp add: AddFullMessage_def addMsg_plan_def and_then_def writeMeta_def)
  moreover from demo_laws data obtain m' where "TrimSpace data \<noteq> []"
    "unmarshal_meta demo_codec data = Inr m'" "Skip m' = Skip meta" "Count m' = Count meta + 1"
    unfolding json_laws_def by (metis Skip_added_meta Count_added_meta)
  then have "\<exists>meta. readMeta demo_codec ?d key = Inr meta \<and> 0 \<le> Skip meta \<and> 0 \<le> Count meta"
    using meta by (auto simp: readMeta_def)
  ultimately show ?thesis by auto
qed

lemma demo_empty_meta:
  "\<exists>meta. readMeta demo_codec empty_disk key = Inr meta \<and> 0 \<le> Skip meta \<and> 0 \<le> Count meta"
  "jsonl empty_disk f \<noteq> Unreadable"
  by (simp_all add: empty_disk_def readMeta_def zeroMeta_def)

theorem add_message_atomic_witness:
  "\<exists>d'. AddFullMessage demo_codec None 0 empty_disk ''k'' (demo_msg ''hi'') = (d', Inr ()) \<and>
     GetHistory demo_codec d' ''k'' = Inr [demo_msg ''hi'']"
proof -
  obtain d' where step: "AddFullMessage demo_codec None 0 empty_disk ''k'' (demo_msg ''hi'') = (d', Inr ())"
    using demo_add_acked [OF demo_empty_meta(1) _ demo_empty_meta(2)] demo_marshal_demo_msg [of "''hi''"]
    by fastforce
  from add_message_atomic [OF demo_laws demo_prefix session_empty demo_fits step] step
  show ?thesis by simp
qed

text \<open>The demonstration codec, once a message is torn after three bytes.\<close>

lemma demo_unmarshal_merged: "demo_unmarshal (take 3 (CHR ''{'' # ''user'' @ CHR ''|'' # ''a'' @ [CHR ''}'']) @
    CHR ''{'' # ''user'' @ CHR ''|'' # ''b'' @ [CHR ''}'']) = None"
  by code_simp

theorem torn_append_loses_next_witness:
  "\<exists>d1 r d2. AddFullMessage demo_codec (Some (0, 3)) 0 empty_disk ''k'' (demo_msg ''a'') = (d1, r) \<and>
     AddFullMessage demo_codec None 0 d1 ''k'' (demo_msg ''b'') = (d2, Inr ()) \<and>
     GetHistory demo_codec d2 ''k'' = Inr []"
proof -
  have fit: "fits demo_codec (demo_msg ''a'')" "fits demo_codec (demo_msg ''b'')"
    by (simp_all add: demo_fits)
  have la: "line demo_codec (demo_msg ''a'') = CHR ''{'' # ''user'' @ CHR ''|'' # ''a'' @ [CHR ''}'']"
    and lb: "line demo_codec (demo_msg ''b'') = CHR ''{'' # ''user'' @ CHR ''|'' # ''b'' @ [CHR ''}'']"
    by (simp_all add: demo_line)
  let ?d1 = "torn 3 (AppendJSONL (sanitizeKey ''k'') (line demo_codec (demo_msg ''a'') @ [nl])) empty_disk"
  have torn: "\<exists>r. AddFullMessage demo_codec (Some (0, 3)) 0 empty_disk ''k'' (demo_msg ''a'') = (?d1, r)"
    using demo_empty_meta(1) [of "''k''"] fits_line(1) [OF demo_laws fit(1)]
    by (auto simp: AddFullMessage_def addMsg_plan_def and_then_def run_plan_def split: option.splits)
  then obtain r where torn: "AddFullMessage demo_codec (Some (0, 3)) 0 empty_disk ''k'' (demo_msg ''a'')
      = (?d1, r)" by blast
  have "readMeta demo_codec ?d1 ''k'' = readMeta demo_codec empty_disk ''k''"
    by (simp add: empty_disk_def readMeta_def)
  with demo_empty_meta(1) have "\<exists>meta. readMeta demo_codec ?d1 ''k'' = Inr meta \<and> 0 \<le> Skip meta \<and> 0 \<le> Count meta"
    by simp
  moreover have "jsonl ?d1 (sanitizeKey ''k'') \<noteq> Unreadable" by (simp add: empty_disk_def)
  moreover have "clean_text ''b''" by simp
  ultimately obtain d2 where ack: "AddFullMessage demo_codec None 0 ?d1 ''k'' (demo_msg ''b'') = (d2, Inr ())"
    using demo_add_acked demo_marshal_demo_msg by blast
  have "GetHistory demo_codec d2 ''k'' = Inr (map (stored demo_codec) (drop 0 []))"
  proof (rule torn_append_loses_next [OF demo_laws demo_prefix session_empty fit torn _ _ _ _ ack])
    show "unmarshal_msg demo_codec (take 3 (line demo_codec (demo_msg ''a'')) @
        line demo_codec (demo_msg ''b'')) = None"
      by (simp only: la lb demo_marshal_msg demo_unmarshal_merged)
  qed (simp_all add: la lb maxLineSize_def)
  with torn ack show ?thesis by auto
qed

section \<open>A stop between the two files of a compaction\<close>

text \<open>A compaction that stops between its two writes brings every logically truncated message back,
  and the next compaction does nothing about it (the comment in \<open>Compact\<close> says that it would).\<close>

theorem compact_stop_resurrects:
  assumes laws: "json_laws js" and at: "session_at js d key ms sk" and sk: "0 < sk"
    and whole: "Compact js None now d key = (d2, Inr ())"
    and stop: "Compact js (Some (1, k)) now d key = (d1, r)"
  shows "r = Inl IOError \<and> GetHistory js d1 key = Inr (map (stored js) ms) \<and>
    Compact js ft now' d1 key = (d1, Inr ())"
proof -
  from at obtain meta where meta: "readMeta js d key = Inr meta" "Skip meta = int sk"
    by (auto simp: session_at_def)
  let ?active = "map (stored js) (drop sk ms)"
  let ?meta = "meta\<lparr>Skip := 0, Count := int (length ?active), UpdatedAt := Some now\<rparr>"
  from session_history [OF laws at] meta
  have active: "readMessages js (jsonl d (sanitizeKey key)) (int sk) = Inr ?active"
    by (simp add: GetHistory_def)
  from whole meta active sk obtain data s where data: "marshal_meta js ?meta = Some data"
    and enc: "encode_lines js ?active = Some s"
    by (auto simp: Compact_def compact_plan_def and_then_def writeMeta_def rewriteJSONL_def
        split: option.splits)
  with stop meta active sk have r: "r = Inl IOError"
    and d1: "d1 = d\<lparr>metaf := (metaf d)(sanitizeKey key := Contents data)\<rparr>"
    by (auto simp: Compact_def compact_plan_def and_then_def writeMeta_def rewriteJSONL_def
        run_plan_def)
  from readMeta_written [OF laws data, of d1 key] d1
  have m1: "\<exists>m. readMeta js d1 key = Inr m \<and> Skip m = int 0" by simp
  with at d1 have "session_at js d1 key ms 0" by (simp add: session_at_def)
  with session_history [OF laws this] r m1 show ?thesis
    by (auto simp: Compact_def compact_plan_def)
qed

text \<open>A session with one message, truncated to none.\<close>

definition demo_disk :: disk where
  "demo_disk =
     \<lparr>jsonl = (\<lambda>_. Contents (unlines [line demo_codec (demo_msg ''a'')])),
      metaf = (\<lambda>_. Contents ''scc'')\<rparr>"

lemma demo_disk_meta:
  "readMeta demo_codec demo_disk ''k'' =
     Inr \<lparr>MetaKey = ''k'', MetaSummary = [], MetaTools = [], Skip = 1, Count = 1,
       CreatedAt = None, UpdatedAt = None\<rparr>"
proof -
  have "TrimSpace ''scc'' \<noteq> []" "TrimSpace [] = []" by code_simp+
  then show ?thesis by (simp add: readMeta_def demo_disk_def demo_codec_def zeroMeta_def)
qed

lemma demo_disk_session: "session_at demo_codec demo_disk ''k'' [demo_msg ''a''] 1"
  using demo_fits [of "''a''"] by (simp add: session_at_def demo_disk_meta) (simp add: demo_disk_def)

lemma demo_disk_compact: "\<exists>d2. Compact demo_codec None 0 demo_disk ''k'' = (d2, Inr ())"
proof -
  have "readMessages demo_codec (jsonl demo_disk (sanitizeKey ''k'')) 1 = Inr []"
    using session_history [OF demo_laws demo_disk_session] demo_disk_meta
    by (simp add: GetHistory_def)
  then show ?thesis
    by (simp add: Compact_def compact_plan_def demo_disk_meta and_then_def writeMeta_def
        rewriteJSONL_def) (simp add: demo_codec_def)
qed

theorem compact_stop_resurrects_witness:
  "GetHistory demo_codec demo_disk ''k'' = Inr [] \<and>
   (\<exists>d1 r. Compact demo_codec (Some (1, 0)) 0 demo_disk ''k'' = (d1, r) \<and>
      GetHistory demo_codec d1 ''k'' = Inr [demo_msg ''a''])"
proof -
  obtain d2 where whole: "Compact demo_codec None 0 demo_disk ''k'' = (d2, Inr ())"
    using demo_disk_compact by blast
  obtain d1 r where stop: "Compact demo_codec (Some (1, 0)) 0 demo_disk ''k'' = (d1, r)"
    by fastforce
  from compact_stop_resurrects [OF demo_laws demo_disk_session _ whole stop] stop
    session_history [OF demo_laws demo_disk_session]
  show ?thesis by simp
qed

section \<open>Lines that are too long\<close>

text \<open>The store accepts and acknowledges a message whose line is longer than what the reader takes
  (10 MiB); from then on the whole history of the session is an error, and so are truncation and
  compaction, which read it first.\<close>

theorem oversize_message_blocks_session:
  assumes laws: "json_laws js" and at: "session_at js d key ms sk"
    and m: "marshal_msg js m = Some l" and big: "maxLineSize \<le> int (length l)"
    and ack: "AddFullMessage js None now d key m = (d', Inr ())"
  shows "GetHistory js d' key = Inl ScanTooLong \<and>
    TruncateHistory js ft now' d' key n = (d', Inl ScanTooLong) \<and>
    (0 < sk \<longrightarrow> Compact js ft now' d' key = (d', Inl ScanTooLong))"
proof -
  let ?f = "sanitizeKey key"
  from at obtain meta where meta: "readMeta js d key = Inr meta" "Skip meta = int sk"
    and ms: "\<forall>m \<in> set ms. fits js m"
    and f: "jsonl d ?f = Contents (unlines (map (line js) ms)) \<or> jsonl d ?f = Absent \<and> ms = []"
    by (auto simp: session_at_def)
  then have bytes: "bytes_of (jsonl d ?f) = unlines (map (line js) ms)" "jsonl d ?f \<noteq> Unreadable"
    by auto
  from ack meta bytes m obtain data where data: "marshal_meta js (added_meta now meta) = Some data"
    and d': "d' = d\<lparr>jsonl := (jsonl d)(?f := Contents (unlines (map (line js) ms) @ l @ [nl])),
      metaf := (metaf d)(?f := Contents data)\<rparr>"
    by (auto simp: AddFullMessage_def addMsg_plan_def and_then_def writeMeta_def split: option.splits)
  from readMeta_written [OF laws data, of d' key] meta(2) d'
  obtain m' where m': "readMeta js d' key = Inr m'" "Skip m' = int sk" by auto
  have "snd (scan (unlines (map (line js) ms) @ l @ [nl]))"
    by (rule scan_too_long [OF fits_small [OF laws ms] json_msg(1) [OF laws m] big])
  with d' m' show ?thesis
    by (simp add: GetHistory_def readMessages_def countLines_def TruncateHistory_def
        truncate_plan_def Compact_def compact_plan_def)
qed

lemma clean_replicate: "clean_text (replicate n CHR ''a'')"
  by (simp add: clean_text_def list_all_iff)

theorem oversize_message_blocks_session_witness:
  "\<exists>m d'. AddFullMessage demo_codec None 0 empty_disk ''k'' m = (d', Inr ()) \<and>
     GetHistory demo_codec d' ''k'' = Inl ScanTooLong"
proof -
  let ?m = "demo_msg (replicate (nat maxLineSize) CHR ''a'')"
  have m: "demo_marshal ?m = Some (CHR ''{'' # ''user'' @ CHR ''|'' #
      replicate (nat maxLineSize) CHR ''a'' @ [CHR ''}''])"
    by (rule demo_marshal_demo_msg) (rule clean_replicate)
  obtain d' where ack: "AddFullMessage demo_codec None 0 empty_disk ''k'' ?m = (d', Inr ())"
    using demo_add_acked [OF demo_empty_meta(1) m demo_empty_meta(2)] by blast
  have "0 \<le> maxLineSize" by (simp add: maxLineSize_def)
  then have "maxLineSize \<le> int (length (CHR ''{'' # ''user'' @ CHR ''|'' #
      replicate (nat maxLineSize) CHR ''a'' @ [CHR ''}'']))" by simp
  with oversize_message_blocks_session [OF demo_laws session_empty, of ?m] m ack show ?thesis
    unfolding demo_marshal_msg by blast
qed

section \<open>Keys that share a file\<close>

lemma session_at_alias:
  assumes "sanitizeKey k1 = sanitizeKey k2"
  shows "session_at js d k1 ms sk \<longleftrightarrow> session_at js d k2 ms sk"
proof -
  have "(\<exists>m. readMeta js d k1 = Inr m \<and> Skip m = int sk) \<longleftrightarrow>
      (\<exists>m. readMeta js d k2 = Inr m \<and> Skip m = int sk)"
    by (simp add: readMeta_def assms zeroMeta_def
        split: disk_file.splits sum.splits decode_error.splits)
  then show ?thesis by (simp add: session_at_def assms)
qed

text \<open>Two session keys that differ only in colons, slashes, backslashes and underscores share their files: a message
  added under one key shows up in the history of the other.\<close>

theorem aliased_keys_share_history:
  assumes laws: "json_laws js" and same: "sanitizeKey k1 = sanitizeKey k2"
    and at: "session_at js d k1 ms sk" and m: "fits js m"
    and ack: "AddFullMessage js None now d k2 m = (d', Inr ())"
  shows "GetHistory js d' k1 = Inr (map (stored js) (drop sk ms) @ [stored js m])"
proof -
  from at have "session_at js d k2 ms sk" by (simp add: session_at_alias [OF same])
  from session_add [OF laws this m ack] have "session_at js d' k1 (ms @ [m]) sk"
    by (simp add: session_at_alias [OF same])
  from session_history [OF laws this] at show ?thesis by (simp add: session_at_def)
qed

text \<open>Two groups of one channel whose session keys, as the router builds them, are aliased. Their
  locks are different ones, so the two sessions do not even exclude each other.\<close>

definition group_key :: "string \<Rightarrow> string" where
  "group_key peer = BuildAgentPeerSessionKey
     \<lparr>AgentID = ''main'', Channel = ''slack'', AccountID = ''default'',
      Peer = Some \<lparr>Kind = ''group'', PeerID = peer\<rparr>, Scope = DMScopeMain, IdentityLinks = []\<rparr>"

lemma group_keys:
  "group_key ''c1/9'' = ''agent:main:slack:group:c1/9''"
  "group_key ''c1_9'' = ''agent:main:slack:group:c1_9''"
  by code_simp+

lemma group_keys_alias:
  "sanitizeKey (group_key ''c1/9'') = sanitizeKey (group_key ''c1_9'')"
  "sessionLock (group_key ''c1/9'') \<noteq> sessionLock (group_key ''c1_9'')"
  unfolding group_keys by code_simp+

theorem aliased_keys_share_history_witness:
  "group_key ''c1/9'' \<noteq> group_key ''c1_9'' \<and>
   sessionLock (group_key ''c1/9'') \<noteq> sessionLock (group_key ''c1_9'') \<and>
   (\<exists>d'. AddFullMessage demo_codec None 0 empty_disk (group_key ''c1_9'') (demo_msg ''a'') = (d', Inr ()) \<and>
      GetHistory demo_codec d' (group_key ''c1/9'') = Inr [demo_msg ''a''])"
proof -
  have "clean_text ''a''" by simp
  from demo_add_acked [OF demo_empty_meta(1) demo_marshal_demo_msg [OF this] demo_empty_meta(2)]
  obtain d' where ack: "AddFullMessage demo_codec None 0 empty_disk (group_key ''c1_9'')
      (demo_msg ''a'') = (d', Inr ())" by blast
  from aliased_keys_share_history [OF demo_laws group_keys_alias(1) session_empty demo_fits ack]
  have "GetHistory demo_codec d' (group_key ''c1/9'') = Inr [demo_msg ''a'']" by simp
  with ack group_keys_alias(2) show ?thesis by auto
qed

end
