(* ===== verification/Sessions.thy ===== *)
theory Sessions
  imports JSONLFaults
begin

text \<open>
  The session stores of the agent loop: the interface of \<open>pkg/session/session_store.go\<close>, the
  in-memory \<open>SessionManager\<close> (\<open>pkg/session/manager.go\<close>) and the adapter over the JSONL store
  (\<open>pkg/session/jsonl_backend.go\<close>). Every operation runs under the manager's lock and is one step;
  \<open>Save\<close> writes the snapshot that it takes under the lock.
\<close>

section \<open>The in-memory manager\<close>

record Session =
  SessKey :: string
  SessMessages :: "Message list"
  SessSummary :: string
  SessTools :: "string list"
  SessCreated :: instant
  SessUpdated :: "instant option"

record SessionManager =
  sessions :: "string \<rightharpoonup> Session"
  storage :: string

definition newSession :: "string \<Rightarrow> instant \<Rightarrow> Session" where
  "newSession key now =
     \<lparr>SessKey = key, SessMessages = [], SessSummary = [], SessTools = [], SessCreated = now,
      SessUpdated = None\<rparr>"

definition put :: "SessionManager \<Rightarrow> string \<Rightarrow> Session \<Rightarrow> SessionManager" where
  "put sm key s = sm\<lparr>sessions := (sessions sm)(key \<mapsto> s)\<rparr>"

definition GetOrCreate :: "instant \<Rightarrow> SessionManager \<Rightarrow> string \<Rightarrow> SessionManager \<times> Session" where
  "GetOrCreate now sm key =
     (case sessions sm key of
        Some s \<Rightarrow> (sm, s)
      | None \<Rightarrow>
          (let s = (newSession key now)\<lparr>SessUpdated := Some now\<rparr> in (put sm key s, s)))"

definition sm_AddFullMessage :: "instant \<Rightarrow> SessionManager \<Rightarrow> string \<Rightarrow> Message \<Rightarrow> SessionManager" where
  "sm_AddFullMessage now sm key msg =
     (let s = (case sessions sm key of Some s \<Rightarrow> s | None \<Rightarrow> newSession key now)
      in put sm key (s\<lparr>SessMessages := SessMessages s @ [msg], SessUpdated := Some now\<rparr>))"

definition sm_AddMessage :: "instant \<Rightarrow> SessionManager \<Rightarrow> string \<Rightarrow> string \<Rightarrow> string \<Rightarrow> SessionManager" where
  "sm_AddMessage now sm key role content = sm_AddFullMessage now sm key (text_message role content)"

definition sm_GetHistory :: "SessionManager \<Rightarrow> string \<Rightarrow> Message list" where
  "sm_GetHistory sm key = (case sessions sm key of None \<Rightarrow> [] | Some s \<Rightarrow> SessMessages s)"

definition sm_GetSummary :: "SessionManager \<Rightarrow> string \<Rightarrow> string" where
  "sm_GetSummary sm key = (case sessions sm key of None \<Rightarrow> [] | Some s \<Rightarrow> SessSummary s)"

definition sm_SetSummary :: "instant \<Rightarrow> SessionManager \<Rightarrow> string \<Rightarrow> string \<Rightarrow> SessionManager" where
  "sm_SetSummary now sm key summary =
     (case sessions sm key of
        None \<Rightarrow> sm
      | Some s \<Rightarrow> put sm key (s\<lparr>SessSummary := summary, SessUpdated := Some now\<rparr>))"

definition sm_GetDiscoveredTools :: "SessionManager \<Rightarrow> string \<Rightarrow> string list" where
  "sm_GetDiscoveredTools sm key = (case sessions sm key of None \<Rightarrow> [] | Some s \<Rightarrow> SessTools s)"

definition sm_SetDiscoveredTools ::
  "instant \<Rightarrow> SessionManager \<Rightarrow> string \<Rightarrow> string list \<Rightarrow> SessionManager" where
  "sm_SetDiscoveredTools now sm key names =
     (let s = (case sessions sm key of Some s \<Rightarrow> s | None \<Rightarrow> newSession key now)
      in put sm key (s\<lparr>SessTools := normalizeDiscoveredTools names, SessUpdated := Some now\<rparr>))"

definition sm_TruncateHistory :: "instant \<Rightarrow> SessionManager \<Rightarrow> string \<Rightarrow> int \<Rightarrow> SessionManager" where
  "sm_TruncateHistory now sm key keepLast =
     (case sessions sm key of
        None \<Rightarrow> sm
      | Some s \<Rightarrow>
          if keepLast \<le> 0 then put sm key (s\<lparr>SessMessages := [], SessUpdated := Some now\<rparr>)
          else if int (length (SessMessages s)) \<le> keepLast then sm
          else put sm key (s\<lparr>SessMessages :=
                 drop (length (SessMessages s) - nat keepLast) (SessMessages s),
               SessUpdated := Some now\<rparr>))"

definition sm_SetHistory :: "instant \<Rightarrow> SessionManager \<Rightarrow> string \<Rightarrow> Message list \<Rightarrow> SessionManager" where
  "sm_SetHistory now sm key history =
     (case sessions sm key of
        None \<Rightarrow> sm
      | Some s \<Rightarrow> put sm key (s\<lparr>SessMessages := history, SessUpdated := Some now\<rparr>))"

lemmas sm_defs [state_defs] = sm_AddFullMessage_def sm_SetSummary_def sm_SetDiscoveredTools_def
  sm_TruncateHistory_def sm_SetHistory_def put_def

section \<open>Saving and loading\<close>

text \<open>
  The storage directory is a list of entries in the order of the directory listing; an entry is a
  subdirectory, an unreadable file or a file. The encoding of a session is a parameter
  (\<open>json.MarshalIndent\<close> and \<open>json.Unmarshal\<close>). \<open>filepath.IsLocal\<close> is that of Unix on names
  without a slash.
\<close>

datatype dir_entry = SubDir | UnreadableFile | RegularFile string

type_synonym directory = "(string \<times> dir_entry) list"

record session_codec =
  marshal_session :: "Session \<Rightarrow> string option"
  unmarshal_session :: "string \<Rightarrow> Session option"

definition sanitizeFilename :: "string \<Rightarrow> string" where
  "sanitizeFilename key =
     ReplaceAllChar (ReplaceAllChar (ReplaceAllChar key (CHR '':'') (CHR ''_'')) (CHR ''/'') (CHR ''_''))
       (CHR 0x5C) (CHR ''_'')"

definition is_local_name :: "string \<Rightarrow> bool" where
  "is_local_name f \<longleftrightarrow> f \<noteq> [] \<and> f \<noteq> ''..''"

datatype save_error = ErrInvalid | SaveMarshalError | SaveIOError

text \<open>Renaming a file over another one.\<close>

definition write_entry :: "directory \<Rightarrow> string \<Rightarrow> string \<Rightarrow> directory" where
  "write_entry dir name data =
     (if name \<in> fst ` set dir
      then map (\<lambda>(n, e). if n = name then (n, RegularFile data) else (n, e)) dir
      else dir @ [(name, RegularFile data)])"

definition Save :: "session_codec \<Rightarrow> bool \<Rightarrow> SessionManager \<Rightarrow> directory \<Rightarrow> string \<Rightarrow>
    directory \<times> (save_error + unit)" where
  "Save sc io_ok sm dir key =
     (if storage sm = [] then (dir, Inr ())
      else
        let filename = sanitizeFilename key in
        if filename = ''.'' \<or> \<not> is_local_name filename then (dir, Inl ErrInvalid)
        else
          (case sessions sm key of
             None \<Rightarrow> (dir, Inr ())
           | Some s \<Rightarrow>
               (case marshal_session sc s of
                  None \<Rightarrow> (dir, Inl SaveMarshalError)
                | Some data \<Rightarrow>
                    if io_ok then (write_entry dir (filename @ ''.json'') data, Inr ())
                    else (dir, Inl SaveIOError))))"

text \<open>\<open>filepath.Ext\<close> of a file name.\<close>

definition Ext :: "string \<Rightarrow> string" where
  "Ext name = (if CHR ''.'' \<in> set name
     then CHR ''.'' # rev (takeWhile (\<lambda>c. c \<noteq> CHR ''.'') (rev name)) else [])"

definition load_entry :: "session_codec \<Rightarrow> string \<times> dir_entry \<Rightarrow> (string \<rightharpoonup> Session) \<Rightarrow>
    (string \<rightharpoonup> Session)" where
  "load_entry sc entry m =
     (case entry of
        (_, SubDir) \<Rightarrow> m
      | (name, UnreadableFile) \<Rightarrow> m
      | (name, RegularFile data) \<Rightarrow>
          if Ext name \<noteq> ''.json'' then m
          else (case unmarshal_session sc data of None \<Rightarrow> m | Some s \<Rightarrow> m(SessKey s \<mapsto> s)))"

definition loadSessions :: "session_codec \<Rightarrow> directory \<Rightarrow> SessionManager \<Rightarrow> SessionManager" where
  "loadSessions sc dir sm = sm\<lparr>sessions := fold (load_entry sc) dir (sessions sm)\<rparr>"

definition NewSessionManager :: "session_codec \<Rightarrow> directory \<Rightarrow> string \<Rightarrow> SessionManager" where
  "NewSessionManager sc dir path =
     (let sm = \<lparr>sessions = Map.empty, storage = path\<rparr>
      in if path \<noteq> [] then loadSessions sc dir sm else sm)"

section \<open>The JSONL backend\<close>

text \<open>Errors of the store are logged and dropped.\<close>

definition jb_AddFullMessage ::
  "json_codec \<Rightarrow> fault \<Rightarrow> instant \<Rightarrow> disk \<Rightarrow> string \<Rightarrow> Message \<Rightarrow> disk" where
  "jb_AddFullMessage js ft now d key msg = fst (AddFullMessage js ft now d key msg)"

definition jb_AddMessage ::
  "json_codec \<Rightarrow> fault \<Rightarrow> instant \<Rightarrow> disk \<Rightarrow> string \<Rightarrow> string \<Rightarrow> string \<Rightarrow> disk" where
  "jb_AddMessage js ft now d key role content = fst (AddMessage js ft now d key role content)"

definition jb_GetHistory :: "json_codec \<Rightarrow> disk \<Rightarrow> string \<Rightarrow> Message list" where
  "jb_GetHistory js d key = (case GetHistory js d key of Inl _ \<Rightarrow> [] | Inr msgs \<Rightarrow> msgs)"

definition jb_GetSummary :: "json_codec \<Rightarrow> disk \<Rightarrow> string \<Rightarrow> string" where
  "jb_GetSummary js d key = (case GetSummary js d key of Inl _ \<Rightarrow> [] | Inr s \<Rightarrow> s)"

definition jb_SetSummary ::
  "json_codec \<Rightarrow> fault \<Rightarrow> instant \<Rightarrow> disk \<Rightarrow> string \<Rightarrow> string \<Rightarrow> disk" where
  "jb_SetSummary js ft now d key summary = fst (SetSummary js ft now d key summary)"

definition jb_GetDiscoveredTools :: "json_codec \<Rightarrow> disk \<Rightarrow> string \<Rightarrow> string list" where
  "jb_GetDiscoveredTools js d key = (case GetDiscoveredTools js d key of Inl _ \<Rightarrow> [] | Inr t \<Rightarrow> t)"

definition jb_SetDiscoveredTools ::
  "json_codec \<Rightarrow> fault \<Rightarrow> instant \<Rightarrow> disk \<Rightarrow> string \<Rightarrow> string list \<Rightarrow> disk" where
  "jb_SetDiscoveredTools js ft now d key names = fst (SetDiscoveredTools js ft now d key names)"

definition jb_SetHistory ::
  "json_codec \<Rightarrow> fault \<Rightarrow> instant \<Rightarrow> disk \<Rightarrow> string \<Rightarrow> Message list \<Rightarrow> disk" where
  "jb_SetHistory js ft now d key history = fst (SetHistory js ft now d key history)"

definition jb_TruncateHistory ::
  "json_codec \<Rightarrow> fault \<Rightarrow> instant \<Rightarrow> disk \<Rightarrow> string \<Rightarrow> int \<Rightarrow> disk" where
  "jb_TruncateHistory js ft now d key keepLast = fst (TruncateHistory js ft now d key keepLast)"

definition jb_Save :: "json_codec \<Rightarrow> fault \<Rightarrow> instant \<Rightarrow> disk \<Rightarrow> string \<Rightarrow> disk \<times> (store_error + unit)" where
  "jb_Save js ft now d key = Compact js ft now d key"

section \<open>The interface of the agent loop\<close>

datatype session_cmd =
  CAdd Message | CTruncate int | CSetHistory "Message list" | CSave

text \<open>What a command means for a conversation; \<open>view\<close> is what the store keeps of a message.\<close>

primrec abs_step :: "(Message \<Rightarrow> Message) \<Rightarrow> Message list \<Rightarrow> session_cmd \<Rightarrow> Message list" where
  "abs_step view h (CAdd m) = h @ [view m]"
| "abs_step view h (CTruncate n) = keep_last n h"
| "abs_step view h (CSetHistory ms) = map view ms"
| "abs_step view h CSave = h"

primrec runs :: "('s \<Rightarrow> string \<Rightarrow> session_cmd \<Rightarrow> 's \<Rightarrow> bool) \<Rightarrow> 's \<Rightarrow> string \<Rightarrow> session_cmd list \<Rightarrow> 's \<Rightarrow> bool" where
  "runs step s k [] s' \<longleftrightarrow> s' = s"
| "runs step s k (c # cs) s' \<longleftrightarrow> (\<exists>t. step s k c t \<and> runs step t k cs s')"

text \<open>The commands as the two stores carry them out, the JSONL store when it acknowledges them and
  the lines fit.\<close>

definition sm_step :: "SessionManager \<Rightarrow> string \<Rightarrow> session_cmd \<Rightarrow> SessionManager \<Rightarrow> bool" where
  "sm_step sm k c sm' \<longleftrightarrow>
     (\<exists>now. sm' = (case c of
        CAdd m \<Rightarrow> sm_AddFullMessage now sm k m
      | CTruncate n \<Rightarrow> sm_TruncateHistory now sm k n
      | CSetHistory ms \<Rightarrow> sm_SetHistory now sm k ms
      | CSave \<Rightarrow> sm))"

definition jb_step :: "json_codec \<Rightarrow> disk \<Rightarrow> string \<Rightarrow> session_cmd \<Rightarrow> disk \<Rightarrow> bool" where
  "jb_step js d k c d' \<longleftrightarrow>
     (\<exists>now. case c of
        CAdd m \<Rightarrow> fits js m \<and> AddFullMessage js None now d k m = (d', Inr ())
      | CTruncate n \<Rightarrow> TruncateHistory js None now d k n = (d', Inr ())
      | CSetHistory ms \<Rightarrow> (\<forall>m \<in> set ms. fits js m) \<and> SetHistory js None now d k ms = (d', Inr ())
      | CSave \<Rightarrow> Compact js None now d k = (d', Inr ()))"

locale session_store =
  fixes ok :: "'s \<Rightarrow> string \<Rightarrow> bool"
    and hist :: "'s \<Rightarrow> string \<Rightarrow> Message list"
    and step :: "'s \<Rightarrow> string \<Rightarrow> session_cmd \<Rightarrow> 's \<Rightarrow> bool"
    and view :: "Message \<Rightarrow> Message"
  assumes step_ok: "ok s k \<Longrightarrow> step s k c s' \<Longrightarrow> ok s' k"
    and step_hist: "ok s k \<Longrightarrow> step s k c s' \<Longrightarrow> hist s' k = abs_step view (hist s k) c"
begin

lemma runs_ok: "ok s k \<Longrightarrow> runs step s k cs s' \<Longrightarrow> ok s' k"
  by (induction cs arbitrary: s) (auto dest: step_ok)

lemma runs_hist:
  "ok s k \<Longrightarrow> runs step s k cs s' \<Longrightarrow> hist s' k = foldl (abs_step view) (hist s k) cs"
proof (induction cs arbitrary: s)
  case (Cons c cs)
  then obtain t where t: "step s k c t" "runs step t k cs s'" by auto
  from Cons.IH [OF step_ok [OF Cons.prems(1) t(1)] t(2)] step_hist [OF Cons.prems(1) t(1)]
  show ?case by simp
qed simp

end

lemma sm_truncate_keep: "sessions sm k = Some s \<Longrightarrow>
    sm_GetHistory (sm_TruncateHistory now sm k n) k = keep_last n (SessMessages s)"
  by (auto simp: sm_defs sm_GetHistory_def keep_last_def)

interpretation manager: session_store "\<lambda>sm k. sessions sm k \<noteq> None" sm_GetHistory sm_step "\<lambda>m. m"
proof
  fix s k c s' assume "sessions s k \<noteq> None" "sm_step s k c s'"
  then obtain sess now where sess: "sessions s k = Some sess" and s': "s' = (case c of
        CAdd m \<Rightarrow> sm_AddFullMessage now s k m
      | CTruncate n \<Rightarrow> sm_TruncateHistory now s k n
      | CSetHistory ms \<Rightarrow> sm_SetHistory now s k ms
      | CSave \<Rightarrow> s)"
    by (auto simp: sm_step_def)
  then show "sessions s' k \<noteq> None"
    by (cases c) (auto simp: sm_defs)
  show "sm_GetHistory s' k = abs_step (\<lambda>m. m) (sm_GetHistory s k) c"
  proof (cases c)
    case (CTruncate n)
    with sess s' sm_truncate_keep [OF sess] show ?thesis by (simp add: sm_GetHistory_def)
  qed (use sess s' in \<open>simp_all add: sm_defs sm_GetHistory_def\<close>)
qed

definition jb_ok :: "json_codec \<Rightarrow> disk \<Rightarrow> string \<Rightarrow> bool" where
  "jb_ok js d k \<longleftrightarrow> json_laws js \<and> (\<exists>ms sk. session_at js d k ms sk)"

interpretation jsonl_store: session_store "jb_ok js" "jb_GetHistory js" "jb_step js" "stored js"
  for js :: json_codec
proof
  fix s k c s' assume "jb_ok js s k" "jb_step js s k c s'"
  then obtain ms sk where laws: "json_laws js" and at: "session_at js s k ms sk"
    by (auto simp: jb_ok_def)
  have hist: "jb_GetHistory js d k = map (stored js) (drop n xs)" if "session_at js d k xs n" for d xs n
    using session_history [OF laws that] by (simp add: jb_GetHistory_def)
  have "\<exists>ms' sk'. session_at js s' k ms' sk' \<and>
      map (stored js) (drop sk' ms') = abs_step (stored js) (map (stored js) (drop sk ms)) c"
  proof (cases c)
    case (CAdd m)
    with \<open>jb_step js s k c s'\<close> session_add [OF laws at] have "session_at js s' k (ms @ [m]) sk"
      by (auto simp: jb_step_def)
    with CAdd at show ?thesis
      by (intro exI [of _ "ms @ [m]"] exI [of _ sk]) (simp add: session_at_def)
  next
    case (CTruncate n)
    with \<open>jb_step js s k c s'\<close> obtain now where "TruncateHistory js None now s k n = (s', Inr ())"
      by (auto simp: jb_step_def)
    from session_truncate [OF laws at this] obtain sk' where
      "session_at js s' k ms sk'" "drop sk' ms = keep_last n (drop sk ms)" by blast
    with CTruncate show ?thesis
      by (intro exI [of _ ms] exI [of _ sk']) (simp add: keep_last_map)
  next
    case (CSetHistory xs)
    with \<open>jb_step js s k c s'\<close> session_set_history [OF laws] have "session_at js s' k xs 0"
      by (auto simp: jb_step_def)
    with CSetHistory show ?thesis by (intro exI [of _ xs] exI [of _ 0]) simp
  next
    case CSave
    with \<open>jb_step js s k c s'\<close> session_compact [OF laws at] show ?thesis
      by (auto simp: jb_step_def)
  qed
  with hist at laws show "jb_ok js s' k"
    "jb_GetHistory js s' k = abs_step (stored js) (jb_GetHistory js s k) c"
    by (auto simp: jb_ok_def)
qed

section \<open>Both stores implement the conversation\<close>

text \<open>C8. Refinement: after any sequence of acknowledged appends, truncations, replacements and saves, the
  history that the JSONL backend returns is the one that the same commands give on a plain list of
  messages. Every message that is written has an encoded line below the 10 MiB that the readers take
  (\<open>fits\<close>; a longer one is acknowledged, too, but its session can then no longer be read), no step fails, and the encoding
  obeys \<open>json_laws\<close>: a line has no line break, and decoding it gives the message up to what JSON keeps.\<close>

theorem jsonl_backend_refines:
  assumes "json_laws js" and "session_at js d k ms sk" and "runs (jb_step js) d k cs d'"
  shows "jb_GetHistory js d' k = foldl (abs_step (stored js)) (map (stored js) (drop sk ms)) cs"
proof -
  have "jb_ok js d k" using assms(1,2) by (auto simp: jb_ok_def)
  from jsonl_store.runs_hist [OF this assms(3)] session_history [OF assms(1,2)]
  show ?thesis by (simp add: jb_GetHistory_def)
qed

lemma abs_step_view:
  "foldl (abs_step v) (map v h) cs = map v (foldl (abs_step (\<lambda>m. m)) h cs)"
proof (induction cs arbitrary: h)
  case (Cons c cs)
  have "abs_step v (map v h) c = map v (abs_step (\<lambda>m. m) h c)"
    by (cases c) (simp_all add: keep_last_map)
  with Cons.IH [of "abs_step (\<lambda>m. m) h c"] show ?case by simp
qed simp

text \<open>The two stores can be exchanged: on a session that exists in both with the same history, the
  same commands leave the same history, up to what JSON keeps of a message.\<close>

theorem stores_agree:
  assumes "json_laws js" and "session_at js d k ms sk" and "runs (jb_step js) d k cs d'"
    and "sessions sm k \<noteq> None" and "sm_GetHistory sm k = drop sk ms"
    and "runs sm_step sm k cs sm'"
  shows "jb_GetHistory js d' k = map (stored js) (sm_GetHistory sm' k)"
proof -
  have "jb_ok js d k" using assms(1,2) by (auto simp: jb_ok_def)
  from jsonl_store.runs_hist [OF this assms(3)] session_history [OF assms(1,2)]
    manager.runs_hist [OF assms(4,6)] abs_step_view [of "stored js" "drop sk ms" cs] assms(5)
  show ?thesis by (simp add: jb_GetHistory_def)
qed

text \<open>On a session that does not exist yet they differ: the manager drops a history (and a summary)
  that is set for an unknown session, the JSONL backend keeps it.\<close>

theorem set_history_unknown_session:
  assumes "sessions sm k = None" and "json_laws js" and "\<forall>m \<in> set ms. fits js m"
    and "SetHistory js None now d k ms = (d', Inr ())"
  shows "sm_GetHistory (sm_SetHistory now sm k ms) k = [] \<and>
    sm_GetSummary (sm_SetSummary now sm k summary) k = [] \<and>
    jb_GetHistory js (jb_SetHistory js None now d k ms) k = map (stored js) ms"
  using assms(1) session_history [OF assms(2) session_set_history [OF assms(2,3,4)]] assms(4)
  by (simp add: sm_defs sm_GetHistory_def sm_GetSummary_def jb_GetHistory_def jb_SetHistory_def)

section \<open>Concrete runs\<close>

lemma demo_run_jsonl:
  "\<exists>d'. runs (jb_step demo_codec) empty_disk ''k'' [CAdd (demo_msg ''a''), CAdd (demo_msg ''b'')] d'"
proof -
  have a: "demo_marshal (demo_msg ''a'') = Some (CHR ''{'' # ''user'' @ CHR ''|'' # ''a'' @ [CHR ''}''])"
    and b: "demo_marshal (demo_msg ''b'') = Some (CHR ''{'' # ''user'' @ CHR ''|'' # ''b'' @ [CHR ''}''])"
    by (rule demo_marshal_demo_msg, simp)+
  obtain d1 where d1: "AddFullMessage demo_codec None 0 empty_disk ''k'' (demo_msg ''a'') = (d1, Inr ())"
    "\<exists>meta. readMeta demo_codec d1 ''k'' = Inr meta \<and> 0 \<le> Skip meta \<and> 0 \<le> Count meta"
    "jsonl d1 (sanitizeKey ''k'') \<noteq> Unreadable"
    using demo_add_acked [OF demo_empty_meta(1) a demo_empty_meta(2)] by blast
  obtain d2 where d2: "AddFullMessage demo_codec None 0 d1 ''k'' (demo_msg ''b'') = (d2, Inr ())"
    using demo_add_acked [OF d1(2) b d1(3)] by blast
  have "fits demo_codec (demo_msg ''a'')" "fits demo_codec (demo_msg ''b'')"
    by (simp_all add: demo_fits)
  with d1(1) d2 show ?thesis by (auto simp: jb_step_def)
qed

theorem jsonl_backend_refines_witness:
  "\<exists>d'. runs (jb_step demo_codec) empty_disk ''k'' [CAdd (demo_msg ''a''), CAdd (demo_msg ''b'')] d' \<and>
     jb_GetHistory demo_codec d' ''k'' = [demo_msg ''a'', demo_msg ''b'']"
proof -
  obtain d' where run: "runs (jb_step demo_codec) empty_disk ''k''
      [CAdd (demo_msg ''a''), CAdd (demo_msg ''b'')] d'" using demo_run_jsonl by blast
  from jsonl_backend_refines [OF demo_laws session_empty run] run show ?thesis by auto
qed

definition demo_manager :: SessionManager where
  "demo_manager = put \<lparr>sessions = Map.empty, storage = []\<rparr> ''k'' (newSession ''k'' 0)"

theorem stores_agree_witness:
  "\<exists>d' sm'. runs (jb_step demo_codec) empty_disk ''k'' [CAdd (demo_msg ''a''), CAdd (demo_msg ''b'')] d' \<and>
     runs sm_step demo_manager ''k'' [CAdd (demo_msg ''a''), CAdd (demo_msg ''b'')] sm' \<and>
     jb_GetHistory demo_codec d' ''k'' = sm_GetHistory sm' ''k''"
proof -
  obtain d' where run: "runs (jb_step demo_codec) empty_disk ''k''
      [CAdd (demo_msg ''a''), CAdd (demo_msg ''b'')] d'" using demo_run_jsonl by blast
  obtain sm' where run': "runs sm_step demo_manager ''k''
      [CAdd (demo_msg ''a''), CAdd (demo_msg ''b'')] sm'" by (auto simp: sm_step_def)
  have "sessions demo_manager ''k'' \<noteq> None" "sm_GetHistory demo_manager ''k'' = drop 0 []"
    by (simp_all add: demo_manager_def put_def newSession_def sm_GetHistory_def)
  from stores_agree [OF demo_laws session_empty run this run'] run run' show ?thesis
    unfolding demo_marshal_msg list.map_ident by blast
qed

theorem set_history_unknown_session_witness:
  "sm_GetHistory (sm_SetHistory 0 \<lparr>sessions = Map.empty, storage = []\<rparr> ''k'' [demo_msg ''a'']) ''k'' = [] \<and>
   jb_GetHistory demo_codec (jb_SetHistory demo_codec None 0 empty_disk ''k'' [demo_msg ''a'']) ''k''
     = [demo_msg ''a'']"
proof -
  have "demo_marshal (demo_msg ''a'') = Some (CHR ''{'' # ''user'' @ CHR ''|'' # ''a'' @ [CHR ''}''])"
    by (rule demo_marshal_demo_msg) simp
  then obtain d' where "SetHistory demo_codec None 0 empty_disk ''k'' [demo_msg ''a''] = (d', Inr ())"
    by (simp add: SetHistory_def set_history_plan_def meta_plan_def and_then_def rewriteJSONL_def
        writeMeta_def readMeta_def empty_disk_def zeroMeta_def)
      (simp add: demo_codec_def created_at_def)
  from set_history_unknown_session [OF _ demo_laws _ this, of "\<lparr>sessions = Map.empty, storage = []\<rparr>"]
  show ?thesis by (simp add: demo_fits)
qed

section \<open>Saving and loading give the session back\<close>

lemma Ext_json: "Ext (f @ ''.json'') = ''.json''"
  by (simp add: Ext_def)

definition loads_key :: "session_codec \<Rightarrow> string \<Rightarrow> string \<times> dir_entry \<Rightarrow> bool" where
  "loads_key sc key entry \<longleftrightarrow> (load_entry sc entry Map.empty) key \<noteq> None"

lemma load_entry_key:
  "load_entry sc entry m key =
     (if loads_key sc key entry then load_entry sc entry Map.empty key else m key)"
  by (auto simp: loads_key_def load_entry_def split: prod.splits dir_entry.splits option.splits)

lemma fold_load_other:
  "\<forall>entry \<in> set dir. \<not> loads_key sc key entry \<Longrightarrow> fold (load_entry sc) dir m key = m key"
  by (induction dir arbitrary: m) (simp_all add: load_entry_key)

lemma write_entry_split:
  assumes "distinct (map fst dir)"
  obtains before after where "write_entry dir name data = before @ (name, RegularFile data) # after"
    and "\<forall>entry \<in> set (before @ after). entry \<in> set dir \<and> fst entry \<noteq> name"
proof (cases "name \<in> fst ` set dir")
  case True
  then obtain e where "(name, e) \<in> set dir" by auto
  then obtain before after where dir: "dir = before @ (name, e) # after"
    by (auto simp: in_set_conv_decomp)
  with assms have other: "name \<notin> fst ` set before" "name \<notin> fst ` set after" by auto
  have same: "map (\<lambda>(n, e). if n = name then (n, RegularFile data) else (n, e)) xs = xs"
    if "name \<notin> fst ` set xs" for xs
    using that by (induction xs) auto
  show ?thesis
    by (rule that [of before after])
      (use True other in \<open>auto simp: write_entry_def dir same\<close>)
next
  case False
  then show ?thesis by (intro that [of dir "[]"]) (auto simp: write_entry_def)
qed

text \<open>Round trip: a session that was saved is there again, as JSON keeps it, when a new manager is
  opened on the directory, whatever else the directory holds, as long as no other file claims the
  same key.\<close>

theorem save_then_load:
  assumes key: "sessions sm key = Some s" and path: "storage sm \<noteq> []"
    and dir: "distinct (map fst dir)"
    and save: "Save sc io_ok sm dir key = (dir', Inr ())"
    and codec: "marshal_session sc s = Some data" "unmarshal_session sc data = Some s'"
      "SessKey s' = key"
    and other: "\<forall>entry \<in> set dir. fst entry \<noteq> sanitizeFilename key @ ''.json'' \<longrightarrow> \<not> loads_key sc key entry"
  shows "sessions (NewSessionManager sc dir' (storage sm)) key = Some s'"
proof -
  let ?name = "sanitizeFilename key @ ''.json''"
  from save path key codec have dir': "dir' = write_entry dir ?name data"
    by (auto simp: Save_def Let_def split: if_splits)
  obtain before after where split: "write_entry dir ?name data = before @ (?name, RegularFile data) # after"
    and "\<forall>entry \<in> set (before @ after). entry \<in> set dir \<and> fst entry \<noteq> ?name"
    by (rule write_entry_split [OF dir])
  with other have quiet: "\<forall>entry \<in> set after. \<not> loads_key sc key entry" by auto
  have "fold (load_entry sc) dir' Map.empty key =
      load_entry sc (?name, RegularFile data) (fold (load_entry sc) before Map.empty) key"
    using fold_load_other [OF quiet] by (simp add: dir' split)
  also have "\<dots> = Some s'"
    using codec by (simp add: load_entry_def Ext_json)
  finally show ?thesis using path by (simp add: NewSessionManager_def loadSessions_def)
qed

definition demo_session_codec :: session_codec where
  "demo_session_codec = \<lparr>marshal_session = (\<lambda>s. Some (SessKey s)),
     unmarshal_session = (\<lambda>d. if d = [] then None else Some (newSession d 0))\<rparr>"

theorem save_then_load_witness:
  "\<exists>dir'. Save demo_session_codec True (demo_manager\<lparr>storage := ''s''\<rparr>) [] ''k'' = (dir', Inr ()) \<and>
     sessions (NewSessionManager demo_session_codec dir' ''s'') ''k'' = Some (newSession ''k'' 0)"
proof -
  let ?sm = "demo_manager\<lparr>storage := ''s''\<rparr>"
  have key: "sessions ?sm ''k'' = Some (newSession ''k'' 0)"
    by (simp add: demo_manager_def put_def)
  have fname: "sanitizeFilename ''k'' = ''k''" by code_simp
  obtain dir' where save: "Save demo_session_codec True ?sm [] ''k'' = (dir', Inr ())"
    using key by (simp add: Save_def fname is_local_name_def demo_session_codec_def)
  from save_then_load [OF key _ _ save, where data = "''k''" and s' = "newSession ''k'' 0"] save
  show ?thesis by (simp add: demo_session_codec_def newSession_def)
qed

end
