(* ===== verification/Cron.thy ===== *)
theory Cron
  imports Prelude
begin

text \<open>
  Scheduled jobs: \<open>pkg/cron/service.go\<close>. Times are milliseconds in \<open>int64\<close>, with the wrap-around of
  additions written out. Every operation under the service's lock is one step on \<open>CronService\<close>; the
  clock readings, the success of writing the store and fresh identifiers are arguments. The job file
  holds the list that was written last, or something that does not decode. The computation of
  the next tick of a cron expression (package \<open>gronx\<close>) is the parameter \<open>next_tick\<close>.

  An execution reads the job under the read lock, runs the handler without a lock and updates the job
  under the write lock: \<open>exec_lookup\<close> and \<open>exec_finish\<close> are the two locked parts. The loop of
  \<open>runLoop\<close> is the step relation \<open>cron_step\<close>.
\<close>

definition wrap64 :: "int \<Rightarrow> int" where
  "wrap64 x = (x + 2 ^ 63) mod 2 ^ 64 - 2 ^ 63"

record CronSchedule =
  SchedKind :: string
  AtMS :: "int option"
  EveryMS :: "int option"
  Expr :: string
  TZ :: string

record CronPayload =
  PayloadKind :: string
  PayloadMessage :: string
  Command :: string
  Deliver :: bool
  PayloadChannel :: string
  To :: string

record CronJobState =
  NextRunAtMS :: "int option"
  LastRunAtMS :: "int option"
  LastStatus :: string
  LastError :: string

record CronJob =
  JobID :: string
  JobName :: string
  Enabled :: bool
  Schedule :: CronSchedule
  Payload :: CronPayload
  State :: CronJobState
  CreatedAtMS :: int
  UpdatedAtMS :: int
  DeleteAfterRun :: bool

datatype job_file = NoJobFile | JobFile "CronJob list" | BrokenJobFile

record CronService =
  Jobs :: "CronJob list"
  store_file :: job_file
  running :: bool

datatype cron_error = LoadError | SaveError | JobNotFound

definition computeNextRun ::
  "(string \<Rightarrow> int \<Rightarrow> int option) \<Rightarrow> CronSchedule \<Rightarrow> int \<Rightarrow> int option" where
  "computeNextRun next_tick schedule nowMS =
     (if SchedKind schedule = ''at'' then
        (case AtMS schedule of
           Some t \<Rightarrow> if nowMS < t then Some t else None
         | None \<Rightarrow> None)
      else if SchedKind schedule = ''every'' then
        (case EveryMS schedule of
           None \<Rightarrow> None
         | Some e \<Rightarrow> if e \<le> 0 then None else Some (wrap64 (nowMS + e)))
      else if SchedKind schedule = ''cron'' then
        (if Expr schedule = [] then None else next_tick (Expr schedule) nowMS)
      else None)"

definition set_next :: "int option \<Rightarrow> CronJob \<Rightarrow> CronJob" where
  "set_next t job = job\<lparr>State := (State job)\<lparr>NextRunAtMS := t\<rparr>\<rparr>"

definition recomputeNextRuns ::
  "(string \<Rightarrow> int \<Rightarrow> int option) \<Rightarrow> int \<Rightarrow> CronService \<Rightarrow> CronService" where
  "recomputeNextRuns next_tick now cs =
     cs\<lparr>Jobs := map (\<lambda>job. if Enabled job
          then set_next (computeNextRun next_tick (Schedule job) now) job else job) (Jobs cs)\<rparr>"

text \<open>The earliest next run of an enabled job.\<close>

definition wake_of :: "CronJob \<Rightarrow> int option" where
  "wake_of job = (if Enabled job then NextRunAtMS (State job) else None)"

definition earlier :: "int option \<Rightarrow> CronJob \<Rightarrow> int option" where
  "earlier best job =
     (case wake_of job of
        None \<Rightarrow> best
      | Some t \<Rightarrow> (case best of None \<Rightarrow> Some t | Some b \<Rightarrow> if t < b then Some t else Some b))"

definition getNextWakeMS :: "CronService \<Rightarrow> int option" where
  "getNextWakeMS cs = foldl earlier None (Jobs cs)"

definition loadStore :: "CronService \<Rightarrow> CronService \<times> (cron_error + unit)" where
  "loadStore cs =
     (case store_file cs of
        NoJobFile \<Rightarrow> (cs\<lparr>Jobs := []\<rparr>, Inr ())
      | JobFile jobs \<Rightarrow> (cs\<lparr>Jobs := jobs\<rparr>, Inr ())
      | BrokenJobFile \<Rightarrow> (cs\<lparr>Jobs := []\<rparr>, Inl LoadError))"

definition saveStoreUnsafe :: "bool \<Rightarrow> CronService \<Rightarrow> CronService \<times> (cron_error + unit)" where
  "saveStoreUnsafe io_ok cs =
     (if io_ok then (cs\<lparr>store_file := JobFile (Jobs cs)\<rparr>, Inr ()) else (cs, Inl SaveError))"

definition NewCronService :: "job_file \<Rightarrow> CronService" where
  "NewCronService file = fst (loadStore \<lparr>Jobs = [], store_file = file, running = False\<rparr>)"

definition Start ::
  "(string \<Rightarrow> int \<Rightarrow> int option) \<Rightarrow> bool \<Rightarrow> int \<Rightarrow> CronService \<Rightarrow> CronService \<times> (cron_error + unit)" where
  "Start next_tick io_ok now cs =
     (if running cs then (cs, Inr ())
      else
        (case loadStore cs of
           (cs1, Inl e) \<Rightarrow> (cs1, Inl e)
         | (cs1, Inr _) \<Rightarrow>
             (case saveStoreUnsafe io_ok (recomputeNextRuns next_tick now cs1) of
                (cs2, Inl e) \<Rightarrow> (cs2, Inl e)
              | (cs2, Inr _) \<Rightarrow> (cs2\<lparr>running := True\<rparr>, Inr ()))))"

definition Stop :: "CronService \<Rightarrow> CronService" where
  "Stop cs = (if \<not> running cs then cs else cs\<lparr>running := False\<rparr>)"

definition is_due :: "int \<Rightarrow> CronJob \<Rightarrow> bool" where
  "is_due now job \<longleftrightarrow> Enabled job \<and>
     (case NextRunAtMS (State job) of None \<Rightarrow> False | Some t \<Rightarrow> t \<le> now)"

definition checkJobs :: "bool \<Rightarrow> int \<Rightarrow> CronService \<Rightarrow> CronService \<times> string list" where
  "checkJobs io_ok now cs =
     (if \<not> running cs then (cs, [])
      else
        let due = map JobID (filter (is_due now) (Jobs cs));
            cs1 = cs\<lparr>Jobs := map (\<lambda>job. if JobID job \<in> set due then set_next None job else job) (Jobs cs)\<rparr>
        in (fst (saveStoreUnsafe io_ok cs1), due))"

definition find_job :: "CronService \<Rightarrow> string \<Rightarrow> CronJob option" where
  "find_job cs jobID = find (\<lambda>job. JobID job = jobID) (Jobs cs)"

definition exec_lookup :: "CronService \<Rightarrow> string \<Rightarrow> CronJob option" where
  "exec_lookup cs jobID = find_job cs jobID"

text \<open>Changes the first job with an identifier.\<close>

fun update_first :: "string \<Rightarrow> (CronJob \<Rightarrow> CronJob) \<Rightarrow> CronJob list \<Rightarrow> CronJob list" where
  "update_first jobID f [] = []"
| "update_first jobID f (job # jobs) =
     (if JobID job = jobID then f job # jobs else job # update_first jobID f jobs)"

definition removeJobUnsafe :: "bool \<Rightarrow> CronService \<Rightarrow> string \<Rightarrow> CronService \<times> bool" where
  "removeJobUnsafe io_ok cs jobID =
     (let jobs = filter (\<lambda>job. JobID job \<noteq> jobID) (Jobs cs);
          cs1 = cs\<lparr>Jobs := jobs\<rparr>;
          removed = (length jobs < length (Jobs cs))
      in (if removed then fst (saveStoreUnsafe io_ok cs1) else cs1, removed))"

text \<open>The state a run leaves in its job before the next run is computed.\<close>

definition record_run :: "int \<Rightarrow> int \<Rightarrow> string option \<Rightarrow> CronJob \<Rightarrow> CronJob" where
  "record_run startTime now err job =
     job\<lparr>UpdatedAtMS := now,
        State := (State job)\<lparr>LastRunAtMS := Some startTime,
          LastStatus := (case err of Some _ \<Rightarrow> ''error'' | None \<Rightarrow> ''ok''),
          LastError := (case err of Some e \<Rightarrow> e | None \<Rightarrow> [])\<rparr>\<rparr>"

definition exec_finish :: "(string \<Rightarrow> int \<Rightarrow> int option) \<Rightarrow> bool \<Rightarrow> int \<Rightarrow> int \<Rightarrow> string option \<Rightarrow>
    CronService \<Rightarrow> string \<Rightarrow> CronService" where
  "exec_finish next_tick io_ok startTime now err cs jobID =
     (case find_job cs jobID of
        None \<Rightarrow> cs
      | Some job \<Rightarrow>
          let cs1 = cs\<lparr>Jobs := update_first jobID (record_run startTime now err) (Jobs cs)\<rparr>;
              cs2 =
                (if SchedKind (Schedule job) = ''at'' then
                   (if DeleteAfterRun job then fst (removeJobUnsafe io_ok cs1 jobID)
                    else cs1\<lparr>Jobs := update_first jobID
                      (\<lambda>j. set_next None (j\<lparr>Enabled := False\<rparr>)) (Jobs cs1)\<rparr>)
                 else cs1\<lparr>Jobs := update_first jobID
                   (set_next (computeNextRun next_tick (Schedule job) now)) (Jobs cs1)\<rparr>)
          in fst (saveStoreUnsafe io_ok cs2))"

text \<open>\<open>executeJobByID\<close> when nothing else touches the service while the handler runs.\<close>

definition executeJobByID :: "(string \<Rightarrow> int \<Rightarrow> int option) \<Rightarrow> bool \<Rightarrow> int \<Rightarrow> int \<Rightarrow>
    (CronJob \<Rightarrow> string option) \<Rightarrow> CronService \<Rightarrow> string \<Rightarrow> CronService" where
  "executeJobByID next_tick io_ok startTime now onJob cs jobID =
     (case exec_lookup cs jobID of
        None \<Rightarrow> cs
      | Some job \<Rightarrow> exec_finish next_tick io_ok startTime now (onJob job) cs jobID)"

definition new_job :: "(string \<Rightarrow> int \<Rightarrow> int option) \<Rightarrow> int \<Rightarrow> string \<Rightarrow> string \<Rightarrow> CronSchedule \<Rightarrow>
    string \<Rightarrow> bool \<Rightarrow> string \<Rightarrow> string \<Rightarrow> CronJob" where
  "new_job next_tick now jobID name schedule message deliver channel to =
     \<lparr>JobID = jobID, JobName = name, Enabled = True, Schedule = schedule,
      Payload = \<lparr>PayloadKind = ''agent_turn'', PayloadMessage = message, Command = [],
        Deliver = deliver, PayloadChannel = channel, To = to\<rparr>,
      State = \<lparr>NextRunAtMS = computeNextRun next_tick schedule now, LastRunAtMS = None,
        LastStatus = [], LastError = []\<rparr>,
      CreatedAtMS = now, UpdatedAtMS = now, DeleteAfterRun = (SchedKind schedule = ''at'')\<rparr>"

text \<open>The boolean says whether the loop is notified.\<close>

definition AddJob :: "bool \<Rightarrow> CronService \<Rightarrow> CronJob \<Rightarrow> CronService \<times> (cron_error + CronJob) \<times> bool" where
  "AddJob io_ok cs job =
     (case saveStoreUnsafe io_ok (cs\<lparr>Jobs := Jobs cs @ [job]\<rparr>) of
        (cs1, Inl e) \<Rightarrow> (cs1, Inl e, False)
      | (cs1, Inr _) \<Rightarrow> (cs1, Inr job, True))"

definition UpdateJob :: "bool \<Rightarrow> int \<Rightarrow> CronService \<Rightarrow> CronJob \<Rightarrow> CronService \<times> (cron_error + unit) \<times> bool" where
  "UpdateJob io_ok now cs job =
     (case find_job cs (JobID job) of
        None \<Rightarrow> (cs, Inl JobNotFound, False)
      | Some _ \<Rightarrow>
          (case saveStoreUnsafe io_ok
             (cs\<lparr>Jobs := update_first (JobID job) (\<lambda>_. job\<lparr>UpdatedAtMS := now\<rparr>) (Jobs cs)\<rparr>) of
             (cs1, r) \<Rightarrow> (cs1, r, True)))"

definition RemoveJob :: "bool \<Rightarrow> CronService \<Rightarrow> string \<Rightarrow> CronService \<times> bool" where
  "RemoveJob io_ok cs jobID = removeJobUnsafe io_ok cs jobID"

definition enable :: "(string \<Rightarrow> int \<Rightarrow> int option) \<Rightarrow> int \<Rightarrow> bool \<Rightarrow> CronJob \<Rightarrow> CronJob" where
  "enable next_tick now enabled job =
     set_next (if enabled then computeNextRun next_tick (Schedule job) now else None)
       (job\<lparr>Enabled := enabled, UpdatedAtMS := now\<rparr>)"

definition EnableJob :: "(string \<Rightarrow> int \<Rightarrow> int option) \<Rightarrow> bool \<Rightarrow> int \<Rightarrow> CronService \<Rightarrow> string \<Rightarrow> bool \<Rightarrow>
    CronService \<times> CronJob option" where
  "EnableJob next_tick io_ok now cs jobID enabled =
     (case find_job cs jobID of
        None \<Rightarrow> (cs, None)
      | Some job \<Rightarrow>
          (fst (saveStoreUnsafe io_ok
             (cs\<lparr>Jobs := update_first jobID (enable next_tick now enabled) (Jobs cs)\<rparr>)),
           Some (enable next_tick now enabled job)))"

definition ListJobs :: "CronService \<Rightarrow> bool \<Rightarrow> CronJob list" where
  "ListJobs cs includeDisabled = (if includeDisabled then Jobs cs else filter Enabled (Jobs cs))"

section \<open>The loop\<close>

definition hourMS :: int where "hourMS = 3600000"

definition loop_deadline :: "int option \<Rightarrow> int \<Rightarrow> int" where
  "loop_deadline nextWake now =
     (case nextWake of
        None \<Rightarrow> now + hourMS
      | Some w \<Rightarrow> let diff = wrap64 (w - now) in if diff \<le> 0 then now else now + diff)"

text \<open>The loop is before the read of the next wake time, has armed its timer, waits in \<open>select\<close>, or
  runs the jobs that were due.\<close>

datatype loop_pc = LoopTop | LoopArmed int | LoopWaiting int | LoopRunning "string list" | LoopExit

record loop_state =
  svc :: CronService
  pc :: loop_pc
  clock :: int

text \<open>\<open>notify\<close>: the channel has no buffer, so only a loop that waits receives the wake-up.\<close>

definition notified :: "loop_pc \<Rightarrow> loop_pc" where
  "notified p = (case p of LoopWaiting _ \<Rightarrow> LoopTop | _ \<Rightarrow> p)"

inductive cron_step :: "(string \<Rightarrow> int \<Rightarrow> int option) \<Rightarrow> loop_state \<Rightarrow> loop_state \<Rightarrow> bool"
  for next_tick where
  arm: "pc s = LoopTop \<Longrightarrow>
    cron_step next_tick s (s\<lparr>pc := LoopArmed (loop_deadline (getNextWakeMS (svc s)) (clock s))\<rparr>)"
| waits: "pc s = LoopArmed d \<Longrightarrow> cron_step next_tick s (s\<lparr>pc := LoopWaiting d\<rparr>)"
| fires: "pc s = LoopWaiting d \<Longrightarrow> d \<le> clock s \<Longrightarrow> checkJobs io_ok (clock s) (svc s) = (svc', due) \<Longrightarrow>
    cron_step next_tick s (s\<lparr>svc := svc', pc := LoopRunning due\<rparr>)"
| runs_job: "pc s = LoopRunning (j # js) \<Longrightarrow> t0 \<le> clock s \<Longrightarrow>
    cron_step next_tick s
      (s\<lparr>svc := exec_finish next_tick io_ok t0 (clock s) err (svc s) j, pc := LoopRunning js\<rparr>)"
| finished: "pc s = LoopRunning [] \<Longrightarrow> cron_step next_tick s (s\<lparr>pc := LoopTop\<rparr>)"
| added: "AddJob io_ok (svc s) (new_job next_tick (clock s) jobID name sched msg deliver ch to) = (svc', r, n) \<Longrightarrow>
    cron_step next_tick s (s\<lparr>svc := svc', pc := (if n then notified (pc s) else pc s)\<rparr>)"
| updated: "UpdateJob io_ok (clock s) (svc s) job = (svc', r, n) \<Longrightarrow>
    cron_step next_tick s (s\<lparr>svc := svc', pc := (if n then notified (pc s) else pc s)\<rparr>)"
| removed: "RemoveJob io_ok (svc s) jobID = (svc', b) \<Longrightarrow>
    cron_step next_tick s (s\<lparr>svc := svc', pc := notified (pc s)\<rparr>)"
| enabled: "EnableJob next_tick io_ok (clock s) (svc s) jobID b = (svc', r) \<Longrightarrow>
    cron_step next_tick s (s\<lparr>svc := svc', pc := (if r = None then pc s else notified (pc s))\<rparr>)"
| stopped: "cron_step next_tick s (s\<lparr>svc := Stop (svc s)\<rparr>)"
| exits: "pc s = LoopWaiting d \<Longrightarrow> \<not> running (svc s) \<Longrightarrow> cron_step next_tick s (s\<lparr>pc := LoopExit\<rparr>)"
| tick: "clock s \<le> t \<Longrightarrow> cron_step next_tick s (s\<lparr>clock := t\<rparr>)"

inductive cron_reach :: "(string \<Rightarrow> int \<Rightarrow> int option) \<Rightarrow> loop_state \<Rightarrow> loop_state \<Rightarrow> bool"
  for next_tick where
  reach_refl: "cron_reach next_tick s s"
| reach_step: "cron_reach next_tick s t \<Longrightarrow> cron_step next_tick t u \<Longrightarrow> cron_reach next_tick s u"

inductive_cases cron_stepE: "cron_step next_tick s t"

section \<open>Lookups and updates\<close>

lemma Jobs_save [simp]: "Jobs (fst (saveStoreUnsafe io_ok cs)) = Jobs cs"
  and running_save [simp]: "running (fst (saveStoreUnsafe io_ok cs)) = running cs"
  by (simp_all add: saveStoreUnsafe_def)

lemma find_job_save [simp]: "find_job (fst (saveStoreUnsafe io_ok cs)) = find_job cs"
  by (rule ext) (simp add: find_job_def)

definition keeps_id :: "(CronJob \<Rightarrow> CronJob) \<Rightarrow> bool" where
  "keeps_id f \<longleftrightarrow> (\<forall>j. JobID (f j) = JobID j)"

lemma keeps_id_intros [simp, intro]:
  "keeps_id (record_run t0 now err)" "keeps_id (set_next t)"
  "keeps_id (\<lambda>j. set_next t (j\<lparr>Enabled := b\<rparr>))" "keeps_id (enable next_tick now b)"
  by (simp_all add: keeps_id_def record_run_def set_next_def enable_def)

lemma find_update_first:
  "keeps_id f \<Longrightarrow> find (\<lambda>j. JobID j = i) (update_first k f jobs) =
     (if i = k then map_option f (find (\<lambda>j. JobID j = i) jobs) else find (\<lambda>j. JobID j = i) jobs)"
  by (induction jobs) (auto simp: keeps_id_def)

lemma find_job_update:
  assumes "keeps_id f"
  shows "find_job (cs\<lparr>Jobs := update_first k f (Jobs cs)\<rparr>) i =
    (if i = k then map_option f (find_job cs i) else find_job cs i)"
  using find_update_first [OF assms] by (simp add: find_job_def)

lemma find_job_remove:
  "find_job (fst (removeJobUnsafe io_ok cs k)) i = (if i = k then None else find_job cs i)"
proof -
  have "find (\<lambda>j. JobID j = i) (filter (\<lambda>j. JobID j \<noteq> k) jobs) =
      (if i = k then None else find (\<lambda>j. JobID j = i) jobs)" for jobs
    by (induction jobs) auto
  from this [of "Jobs cs"] show ?thesis
    by (cases "i = k") (simp_all add: removeJobUnsafe_def find_job_def Let_def)
qed

lemma find_job_finish:
  assumes "find_job cs jobID = Some job"
  shows "find_job (exec_finish next_tick io_ok t0 now err cs jobID) i =
    (if i \<noteq> jobID then find_job cs i
     else if SchedKind (Schedule job) = ''at'' then
       (if DeleteAfterRun job then None
        else Some (set_next None ((record_run t0 now err job)\<lparr>Enabled := False\<rparr>)))
     else Some (set_next (computeNextRun next_tick (Schedule job) now) (record_run t0 now err job)))"
proof -
  let ?cs1 = "cs\<lparr>Jobs := update_first jobID (record_run t0 now err) (Jobs cs)\<rparr>"
  note find = find_job_update [where f = "record_run t0 now err" and cs = cs and k = jobID and i = i]
    find_job_remove [where cs = ?cs1 and k = jobID and i = i and io_ok = io_ok]
    find_job_update [where f = "\<lambda>j. set_next None (j\<lparr>Enabled := False\<rparr>)" and cs = ?cs1 and k = jobID and i = i]
    find_job_update [where f = "set_next (computeNextRun next_tick (Schedule job) now)"
      and cs = ?cs1 and k = jobID and i = i]
  show ?thesis
    using assms find by (cases "i = jobID") (simp_all add: exec_finish_def Let_def)
qed

text \<open>After a run its outcome is recorded and the job is where its schedule wants it: a one-shot job is
  deleted, or disabled when it is to be kept, and has no next run; any other job runs next at the
  time computed from the end of the run. No other job is touched.\<close>

theorem exec_finish_outcome:
  assumes job: "find_job cs jobID = Some job"
    and cs': "cs' = exec_finish next_tick io_ok t0 now err cs jobID"
  shows "(case find_job cs' jobID of
      None \<Rightarrow> SchedKind (Schedule job) = ''at'' \<and> DeleteAfterRun job
    | Some job' \<Rightarrow>
        \<not> (SchedKind (Schedule job) = ''at'' \<and> DeleteAfterRun job) \<and>
        LastRunAtMS (State job') = Some t0 \<and>
        LastStatus (State job') = (if err = None then ''ok'' else ''error'') \<and>
        (if SchedKind (Schedule job) = ''at''
         then \<not> Enabled job' \<and> NextRunAtMS (State job') = None
         else Enabled job' = Enabled job \<and>
           NextRunAtMS (State job') = computeNextRun next_tick (Schedule job) now)) \<and>
    (\<forall>i. i \<noteq> jobID \<longrightarrow> find_job cs' i = find_job cs i)"
  using job
  unfolding cs' find_job_finish [OF job]
  by (auto simp: set_next_def record_run_def split: option.splits)

section \<open>Due jobs are claimed once\<close>

lemma is_due_set_next_None [simp]: "\<not> is_due now (set_next None job)"
  by (simp add: is_due_def set_next_def)

lemma checkJobs_jobs:
  assumes "running cs" and "distinct (map JobID (Jobs cs))"
  shows "Jobs (fst (checkJobs io_ok now cs)) =
    map (\<lambda>job. if is_due now job then set_next None job else job) (Jobs cs)"
proof -
  have "JobID job \<in> JobID ` set (filter (is_due now) (Jobs cs)) \<longleftrightarrow> is_due now job"
    if "job \<in> set (Jobs cs)" for job
    using assms(2) that by (auto simp: distinct_map dest: inj_onD)
  with assms(1) show ?thesis by (auto simp: checkJobs_def Let_def)
qed

text \<open>C17. A check of the jobs claims exactly the enabled jobs that have a next run which is not after the moment of the check,
  each once, in the order of the list, and takes their next run away; a job that is disabled, has no next run or a later one is as
  it was, and a second check at the same time finds nothing to do. This is for a service that is running (one that is not does
  nothing) and for jobs with distinct identifiers.\<close>

theorem checkJobs_claims_due:
  assumes "running cs" and "distinct (map JobID (Jobs cs))"
    and "checkJobs io_ok now cs = (cs', due)"
  shows "distinct due \<and>
    due = map JobID (filter (\<lambda>job. Enabled job \<and> (\<exists>t \<le> now. NextRunAtMS (State job) = Some t)) (Jobs cs)) \<and>
    Jobs cs' = map (\<lambda>job. if Enabled job \<and> (\<exists>t \<le> now. NextRunAtMS (State job) = Some t) then set_next None job else job) (Jobs cs) \<and>
    snd (checkJobs io_ok' now cs') = []"
proof -
  have is_due: "is_due now = (\<lambda>job. Enabled job \<and> (\<exists>t \<le> now. NextRunAtMS (State job) = Some t))"
    by (rule ext) (auto simp: is_due_def split: option.splits)
  have jobs: "Jobs cs' = map (\<lambda>job. if is_due now job then set_next None job else job) (Jobs cs)"
    using checkJobs_jobs [OF assms(1,2), of io_ok now] assms(3) by simp
  have due: "due = map JobID (filter (is_due now) (Jobs cs))"
    using assms by (simp add: checkJobs_def Let_def)
  have "filter (is_due now) (Jobs cs') = []"
    by (auto simp: jobs filter_empty_conv)
  then have "snd (checkJobs io_ok' now cs') = []" by (simp add: checkJobs_def Let_def)
  with jobs due assms(2) show ?thesis by (simp add: distinct_map_filter is_due)
qed

section \<open>The next wake-up\<close>

lemma foldl_earlier:
  "case foldl earlier best jobs of
     None \<Rightarrow> best = None \<and> (\<forall>job \<in> set jobs. wake_of job = None)
   | Some t \<Rightarrow> (best = Some t \<or> (\<exists>job \<in> set jobs. wake_of job = Some t)) \<and>
       (\<forall>u \<in> set_option best. t \<le> u) \<and> (\<forall>job \<in> set jobs. \<forall>u \<in> set_option (wake_of job). t \<le> u)"
proof (induction jobs arbitrary: best)
  case (Cons job jobs)
  have step: "case earlier best job of
      None \<Rightarrow> best = None \<and> wake_of job = None
    | Some t \<Rightarrow> (best = Some t \<or> wake_of job = Some t) \<and>
        (\<forall>u \<in> set_option best. t \<le> u) \<and> (\<forall>u \<in> set_option (wake_of job). t \<le> u)"
    by (auto simp: earlier_def split: option.splits)
  show ?case
  proof (cases "foldl earlier (earlier best job) jobs")
    case None
    with Cons [of "earlier best job"] step show ?thesis by simp
  next
    case (Some t)
    with Cons [of "earlier best job"] step show ?thesis
      by (cases "earlier best job") fastforce+
  qed
qed (simp split: option.splits)

lemma getNextWake_None: "getNextWakeMS cs = None \<Longrightarrow> job \<in> set (Jobs cs) \<Longrightarrow> wake_of job = None"
  and getNextWake_le: "getNextWakeMS cs = Some t \<Longrightarrow> job \<in> set (Jobs cs) \<Longrightarrow> wake_of job = Some u \<Longrightarrow> t \<le> u"
  and getNextWake_in: "getNextWakeMS cs = Some t \<Longrightarrow> \<exists>job \<in> set (Jobs cs). wake_of job = Some t"
  using foldl_earlier [of None "Jobs cs"] by (auto simp: getNextWakeMS_def)

lemma wrap64_id: "- (2 ^ 63) \<le> x \<Longrightarrow> x < 2 ^ 63 \<Longrightarrow> wrap64 x = x"
  by (simp add: wrap64_def)

text \<open>The timer that the loop arms never goes off later than the next run of any enabled job (or now,
  when that is past), as long as the times are ordinary 64-bit clock readings.\<close>

theorem loop_deadline_covers:
  assumes "job \<in> set (Jobs cs)" and "wake_of job = Some u"
    and "0 \<le> now" and "\<forall>j \<in> set (Jobs cs). \<forall>w \<in> set_option (wake_of j). 0 \<le> w"
    and "now < 2 ^ 62" and "u < 2 ^ 62"
  shows "loop_deadline (getNextWakeMS cs) now \<le> max now u"
proof (cases "getNextWakeMS cs")
  case None
  with getNextWake_None assms(1,2) show ?thesis by fastforce
next
  case (Some t)
  have "t \<le> u" by (rule getNextWake_le [OF Some assms(1,2)])
  moreover have "0 \<le> t" using getNextWake_in [OF Some] assms(4) by fastforce
  ultimately have "wrap64 (t - now) = t - now"
    using assms(3,5,6) by (intro wrap64_id) simp_all
  with \<open>t \<le> u\<close> Some show ?thesis by (auto simp: loop_deadline_def Let_def)
qed

definition idle_loop :: loop_state where
  "idle_loop = \<lparr>svc = \<lparr>Jobs = [], store_file = NoJobFile, running = True\<rparr>, pc = LoopTop, clock = 0\<rparr>"

text \<open>Lost wake-up: a job that is added after the loop has read the next wake time and before it waits
  finds nobody to notify. The loop then sleeps for its full hour although the job is due after a
  second.\<close>

theorem cron_lost_wakeup:
  "\<exists>s. cron_reach next_tick idle_loop s \<and> pc s = LoopWaiting hourMS \<and> clock s = hourMS - 1 \<and>
     running (svc s) \<and> getNextWakeMS (svc s) = Some 1000"
proof -
  define sched where "sched = \<lparr>SchedKind = ''every'', AtMS = None, EveryMS = Some 1000, Expr = [], TZ = []\<rparr>"
  define job where "job = new_job next_tick 0 ''j'' ''n'' sched [] False [] []"
  have nxt: "NextRunAtMS (State job) = Some 1000" "Enabled job"
    by (simp_all add: job_def new_job_def computeNextRun_def sched_def wrap64_def)
  define s1 where "s1 = idle_loop\<lparr>pc := LoopArmed hourMS\<rparr>"
  define s2 where "s2 = s1\<lparr>svc := \<lparr>Jobs = [job], store_file = JobFile [job], running = True\<rparr>\<rparr>"
  define s3 where "s3 = s2\<lparr>pc := LoopWaiting hourMS\<rparr>"
  define s4 where "s4 = s3\<lparr>clock := hourMS - 1\<rparr>"
  have "cron_step next_tick idle_loop s1"
    using arm [of idle_loop next_tick]
    by (simp add: s1_def idle_loop_def getNextWakeMS_def loop_deadline_def)
  moreover have "cron_step next_tick s1 s2"
    using added [of True s1 next_tick "''j''" "''n''" sched "[]" False "[]" "[]"]
    by (simp add: s2_def s1_def idle_loop_def AddJob_def saveStoreUnsafe_def notified_def job_def)
  moreover have "cron_step next_tick s2 s3"
    using waits [of s2 hourMS next_tick] by (simp add: s3_def s2_def s1_def)
  moreover have "cron_step next_tick s3 s4"
    using tick [of s3 "hourMS - 1" next_tick] by (simp add: s4_def s3_def s2_def s1_def idle_loop_def hourMS_def)
  ultimately have "cron_reach next_tick idle_loop s4"
    by (meson reach_refl reach_step)
  moreover have "getNextWakeMS (svc s4) = Some 1000"
    using nxt by (simp add: s4_def s3_def s2_def getNextWakeMS_def earlier_def wake_of_def)
  ultimately show ?thesis
    by (intro exI [of _ s4]) (simp add: s4_def s3_def s2_def)
qed

text \<open>A one-shot job whose time passed while the service was down is never run: after the start it is
  still enabled, has no next run, and no later computation gives it one.\<close>

theorem missed_at_never_runs:
  assumes "\<not> running cs" and "store_file cs = JobFile jobs" and "job \<in> set jobs"
    and "Enabled job" and "SchedKind (Schedule job) = ''at''" and "AtMS (Schedule job) = Some t" and "t \<le> now"
    and "Start next_tick io_ok now cs = (cs', Inr ())"
  shows "\<exists>job' \<in> set (Jobs cs'). JobID job' = JobID job \<and> Enabled job' \<and>
    (\<forall>now'. \<not> is_due now' job') \<and>
    (\<forall>now'. now \<le> now' \<longrightarrow> computeNextRun next_tick (Schedule job') now' = None)"
proof -
  from assms(1,2,8) have jobs: "Jobs cs' = map (\<lambda>job. if Enabled job
      then set_next (computeNextRun next_tick (Schedule job) now) job else job) jobs"
    by (auto simp: Start_def loadStore_def recomputeNextRuns_def saveStoreUnsafe_def split: if_splits)
  have none: "computeNextRun next_tick (Schedule job) now' = None" if "now \<le> now'" for now'
    using assms(5-7) that by (simp add: computeNextRun_def)
  let ?job = "set_next (computeNextRun next_tick (Schedule job) now) job"
  have "?job \<in> set (Jobs cs')" using assms(3,4) by (force simp: jobs)
  moreover have "\<not> is_due now' ?job" for now' by (simp add: none)
  ultimately show ?thesis using none assms(4) by (intro bexI [of _ ?job]) (simp_all add: set_next_def)
qed

section \<open>A concrete service\<close>

definition demo_job :: "string \<Rightarrow> CronJob" where
  "demo_job kind = new_job (\<lambda>_ _. None) 0 ''j'' ''n''
     \<lparr>SchedKind = kind, AtMS = Some 5, EveryMS = Some 7, Expr = [], TZ = []\<rparr> ''hi'' True ''cli'' ''me''"

definition demo_service :: "string \<Rightarrow> CronService" where
  "demo_service kind =
     \<lparr>Jobs = [demo_job kind], store_file = JobFile [demo_job kind], running = True\<rparr>"

theorem exec_finish_outcome_witness:
  "find_job (exec_finish (\<lambda>_ _. None) True 5 6 None (demo_service ''at'') ''j'') ''j'' = None"
proof -
  have job: "find_job (demo_service ''at'') ''j'' = Some (demo_job ''at'')"
    "SchedKind (Schedule (demo_job ''at'')) = ''at''" "DeleteAfterRun (demo_job ''at'')"
    by (simp_all add: find_job_def demo_service_def demo_job_def new_job_def)
  from exec_finish_outcome [OF job(1) refl, where next_tick = "\<lambda>_ _. None" and io_ok = True
      and ?t0.0 = 5 and now = 6 and err = None] job(2,3)
  show ?thesis by (auto split: option.splits)
qed

theorem checkJobs_claims_due_witness:
  "\<exists>cs'. checkJobs True 5 (demo_service ''at'') = (cs', [''j'']) \<and> snd (checkJobs True 5 cs') = []"
proof -
  have due: "\<exists>cs'. checkJobs True 5 (demo_service ''at'') = (cs', [''j''])"
    by (simp add: checkJobs_def demo_service_def demo_job_def new_job_def is_due_def computeNextRun_def)
  then obtain cs' where step: "checkJobs True 5 (demo_service ''at'') = (cs', [''j''])" by blast
  from checkJobs_claims_due [OF _ _ step] step show ?thesis
    by (auto simp: demo_service_def)
qed

theorem loop_deadline_covers_witness:
  "loop_deadline (getNextWakeMS (demo_service ''every'')) 3 \<le> max 3 7"
  by (rule loop_deadline_covers [where job = "demo_job ''every''"])
    (simp_all add: demo_service_def demo_job_def new_job_def wake_of_def computeNextRun_def wrap64_def)

theorem missed_at_never_runs_witness:
  "\<exists>cs'. Start (\<lambda>_ _. None) True 9 ((demo_service ''at'')\<lparr>running := False\<rparr>) = (cs', Inr ()) \<and>
     (\<exists>job' \<in> set (Jobs cs'). Enabled job' \<and> (\<forall>now'. \<not> is_due now' job'))"
proof -
  let ?cs = "(demo_service ''at'')\<lparr>running := False\<rparr>"
  obtain cs' where start: "Start (\<lambda>_ _. None) True 9 ?cs = (cs', Inr ())"
    by (simp add: Start_def demo_service_def loadStore_def saveStoreUnsafe_def)
  have job: "Enabled (demo_job ''at'')" "SchedKind (Schedule (demo_job ''at'')) = ''at''"
    "AtMS (Schedule (demo_job ''at'')) = Some 5"
    by (simp_all add: demo_job_def new_job_def)
  have "\<not> running ?cs" "store_file ?cs = JobFile [demo_job ''at'']"
    by (simp_all add: demo_service_def)
  from missed_at_never_runs [OF this _ job _ start] start show ?thesis by auto
qed

end
