(* ===== verification/Media.thy ===== *)
theory Media
  imports Prelude
begin

text \<open>
  Media files and their scopes: \<open>pkg/media/store.go\<close>. The three maps of \<open>FileMediaStore\<close> are
  association lists, the set of references of a scope is a list. An operation under the lock is one
  step; \<open>ReleaseAll\<close> and \<open>CleanExpired\<close> also give the paths that they then remove from the disk.
  Whether a path exists, a fresh reference and the clock are arguments. The background goroutine
  only calls \<open>CleanExpired\<close>.
\<close>

record MediaMeta =
  Filename :: string
  ContentType :: string
  Source :: string

record mediaEntry =
  path :: string
  meta :: MediaMeta
  storedAt :: instant

record FileMediaStore =
  refs :: "(string \<times> mediaEntry) list"
  scopeToRefs :: "(string \<times> string list) list"
  refToScope :: "(string \<times> string) list"
  MaxAge :: duration

datatype media_error = FileMissing | UnknownRef

definition NewFileMediaStoreWithCleanup :: "duration \<Rightarrow> FileMediaStore" where
  "NewFileMediaStoreWithCleanup maxAge =
     \<lparr>refs = [], scopeToRefs = [], refToScope = [], MaxAge = maxAge\<rparr>"

definition Store :: "bool \<Rightarrow> string \<Rightarrow> instant \<Rightarrow> FileMediaStore \<Rightarrow> string \<Rightarrow> MediaMeta \<Rightarrow> string \<Rightarrow>
    FileMediaStore \<times> (media_error + string)" where
  "Store exists ref now s localPath m scope =
     (if \<not> exists then (s, Inl FileMissing)
      else
        let old = (case map_of (scopeToRefs s) scope of None \<Rightarrow> [] | Some rs \<Rightarrow> rs)
        in (s\<lparr>refs := assoc_put ref \<lparr>path = localPath, meta = m, storedAt = now\<rparr> (refs s),
              scopeToRefs := assoc_put scope (List.insert ref old) (scopeToRefs s),
              refToScope := assoc_put ref scope (refToScope s)\<rparr>, Inr ref))"

definition Resolve :: "FileMediaStore \<Rightarrow> string \<Rightarrow> media_error + string" where
  "Resolve s ref = (case map_of (refs s) ref of None \<Rightarrow> Inl UnknownRef | Some e \<Rightarrow> Inr (path e))"

definition ResolveWithMeta :: "FileMediaStore \<Rightarrow> string \<Rightarrow> media_error + string \<times> MediaMeta" where
  "ResolveWithMeta s ref =
     (case map_of (refs s) ref of None \<Rightarrow> Inl UnknownRef | Some e \<Rightarrow> Inr (path e, meta e))"

definition ReleaseAll :: "FileMediaStore \<Rightarrow> string \<Rightarrow> FileMediaStore \<times> string list" where
  "ReleaseAll s scope =
     (case map_of (scopeToRefs s) scope of
        None \<Rightarrow> (s, [])
      | Some rs \<Rightarrow>
          (s\<lparr>refs := fold assoc_del rs (refs s),
             refToScope := fold assoc_del rs (refToScope s),
             scopeToRefs := assoc_del scope (scopeToRefs s)\<rparr>,
           map path (List.map_filter (map_of (refs s)) rs)))"

text \<open>Takes one expired reference out of the three maps.\<close>

definition forget :: "string \<Rightarrow> FileMediaStore \<Rightarrow> FileMediaStore" where
  "forget ref s =
     (let scopes = (case map_of (refToScope s) ref of
             None \<Rightarrow> scopeToRefs s
           | Some scope \<Rightarrow>
               (case map_of (scopeToRefs s) scope of
                  None \<Rightarrow> scopeToRefs s
                | Some rs \<Rightarrow>
                    let rs' = filter (\<lambda>r. r \<noteq> ref) rs in
                    if rs' = [] then assoc_del scope (scopeToRefs s)
                    else assoc_put scope rs' (scopeToRefs s)))
      in s\<lparr>scopeToRefs := scopes, refs := assoc_del ref (refs s),
           refToScope := assoc_del ref (refToScope s)\<rparr>)"

definition expired :: "instant \<Rightarrow> FileMediaStore \<Rightarrow> mediaEntry \<Rightarrow> bool" where
  "expired now s e \<longleftrightarrow> storedAt e < now - MaxAge s"

definition CleanExpired :: "instant \<Rightarrow> FileMediaStore \<Rightarrow> FileMediaStore \<times> string list" where
  "CleanExpired now s =
     (if MaxAge s \<le> 0 then (s, [])
      else
        let old = filter (\<lambda>(ref, e). expired now s e) (refs s)
        in (fold (\<lambda>(ref, e). forget ref) old s, map (path \<circ> snd) old))"

section \<open>The three maps agree\<close>

definition scope_refs :: "FileMediaStore \<Rightarrow> string \<Rightarrow> string set" where
  "scope_refs s scope = (case map_of (scopeToRefs s) scope of None \<Rightarrow> {} | Some rs \<Rightarrow> set rs)"

definition media_inv :: "FileMediaStore \<Rightarrow> bool" where
  "media_inv s \<longleftrightarrow>
     (\<forall>ref scope. map_of (refToScope s) ref = Some scope \<longleftrightarrow> ref \<in> scope_refs s scope) \<and>
     (\<forall>ref. map_of (refs s) ref = None \<longleftrightarrow> map_of (refToScope s) ref = None) \<and>
     (\<forall>scope. map_of (scopeToRefs s) scope \<noteq> Some []) \<and> distinct (map fst (refs s))"

lemma media_inv_new: "media_inv (NewFileMediaStoreWithCleanup a)"
  by (simp add: media_inv_def NewFileMediaStoreWithCleanup_def scope_refs_def)

lemma map_of_fold_del: "map_of (fold assoc_del ks m) i = (if i \<in> set ks then None else map_of m i)"
  by (induction ks arbitrary: m) simp_all

lemma keys_fold_del: "distinct (map fst m) \<Longrightarrow> distinct (map fst (fold assoc_del ks m))"
  by (induction ks arbitrary: m) simp_all

lemma media_inv_Store:
  assumes inv: "media_inv s" and fresh: "map_of (refs s) ref = None"
  shows "media_inv (fst (Store ex ref now s p m scope))"
proof (cases ex)
  case True
  let ?s = "fst (Store ex ref now s p m scope)"
  have none: "map_of (refToScope s) ref = None" using inv fresh by (simp add: media_inv_def)
  have refs: "scope_refs ?s sc = (if sc = scope then insert ref (scope_refs s scope) else scope_refs s sc)" for sc
    using True by (auto simp: Store_def Let_def scope_refs_def split: option.splits)
  have "ref \<notin> scope_refs s sc" for sc
    using none inv by (metis media_inv_def option.distinct(1))
  then have "map_of (refToScope ?s) r = Some sc \<longleftrightarrow> r \<in> scope_refs ?s sc" for r sc
    using inv True unfolding refs by (auto simp: Store_def Let_def media_inv_def)
  moreover have "map_of (scopeToRefs ?s) sc \<noteq> Some []" for sc
    using inv True by (auto simp: Store_def Let_def media_inv_def List.insert_def split: option.splits)
  ultimately show ?thesis
    using inv True by (simp add: media_inv_def) (simp add: Store_def Let_def)
qed (use inv in \<open>simp add: Store_def\<close>)

lemma set_map_filter: "set (List.map_filter f xs) = {y. \<exists>x \<in> set xs. f x = Some y}"
  by (induction xs) (auto simp: List.map_filter_simps split: option.splits)

lemma Resolve_Inr: "Resolve s ref = Inr p \<longleftrightarrow> (\<exists>e. map_of (refs s) ref = Some e \<and> path e = p)"
  by (simp add: Resolve_def split: option.splits)

text \<open>Releasing a scope forgets exactly its references and deletes exactly their files; every other
  reference resolves as before, and the three maps stay consistent.\<close>

theorem ReleaseAll_exact:
  assumes inv: "media_inv s" and rel: "ReleaseAll s scope = (s', deleted)"
  shows "media_inv s' \<and>
    (\<forall>ref. Resolve s' ref = (if ref \<in> scope_refs s scope then Inl UnknownRef else Resolve s ref)) \<and>
    set deleted = {p. \<exists>ref \<in> scope_refs s scope. Resolve s ref = Inr p}"
proof (cases "map_of (scopeToRefs s) scope")
  case None
  with rel inv show ?thesis by (simp add: ReleaseAll_def scope_refs_def)
next
  case (Some rs)
  have s': "s' = s\<lparr>refs := fold assoc_del rs (refs s),
      refToScope := fold assoc_del rs (refToScope s), scopeToRefs := assoc_del scope (scopeToRefs s)\<rparr>"
    and del: "deleted = map path (List.map_filter (map_of (refs s)) rs)"
    using arg_cong [OF rel [symmetric], of fst] arg_cong [OF rel [symmetric], of snd]
    unfolding ReleaseAll_def Some option.case fst_conv snd_conv by - assumption+
  have rs: "scope_refs s scope = set rs" using Some by (simp add: scope_refs_def)
  have refs: "scope_refs s' sc = (if sc = scope then {} else scope_refs s sc)" for sc
    by (simp add: s' scope_refs_def)
  have link: "map_of (refToScope s) r = Some sc \<longleftrightarrow> r \<in> scope_refs s sc" for r sc
    using inv by (simp add: media_inv_def)
  have uniq: "r \<in> scope_refs s sc \<Longrightarrow> r \<in> scope_refs s scope \<Longrightarrow> sc = scope" for r sc
    using link [of r sc] link [of r scope] by simp
  have "map_of (refToScope s') r = Some sc \<longleftrightarrow> r \<in> scope_refs s' sc" for r sc
  proof (cases "r \<in> set rs")
    case True
    then have "map_of (refToScope s') r = None" by (simp add: s' map_of_fold_del)
    moreover have "r \<notin> scope_refs s' sc" using True rs uniq [of r sc] refs [of sc] by auto
    ultimately show ?thesis by simp
  next
    case False
    then have "map_of (refToScope s') r = map_of (refToScope s) r" by (simp add: s' map_of_fold_del)
    moreover have "r \<in> scope_refs s' sc \<longleftrightarrow> r \<in> scope_refs s sc" using False rs refs [of sc] by auto
    ultimately show ?thesis by (simp add: link)
  qed
  moreover have "(map_of (refs s') r = None) = (map_of (refToScope s') r = None)" for r
    using inv by (simp add: s' map_of_fold_del media_inv_def)
  moreover have "map_of (scopeToRefs s') sc \<noteq> Some []" for sc
    using inv by (simp add: s' media_inv_def)
  moreover have "distinct (map fst (refs s'))"
    using inv by (simp add: s' keys_fold_del media_inv_def)
  ultimately have "media_inv s'" unfolding media_inv_def by (intro conjI allI)
  moreover have "Resolve s' ref = (if ref \<in> set rs then Inl UnknownRef else Resolve s ref)" for ref
    by (simp add: Resolve_def s' map_of_fold_del)
  moreover have "set deleted = {p. \<exists>ref \<in> set rs. Resolve s ref = Inr p}"
    unfolding del Resolve_Inr set_map set_map_filter by blast
  ultimately show ?thesis unfolding rs by (intro conjI allI)
qed

lemma forget_inv:
  assumes inv: "media_inv s"
  shows "media_inv (forget ref s)"
proof -
  let ?s = "forget ref s"
  have link: "map_of (refToScope s) r = Some sc \<longleftrightarrow> r \<in> scope_refs s sc" for r sc
    using inv by (simp add: media_inv_def)
  have refs: "scope_refs ?s sc = scope_refs s sc - {ref}" for sc
  proof (cases "map_of (refToScope s) ref")
    case None
    have "ref \<notin> scope_refs s sc" using link [of ref sc] None by simp
    moreover have "scope_refs ?s sc = scope_refs s sc" by (simp add: forget_def scope_refs_def None)
    ultimately show ?thesis by simp
  next
    case (Some scope)
    have "ref \<in> scope_refs s scope" using link [of ref scope] Some by simp
    moreover have "sc = scope" if "ref \<in> scope_refs s sc" for sc
      using link [of ref sc] Some that by simp
    moreover note Some
    ultimately have facts: "ref \<in> scope_refs s scope" "\<And>sc. ref \<in> scope_refs s sc \<Longrightarrow> sc = scope"
      "map_of (refToScope s) ref = Some scope" by blast+
    show ?thesis
    proof (cases "sc = scope")
      case True
      with facts(1,3) show ?thesis
        by (auto simp: forget_def scope_refs_def Let_def filter_empty_conv split: option.splits)
    next
      case False
      with facts(2) [of sc] have "ref \<notin> scope_refs s sc" by blast
      moreover have "scope_refs ?s sc = scope_refs s sc"
        using False facts(3) by (auto simp: forget_def scope_refs_def Let_def split: option.splits)
      ultimately show ?thesis by simp
    qed
  qed
  have "map_of (scopeToRefs ?s) sc \<noteq> Some []" for sc
    using inv by (auto simp: forget_def media_inv_def Let_def split: option.splits if_splits)
  moreover have "map_of (refToScope ?s) r = Some sc \<longleftrightarrow> r \<in> scope_refs ?s sc" for r sc
    using link unfolding refs by (auto simp: forget_def)
  ultimately show ?thesis
    using inv by (simp add: media_inv_def) (simp add: forget_def)
qed

lemma forget_refs: "map_of (refs (forget ref s)) r = (if r = ref then None else map_of (refs s) r)"
  and forget_age: "MaxAge (forget ref s) = MaxAge s"
  by (simp_all add: forget_def)

lemma fold_forget:
  "media_inv s \<Longrightarrow> media_inv (fold (\<lambda>(ref, e). forget ref) old s) \<and>
   (\<forall>r. map_of (refs (fold (\<lambda>(ref, e). forget ref) old s)) r =
      (if r \<in> fst ` set old then None else map_of (refs s) r))"
proof (induction old arbitrary: s)
  case (Cons x old)
  obtain ref e where "x = (ref, e)" by (cases x)
  with Cons.IH [OF forget_inv [OF Cons.prems], of ref] show ?case by (simp add: forget_refs)
qed simp

text \<open>The clean-up forgets exactly the entries that are older than the limit and deletes exactly their
  files; everything else resolves as before, and the three maps stay consistent.\<close>

theorem CleanExpired_exact:
  assumes inv: "media_inv s" and age: "0 < MaxAge s" and clean: "CleanExpired now s = (s', deleted)"
  shows "media_inv s' \<and>
    (\<forall>ref. map_of (refs s') ref =
       (case map_of (refs s) ref of
          Some e \<Rightarrow> if storedAt e < now - MaxAge s then None else Some e | None \<Rightarrow> None)) \<and>
    set deleted = {path e |e ref. map_of (refs s) ref = Some e \<and> storedAt e < now - MaxAge s}"
proof -
  let ?old = "filter (\<lambda>(ref, e). expired now s e) (refs s)"
  from age clean have s': "s' = fold (\<lambda>(ref, e). forget ref) ?old s"
    and del: "deleted = map (path \<circ> snd) ?old" by (simp_all add: CleanExpired_def Let_def)
  have dist: "distinct (map fst (refs s))" using inv by (simp add: media_inv_def)
  have ent: "(ref, e) \<in> set (refs s) \<longleftrightarrow> map_of (refs s) ref = Some e" for ref e
    using dist by (simp add: map_of_eq_Some_iff)
  have "ref \<in> fst ` set ?old \<longleftrightarrow> (\<exists>e. map_of (refs s) ref = Some e \<and> storedAt e < now - MaxAge s)" for ref
    using ent by (force simp: expired_def)
  with fold_forget [OF inv, of ?old]
  have "media_inv s'" "map_of (refs s') ref =
       (case map_of (refs s) ref of
          Some e \<Rightarrow> if storedAt e < now - MaxAge s then None else Some e | None \<Rightarrow> None)" for ref
    by (auto simp: s' split: option.splits)
  moreover have "set deleted = {path e |e ref. map_of (refs s) ref = Some e \<and> storedAt e < now - MaxAge s}"
    using ent by (force simp: del expired_def)
  ultimately show ?thesis by blast
qed

section \<open>A concrete store\<close>

definition demo_media :: FileMediaStore where
  "demo_media = fst (Store True ''r'' 0 (NewFileMediaStoreWithCleanup 10) ''/f'' \<lparr>Filename = [],
     ContentType = [], Source = []\<rparr> ''s'')"

lemma demo_media_inv: "media_inv demo_media"
  unfolding demo_media_def by (rule media_inv_Store [OF media_inv_new])
    (simp add: NewFileMediaStoreWithCleanup_def)

lemma demo_media_refs: "map_of (refs demo_media) ''r'' \<noteq> None" "''r'' \<in> scope_refs demo_media ''s''"
    "Resolve demo_media ''r'' = Inr ''/f''" "MaxAge demo_media = 10"
  by (simp_all add: demo_media_def Store_def NewFileMediaStoreWithCleanup_def scope_refs_def
      Resolve_def)

theorem ReleaseAll_exact_witness:
  "\<exists>s' deleted. ReleaseAll demo_media ''s'' = (s', deleted) \<and>
     Resolve s' ''r'' = Inl UnknownRef \<and> ''/f'' \<in> set deleted"
proof -
  obtain s' deleted where rel: "ReleaseAll demo_media ''s'' = (s', deleted)" by fastforce
  from ReleaseAll_exact [OF demo_media_inv rel] rel demo_media_refs show ?thesis by auto
qed

theorem CleanExpired_exact_witness:
  "\<exists>s' deleted. CleanExpired 20 demo_media = (s', deleted) \<and> media_inv s' \<and>
     map_of (refs s') ''r'' = None"
proof -
  obtain s' deleted where clean: "CleanExpired 20 demo_media = (s', deleted)" by fastforce
  have "\<exists>e. map_of (refs demo_media) ''r'' = Some e \<and> storedAt e = 0"
    by (simp add: demo_media_def Store_def NewFileMediaStoreWithCleanup_def)
  with CleanExpired_exact [OF demo_media_inv _ clean] clean demo_media_refs(4) show ?thesis by auto
qed

end
