(* ===== verification/Bus.thy ===== *)
theory Bus
  imports Prelude
begin

text \<open>
  The message bus: \<open>pkg/bus/bus.go\<close>. Publishers and \<open>Close\<close> run concurrently without a common lock,
  so the bus is a step relation whose steps are the atomic operations of the code: the load of
  \<open>closed\<close>, the first \<open>select\<close>, \<open>wg.Add\<close>, the second \<open>select\<close>, and the five parts of \<open>Close\<close>. Any
  number of publishers is at any of these points. A context may be cancelled at any time.

  Sending on a closed channel panics in Go, also as a case of a \<open>select\<close>; the step \<open>send_panic\<close>
  is that case. \<open>sent\<close> and \<open>taken\<close> are histories of the channels; an entry of \<open>taken\<close> says whether
  a consumer took the message or \<open>Close\<close> threw it away.
\<close>

datatype chan = Inbound | Outbound | OutboundMedia | OutboundStatus | OutboundEvents

definition all_chans :: "chan list" where
  "all_chans = [Inbound, Outbound, OutboundMedia, OutboundStatus, OutboundEvents]"

definition defaultBusBufferSize :: nat where "defaultBusBufferSize = 64"

datatype publish_result = Published | ErrBusClosed | CtxError | SendPanic

text \<open>Where a call of \<open>publish\<close> is.\<close>

datatype 'm pub_pc =
  PubIdle | PubLoaded chan 'm | PubChecked chan 'm | PubSending chan 'm | PubReturned publish_result

datatype close_pc =
  CloseIdle | CloseNotified | CloseFlagged | CloseClosing "chan list" | CloseDraining "chan list"
| CloseFinished

record 'm MessageBus =
  buffer :: "chan \<Rightarrow> 'm list"
  chan_closed :: "chan \<Rightarrow> bool"
  done_closed :: bool
  closed_flag :: bool
  wg :: nat
  pubs :: "nat \<Rightarrow> 'm pub_pc"
  closer :: close_pc
  sent :: "chan \<Rightarrow> 'm list"
  taken :: "chan \<Rightarrow> (bool \<times> 'm) list"

definition NewMessageBus :: "'m MessageBus" where
  "NewMessageBus = \<lparr>buffer = (\<lambda>_. []), chan_closed = (\<lambda>_. False), done_closed = False,
     closed_flag = False, wg = 0, pubs = (\<lambda>_. PubIdle), closer = CloseIdle,
     sent = (\<lambda>_. []), taken = (\<lambda>_. [])\<rparr>"

definition set_pub :: "nat \<Rightarrow> 'm pub_pc \<Rightarrow> 'm MessageBus \<Rightarrow> 'm MessageBus" where
  "set_pub i p s = s\<lparr>pubs := (pubs s)(i := p)\<rparr>"

definition release :: "nat \<Rightarrow> publish_result \<Rightarrow> 'm MessageBus \<Rightarrow> 'm MessageBus" where
  "release i r s = set_pub i (PubReturned r) (s\<lparr>wg := wg s - 1\<rparr>)"

definition push :: "chan \<Rightarrow> 'm \<Rightarrow> 'm MessageBus \<Rightarrow> 'm MessageBus" where
  "push c m s = s\<lparr>buffer := (buffer s)(c := buffer s c @ [m]), sent := (sent s)(c := sent s c @ [m])\<rparr>"

definition pop :: "bool \<Rightarrow> chan \<Rightarrow> 'm \<Rightarrow> 'm list \<Rightarrow> 'm MessageBus \<Rightarrow> 'm MessageBus" where
  "pop consumer c m rest s =
     s\<lparr>buffer := (buffer s)(c := rest), taken := (taken s)(c := taken s c @ [(consumer, m)])\<rparr>"

inductive bus_step :: "'m MessageBus \<Rightarrow> 'm MessageBus \<Rightarrow> bool" where
  pub_refused: "pubs s i = PubIdle \<Longrightarrow> closed_flag s \<Longrightarrow> bus_step s (set_pub i (PubReturned ErrBusClosed) s)"
| pub_loaded: "pubs s i = PubIdle \<Longrightarrow> \<not> closed_flag s \<Longrightarrow> bus_step s (set_pub i (PubLoaded c m) s)"
| check_ctx: "pubs s i = PubLoaded c m \<Longrightarrow> bus_step s (set_pub i (PubReturned CtxError) s)"
| check_done: "pubs s i = PubLoaded c m \<Longrightarrow> done_closed s \<Longrightarrow>
    bus_step s (set_pub i (PubReturned ErrBusClosed) s)"
| check_default: "pubs s i = PubLoaded c m \<Longrightarrow> \<not> done_closed s \<Longrightarrow>
    bus_step s (set_pub i (PubChecked c m) s)"
| acquire: "pubs s i = PubChecked c m \<Longrightarrow>
    bus_step s (set_pub i (PubSending c m) (s\<lparr>wg := Suc (wg s)\<rparr>))"
| send_ok: "pubs s i = PubSending c m \<Longrightarrow> \<not> chan_closed s c \<Longrightarrow>
    length (buffer s c) < defaultBusBufferSize \<Longrightarrow> bus_step s (release i Published (push c m s))"
| send_panic: "pubs s i = PubSending c m \<Longrightarrow> chan_closed s c \<Longrightarrow> bus_step s (release i SendPanic s)"
| send_ctx: "pubs s i = PubSending c m \<Longrightarrow> bus_step s (release i CtxError s)"
| send_done: "pubs s i = PubSending c m \<Longrightarrow> done_closed s \<Longrightarrow> bus_step s (release i ErrBusClosed s)"
| receive: "buffer s c = m # rest \<Longrightarrow> bus_step s (pop True c m rest s)"
| close_done: "closer s = CloseIdle \<Longrightarrow> bus_step s (s\<lparr>done_closed := True, closer := CloseNotified\<rparr>)"
| close_flag: "closer s = CloseNotified \<Longrightarrow> bus_step s (s\<lparr>closed_flag := True, closer := CloseFlagged\<rparr>)"
| close_wait: "closer s = CloseFlagged \<Longrightarrow> wg s = 0 \<Longrightarrow> bus_step s (s\<lparr>closer := CloseClosing all_chans\<rparr>)"
| close_chan: "closer s = CloseClosing (c # cs) \<Longrightarrow>
    bus_step s (s\<lparr>chan_closed := (chan_closed s)(c := True), closer := CloseClosing cs\<rparr>)"
| close_closed: "closer s = CloseClosing [] \<Longrightarrow> bus_step s (s\<lparr>closer := CloseDraining all_chans\<rparr>)"
| drain: "closer s = CloseDraining (c # cs) \<Longrightarrow> buffer s c = m # rest \<Longrightarrow>
    bus_step s (pop False c m rest s)"
| drained: "closer s = CloseDraining (c # cs) \<Longrightarrow> buffer s c = [] \<Longrightarrow>
    bus_step s (s\<lparr>closer := CloseDraining cs\<rparr>)"
| close_end: "closer s = CloseDraining [] \<Longrightarrow> bus_step s (s\<lparr>closer := CloseFinished\<rparr>)"

inductive bus_reach :: "'m MessageBus \<Rightarrow> bool" where
  bus_init: "bus_reach NewMessageBus"
| bus_next: "bus_reach s \<Longrightarrow> bus_step s t \<Longrightarrow> bus_reach t"

lemmas bus_defs [state_defs] = set_pub_def release_def push_def pop_def

section \<open>Delivery\<close>

lemma in_all_chans: "c \<in> set all_chans"
  by (cases c) (simp_all add: all_chans_def)

text \<open>Every channel is a queue of bounded length: what was sent is what was taken followed by the
  buffer, in order.\<close>

definition queue_ok :: "'m list \<Rightarrow> (bool \<times> 'm) list \<Rightarrow> 'm list \<Rightarrow> bool" where
  "queue_ok snt tkn buf \<longleftrightarrow> snt = map snd tkn @ buf \<and> length buf \<le> defaultBusBufferSize"

definition queue_inv :: "'m MessageBus \<Rightarrow> bool" where
  "queue_inv s \<longleftrightarrow> (\<forall>c. queue_ok (sent s c) (taken s c) (buffer s c))"

text \<open>How far \<open>Close\<close> has come.\<close>

definition close_inv :: "'m MessageBus \<Rightarrow> bool" where
  "close_inv s \<longleftrightarrow>
     (case closer s of
        CloseClosing cs \<Rightarrow> \<forall>c. c \<in> set cs \<or> chan_closed s c
      | CloseDraining cs \<Rightarrow> \<forall>c. chan_closed s c \<and> (c \<in> set cs \<or> buffer s c = [])
      | CloseFinished \<Rightarrow> \<forall>c. chan_closed s c \<and> buffer s c = []
      | _ \<Rightarrow> True)"

definition draining :: "close_pc \<Rightarrow> bool" where
  "draining p \<longleftrightarrow> (\<exists>cs. p = CloseDraining cs) \<or> p = CloseFinished"

definition consumed_inv :: "'m MessageBus \<Rightarrow> bool" where
  "consumed_inv s \<longleftrightarrow> draining (closer s) \<or> (\<forall>c. \<forall>e \<in> set (taken s c). fst e)"

lemma queue_ok_pop: "queue_ok snt tkn (m # rest) \<Longrightarrow> queue_ok snt (tkn @ [(b, m)]) rest"
  and queue_ok_push: "queue_ok snt tkn buf \<Longrightarrow> length buf < defaultBusBufferSize \<Longrightarrow>
    queue_ok (snt @ [m]) tkn (buf @ [m])"
  by (simp_all add: queue_ok_def)

lemma queue_inv_parts [simp]:
  "queue_inv (set_pub i p s) = queue_inv s"
  "queue_inv (release i r s) = queue_inv s"
  by (simp_all add: queue_inv_def bus_defs)

lemma queue_inv_pop: "queue_inv s \<Longrightarrow> buffer s c = m # rest \<Longrightarrow> queue_inv (pop b c m rest s)"
  and queue_inv_push: "queue_inv s \<Longrightarrow> length (buffer s c) < defaultBusBufferSize \<Longrightarrow> queue_inv (push c m s)"
  unfolding queue_inv_def pop_def push_def by (auto intro: queue_ok_pop queue_ok_push) (metis queue_ok_pop)

lemma queue_inv_step: "bus_step s t \<Longrightarrow> queue_inv s \<Longrightarrow> queue_inv t"
  by (induction rule: bus_step.induct)
    (simp_all add: queue_inv_pop queue_inv_push, simp_all add: queue_inv_def set_pub_def)

lemma close_inv_parts [simp]:
  "close_inv (set_pub i p s) = close_inv s" "close_inv (release i r s) = close_inv s"
  "closer (set_pub i p s) = closer s" "closer (release i r s) = closer s"
  "closer (pop b c m rest s) = closer s" "closer (push c m s) = closer s"
  by (simp_all add: close_inv_def bus_defs cong: close_pc.case_cong split: close_pc.splits)

lemma close_inv_push: "close_inv s \<Longrightarrow> \<not> chan_closed s c \<Longrightarrow> close_inv (push c m s)"
  and close_inv_pop: "close_inv s \<Longrightarrow> buffer s c = m # rest \<Longrightarrow> close_inv (pop b c m rest s)"
  by (auto simp: close_inv_def push_def pop_def split: close_pc.splits)

lemma close_inv_step: "bus_step s t \<Longrightarrow> close_inv s \<Longrightarrow> close_inv t"
proof (induction rule: bus_step.induct)
  case (drained s c cs)
  then show ?case by (auto simp: close_inv_def)
qed (simp_all add: close_inv_push close_inv_pop,
     auto simp: close_inv_def set_pub_def in_all_chans split: close_pc.splits)

lemma consumed_inv_step: "bus_step s t \<Longrightarrow> consumed_inv s \<Longrightarrow> consumed_inv t"
  by (induction rule: bus_step.induct) (auto simp: consumed_inv_def draining_def bus_defs)

lemma bus_invs:
  assumes "bus_reach s"
  shows "queue_inv s" "close_inv s" "consumed_inv s"
  using assms
  by (induction rule: bus_reach.induct)
    (auto intro: queue_inv_step close_inv_step consumed_inv_step,
     simp_all add: queue_inv_def queue_ok_def close_inv_def consumed_inv_def NewMessageBus_def)

text \<open>C12. Delivery: in every reachable state each channel is a bounded queue (what was published is what
  was taken from it, in order, followed by what is in its buffer); nothing is thrown away before
  \<open>Close\<close> drains the channels; and when \<open>Close\<close> has returned every channel is closed and empty.\<close>

theorem bus_delivery:
  assumes "bus_reach s"
  shows "(\<forall>c. sent s c = map snd (taken s c) @ buffer s c \<and>
      length (buffer s c) \<le> defaultBusBufferSize) \<and>
    (\<not> draining (closer s) \<longrightarrow> (\<forall>c. \<forall>e \<in> set (taken s c). fst e)) \<and>
    (closer s = CloseFinished \<longrightarrow> (\<forall>c. chan_closed s c \<and> buffer s c = []))"
  using bus_invs [OF assms]
  by (auto simp: queue_inv_def queue_ok_def close_inv_def consumed_inv_def)

section \<open>A publisher that is overtaken by Close\<close>

definition steps_to :: "'m MessageBus \<Rightarrow> 'm MessageBus \<Rightarrow> bool" where
  "steps_to = bus_step\<^sup>*\<^sup>*"

lemma reach_steps:
  assumes "steps_to s t" "bus_reach s"
  shows "bus_reach t"
  using assms unfolding steps_to_def by (induction rule: rtranclp_induct) (auto intro: bus_next)

text \<open>\<open>Close\<close> runs to its end from any state without waiting or buffered messages.\<close>

lemma close_channels:
  "closer s = CloseClosing cs \<Longrightarrow>
   steps_to s (s\<lparr>chan_closed := (\<lambda>c. c \<in> set cs \<or> chan_closed s c), closer := CloseClosing []\<rparr>)"
proof (induction cs arbitrary: s)
  case Nil
  have "s\<lparr>chan_closed := (\<lambda>c. c \<in> set [] \<or> chan_closed s c), closer := CloseClosing []\<rparr> = s"
    using Nil by simp
  then show ?case by (simp add: steps_to_def)
next
  case (Cons c cs)
  let ?t = "s\<lparr>chan_closed := (chan_closed s)(c := True), closer := CloseClosing cs\<rparr>"
  have "bus_step s ?t" using Cons.prems by (rule close_chan)
  moreover have "steps_to ?t (?t\<lparr>chan_closed := (\<lambda>d. d \<in> set cs \<or> chan_closed ?t d), closer := CloseClosing []\<rparr>)"
    by (rule Cons.IH) simp
  moreover have "?t\<lparr>chan_closed := (\<lambda>d. d \<in> set cs \<or> chan_closed ?t d), closer := CloseClosing []\<rparr> =
      s\<lparr>chan_closed := (\<lambda>d. d \<in> set (c # cs) \<or> chan_closed s d), closer := CloseClosing []\<rparr>"
  proof -
    have "(\<lambda>d. d \<in> set cs \<or> chan_closed ?t d) = (\<lambda>d. d \<in> set (c # cs) \<or> chan_closed s d)"
      by (rule ext) simp
    then show ?thesis by simp
  qed
  ultimately show ?case by (simp add: steps_to_def converse_rtranclp_into_rtranclp)
qed

text \<open>A publisher that passed both of its checks before \<open>Close\<close> began, and is held up before it joins
  the wait group, is not waited for: it then sends on a closed channel and panics. The comment in
  \<open>Close\<close> rules this out.\<close>

theorem publish_can_panic:
  "\<exists>s :: 'm MessageBus. bus_reach s \<and> pubs s 0 = PubReturned SendPanic"
proof -
  define s1 where "s1 = set_pub 0 (PubLoaded Outbound undefined) (NewMessageBus :: 'm MessageBus)"
  define s2 where "s2 = set_pub 0 (PubChecked Outbound undefined) s1"
  define s3 where "s3 = s2\<lparr>done_closed := True, closer := CloseNotified\<rparr>"
  define s4 where "s4 = s3\<lparr>closed_flag := True, closer := CloseFlagged\<rparr>"
  define s5 where "s5 = s4\<lparr>closer := CloseClosing all_chans\<rparr>"
  define s6 where "s6 = s5\<lparr>chan_closed := (\<lambda>c. c \<in> set all_chans \<or> chan_closed s5 c), closer := CloseClosing []\<rparr>"
  define s7 where "s7 = set_pub 0 (PubSending Outbound undefined) (s6\<lparr>wg := Suc (wg s6)\<rparr>)"
  note ss = s7_def s6_def s5_def s4_def s3_def s2_def s1_def
  have "bus_step NewMessageBus s1"
    unfolding s1_def by (rule pub_loaded) (simp_all add: NewMessageBus_def)
  moreover have "bus_step s1 s2"
    unfolding s2_def by (rule check_default [where m = undefined and c = Outbound]) (simp_all add: ss set_pub_def NewMessageBus_def)
  moreover have "bus_step s2 s3"
    unfolding s3_def by (rule close_done) (simp add: ss set_pub_def NewMessageBus_def)
  moreover have "bus_step s3 s4"
    unfolding s4_def by (rule close_flag) (simp add: ss)
  moreover have "bus_step s4 s5"
    unfolding s5_def by (rule close_wait) (simp_all add: ss set_pub_def NewMessageBus_def)
  ultimately have "bus_reach s5" by (meson bus_init bus_next)
  moreover have "steps_to s5 s6"
    unfolding s6_def by (rule close_channels) (simp add: ss)
  ultimately have "bus_reach s6" using reach_steps by blast
  moreover have "bus_step s6 s7"
    unfolding s7_def by (rule acquire [where m = undefined]) (simp add: ss set_pub_def)
  moreover have "bus_step s7 (release 0 SendPanic s7)"
    by (rule send_panic [where m = undefined and c = Outbound]) (simp_all add: ss set_pub_def all_chans_def)
  ultimately have "bus_reach (release 0 SendPanic s7)" by (meson bus_next)
  then show ?thesis by (intro exI [of _ "release 0 SendPanic s7"]) (simp add: release_def set_pub_def)
qed

theorem bus_delivery_witness:
  "\<exists>s :: nat MessageBus. bus_reach s \<and> sent s Inbound = [7] \<and> buffer s Inbound = [7]"
proof -
  define s1 where "s1 = set_pub 0 (PubLoaded Inbound 7) (NewMessageBus :: nat MessageBus)"
  define s2 where "s2 = set_pub 0 (PubChecked Inbound 7) s1"
  define s3 where "s3 = set_pub 0 (PubSending Inbound 7) (s2\<lparr>wg := Suc (wg s2)\<rparr>)"
  define s4 where "s4 = release 0 Published (push Inbound 7 s3)"
  note ss = s4_def s3_def s2_def s1_def bus_defs NewMessageBus_def
  have "bus_step NewMessageBus s1"
    unfolding s1_def by (rule pub_loaded) (simp_all add: NewMessageBus_def)
  moreover have "bus_step s1 s2"
    unfolding s2_def by (rule check_default [where m = 7 and c = Inbound]) (simp_all add: ss)
  moreover have "bus_step s2 s3"
    unfolding s3_def by (rule acquire [where m = 7]) (simp add: ss)
  moreover have "bus_step s3 s4"
    unfolding s4_def by (rule send_ok [where m = 7 and c = Inbound])
      (simp_all add: ss defaultBusBufferSize_def)
  ultimately have reach: "bus_reach s4" by (meson bus_init bus_next)
  have "buffer s4 Inbound = [7]" "taken s4 Inbound = []" by (simp_all add: ss)
  with bus_delivery [OF reach] reach show ?thesis by (intro exI [of _ s4]) auto
qed

end
