(* ===== verification/Split.thy ===== *)
theory Split
  imports Runes "HOL-Library.Sublist"
begin

text \<open>
  Splitting of long messages: \<open>pkg/channels/split.go\<close>, on lists of runes. The loop only ever looks at
  the runes from \<open>start\<close> on, so its state is that suffix, and every index is relative to it. An
  iteration emits one chunk and goes on with the rest (\<open>split_once\<close>). The loop need not end, so it
  takes a number of iterations as fuel and gives \<open>None\<close> when they are used up.
\<close>

abbreviation newline :: rune where "newline \<equiv> 10"
abbreviation backtick :: rune where "backtick \<equiv> 96"

text \<open>The blanks skipped between chunks, and \<open>unicode.IsSpace\<close>, which \<open>strings.TrimSpace\<close> uses.\<close>

definition is_blank :: "rune \<Rightarrow> bool" where
  "is_blank r \<longleftrightarrow> r = 32 \<or> r = 9 \<or> r = 10 \<or> r = 13"

definition is_space_rune :: "rune \<Rightarrow> bool" where
  "is_space_rune r \<longleftrightarrow> (9 \<le> r \<and> r \<le> 13) \<or> r = 32 \<or> r = 133 \<or> r = 160 \<or> r = 5760 \<or>
     (8192 \<le> r \<and> r \<le> 8202) \<or> r = 8232 \<or> r = 8233 \<or> r = 8239 \<or> r = 8287 \<or> r = 12288"

definition trim_space :: "rune list \<Rightarrow> rune list" where
  "trim_space rs = rev (dropWhile is_space_rune (rev (dropWhile is_space_rune rs)))"

definition trim_right_blanks :: "rune list \<Rightarrow> rune list" where
  "trim_right_blanks rs = rev (dropWhile is_blank (rev rs))"

definition fence :: "rune list" where "fence = [backtick, backtick, backtick]"

text \<open>The index of the last rune with a property in a window of the range up to \<open>e\<close>.\<close>

definition find_last :: "(rune \<Rightarrow> bool) \<Rightarrow> rune list \<Rightarrow> nat \<Rightarrow> nat \<Rightarrow> nat option" where
  "find_last P rs e searchWindow =
     (let is = filter (\<lambda>i. P (rs ! i)) [e - searchWindow..<e]
      in if is = [] then None else Some (last is))"

definition findLastNewlineInRange :: "rune list \<Rightarrow> nat \<Rightarrow> nat \<Rightarrow> nat option" where
  "findLastNewlineInRange rs e w = find_last (\<lambda>r. r = newline) rs e w"

definition findLastSpaceInRange :: "rune list \<Rightarrow> nat \<Rightarrow> nat \<Rightarrow> nat option" where
  "findLastSpaceInRange rs e w = find_last (\<lambda>r. r = 32 \<or> r = 9) rs e w"

text \<open>\<open>i\<close> is the index of the list's head, \<open>opened\<close> the fence that is open.\<close>

fun unclosed_from :: "nat \<Rightarrow> nat option \<Rightarrow> rune list \<Rightarrow> nat option" where
  "unclosed_from i opened (a # b # c # r) =
     (if [a, b, c] = fence
      then unclosed_from (i + 3) (case opened of None \<Rightarrow> Some i | Some _ \<Rightarrow> None) r
      else unclosed_from (i + 1) opened (b # c # r))"
| "unclosed_from i opened r = opened"

definition findLastUnclosedCodeBlockInRange :: "rune list \<Rightarrow> nat \<Rightarrow> nat option" where
  "findLastUnclosedCodeBlockInRange rs e = unclosed_from 0 None (take e rs)"

fun closing_from :: "nat \<Rightarrow> rune list \<Rightarrow> nat option" where
  "closing_from i (a # b # c # r) =
     (if [a, b, c] = fence then Some (i + 3) else closing_from (i + 1) (b # c # r))"
| "closing_from i r = None"

definition findNextClosingCodeBlockInRange :: "rune list \<Rightarrow> nat \<Rightarrow> nat option" where
  "findNextClosingCodeBlockInRange rs startIdx = closing_from startIdx (drop startIdx rs)"

fun newline_from :: "nat \<Rightarrow> rune list \<Rightarrow> nat option" where
  "newline_from i [] = None"
| "newline_from i (a # r) = (if a = newline then Some i else newline_from (i + 1) r)"

definition findNewlineFrom :: "rune list \<Rightarrow> nat \<Rightarrow> nat option" where
  "findNewlineFrom rs from' = newline_from from' (drop from' rs)"

definition effective_limit :: "nat \<Rightarrow> nat" where
  "effective_limit maxLen =
     (let buffer0 = max (maxLen div 10) 50;
          codeBlockBuffer = (if maxLen div 2 < buffer0 then maxLen div 2 else buffer0)
      in max (maxLen - codeBlockBuffer) (maxLen div 2))"

text \<open>A found index counts only when it is past the start.\<close>

definition past_start :: "nat option \<Rightarrow> nat option" where
  "past_start i = (case i of Some n \<Rightarrow> if 0 < n then Some n else None | None \<Rightarrow> None)"

definition natural_end :: "nat \<Rightarrow> rune list \<Rightarrow> nat" where
  "natural_end e rs =
     (case past_start (findLastNewlineInRange rs e 200) of
        Some n \<Rightarrow> n
      | None \<Rightarrow>
          (case past_start (findLastSpaceInRange rs e 100) of Some n \<Rightarrow> n | None \<Rightarrow> e))"

text \<open>The end of a closing fence counts only when it is within the limit.\<close>

definition fitting_end :: "nat \<Rightarrow> nat option \<Rightarrow> nat option" where
  "fitting_end maxLen i = (case i of Some n \<Rightarrow> if n \<le> maxLen then Some n else None | None \<Rightarrow> None)"

text \<open>The two ways of an iteration to end: a plain cut, and a cut inside a code block, which closes
  the block and opens it again with its header.\<close>

definition plain_cut :: "rune list \<Rightarrow> nat \<Rightarrow> rune list \<times> rune list" where
  "plain_cut rs n = (take n rs, dropWhile is_blank (drop n rs))"

definition inner_cut :: "rune list \<Rightarrow> rune list \<Rightarrow> nat \<Rightarrow> rune list \<times> rune list" where
  "inner_cut header rs n =
     (trim_right_blanks (take n rs) @ newline # fence, trim_space (header @ newline # drop n rs))"

definition cut_at :: "nat \<Rightarrow> rune list \<Rightarrow> nat \<Rightarrow> rune list \<times> rune list" where
  "cut_at limit rs n = plain_cut rs (if n = 0 then limit else n)"

text \<open>The cut when the chunk would end inside the block that is opened at \<open>unclosedIdx\<close>, and the end of
  the block is too far away.\<close>

definition split_block :: "nat \<Rightarrow> rune list \<Rightarrow> nat \<Rightarrow> nat \<Rightarrow> rune list \<times> rune list" where
  "split_block maxLen rs msgEnd unclosedIdx =
     (let limit = effective_limit maxLen;
          headerEnd = findNewlineFrom rs unclosedIdx;
          header = (case headerEnd of
              None \<Rightarrow> trim_space (take 3 (drop unclosedIdx rs))
            | Some h \<Rightarrow> trim_space (take (h - unclosedIdx) (drop unclosedIdx rs)));
          headerEndIdx = (case headerEnd of None \<Rightarrow> unclosedIdx + length header | Some h \<Rightarrow> h);
          innerLimit = min (maxLen - 5) (length rs)
      in
      if headerEndIdx + 20 < msgEnd then
        (case findLastNewlineInRange rs innerLimit 200 of
           Some betterEnd \<Rightarrow>
             inner_cut header rs (if headerEndIdx < betterEnd then betterEnd else innerLimit)
         | None \<Rightarrow> inner_cut header rs innerLimit)
      else
        (case past_start (findLastNewlineInRange rs unclosedIdx 200) of
           Some n \<Rightarrow> cut_at limit rs n
         | None \<Rightarrow>
             (case past_start (findLastSpaceInRange rs unclosedIdx 100) of
                Some n \<Rightarrow> cut_at limit rs n
              | None \<Rightarrow>
                  if 20 < unclosedIdx then cut_at limit rs unclosedIdx
                  else inner_cut header rs innerLimit)))"

definition split_once :: "nat \<Rightarrow> rune list \<Rightarrow> rune list \<times> rune list" where
  "split_once maxLen rs =
     (let limit = effective_limit maxLen;
          msgEnd = natural_end limit rs
      in
      case findLastUnclosedCodeBlockInRange rs msgEnd of
        None \<Rightarrow> cut_at limit rs msgEnd
      | Some unclosedIdx \<Rightarrow>
          if length rs \<le> msgEnd then cut_at limit rs msgEnd
          else
            (case fitting_end maxLen (findNextClosingCodeBlockInRange rs msgEnd) of
               Some closingIdx \<Rightarrow> cut_at limit rs closingIdx
             | None \<Rightarrow> split_block maxLen rs msgEnd unclosedIdx))"

fun split_loop :: "nat \<Rightarrow> nat \<Rightarrow> rune list \<Rightarrow> rune list list option" where
  "split_loop 0 maxLen rs = None"
| "split_loop (Suc fuel) maxLen rs =
     (if rs = [] then Some []
      else if length rs \<le> maxLen then Some [rs]
      else
        let (chunk, rest) = split_once maxLen rs
        in map_option (\<lambda>chunks. chunk # chunks) (split_loop fuel maxLen rest))"

definition SplitMessage :: "nat \<Rightarrow> string \<Rightarrow> int \<Rightarrow> string list option" where
  "SplitMessage fuel content maxLen =
     (if maxLen \<le> 0 then Some (if content = [] then [] else [content])
      else map_option (map of_runes) (split_loop fuel (nat maxLen) (runes content)))"

section \<open>Where an iteration cuts\<close>

lemma find_last_bound: "find_last P rs e w = Some i \<Longrightarrow> i < e \<and> P (rs ! i)"
proof -
  assume a: "find_last P rs e w = Some i"
  then have "i \<in> set (filter (\<lambda>i. P (rs ! i)) [e - w..<e])"
    by (auto simp: find_last_def Let_def split: if_splits dest: last_in_set)
  then show ?thesis by simp
qed

lemma past_start_find:
  assumes "past_start (find_last P rs e w) = Some n"
  shows "0 < n \<and> n < e"
  using assms find_last_bound [of P rs e w]
  by (auto simp: past_start_def split: option.splits if_splits)

lemma effective_limit_bounds: "0 < maxLen \<Longrightarrow> 0 < effective_limit maxLen \<and> effective_limit maxLen \<le> maxLen"
  by (auto simp: effective_limit_def Let_def max_def)

lemma effective_limit_3: "5 \<le> maxLen \<longleftrightarrow> 3 \<le> effective_limit maxLen"
  by (auto simp: effective_limit_def Let_def max_def)

lemma natural_end_bounds: "0 < e \<Longrightarrow> 0 < natural_end e rs \<and> natural_end e rs \<le> e"
  using past_start_find [of _ rs e]
  by (fastforce simp: natural_end_def findLastNewlineInRange_def findLastSpaceInRange_def split: option.splits)

lemma unclosed_from_bound:
  "unclosed_from i opened l = Some u \<Longrightarrow> opened = Some u \<or> (i \<le> u \<and> u + 3 \<le> i + length l)"
proof (induction i opened l rule: unclosed_from.induct)
  case (1 i opened a b c r)
  then show ?case by (auto split: if_splits option.splits)
qed simp_all

lemma unclosed_bound:
  assumes "findLastUnclosedCodeBlockInRange rs e = Some u"
  shows "u + 3 \<le> e"
  using unclosed_from_bound [of 0 None "take e rs" u] assms
  by (auto simp: findLastUnclosedCodeBlockInRange_def)

text \<open>Every iteration emits at most \<open>maxLen\<close> runes: it cuts at some index up to \<open>maxLen\<close>, or inside a
  code block at least five runes before it.\<close>

definition good_cut :: "nat \<Rightarrow> rune list \<Rightarrow> rune list \<times> rune list \<Rightarrow> bool" where
  "good_cut maxLen rs r \<longleftrightarrow>
     (\<exists>n. r = plain_cut rs n \<and> 0 < n \<and> n \<le> maxLen) \<or>
     (\<exists>header n. r = inner_cut header rs n \<and> n + 5 \<le> maxLen)"

lemma good_cut_at: "0 < maxLen \<Longrightarrow> n \<le> maxLen \<Longrightarrow> good_cut maxLen rs (cut_at (effective_limit maxLen) rs n)"
  unfolding good_cut_def cut_at_def using effective_limit_bounds [of maxLen]
  by (intro disjI1 exI [of _ "if n = 0 then effective_limit maxLen else n"]) simp

lemma good_inner: "n + 5 \<le> maxLen \<Longrightarrow> good_cut maxLen rs (inner_cut header rs n)"
  unfolding good_cut_def by blast

lemma past_start_newline: "past_start (findLastNewlineInRange rs e w) = Some n \<Longrightarrow> n < e"
  and past_start_space: "past_start (findLastSpaceInRange rs e w) = Some n \<Longrightarrow> n < e"
  and find_newline_bound: "findLastNewlineInRange rs e w = Some n \<Longrightarrow> n < e"
  using past_start_find find_last_bound
  unfolding findLastNewlineInRange_def findLastSpaceInRange_def by blast+

lemma split_block_cut:
  assumes "5 \<le> maxLen" and "u \<le> maxLen"
  shows "good_cut maxLen rs (split_block maxLen rs msgEnd u)"
proof -
  let ?inner = "min (maxLen - 5) (length rs)"
  have inner: "?inner + 5 \<le> maxLen" using assms by simp
  have better: "findLastNewlineInRange rs ?inner 200 = Some n \<Longrightarrow> n + 5 \<le> maxLen" for n
    using find_newline_bound [of rs ?inner 200 n] inner assms(1) by linarith
  have small: "past_start (findLastNewlineInRange rs u 200) = Some n \<Longrightarrow> n \<le> maxLen"
    "past_start (findLastSpaceInRange rs u 100) = Some n \<Longrightarrow> n \<le> maxLen" for n
    using past_start_newline [of rs u 200 n] past_start_space [of rs u 100 n] assms by auto
  have pos: "0 < maxLen" using assms by simp
  show ?thesis
    unfolding split_block_def Let_def
    using good_inner [OF inner] good_inner [OF better] good_cut_at [OF pos small(1)]
      good_cut_at [OF pos small(2)] good_cut_at [OF pos assms(2)]
    by (auto split: option.split simp del: min_less_iff_conj)
qed

lemma split_once_cut:
  assumes "0 < maxLen"
  shows "good_cut maxLen rs (split_once maxLen rs)"
proof -
  let ?e = "natural_end (effective_limit maxLen) rs"
  have e: "?e \<le> maxLen"
    using natural_end_bounds effective_limit_bounds [OF assms] by (meson order_trans)
  have block: "good_cut maxLen rs (split_block maxLen rs ?e u)"
    if "findLastUnclosedCodeBlockInRange rs ?e = Some u" for u
  proof (rule split_block_cut)
    have u: "u + 3 \<le> ?e" by (rule unclosed_bound [OF that])
    then show "5 \<le> maxLen"
      using natural_end_bounds effective_limit_bounds [OF assms] effective_limit_3
      by (meson le_add2 order_trans)
    from u e show "u \<le> maxLen" by simp
  qed
  have fit: "fitting_end maxLen i = Some n \<Longrightarrow> n \<le> maxLen" for i n
    by (auto simp: fitting_end_def split: option.splits if_splits)
  show ?thesis
    unfolding split_once_def Let_def
    using good_cut_at [OF assms e] good_cut_at [OF assms fit] block
    by (auto split: option.split)
qed

lemma trim_right_length: "length (trim_right_blanks rs) \<le> length rs"
  using length_dropWhile_le [of is_blank "rev rs"] by (simp add: trim_right_blanks_def)

lemma good_cut_chunk:
  assumes "good_cut maxLen rs r"
  shows "length (fst r) \<le> maxLen"
  using assms unfolding good_cut_def
proof (elim disjE exE conjE)
  fix header n assume r: "r = inner_cut header rs n" and n: "n + 5 \<le> maxLen"
  have "length (trim_right_blanks (take n rs)) \<le> n"
    using trim_right_length [of "take n rs"] by simp
  with r n show ?thesis by (simp add: inner_cut_def fence_def)
qed (simp add: plain_cut_def)

text \<open>Every chunk respects the limit, also the chunks that close a code block which the cut leaves
  open: a split message consists of chunks of at most \<open>maxLen\<close> runes.\<close>

theorem split_chunks_fit:
  assumes "0 < maxLen" and "split_loop fuel maxLen rs = Some chunks"
  shows "\<forall>chunk \<in> set chunks. length chunk \<le> maxLen"
  using assms(2)
proof (induction fuel arbitrary: rs chunks)
  case (Suc fuel)
  obtain chunk rest where cut: "split_once maxLen rs = (chunk, rest)" by fastforce
  from good_cut_chunk [OF split_once_cut [OF assms(1)], of rs] cut have "length chunk \<le> maxLen" by simp
  with Suc cut show ?case by (fastforce split: if_splits)
qed simp

section \<open>Messages without code blocks\<close>

lemma unclosed_no_fence: "\<not> sublist fence l \<Longrightarrow> unclosed_from i None l = None"
proof (induction i "None :: nat option" l rule: unclosed_from.induct)
  case (1 i a b c r)
  have "sublist [a, b, c] (a # b # c # r)"
    using sublist_appendI [of "[a, b, c]" "[]" r] by simp
  with 1(3) have "[a, b, c] \<noteq> fence" by metis
  moreover have "\<not> sublist fence (b # c # r)"
    using 1(3) by (metis sublist_Cons_right)
  ultimately show ?case using 1(2) by simp
qed simp_all

lemma filter_dropWhile: "filter (\<lambda>x. \<not> P x) (dropWhile P xs) = filter (\<lambda>x. \<not> P x) xs"
  by (induction xs) auto

lemma split_once_plain:
  assumes "0 < maxLen" "\<not> sublist fence rs"
  obtains n where "split_once maxLen rs = plain_cut rs n" "0 < n" "n \<le> maxLen"
proof -
  let ?e = "natural_end (effective_limit maxLen) rs"
  have bounds: "0 < ?e" "?e \<le> maxLen"
    using natural_end_bounds [of "effective_limit maxLen" rs] effective_limit_bounds [OF assms(1)] by auto
  have "\<not> sublist fence (take ?e rs)" using assms(2) by (meson sublist_order.order.trans sublist_take)
  then have "findLastUnclosedCodeBlockInRange rs ?e = None"
    by (simp add: findLastUnclosedCodeBlockInRange_def unclosed_no_fence)
  then have "split_once maxLen rs = plain_cut rs ?e"
    using bounds by (simp add: split_once_def cut_at_def Let_def)
  with bounds that show ?thesis by blast
qed

lemma split_plain_aux:
  "0 < maxLen \<Longrightarrow> \<not> sublist fence rs \<Longrightarrow> length rs < fuel \<Longrightarrow>
   \<exists>chunks. split_loop fuel maxLen rs = Some chunks \<and>
     filter (\<lambda>r. \<not> is_blank r) (concat chunks) = filter (\<lambda>r. \<not> is_blank r) rs"
proof (induction fuel arbitrary: rs)
  case (Suc fuel)
  show ?case
  proof (cases "length rs \<le> maxLen")
    case False
    obtain n where cut: "split_once maxLen rs = plain_cut rs n" "0 < n" "n \<le> maxLen"
      by (rule split_once_plain [OF Suc.prems(1,2)])
    let ?rest = "dropWhile is_blank (drop n rs)"
    have "length ?rest \<le> length rs - n"
      using length_dropWhile_le [of is_blank "drop n rs"] by simp
    then have "length ?rest < fuel" using Suc.prems(3) cut False by linarith
    moreover have "suffix ?rest rs"
      by (meson suffix_dropWhile suffix_drop suffix_order.trans)
    then have "\<not> sublist fence ?rest"
      using Suc.prems(2) by (meson suffix_imp_sublist sublist_order.order.trans)
    ultimately obtain chunks where rest: "split_loop fuel maxLen ?rest = Some chunks"
      "filter (\<lambda>r. \<not> is_blank r) (concat chunks) = filter (\<lambda>r. \<not> is_blank r) ?rest"
      using Suc.IH [OF Suc.prems(1)] by blast
    have "split_loop (Suc fuel) maxLen rs = Some (take n rs # chunks)"
      using False rest(1) cut(1) by (auto simp: plain_cut_def)
    moreover have "filter (\<lambda>r. \<not> is_blank r) (concat (take n rs # chunks)) = filter (\<lambda>r. \<not> is_blank r) rs"
      using rest(2) by (simp add: filter_dropWhile) (metis append_take_drop_id filter_append)
    ultimately show ?thesis by blast
  qed simp
qed simp

text \<open>C27. A message without code fences is always split, in at most as many iterations as it has runes, and
  loses nothing but blanks at the cuts.\<close>

theorem split_plain_total:
  assumes "0 < maxLen" and "\<not> sublist fence rs"
  shows "\<exists>chunks. split_loop (Suc (length rs)) maxLen rs = Some chunks \<and>
    (\<forall>chunk \<in> set chunks. length chunk \<le> maxLen) \<and>
    filter (\<lambda>r. \<not> is_blank r) (concat chunks) = filter (\<lambda>r. \<not> is_blank r) rs"
proof -
  have "\<forall>chunk \<in> set chunks. length chunk \<le> maxLen" if "split_loop fuel maxLen rs = Some chunks" for fuel chunks
    using that
  proof (induction fuel arbitrary: rs chunks)
    case (Suc fuel)
    obtain chunk rest where cut: "split_once maxLen rs = (chunk, rest)" by fastforce
    from good_cut_chunk [OF split_once_cut [OF assms(1)], of rs] cut have "length chunk \<le> maxLen" by simp
    with Suc cut show ?case by (fastforce split: if_splits)
  qed simp
  with split_plain_aux [OF assms lessI] show ?thesis by blast
qed

section \<open>A code block that is never split\<close>

text \<open>The family of messages that the loop runs into: a block whose first line is longer than the limit.\<close>

definition long_header :: "nat \<Rightarrow> rune list" where
  "long_header k = fence @ replicate k 97"

lemma unclosed_replicate: "unclosed_from i opened (replicate n 97) = opened"
proof (induction n arbitrary: i rule: less_induct)
  case (less n)
  show ?case
  proof (cases "n < 3")
    case True
    then consider "n = 0" | "n = 1" | "n = 2" by linarith
    then show ?thesis by cases (simp_all add: numeral_2_eq_2)
  next
    case False
    then obtain m where n: "n = Suc (Suc (Suc m))" by (metis Suc_diff_Suc not_less numeral_3_eq_3 zero_less_diff Suc_le_lessD add_2_eq_Suc le_Suc_ex add_Suc)
    then show ?thesis using less [of "Suc (Suc m)" "i + 1"] by (simp add: fence_def)
  qed
qed

lemma closing_replicate: "closing_from i (replicate n 97 @ newline # t) = Some c \<Longrightarrow> i + n + 3 \<le> c"
proof (induction n arbitrary: i)
  case 0
  have bound: "closing_from j l = Some c \<Longrightarrow> j + 3 \<le> c" for j l
    by (induction j l rule: closing_from.induct) (auto split: if_splits)
  with 0 show ?case by simp
next
  case (Suc n)
  obtain b l where tail: "replicate n 97 @ newline # t = b # l" by (cases n) auto
  show ?case
  proof (cases l)
    case Nil
    with Suc.prems tail show ?thesis by simp
  next
    case (Cons x y)
    with Suc.prems tail have "closing_from (i + 1) (replicate n 97 @ newline # t) = Some c"
      by (simp add: fence_def)
    from Suc.IH [OF this] show ?thesis by simp
  qed
qed

lemma newline_from_header: "newline \<notin> set h \<Longrightarrow> newline_from i (h @ newline # t) = Some (i + length h)"
  by (induction h arbitrary: i) auto

lemma trim_space_id: "rs \<noteq> [] \<Longrightarrow> \<not> is_space_rune (hd rs) \<Longrightarrow> \<not> is_space_rune (last rs) \<Longrightarrow> trim_space rs = rs"
proof -
  assume a: "rs \<noteq> []" "\<not> is_space_rune (hd rs)" "\<not> is_space_rune (last rs)"
  have "dropWhile is_space_rune rs = rs" using a by (cases rs) auto
  moreover have "dropWhile is_space_rune (rev rs) = rev rs"
    using a by (cases rs rule: rev_cases) auto
  ultimately show ?thesis by (simp add: trim_space_def)
qed

lemma find_last_none: "\<forall>i < e. \<not> P (rs ! i) \<Longrightarrow> past_start (find_last P rs e w) = None"
  by (auto simp: find_last_def past_start_def Let_def filter_empty_conv split: if_splits option.splits)

lemma long_header_nth: "i < length (long_header k) \<Longrightarrow> (long_header k @ t) ! i \<in> {backtick, 97}"
  by (auto simp: long_header_def fence_def nth_append nth_Cons' split: if_splits)

lemma split_once_long_header:
  assumes five: "5 \<le> maxLen" and k: "maxLen \<le> k" and t: "t \<noteq> []" "last t = backtick"
  shows "\<exists>chunk t'. split_once maxLen (long_header k @ newline # t) = (chunk, long_header k @ newline # t') \<and>
    t' \<noteq> [] \<and> last t' = backtick"
proof -
  let ?H = "long_header k" and ?rs = "long_header k @ newline # t"
  let ?limit = "effective_limit maxLen"
  have lenH: "length ?H = k + 3" by (simp add: long_header_def fence_def)
  have limit: "3 \<le> ?limit" "?limit \<le> maxLen"
    using effective_limit_3 [of maxLen] effective_limit_bounds [of maxLen] five by auto
  have inH: "?rs ! i \<in> {backtick, 97}" if "i < k + 3" for i
    using long_header_nth [of i k] that lenH by simp
  have none: "past_start (find_last P ?rs e w) = None" if "e \<le> k + 3" "\<not> P backtick" "\<not> P 97" for P e w
  proof (rule find_last_none, intro allI impI)
    fix i assume "i < e"
    with that inH [of i] show "\<not> P (?rs ! i)" by auto
  qed
  have e: "natural_end ?limit ?rs = ?limit"
    using none [of ?limit] limit k
    by (simp add: natural_end_def findLastNewlineInRange_def findLastSpaceInRange_def)
  have "take ?limit ?rs = fence @ replicate (?limit - 3) 97"
    using limit k by (simp add: long_header_def fence_def take_Cons' min_def numeral_3_eq_3)
  then have open0: "findLastUnclosedCodeBlockInRange ?rs ?limit = Some 0"
    by (simp add: findLastUnclosedCodeBlockInRange_def fence_def unclosed_replicate)
  have "drop ?limit ?rs = replicate (k - (?limit - 3)) 97 @ newline # t"
    using limit k by (simp add: long_header_def fence_def drop_Cons' numeral_3_eq_3)
  then have far: "fitting_end maxLen (findNextClosingCodeBlockInRange ?rs ?limit) = None"
    using closing_replicate [of ?limit "k - (?limit - 3)" t] limit k
    by (auto simp: fitting_end_def findNextClosingCodeBlockInRange_def split: option.splits)
  have nl: "findNewlineFrom ?rs 0 = Some (k + 3)"
    using newline_from_header [of ?H 0 t] lenH
    by (simp add: findNewlineFrom_def long_header_def fence_def)
  have hd: "hd ?H = backtick" "?H \<noteq> []" "last ?H = 97"
    using five k by (simp_all add: long_header_def fence_def)
  then have trimH: "trim_space ?H = ?H"
    by (intro trim_space_id) (simp_all add: is_space_rune_def)
  define n where "n = min (maxLen - 5) (length ?rs)"
  have n: "n \<le> length ?H" using k lenH by (simp add: n_def)
  have "split_once maxLen ?rs = inner_cut ?H ?rs n"
    using e open0 far nl trimH limit k lenH none [of 0]
    by (simp add: split_once_def split_block_def Let_def n_def findLastNewlineInRange_def
        findLastSpaceInRange_def)
  moreover have "trim_space (?H @ newline # drop n ?rs) = ?H @ newline # drop n ?rs"
    using hd n t by (intro trim_space_id) (simp_all add: is_space_rune_def)
  ultimately show ?thesis
    using n t by (intro exI [of _ "trim_right_blanks (take n ?rs) @ newline # fence"]
        exI [of _ "drop n ?rs"]) (simp add: inner_cut_def)
qed

lemma split_loop_diverges:
  assumes "5 \<le> maxLen" "maxLen \<le> k"
  shows "t \<noteq> [] \<Longrightarrow> last t = backtick \<Longrightarrow> split_loop fuel maxLen (long_header k @ newline # t) = None"
proof (induction fuel arbitrary: t)
  case (Suc fuel)
  obtain chunk t' where "split_once maxLen (long_header k @ newline # t) = (chunk, long_header k @ newline # t')"
    "t' \<noteq> []" "last t' = backtick"
    using split_once_long_header [OF assms Suc.prems] by blast
  moreover have "\<not> length (long_header k @ newline # t) \<le> maxLen"
    using assms by (simp add: long_header_def)
  ultimately show ?case using Suc.IH [of t'] by simp
qed simp

text \<open>Splitting does not terminate on a code block whose first line is longer than the limit: the header
  is repeated in front of the rest, which grows with every iteration, so no number of iterations
  is enough.\<close>

theorem SplitMessage_diverges:
  assumes "5 \<le> maxLen" and "maxLen \<le> k"
  shows "SplitMessage fuel (''```'' @ replicate k (CHR ''a'') @ CHR 0x0A # ''```'') (int maxLen) = None"
proof -
  let ?s = "''```'' @ replicate k (CHR ''a'') @ CHR 0x0A # ''```''"
  have "\<forall>c \<in> set ?s. byte c < 128" by auto
  then have "runes ?s = map byte ?s" by (rule runes_ascii)
  also have "\<dots> = long_header k @ newline # fence"
    by (simp add: long_header_def fence_def)
  finally show ?thesis
    using split_loop_diverges [OF assms, of fence fuel] assms
    by (simp add: SplitMessage_def fence_def)
qed

theorem SplitMessage_diverges_witness:
  "\<forall>fuel. SplitMessage fuel (''```'' @ replicate 5000 (CHR ''a'') @ CHR 0x0A # ''```'') 2000 = None"
  using SplitMessage_diverges [of 2000 5000] by simp

theorem split_plain_total_witness:
  "\<exists>chunks. split_loop 13 4 [97, 97, 32, 97, 97, 97, 97, 97, 97, 32, 97, 97] = Some chunks \<and>
     (\<forall>chunk \<in> set chunks. length chunk \<le> 4)"
proof -
  have "\<not> sublist fence [97, 97, 32, 97, 97, 97, 97, 97, 97, 32, 97, 97]"
    by (auto simp: fence_def sublist_Cons_right)
  moreover have size: "Suc (length [97, 97, 32, 97, 97, 97, 97, 97, 97, 32, 97, 97 :: nat]) = 13" by simp
  ultimately show ?thesis
    using split_plain_total [of 4 "[97, 97, 32, 97, 97, 97, 97, 97, 97, 32, 97, 97]", unfolded size]
    by (meson zero_less_numeral)
qed

theorem split_chunks_fit_witness:
  "\<exists>chunks. split_loop 13 4 [97, 97, 32, 97, 97, 97, 97, 97] = Some chunks \<and>
     (\<forall>chunk \<in> set chunks. length chunk \<le> 4)"
proof -
  have "\<not> sublist fence [97, 97, 32, 97, 97, 97, 97, 97]"
    by (auto simp: fence_def sublist_Cons_right)
  then obtain chunks where run: "split_loop 13 4 [97, 97, 32, 97, 97, 97, 97, 97] = Some chunks"
    using split_plain_aux [of 4 _ 13] by fastforce
  from split_chunks_fit [OF _ run] run show ?thesis by simp
qed

end
