(* ===== verification/History.thy ===== *)
theory History
  imports Messages
begin

text \<open>
  What is sent to a provider: \<open>sanitizeHistoryForProvider\<close> and \<open>BuildMessages\<close> of
  \<open>pkg/agent/context.go\<close>, and the last repairs before the call from \<open>pkg/agent/loop.go\<close>. Providers
  refuse a conversation in which a tool result does not answer a tool call, or a tool call stays
  without its result; \<open>valid_history\<close> is that contract.
\<close>

definition is_tool :: "Message \<Rightarrow> bool" where
  "is_tool m \<longleftrightarrow> Role m = ''tool''"

definition is_call_turn :: "Message \<Rightarrow> bool" where
  "is_call_turn m \<longleftrightarrow> Role m = ''assistant'' \<and> ToolCalls m \<noteq> []"

lemma call_turn_not_tool [simp]: "is_call_turn m \<Longrightarrow> \<not> is_tool m"
  by (simp add: is_call_turn_def is_tool_def)

section \<open>First pass: orphans\<close>

text \<open>The walk back over the tool messages, on the reversed list.\<close>

fun found_assistant :: "Message list \<Rightarrow> bool" where
  "found_assistant [] \<longleftrightarrow> False"
| "found_assistant (m # ms) \<longleftrightarrow> (if is_tool m then found_assistant ms else is_call_turn m)"

definition keep_message :: "Message list \<Rightarrow> Message \<Rightarrow> bool" where
  "keep_message sanitized m =
     (if Role m = ''system'' then False
      else if Role m = ''tool'' then sanitized \<noteq> [] \<and> found_assistant (rev sanitized)
      else if Role m = ''assistant'' \<and> ToolCalls m \<noteq> [] then
        sanitized \<noteq> [] \<and> (Role (last sanitized) = ''user'' \<or> Role (last sanitized) = ''tool'')
      else True)"

fun first_pass :: "Message list \<Rightarrow> Message list \<Rightarrow> Message list" where
  "first_pass sanitized [] = sanitized"
| "first_pass sanitized (m # ms) =
     first_pass (if keep_message sanitized m then sanitized @ [m] else sanitized) ms"

section \<open>Second pass: one result for every call\<close>

definition result_id :: "Message \<Rightarrow> string" where
  "result_id m = TrimSpace (ToolCallID m)"

fun pick_results :: "string list \<Rightarrow> string list \<Rightarrow> Message list \<Rightarrow> Message list" where
  "pick_results expected matched [] = []"
| "pick_results expected matched (m # ms) =
     (if result_id m \<notin> set expected then pick_results expected matched ms
      else if result_id m \<in> set matched then pick_results expected matched ms
      else m # pick_results expected (result_id m # matched) ms)"

function second_pass :: "Message list \<Rightarrow> Message list" where
  "second_pass [] = []"
| "second_pass (m # ms) =
     (if is_call_turn m then
        let expected = map ID (ToolCalls m);
            filteredTools = pick_results expected [] (takeWhile is_tool ms);
            rest = second_pass (dropWhile is_tool ms)
        in if list_all (\<lambda>i. i \<in> set (map result_id filteredTools)) expected
           then m # filteredTools @ rest else rest
      else if is_tool m then second_pass ms
      else m # second_pass ms)"
  by pat_completeness auto
termination
  by (relation "measure length") (auto simp: le_imp_less_Suc length_dropWhile_le)

definition sanitizeHistoryForProvider :: "Message list \<Rightarrow> Message list" where
  "sanitizeHistoryForProvider history =
     (if history = [] then history else second_pass (first_pass [] history))"

section \<open>The message list of a request\<close>

text \<open>\<open>staticPrompt\<close>, \<open>dynamicCtx\<close> and the section on the skills of the session come from files and
  the clock; they are arguments.\<close>

definition summary_header :: string where
  "summary_header = ''CONTEXT_SUMMARY: The following is an approximate summary of prior conversation for reference only. It may be incomplete or outdated '' @
     [CHR 0xE2, CHR 0x80, CHR 0x94] @ '' always defer to explicit instructions.'' @ [CHR 0x0A, CHR 0x0A]"

definition section_separator :: string where
  "section_separator = [CHR 0x0A, CHR 0x0A] @ ''---'' @ [CHR 0x0A, CHR 0x0A]"

fun Join :: "string \<Rightarrow> string list \<Rightarrow> string" where
  "Join sep [] = []"
| "Join sep [s] = s"
| "Join sep (s # t # r) = s @ sep @ Join sep (t # r)"

definition system_parts :: "string \<Rightarrow> string \<Rightarrow> string \<Rightarrow> string \<Rightarrow> ContentBlock list" where
  "system_parts staticPrompt dynamicCtx skillsSection summary =
     [\<lparr>BlockType = ''text'', BlockText = staticPrompt, Ephemeral = True\<rparr>,
      \<lparr>BlockType = ''text'', BlockText = dynamicCtx, Ephemeral = False\<rparr>] @
     (if skillsSection \<noteq> [] then [\<lparr>BlockType = ''text'', BlockText = skillsSection, Ephemeral = False\<rparr>] else []) @
     (if summary \<noteq> []
      then [\<lparr>BlockType = ''text'', BlockText = summary_header @ summary, Ephemeral = False\<rparr>] else [])"

definition BuildMessages ::
  "string \<Rightarrow> string \<Rightarrow> string \<Rightarrow> Message list \<Rightarrow> string \<Rightarrow> string \<Rightarrow> string list \<Rightarrow> Message list" where
  "BuildMessages staticPrompt dynamicCtx skillsSection history summary currentMessage media =
     (let parts = system_parts staticPrompt dynamicCtx skillsSection summary;
          system = (text_message ''system'' (Join section_separator (map BlockText parts)))\<lparr>SystemParts := parts\<rparr>
      in system # sanitizeHistoryForProvider history @
         (if TrimSpace currentMessage \<noteq> [] then
            [(text_message ''user'' currentMessage)\<lparr>Media := media\<rparr>] else []))"

definition sanitizeDispatchMessages :: "Message list \<Rightarrow> Message list" where
  "sanitizeDispatchMessages messages =
     filter (\<lambda>m. \<not> (Role m = ''assistant'' \<and> ToolCalls m = [] \<and> Media m = [] \<and>
        TrimSpace (Content m) = [] \<and> TrimSpace (ReasoningContent m) = [])) messages"

definition ensureNonSystemDispatchMessage :: "Message list \<Rightarrow> string \<Rightarrow> Message list \<times> bool" where
  "ensureNonSystemDispatchMessage messages fallback =
     (if \<exists>m \<in> set messages. Role m \<noteq> ''system'' then (messages, False)
      else
        let text = (if TrimSpace fallback = [] then ''Continue with the previous request.'' else TrimSpace fallback)
        in (messages @ [text_message ''user'' text], True))"

section \<open>The contract of a provider\<close>

text \<open>No system message, every tool-call turn follows a user message or a tool result and is followed by
  exactly one result for each of its calls, and there are no other tool results. The first argument says
  whether a tool-call turn may come next.\<close>

function valid_from :: "bool \<Rightarrow> Message list \<Rightarrow> bool" where
  "valid_from b [] \<longleftrightarrow> True"
| "valid_from b (m # ms) \<longleftrightarrow>
     (if is_call_turn m then
        let results = map result_id (takeWhile is_tool ms)
        in b \<and> distinct results \<and> set results = set (map ID (ToolCalls m)) \<and>
           valid_from True (dropWhile is_tool ms)
      else Role m \<noteq> ''system'' \<and> Role m \<noteq> ''tool'' \<and> valid_from (Role m = ''user'') ms)"
  by pat_completeness auto
termination
  by (relation "measure (length \<circ> snd)") (auto simp: le_imp_less_Suc length_dropWhile_le)

definition valid_history :: "Message list \<Rightarrow> bool" where
  "valid_history history \<longleftrightarrow> valid_from False history"

section \<open>The first pass as an automaton\<close>

datatype hist_state = Other | AfterUser | AfterCalls | AfterResult

fun hist_next :: "hist_state \<Rightarrow> Message \<Rightarrow> hist_state option" where
  "hist_next st m =
     (if Role m = ''system'' then None
      else if is_tool m then (if st = AfterCalls \<or> st = AfterResult then Some AfterResult else None)
      else if is_call_turn m then (if st = AfterUser \<or> st = AfterResult then Some AfterCalls else None)
      else Some (if Role m = ''user'' then AfterUser else Other))"

fun hist_run :: "hist_state \<Rightarrow> Message list \<Rightarrow> hist_state option" where
  "hist_run st [] = Some st"
| "hist_run st (m # ms) = (case hist_next st m of None \<Rightarrow> None | Some st' \<Rightarrow> hist_run st' ms)"

declare hist_next.simps [simp del]

lemma hist_run_append: "hist_run st (xs @ ys) = Option.bind (hist_run st xs) (\<lambda>st'. hist_run st' ys)"
  by (induction xs arbitrary: st) (simp_all split: option.splits)

definition may_call :: "hist_state \<Rightarrow> bool" where
  "may_call st \<longleftrightarrow> st = AfterUser \<or> st = AfterResult"

text \<open>The state after a list says what the first pass asks of its last messages.\<close>

lemma hist_state_last:
  "hist_run Other xs = Some st \<Longrightarrow>
     (found_assistant (rev xs) \<longleftrightarrow> st = AfterCalls \<or> st = AfterResult) \<and>
     (may_call st \<longleftrightarrow> xs \<noteq> [] \<and> (Role (last xs) = ''user'' \<or> Role (last xs) = ''tool''))"
proof (induction xs arbitrary: st rule: rev_induct)
  case (snoc m xs)
  then obtain st0 where st0: "hist_run Other xs = Some st0" "hist_next st0 m = Some st"
    by (auto simp: hist_run_append bind_eq_Some_conv split: option.splits)
  from snoc.IH [OF st0(1)] st0(2) show ?case
    by (auto simp: hist_next.simps may_call_def is_tool_def is_call_turn_def split: if_splits)
qed (simp add: may_call_def)

lemma keep_message_iff:
  "hist_run Other xs = Some st \<Longrightarrow> keep_message xs m \<longleftrightarrow> hist_next st m \<noteq> None"
  using hist_state_last [of xs st]
  by (auto simp: keep_message_def hist_next.simps may_call_def is_tool_def is_call_turn_def)

lemma first_pass_runs: "hist_run Other xs \<noteq> None \<Longrightarrow> hist_run Other (first_pass xs ms) \<noteq> None"
proof (induction ms arbitrary: xs)
  case (Cons m ms)
  then obtain st where st: "hist_run Other xs = Some st" by blast
  have "hist_run Other (if keep_message xs m then xs @ [m] else xs) \<noteq> None"
    using st keep_message_iff [OF st, of m] by (auto simp: hist_run_append)
  from Cons.IH [OF this] show ?case by simp
qed simp

lemma first_pass_id: "hist_run Other (xs @ ms) \<noteq> None \<Longrightarrow> first_pass xs ms = xs @ ms"
proof (induction ms arbitrary: xs)
  case (Cons m ms)
  then obtain st where st: "hist_run Other xs = Some st" "hist_next st m \<noteq> None"
    by (auto simp: hist_run_append bind_eq_Some_conv split: option.splits)
  with Cons.IH [of "xs @ [m]"] Cons.prems show ?case by (simp add: keep_message_iff [OF st(1)])
qed simp

section \<open>Valid histories\<close>

lemma valid_weaken: "valid_from False ms \<Longrightarrow> valid_from b ms"
  by (cases ms) (simp_all split: if_splits)

lemma valid_not_tool: "valid_from b ms \<Longrightarrow> takeWhile is_tool ms = []"
  by (cases ms) (auto simp: is_tool_def is_call_turn_def split: if_splits)

lemma pick_results_props:
  "distinct (map result_id (pick_results expected matched ms)) \<and>
   set (map result_id (pick_results expected matched ms)) \<subseteq> set expected - set matched \<and>
   set (pick_results expected matched ms) \<subseteq> set ms"
proof (induction expected matched ms rule: pick_results.induct)
  case (2 expected matched m ms)
  consider "result_id m \<notin> set expected \<or> result_id m \<in> set matched"
    | "result_id m \<in> set expected" "result_id m \<notin> set matched" by blast
  then show ?case
  proof cases
    case 1
    then have "pick_results expected matched (m # ms) = pick_results expected matched ms" by auto
    with 1 "2.IH"(1,2) show ?thesis by auto
  next
    case 2
    with "2.IH"(3) show ?thesis by auto
  qed
qed simp

lemma pick_results_id:
  "distinct (map result_id ms) \<Longrightarrow> set (map result_id ms) \<subseteq> set expected - set matched \<Longrightarrow>
   pick_results expected matched ms = ms"
proof (induction ms arbitrary: matched)
  case (Cons m ms)
  then have "pick_results expected (result_id m # matched) ms = ms" by (intro Cons.IH) (simp_all, blast)
  with Cons.prems show ?case by simp
qed simp

lemma takeWhile_dropWhile_append:
  "list_all P xs \<Longrightarrow> takeWhile P ys = [] \<Longrightarrow> takeWhile P (xs @ ys) = xs \<and> dropWhile P (xs @ ys) = ys"
  by (induction xs) (auto simp: takeWhile_eq_Nil_iff dropWhile_eq_self_iff)

lemma hist_run_tools:
  "hist_run st ms \<noteq> None \<Longrightarrow> \<exists>st'. hist_run st' (dropWhile is_tool ms) \<noteq> None \<and>
     (st' = st \<or> st' = AfterResult)"
proof (induction ms arbitrary: st)
  case (Cons m ms)
  show ?case
  proof (cases "is_tool m")
    case True
    with Cons.prems have "hist_run AfterResult ms \<noteq> None"
      by (auto simp: hist_next.simps split: if_splits option.splits)
    from Cons.IH [OF this] True show ?thesis by auto
  next
    case False
    with Cons.prems show ?thesis by auto
  qed
qed auto

lemma second_pass_valid:
  "hist_run st ms \<noteq> None \<Longrightarrow> takeWhile is_tool ms = [] \<Longrightarrow> valid_from (may_call st) (second_pass ms)"
proof (induction ms arbitrary: st rule: second_pass.induct)
  case (2 m ms)
  from "2.prems" have no_tool: "\<not> is_tool m" by (auto split: if_splits)
  show ?case
  proof (cases "is_call_turn m")
    case True
    let ?results = "pick_results (map ID (ToolCalls m)) [] (takeWhile is_tool ms)"
    let ?rest = "second_pass (dropWhile is_tool ms)"
    from "2.prems" True no_tool have st: "may_call st" and "hist_run AfterCalls ms \<noteq> None"
      by (auto simp: hist_next.simps may_call_def split: if_splits option.splits)
    from hist_run_tools [OF this(2)] obtain st' where "hist_run st' (dropWhile is_tool ms) \<noteq> None" by blast
    moreover have "takeWhile is_tool (dropWhile is_tool ms) = []"
      by (metis takeWhile_eq_Nil_iff hd_dropWhile)
    ultimately have "valid_from (may_call st') ?rest"
      using "2.IH"(1) [OF True refl refl] by blast
    then have rest: "valid_from b ?rest" if "b" for b
      using that valid_weaken by (cases "may_call st'") auto
    have tools: "list_all is_tool ?results"
      using pick_results_props [of "map ID (ToolCalls m)" "[]" "takeWhile is_tool ms"]
      by (auto simp: list_all_iff dest: set_takeWhileD)
    have "valid_from True (m # ?results @ ?rest)"
      if "list_all (\<lambda>i. i \<in> set (map result_id ?results)) (map ID (ToolCalls m))"
    proof -
      have "set (map result_id ?results) = set (map ID (ToolCalls m))"
        using that pick_results_props [of "map ID (ToolCalls m)" "[]" "takeWhile is_tool ms"]
        by (auto simp: list_all_iff)
      moreover have "distinct (map result_id ?results)" using pick_results_props by blast
      ultimately show ?thesis
        using True rest [OF TrueI] takeWhile_dropWhile_append [OF tools valid_not_tool [OF rest [OF TrueI]]]
        by simp
    qed
    then show ?thesis using True st rest by (simp add: Let_def)
  next
    case False
    with "2.prems" no_tool have sys: "Role m \<noteq> ''system''"
      and run: "hist_run (if Role m = ''user'' then AfterUser else Other) ms \<noteq> None"
      by (auto simp: hist_next.simps split: if_splits option.splits)
    have "takeWhile is_tool ms = []"
      using run by (cases ms) (auto simp: hist_next.simps split: if_splits option.splits)
    from "2.IH"(3) [OF False no_tool run this] False no_tool sys show ?thesis
      by (auto simp: may_call_def is_tool_def split: if_splits)
  qed
qed simp

lemma valid_runs:
  "valid_from (may_call st) ms \<Longrightarrow> hist_run st ms \<noteq> None"
proof (induction "may_call st" ms arbitrary: st rule: valid_from.induct)
  case (2 m ms)
  have tools: "hist_run AfterCalls xs = Some (if xs = [] then AfterCalls else AfterResult) \<and>
      hist_run AfterResult xs = Some AfterResult" if "list_all is_tool xs" for xs
    using that by (induction xs) (auto simp: hist_next.simps is_tool_def)
  show ?case
  proof (cases "is_call_turn m")
    case True
    let ?tools = "takeWhile is_tool ms"
    have all: "list_all is_tool ?tools" by (auto simp: list_all_iff dest: set_takeWhileD)
    from True "2.prems" have "?tools \<noteq> []" by (auto simp: is_call_turn_def)
    with tools [OF all] have "hist_run AfterCalls ?tools = Some AfterResult" by simp
    moreover have "hist_run AfterResult (dropWhile is_tool ms) \<noteq> None"
      using "2.hyps"(1) [OF True refl, of AfterResult] True "2.prems" by (simp add: may_call_def)
    moreover have "hist_next st m = Some AfterCalls"
      using True "2.prems" by (auto simp: hist_next.simps may_call_def is_call_turn_def is_tool_def)
    moreover have "hist_run AfterCalls ms = hist_run AfterCalls (?tools @ dropWhile is_tool ms)" by simp
    ultimately show ?thesis unfolding hist_run.simps by (simp add: hist_run_append del: takeWhile_dropWhile_id)
  next
    case False
    let ?st = "if Role m = ''user'' then AfterUser else Other"
    have "hist_next st m = Some ?st"
      using False "2.prems" by (auto simp: hist_next.simps is_tool_def)
    moreover have "hist_run ?st ms \<noteq> None"
      using "2.hyps"(2) [OF False, of ?st] False "2.prems" by (auto simp: may_call_def split: if_splits)
    ultimately show ?thesis by simp
  qed
qed simp

lemma second_pass_id: "valid_from b ms \<Longrightarrow> second_pass ms = ms"
proof (induction b ms rule: valid_from.induct)
  case (2 b m ms)
  show ?case
  proof (cases "is_call_turn m")
    case True
    let ?tools = "takeWhile is_tool ms"
    from True "2.prems" have ids: "distinct (map result_id ?tools)"
      "set (map result_id ?tools) = set (map ID (ToolCalls m))" by simp_all
    then have "pick_results (map ID (ToolCalls m)) [] ?tools = ?tools"
      by (intro pick_results_id) auto
    with True ids "2.prems" "2.IH"(1) [OF True refl] show ?thesis
      by (simp add: Let_def list_all_iff)
  next
    case False
    with "2.prems" "2.IH"(2) [OF False] show ?thesis by (simp add: is_tool_def)
  qed
qed simp

lemma valid_sanitize: "valid_history (sanitizeHistoryForProvider history)"
proof (cases "history = []")
  case False
  have run: "hist_run Other (first_pass [] history) \<noteq> None"
    by (rule first_pass_runs) simp
  then have "takeWhile is_tool (first_pass [] history) = []"
    by (cases "first_pass [] history") (auto simp: hist_next.simps split: if_splits option.splits)
  from second_pass_valid [OF run this] False show ?thesis
    by (simp add: valid_history_def sanitizeHistoryForProvider_def may_call_def)
qed (simp add: valid_history_def sanitizeHistoryForProvider_def)

text \<open>C4. What is sent of a history always satisfies the contract of the providers: every tool call has exactly
  one result right after it, no result stands alone, and no system message is left.\<close>

theorem sanitized_history_valid: "valid_history (sanitizeHistoryForProvider history)"
  by (rule valid_sanitize)

lemma sanitize_valid_id: "valid_history history \<Longrightarrow> sanitizeHistoryForProvider history = history"
  using valid_runs [of Other history] first_pass_id [of "[]" history] second_pass_id
  by (auto simp: valid_history_def sanitizeHistoryForProvider_def may_call_def)

definition plain :: "Message \<Rightarrow> bool" where
  "plain m \<longleftrightarrow> Role m \<noteq> ''system'' \<and> Role m \<noteq> ''tool'' \<and> \<not> is_call_turn m"

lemma first_pass_plain: "filter plain (first_pass xs ms) = filter plain xs @ filter plain ms"
proof (induction ms arbitrary: xs)
  case (Cons m ms)
  have "plain m \<Longrightarrow> keep_message xs m"
    by (auto simp: plain_def keep_message_def is_call_turn_def)
  with Cons show ?case by simp
qed simp

lemma filter_tools [simp]: "list_all is_tool ms \<Longrightarrow> filter plain ms = []"
  by (induction ms) (auto simp: plain_def is_tool_def)

lemma filter_dropWhile_tool [simp]: "filter plain (dropWhile is_tool ms) = filter plain ms"
  by (induction ms) (auto simp: plain_def is_tool_def)

lemma second_pass_plain: "filter plain (second_pass ms) = filter plain ms"
proof (induction ms rule: second_pass.induct)
  case (2 m ms)
  have "list_all is_tool (pick_results e [] (takeWhile is_tool ms))" for e
    using pick_results_props [of e "[]" "takeWhile is_tool ms"] by (auto simp: list_all_iff dest: set_takeWhileD)
  moreover have "is_call_turn m \<Longrightarrow> \<not> plain m" and "is_tool m \<Longrightarrow> \<not> plain m"
    by (simp_all add: plain_def is_tool_def)
  ultimately show ?case using 2 by (auto simp: Let_def)
qed simp

lemma sanitize_plain: "filter plain (sanitizeHistoryForProvider history) = filter plain history"
  using first_pass_plain [of "[]" history] second_pass_plain [of "first_pass [] history"]
  by (auto simp: sanitizeHistoryForProvider_def)

lemma first_pass_subseq: "subseq (first_pass xs ms) (xs @ ms)"
proof (induction ms arbitrary: xs)
  case (Cons m ms)
  show ?case
  proof (cases "keep_message xs m")
    case True
    with Cons.IH [of "xs @ [m]"] show ?thesis by simp
  next
    case False
    have "subseq (xs @ ms) (xs @ m # ms)" by (rule list_emb_append_mono) auto
    with Cons.IH [of xs] have "subseq (first_pass xs ms) (xs @ m # ms)" by (rule subseq_order.order_trans)
    with False show ?thesis by simp
  qed
qed simp

lemma pick_results_subseq: "subseq (pick_results e k ms) ms"
  by (induction e k ms rule: pick_results.induct) auto

lemma second_pass_subseq: "subseq (second_pass ms) ms"
proof (induction ms rule: second_pass.induct)
  case (2 m ms)
  show ?case
  proof (cases "is_call_turn m")
    case True
    have rest: "subseq (second_pass (dropWhile is_tool ms)) (dropWhile is_tool ms)"
      using "2.IH"(1) [OF True refl refl] .
    then have "subseq (pick_results e [] (takeWhile is_tool ms) @ second_pass (dropWhile is_tool ms))
        (takeWhile is_tool ms @ dropWhile is_tool ms)" for e
      using pick_results_subseq list_emb_append_mono by blast
    moreover have "subseq (second_pass (dropWhile is_tool ms)) ms"
      using rest by (metis suffix_dropWhile suffix_imp_subseq subseq_order.trans)
    ultimately show ?thesis using True by (simp add: Let_def list_emb_Cons)
  next
    case False
    with 2 show ?thesis by auto
  qed
qed simp

lemma sanitize_subseq: "subseq (sanitizeHistoryForProvider ms) ms"
  using first_pass_subseq [of "[]" ms] second_pass_subseq [of "first_pass [] ms"]
  by (auto simp: sanitizeHistoryForProvider_def intro: subseq_order.trans)

text \<open>A subsequence that has all plain messages splits at each of them.\<close>

lemma subseq_split_plain:
  assumes "subseq ys (a @ m # t)" "filter plain ys = filter plain (a @ m # t)" "plain m"
  shows "\<exists>b c. ys = b @ m # c \<and> subseq c t"
proof -
  from assms(1) obtain b c where ys: "ys = b @ c" "subseq b a" "subseq c (m # t)"
    by (metis list_emb_appendD subseq_append_iff)
  have "length (filter plain b) \<le> length (filter plain a)"
    "length (filter plain c) \<le> length (filter plain (m # t))"
    using list_emb_length [OF subseq_filter [OF ys(2)]] list_emb_length [OF subseq_filter [OF ys(3)]] by auto
  moreover have "length (filter plain b) + length (filter plain c) =
      length (filter plain a) + length (filter plain (m # t))"
    using assms(2) ys(1) by (metis filter_append length_append)
  ultimately have c: "length (filter plain c) = Suc (length (filter plain t))"
    using assms(3) by simp
  have "\<not> subseq c t"
  proof
    assume "subseq c t"
    from list_emb_length [OF subseq_filter [OF this, of plain]] c show False by simp
  qed
  with ys(3) obtain c' where "c = m # c'" "subseq c' t" by (cases c) (auto split: if_splits)
  with ys(1) show ?thesis by blast
qed

text \<open>Sanitizing loses nothing that has a place in a request: it keeps every message that is neither a system message
  nor part of a tool turn, in order, and exactly the histories that satisfy the contract are left as they are.\<close>

theorem sanitize_keeps:
  "filter plain (sanitizeHistoryForProvider history) = filter plain history \<and>
   (sanitizeHistoryForProvider history = history) = valid_history history"
proof
  show "filter plain (sanitizeHistoryForProvider history) = filter plain history"
    by (rule sanitize_plain)
  show "(sanitizeHistoryForProvider history = history) = valid_history history"
    using sanitize_valid_id valid_sanitize [of history] by metis
qed

end
