(* ===== verification/ContextBudget.thy ===== *)
theory ContextBudget
  imports History ModelRef Float64 Runes
begin

text \<open>
  The context guard of the agent: \<open>pkg/agent/context_budget.go\<close>, with \<open>estimateTokens_msgs\<close> of
  \<open>pkg/agent/loop.go\<close>. Before a model is called the number of its input tokens is predicted; when it
  is over the limit, the messages are compacted in up to three stages. The second stage asks a
  model for a summary: its effect on the messages is an argument. Token counts are integers below \<open>2 ^ 53\<close>,
  ratios are doubles.
\<close>

record ContextGuardConfig =
  GuardEnabled :: bool
  GuardSafetyMargin :: int
  TargetInputRatio :: rat
  PrecheckTriggerRatio :: rat
  EmergencyInputRatio :: rat
  MaxCompactionPasses :: int
  PreserveRecentMessages :: int
  DebugDump :: bool

record contextBudget =
  ContextWindow :: int
  RequestedOutputTokens :: int
  SafetyMarginTokens :: int
  EffectiveInputLimit :: int
  TargetInputTokens :: int
  EmergencyInputTokens :: int

definition zero_guard :: ContextGuardConfig where
  "zero_guard = \<lparr>GuardEnabled = False, GuardSafetyMargin = 0, TargetInputRatio = 0, PrecheckTriggerRatio = 0,
     EmergencyInputRatio = 0, MaxCompactionPasses = 0, PreserveRecentMessages = 0, DebugDump = False\<rparr>"

definition estimatorFixedReserveTokens :: int where "estimatorFixedReserveTokens = 512"
definition defaultEmergencyRatio :: rat where "defaultEmergencyRatio = fl (60 / 100)"
definition defaultPreserveRecent :: int where "defaultPreserveRecent = 6"

definition ratio_or :: "rat \<Rightarrow> rat \<Rightarrow> rat" where
  "ratio_or d r = (if r \<le> 0 \<or> 1 < r then d else r)"

definition count_or :: "int \<Rightarrow> int \<Rightarrow> int" where
  "count_or d n = (if n \<le> 0 then d else n)"

definition normalizeContextGuard :: "ContextGuardConfig \<Rightarrow> ContextGuardConfig" where
  "normalizeContextGuard guard =
     (let g = (if guard = zero_guard then guard\<lparr>GuardEnabled := True\<rparr> else guard)
      in g\<lparr>GuardSafetyMargin := count_or 2048 (GuardSafetyMargin g),
           TargetInputRatio := ratio_or (fl (78 / 100)) (TargetInputRatio g),
           PrecheckTriggerRatio := ratio_or (fl (85 / 100)) (PrecheckTriggerRatio g),
           EmergencyInputRatio := ratio_or defaultEmergencyRatio (EmergencyInputRatio g),
           MaxCompactionPasses := count_or 3 (MaxCompactionPasses g),
           PreserveRecentMessages := count_or defaultPreserveRecent (PreserveRecentMessages g)\<rparr>)"

definition computeContextBudget :: "int \<Rightarrow> int \<Rightarrow> ContextGuardConfig \<Rightarrow> contextBudget" where
  "computeContextBudget contextWindow requestedOutput guard =
     (let g = normalizeContextGuard guard;
          window = max 0 contextWindow;
          output = max 0 requestedOutput;
          effective = max 0 (window - output - GuardSafetyMargin g);
          target = trunc (fl (of_int effective * TargetInputRatio g));
          emergency = trunc (fl (of_int effective * EmergencyInputRatio g))
      in \<lparr>ContextWindow = window, RequestedOutputTokens = output, SafetyMarginTokens = GuardSafetyMargin g,
          EffectiveInputLimit = effective,
          TargetInputTokens = (if target \<le> 0 then effective else target),
          EmergencyInputTokens = (if emergency \<le> 0 then effective else emergency)\<rparr>)"

section \<open>Predicting the input tokens\<close>

definition estimateTokens_msgs :: "Message list \<Rightarrow> int" where
  "estimateTokens_msgs messages = (\<Sum>m\<leftarrow>messages. int (length (runes (Content m)))) * 2 div 5"

definition estimateInputTokensWithOverhead :: "int \<Rightarrow> int" where
  "estimateInputTokensWithOverhead tokens =
     (let est = tokens + tokens div 10 + estimatorFixedReserveTokens
      in if est < estimatorFixedReserveTokens then estimatorFixedReserveTokens else est)"

definition usage_anchor :: "Message \<Rightarrow> UsageInfo option" where
  "usage_anchor m =
     (if Role m \<noteq> ''assistant'' then None
      else case Usage m of
          None \<Rightarrow> None
        | Some u \<Rightarrow> if TotalTokens u \<le> 0 then None else Some u)"

text \<open>Walking back: the last message with a usage report, and the messages after it.\<close>

fun latestUsageAnchor :: "Message list \<Rightarrow> (UsageInfo \<times> Message list) option" where
  "latestUsageAnchor [] = None"
| "latestUsageAnchor (m # ms) =
     (case latestUsageAnchor ms of
        Some r \<Rightarrow> Some r
      | None \<Rightarrow> map_option (\<lambda>u. (u, ms)) (usage_anchor m))"

datatype count_source = UsageAnchor | Estimator

definition estimateInputTokens :: "Message list \<Rightarrow> int \<times> count_source" where
  "estimateInputTokens messages =
     (case latestUsageAnchor messages of
        Some (usage, tail) \<Rightarrow>
          (TotalTokens usage + estimateInputTokensWithOverhead (estimateTokens_msgs tail), UsageAnchor)
      | None \<Rightarrow> (estimateInputTokensWithOverhead (estimateTokens_msgs messages), Estimator))"

section \<open>The options and the candidates of a turn\<close>

datatype opt_value = OptInt int | OptInt64 int | OptFloat rat | OptOther

definition getRequestedOutputTokens :: "opt_value option \<Rightarrow> int \<Rightarrow> int" where
  "getRequestedOutputTokens max_tokens defaultValue =
     (let default = (if defaultValue < 0 then 0 else defaultValue)
      in case max_tokens of
           Some (OptInt n) \<Rightarrow> if 0 < n then n else default
         | Some (OptInt64 n) \<Rightarrow> if 0 < n then n else default
         | Some (OptFloat r) \<Rightarrow> if 0 < r then trunc r else default
         | _ \<Rightarrow> default)"

record agent_limits =
  AgentWindow :: int
  AgentMaxTokens :: int
  AgentGuard :: ContextGuardConfig
  CandidateWindows :: "(string \<times> int) list"

definition candidate_window :: "agent_limits \<Rightarrow> FallbackCandidate \<Rightarrow> int" where
  "candidate_window agent c =
     (case map_of (CandidateWindows agent) (ModelKey (CandProvider c) (CandModel c)) of Some w \<Rightarrow> w | None \<Rightarrow> 0)"

definition resolveContextWindowForTurn ::
  "agent_limits \<Rightarrow> FallbackCandidate list \<Rightarrow> ContextGuardConfig \<Rightarrow> int \<Rightarrow> int" where
  "resolveContextWindowForTurn agent candidates guard requestedOutput =
     (let maxWindow = foldl (\<lambda>w c. if w < candidate_window agent c then candidate_window agent c else w)
            (AgentWindow agent) candidates;
          minRequired = requestedOutput + GuardSafetyMargin guard + 1024
      in if maxWindow < minRequired then minRequired else maxWindow)"

definition orderCandidatesByContextWindow ::
  "agent_limits \<Rightarrow> FallbackCandidate list \<Rightarrow> FallbackCandidate list" where
  "orderCandidatesByContextWindow agent candidates =
     (if length candidates \<le> 1 then candidates
      else sort_key (\<lambda>c. - (if candidate_window agent c \<le> 0 then AgentWindow agent else candidate_window agent c))
        candidates)"

section \<open>The first stage: shorter contents\<close>

definition compactText :: "string \<Rightarrow> int \<Rightarrow> string \<Rightarrow> string" where
  "compactText text keepRunes suffix' =
     (let keep = nat keepRunes in
      if length (runes text) \<le> keep then text
      else TrimSpace (of_runes (take keep (runes text))) @ suffix')"

definition prune_message :: "Message \<Rightarrow> Message option" where
  "prune_message m =
     (if Role m = ''tool'' \<and> 1200 < length (Content m) then
        Some (m\<lparr>Content := compactText (Content m) 450
          (CHR 0x0A # ''[tool output truncated for context budget]'')\<rparr>)
      else if Role m = ''assistant'' \<and> ToolCalls m = [] \<and> 1800 < length (Content m) then
        Some (m\<lparr>Content := compactText (Content m) 800
          (CHR 0x0A # ''[assistant content truncated for context budget]'')\<rparr>)
      else if Role m = ''assistant'' \<and> ToolCalls m \<noteq> [] \<and> 800 < length (Content m) then
        Some (m\<lparr>Content := compactText (Content m) 300
          (CHR 0x0A # ''[assistant tool preface truncated]'')\<rparr>)
      else None)"

definition prune_or_keep :: "Message \<Rightarrow> Message" where
  "prune_or_keep m = (case prune_message m of Some m' \<Rightarrow> m' | None \<Rightarrow> m)"

definition pruneLowValueHistoricalPayloads :: "Message list \<Rightarrow> int \<Rightarrow> Message list \<times> bool" where
  "pruneLowValueHistoricalPayloads messages preserveRecent =
     (if messages = [] then (messages, False)
      else
        let recent = count_or defaultPreserveRecent preserveRecent;
            trimBefore = nat (max 1 (int (length messages) - recent));
            old = take (trimBefore - 1) (tl messages)
        in (hd messages # map prune_or_keep old @ drop (trimBefore - 1) (tl messages),
            \<exists>m \<in> set old. prune_message m \<noteq> None))"

section \<open>The last stage: older messages go\<close>

text \<open>The indices that the two searches from the end give.\<close>

definition last_index :: "(nat \<Rightarrow> bool) \<Rightarrow> nat \<Rightarrow> nat \<Rightarrow> nat option" where
  "last_index P from' to' =
     (let is = filter P [from'..<to'] in if is = [] then None else Some (last is))"

definition findLatestUserMessageIndex :: "Message list \<Rightarrow> nat option" where
  "findLatestUserMessageIndex messages =
     last_index (\<lambda>i. Role (messages ! i) = ''user'') 0 (length messages)"

definition answered_turn :: "Message list \<Rightarrow> nat \<Rightarrow> bool" where
  "answered_turn messages i \<longleftrightarrow>
     (let expected = filter (\<lambda>x. x \<noteq> []) (map ID (ToolCalls (messages ! i)));
          results = map ToolCallID (takeWhile is_tool (drop (i + 1) messages))
      in is_call_turn (messages ! i) \<and> expected \<noteq> [] \<and> set expected \<subseteq> set results)"

definition findLatestToolBoundaryStart :: "Message list \<Rightarrow> nat option" where
  "findLatestToolBoundaryStart messages = last_index (answered_turn messages) 1 (length messages)"

definition may_precede :: "Message \<Rightarrow> bool" where
  "may_precede m \<longleftrightarrow> Role m = ''user'' \<or> Role m = ''tool''"

definition ratio_start :: "Message list \<Rightarrow> rat \<Rightarrow> int \<Rightarrow> nat" where
  "ratio_start messages ratio recent =
     (let keep = max 1 \<lceil>fl (of_nat (length messages - 1) * ratio)\<rceil>;
          start = nat (max 1 (int (length messages) - keep))
      in min start (nat (max 1 (int (length messages) - recent))))"

definition trim_start :: "Message list \<Rightarrow> rat \<Rightarrow> int \<Rightarrow> nat" where
  "trim_start messages ratio recent =
     (let start1 = ratio_start messages ratio recent;
          start2 = (case findLatestUserMessageIndex messages of
              Some i \<Rightarrow> if 0 < i \<and> i < start1 then i else start1 | None \<Rightarrow> start1)
      in case findLatestToolBoundaryStart messages of
           Some b \<Rightarrow> if 0 < b \<and> b < start2 then b else start2 | None \<Rightarrow> start2)"

text \<open>A tool-call turn needs a user message or a tool result before it: the messages between it and the last one
  are left out, or one is fetched from before the start.\<close>

definition bridge_boundary :: "Message list \<Rightarrow> nat \<Rightarrow> Message list" where
  "bridge_boundary messages start =
     (let conversation = drop start messages in
      case findLatestToolBoundaryStart messages of
        None \<Rightarrow> conversation
      | Some boundary \<Rightarrow>
          if boundary < start then conversation
          else
            let l = boundary - start in
            if 0 < l \<and> may_precede (conversation ! (l - 1)) then conversation
            else
              (case last_index (\<lambda>i. may_precede (conversation ! i)) 0 l of
                 Some bridge \<Rightarrow> take (bridge + 1) conversation @ drop l conversation
               | None \<Rightarrow>
                   (case last_index (\<lambda>i. may_precede (messages ! i)) 1 boundary of
                      Some i \<Rightarrow> messages ! i # conversation
                    | None \<Rightarrow> conversation)))"

definition emergencyTrimMessages :: "Message list \<Rightarrow> rat \<Rightarrow> int \<Rightarrow> Message list" where
  "emergencyTrimMessages messages retentionRatio preserveRecent =
     (if length messages \<le> 2 then messages
      else
        let ratio = ratio_or defaultEmergencyRatio retentionRatio;
            recent = count_or defaultPreserveRecent preserveRecent;
            system = hd messages;
            start = trim_start messages ratio recent;
            trimmed = sanitizeHistoryForProvider (system # bridge_boundary messages start)
        in if trimmed = [] then [system]
           else if Role (hd trimmed) \<noteq> ''system'' then system # trimmed
           else trimmed)"

section \<open>Compaction\<close>

definition same_message :: "Message \<Rightarrow> Message \<Rightarrow> bool" where
  "same_message a b \<longleftrightarrow> Role a = Role b \<and> Content a = Content b \<and> ToolCallID a = ToolCallID b \<and>
     length (ToolCalls a) = length (ToolCalls b)"

definition messagesEqual :: "Message list \<Rightarrow> Message list \<Rightarrow> bool" where
  "messagesEqual a b \<longleftrightarrow> list_all2 same_message a b"

datatype compactionStage = StagePrune | StageSummary | StageEmergency

record guard_counters =
  compactionTriggered :: nat
  compactionStageFail :: nat
  contextBudgetUnfit :: nat

datatype budget_error = ContextBudgetUnfit int int

text \<open>The second stage summarizes the stored session and builds the messages anew, so the sessions \<open>sess\<close> go through
  the stages; \<open>summarize\<close> is that stage (\<open>summarizeAndRebuildMessages\<close> of theory Summaries in a turn).\<close>

definition run_stage ::
  "('s \<Rightarrow> Message list \<Rightarrow> 's \<times> Message list \<times> bool) \<Rightarrow> ContextGuardConfig \<Rightarrow> compactionStage \<Rightarrow> 's \<Rightarrow> Message list \<Rightarrow>
   's \<times> Message list \<times> bool" where
  "run_stage summarize guard stage sess working =
     (case stage of
        StagePrune \<Rightarrow> (sess, pruneLowValueHistoricalPayloads working (PreserveRecentMessages guard))
      | StageSummary \<Rightarrow> summarize sess working
      | StageEmergency \<Rightarrow>
          let next' = emergencyTrimMessages working (EmergencyInputRatio guard) (PreserveRecentMessages guard)
          in (sess, next', \<not> messagesEqual working next'))"

fun compact_passes ::
  "('s \<Rightarrow> Message list \<Rightarrow> 's \<times> Message list \<times> bool) \<Rightarrow> ContextGuardConfig \<Rightarrow> int \<Rightarrow> compactionStage list \<Rightarrow>
   's \<Rightarrow> Message list \<Rightarrow> int \<Rightarrow> guard_counters \<Rightarrow> 's \<times> guard_counters \<times> (budget_error + Message list)" where
  "compact_passes summarize guard limit [] sess working predicted cnt =
     (sess, cnt\<lparr>contextBudgetUnfit := Suc (contextBudgetUnfit cnt)\<rparr>, Inl (ContextBudgetUnfit predicted limit))"
| "compact_passes summarize guard limit (stage # stages) sess working predicted cnt =
     (let (sess', working', changed) = run_stage summarize guard stage sess working;
          predicted' = fst (estimateInputTokens working');
          cnt' = (if changed then cnt else cnt\<lparr>compactionStageFail := Suc (compactionStageFail cnt)\<rparr>)
      in if predicted' \<le> limit then (sess', cnt', Inr working')
         else compact_passes summarize guard limit stages sess' working' predicted' cnt')"

definition compaction_stages :: "ContextGuardConfig \<Rightarrow> bool \<Rightarrow> compactionStage list" where
  "compaction_stages guard forceEmergency =
     take (nat (MaxCompactionPasses guard))
       (if forceEmergency then [StageEmergency] else [StagePrune, StageSummary, StageEmergency])"

definition turn_budget ::
  "agent_limits \<Rightarrow> opt_value option \<Rightarrow> FallbackCandidate list \<Rightarrow> contextBudget" where
  "turn_budget agent max_tokens candidates =
     (let guard = normalizeContextGuard (AgentGuard agent);
          requestedOutput = getRequestedOutputTokens max_tokens (AgentMaxTokens agent)
      in computeContextBudget (resolveContextWindowForTurn agent candidates guard requestedOutput)
           requestedOutput guard)"

definition compactToBudget ::
  "('s \<Rightarrow> Message list \<Rightarrow> 's \<times> Message list \<times> bool) \<Rightarrow> agent_limits \<Rightarrow> 's \<Rightarrow> Message list \<Rightarrow> opt_value option \<Rightarrow>
   FallbackCandidate list \<Rightarrow> bool \<Rightarrow> guard_counters \<Rightarrow> 's \<times> guard_counters \<times> (budget_error + Message list)" where
  "compactToBudget summarize agent sess messages max_tokens candidates forceEmergency cnt =
     (let guard = normalizeContextGuard (AgentGuard agent) in
      if \<not> GuardEnabled guard then (sess, cnt, Inr messages)
      else
        let limit = EffectiveInputLimit (turn_budget agent max_tokens candidates);
            predicted = fst (estimateInputTokens messages)
        in if predicted \<le> limit \<and> \<not> forceEmergency then (sess, cnt, Inr messages)
           else compact_passes summarize guard limit (compaction_stages guard forceEmergency) sess messages
                  predicted (cnt\<lparr>compactionTriggered := Suc (compactionTriggered cnt)\<rparr>))"

definition decideContextBudgetPrecheck ::
  "agent_limits \<Rightarrow> Message list \<Rightarrow> opt_value option \<Rightarrow> FallbackCandidate list \<Rightarrow> bool \<Rightarrow> bool" where
  "decideContextBudgetPrecheck agent messages max_tokens candidates forceEmergency =
     (let guard = normalizeContextGuard (AgentGuard agent);
          limit = EffectiveInputLimit (turn_budget agent max_tokens candidates);
          (predicted, countSource) = estimateInputTokens messages
      in if \<not> forceEmergency \<and> countSource = UsageAnchor
         then fl (of_int limit * PrecheckTriggerRatio guard) \<le> of_int predicted
         else True)"

section \<open>Budgets\<close>

lemma fl_ratio: "0 < (n :: rat) \<Longrightarrow> n \<le> 1 \<Longrightarrow> fl n \<le> 1"
  using fl_le_int [of n 1] exponent_le_52 [of n] by simp

lemma default_ratios: "0 < fl (78 / 100)" "0 < fl (60 / 100)" "0 < fl (85 / 100)"
  by code_simp+

lemma ratio_or_range: "0 < d \<Longrightarrow> d \<le> 1 \<Longrightarrow> 0 < ratio_or d r \<and> ratio_or d r \<le> 1"
  by (simp add: ratio_or_def)

lemma normal_guard:
  "0 < TargetInputRatio (normalizeContextGuard g) \<and> TargetInputRatio (normalizeContextGuard g) \<le> 1"
  "0 < EmergencyInputRatio (normalizeContextGuard g) \<and> EmergencyInputRatio (normalizeContextGuard g) \<le> 1"
  "0 < GuardSafetyMargin (normalizeContextGuard g)"
  "0 < PreserveRecentMessages (normalizeContextGuard g)"
  "0 < MaxCompactionPasses (normalizeContextGuard g)"
  "0 < PrecheckTriggerRatio (normalizeContextGuard g) \<and> PrecheckTriggerRatio (normalizeContextGuard g) \<le> 1"
  using ratio_or_range default_ratios fl_ratio
  by (simp_all add: normalizeContextGuard_def count_or_def defaultEmergencyRatio_def defaultPreserveRecent_def Let_def)

lemma normalize_idem: "normalizeContextGuard (normalizeContextGuard g) = normalizeContextGuard g"
proof -
  let ?n = "normalizeContextGuard g"
  have "?n \<noteq> zero_guard"
    using normal_guard(3) [of g] by (auto simp: zero_guard_def)
  with normal_guard [of g] show ?thesis
    unfolding normalizeContextGuard_def [of ?n] by (simp add: ratio_or_def count_or_def Let_def)
qed

lemma requested_output_nonneg: "0 \<le> getRequestedOutputTokens v d"
  by (auto simp: getRequestedOutputTokens_def trunc_def Let_def split: option.splits opt_value.splits)

text \<open>C31. The budget of a turn always leaves at least 1024 tokens for the input, it gives away exactly the window that the turn
  works with, and the two compaction targets are positive and lie within the input limit: whatever is configured, as long as that
  window is less than 2^53 tokens (above that a product with a ratio is not exact).\<close>

theorem turn_budget_bounds:
  assumes "b = turn_budget agent max_tokens candidates" and "ContextWindow b < 2 ^ 53"
  shows "1024 \<le> EffectiveInputLimit b \<and>
    EffectiveInputLimit b + RequestedOutputTokens b + SafetyMarginTokens b = ContextWindow b \<and>
    0 < TargetInputTokens b \<and> TargetInputTokens b \<le> EffectiveInputLimit b \<and>
    0 < EmergencyInputTokens b \<and> EmergencyInputTokens b \<le> EffectiveInputLimit b"
proof -
  let ?g = "normalizeContextGuard (AgentGuard agent)"
  let ?out = "getRequestedOutputTokens max_tokens (AgentMaxTokens agent)"
  let ?w = "resolveContextWindowForTurn agent candidates ?g ?out"
  have w: "?out + GuardSafetyMargin ?g + 1024 \<le> ?w"
    by (simp add: resolveContextWindowForTurn_def Let_def)
  have out: "0 \<le> ?out" by (rule requested_output_nonneg)
  have margin: "0 < GuardSafetyMargin ?g" by (rule normal_guard)
  have eff: "EffectiveInputLimit b = ?w - ?out - GuardSafetyMargin ?g" "ContextWindow b = ?w"
    "RequestedOutputTokens b = ?out" "SafetyMarginTokens b = GuardSafetyMargin ?g"
    using w out margin
    by (simp_all add: assms(1) turn_budget_def computeContextBudget_def normalize_idem Let_def)
  have "EffectiveInputLimit b < 2 ^ 53" and pos: "1024 \<le> EffectiveInputLimit b"
    using eff assms(2) w out margin by simp_all
  then have scale: "trunc (fl (of_int (EffectiveInputLimit b) * r)) \<le> EffectiveInputLimit b"
    if "0 < r" "r \<le> 1" for r
    using trunc_scale_le that by simp
  have "TargetInputTokens b = (let t = trunc (fl (of_int (EffectiveInputLimit b) * TargetInputRatio ?g))
      in if t \<le> 0 then EffectiveInputLimit b else t)"
    "EmergencyInputTokens b = (let t = trunc (fl (of_int (EffectiveInputLimit b) * EmergencyInputRatio ?g))
      in if t \<le> 0 then EffectiveInputLimit b else t)"
    by (simp_all add: assms(1) turn_budget_def computeContextBudget_def normalize_idem Let_def)
  with eff pos scale normal_guard [of "AgentGuard agent"] show ?thesis
    by (simp add: Let_def)
qed

section \<open>What compaction returns\<close>

text \<open>The sessions and the messages after a list of stages, without any check.\<close>

definition after_stages ::
  "('s \<Rightarrow> Message list \<Rightarrow> 's \<times> Message list \<times> bool) \<Rightarrow> ContextGuardConfig \<Rightarrow> compactionStage list \<Rightarrow> 's \<Rightarrow> Message list \<Rightarrow>
   's \<times> Message list" where
  "after_stages summarize guard stages sess messages =
     foldl (\<lambda>(s, ms) stage. let (s', ms', changed) = run_stage summarize guard stage s ms in (s', ms')) (sess, messages) stages"

lemma after_stages_simps [simp]:
  "after_stages summarize guard [] sess messages = (sess, messages)"
  "after_stages summarize guard (stage # stages) sess messages =
     (let (s', ms', changed) = run_stage summarize guard stage sess messages in after_stages summarize guard stages s' ms')"
  by (simp_all add: after_stages_def Let_def split_beta)

lemma compact_passes_fits:
  "compact_passes summarize guard limit stages sess working predicted cnt = (sess', cnt', r) \<Longrightarrow>
   (case r of
      Inr out \<Rightarrow> fst (estimateInputTokens out) \<le> limit \<and>
        (\<exists>n. 0 < n \<and> n \<le> length stages \<and> (sess', out) = after_stages summarize guard (take n stages) sess working \<and>
          (\<forall>k. 0 < k \<and> k < n \<longrightarrow> limit < fst (estimateInputTokens (snd (after_stages summarize guard (take k stages) sess working)))))
    | Inl (ContextBudgetUnfit p l) \<Rightarrow> l = limit \<and>
        (stages \<noteq> [] \<longrightarrow> p = fst (estimateInputTokens (snd (after_stages summarize guard stages sess working)))) \<and>
        (stages = [] \<longrightarrow> p = predicted) \<and>
        (\<forall>k. 0 < k \<and> k \<le> length stages \<longrightarrow> limit < fst (estimateInputTokens (snd (after_stages summarize guard (take k stages) sess working)))))"
proof (induction stages arbitrary: sess working predicted cnt)
  case Nil
  then show ?case by auto
next
  case (Cons stage stages)
  obtain s1 w1 changed where one: "run_stage summarize guard stage sess working = (s1, w1, changed)" by (metis prod_cases3)
  let ?p = "fst (estimateInputTokens w1)"
  have first: "after_stages summarize guard (take (Suc k) (stage # stages)) sess working = after_stages summarize guard (take k stages) s1 w1" for k
    by (simp add: one)
  let ?over = "\<lambda>st s w k. limit < fst (estimateInputTokens (snd (after_stages summarize guard (take k st) s w)))"
  have steps: "?over (stage # stages) sess working k" if "0 < k" "k < Suc n" "\<forall>j < n. ?over stages s1 w1 j" for k n
    using that by (cases k) (auto simp: one)
  show ?case
  proof (cases "?p \<le> limit")
    case True
    with Cons.prems one have "sess' = s1" "r = Inr w1" by (auto simp: Let_def)
    with True one show ?thesis by (auto intro!: exI [of _ "Suc 0"])
  next
    case False
    then have over: "limit < ?p" by simp
    define cnt1 where "cnt1 = (if changed then cnt else cnt\<lparr>compactionStageFail := Suc (compactionStageFail cnt)\<rparr>)"
    from Cons.prems one False have "compact_passes summarize guard limit stages s1 w1 ?p cnt1 = (sess', cnt', r)"
      by (simp add: Let_def cnt1_def)
    note IH = Cons.IH [OF this]
    show ?thesis
    proof (cases r)
      case (Inr out)
      with IH obtain n where n: "0 < n" "n \<le> length stages" "(sess', out) = after_stages summarize guard (take n stages) s1 w1"
        "\<forall>k. 0 < k \<and> k < n \<longrightarrow> limit < fst (estimateInputTokens (snd (after_stages summarize guard (take k stages) s1 w1)))"
        "fst (estimateInputTokens out) \<le> limit" by auto
      have "\<forall>j < n. ?over stages s1 w1 j"
      proof (intro allI impI)
        fix j assume "j < n"
        with n(4) over show "?over stages s1 w1 j" by (cases j) auto
      qed
      then have "\<forall>k. 0 < k \<and> k < Suc n \<longrightarrow> ?over (stage # stages) sess working k" using steps by blast
      moreover have "(sess', out) = after_stages summarize guard (take (Suc n) (stage # stages)) sess working" using n(3) first by simp
      ultimately show ?thesis
        using n(2,5) Inr by (simp only: sum.case) (intro conjI exI [of _ "Suc n"], simp_all del: take_Suc_Cons)
    next
      case (Inl e)
      obtain p l where e: "e = ContextBudgetUnfit p l" by (cases e)
      with Inl IH have l: "l = limit" "stages = [] \<longrightarrow> p = ?p"
        "stages \<noteq> [] \<longrightarrow> p = fst (estimateInputTokens (snd (after_stages summarize guard stages s1 w1)))"
        and all: "\<forall>k. 0 < k \<and> k \<le> length stages \<longrightarrow> limit < fst (estimateInputTokens (snd (after_stages summarize guard (take k stages) s1 w1)))"
        by auto
      have "\<forall>j < Suc (length stages). ?over stages s1 w1 j"
      proof (intro allI impI)
        fix j assume "j < Suc (length stages)"
        with all over show "?over stages s1 w1 j" by (cases j) auto
      qed
      then have "\<forall>k. 0 < k \<and> k \<le> length (stage # stages) \<longrightarrow> ?over (stage # stages) sess working k"
        using steps [of _ "Suc (length stages)"] by (auto simp del: take_Suc_Cons)
      moreover have "p = fst (estimateInputTokens (snd (after_stages summarize guard stages s1 w1)))"
        using l by (cases "stages = []") auto
      ultimately show ?thesis
        using l(1) by (simp add: Inl e one del: take_Suc_Cons)
    qed
  qed
qed

lemma compactToBudget_session:
  assumes "\<And>s ms. R s (fst (summarize s ms))" and "\<And>s. R s s" and "\<And>a b c. R a b \<Longrightarrow> R b c \<Longrightarrow> R a c"
  shows "R sess (fst (compactToBudget summarize agent sess messages max_tokens candidates forceEmergency cnt))"
proof -
  have step: "R s (fst (run_stage summarize guard stage s ms))" for s guard stage ms
    using assms(1,2) by (cases stage) (simp_all add: run_stage_def Let_def)
  have "R s (fst (compact_passes summarize guard limit stages s ms p c))" for s guard limit stages ms p c
  proof (induction stages arbitrary: s ms p c)
    case Nil
    then show ?case by (simp add: assms(2))
  next
    case (Cons stage stages)
    have "R s (fst (run_stage summarize guard stage s ms))" by (rule step)
    with Cons.IH assms(3) show ?case by (fastforce simp: Let_def split: prod.splits)
  qed
  then show ?thesis by (simp add: compactToBudget_def Let_def assms(2))
qed

text \<open>C5. The guard never lets a conversation through that it predicts to be over the limit: what it lets through is the
  conversation as it was or as the first stages left it, the first one that is predicted to fit. It gives up only when the
  conversation is predicted to be over the limit after each of its stages, and the error then names the limit and the prediction
  for what the last stage left. (The guard is enabled; what the second stage does to the session and the messages is left open.)\<close>

theorem compactToBudget_fits:
  assumes "GuardEnabled (normalizeContextGuard (AgentGuard agent))"
    and "compactToBudget summarize agent sess messages max_tokens candidates forceEmergency cnt = (sess', cnt', r)"
  defines "limit \<equiv> EffectiveInputLimit (turn_budget agent max_tokens candidates)"
    and "stages \<equiv> compaction_stages (normalizeContextGuard (AgentGuard agent)) forceEmergency"
    and "left n \<equiv> after_stages summarize (normalizeContextGuard (AgentGuard agent))
      (take n (compaction_stages (normalizeContextGuard (AgentGuard agent)) forceEmergency)) sess messages"
  shows "case r of
      Inr out \<Rightarrow> fst (estimateInputTokens out) \<le> limit \<and>
        (\<exists>n \<le> length stages. (sess', out) = left n \<and> (forceEmergency \<longrightarrow> 0 < n) \<and>
          (\<forall>k < n. (k = 0 \<longrightarrow> \<not> forceEmergency) \<longrightarrow> limit < fst (estimateInputTokens (snd (left k)))))
    | Inl (ContextBudgetUnfit predicted l) \<Rightarrow> l = limit \<and> predicted = fst (estimateInputTokens (snd (left (length stages)))) \<and>
        (\<forall>k \<in> {1..length stages}. limit < fst (estimateInputTokens (snd (left k)))) \<and> stages \<noteq> []"
proof (cases "fst (estimateInputTokens messages) \<le> limit \<and> \<not> forceEmergency")
  case True
  with assms(1,2) have "r = Inr messages" "sess' = sess" by (auto simp: compactToBudget_def Let_def limit_def)
  with True show ?thesis by (auto simp: left_def intro!: exI [of _ 0])
next
  case False
  let ?guard = "normalizeContextGuard (AgentGuard agent)"
  have stages: "stages \<noteq> []"
    using normal_guard(5) [of "AgentGuard agent"] by (simp add: stages_def compaction_stages_def)
  from False assms(1,2) have "compact_passes summarize ?guard limit stages sess
      messages (fst (estimateInputTokens messages)) (cnt\<lparr>compactionTriggered := Suc (compactionTriggered cnt)\<rparr>) = (sess', cnt', r)"
    by (auto simp: compactToBudget_def limit_def stages_def Let_def)
  note fits = compact_passes_fits [OF this]
  show ?thesis
  proof (cases r)
    case (Inl e)
    with fits stages show ?thesis by (cases e) (auto simp: left_def simp flip: stages_def)
  next
    case (Inr out)
    with fits obtain n where n: "0 < n" "n \<le> length stages" "(sess', out) = left n" "fst (estimateInputTokens out) \<le> limit"
      "\<forall>k. 0 < k \<and> k < n \<longrightarrow> limit < fst (estimateInputTokens (snd (left k)))"
      by (auto simp: left_def simp flip: stages_def)
    have "limit < fst (estimateInputTokens (snd (left k)))" if "k < n" "k = 0 \<longrightarrow> \<not> forceEmergency" for k
      using that n(5) False by (cases "k = 0") (auto simp: left_def)
    with n Inr show ?thesis by auto
  qed
qed

section \<open>A concrete agent\<close>

definition demo_agent :: agent_limits where
  "demo_agent = \<lparr>AgentWindow = 4096, AgentMaxTokens = 512,
     AgentGuard = \<lparr>GuardEnabled = True, GuardSafetyMargin = 64, TargetInputRatio = 1 / 2, PrecheckTriggerRatio = 1 / 2,
       EmergencyInputRatio = 1 / 2, MaxCompactionPasses = 3, PreserveRecentMessages = 4, DebugDump = False\<rparr>,
     CandidateWindows = []\<rparr>"

lemma demo_guard: "normalizeContextGuard (AgentGuard demo_agent) = AgentGuard demo_agent"
  by (simp add: demo_agent_def normalizeContextGuard_def ratio_or_def count_or_def zero_guard_def)

lemma demo_guard_fields: "GuardEnabled (AgentGuard demo_agent)" "PreserveRecentMessages (AgentGuard demo_agent) = 4"
  by (simp_all add: demo_agent_def)

lemma demo_budget:
  "ContextWindow (turn_budget demo_agent None []) = 4096"
  "EffectiveInputLimit (turn_budget demo_agent None []) = 3520"
  using demo_guard
  by (simp_all add: turn_budget_def computeContextBudget_def resolveContextWindowForTurn_def
      getRequestedOutputTokens_def Let_def) (simp_all add: demo_agent_def)

theorem turn_budget_bounds_witness:
  "1024 \<le> EffectiveInputLimit (turn_budget demo_agent None []) \<and>
   TargetInputTokens (turn_budget demo_agent None []) \<le> EffectiveInputLimit (turn_budget demo_agent None [])"
  using turn_budget_bounds [OF refl, of demo_agent None "[]"] by (simp add: demo_budget)

theorem compactToBudget_fits_witness:
  "\<exists>sess' cnt' r. compactToBudget (\<lambda>s ms. (s, ms, False)) demo_agent () [text_message ''user'' ''hi''] None [] False
      \<lparr>compactionTriggered = 0, compactionStageFail = 0, contextBudgetUnfit = 0\<rparr> = (sess', cnt', r) \<and>
    (case r of
       Inr out \<Rightarrow> fst (estimateInputTokens out) \<le> 3520
     | Inl (ContextBudgetUnfit predicted l) \<Rightarrow> l = 3520)"
proof -
  obtain sess' cnt' r where run: "compactToBudget (\<lambda>s ms. (s, ms, False)) demo_agent () [text_message ''user'' ''hi''] None [] False
      \<lparr>compactionTriggered = 0, compactionStageFail = 0, contextBudgetUnfit = 0\<rparr> = (sess', cnt', r)" by (metis prod_cases3)
  have "GuardEnabled (normalizeContextGuard (AgentGuard demo_agent))" by (simp add: demo_guard demo_guard_fields)
  from compactToBudget_fits [OF this run] run show ?thesis
    by (auto simp: demo_budget split: sum.splits budget_error.splits)
qed

end
