(* ===== verification/Compaction.thy ===== *)
theory Compaction
  imports ContextBudget
begin

text \<open>
  What the stages of the context guard do to a conversation: emergency trimming leaves a conversation that
  a provider accepts, with the newest user message in it; neither pruning nor trimming gets below a usage
  report that is over the limit.
\<close>

section \<open>Trimming\<close>

lemma last_index_Some: "last_index P a b = Some i \<Longrightarrow> a \<le> i \<and> i < b \<and> P i"
proof -
  assume "last_index P a b = Some i"
  then have "i \<in> set (filter P [a..<b])"
    by (auto simp: last_index_def Let_def split: if_splits simp del: set_filter)
  then show ?thesis by simp
qed

lemma last_index_max: "last_index P a b = Some i \<Longrightarrow> i < j \<Longrightarrow> j < b \<Longrightarrow> \<not> P j"
proof
  assume i: "last_index P a b = Some i" and j: "i < j" "j < b" "P j"
  let ?is = "filter P [a..<b]"
  from last_index_Some [OF i] j have mem: "j \<in> set ?is" by auto
  have "last ?is = i" using i by (auto simp: last_index_def Let_def split: if_splits)
  moreover have "sorted ?is" by (simp add: sorted_wrt_filter)
  then have "j \<le> last ?is"
    using mem by (metis in_set_conv_decomp last_in_set last.simps last_appendR list.distinct(1)
        sorted_append sorted_simps(2) order_refl)
  ultimately show False using j(1) by simp
qed

lemma last_index_None: "last_index P a b = None \<longleftrightarrow> (\<forall>i. a \<le> i \<longrightarrow> i < b \<longrightarrow> \<not> P i)"
  by (auto simp: last_index_def Let_def filter_empty_conv)

lemma trim_start_bounds:
  shows "trim_start ms k r \<le> nat (max 1 (int (length ms) - r))"
    "findLatestUserMessageIndex ms = Some i \<Longrightarrow> 0 < i \<Longrightarrow> trim_start ms k r \<le> i"
proof -
  have "trim_start ms k r \<le> ratio_start ms k r"
    by (simp add: trim_start_def Let_def split: option.splits)
  also have "\<dots> \<le> nat (max 1 (int (length ms) - r))"
    by (simp add: ratio_start_def Let_def)
  finally show "trim_start ms k r \<le> nat (max 1 (int (length ms) - r))" .
  show "findLatestUserMessageIndex ms = Some i \<Longrightarrow> 0 < i \<Longrightarrow> trim_start ms k r \<le> i"
    by (simp add: trim_start_def Let_def split: option.splits)
qed

lemma drop_at: "i < length xs \<Longrightarrow> s \<le> i \<Longrightarrow> drop s xs = take (i - s) (drop s xs) @ xs ! i # drop (Suc i) xs"
  using id_take_nth_drop [of "i - s" "drop s xs"] by simp

lemma bridge_cases:
  assumes "findLatestToolBoundaryStart ms = Some b"
  shows "bridge_boundary ms s = drop s ms \<or>
    (\<exists>j. last_index (\<lambda>i. may_precede (drop s ms ! i)) 0 (b - s) = Some j \<and> s \<le> b \<and>
       bridge_boundary ms s = take (j + 1) (drop s ms) @ drop (b - s) (drop s ms)) \<or>
    (\<exists>x. bridge_boundary ms s = x # drop s ms)"
  by (cases "last_index (\<lambda>i. may_precede (drop s ms ! i)) 0 (b - s)"; cases "last_index (\<lambda>i. may_precede (ms ! i)) 1 b")
    (simp_all add: bridge_boundary_def Let_def assms)

text \<open>A message that is kept whatever the bridge does: there is no tool-call turn after it.\<close>

lemma bridge_keeps_from:
  assumes "s \<le> i" "i < length ms" "\<And>b. findLatestToolBoundaryStart ms = Some b \<Longrightarrow> b \<le> i"
  shows "\<exists>A. bridge_boundary ms s = A @ ms ! i # drop (Suc i) ms"
proof (cases "findLatestToolBoundaryStart ms")
  case None
  then show ?thesis using drop_at [OF assms(2,1)] by (auto simp: bridge_boundary_def Let_def)
next
  case (Some b)
  obtain A where whole: "drop s ms = A @ ms ! i # drop (Suc i) ms" using drop_at [OF assms(2,1)] by blast
  obtain B where part: "drop b ms = B @ ms ! i # drop (Suc i) ms"
    using drop_at [OF assms(2), of b] assms(3) [OF Some] by blast
  show ?thesis
    using bridge_cases [OF Some, of s]
  proof (elim disjE exE conjE)
    fix j assume "s \<le> b" "bridge_boundary ms s = take (j + 1) (drop s ms) @ drop (b - s) (drop s ms)"
    then have "bridge_boundary ms s = (take (j + 1) (drop s ms) @ B) @ ms ! i # drop (Suc i) ms"
      using part by simp
    then show ?thesis by blast
  next
    fix x assume "bridge_boundary ms s = x # drop s ms"
    then have "bridge_boundary ms s = (x # A) @ ms ! i # drop (Suc i) ms" using whole by simp
    then show ?thesis by blast
  qed (simp add: whole)
qed

lemma bridge_user:
  assumes "s \<le> i" "i < length ms" "Role (ms ! i) = ''user''"
  shows "ms ! i \<in> set (bridge_boundary ms s)"
proof (cases "\<exists>b. findLatestToolBoundaryStart ms = Some b \<and> i < b")
  case False
  then have "findLatestToolBoundaryStart ms = Some b \<Longrightarrow> b \<le> i" for b by force
  from bridge_keeps_from [of s i ms, OF assms(1,2)] this obtain A where
    "bridge_boundary ms s = A @ ms ! i # drop (Suc i) ms" by blast
  then show ?thesis by simp
next
  case True
  then obtain b where b: "findLatestToolBoundaryStart ms = Some b" "i < b" by blast
  let ?conv = "drop s ms" and ?l = "b - s"
  have nth: "?conv ! (i - s) = ms ! i" using assms by simp
  have whole: "ms ! i \<in> set ?conv" using assms by (metis nth in_set_conv_nth length_drop diff_less_mono)
  show ?thesis
    using bridge_cases [OF b(1), of s]
  proof (elim disjE exE conjE)
    fix j assume j: "last_index (\<lambda>i. may_precede (?conv ! i)) 0 ?l = Some j"
      and eq: "bridge_boundary ms s = take (j + 1) ?conv @ drop ?l ?conv"
    have "i - s < b - s" using assms(1) b(2) by linarith
    then have "\<not> j < i - s"
      using last_index_max [OF j, of "i - s"] assms(3) nth by (auto simp: may_precede_def)
    then have "take (j + 1) ?conv ! (i - s) = ms ! i" "i - s < length (take (j + 1) ?conv)"
      using nth assms by simp_all
    then have "ms ! i \<in> set (take (j + 1) ?conv)" by (metis nth_mem)
    then show ?thesis unfolding eq by simp
  qed (use whole in simp_all)
qed

lemma valid_no_system: "valid_history ms \<Longrightarrow> ms = [] \<or> Role (hd ms) \<noteq> ''system''"
  by (cases ms) (auto simp: valid_history_def is_call_turn_def)

text \<open>What the trimmed list consists of.\<close>

lemma emergency_shape:
  assumes "2 < length ms" "Role (hd ms) = ''system''"
    "start = trim_start ms (ratio_or defaultEmergencyRatio r) (count_or defaultPreserveRecent n)"
  shows "emergencyTrimMessages ms r n = hd ms # sanitizeHistoryForProvider (hd ms # bridge_boundary ms start)"
proof -
  let ?t = "sanitizeHistoryForProvider (hd ms # bridge_boundary ms start)"
  have "?t = [] \<or> Role (hd ?t) \<noteq> ''system''"
    using valid_sanitize valid_no_system by blast
  moreover have "emergencyTrimMessages ms r n =
      (if ?t = [] then [hd ms] else if Role (hd ?t) \<noteq> ''system'' then hd ms # ?t else ?t)"
    using assms(1,3) by (simp add: emergencyTrimMessages_def Let_def)
  ultimately show ?thesis by (cases "?t = []") simp_all
qed

lemma plain_kept:
  assumes "m \<in> set ms" "plain m"
  shows "m \<in> set (sanitizeHistoryForProvider ms)"
proof -
  have "m \<in> set (filter plain ms)" using assms by simp
  then have "m \<in> set (filter plain (sanitizeHistoryForProvider ms))" by (simp only: sanitize_plain)
  then show ?thesis by simp
qed

text \<open>C7. Emergency trimming keeps the system message in front, keeps the newest user message, and what it
  leaves of the conversation satisfies the contract of the providers.\<close>

theorem emergency_trim_sound:
  assumes "2 < length messages" and "Role (hd messages) = ''system''"
  shows "\<exists>conversation. emergencyTrimMessages messages ratio recent = hd messages # conversation \<and>
    valid_history conversation \<and>
    (case findLatestUserMessageIndex messages of None \<Rightarrow> True | Some i \<Rightarrow> messages ! i \<in> set conversation)"
proof -
  let ?start = "trim_start messages (ratio_or defaultEmergencyRatio ratio) (count_or defaultPreserveRecent recent)"
  have "messages ! i \<in> set (sanitizeHistoryForProvider (hd messages # bridge_boundary messages ?start))"
    if i: "findLatestUserMessageIndex messages = Some i" for i
  proof -
    have user: "i < length messages" "Role (messages ! i) = ''user''"
      using last_index_Some [of _ 0] i by (auto simp: findLatestUserMessageIndex_def)
    then have "0 < i" using assms by (cases i) (auto simp: hd_conv_nth)
    then have "?start \<le> i"
      using trim_start_bounds(2) [OF i] by blast
    from bridge_user [OF this user] user(2) show ?thesis
      by (intro plain_kept) (auto simp: plain_def is_call_turn_def)
  qed
  then show ?thesis
    using emergency_shape [OF assms refl] valid_sanitize by (auto split: option.splits)
qed

section \<open>Compaction and the usage anchor\<close>

lemma estimate_overhead: "512 \<le> estimateInputTokensWithOverhead n"
  by (simp add: estimateInputTokensWithOverhead_def estimatorFixedReserveTokens_def Let_def)

lemma anchor_append: "latestUsageAnchor t = Some r \<Longrightarrow> latestUsageAnchor (xs @ t) = Some r"
  by (induction xs) simp_all

lemma no_anchor: "\<forall>x \<in> set t. usage_anchor x = None \<Longrightarrow> latestUsageAnchor t = None"
  by (induction t) simp_all

lemma anchored_estimate:
  assumes "usage_anchor m = Some u" "\<forall>x \<in> set t. usage_anchor x = None"
  shows "TotalTokens u + 512 \<le> fst (estimateInputTokens (xs @ m # t))"
proof -
  have "latestUsageAnchor (m # t) = Some (u, t)"
    using assms no_anchor [OF assms(2)] by simp
  from anchor_append [OF this] show ?thesis
    using estimate_overhead [of "estimateTokens_msgs t"] by (simp add: estimateInputTokens_def)
qed

lemma usage_anchor_prune [simp]: "usage_anchor (prune_or_keep m) = usage_anchor m"
  by (simp add: prune_or_keep_def prune_message_def usage_anchor_def split: option.splits)

lemma pruned_anchors:
  "map usage_anchor (fst (pruneLowValueHistoricalPayloads ms n)) = map usage_anchor ms"
proof -
  have "map usage_anchor (map prune_or_keep (take k xs) @ drop k xs) = map usage_anchor xs" for k xs
    by (simp add: o_def flip: take_map drop_map)
  then show ?thesis
    by (cases ms) (simp_all add: pruneLowValueHistoricalPayloads_def Let_def flip: map_append)
qed

lemma anchored_by_map:
  assumes "map usage_anchor ms = map usage_anchor (xs @ m # t)"
    and "usage_anchor m = Some u" "\<forall>x \<in> set t. usage_anchor x = None"
  shows "TotalTokens u + 512 \<le> fst (estimateInputTokens ms)"
proof -
  from assms(1) obtain ys m' t' where ms: "ms = ys @ m' # t'"
    "usage_anchor m' = usage_anchor m" "map usage_anchor t' = map usage_anchor t"
    by (auto simp: map_eq_append_conv map_eq_Cons_conv)
  have "\<forall>x \<in> set t'. usage_anchor x = None"
    using ms(3) assms(3) by (metis (no_types, lifting) image_iff image_set)
  with anchored_estimate [of m' u t' ys] ms assms(2) show ?thesis by simp
qed

lemma forced_compaction_fails:
  assumes "limit < fst (estimateInputTokens
      (emergencyTrimMessages messages (EmergencyInputRatio guard) (PreserveRecentMessages guard)))"
    and "guard = normalizeContextGuard (AgentGuard agent)" "GuardEnabled guard"
    and "limit = EffectiveInputLimit (turn_budget agent max_tokens candidates)"
  shows "\<exists>p l. snd (snd (compactToBudget summarize agent sess messages max_tokens candidates True cnt)) =
    Inl (ContextBudgetUnfit p l)"
proof -
  have "0 < MaxCompactionPasses guard" using normal_guard(5) assms(2) by blast
  then have "compaction_stages guard True = [StageEmergency]"
    by (simp add: compaction_stages_def take_Cons')
  with assms show ?thesis
    by (simp add: compactToBudget_def Let_def run_stage_def split: prod.splits)
qed

text \<open>A report of the real usage defeats the compaction: once the newest answer says that the conversation holds
  more tokens than the limit less the fixed reserve, neither pruning nor trimming can bring the prediction below
  the limit, because both keep that report, and the request fails.\<close>

theorem anchored_compaction_fails:
  assumes "messages = pre @ m # suf" and "pre \<noteq> []" and "Role (hd pre) = ''system''"
    and "usage_anchor m = Some u" and "ToolCalls m = []"
    and "\<forall>x \<in> set suf. usage_anchor x = None \<and> \<not> is_call_turn x"
    and "1 < length pre" and "int (length suf) < PreserveRecentMessages guard"
    and "guard = normalizeContextGuard (AgentGuard agent)" and "GuardEnabled guard"
    and "EffectiveInputLimit (turn_budget agent max_tokens candidates) < TotalTokens u + 512"
  shows "(\<exists>p l. snd (snd (compactToBudget summarize agent sess messages max_tokens candidates True cnt)) =
        Inl (ContextBudgetUnfit p l)) \<and>
    EffectiveInputLimit (turn_budget agent max_tokens candidates)
      < fst (estimateInputTokens (fst (pruneLowValueHistoricalPayloads messages recent)))"
proof -
  let ?limit = "EffectiveInputLimit (turn_budget agent max_tokens candidates)"
  let ?n = "PreserveRecentMessages guard" and ?r = "EmergencyInputRatio guard"
  have none: "\<forall>x \<in> set suf. usage_anchor x = None" using assms(6) by blast
  have role: "Role m = ''assistant''" using assms(4) by (auto simp: usage_anchor_def split: if_splits)
  have plain: "plain m" using role assms(5) by (simp add: plain_def is_call_turn_def)
  have pruned: "?limit < fst (estimateInputTokens (fst (pruneLowValueHistoricalPayloads messages recent)))"
  proof -
    have "map usage_anchor (fst (pruneLowValueHistoricalPayloads messages recent)) = map usage_anchor (pre @ m # suf)"
      by (simp only: pruned_anchors assms(1))
    from anchored_by_map [OF this assms(4) none] assms(11) show ?thesis by linarith
  qed
  have len: "2 < length messages" "Role (hd messages) = ''system''" "length pre < length messages"
    using assms(1,2,3,7) by simp_all
  define start where "start = trim_start messages (ratio_or defaultEmergencyRatio ?r) (count_or defaultPreserveRecent ?n)"
  have "start \<le> nat (max 1 (int (length messages) - count_or defaultPreserveRecent ?n))"
    unfolding start_def by (rule trim_start_bounds)
  also have "\<dots> \<le> length pre" using assms(1,7,8) by (simp add: count_or_def)
  finally have "start \<le> length pre" .
  moreover have "b \<le> length pre" if "findLatestToolBoundaryStart messages = Some b" for b
  proof (rule ccontr)
    assume "\<not> ?thesis"
    then obtain k where k: "b = length pre + Suc k" by (metis less_imp_Suc_add not_le add_Suc_right)
    from last_index_Some [OF that [unfolded findLatestToolBoundaryStart_def]]
    have b: "b < length messages" "is_call_turn (messages ! b)"
      by (simp_all add: answered_turn_def Let_def)
    with k assms(1) have "messages ! b = suf ! k" "k < length suf" by (simp_all add: nth_append)
    with b(2) assms(6) show False by (metis nth_mem)
  qed
  ultimately obtain A where A: "bridge_boundary messages start = A @ messages ! length pre # drop (Suc (length pre)) messages"
    using bridge_keeps_from [of start "length pre" messages] len by blast
  have bridge: "bridge_boundary messages start = A @ m # suf"
    using A assms(1) by simp
  let ?in = "hd messages # A @ m # suf"
  have "\<exists>b c. sanitizeHistoryForProvider ?in = b @ m # c \<and> subseq c suf"
    using subseq_split_plain [of _ "hd messages # A" m suf] sanitize_subseq [of ?in] sanitize_plain [of ?in] plain
    by simp
  then obtain b c where out: "sanitizeHistoryForProvider ?in = b @ m # c" "subseq c suf" by blast
  have "\<forall>x \<in> set c. usage_anchor x = None"
  proof
    fix x assume "x \<in> set c"
    from list_emb_set [OF out(2) this] none show "usage_anchor x = None" by blast
  qed
  then have over: "?limit < fst (estimateInputTokens (emergencyTrimMessages messages ?r ?n))"
    using emergency_shape [OF len(1,2) start_def] bridge out(1) assms(11)
      anchored_estimate [OF assms(4), of c "hd messages # b"] by simp
  show ?thesis
    using forced_compaction_fails [OF over assms(9,10) refl, of summarize sess cnt] pruned by blast
qed

section \<open>Concrete conversations\<close>

theorem emergency_trim_sound_witness:
  "\<exists>conversation. emergencyTrimMessages
      [text_message ''system'' ''s'', text_message ''user'' ''old'', text_message ''user'' ''new''] (1 / 2) 1 =
     text_message ''system'' ''s'' # conversation \<and> valid_history conversation"
  using emergency_trim_sound [of "[text_message ''system'' ''s'', text_message ''user'' ''old'',
      text_message ''user'' ''new'']" "1 / 2" 1]
  by (auto simp: text_message_def)

definition reported :: Message where
  "reported = (text_message ''assistant'' ''answer'')
     \<lparr>Usage := Some \<lparr>PromptTokens = 3400, CompletionTokens = 100, TotalTokens = 3500\<rparr>\<rparr>"

theorem anchored_compaction_fails_witness:
  "\<exists>p l. snd (snd (compactToBudget (\<lambda>s ms. (s, ms, False)) demo_agent ()
      ([text_message ''system'' ''s'', text_message ''user'' ''question''] @ reported # [text_message ''user'' ''next''])
      None [] True \<lparr>compactionTriggered = 0, compactionStageFail = 0, contextBudgetUnfit = 0\<rparr>)) =
     Inl (ContextBudgetUnfit p l)"
proof -
  have "usage_anchor reported = Some \<lparr>PromptTokens = 3400, CompletionTokens = 100, TotalTokens = 3500\<rparr>"
    "ToolCalls reported = []" "Role (hd [text_message ''system'' ''s'', text_message ''user'' ''question'']) = ''system''"
    "\<forall>x \<in> set [text_message ''user'' ''next'']. usage_anchor x = None \<and> \<not> is_call_turn x"
    by (simp_all add: reported_def text_message_def usage_anchor_def is_call_turn_def)
  from anchored_compaction_fails [OF refl _ this(3,1,2,4) _ _ demo_guard [symmetric] demo_guard_fields(1),
    where summarize = "\<lambda>s ms. (s, ms, False)" and sess = "()"]
  show ?thesis by (simp add: demo_budget demo_guard_fields)
qed

end
