(* ===== verification/ContextOverflow.thy ===== *)
theory ContextOverflow
  imports ErrorClassifier
begin

text \<open>
  Recognition of context-window errors: \<open>pkg/agent/context_overflow.go\<close>. The text is lowered before any pattern sees
  it, so the \<open>(?i)\<close> flag of the patterns has no effect of its own.
\<close>

definition contextOverflowPatterns :: "rx list list" where
  "contextOverflowPatterns = [
     [Boundary] @ lit_i ''request_too_large'' @ [Boundary],
     lit_i ''request exceeds the maximum size'',
     lit_i ''context length exceeded'',
     lit_i ''maximum context length'',
     lit_i ''prompt is too long'',
     lit_i ''prompt too long'',
     lit_i ''input is too long for requested model'',
     lit_i ''exceeds the context window'',
     lit_i ''input token count'' @ [Many dot] @ lit_i ''exceeds the maximum'',
     lit_i ''maximum prompt length is '' @ [One is_digit, Many is_digit],
     lit_i ''reduce the length of the messages'',
     lit_i ''maximum context length is '' @ [One is_digit, Many is_digit] @ lit_i '' tokens'',
     lit_i ''exceeds the limit of '' @ [One is_digit, Many is_digit],
     lit_i ''exceeds the available context size'',
     lit_i ''greater than the context length'',
     lit_i ''context window exceeds limit'',
     lit_i ''exceeded model token limit'',
     lit_i ''too large for model with '' @ [One is_digit, Many is_digit] @ lit_i '' maximum context length'',
     lit_i ''model_context_window_exceeded'',
     lit_i ''context'' @ [One (among ''_ '')] @ lit_i ''window'' @ [One (among ''_ '')] @ lit_i ''exceeded'',
     lit_i ''context'' @ [One (among ''_ '')] @ lit_i ''length'' @ [One (among ''_ '')] @ lit_i ''exceeded'',
     [Boundary] @ lit_i ''too many tokens'' @ [Boundary],
     [Boundary] @ lit_i ''token limit exceeded'' @ [Boundary]]"

text \<open>The alternatives of the two patterns that are anchored at the start of the text.\<close>

definition contextOverflowHeadPattern :: "rx list list" where
  "contextOverflowHeadPattern = [
     lit_i ''context overflow:'',
     lit_i ''request_too_large'' @ [Boundary],
     lit_i ''request size exceeds'' @ [Boundary],
     lit_i ''request exceeds the maximum size'' @ [Boundary],
     lit_i ''context length exceeded'' @ [Boundary],
     lit_i ''maximum context length'' @ [Boundary],
     lit_i ''prompt is too long'' @ [Boundary],
     lit_i ''exceeds model context window'' @ [Boundary]]"

definition cerebrasNoBodyPattern :: "rx list list" where
  "cerebrasNoBodyPattern =
     [lit_i code @ [Many re_space] @ words @ [Many re_space] @ lit_i ''(no body)''.
        code \<leftarrow> [''400'', ''413''], words \<leftarrow> [lit_i ''status code'', []]]"

definition match_anchored :: "rx list list \<Rightarrow> string \<Rightarrow> bool" where
  "match_anchored alternatives s = list_ex (\<lambda>r. rx_at r None s \<noteq> None) alternatives"

definition isContextOverflowError :: "bool \<Rightarrow> string \<Rightarrow> bool" where
  "isContextOverflowError canceled_or_deadline text =
     (if canceled_or_deadline then False
      else
        let msg = TrimSpace text in
        if msg = [] then False
        else
          let lower = ToLower msg; has = Contains lower in
          if match_anchored contextOverflowHeadPattern lower then True
          else if list_ex (\<lambda>r. MatchString r lower) contextOverflowPatterns then True
          else if match_anchored cerebrasNoBodyPattern lower then True
          else if (has ''request size'' \<and> has ''exceeds'') \<and> (has ''context'' \<and> has ''window'') then True
          else if has ''max_tokens'' \<and> has ''exceed'' \<and> has ''context'' then True
          else if has ''input length'' \<and> has ''exceed'' \<and> has ''context'' then True
          else if has ''invalidparameter'' \<and> (has ''context'' \<or> has ''message tokens'' \<or> has ''token'') \<and>
            (has ''exceed'' \<or> has ''too long'') then True
          else if has ''413'' \<and> has ''too large'' then True
          else False)"

text \<open>A text that contains one of the fixed phrases, in any case, is recognized.\<close>

lemma phrase_overflow:
  assumes "lit_i phrase \<in> set contextOverflowPatterns" and "ToLower m = ToLower phrase"
    and "trimmed (pre @ m @ post)" and "m \<noteq> []"
  shows "isContextOverflowError False (pre @ m @ post)"
proof -
  let ?p = "if ToLower pre = [] then None else Some (last (ToLower pre))"
  have "rx_rel (lit_i phrase @ []) ?p (ToLower m @ ToLower post)"
    by (rule lit_i_rel) (simp_all add: assms(2) rx_rel.intros)
  then have "rx_find (lit_i phrase) None (ToLower (pre @ m @ post)) \<noteq> None"
    unfolding rx_find_iff by (intro exI [of _ "ToLower pre"] exI [of _ "ToLower m @ ToLower post"]) simp
  then have "list_ex (\<lambda>r. MatchString r (ToLower (pre @ m @ post))) contextOverflowPatterns"
    using assms(1) by (auto simp: MatchString_def list_ex_iff)
  moreover have "TrimSpace (pre @ m @ post) = pre @ m @ post"
    by (rule TrimSpace_trimmed [OF assms(3)])
  ultimately show ?thesis
    using assms(4) by (simp add: isContextOverflowError_def Let_def)
qed

end
