(* ===== verification/Summaries.thy ===== *)
theory Summaries
  imports Sessions ContextBudget
begin

text \<open>
  Summaries of long conversations: \<open>maybeSummarize\<close>, \<open>summarizeSession\<close> and their helpers, and the
  operations on whole sessions, from \<open>pkg/agent/loop.go\<close>. The model that writes the summaries is an argument:
  it maps the name of the agent's model, the number of the request, its prompt and the attempt to an error or the content of the reply. The
  summary is computed from the state at the start (\<open>summary_of\<close>) and written at the end
  (\<open>apply_summary\<close>); other turns can change the session in between, because the computation runs in the
  background without the session's lock.
\<close>

datatype llm_reply = LLMError | LLMContent string

type_synonym llm = "string \<Rightarrow> nat \<Rightarrow> string \<Rightarrow> nat \<Rightarrow> llm_reply"

abbreviation lf :: char where "lf \<equiv> CHR 0x0A"

definition llmMaxRetries :: nat where "llmMaxRetries = 3"

text \<open>The reply after the retries, the last one when none has content.\<close>

fun retry_from :: "(nat \<Rightarrow> llm_reply) \<Rightarrow> nat \<Rightarrow> nat \<Rightarrow> llm_reply" where
  "retry_from chat attempt 0 = LLMError"
| "retry_from chat attempt (Suc left) =
     (case chat attempt of
        LLMContent c \<Rightarrow>
          if c \<noteq> [] then LLMContent c
          else if left = 0 then LLMContent c else retry_from chat (Suc attempt) left
      | LLMError \<Rightarrow> if left = 0 then LLMError else retry_from chat (Suc attempt) left)"

definition retryLLMCall :: "llm \<Rightarrow> string \<Rightarrow> nat \<Rightarrow> string \<Rightarrow> llm_reply" where
  "retryLLMCall llm model call prompt = retry_from (llm model call prompt) 0 llmMaxRetries"

definition batch_line :: "Message \<Rightarrow> string" where
  "batch_line m = Role m @ '': '' @ Content m @ [lf]"

definition batch_prompt :: "Message list \<Rightarrow> string \<Rightarrow> string" where
  "batch_prompt batch existingSummary =
     ''Provide a concise summary of this conversation segment, preserving core context and key points.'' @ [lf] @
     (if existingSummary \<noteq> [] then ''Existing context: '' @ existingSummary @ [lf] else []) @
     [lf] @ ''CONVERSATION:'' @ [lf] @ concat (map batch_line batch)"

definition fallback_part :: "Message \<Rightarrow> string" where
  "fallback_part m =
     (let rs = runes (TrimSpace (Content m)) in
      if rs = [] then Role m @ '': ''
      else
        let keep = min (length rs) (max 200 (length rs * 10 div 100))
        in Role m @ '': '' @ of_runes (take keep rs) @ (if keep < length rs then ''...'' else []))"

definition summarizeBatch :: "llm \<Rightarrow> string \<Rightarrow> nat \<Rightarrow> Message list \<Rightarrow> string \<Rightarrow> string" where
  "summarizeBatch llm model call batch existingSummary =
     (case retryLLMCall llm model call (batch_prompt batch existingSummary) of
        LLMContent c \<Rightarrow>
          if c \<noteq> [] then TrimSpace c
          else ''Conversation summary: '' @ Join '' | '' (map fallback_part batch)
      | LLMError \<Rightarrow> ''Conversation summary: '' @ Join '' | '' (map fallback_part batch))"

text \<open>The nearest user message at or before the middle, else after it.\<close>

definition findNearestUserMessage :: "Message list \<Rightarrow> nat \<Rightarrow> nat" where
  "findNearestUserMessage messages mid =
     (case last_index (\<lambda>i. Role (messages ! i) = ''user'') 0 (mid + 1) of
        Some i \<Rightarrow> i
      | None \<Rightarrow>
          (case find (\<lambda>i. Role (messages ! i) = ''user'') [mid..<length messages] of
             Some i \<Rightarrow> i | None \<Rightarrow> mid))"

definition oversized :: "int \<Rightarrow> Message \<Rightarrow> bool" where
  "oversized window m \<longleftrightarrow> window div 2 < int (length (Content m)) div 2"

definition summary_role :: "Message \<Rightarrow> bool" where
  "summary_role m \<longleftrightarrow> Role m = ''user'' \<or> Role m = ''assistant''"

definition valid_messages :: "int \<Rightarrow> Message list \<Rightarrow> Message list" where
  "valid_messages window history =
     filter (\<lambda>m. summary_role m \<and> \<not> oversized window m) (take (length history - 4) history)"

text \<open>The requests that summarize a list of messages, with the previous summary that each one is given.\<close>

definition summary_batches :: "Message list \<Rightarrow> string \<Rightarrow> (Message list \<times> string) list" where
  "summary_batches valid summary =
     (if 10 < length valid then
        let mid = findNearestUserMessage valid (length valid div 2)
        in [(take mid valid, []), (drop mid valid, [])]
      else [(valid, summary)])"

definition merge_prompt :: "string \<Rightarrow> string \<Rightarrow> string" where
  "merge_prompt s1 s2 = ''Merge these two conversation summaries into one cohesive summary:'' @ [lf, lf] @
     ''1: '' @ s1 @ [lf, lf] @ ''2: '' @ s2"

definition merge_summaries :: "llm \<Rightarrow> string \<Rightarrow> string \<Rightarrow> string \<Rightarrow> string" where
  "merge_summaries llm model s1 s2 =
     (case retryLLMCall llm model 2 (merge_prompt s1 s2) of
        LLMContent c \<Rightarrow> if c \<noteq> [] then c else s1 @ '' '' @ s2
      | LLMError \<Rightarrow> s1 @ '' '' @ s2)"

definition oversized_note :: string where
  "oversized_note = lf # ''[Note: Some oversized messages were omitted from this summary for efficiency.]''"

text \<open>What \<open>summarizeSession\<close> will write, \<open>None\<close> when it returns without a change.\<close>

definition summary_of :: "llm \<Rightarrow> string \<Rightarrow> int \<Rightarrow> Message list \<Rightarrow> string \<Rightarrow> string option" where
  "summary_of llm model window history summary =
     (if length history \<le> 4 then None
      else
        let toSummarize = take (length history - 4) history;
            valid = valid_messages window history;
            omitted = (\<exists>m \<in> set toSummarize. summary_role m \<and> oversized window m)
        in
        if valid = [] then None
        else
          let final = (case summary_batches valid summary of
                  [(b1, e1), (b2, e2)] \<Rightarrow>
                    merge_summaries llm model (summarizeBatch llm model 0 b1 e1) (summarizeBatch llm model 1 b2 e2)
                | [(b, e)] \<Rightarrow> summarizeBatch llm model 0 b e
                | _ \<Rightarrow> [])
          in if final = [] then None
             else Some (if omitted then final @ oversized_note else final))"

definition apply_summary :: "instant \<Rightarrow> SessionManager \<Rightarrow> string \<Rightarrow> string \<Rightarrow> SessionManager" where
  "apply_summary now sm key s = sm_TruncateHistory now (sm_SetSummary now sm key s) key 4"

definition summarizeSession :: "llm \<Rightarrow> string \<Rightarrow> int \<Rightarrow> instant \<Rightarrow> SessionManager \<Rightarrow> string \<Rightarrow> SessionManager" where
  "summarizeSession llm model window now sm key =
     (case summary_of llm model window (sm_GetHistory sm key) (sm_GetSummary sm key) of
        None \<Rightarrow> sm
      | Some s \<Rightarrow> apply_summary now sm key s)"

text \<open>The second stage of the context guard. \<open>build\<close> makes the messages of a request from a history and a summary
  (\<open>BuildMessages\<close> without a user message).\<close>

definition summarizeAndRebuildMessages ::
  "llm \<Rightarrow> string \<Rightarrow> int \<Rightarrow> instant \<Rightarrow> (Message list \<Rightarrow> string \<Rightarrow> Message list) \<Rightarrow> string \<Rightarrow>
   SessionManager \<Rightarrow> Message list \<Rightarrow> SessionManager \<times> Message list \<times> bool" where
  "summarizeAndRebuildMessages llm model window now build key sm current =
     (let sm' = summarizeSession llm model window now sm key;
          rebuilt = build (sm_GetHistory sm' key) (sm_GetSummary sm' key)
      in (sm', rebuilt,
          sm_GetSummary sm key \<noteq> sm_GetSummary sm' key \<or> \<not> messagesEqual (sm_GetHistory sm key) (sm_GetHistory sm' key) \<or>
          \<not> messagesEqual current rebuilt))"

text \<open>The trigger, and the set of sessions with a summary in progress.\<close>

record summary_limits =
  SummarizeTokenPercent :: int
  SummarizeMessageThreshold :: int

definition needs_summary :: "int \<Rightarrow> summary_limits \<Rightarrow> Message list \<Rightarrow> bool" where
  "needs_summary window limits history \<longleftrightarrow>
     SummarizeMessageThreshold limits < int (length history) \<or>
     window * SummarizeTokenPercent limits div 100 < estimateTokens_msgs history"

definition maybeSummarize :: "int \<Rightarrow> summary_limits \<Rightarrow> string set \<Rightarrow> string \<Rightarrow> string \<Rightarrow> Message list \<Rightarrow> string set \<times> bool" where
  "maybeSummarize window limits summarizing agentID sessionKey history =
     (let key = agentID @ '':'' @ sessionKey in
      if needs_summary window limits history \<and> key \<notin> summarizing then (insert key summarizing, True)
      else (summarizing, False))"

section \<open>Operations on whole sessions\<close>

definition PruneLastTurn :: "instant \<Rightarrow> SessionManager \<Rightarrow> string \<Rightarrow> SessionManager" where
  "PruneLastTurn now sm key =
     (let history = sm_GetHistory sm key in
      if length history < 2 then sm
      else sm_SetHistory now sm key (take (length history - 2) history))"

definition ResetSession :: "instant \<Rightarrow> SessionManager \<Rightarrow> string \<Rightarrow> SessionManager option" where
  "ResetSession now sm key =
     (if TrimSpace key = [] then None
      else Some (sm_SetDiscoveredTools now (sm_SetSummary now (sm_SetHistory now sm key []) key []) key []))"

definition CompactSession :: "llm \<Rightarrow> string \<Rightarrow> int \<Rightarrow> instant \<Rightarrow> SessionManager \<Rightarrow> string \<Rightarrow> SessionManager option" where
  "CompactSession llm model window now sm key =
     (if TrimSpace key = [] then None else Some (summarizeSession llm model window now sm key))"

section \<open>What a summary covers\<close>

lemma sm_history_truncate:
  "sm_GetHistory (sm_TruncateHistory now sm key n) key = (if sessions sm key = None then [] else keep_last n (sm_GetHistory sm key))"
  using sm_truncate_keep [of sm key _ now n]
  by (cases "sessions sm key") (auto simp: sm_GetHistory_def sm_defs)

lemma sm_summary_set [simp]:
  "sm_GetHistory (sm_SetSummary now sm key s) key = sm_GetHistory sm key"
  "sessions (sm_SetSummary now sm key s) key = None \<longleftrightarrow> sessions sm key = None"
  by (auto simp: sm_GetHistory_def sm_defs split: option.splits)

lemma apply_summary_history:
  "sm_GetHistory (apply_summary now sm key s) key =
     (if sessions sm key = None then [] else keep_last 4 (sm_GetHistory sm key))"
  by (simp add: apply_summary_def sm_history_truncate)

lemma apply_summary_summary:
  "sessions sm key \<noteq> None \<Longrightarrow> sm_GetSummary (apply_summary now sm key s) key = s"
  by (auto simp: apply_summary_def sm_GetSummary_def sm_defs)

lemma sm_add_history [simp]:
  "sm_GetHistory (sm_AddFullMessage now sm key m) key = sm_GetHistory sm key @ [m]"
  "sessions (sm_AddFullMessage now sm key m) key \<noteq> None"
  by (simp_all add: sm_AddFullMessage_def put_def sm_GetHistory_def newSession_def Let_def split: option.splits)

lemma sm_add_all:
  "sm_GetHistory (foldl (\<lambda>sm m. sm_AddFullMessage now sm key m) sm ms) key = sm_GetHistory sm key @ ms"
  "sessions sm key \<noteq> None \<Longrightarrow> sessions (foldl (\<lambda>sm m. sm_AddFullMessage now sm key m) sm ms) key \<noteq> None"
  by (induction ms arbitrary: sm) (simp_all del: not_None_eq)

lemma sm_add_summary [simp]:
  "sm_GetSummary (sm_AddFullMessage now sm key m) key' = sm_GetSummary sm key'"
  "sm_GetSummary (sm_SetDiscoveredTools now sm key names) key' = sm_GetSummary sm key'"
  by (simp_all add: sm_AddFullMessage_def sm_SetDiscoveredTools_def put_def sm_GetSummary_def newSession_def Let_def split: option.splits)

lemma keep_last_4: "keep_last 4 h = drop (length h - 4) h"
  by (simp add: keep_last_def)

lemma summary_batches_cover: "concat (map fst (summary_batches valid summary)) = valid"
  by (simp add: summary_batches_def Let_def)

lemma Contains_append [simp]:
  "Contains s t \<Longrightarrow> Contains (a @ s) t" "Contains s t \<Longrightarrow> Contains (s @ b) t" "Contains s t \<Longrightarrow> Contains (c # s) t"
  unfolding Contains_iff by (metis append.assoc, metis append.assoc, metis append_Cons)

lemma Contains_member: "s \<in> set ss \<Longrightarrow> Contains s t \<Longrightarrow> Contains (concat ss) t"
  by (induction ss) auto

text \<open>Trimming does not touch a part without white space at its ends.\<close>

lemma Contains_TrimSpace:
  assumes "Contains s t" and "trimmed t" and "t \<noteq> []"
  shows "Contains (TrimSpace s) t"
proof -
  have left: "Contains (TrimLeftSpace s) t" if "Contains s t" "t \<noteq> []" "\<not> is_space (hd t)" for s t
  proof -
    from that(1) obtain ys zs where s: "s = ys @ t @ zs" by (auto simp: Contains_iff)
    from that(2,3) have "dropWhile is_space (t @ zs) = t @ zs" by (cases t) auto
    with s show ?thesis
      unfolding TrimLeftSpace_def s Contains_iff dropWhile_append by (metis append_Nil)
  qed
  have ends: "\<not> is_space (hd t)" "\<not> is_space (hd (rev t))" using assms(2,3) by (auto simp: trimmed_def hd_rev)
  have rev: "Contains (rev a) (rev b) \<longleftrightarrow> Contains a b" for a b
    unfolding Contains_iff by (metis rev_append append.assoc rev_rev_ident)
  have "Contains (TrimLeftSpace (rev (TrimLeftSpace s))) (rev t)"
    using left [OF assms(1,3) ends(1)] assms(3) ends(2) by (intro left) (simp_all add: rev)
  then show ?thesis
    using rev [of "rev (TrimLeftSpace (rev (TrimLeftSpace s)))" t] by (simp add: TrimSpace_def TrimRightSpace_def TrimLeftSpace_def)
qed

text \<open>A model that repeats a text: whenever its prompt contains it, so does its answer.\<close>

definition repeats :: "llm \<Rightarrow> string \<Rightarrow> bool" where
  "repeats llm t \<longleftrightarrow> trimmed t \<and> t \<noteq> [] \<and>
     (\<forall>model call prompt attempt. Contains prompt t \<longrightarrow> (\<exists>c. llm model call prompt attempt = LLMContent c \<and> Contains c t))"

lemma Contains_nonempty: "Contains c t \<Longrightarrow> t \<noteq> [] \<Longrightarrow> c \<noteq> []"
  by (auto simp: Contains_iff)

lemma retry_repeats:
  assumes "repeats llm t" and "Contains prompt t"
  shows "\<exists>c. retryLLMCall llm model call prompt = LLMContent c \<and> c \<noteq> [] \<and> Contains c t"
proof -
  from assms obtain c where c: "llm model call prompt 0 = LLMContent c" "Contains c t" "t \<noteq> []" unfolding repeats_def by blast
  with Contains_nonempty show ?thesis by (auto simp: retryLLMCall_def llmMaxRetries_def numeral_3_eq_3)
qed

lemma batch_repeats:
  assumes "repeats llm t" and "Contains e t \<or> (\<exists>m \<in> set batch. Contains (Content m) t)"
  shows "Contains (summarizeBatch llm model call batch e) t"
proof -
  have "Contains (batch_prompt batch e) t"
    using assms(2)
  proof
    assume e: "Contains e t"
    moreover have "t \<noteq> []" using assms(1) by (simp add: repeats_def)
    ultimately have "e \<noteq> []" by (rule Contains_nonempty)
    then have "\<exists>a b. batch_prompt batch e = a @ e @ b"
      by (intro exI [of _ "''Provide a concise summary of this conversation segment, preserving core context and key points.'' @ [lf] @
        ''Existing context: ''"] exI [of _ "[lf] @ [lf] @ ''CONVERSATION:'' @ [lf] @ concat (map batch_line batch)"])
        (simp only: batch_prompt_def if_True append_assoc simp_thms)
    with e show ?thesis by auto
  next
    assume "\<exists>m \<in> set batch. Contains (Content m) t"
    then obtain m where "m \<in> set batch" "Contains (Content m) t" by blast
    then have "batch_line m \<in> set (map batch_line batch)" "Contains (batch_line m) t" by (simp_all add: batch_line_def)
    then have "Contains (concat (map batch_line batch)) t" by (rule Contains_member)
    then show ?thesis unfolding batch_prompt_def by (intro Contains_append(1))
  qed
  from retry_repeats [OF assms(1) this, of model call] obtain c where
    "retryLLMCall llm model call (batch_prompt batch e) = LLMContent c" "c \<noteq> []" "Contains c t" by blast
  moreover have "trimmed t" "t \<noteq> []" using assms(1) by (simp_all add: repeats_def)
  ultimately show ?thesis using Contains_TrimSpace by (simp add: summarizeBatch_def)
qed

lemma merge_repeats:
  assumes "repeats llm t" and "Contains s1 t \<or> Contains s2 t"
  shows "Contains (merge_summaries llm model s1 s2) t"
proof -
  have "\<exists>a b. merge_prompt s1 s2 = a @ s1 @ b @ s2"
    by (intro exI [of _ "''Merge these two conversation summaries into one cohesive summary:'' @ [lf, lf] @ ''1: ''"]
        exI [of _ "[lf, lf] @ ''2: ''"]) (simp only: merge_prompt_def append_assoc)
  then obtain a b where "merge_prompt s1 s2 = a @ s1 @ b @ s2" by blast
  with assms(2) have "Contains (merge_prompt s1 s2) t" by auto
  from retry_repeats [OF assms(1) this, of model 2] show ?thesis by (auto simp: merge_summaries_def)
qed

lemma summary_repeats:
  assumes "repeats llm t" and "4 < length history"
    and "(\<exists>m \<in> set (valid_messages window history). Contains (Content m) t) \<or>
      valid_messages window history \<noteq> [] \<and> length (valid_messages window history) \<le> 10 \<and> Contains summary t"
  shows "\<exists>s. summary_of llm model window history summary = Some s \<and> Contains s t"
proof -
  let ?valid = "valid_messages window history"
  have ne: "?valid \<noteq> []" using assms(3) by auto
  define final where "final = (case summary_batches ?valid summary of
                  [(b1, e1), (b2, e2)] \<Rightarrow>
                    merge_summaries llm model (summarizeBatch llm model 0 b1 e1) (summarizeBatch llm model 1 b2 e2)
                | [(b, e)] \<Rightarrow> summarizeBatch llm model 0 b e
                | _ \<Rightarrow> [])"
  have "Contains final t"
  proof (cases "10 < length ?valid")
    case False
    moreover have "Contains (summarizeBatch llm model 0 ?valid summary) t"
      by (rule batch_repeats [OF assms(1)]) (use assms(3) in blast)
    ultimately show ?thesis by (simp add: final_def summary_batches_def)
  next
    case True
    let ?mid = "findNearestUserMessage ?valid (length ?valid div 2)"
    from True assms(3) obtain m where m: "m \<in> set ?valid" "Contains (Content m) t" by auto
    have "set ?valid = set (take ?mid ?valid) \<union> set (drop ?mid ?valid)" by (metis append_take_drop_id set_append)
    with m have "(\<exists>m \<in> set (take ?mid ?valid). Contains (Content m) t) \<or> (\<exists>m \<in> set (drop ?mid ?valid). Contains (Content m) t)"
      by blast
    then have "Contains (summarizeBatch llm model 0 (take ?mid ?valid) []) t \<or> Contains (summarizeBatch llm model 1 (drop ?mid ?valid) []) t"
      using batch_repeats [OF assms(1)] by blast
    from merge_repeats [OF assms(1) this] True show ?thesis by (simp add: final_def summary_batches_def Let_def)
  qed
  moreover from this assms(1) have "final \<noteq> []" using Contains_nonempty by (auto simp: repeats_def)
  ultimately show ?thesis
    using ne assms(2) unfolding summary_of_def Let_def final_def [symmetric] by auto
qed

lemma summarized_shape:
  assumes "summary_of llm model window (sm_GetHistory sm key) (sm_GetSummary sm key) = Some s"
  shows "sm_GetHistory (summarizeSession llm model window now sm key) key =
      drop (length (sm_GetHistory sm key) - 4) (sm_GetHistory sm key) \<and>
    sm_GetSummary (summarizeSession llm model window now sm key) key = s \<and> s \<noteq> [] \<and> 4 < length (sm_GetHistory sm key)"
proof -
  have "4 < length (sm_GetHistory sm key)" "s \<noteq> []"
    using assms by (auto simp: summary_of_def Let_def oversized_note_def split: if_splits)
  moreover from this have "sessions sm key \<noteq> None" by (auto simp: sm_GetHistory_def split: option.splits)
  ultimately show ?thesis
    using assms by (simp add: summarizeSession_def apply_summary_history apply_summary_summary keep_last_4 del: not_None_eq)
qed

text \<open>What summaries may do to a session: they take messages off its front, but only when a summary stands in for them and
  four messages stay.\<close>

definition condensed_history :: "Message list \<Rightarrow> string \<Rightarrow> Message list \<Rightarrow> string \<Rightarrow> bool" where
  "condensed_history h s h' s' \<longleftrightarrow>
     (\<exists>dropped. h = dropped @ h' \<and> (dropped = [] \<longrightarrow> s' = s) \<and> (dropped \<noteq> [] \<longrightarrow> 4 \<le> length h' \<and> s' \<noteq> []))"

definition condensed :: "string \<Rightarrow> SessionManager \<Rightarrow> SessionManager \<Rightarrow> bool" where
  "condensed key sm sm' \<longleftrightarrow>
     condensed_history (sm_GetHistory sm key) (sm_GetSummary sm key) (sm_GetHistory sm' key) (sm_GetSummary sm' key)"

lemma condensed_history_refl [simp]: "condensed_history h s h s"
  by (simp add: condensed_history_def)

lemma condensed_history_trans:
  assumes "condensed_history h s h1 s1" and "condensed_history (h1 @ ms) s1 h2 s2"
  shows "condensed_history (h @ ms) s h2 s2"
proof -
  from assms(1) obtain d where d: "h = d @ h1" "d = [] \<longrightarrow> s1 = s" "d \<noteq> [] \<longrightarrow> 4 \<le> length h1 \<and> s1 \<noteq> []"
    unfolding condensed_history_def by blast
  from assms(2) obtain d' where d': "h1 @ ms = d' @ h2" "d' = [] \<longrightarrow> s2 = s1" "d' \<noteq> [] \<longrightarrow> 4 \<le> length h2 \<and> s2 \<noteq> []"
    unfolding condensed_history_def by blast
  have "h @ ms = (d @ d') @ h2" using d(1) d'(1) by simp
  moreover have "d @ d' \<noteq> [] \<longrightarrow> 4 \<le> length h2 \<and> s2 \<noteq> []"
  proof (cases "d' = []")
    case True
    with d'(1) have "length h1 \<le> length h2" by (metis append_Nil le_add1 length_append)
    with True d(3) d'(2) show ?thesis by auto
  next
    case False
    with d'(3) show ?thesis by simp
  qed
  moreover have "d @ d' = [] \<longrightarrow> s2 = s" using d(2) d'(2) by simp
  ultimately show ?thesis unfolding condensed_history_def by blast
qed

lemma condensed_refl [simp]: "condensed key sm sm"
  by (simp add: condensed_def)

lemma condensed_trans: "condensed key a b \<Longrightarrow> condensed key b c \<Longrightarrow> condensed key a c"
  using condensed_history_trans [where ms = "[]"] unfolding condensed_def by simp

lemma summarizeSession_condensed: "condensed key sm (summarizeSession llm model window now sm key)"
proof (cases "summary_of llm model window (sm_GetHistory sm key) (sm_GetSummary sm key)")
  case None
  then show ?thesis by (simp add: summarizeSession_def)
next
  case (Some s)
  from summarized_shape [OF this, of now] have "4 < length (sm_GetHistory sm key)" "s \<noteq> []"
    "sm_GetSummary (summarizeSession llm model window now sm key) key = s"
    "sm_GetHistory (summarizeSession llm model window now sm key) key = drop (length (sm_GetHistory sm key) - 4) (sm_GetHistory sm key)"
    by simp_all
  then show ?thesis
    unfolding condensed_def condensed_history_def
    by (intro exI [of _ "take (length (sm_GetHistory sm key) - 4) (sm_GetHistory sm key)"]) auto
qed

lemma rebuild_condensed: "condensed key sm (fst (summarizeAndRebuildMessages llm model window now build key sm current))"
  by (simp add: summarizeAndRebuildMessages_def Let_def summarizeSession_condensed)

text \<open>C23. Summarizing a session either leaves it as it was, or keeps exactly its last four messages and sets a summary that is not
  empty; and the summary covers the rest. This is stated with a model that repeats a text (its answer contains the text whenever its
  prompt does): if a dropped message of the user or the assistant contains the text and is not oversized, or if at most ten messages
  are summarized and the previous summary contains it, then the session is summarized and the new summary contains the text. So
  every such message gets into a request, and what the model makes of it into the summary. Not covered are oversized messages and,
  when more than ten messages are summarized, the previous summary (\<open>long_summary_forgets\<close>); and no message may arrive while
  the summary is made (\<open>late_messages_lose_history\<close>).\<close>

theorem summarize_covers:
  assumes "sm' = summarizeSession llm model window now sm key" and "history = sm_GetHistory sm key"
    and "dropped = take (length history - 4) history"
  shows "(sm' = sm \<or> sm_GetHistory sm' key = drop (length history - 4) history \<and> sm_GetSummary sm' key \<noteq> []) \<and>
    (\<forall>t. repeats llm t \<and>
       ((\<exists>m \<in> set dropped. summary_role m \<and> \<not> oversized window m \<and> Contains (Content m) t) \<or>
        length (filter (\<lambda>m. summary_role m \<and> \<not> oversized window m) dropped) \<in> {1..10} \<and> Contains (sm_GetSummary sm key) t) \<longrightarrow>
       sm_GetHistory sm' key = drop (length history - 4) history \<and> Contains (sm_GetSummary sm' key) t)"
proof (intro conjI allI impI)
  show "sm' = sm \<or> sm_GetHistory sm' key = drop (length history - 4) history \<and> sm_GetSummary sm' key \<noteq> []"
    using summarized_shape assms(1,2)
    by (cases "summary_of llm model window history (sm_GetSummary sm key)") (auto simp: summarizeSession_def)
next
  fix t
  have valid: "valid_messages window history = filter (\<lambda>m. summary_role m \<and> \<not> oversized window m) dropped"
    by (simp add: valid_messages_def assms(3))
  assume t: "repeats llm t \<and>
       ((\<exists>m \<in> set dropped. summary_role m \<and> \<not> oversized window m \<and> Contains (Content m) t) \<or>
        length (filter (\<lambda>m. summary_role m \<and> \<not> oversized window m) dropped) \<in> {1..10} \<and> Contains (sm_GetSummary sm key) t)"
  then consider m where "m \<in> set (valid_messages window history)" | "1 \<le> length (valid_messages window history)"
    by (auto simp: valid)
  then have "valid_messages window history \<noteq> []" by cases auto
  then have "dropped \<noteq> []" by (auto simp: valid)
  then have "4 < length history" using assms(3) by auto
  moreover have "(\<exists>m \<in> set (valid_messages window history). Contains (Content m) t) \<or>
      valid_messages window history \<noteq> [] \<and> length (valid_messages window history) \<le> 10 \<and> Contains (sm_GetSummary sm key) t"
    using t \<open>valid_messages window history \<noteq> []\<close> by (auto simp: valid)
  ultimately obtain s where "summary_of llm model window history (sm_GetSummary sm key) = Some s" "Contains s t"
    using summary_repeats t by blast
  with summarized_shape assms(1,2)
  show "sm_GetHistory sm' key = drop (length history - 4) history" "Contains (sm_GetSummary sm' key) t" by metis+
qed

text \<open>A session with more than ten messages to summarize forgets its previous summary: what is written does
  not depend on it.\<close>

theorem long_summary_forgets:
  assumes "10 < length (valid_messages window history)"
  shows "summary_of llm model window history summary = summary_of llm model window history summary'"
  using assms by (simp add: summary_of_def summary_batches_def Let_def)

text \<open>Messages that arrive while a summary is computed push unsummarized ones out: after four of them,
  the four messages that the summary left out are neither in the history nor seen by the model.\<close>

theorem late_messages_lose_history:
  assumes "sm_GetHistory sm key = old @ recent" and "length recent = 4" and "old \<noteq> []"
    and "sessions sm key \<noteq> None" and "4 \<le> length late"
    and "sm' = foldl (\<lambda>sm m. sm_AddFullMessage now sm key m) sm late"
    and "summary_of llm model window (sm_GetHistory sm key) (sm_GetSummary sm key) = Some s"
  shows "sm_GetHistory (apply_summary now sm' key s) key = drop (length late - 4) late \<and>
    (\<forall>recent'. length recent' = 4 \<longrightarrow>
       summary_of llm model window (old @ recent') (sm_GetSummary sm key) = Some s)"
proof -
  have "sm_GetHistory sm' key = old @ recent @ late" "sessions sm' key \<noteq> None"
    using sm_add_all assms(1,4,6) by (simp_all del: not_None_eq)
  moreover have "drop (length (old @ recent @ late) - 4) (old @ recent @ late) = drop (length late - 4) late"
    using assms(5) by simp
  moreover have "summary_of llm model window (old @ recent') x = summary_of llm model window (old @ recent) x"
    if "length recent' = 4" for recent' x
    using that assms(2) by (simp add: summary_of_def valid_messages_def)
  ultimately show ?thesis
    using assms(1,7) by (simp add: apply_summary_history keep_last_4 del: not_None_eq)
qed

section \<open>A concrete session\<close>

definition demo_chat :: "nat \<Rightarrow> Message list" where
  "demo_chat n = map (\<lambda>i. text_message ''user'' [CHR ''q'']) [0..<n]"

definition demo_sessions :: "nat \<Rightarrow> SessionManager" where
  "demo_sessions n = \<lparr>sessions = [''k'' \<mapsto> (newSession ''k'' 0)\<lparr>SessMessages := demo_chat n\<rparr>], storage = []\<rparr>"

definition demo_llm :: llm where "demo_llm model call prompt attempt = LLMContent ''short''"

lemma demo_history: "sm_GetHistory (demo_sessions n) ''k'' = demo_chat n" "sm_GetSummary (demo_sessions n) ''k'' = []"
  "sessions (demo_sessions n) ''k'' \<noteq> None"
  by (simp_all add: demo_sessions_def sm_GetHistory_def sm_GetSummary_def newSession_def)

lemma demo_batch: "summarizeBatch demo_llm ''m'' i b e = ''short''"
  by (simp add: summarizeBatch_def retryLLMCall_def llmMaxRetries_def numeral_3_eq_3 demo_llm_def TrimSpace_def
      TrimLeftSpace_def TrimRightSpace_def is_space_def)

lemma demo_valid: "valid_messages 100 (demo_chat n) = demo_chat (n - 4)"
  by (simp add: valid_messages_def demo_chat_def take_map filter_map o_def summary_role_def oversized_def text_message_def
      flip: map_replicate_const)

lemma demo_chat_fits [simp]: "\<not> (\<exists>m \<in> set (take k (demo_chat n)). summary_role m \<and> oversized 100 m)"
  by (auto simp: demo_chat_def oversized_def text_message_def dest!: in_set_takeD)

lemma length_demo_chat [simp]: "length (demo_chat n) = n" "demo_chat n = [] \<longleftrightarrow> n = 0"
  by (simp_all add: demo_chat_def)

definition echo_llm :: llm where "echo_llm model call prompt attempt = LLMContent prompt"

theorem summarize_covers_witness:
  "\<exists>sm'. sm' = summarizeSession echo_llm ''m'' 100 1 (demo_sessions 6) ''k'' \<and>
     sm_GetHistory sm' ''k'' = drop 2 (demo_chat 6) \<and> Contains (sm_GetSummary sm' ''k'') ''q''"
proof -
  have "repeats echo_llm ''q''"
    by (auto simp: repeats_def echo_llm_def trimmed_def is_space_def)
  moreover have "text_message ''user'' ''q'' \<in> set (take 2 (demo_chat 6))" by (simp add: demo_chat_def upt_rec)
  moreover have "summary_role (text_message ''user'' ''q'')" "\<not> oversized 100 (text_message ''user'' ''q'')"
    "Contains (Content (text_message ''user'' ''q'')) ''q''"
    by (simp_all add: summary_role_def oversized_def text_message_def Contains_def HasPrefix_def)
  ultimately show ?thesis
    using summarize_covers [OF refl refl refl, of echo_llm "''m''" 100 1 "demo_sessions 6" "''k''"] demo_history by auto
qed

theorem long_summary_forgets_witness:
  "summary_of demo_llm ''m'' 100 (demo_chat 15) ''before'' = summary_of demo_llm ''m'' 100 (demo_chat 15) []"
  by (rule long_summary_forgets) (simp add: demo_valid)

theorem late_messages_lose_history_witness:
  "sm_GetHistory (apply_summary 1 (foldl (\<lambda>sm m. sm_AddFullMessage 1 sm ''k'' m) (demo_sessions 5)
      [text_message ''user'' ''1'', text_message ''user'' ''2'', text_message ''user'' ''3'', text_message ''user'' ''4''])
      ''k'' ''short'') ''k'' =
   [text_message ''user'' ''1'', text_message ''user'' ''2'', text_message ''user'' ''3'', text_message ''user'' ''4'']"
proof -
  have split: "demo_chat 5 = demo_chat 1 @ demo_chat 4"
    by (simp add: demo_chat_def upt_rec)
  have "summary_of demo_llm ''m'' 100 (sm_GetHistory (demo_sessions 5) ''k'') (sm_GetSummary (demo_sessions 5) ''k'') = Some ''short''"
    by (simp add: summary_of_def demo_history demo_valid demo_batch demo_chat_fits summary_batches_def Let_def)
  from late_messages_lose_history [OF _ _ _ demo_history(3) _ refl this, of "demo_chat 1" "demo_chat 4"
      "[text_message ''user'' ''1'', text_message ''user'' ''2'', text_message ''user'' ''3'', text_message ''user'' ''4'']" 1] split
  show ?thesis by (simp add: demo_history)
qed

end
