(* ===== verification/Dispatch.thy ===== *)
theory Dispatch
  imports Route
begin

text \<open>
  From an inbound message to a run of an agent: \<open>pkg/agent/registry.go\<close>, the front part of
  \<open>processMessageDetailed\<close> in \<open>pkg/agent/loop.go\<close> (choice of the agent, admission, session key) and the control
  of active runs in \<open>pkg/agent/run_control.go\<close>. The workers of the loop admit and finish messages concurrently:
  \<open>run_step\<close> interleaves their atomic operations with requests to stop a run.
\<close>

section \<open>The registry of agents\<close>

text \<open>An agent instance is its identifier; the list is the iteration order of the map, which Go leaves open.\<close>

type_synonym agent_registry = "string list"

definition registered_ids :: "RouteConfig \<Rightarrow> string list" where
  "registered_ids cfg =
     (if Agents cfg = [] then [''main''] else map (\<lambda>c. NormalizeAgentID (ConfID c)) (Agents cfg))"

definition NewAgentRegistry :: "RouteConfig \<Rightarrow> agent_registry" where
  "NewAgentRegistry cfg = remdups (registered_ids cfg)"

definition GetAgent :: "agent_registry \<Rightarrow> string \<Rightarrow> string option" where
  "GetAgent reg agentID = (let i = NormalizeAgentID agentID in if i \<in> set reg then Some i else None)"

definition GetDefaultAgent :: "agent_registry \<Rightarrow> string option" where
  "GetDefaultAgent reg =
     (if ''main'' \<in> set reg then Some ''main'' else case reg of [] \<Rightarrow> None | a # _ \<Rightarrow> Some a)"

definition CanSpawnSubagent :: "agent_registry \<Rightarrow> (string \<Rightarrow> string list option) \<Rightarrow> string \<Rightarrow> string \<Rightarrow> bool" where
  "CanSpawnSubagent reg allowAgents parentID targetID =
     (case GetAgent reg parentID of
        None \<Rightarrow> False
      | Some parent \<Rightarrow>
          (case allowAgents parent of
             None \<Rightarrow> False
           | Some allowed \<Rightarrow>
               list_ex (\<lambda>a. a = ''*'' \<or> NormalizeAgentID a = NormalizeAgentID targetID) allowed))"

section \<open>The route of a message\<close>

record inbound_message =
  MsgChannel :: string
  MsgSenderID :: string
  MsgChatID :: string
  MsgSessionKey :: string
  MsgPeerKind :: string
  MsgPeerID :: string
  MsgMetadata :: "(string \<times> string) list"

definition inboundMetadata :: "inbound_message \<Rightarrow> string \<Rightarrow> string" where
  "inboundMetadata msg key = (case map_of (MsgMetadata msg) key of Some v \<Rightarrow> v | None \<Rightarrow> [])"

definition extractPeer :: "inbound_message \<Rightarrow> RoutePeer option" where
  "extractPeer msg =
     (if MsgPeerKind msg = [] then None
      else Some \<lparr>Kind = MsgPeerKind msg,
        PeerID = (if MsgPeerID msg \<noteq> [] then MsgPeerID msg
                  else if MsgPeerKind msg = ''direct'' then MsgSenderID msg else MsgChatID msg)\<rparr>)"

definition extractParentPeer :: "inbound_message \<Rightarrow> RoutePeer option" where
  "extractParentPeer msg =
     (let kind = inboundMetadata msg ''parent_peer_kind''; i = inboundMetadata msg ''parent_peer_id''
      in if kind = [] \<or> i = [] then None else Some \<lparr>Kind = kind, PeerID = i\<rparr>)"

datatype request_error =
  AgentNotFound string | NoAgentAvailable | InvalidSessionKey string | RunInProgress string

record message_route =
  MsgRouteAgentID :: string
  MsgRouteSessionKey :: string
  Explicit :: bool

definition route_input :: "inbound_message \<Rightarrow> RouteInput" where
  "route_input msg =
     \<lparr>InChannel = MsgChannel msg, InAccountID = inboundMetadata msg ''account_id'',
      InPeer = extractPeer msg, InParentPeer = extractParentPeer msg,
      InGuildID = inboundMetadata msg ''guild_id'', InTeamID = inboundMetadata msg ''team_id''\<rparr>"

definition resolveMessageRoute ::
  "RouteConfig \<Rightarrow> agent_registry \<Rightarrow> inbound_message \<Rightarrow> request_error + message_route \<times> string" where
  "resolveMessageRoute cfg reg msg =
     (let requestedID = inboundMetadata msg ''requested_agent_id'' in
      if requestedID \<noteq> [] then
        (case GetAgent reg requestedID of
           None \<Rightarrow> Inl (AgentNotFound requestedID)
         | Some agent \<Rightarrow>
             Inr (\<lparr>MsgRouteAgentID = agent,
               MsgRouteSessionKey = ToLower (BuildAgentPeerSessionKey
                 \<lparr>AgentID = agent, Channel = MsgChannel msg, AccountID = [], Peer = extractPeer msg,
                  Scope = DMScope_of (ConfDMScope cfg), IdentityLinks = []\<rparr>),
               Explicit = True\<rparr>, agent))
      else
        let route = ResolveRoute cfg (route_input msg);
            r = \<lparr>MsgRouteAgentID = RouteAgentID route, MsgRouteSessionKey = RouteSessionKey route, Explicit = False\<rparr>
        in case GetAgent reg (RouteAgentID route) of
             Some agent \<Rightarrow> Inr (r, agent)
           | None \<Rightarrow> (case GetDefaultAgent reg of Some agent \<Rightarrow> Inr (r, agent) | None \<Rightarrow> Inl NoAgentAvailable))"

definition sessionKeyAgentPrefix :: string where "sessionKeyAgentPrefix = ''agent:''"

definition resolveScopeKey :: "message_route \<Rightarrow> string \<Rightarrow> string" where
  "resolveScopeKey route msgSessionKey =
     (if msgSessionKey \<noteq> [] \<and> HasPrefix msgSessionKey sessionKeyAgentPrefix then msgSessionKey
      else MsgRouteSessionKey route)"

definition validateExplicitSessionKey :: "string \<Rightarrow> request_error option" where
  "validateExplicitSessionKey sessionKey =
     (let raw = TrimSpace sessionKey in
      if raw = [] then None
      else if \<not> HasPrefix raw sessionKeyAgentPrefix then None
      else if IsHeartbeatSessionKey raw then Some (InvalidSessionKey raw)
      else None)"

section \<open>Admission\<close>

record agent_run =
  RunAgent :: string
  RunLock :: string
  RunSession :: string

text \<open>\<open>locks\<close> holds the agents whose run lock is taken.\<close>

definition tryAcquireAgentRun :: "string set \<Rightarrow> string \<Rightarrow> (string set) option" where
  "tryAcquireAgentRun locks agentID = (if agentID \<in> locks then None else Some (insert agentID locks))"

definition admit ::
  "RouteConfig \<Rightarrow> agent_registry \<Rightarrow> string set \<Rightarrow> inbound_message \<Rightarrow> request_error + agent_run \<times> string set" where
  "admit cfg reg locks msg =
     (case resolveMessageRoute cfg reg msg of
        Inl e \<Rightarrow> Inl e
      | Inr (route, agent) \<Rightarrow>
          (case validateExplicitSessionKey (MsgSessionKey msg) of
             Some e \<Rightarrow> Inl e
           | None \<Rightarrow>
               (case tryAcquireAgentRun locks (MsgRouteAgentID route) of
                  None \<Rightarrow> Inl (RunInProgress (MsgRouteAgentID route))
                | Some locks' \<Rightarrow>
                    Inr (\<lparr>RunAgent = agent, RunLock = MsgRouteAgentID route,
                          RunSession = resolveScopeKey route (MsgSessionKey msg)\<rparr>, locks'))))"

section \<open>Control of active runs\<close>

record activeRunState =
  RunID :: string
  StopRequested :: bool
  StopReason :: string

text \<open>The table of active runs, and the runs whose context was cancelled.\<close>

record run_control =
  activeRuns :: "string \<rightharpoonup> activeRunState"
  cancelledRuns :: "string set"

datatype control_error = NoActiveRun | RunMismatch string

definition runControlKey :: "string \<Rightarrow> string \<Rightarrow> string" where
  "runControlKey channel chatID =
     (let c = TrimSpace channel; i = TrimSpace chatID in if c = [] \<or> i = [] then [] else c @ '':'' @ i)"

definition normalizeStopReason :: "string \<Rightarrow> string" where
  "normalizeStopReason reason = (let r = TrimSpace reason in if r = [] then ''Stopped by user.'' else r)"

definition CancelRun ::
  "run_control \<Rightarrow> string \<Rightarrow> string \<Rightarrow> string \<Rightarrow> string \<Rightarrow> run_control \<times> (control_error + string)" where
  "CancelRun rc channel chatID runID reason =
     (let key = runControlKey channel chatID; wanted = TrimSpace runID in
      if key = [] then (rc, Inl NoActiveRun)
      else
        (case activeRuns rc key of
           None \<Rightarrow> (rc, Inl NoActiveRun)
         | Some st \<Rightarrow>
             if TrimSpace (RunID st) = [] then (rc, Inl NoActiveRun)
             else if wanted \<noteq> [] \<and> wanted \<noteq> RunID st then (rc, Inl (RunMismatch (RunID st)))
             else
               (rc\<lparr>activeRuns := (activeRuns rc)(key \<mapsto>
                     st\<lparr>StopRequested := True, StopReason := normalizeStopReason reason\<rparr>),
                   cancelledRuns := insert (RunID st) (cancelledRuns rc)\<rparr>,
                Inr (RunID st))))"

definition registerActiveRun :: "run_control \<Rightarrow> string \<Rightarrow> string \<Rightarrow> string \<Rightarrow> run_control" where
  "registerActiveRun rc channel chatID runID =
     (let key = runControlKey channel chatID in
      if key = [] \<or> TrimSpace runID = [] then rc
      else rc\<lparr>activeRuns := (activeRuns rc)(key \<mapsto> \<lparr>RunID = runID, StopRequested = False, StopReason = []\<rparr>)\<rparr>)"

definition unregisterActiveRun :: "run_control \<Rightarrow> string \<Rightarrow> string \<Rightarrow> string \<Rightarrow> run_control" where
  "unregisterActiveRun rc channel chatID runID =
     (let key = runControlKey channel chatID in
      if key = [] \<or> TrimSpace runID = [] then rc
      else
        (case activeRuns rc key of
           Some st \<Rightarrow>
             if RunID st = runID then rc\<lparr>activeRuns := (activeRuns rc)(key := None)\<rparr> else rc
         | None \<Rightarrow> rc))"

definition runCancelState :: "run_control \<Rightarrow> string \<Rightarrow> string \<Rightarrow> string \<Rightarrow> string option" where
  "runCancelState rc channel chatID runID =
     (let key = runControlKey channel chatID in
      if key = [] \<or> TrimSpace runID = [] then None
      else
        (case activeRuns rc key of
           None \<Rightarrow> None
         | Some st \<Rightarrow>
             if RunID st \<noteq> runID then None
             else if \<not> StopRequested st then None
             else Some (normalizeStopReason (StopReason st))))"

datatype checkpoint_result = Proceed | RunCancelled string | ContextCancelled

definition runCancelCheckpoint :: "run_control \<Rightarrow> string \<Rightarrow> string \<Rightarrow> string \<Rightarrow> checkpoint_result" where
  "runCancelCheckpoint rc channel chatID runID =
     (case runCancelState rc channel chatID runID of
        Some reason \<Rightarrow> RunCancelled reason
      | None \<Rightarrow> if runID \<in> cancelledRuns rc then ContextCancelled else Proceed)"

section \<open>Concurrent runs\<close>

record dispatch_state =
  locks :: "string set"
  activity :: "agent_run list"
  control :: run_control

datatype control_op =
  Register string string string
| Unregister string string string
| Cancel string string string string

primrec control_step :: "run_control \<Rightarrow> control_op \<Rightarrow> run_control" where
  "control_step rc (Register channel chatID runID) = registerActiveRun rc channel chatID runID"
| "control_step rc (Unregister channel chatID runID) = unregisterActiveRun rc channel chatID runID"
| "control_step rc (Cancel channel chatID runID reason) = fst (CancelRun rc channel chatID runID reason)"

definition no_runs :: dispatch_state where
  "no_runs = \<lparr>locks = {}, activity = [], control = \<lparr>activeRuns = Map.empty, cancelledRuns = {}\<rparr>\<rparr>"

inductive run_step :: "RouteConfig \<Rightarrow> agent_registry \<Rightarrow> dispatch_state \<Rightarrow> dispatch_state \<Rightarrow> bool" for cfg reg where
  admits: "admit cfg reg (locks s) msg = Inr (r, ls) \<Longrightarrow>
    run_step cfg reg s (s\<lparr>locks := ls, activity := activity s @ [r]\<rparr>)"
| controls: "run_step cfg reg s (s\<lparr>control := control_step (control s) op\<rparr>)"
| finishes: "activity s = xs @ r # ys \<Longrightarrow>
    run_step cfg reg s (s\<lparr>locks := locks s - {RunLock r}, activity := xs @ ys\<rparr>)"

inductive run_reach :: "RouteConfig \<Rightarrow> agent_registry \<Rightarrow> dispatch_state \<Rightarrow> bool" for cfg reg where
  run_start: "run_reach cfg reg no_runs"
| run_next: "run_reach cfg reg s \<Longrightarrow> run_step cfg reg s t \<Longrightarrow> run_reach cfg reg t"

inductive_cases run_stepE: "run_step cfg reg s t"

section \<open>The agent of a route\<close>

definition registry_of :: "RouteConfig \<Rightarrow> agent_registry \<Rightarrow> bool" where
  "registry_of cfg reg \<longleftrightarrow> set reg = set (registered_ids cfg)"

lemma registry_New [simp]: "registry_of cfg (NewAgentRegistry cfg)"
  by (simp add: registry_of_def NewAgentRegistry_def)

lemma registered_normal:
  "plain_agents cfg \<Longrightarrow> i \<in> set (registered_ids cfg) \<Longrightarrow> NormalizeAgentID i = i"
  using Normalize_DefaultAgentID
  by (auto simp: registered_ids_def plain_agents_def NormalizeAgentID_idem DefaultAgentID_def split: if_splits)

lemma default_registered: "Agents cfg \<noteq> [] \<Longrightarrow> resolveDefaultAgentID cfg \<in> set (registered_ids cfg)"
proof -
  assume agents: "Agents cfg \<noteq> []"
  have empty: "NormalizeAgentID (ConfID c) = DefaultAgentID" if "TrimSpace (ConfID c) = []" for c
    using that by (simp add: NormalizeAgentID_def)
  from agents show ?thesis
    using empty
    by (auto simp: resolveDefaultAgentID_def registered_ids_def dest!: find_Some_in
        split: list.splits option.splits if_splits)
qed

lemma routed_agent_registered:
  assumes "Agents cfg \<noteq> []" "plain_agents cfg"
  shows "RouteAgentID (ResolveRoute cfg inp) \<in> set (registered_ids cfg)"
proof -
  obtain a t where "ResolveRoute cfg inp = choose_route cfg inp a t"
    using ResolveRoute_chosen by blast
  then have "RouteAgentID (ResolveRoute cfg inp) = pickAgentID cfg a" by (simp add: choose_route_fields)
  moreover from pickAgentID_known [OF assms, of a] default_registered [OF assms(1)]
  have "pickAgentID cfg a \<in> set (registered_ids cfg)"
    using assms(1) by (auto simp: registered_ids_def)
  ultimately show ?thesis by simp
qed

lemma GetAgent_registered:
  "registry_of cfg reg \<Longrightarrow> plain_agents cfg \<Longrightarrow> i \<in> set (registered_ids cfg) \<Longrightarrow> GetAgent reg i = Some i"
  by (simp add: GetAgent_def registry_of_def registered_normal Let_def)

lemma resolved_agent:
  assumes "Agents cfg \<noteq> []" "plain_agents cfg" "registry_of cfg reg"
    and "resolveMessageRoute cfg reg msg = Inr (route, agent)"
  shows "agent = MsgRouteAgentID route \<and> agent \<in> set reg"
  using assms(4) GetAgent_registered [OF assms(3,2) routed_agent_registered [OF assms(1,2), of "route_input msg"]]
  by (auto simp: resolveMessageRoute_def Let_def GetAgent_def split: if_splits option.splits)

text \<open>C6. Of the runs that take the lock of their agent (those of messages from the channels and of direct calls; webhooks, heartbeats and
  system messages run agents without this lock and are no steps here) no two of one agent are active at the same time: whatever
  messages are admitted, stopped and finished in whatever order, the active runs belong to different configured agents, and the locks are
  exactly theirs. This is for a configuration that lists agents, whose names do not normalize to one with a leading underscore,
  and the registry that is made of it.\<close>

theorem active_runs_exclusive:
  assumes "Agents cfg \<noteq> []" and "plain_agents cfg" and "registry_of cfg reg"
    and "run_reach cfg reg s"
  shows "distinct (map RunAgent (activity s)) \<and> locks s = RunAgent ` set (activity s) \<and>
    RunAgent ` set (activity s) \<subseteq> set reg"
proof -
  have "distinct (map RunAgent (activity s)) \<and> locks s = RunAgent ` set (activity s) \<and>
      (\<forall>r \<in> set (activity s). RunLock r = RunAgent r \<and> RunAgent r \<in> set reg)"
    using assms(4)
  proof induction
    case (run_next s t)
    from run_next.hyps(2) show ?case
    proof (cases rule: run_step.cases)
      case (admits msg r ls)
      then obtain route where route: "resolveMessageRoute cfg reg msg = Inr (route, RunAgent r)"
        and r: "RunLock r = MsgRouteAgentID route" "MsgRouteAgentID route \<notin> locks s"
        "ls = insert (MsgRouteAgentID route) (locks s)"
        by (auto simp: admit_def tryAcquireAgentRun_def split: sum.splits option.splits if_splits)
      from resolved_agent [OF assms(1-3) route] r run_next.IH admits(1) show ?thesis by auto
    next
      case (finishes xs r ys)
      have new: "RunAgent r \<notin> RunAgent ` set (xs @ ys)" and r: "RunLock r = RunAgent r"
        using run_next.IH finishes by auto
      moreover have "locks s = insert (RunAgent r) (RunAgent ` set (xs @ ys))"
        using run_next.IH finishes by auto
      ultimately have "locks s - {RunLock r} = RunAgent ` set (xs @ ys)"
        by (metis Diff_insert_absorb)
      with run_next.IH finishes show ?thesis by simp
    qed (use run_next.IH in simp)
  qed (simp add: no_runs_def)
  then show ?thesis by auto
qed

section \<open>Stopping a run\<close>

lemma normalizeStopReason_idem [simp]: "normalizeStopReason (normalizeStopReason r) = normalizeStopReason r"
proof -
  have "TrimSpace ''Stopped by user.'' = ''Stopped by user.''" by code_simp
  then show ?thesis by (simp add: normalizeStopReason_def Let_def)
qed

text \<open>C21. A request to stop hits the run it names and nothing else: it fails without a change, or the run that is
  active in that chat (the named one, when one is named) sees the reason at its next checkpoint, while other runs in
  other chats see what they saw before.\<close>

theorem cancel_hits_one_run:
  assumes "CancelRun rc channel chatID runID reason = (rc', r)"
  shows "case r of
      Inl _ \<Rightarrow> rc' = rc
    | Inr i \<Rightarrow>
        map_option RunID (activeRuns rc (runControlKey channel chatID)) = Some i \<and>
        TrimSpace runID \<in> {[], i} \<and>
        runCancelCheckpoint rc' channel chatID i = RunCancelled (normalizeStopReason reason) \<and>
        (\<forall>channel' chatID' j. runControlKey channel' chatID' \<noteq> runControlKey channel chatID \<and> j \<noteq> i \<longrightarrow>
           runCancelCheckpoint rc' channel' chatID' j = runCancelCheckpoint rc channel' chatID' j)"
  using assms
  by (auto simp: CancelRun_def runCancelCheckpoint_def runCancelState_def Let_def
      split: if_splits option.splits)

definition touches :: "string \<Rightarrow> string \<Rightarrow> control_op \<Rightarrow> bool" where
  "touches key i op = (case op of
     Register channel chatID _ \<Rightarrow> runControlKey channel chatID = key
   | Unregister channel chatID j \<Rightarrow> runControlKey channel chatID = key \<and> j = i
   | Cancel _ _ _ _ \<Rightarrow> False)"

definition stop_pending :: "run_control \<Rightarrow> string \<Rightarrow> string \<Rightarrow> bool" where
  "stop_pending rc key i \<longleftrightarrow>
     (case activeRuns rc key of None \<Rightarrow> False | Some st \<Rightarrow> RunID st = i \<and> StopRequested st)"

lemma stop_pending_step:
  "stop_pending rc key i \<Longrightarrow> \<not> touches key i op \<Longrightarrow> stop_pending (control_step rc op) key i"
  by (cases op) (auto simp: stop_pending_def touches_def registerActiveRun_def unregisterActiveRun_def
      CancelRun_def Let_def split: option.splits if_splits)

text \<open>C22. A stop is never lost: once it was accepted, the run finds it at every later checkpoint, whatever else happens
  to the table of runs, until the run itself ends or a new run starts in the same chat.\<close>

theorem stop_not_lost:
  assumes "CancelRun rc channel chatID runID reason = (rc', Inr i)"
    and "\<forall>op \<in> set ops. \<not> touches (runControlKey channel chatID) i op"
  shows "\<exists>why. runCancelCheckpoint (foldl control_step rc' ops) channel chatID i = RunCancelled why"
proof -
  let ?key = "runControlKey channel chatID"
  from assms(1) have start: "stop_pending rc' ?key i" and key: "?key \<noteq> []" "TrimSpace i \<noteq> []"
    by (auto simp: CancelRun_def stop_pending_def Let_def split: if_splits option.splits)
  have "stop_pending (foldl control_step rc' ops) ?key i"
    using start assms(2) by (induction ops arbitrary: rc') (auto intro: stop_pending_step)
  with key show ?thesis
    by (auto simp: stop_pending_def runCancelCheckpoint_def runCancelState_def Let_def split: option.splits)
qed

section \<open>Explicit session keys\<close>

lemma heartbeat_trim [simp]: "IsHeartbeatSessionKey (TrimSpace s) = IsHeartbeatSessionKey s"
  by (simp add: IsHeartbeatSessionKey_def)

lemma agent_prefix_trim:
  assumes "HasPrefix s sessionKeyAgentPrefix"
  shows "HasPrefix (TrimSpace s) sessionKeyAgentPrefix"
proof -
  from assms obtain t where s: "s = ''agent:'' @ t"
    by (auto simp: HasPrefix_iff sessionKeyAgentPrefix_def prefix_def)
  have "TrimLeftSpace s = s" by (simp add: s TrimLeftSpace_def is_space_def)
  moreover have "TrimRightSpace s = ''agent:'' @ TrimRightSpace t"
    by (simp add: s TrimRightSpace_def dropWhile_append is_space_def)
  ultimately show ?thesis
    by (simp add: TrimSpace_def sessionKeyAgentPrefix_def HasPrefix_iff)
qed

text \<open>The part of a routed key after the agent starts with the channel, \<open>direct\<close> or \<open>main\<close>.\<close>

definition rest_starts :: "string \<Rightarrow> string \<Rightarrow> bool" where
  "rest_starts channel r \<longleftrightarrow> r = DefaultMainKey \<or>
     (\<exists>t. good_rest t \<and> (r = ''direct:'' @ t \<or> r = normalizeChannel channel @ colon # t))"

lemma rest_startsI: "rest_starts ch DefaultMainKey" "good_rest t \<Longrightarrow> rest_starts ch (''direct:'' @ t)"
  "good_rest t \<Longrightarrow> rest_starts ch (normalizeChannel ch @ colon # t)"
  by (auto simp: rest_starts_def)

lemma peer_key_rest:
  "\<exists>a r. BuildAgentPeerSessionKey p = ''agent:'' @ NormalizeAgentID a @ colon # r \<and> rest_starts (Channel p) r"
proof -
  define peer where
    "peer = (case Peer p of None \<Rightarrow> \<lparr>Kind = ''direct'', PeerID = ''''\<rparr> | Some q \<Rightarrow> q)"
  define kind where
    "kind = (if TrimSpace (Kind peer) = [] then ''direct'' else TrimSpace (Kind peer))"
  define scope where "scope = (if Scope p = DMScopeUnset then DMScopeMain else Scope p)"
  define pid where "pid = TrimSpace (PeerID peer)"
  define linked where "linked = resolveLinkedPeerID (IdentityLinks p) (Channel p) pid"
  define dm where "dm = ToLower (if scope \<noteq> DMScopeMain \<and> pid \<noteq> [] \<and> linked \<noteq> [] then linked else pid)"
  define grp where "grp = (if ToLower pid = [] then ''unknown'' else ToLower pid)"
  have dm: "dm \<noteq> [] \<Longrightarrow> good_rest dm"
    unfolding dm_def good_rest_ToLower
    by (rule good_rest_trimmed) (simp_all add: pid_def linked_def resolveLinkedPeerID_trimmed)
  have grp: "good_rest grp"
    by (simp add: grp_def good_rest_unknown good_rest_trimmed pid_def good_rest_ToLower)
  let ?a = "NormalizeAgentID (AgentID p)" and ?ch = "normalizeChannel (Channel p)"
    and ?acc = "NormalizeAccountID (AccountID p)"
  have key: "BuildAgentPeerSessionKey p =
      (if kind = ''direct'' then
         (case scope of
            DMScopePerAccountChannelPeer \<Rightarrow>
              if dm \<noteq> [] then ''agent:'' @ ?a @ colon # ?ch @ colon # (?acc @ '':direct:'' @ dm)
              else BuildAgentMainSessionKey ?a
          | DMScopePerChannelPeer \<Rightarrow>
              if dm \<noteq> [] then ''agent:'' @ ?a @ colon # ?ch @ colon # (''direct:'' @ dm)
              else BuildAgentMainSessionKey ?a
          | DMScopePerPeer \<Rightarrow>
              if dm \<noteq> [] then ''agent:'' @ ?a @ colon # (''direct:'' @ dm) else BuildAgentMainSessionKey ?a
          | _ \<Rightarrow> BuildAgentMainSessionKey ?a)
       else ''agent:'' @ ?a @ colon # ?ch @ colon # (kind @ colon # grp))"
    unfolding BuildAgentPeerSessionKey_def Let_def peer_def kind_def scope_def pid_def linked_def dm_def grp_def
    by (simp split: DMScope.split)
  have "good_rest (kind @ colon # grp)" "dm \<noteq> [] \<Longrightarrow> good_rest (?acc @ '':direct:'' @ dm)"
    "dm \<noteq> [] \<Longrightarrow> good_rest (''direct:'' @ dm)"
    using dm grp by (auto simp: good_rest_def)
  note starts = rest_startsI(1) rest_startsI(2) [OF dm] rest_startsI(3) [OF this(1)] rest_startsI(3) [OF this(2)]
    rest_startsI(3) [OF this(3)]
  show ?thesis
  proof (cases "kind = ''direct'' \<and> (scope \<in> {DMScopePerAccountChannelPeer, DMScopePerChannelPeer, DMScopePerPeer} \<longrightarrow> dm = [])")
    case True
    then have "BuildAgentPeerSessionKey p = BuildAgentMainSessionKey ?a"
      by (simp add: key split: DMScope.split)
    then show ?thesis unfolding BuildAgentMainSessionKey_def using starts(1) by blast
  next
    case False
    then show ?thesis
      unfolding key using starts(2-) by (cases "kind = ''direct''"; cases scope) (simp_all, blast+)
  qed
qed

lemma rest_no_heartbeat:
  assumes "rest_starts ch r" and ch: "\<not> HasPrefix (normalizeChannel ch) DefaultHeartbeatKey"
  shows "ToLower r \<noteq> DefaultHeartbeatKey \<and> \<not> HasPrefix (ToLower r) (DefaultHeartbeatKey @ [colon])"
    and "good_rest r" and "\<not> is_space (hd r)" and "r \<noteq> []"
proof -
  show "good_rest r" using assms(1) good_rest_main by (auto simp: rest_starts_def good_rest_def)
  then show "r \<noteq> []" by (simp add: good_rest_def)
  have c: "trimmed (normalizeChannel ch)" "normalizeChannel ch \<noteq> []"
    by (auto simp: normalizeChannel_def Let_def trimmed_def [of "''unknown''"] is_space_def)
  have low: "ToLower (normalizeChannel ch) = normalizeChannel ch"
    by (simp add: normalizeChannel_def Let_def flip: TrimSpace_ToLower) (simp add: ToLower_def lower_char_def is_upper_def)
  from c assms(1) show "\<not> is_space (hd r)"
    by (auto simp: rest_starts_def routing_consts is_space_def trimmed_def)
  have pre: "prefix DefaultHeartbeatKey c" if "prefix DefaultHeartbeatKey (c @ colon # t)" for c t
  proof -
    have "colon \<notin> set DefaultHeartbeatKey" by (simp add: routing_consts)
    then have "DefaultHeartbeatKey \<noteq> c @ colon # zs" for zs by (metis in_set_conv_decomp)
    with that show ?thesis by (auto simp: prefix_append prefix_Cons)
  qed
  have colon: "ToLower (x @ colon # t) = ToLower x @ colon # ToLower t" for x t
    by (simp add: ToLower_def lower_char_def is_upper_def)
  have "\<not> HasPrefix (ToLower (normalizeChannel ch @ colon # t)) DefaultHeartbeatKey" for t
    using ch pre [of "normalizeChannel ch" "ToLower t"] unfolding colon low HasPrefix_iff by blast
  moreover have "\<not> HasPrefix (ToLower DefaultMainKey) DefaultHeartbeatKey"
    and "\<not> HasPrefix (ToLower (''direct:'' @ t)) DefaultHeartbeatKey" for t
    by (simp_all add: HasPrefix_iff routing_consts ToLower_def lower_char_def is_upper_def)
  ultimately have "\<not> HasPrefix (ToLower r) DefaultHeartbeatKey"
    using assms(1) unfolding rest_starts_def by blast
  then show "ToLower r \<noteq> DefaultHeartbeatKey \<and> \<not> HasPrefix (ToLower r) (DefaultHeartbeatKey @ [colon])"
    unfolding HasPrefix_iff by (metis append_prefixD prefix_order.refl)
qed

lemma routed_not_heartbeat:
  assumes "\<not> HasPrefix (normalizeChannel (Channel p)) DefaultHeartbeatKey"
  shows "\<not> IsHeartbeatSessionKey (ToLower (BuildAgentPeerSessionKey p))"
proof -
  obtain a r where key: "BuildAgentPeerSessionKey p = ''agent:'' @ NormalizeAgentID a @ colon # r"
    and rest: "rest_starts (Channel p) r"
    using peer_key_rest by blast
  note r = rest_no_heartbeat [OF rest assms]
  have low: "ToLower (BuildAgentPeerSessionKey p) = ''agent:'' @ NormalizeAgentID a @ colon # ToLower r"
    using id_shape_lower [OF NormalizeAgentID_id_shape [of a]] by (simp add: key ToLower_def lower_char_def is_upper_def)
  have trim: "TrimSpace (ToLower r) = ToLower r"
    using r(2-4) by (simp add: TrimSpace_ToLower TrimSpace_trimmed trimmed_def good_rest_def)
  have "ParseAgentSessionKey (''agent:'' @ NormalizeAgentID a @ colon # ToLower r) =
      Some \<lparr>ParsedAgentID = NormalizeAgentID a, Rest = ToLower r\<rparr>"
    by (rule ParseAgentSessionKey_key [OF NormalizeAgentID_id_shape])
      (use r good_rest_ToLower [of r] in \<open>auto simp: good_rest_def\<close>)
  moreover have "ParseAgentSessionKey (TrimSpace s) = ParseAgentSessionKey s" for s
    by (simp add: ParseAgentSessionKey_def TrimSpace_idem)
  ultimately show ?thesis
    using r(1) by (simp add: IsHeartbeatSessionKey_def low trim ToLower_idem Let_def)
qed

text \<open>No client reaches a heartbeat session: whatever session key, peer and metadata a message carries, the session
  it is admitted to is not a heartbeat session (on a channel that is not itself called heartbeat).\<close>

theorem admitted_session_not_heartbeat:
  assumes "admit cfg reg ls msg = Inr (r, ls')"
    and "\<not> HasPrefix (normalizeChannel (MsgChannel msg)) DefaultHeartbeatKey"
  shows "\<not> IsHeartbeatSessionKey (RunSession r)"
proof -
  from assms(1) obtain route agent where route: "resolveMessageRoute cfg reg msg = Inr (route, agent)"
    and r: "RunSession r = resolveScopeKey route (MsgSessionKey msg)"
    and ok: "validateExplicitSessionKey (MsgSessionKey msg) = None"
    by (auto simp: admit_def split: sum.splits option.splits)
  have channel: "normalizeChannel (ToLower (TrimSpace c)) = normalizeChannel c" for c
    by (simp add: normalizeChannel_def TrimSpace_ToLower ToLower_idem TrimSpace_idem)
  show ?thesis
  proof (cases "RunSession r = MsgRouteSessionKey route")
    case True
    obtain p where "MsgRouteSessionKey route = ToLower (BuildAgentPeerSessionKey p)"
      "normalizeChannel (Channel p) = normalizeChannel (MsgChannel msg)"
    proof -
      obtain a t where "ResolveRoute cfg (route_input msg) = choose_route cfg (route_input msg) a t"
        using ResolveRoute_chosen by blast
      then show ?thesis
        using route that channel
        by (auto simp: resolveMessageRoute_def Let_def choose_route_def route_input_def split: if_splits option.splits)
    qed
    then show ?thesis using True routed_not_heartbeat assms(2) by metis
  next
    case False
    then have key: "RunSession r = MsgSessionKey msg" "HasPrefix (MsgSessionKey msg) sessionKeyAgentPrefix"
      using r by (auto simp: resolveScopeKey_def split: if_splits)
    from agent_prefix_trim [OF key(2)] have "HasPrefix (TrimSpace (MsgSessionKey msg)) sessionKeyAgentPrefix"
      "TrimSpace (MsgSessionKey msg) \<noteq> []"
      by (auto simp: HasPrefix_def sessionKeyAgentPrefix_def)
    with ok key(1) show ?thesis
      by (auto simp: validateExplicitSessionKey_def Let_def IsHeartbeatSessionKey_def TrimSpace_idem split: if_splits)
  qed
qed

section \<open>Concrete messages\<close>

definition demo_msg :: "string \<Rightarrow> inbound_message" where
  "demo_msg key = \<lparr>MsgChannel = ''telegram'', MsgSenderID = ''42'', MsgChatID = ''42'', MsgSessionKey = key,
     MsgPeerKind = ''direct'', MsgPeerID = [], MsgMetadata = [(''requested_agent_id'', ''main'')]\<rparr>"

lemma demo_admit:
  "\<exists>r. admit demo_config (NewAgentRegistry demo_config) {} (demo_msg []) = Inr (r, {''main''})"
proof -
  have agent: "GetAgent (NewAgentRegistry demo_config) ''main'' = Some ''main''" by code_simp
  show ?thesis
    by (simp add: admit_def resolveMessageRoute_def demo_msg_def inboundMetadata_def agent
        validateExplicitSessionKey_def tryAcquireAgentRun_def Let_def)
qed

theorem active_runs_exclusive_witness:
  "\<exists>s. run_reach demo_config (NewAgentRegistry demo_config) s \<and> activity s \<noteq> [] \<and>
     distinct (map RunAgent (activity s)) \<and> locks s = RunAgent ` set (activity s)"
proof -
  obtain r where "admit demo_config (NewAgentRegistry demo_config) (locks no_runs) (demo_msg []) = Inr (r, {''main''})"
    using demo_admit by (auto simp: no_runs_def)
  from run_next [OF run_start admits [OF this]] obtain s where
    s: "run_reach demo_config (NewAgentRegistry demo_config) s" "activity s \<noteq> []" by force
  have "Agents demo_config \<noteq> []" "plain_agents demo_config"
    by (simp add: demo_config_def) code_simp
  from active_runs_exclusive [OF this registry_New s(1)] s show ?thesis by blast
qed

definition demo_control :: run_control where
  "demo_control = registerActiveRun \<lparr>activeRuns = Map.empty, cancelledRuns = {}\<rparr> ''web'' ''c1'' ''run-1''"

lemma demo_cancel: "\<exists>rc'. CancelRun demo_control ''web'' ''c1'' [] ''enough'' = (rc', Inr ''run-1'')"
proof -
  have "runControlKey ''web'' ''c1'' = ''web:c1''" "TrimSpace ''run-1'' = ''run-1''" by code_simp+
  then show ?thesis
    by (simp add: CancelRun_def demo_control_def registerActiveRun_def Let_def)
qed

theorem cancel_hits_one_run_witness:
  "\<exists>rc'. CancelRun demo_control ''web'' ''c1'' [] ''enough'' = (rc', Inr ''run-1'') \<and>
     runCancelCheckpoint rc' ''web'' ''c1'' ''run-1'' = RunCancelled (normalizeStopReason ''enough'')"
proof -
  obtain rc' where run: "CancelRun demo_control ''web'' ''c1'' [] ''enough'' = (rc', Inr ''run-1'')"
    using demo_cancel by blast
  from cancel_hits_one_run [OF run] run show ?thesis by simp
qed

theorem stop_not_lost_witness:
  "\<exists>rc'. CancelRun demo_control ''web'' ''c1'' [] ''enough'' = (rc', Inr ''run-1'') \<and>
     (\<exists>why. runCancelCheckpoint (foldl control_step rc' [Register ''web'' ''c2'' ''run-2'',
        Unregister ''web'' ''c1'' ''run-0'']) ''web'' ''c1'' ''run-1'' = RunCancelled why)"
proof -
  obtain rc' where run: "CancelRun demo_control ''web'' ''c1'' [] ''enough'' = (rc', Inr ''run-1'')"
    using demo_cancel by blast
  have "runControlKey ''web'' ''c2'' \<noteq> runControlKey ''web'' ''c1''" by code_simp
  then have "\<forall>op \<in> set [Register ''web'' ''c2'' ''run-2'', Unregister ''web'' ''c1'' ''run-0''].
      \<not> touches (runControlKey ''web'' ''c1'') ''run-1'' op"
    by (simp add: touches_def)
  from stop_not_lost [OF run this] run show ?thesis by blast
qed

theorem admitted_session_not_heartbeat_witness:
  "\<exists>r. admit demo_config (NewAgentRegistry demo_config) {} (demo_msg []) = Inr (r, {''main''}) \<and>
     \<not> IsHeartbeatSessionKey (RunSession r)"
proof -
  obtain r where r: "admit demo_config (NewAgentRegistry demo_config) {} (demo_msg []) = Inr (r, {''main''})"
    using demo_admit by blast
  have "\<not> HasPrefix (normalizeChannel (MsgChannel (demo_msg []))) DefaultHeartbeatKey" by code_simp
  from admitted_session_not_heartbeat [OF r this] r show ?thesis by blast
qed

end
