(* ===== verification/ToolResults.thy ===== *)
theory ToolResults
  imports Prelude
begin

text \<open>
  The results of tools: \<open>pkg/tools/result.go\<close>. A field \<open>Err\<close> holds the text of the error.
\<close>

record ToolResult =
  ForLLM :: string
  ForUser :: string
  Silent :: bool
  IsError :: bool
  Async :: bool
  Err :: "string option"
  ResultMedia :: "string list"
  TouchedPaths :: "string list"

definition NewToolResult :: "string \<Rightarrow> ToolResult" where
  "NewToolResult forLLM = \<lparr>ForLLM = forLLM, ForUser = [], Silent = False, IsError = False, Async = False, Err = None,
     ResultMedia = [], TouchedPaths = []\<rparr>"

definition SilentResult :: "string \<Rightarrow> ToolResult" where
  "SilentResult forLLM = (NewToolResult forLLM)\<lparr>Silent := True\<rparr>"

definition AsyncResult :: "string \<Rightarrow> ToolResult" where
  "AsyncResult forLLM = (NewToolResult forLLM)\<lparr>Async := True\<rparr>"

definition ErrorResult :: "string \<Rightarrow> ToolResult" where
  "ErrorResult message = (NewToolResult message)\<lparr>IsError := True\<rparr>"

definition UserResult :: "string \<Rightarrow> ToolResult" where
  "UserResult content = (NewToolResult content)\<lparr>ForUser := content\<rparr>"

definition MediaResult :: "string \<Rightarrow> string list \<Rightarrow> ToolResult" where
  "MediaResult forLLM mediaRefs = (NewToolResult forLLM)\<lparr>ResultMedia := mediaRefs\<rparr>"

definition WithError :: "ToolResult \<Rightarrow> string \<Rightarrow> ToolResult" where
  "WithError r err = r\<lparr>Err := Some err\<rparr>"

definition WithTouchedPaths :: "ToolResult \<Rightarrow> string list \<Rightarrow> ToolResult" where
  "WithTouchedPaths r paths =
     r\<lparr>TouchedPaths := TouchedPaths r @ dedup (TouchedPaths r) (filter (\<lambda>p. p \<noteq> []) paths)\<rparr>"

lemmas result_defs [simp] = NewToolResult_def SilentResult_def ErrorResult_def UserResult_def WithError_def

end
