(* ===== verification/ToolRegistry.thy ===== *)
theory ToolRegistry
  imports Messages ToolResults "HOL-Library.Countable"
begin

text \<open>
  The tools of an agent: the registry (\<open>pkg/tools/registry.go\<close>), the usage contracts that every tool must declare
  (\<open>pkg/tools/usage_contract.go\<close>, \<open>pkg/tools/base.go\<close>), the search for hidden tools
  (\<open>pkg/tools/search_tool.go\<close>) and the cache of tool schemas (\<open>pkg/agent/tool_schema_cache.go\<close>), with the helpers on
  tool names from \<open>pkg/agent/loop.go\<close>. What a tool does when it is executed, the ranking engine, the regular
  expression matcher and the hash of a tool set are arguments. Every operation runs under the registry's lock.
\<close>

section \<open>Usage contracts\<close>

record ToolUsageContract =
  UseWhen :: string
  DoNotUseWhen :: string
  HardRequirements :: "string list"

record Tool =
  ToolName :: string
  Description :: string
  UsageContract :: ToolUsageContract
  Parameters :: "(string \<times> json) list"

definition ValidateToolUsageContract :: "ToolUsageContract \<Rightarrow> bool" where
  "ValidateToolUsageContract c \<longleftrightarrow>
     TrimSpace (UseWhen c) \<noteq> [] \<and> TrimSpace (DoNotUseWhen c) \<noteq> [] \<and>
     HardRequirements c \<noteq> [] \<and> list_all (\<lambda>r. TrimSpace r \<noteq> []) (HardRequirements c)"

definition ValidateToolContract :: "Tool \<Rightarrow> bool" where
  "ValidateToolContract t \<longleftrightarrow> TrimSpace (ToolName t) \<noteq> [] \<and> ValidateToolUsageContract (UsageContract t)"

definition nl :: string where "nl = [CHR 0x0A]"

fun requirement_lines :: "string list \<Rightarrow> string" where
  "requirement_lines [] = []"
| "requirement_lines [r] = ''- '' @ TrimSpace r"
| "requirement_lines (r # s # rs) = ''- '' @ TrimSpace r @ nl @ requirement_lines (s # rs)"

definition FormatToolDescription :: "string \<Rightarrow> ToolUsageContract \<Rightarrow> string" where
  "FormatToolDescription description c =
     (let d = TrimSpace description in
      (if d \<noteq> [] then d @ nl @ nl else []) @
      ''LLM Usage Guidance:'' @ nl @ ''Use this tool when:'' @ nl @ ''- '' @ TrimSpace (UseWhen c) @ nl @
      ''Do not use this tool when:'' @ nl @ ''- '' @ TrimSpace (DoNotUseWhen c) @ nl @
      ''Hard requirements:'' @ nl @ requirement_lines (HardRequirements c))"

text \<open>\<open>None\<close> is the panic on a tool without a valid contract.\<close>

definition ToolToSchema :: "Tool \<Rightarrow> ToolDefinition option" where
  "ToolToSchema t =
     (if \<not> ValidateToolContract t then None
      else Some \<lparr>TDType = ''function'',
        TDFunction = \<lparr>FDName = ToolName t,
          FDDescription = FormatToolDescription (Description t) (UsageContract t), FDParameters = Parameters t\<rparr>\<rparr>)"

section \<open>The registry\<close>

record ToolEntry =
  EntryTool :: Tool
  IsCore :: bool

text \<open>The entries in the iteration order of the map, and the number of registrations.\<close>

record ToolRegistry =
  tools :: "(string \<times> ToolEntry) list"
  version :: nat

definition NewToolRegistry :: ToolRegistry where
  "NewToolRegistry = \<lparr>tools = [], version = 0\<rparr>"

definition add_tool :: "bool \<Rightarrow> ToolRegistry \<Rightarrow> Tool \<Rightarrow> ToolRegistry option" where
  "add_tool core r t =
     (if \<not> ValidateToolContract t then None
      else Some (r\<lparr>tools := assoc_put (ToolName t) \<lparr>EntryTool = t, IsCore = core\<rparr> (tools r),
                   version := Suc (version r)\<rparr>))"

definition Register :: "ToolRegistry \<Rightarrow> Tool \<Rightarrow> ToolRegistry option" where
  "Register r t = add_tool True r t"

definition RegisterHidden :: "ToolRegistry \<Rightarrow> Tool \<Rightarrow> ToolRegistry option" where
  "RegisterHidden r t = add_tool False r t"

definition sortedToolNames :: "ToolRegistry \<Rightarrow> string list" where
  "sortedToolNames r = sort (map fst (tools r))"

definition is_hidden :: "ToolRegistry \<Rightarrow> string \<Rightarrow> bool" where
  "is_hidden r name = (case map_of (tools r) name of Some e \<Rightarrow> \<not> IsCore e | None \<Rightarrow> False)"

definition SnapshotHiddenTools :: "ToolRegistry \<Rightarrow> (string \<times> string) list \<times> nat" where
  "SnapshotHiddenTools r =
     (map (\<lambda>(name, e). (name, Description (EntryTool e))) (filter (\<lambda>(name, e). \<not> IsCore e) (tools r)), version r)"

definition SnapshotHiddenToolNames :: "ToolRegistry \<Rightarrow> string list" where
  "SnapshotHiddenToolNames r = filter (is_hidden r) (sortedToolNames r)"

definition GetTool :: "ToolRegistry \<Rightarrow> string \<Rightarrow> Tool option" where
  "GetTool r name = map_option EntryTool (map_of (tools r) name)"

text \<open>The entries that are offered: core ones and allowlisted hidden ones, by name.\<close>

definition visible :: "ToolRegistry \<Rightarrow> string set \<Rightarrow> ToolEntry list" where
  "visible r allowlist =
     List.map_filter (\<lambda>name. case map_of (tools r) name of
         Some e \<Rightarrow> if IsCore e \<or> name \<in> allowlist then Some e else None
       | None \<Rightarrow> None) (sortedToolNames r)"

definition ToProviderDefsWithHiddenAllowlist :: "ToolRegistry \<Rightarrow> string set \<Rightarrow> ToolDefinition list option" where
  "ToProviderDefsWithHiddenAllowlist r allowlist =
     (let schemas = map (\<lambda>e. ToolToSchema (EntryTool e)) (visible r allowlist)
      in if None \<in> set schemas then None else Some (map the schemas))"

definition GetSummariesWithHiddenAllowlist :: "ToolRegistry \<Rightarrow> string set \<Rightarrow> string list" where
  "GetSummariesWithHiddenAllowlist r allowlist =
     map (\<lambda>e. ''- `'' @ ToolName (EntryTool e) @ ''` - '' @ Description (EntryTool e)) (visible r allowlist)"

text \<open>Execution; what a tool does, and the context it gets, are arguments.\<close>

definition ExecuteWithContext ::
  "(string \<Rightarrow> string) \<Rightarrow> (Tool \<Rightarrow> ToolResult) \<Rightarrow> (Tool \<Rightarrow> ToolResult) option \<Rightarrow> (Tool \<Rightarrow> bool) \<Rightarrow>
   ToolRegistry \<Rightarrow> string \<Rightarrow> ToolResult" where
  "ExecuteWithContext quote execute asyncCallback is_async r name =
     (case GetTool r name of
        None \<Rightarrow> WithError (ErrorResult (''tool '' @ quote name @ '' not found'')) ''tool not found''
      | Some t \<Rightarrow>
          (case asyncCallback of
             Some executeAsync \<Rightarrow> if is_async t then executeAsync t else execute t
           | None \<Rightarrow> execute t))"

section \<open>Searching hidden tools\<close>

type_synonym search_doc = "string \<times> string"

definition SearchRegex ::
  "(string \<Rightarrow> (string \<Rightarrow> bool) option) \<Rightarrow> ToolRegistry \<Rightarrow> string \<Rightarrow> int \<Rightarrow> search_doc list option" where
  "SearchRegex compile r pattern maxSearchResults =
     (if maxSearchResults \<le> 0 then Some []
      else
        (case compile (''(?i)'' @ pattern) of
           None \<Rightarrow> None
         | Some matches \<Rightarrow>
             Some (take (nat maxSearchResults)
               (List.map_filter (\<lambda>name. case map_of (tools r) name of
                   Some e \<Rightarrow>
                     if \<not> IsCore e \<and> (matches name \<or> matches (Description (EntryTool e)))
                     then Some (name, Description (EntryTool e)) else None
                 | None \<Rightarrow> None) (sortedToolNames r)))))"

record 'e bm25_tool =
  cachedEngine :: "'e option"
  cacheVersion :: nat

definition NewBM25SearchTool :: "'e bm25_tool" where
  "NewBM25SearchTool = \<lparr>cachedEngine = None, cacheVersion = 0\<rparr>"

text \<open>\<open>build\<close> makes an engine from the documents.\<close>

definition getOrBuildEngine ::
  "(search_doc list \<Rightarrow> 'e) \<Rightarrow> ToolRegistry \<Rightarrow> 'e bm25_tool \<Rightarrow> 'e bm25_tool \<times> 'e option" where
  "getOrBuildEngine build r t =
     (if cachedEngine t \<noteq> None \<and> cacheVersion t = version r then (t, cachedEngine t)
      else
        let (docs, v) = SnapshotHiddenTools r in
        if cachedEngine t \<noteq> None \<and> cacheVersion t = v then (t, cachedEngine t)
        else if docs = [] then (t\<lparr>cachedEngine := None, cacheVersion := v\<rparr>, None)
        else (t\<lparr>cachedEngine := Some (build docs), cacheVersion := v\<rparr>, Some (build docs)))"

text \<open>The cache and the registry over time: registrations and searches in any order.\<close>

datatype registry_op = RegCore Tool | RegHidden Tool | Search

definition registry_step ::
  "(search_doc list \<Rightarrow> 'e) \<Rightarrow> ToolRegistry \<times> 'e bm25_tool \<Rightarrow> registry_op \<Rightarrow> ToolRegistry \<times> 'e bm25_tool" where
  "registry_step build s op =
     (case op of
        RegCore t \<Rightarrow> (case Register (fst s) t of Some r \<Rightarrow> (r, snd s) | None \<Rightarrow> s)
      | RegHidden t \<Rightarrow> (case RegisterHidden (fst s) t of Some r \<Rightarrow> (r, snd s) | None \<Rightarrow> s)
      | Search \<Rightarrow> (fst s, fst (getOrBuildEngine build (fst s) (snd s))))"

definition registry_run :: "(search_doc list \<Rightarrow> 'e) \<Rightarrow> registry_op list \<Rightarrow> ToolRegistry \<times> 'e bm25_tool" where
  "registry_run build ops = foldl (registry_step build) (NewToolRegistry, NewBM25SearchTool) ops"

section \<open>Names of discovered tools\<close>

fun keep_names :: "(string \<Rightarrow> bool) \<Rightarrow> string list \<Rightarrow> string list \<Rightarrow> string list" where
  "keep_names ok seen [] = []"
| "keep_names ok seen (name # names) =
     (let trimmed = TrimSpace name in
      if trimmed = [] \<or> \<not> ok trimmed \<or> trimmed \<in> set seen then keep_names ok seen names
      else trimmed # keep_names ok (trimmed # seen) names)"

definition intersectToolNames :: "string list \<Rightarrow> string set \<Rightarrow> string list" where
  "intersectToolNames names allow = keep_names (\<lambda>n. n \<in> allow) [] names"

definition mergeToolNames :: "string list \<Rightarrow> string list \<Rightarrow> string list" where
  "mergeToolNames base extra = keep_names (\<lambda>_. True) [] (base @ extra)"

definition toolDefinitionNameSet :: "ToolDefinition list \<Rightarrow> string set" where
  "toolDefinitionNameSet defs = {n \<in> (\<lambda>d. TrimSpace (FDName (TDFunction d))) ` set defs. n \<noteq> []}"

text \<open>The bundle that a discovery tool returns; parsing its JSON is an argument.\<close>

definition ExtractToolReferenceNames ::
  "(string \<Rightarrow> (string \<times> search_doc list) option) \<Rightarrow> string \<Rightarrow> string list option" where
  "ExtractToolReferenceNames parse raw =
     (case parse (TrimSpace raw) of
        None \<Rightarrow> None
      | Some (btype, refs) \<Rightarrow>
          if btype \<noteq> ''tool_reference_bundle'' then None
          else Some (keep_names (\<lambda>_. True) [] (map fst refs)))"

text \<open>The tools of one iteration: the discovered names that still are hidden tools, and the definitions they make visible.\<close>

definition iteration_tools :: "ToolRegistry \<Rightarrow> string list \<Rightarrow> string list \<times> ToolDefinition list option" where
  "iteration_tools r storedDiscovered =
     (let valid = intersectToolNames storedDiscovered (set (SnapshotHiddenToolNames r))
      in (valid, ToProviderDefsWithHiddenAllowlist r (set valid)))"

section \<open>The cache of tool schemas\<close>

record toolSchemaCacheKey =
  CacheSessionKey :: string
  CacheAgentID :: string
  CacheProviderName :: string
  CacheModel :: string
  CacheFingerprint :: string

type_synonym ToolSchemaCache = "(toolSchemaCacheKey \<times> ToolDefinition list) list"

definition normalizeToolDefs :: "ToolDefinition list \<Rightarrow> ToolDefinition list" where
  "normalizeToolDefs defs = sort_key (\<lambda>d. FDName (TDFunction d)) defs"

definition schema_key ::
  "(ToolDefinition list \<Rightarrow> string) \<Rightarrow> string \<Rightarrow> string \<Rightarrow> string \<Rightarrow> string \<Rightarrow> ToolDefinition list \<Rightarrow> toolSchemaCacheKey" where
  "schema_key hash sessionKey agentID providerName model defs =
     \<lparr>CacheSessionKey = sessionKey, CacheAgentID = agentID, CacheProviderName = providerName, CacheModel = model,
      CacheFingerprint = hash (normalizeToolDefs defs)\<rparr>"

definition GetOrSet ::
  "(ToolDefinition list \<Rightarrow> string) \<Rightarrow> ToolSchemaCache \<Rightarrow> string \<Rightarrow> string \<Rightarrow> string \<Rightarrow> string \<Rightarrow> ToolDefinition list \<Rightarrow>
   ToolSchemaCache \<times> ToolDefinition list \<times> bool" where
  "GetOrSet hash c sessionKey agentID providerName model defs =
     (let key = schema_key hash sessionKey agentID providerName model defs in
      case map_of c key of
        Some existing \<Rightarrow> (c, existing, True)
      | None \<Rightarrow> (assoc_put key (normalizeToolDefs defs) c, normalizeToolDefs defs, False))"

definition invalidateIf :: "(toolSchemaCacheKey \<Rightarrow> bool) \<Rightarrow> ToolSchemaCache \<Rightarrow> ToolSchemaCache \<times> nat" where
  "invalidateIf predicate c =
     (filter (\<lambda>(k, _). \<not> predicate k) c, length (filter (\<lambda>(k, _). predicate k) c))"

definition InvalidateSession :: "string \<Rightarrow> ToolSchemaCache \<Rightarrow> ToolSchemaCache \<times> nat" where
  "InvalidateSession sessionKey c =
     (let s = TrimSpace sessionKey in
      if s = [] then (c, 0) else invalidateIf (\<lambda>k. CacheSessionKey k = s) c)"

definition InvalidateAgentProviderModel ::
  "string \<Rightarrow> string \<Rightarrow> string \<Rightarrow> ToolSchemaCache \<Rightarrow> ToolSchemaCache \<times> nat" where
  "InvalidateAgentProviderModel agentID providerName model c =
     (let a = TrimSpace agentID; p = TrimSpace providerName; m = TrimSpace model in
      if a = [] \<or> p = [] \<or> m = [] then (c, 0)
      else invalidateIf (\<lambda>k. CacheAgentID k = a \<and> CacheProviderName k = p \<and> CacheModel k = m) c)"

definition InvalidateAgent :: "string \<Rightarrow> ToolSchemaCache \<Rightarrow> ToolSchemaCache \<times> nat" where
  "InvalidateAgent agentID c =
     (let a = TrimSpace agentID in
      if a = [] then (c, 0) else invalidateIf (\<lambda>k. CacheAgentID k = a) c)"

definition InvalidateAll :: "ToolSchemaCache \<Rightarrow> ToolSchemaCache \<times> nat" where
  "InvalidateAll c = invalidateIf (\<lambda>_. True) c"

section \<open>A registry that was built by registrations\<close>

definition reg_ok :: "ToolRegistry \<Rightarrow> bool" where
  "reg_ok r \<longleftrightarrow> distinct (map fst (tools r)) \<and>
     (\<forall>(n, e) \<in> set (tools r). n = ToolName (EntryTool e) \<and> ValidateToolContract (EntryTool e))"

lemma reg_ok_new [simp]: "reg_ok NewToolRegistry"
  by (simp add: reg_ok_def NewToolRegistry_def)

lemma set_assoc_put: "set (assoc_put k v m) = insert (k, v) {(a, b) \<in> set m. a \<noteq> k}"
  by (auto simp: assoc_put_def assoc_del_def)

lemma reg_ok_add: "reg_ok r \<Longrightarrow> add_tool core r t = Some r' \<Longrightarrow> reg_ok r'"
  by (auto simp: reg_ok_def add_tool_def set_assoc_put keys_assoc_put split: if_splits)

lemma reg_ok_step: "reg_ok (fst s) \<Longrightarrow> reg_ok (fst (registry_step build s op))"
  by (auto simp: registry_step_def Register_def RegisterHidden_def reg_ok_add split: registry_op.splits option.splits)

lemma reg_ok_run: "reg_ok (fst (registry_run build ops))"
proof -
  have "reg_ok (fst s) \<Longrightarrow> reg_ok (fst (foldl (registry_step build) s ops))" for s
    by (induction ops arbitrary: s) (simp_all add: reg_ok_step)
  then show ?thesis by (simp add: registry_run_def)
qed

lemma reg_ok_entry:
  "reg_ok r \<Longrightarrow> map_of (tools r) n = Some e \<Longrightarrow> n = ToolName (EntryTool e) \<and> ValidateToolContract (EntryTool e)"
  by (auto simp: reg_ok_def dest!: map_of_SomeD)

lemma visible_names:
  assumes "reg_ok r"
  shows "map (\<lambda>e. ToolName (EntryTool e)) (visible r allow) =
     filter (\<lambda>n. \<not> is_hidden r n \<or> n \<in> allow) (sortedToolNames r)"
proof -
  have entry: "\<exists>e. map_of (tools r) n = Some e \<and> ToolName (EntryTool e) = n" if "n \<in> set (sortedToolNames r)" for n
    using that reg_ok_entry [OF assms, of n] weak_map_of_SomeI [of n _ "tools r"]
    by (force simp: sortedToolNames_def)
  have "map (\<lambda>e. ToolName (EntryTool e)) (List.map_filter (\<lambda>n. case map_of (tools r) n of
        Some e \<Rightarrow> if IsCore e \<or> n \<in> allow then Some e else None | None \<Rightarrow> None) ns) =
      filter (\<lambda>n. \<not> is_hidden r n \<or> n \<in> allow) ns"
    if "set ns \<subseteq> set (sortedToolNames r)" for ns
    using that
  proof (induction ns)
    case (Cons n ns)
    with entry [of n] show ?case by (auto simp: is_hidden_def List.map_filter_simps)
  qed (simp add: List.map_filter_simps)
  then show ?thesis by (simp add: visible_def)
qed

lemma visible_valid: "reg_ok r \<Longrightarrow> e \<in> set (visible r allow) \<Longrightarrow> ValidateToolContract (EntryTool e)"
  using reg_ok_entry by (auto simp: visible_def List.map_filter_def split: option.splits if_splits)

lemma defs_of_visible:
  assumes "reg_ok r"
  shows "\<exists>defs. ToProviderDefsWithHiddenAllowlist r allow = Some defs \<and>
    map (\<lambda>d. FDName (TDFunction d)) defs = filter (\<lambda>n. \<not> is_hidden r n \<or> n \<in> allow) (sortedToolNames r)"
proof -
  have schema: "\<exists>d. ToolToSchema (EntryTool e) = Some d \<and> FDName (TDFunction d) = ToolName (EntryTool e)"
    if "e \<in> set (visible r allow)" for e
    using visible_valid [OF assms that] by (simp add: ToolToSchema_def)
  then have "None \<notin> (\<lambda>e. ToolToSchema (EntryTool e)) ` set (visible r allow)" by force
  moreover have "map (\<lambda>d. FDName (TDFunction d)) (map the (map (\<lambda>e. ToolToSchema (EntryTool e)) (visible r allow))) =
      map (\<lambda>e. ToolName (EntryTool e)) (visible r allow)"
    using schema by force
  ultimately show ?thesis
    by (simp add: ToProviderDefsWithHiddenAllowlist_def visible_names [OF assms])
qed

lemma set_keep_names: "set (keep_names ok seen names) = {n \<in> TrimSpace ` set names. n \<noteq> [] \<and> ok n \<and> n \<notin> set seen}"
  by (induction ok seen names rule: keep_names.induct) (auto simp: Let_def)

text \<open>C19. The tools offered to the model are exactly the core tools and the discovered hidden tools that are
  still registered, each once and in the order of their names, and building their definitions never panics.\<close>

theorem offered_tools_exact:
  assumes "registry_run build ops = (r, t)"
  shows "\<exists>defs. snd (iteration_tools r discovered) = Some defs \<and>
    sorted_wrt (<) (map (\<lambda>d. FDName (TDFunction d)) defs) \<and>
    (\<lambda>d. FDName (TDFunction d)) ` set defs =
      {n. \<exists>e. map_of (tools r) n = Some e \<and> (IsCore e \<or> n \<in> TrimSpace ` set discovered)}"
proof -
  have ok: "reg_ok r" using reg_ok_run [of build ops] assms by simp
  let ?allow = "set (intersectToolNames discovered (set (SnapshotHiddenToolNames r)))"
  obtain defs where defs: "ToProviderDefsWithHiddenAllowlist r ?allow = Some defs"
    "map (\<lambda>d. FDName (TDFunction d)) defs = filter (\<lambda>n. \<not> is_hidden r n \<or> n \<in> ?allow) (sortedToolNames r)"
    using defs_of_visible [OF ok] by blast
  have "sorted_wrt (<) (sortedToolNames r)"
    using ok unfolding strict_sorted_iff by (simp add: reg_ok_def sortedToolNames_def)
  then have "sorted_wrt (<) (map (\<lambda>d. FDName (TDFunction d)) defs)"
    unfolding defs(2) by (rule sorted_wrt_filter)
  moreover have "(\<lambda>d. FDName (TDFunction d)) ` set defs = {n \<in> set (sortedToolNames r). \<not> is_hidden r n \<or> n \<in> ?allow}"
    using arg_cong [OF defs(2), of set] by simp
  moreover have "\<dots> = {n. \<exists>e. map_of (tools r) n = Some e \<and> (IsCore e \<or> n \<in> TrimSpace ` set discovered)}"
  proof -
    have names: "n \<in> set (sortedToolNames r) \<longleftrightarrow> (\<exists>e. map_of (tools r) n = Some e)" for n
      using map_of_eq_None_iff [of "tools r" n] by (auto simp: sortedToolNames_def)
    have "e = e' \<Longrightarrow> n \<noteq> []" if "map_of (tools r) n = Some e" for n e e'
      using reg_ok_entry [OF ok that] by (auto simp: ValidateToolContract_def)
    then show ?thesis
      by (auto simp: names intersectToolNames_def set_keep_names SnapshotHiddenToolNames_def is_hidden_def
          split: option.splits)
  qed
  ultimately show ?thesis using defs(1) by (simp add: iteration_tools_def Let_def)
qed

section \<open>Both caches are transparent\<close>

locale transparent_cache =
  fixes inv :: "'c \<Rightarrow> bool"
    and step :: "'c \<Rightarrow> 'o \<Rightarrow> 'c"
    and get :: "'c \<Rightarrow> 'k \<Rightarrow> 'v"
    and fresh :: "'c \<Rightarrow> 'k \<Rightarrow> 'v"
  assumes inv_step: "inv c \<Longrightarrow> inv (step c op)"
    and get_fresh: "inv c \<Longrightarrow> get c k = fresh c k"
begin

lemma inv_run: "inv c \<Longrightarrow> inv (foldl step c ops)"
  by (induction ops arbitrary: c) (simp_all add: inv_step)

lemma run_fresh: "inv c \<Longrightarrow> get (foldl step c ops) k = fresh (foldl step c ops) k"
  by (rule get_fresh [OF inv_run])

end

definition current_engine :: "(search_doc list \<Rightarrow> 'e) \<Rightarrow> ToolRegistry \<Rightarrow> 'e option" where
  "current_engine build r =
     (let docs = fst (SnapshotHiddenTools r) in if docs = [] then None else Some (build docs))"

definition bm25_inv :: "(search_doc list \<Rightarrow> 'e) \<Rightarrow> ToolRegistry \<times> 'e bm25_tool \<Rightarrow> bool" where
  "bm25_inv build s \<longleftrightarrow> cacheVersion (snd s) \<le> version (fst s) \<and>
     (cachedEngine (snd s) \<noteq> None \<and> cacheVersion (snd s) = version (fst s) \<longrightarrow>
        cachedEngine (snd s) = current_engine build (fst s))"

lemma bm25_inv_add: "bm25_inv build s \<Longrightarrow> add_tool core (fst s) t = Some r \<Longrightarrow> bm25_inv build (r, snd s)"
  by (auto simp: bm25_inv_def add_tool_def split: if_splits)

lemma bm25_search:
  assumes "bm25_inv build s"
  shows "snd (getOrBuildEngine build (fst s) (snd s)) = current_engine build (fst s)"
proof (cases "cachedEngine (snd s) \<noteq> None \<and> cacheVersion (snd s) = version (fst s)")
  case True
  with assms show ?thesis by (simp add: bm25_inv_def getOrBuildEngine_def)
next
  case False
  then show ?thesis by (auto simp: getOrBuildEngine_def SnapshotHiddenTools_def current_engine_def Let_def)
qed

lemma bm25_inv_search:
  assumes "bm25_inv build s"
  shows "bm25_inv build (fst s, fst (getOrBuildEngine build (fst s) (snd s)))"
proof (cases "cachedEngine (snd s) \<noteq> None \<and> cacheVersion (snd s) = version (fst s)")
  case True
  then have "fst (getOrBuildEngine build (fst s) (snd s)) = snd s" by (simp add: getOrBuildEngine_def)
  with assms show ?thesis by simp
next
  case False
  then show ?thesis
    by (auto simp: bm25_inv_def getOrBuildEngine_def SnapshotHiddenTools_def current_engine_def Let_def)
qed

interpretation bm25: transparent_cache "bm25_inv build" "registry_step build"
    "\<lambda>s (_ :: unit). snd (getOrBuildEngine build (fst s) (snd s))" "\<lambda>s _. current_engine build (fst s)"
  for build :: "search_doc list \<Rightarrow> 'e"
proof
  fix s :: "ToolRegistry \<times> 'e bm25_tool" and op
  assume inv: "bm25_inv build s"
  show "bm25_inv build (registry_step build s op)"
  proof (cases op)
    case Search
    with inv show ?thesis by (simp add: registry_step_def bm25_inv_search)
  qed (use inv in \<open>auto simp: registry_step_def Register_def RegisterHidden_def bm25_inv_add split: option.splits\<close>)
  show "snd (getOrBuildEngine build (fst s) (snd s)) = current_engine build (fst s)"
    by (rule bm25_search [OF inv])
qed

text \<open>C20. A search never uses a stale index: whatever was registered and searched before, the engine it gets is the one
  built from the hidden tools as they are now, and none when there are none.\<close>

theorem search_engine_current:
  assumes "registry_run build ops = (r, t)"
  shows "snd (getOrBuildEngine build r t) = current_engine build r"
proof -
  have "bm25_inv build (NewToolRegistry, NewBM25SearchTool)"
    by (simp add: bm25_inv_def NewToolRegistry_def NewBM25SearchTool_def)
  from bm25.run_fresh [OF this, of ops] assms show ?thesis by (simp add: registry_run_def)
qed

datatype schema_op =
  SetDefs string string string string "ToolDefinition list"
| DropSession string | DropModel string string string | DropAgent string | DropAll

primrec schema_step :: "(ToolDefinition list \<Rightarrow> string) \<Rightarrow> ToolSchemaCache \<Rightarrow> schema_op \<Rightarrow> ToolSchemaCache" where
  "schema_step hash c (SetDefs s a p m defs) = fst (GetOrSet hash c s a p m defs)"
| "schema_step hash c (DropSession s) = fst (InvalidateSession s c)"
| "schema_step hash c (DropModel a p m) = fst (InvalidateAgentProviderModel a p m c)"
| "schema_step hash c (DropAgent a) = fst (InvalidateAgent a c)"
| "schema_step hash c DropAll = fst (InvalidateAll c)"

text \<open>What the program relies on: SHA-256 of the JSON text tells two tool sets apart.\<close>

definition hash_law :: "(ToolDefinition list \<Rightarrow> string) \<Rightarrow> bool" where
  "hash_law hash \<longleftrightarrow> inj hash"

definition schema_inv :: "(ToolDefinition list \<Rightarrow> string) \<Rightarrow> ToolSchemaCache \<Rightarrow> bool" where
  "schema_inv hash c \<longleftrightarrow> hash_law hash \<and> (\<forall>(k, ds) \<in> set c. CacheFingerprint k = hash ds)"

lemma schema_inv_filter: "schema_inv hash c \<Longrightarrow> schema_inv hash (filter P c)"
  by (auto simp: schema_inv_def)

lemma schema_inv_Nil: "schema_inv hash c \<Longrightarrow> schema_inv hash []"
  by (simp add: schema_inv_def)

interpretation schemas: transparent_cache "schema_inv hash" "schema_step hash"
    "\<lambda>c (s, a, p, m, defs). fst (snd (GetOrSet hash c s a p m defs))" "\<lambda>_ (s, a, p, m, defs). normalizeToolDefs defs"
  for hash :: "ToolDefinition list \<Rightarrow> string"
proof
  fix c op assume inv: "schema_inv hash c"
  then show "schema_inv hash (schema_step hash c op)"
  proof (cases op)
    case (SetDefs s a p m defs)
    with inv show ?thesis
      by (auto simp: GetOrSet_def schema_inv_def schema_key_def set_assoc_put Let_def split: option.splits)
  qed (auto simp: InvalidateSession_def InvalidateAgentProviderModel_def InvalidateAgent_def InvalidateAll_def
      invalidateIf_def Let_def schema_inv_filter schema_inv_Nil)
next
  fix c :: ToolSchemaCache and k :: "string \<times> string \<times> string \<times> string \<times> ToolDefinition list"
  assume inv: "schema_inv hash c"
  obtain s a p m defs where k: "k = (s, a, p, m, defs)" by (cases k) auto
  have "existing = normalizeToolDefs defs" if "map_of c (schema_key hash s a p m defs) = Some existing" for existing
    using inv map_of_SomeD [OF that] by (force simp: schema_inv_def hash_law_def schema_key_def dest: injD)
  then show "(case k of (s, a, p, m, defs) \<Rightarrow> fst (snd (GetOrSet hash c s a p m defs))) =
      (case k of (s, a, p, m, defs) \<Rightarrow> normalizeToolDefs defs)"
    by (simp add: k GetOrSet_def Let_def split: option.splits)
qed

text \<open>The schema cache is transparent: whatever was cached and invalidated before, a request gets its own
  tool definitions in the order of their names.\<close>

theorem schema_cache_transparent:
  assumes "hash_law hash" and "c = foldl (schema_step hash) [] ops"
  shows "fst (snd (GetOrSet hash c sessionKey agentID providerName model defs)) = normalizeToolDefs defs"
  using schemas.run_fresh [of hash "[]" ops "(sessionKey, agentID, providerName, model, defs)"] assms
  by (simp add: schema_inv_def)

section \<open>A concrete registry\<close>

definition demo_tool :: "string \<Rightarrow> Tool" where
  "demo_tool name = \<lparr>ToolName = name, Description = ''d'',
     UsageContract = \<lparr>UseWhen = ''u'', DoNotUseWhen = ''n'', HardRequirements = [''h'']\<rparr>, Parameters = []\<rparr>"

definition demo_ops :: "registry_op list" where
  "demo_ops = [RegCore (demo_tool ''read''), RegHidden (demo_tool ''mcp''), Search, RegHidden (demo_tool ''bus'')]"

theorem offered_tools_exact_witness:
  "\<exists>r t defs. registry_run length demo_ops = (r, t) \<and> snd (iteration_tools r [''bus'', ''gone'']) = Some defs \<and>
     sorted_wrt (<) (map (\<lambda>d. FDName (TDFunction d)) defs)"
proof -
  obtain r t where run: "registry_run length demo_ops = (r, t)" by fastforce
  from offered_tools_exact [OF run, of "[''bus'', ''gone'']"] run show ?thesis by blast
qed

theorem search_engine_current_witness:
  "\<exists>r t. registry_run length demo_ops = (r, t) \<and> snd (getOrBuildEngine length r t) = current_engine length r"
proof -
  obtain r t where run: "registry_run length demo_ops = (r, t)" by fastforce
  from search_engine_current [OF run] run show ?thesis by blast
qed

text \<open>A hash without collisions.\<close>

instance json :: countable
  by countable_datatype

definition def_fields :: "ToolDefinition \<Rightarrow> string \<times> string \<times> string \<times> (string \<times> json) list" where
  "def_fields d = (TDType d, FDName (TDFunction d), FDDescription (TDFunction d), FDParameters (TDFunction d))"

definition demo_hash :: "ToolDefinition list \<Rightarrow> string" where
  "demo_hash defs = replicate (to_nat (map def_fields defs)) (CHR ''x'')"

lemma demo_hash_law: "hash_law demo_hash"
proof -
  have "inj def_fields" by (intro injI) (simp add: def_fields_def)
  then have "inj (map def_fields)" by simp
  then show ?thesis
    unfolding hash_law_def demo_hash_def
    by (intro injI) (metis injD inj_to_nat length_replicate)
qed

theorem schema_cache_transparent_witness:
  "fst (snd (GetOrSet demo_hash (schema_step demo_hash [] (SetDefs ''s'' ''a'' ''p'' ''m'' [])) ''s'' ''a'' ''p'' ''m'' [])) = []"
  using schema_cache_transparent [OF demo_hash_law, of _ "[SetDefs ''s'' ''a'' ''p'' ''m'' []]" "''s''" "''a''" "''p''" "''m''" "[]"]
  by (simp add: normalizeToolDefs_def)

end
