(* ===== verification/Turn.thy ===== *)
theory Turn
  imports Fallback ContextOverflow Compaction Summaries Dispatch ToolRegistry ModelRouting
begin

text \<open>
  A turn of the agent: \<open>runAgentLoop\<close> and \<open>runLLMIteration\<close> in \<open>pkg/agent/loop.go\<close>, which compose the session
  store, the request builder, the model router, the fallback chain, the context guard, the tool registry and the
  schema cache. What comes from outside (providers, tools, requests to stop, the clock, summaries by a model) is
  \<open>turn_env\<close>: every consultation advances \<open>Tick\<close>, so that two of them are independent. A compaction of a request may
  summarize the stored session on the way, and the end of a turn may start a summary in the background. Activity events,
  status messages, log output and the recomputation of skills (which only affects the prompt of the next turn)
  are left out; so are the provider options other than the token limit.
\<close>

section \<open>Data\<close>

record LLMResponse =
  RespContent :: string
  RespReasoning :: string
  RespToolCalls :: "ToolCall list"
  RespUsage :: "UsageInfo option"

datatype call_error = Direct go_error | Chain fallback_error

datatype turn_error =
  ModelUnavailable | ModalityUnsupported | TurnStopped string | TurnCancelled
| OverBudget budget_error | CircuitBreaker nat | LLMFailed call_error | UsageViolation | CacheAnalysisFailed
| InvalidToolContract

datatype turn_event =
  Request "Message list" "ToolDefinition list" "call list"
| Ran ToolCall
| ToUser string
| MediaToUser "string list"
| SummaryStarted string

record turn_agent =
  TurnAgentID :: string
  MaxIterations :: nat
  TurnModel :: string
  TurnCandidates :: "FallbackCandidate list"
  TurnRouter :: "Router option"
  LightCandidates :: "FallbackCandidate list"
  TurnLimits :: agent_limits
  SupportsVision :: "(string \<Rightarrow> bool) option"
  ThinkingLevel :: string
  SummaryLimits :: summary_limits

record processOptions =
  OptSessionKey :: string
  OptChannel :: string
  OptUserMessage :: string
  OptMedia :: "string list"
  OptDefaultResponse :: string
  OptSendResponse :: bool
  OptMaxTokens :: int
  OptModelOverride :: string
  OptTrackRunControl :: bool
  OptEnableSummary :: bool

record turn_env =
  answer :: "nat \<Rightarrow> checkpoint_result"
  attempts :: "nat \<Rightarrow> Message list \<Rightarrow> ToolDefinition list \<Rightarrow> nat \<Rightarrow> LLMResponse attempt_env"
  run_tool :: "nat \<Rightarrow> nat \<Rightarrow> Tool \<Rightarrow> (string \<times> json) list \<Rightarrow> ToolResult"
  summarizer :: "nat \<Rightarrow> llm"
  prompts :: "nat \<Rightarrow> string \<times> string \<times> string"  \<comment> \<open>static prompt, dynamic context and skills\<close>
  registry :: "nat \<Rightarrow> ToolRegistry"
  cache_analysis_ok :: "nat \<Rightarrow> bool"
  clock :: "nat \<Rightarrow> instant"
  chain_text :: "fallback_error \<Rightarrow> string"
  request_signature :: "Message list \<Rightarrow> string \<Rightarrow> ToolDefinition list \<Rightarrow> bool \<Rightarrow> string"
  toolset_hash :: "ToolDefinition list \<Rightarrow> string"
  marshal_args :: "(string \<times> json) list \<Rightarrow> string"
  parse_args :: "string \<Rightarrow> (string \<times> json) list option"
  parse_bundle :: "string \<Rightarrow> (string \<times> search_doc list) option"
  quote_name :: "string \<Rightarrow> string"

record turn_state =
  Sess :: SessionManager
  Msgs :: "Message list"
  Tracker :: CooldownTracker
  Counters :: guard_counters
  SchemaCache :: ToolSchemaCache
  Topology :: "nat option"
  Summarizing :: "string set"
  Events :: "turn_event list"
  Tick :: nat

definition tick :: "turn_state \<Rightarrow> turn_state" where
  "tick st = st\<lparr>Tick := Suc (Tick st)\<rparr>"

definition emit :: "turn_event list \<Rightarrow> turn_state \<Rightarrow> turn_state" where
  "emit es st = st\<lparr>Events := Events st @ es\<rparr>"

definition save_message :: "turn_env \<Rightarrow> processOptions \<Rightarrow> Message \<Rightarrow> turn_state \<Rightarrow> turn_state" where
  "save_message e opts m st =
     st\<lparr>Sess := sm_AddFullMessage (clock e (Tick st)) (Sess st) (OptSessionKey opts) m\<rparr>"

section \<open>The model of the turn\<close>

definition candidateProviderName :: "FallbackCandidate list \<Rightarrow> string \<Rightarrow> string" where
  "candidateProviderName candidates model =
     (case candidates of
        [] \<Rightarrow> []
      | c # _ \<Rightarrow>
          (case List.find (\<lambda>c. CandModel c = model \<and> TrimSpace (CandProvider c) \<noteq> []) candidates of
             Some d \<Rightarrow> CandProvider d
           | None \<Rightarrow> CandProvider c))"

definition selectCandidates ::
  "turn_agent \<Rightarrow> string \<Rightarrow> Message list \<Rightarrow> FallbackCandidate list \<times> string" where
  "selectCandidates agent userMsg history =
     (case TurnRouter agent of
        None \<Rightarrow> (TurnCandidates agent, TurnModel agent)
      | Some r \<Rightarrow>
          if LightCandidates agent = [] then (TurnCandidates agent, TurnModel agent)
          else if fst (snd (SelectModel r userMsg history (TurnModel agent)))
            then (LightCandidates agent, LightModel (cfg r))
          else (TurnCandidates agent, TurnModel agent))"

text \<open>An override replaces the candidates by a single one.\<close>

definition override_candidate ::
  "turn_agent \<Rightarrow> processOptions \<Rightarrow> turn_error + FallbackCandidate" where
  "override_candidate agent opts =
     (let defaultProviderName = candidateProviderName (TurnCandidates agent) (TurnModel agent) in
      case ParseModelRef (OptModelOverride opts) defaultProviderName of
        None \<Rightarrow> Inl ModelUnavailable
      | Some ref \<Rightarrow>
          if TrimSpace (RefModel ref) = [] then Inl ModelUnavailable
          else
            let provider = (if TrimSpace (RefProvider ref) = [] then defaultProviderName
                            else TrimSpace (RefProvider ref)) in
            if OptMedia opts \<noteq> [] \<and> EqualFold provider defaultProviderName \<and>
               (case SupportsVision agent of None \<Rightarrow> False | Some sees \<Rightarrow> \<not> sees (RefModel ref))
            then Inl ModalityUnsupported
            else Inr \<lparr>CandProvider = provider, CandModel = RefModel ref\<rparr>)"

definition turn_model ::
  "turn_agent \<Rightarrow> processOptions \<Rightarrow> Message list \<Rightarrow> turn_error + FallbackCandidate list \<times> string" where
  "turn_model agent opts messages =
     (let chosen =
        (if OptModelOverride opts \<noteq> [] then
           (case override_candidate agent opts of Inl e \<Rightarrow> Inl e | Inr c \<Rightarrow> Inr ([c], CandModel c))
         else Inr (selectCandidates agent (OptUserMessage opts) messages))
      in case chosen of
           Inl e \<Rightarrow> Inl e
         | Inr (candidates, model) \<Rightarrow>
             let ordered = orderCandidatesByContextWindow (TurnLimits agent) candidates
             in Inr (ordered, case ordered of [c] \<Rightarrow> CandModel c | _ \<Rightarrow> model))"

section \<open>Checkpoints and calls\<close>

definition checkpoint :: "turn_env \<Rightarrow> processOptions \<Rightarrow> turn_state \<Rightarrow> turn_state \<times> turn_error option" where
  "checkpoint e opts st =
     (tick st,
      case answer e (Tick st) of
        Proceed \<Rightarrow> None
      | RunCancelled reason \<Rightarrow> if OptTrackRunControl opts then Some (TurnStopped reason) else None
      | ContextCancelled \<Rightarrow> Some TurnCancelled)"

record turn_request =
  ReqCandidates :: "FallbackCandidate list"
  ReqModel :: string
  ReqDefs :: "ToolDefinition list"

definition callLLM ::
  "turn_env \<Rightarrow> turn_request \<Rightarrow> turn_state \<Rightarrow> turn_state \<times> (LLMResponse + call_error)" where
  "callLLM e rq st =
     (let env = attempts e (Tick st) (Msgs st) (ReqDefs rq) in
      if 1 < length (ReqCandidates rq) then
        (let (ct, calls, out) = Execute env (ReqCandidates rq) (Tracker st)
         in (emit [Request (Msgs st) (ReqDefs rq) calls] (tick st\<lparr>Tracker := ct\<rparr>),
             case out of Inr res \<Rightarrow> Inl (Response res) | Inl err \<Rightarrow> Inr (Chain err)))
      else
        (let provider = candidateProviderName (ReqCandidates rq) (ReqModel rq)
         in (emit [Request (Msgs st) (ReqDefs rq) [(provider, ReqModel rq)]] (tick st),
             case run_outcome (env 0) provider (ReqModel rq) of Inl r \<Rightarrow> Inl r | Inr err \<Rightarrow> Inr (Direct err))))"

fun call_error_text :: "turn_env \<Rightarrow> call_error \<Rightarrow> string" where
  "call_error_text e (Direct err) = error_text err"
| "call_error_text e (Chain err) = chain_text e err"

text \<open>\<open>errors.Is\<close>, through the errors that the fallback chain wraps.\<close>

fun cause :: "call_error \<Rightarrow> go_error option" where
  "cause (Direct err) = Some err"
| "cause (Chain ContextCanceled) = Some Canceled"
| "cause (Chain (Unclassified p m err)) = Some err"
| "cause (Chain (NonRetriable fe)) = Some (Wrapped fe)"
| "cause (Chain NoCandidates) = None"
| "cause (Chain (FallbackExhausted xs)) = None"

definition is_timeout_error :: "turn_env \<Rightarrow> call_error \<Rightarrow> bool" where
  "is_timeout_error e err =
     (let errMsg = ToLower (call_error_text e err) in
      cause err = Some DeadlineExceeded \<or> Contains errMsg ''deadline exceeded'' \<or> Contains errMsg ''client.timeout'' \<or>
      Contains errMsg ''timed out'' \<or> Contains errMsg ''timeout exceeded'')"

definition is_context_error :: "turn_env \<Rightarrow> call_error \<Rightarrow> bool" where
  "is_context_error e err \<longleftrightarrow> \<not> is_timeout_error e err \<and>
     isContextOverflowError (cause err = Some Canceled \<or> cause err = Some DeadlineExceeded) (call_error_text e err)"

definition validateUsageContract :: "UsageInfo option \<Rightarrow> bool" where
  "validateUsageContract usage =
     (case usage of
        None \<Rightarrow> False
      | Some u \<Rightarrow> 0 < PromptTokens u \<and> 0 \<le> CompletionTokens u \<and> 0 < TotalTokens u \<and>
          TotalTokens u = PromptTokens u + CompletionTokens u)"

section \<open>Fitting the request\<close>

record retry_state =
  Force :: bool
  Cycles :: nat
  LastBudget :: "(string \<times> Message list) option"

definition max_compaction_cycles :: "ContextGuardConfig \<Rightarrow> nat" where
  "max_compaction_cycles guard = nat (max 3 (MaxCompactionPasses guard * 2))"

definition effective_max_tokens :: "turn_agent \<Rightarrow> processOptions \<Rightarrow> opt_value option" where
  "effective_max_tokens agent opts =
     Some (OptInt (if 0 < OptMaxTokens opts then OptMaxTokens opts else AgentMaxTokens (TurnLimits agent)))"

text \<open>The messages of a request, from the stored history and summary.\<close>

definition build_messages :: "turn_env \<Rightarrow> nat \<Rightarrow> Message list \<Rightarrow> string \<Rightarrow> string \<Rightarrow> string list \<Rightarrow> Message list" where
  "build_messages e n h summary userMessage media =
     (case prompts e n of (staticPrompt, dynamicCtx, skillsSection) \<Rightarrow>
        BuildMessages staticPrompt dynamicCtx skillsSection h summary userMessage media)"

text \<open>The second stage of the context guard summarizes the session of the turn.\<close>

definition turn_summary ::
  "turn_env \<Rightarrow> turn_agent \<Rightarrow> processOptions \<Rightarrow> nat \<Rightarrow> SessionManager \<Rightarrow> Message list \<Rightarrow> SessionManager \<times> Message list \<times> bool" where
  "turn_summary e agent opts n =
     summarizeAndRebuildMessages (summarizer e n) (TurnModel agent) (AgentWindow (TurnLimits agent)) (clock e n)
       (\<lambda>h summary. build_messages e n h summary [] []) (OptSessionKey opts)"

definition fit_request ::
  "turn_env \<Rightarrow> turn_agent \<Rightarrow> processOptions \<Rightarrow> turn_request \<Rightarrow> retry_state \<Rightarrow> turn_state \<Rightarrow>
   turn_state \<times> (turn_error + retry_state)" where
  "fit_request e agent opts rq rs st =
     (let limits = TurnLimits agent; guard = normalizeContextGuard (AgentGuard limits);
          tokens = effective_max_tokens agent opts; cands = ReqCandidates rq in
      if \<not> GuardEnabled guard \<or> \<not> decideContextBudgetPrecheck limits (Msgs st) tokens cands (Force rs)
      then (st, Inr rs)
      else
        let sig = request_signature e (Msgs st) (ReqModel rq) (ReqDefs rq) (Force rs);
            known = (case LastBudget rs of Some (s, ms) \<Rightarrow> if s = sig then Some ms else None | None \<Rightarrow> None)
        in case known of
             Some ms \<Rightarrow> (st\<lparr>Msgs := ms\<rparr>, Inr rs)
           | None \<Rightarrow>
               if max_compaction_cycles guard \<le> Cycles rs then
                 (st\<lparr>Counters := (Counters st)\<lparr>contextBudgetUnfit := Suc (contextBudgetUnfit (Counters st))\<rparr>\<rparr>,
                  Inl (CircuitBreaker (Cycles rs)))
               else
                 (case compactToBudget (turn_summary e agent opts (Tick st)) limits (Sess st) (Msgs st) tokens cands (Force rs)
                         (Counters st) of
                    (sess, cnt, Inl err) \<Rightarrow> (tick st\<lparr>Sess := sess, Counters := cnt\<rparr>, Inl (OverBudget err))
                  | (sess, cnt, Inr ms) \<Rightarrow>
                      (tick st\<lparr>Sess := sess, Counters := cnt, Msgs := ms\<rparr>,
                       Inr (rs\<lparr>Cycles := Suc (Cycles rs), LastBudget := Some (sig, ms)\<rparr>))))"

text \<open>The retry loop; \<open>maxRetries\<close> is 2, so a request is sent at most three times. After a context error the next
  round compacts in any case.\<close>

definition compress_notice :: string where
  "compress_notice = ''Context window exceeded. Compressing history and retrying...''"

fun dispatch ::
  "turn_env \<Rightarrow> turn_agent \<Rightarrow> processOptions \<Rightarrow> turn_request \<Rightarrow> nat \<Rightarrow> retry_state \<Rightarrow> turn_state \<Rightarrow> call_error \<Rightarrow>
   turn_state \<times> (turn_error + LLMResponse)" where
  "dispatch e agent opts rq 0 rs st err = (st, Inl (LLMFailed err))"
| "dispatch e agent opts rq (Suc k) rs st _ =
     (case checkpoint e opts st of
        (st1, Some stop) \<Rightarrow> (st1, Inl stop)
      | (st1, None) \<Rightarrow>
     (case fit_request e agent opts rq rs st1 of
        (st2, Inl err) \<Rightarrow> (st2, Inl err)
      | (st2, Inr rs') \<Rightarrow>
          let msgs = fst (ensureNonSystemDispatchMessage (sanitizeDispatchMessages (Msgs st2)) (OptUserMessage opts))
          in
     (case callLLM e rq (st2\<lparr>Msgs := msgs\<rparr>) of
        (st3, out) \<Rightarrow>
     (case checkpoint e opts st3 of
        (st4, Some stop) \<Rightarrow> (st4, Inl stop)
      | (st4, None) \<Rightarrow>
          (case out of
             Inl resp \<Rightarrow> (st4, Inr resp)
           | Inr err \<Rightarrow>
               if is_timeout_error e err \<and> 0 < k then dispatch e agent opts rq k rs' st4 err
               else if is_context_error e err \<and> 0 < k then
                 dispatch e agent opts rq k (rs'\<lparr>Force := True\<rparr>)
                   (if k = 2 \<and> OptChannel opts \<notin> {''cli'', ''system'', ''subagent''}
                    then emit [ToUser compress_notice] st4 else st4) err
               else (st4, Inl (LLMFailed err)))))))"

section \<open>The tools of an iteration\<close>

record tool_scope =
  ValidDiscovered :: "string list"
  HiddenNames :: "string set"
  Exposed :: "ToolDefinition list"

definition prepare_tools ::
  "turn_env \<Rightarrow> turn_agent \<Rightarrow> processOptions \<Rightarrow> FallbackCandidate list \<Rightarrow> string \<Rightarrow> turn_state \<Rightarrow>
   turn_state \<times> (turn_error + tool_scope)" where
  "prepare_tools e agent opts cands model st =
     (let reg = registry e (Tick st); key = OptSessionKey opts;
          cache1 = (case Topology st of
                      Some v \<Rightarrow> if v \<noteq> version reg then fst (InvalidateAgent (TurnAgentID agent) (SchemaCache st))
                                else SchemaCache st
                    | None \<Rightarrow> SchemaCache st);
          stored = sm_GetDiscoveredTools (Sess st) key;
          hidden = set (SnapshotHiddenToolNames reg);
          valid = intersectToolNames stored hidden;
          sess = (if valid \<noteq> stored then sm_SetDiscoveredTools (clock e (Tick st)) (Sess st) key valid else Sess st);
          cache2 = (if valid \<noteq> stored then fst (InvalidateSession key cache1) else cache1)
      in case ToProviderDefsWithHiddenAllowlist reg (set valid) of
           None \<Rightarrow> (tick st\<lparr>Sess := sess\<rparr>, Inl InvalidToolContract)
         | Some defs \<Rightarrow>
             (let (cache3, cached, hit) = GetOrSet (toolset_hash e) cache2 key (TurnAgentID agent)
                    (candidateProviderName cands model) model defs
              in (tick st\<lparr>Sess := sess, SchemaCache := cache3, Topology := Some (version reg)\<rparr>,
                  Inr \<lparr>ValidDiscovered = valid, HiddenNames = hidden, Exposed = cached\<rparr>)))"

definition NormalizeToolCall :: "turn_env \<Rightarrow> ToolCall \<Rightarrow> ToolCall" where
  "NormalizeToolCall e tc =
     (let name = (if Name tc = [] then (case Function tc of Some f \<Rightarrow> FnName f | None \<Rightarrow> []) else Name tc);
          args = (if Arguments tc = [] then
                    (case Function tc of
                       Some f \<Rightarrow> if FnArguments f = [] then [] else
                         (case parse_args e (FnArguments f) of Some a \<Rightarrow> a | None \<Rightarrow> [])
                     | None \<Rightarrow> [])
                  else Arguments tc);
          text = marshal_args e args;
          f = (case Function tc of
                 None \<Rightarrow> \<lparr>FnName = name, FnArguments = text\<rparr>
               | Some f \<Rightarrow> \<lparr>FnName = (if FnName f = [] then name else FnName f),
                   FnArguments = (if FnArguments f = [] then text else FnArguments f)\<rparr>)
      in tc\<lparr>Name := (if name = [] then FnName f else name), Arguments := args, Function := Some f\<rparr>)"

definition stored_call :: "turn_env \<Rightarrow> ToolCall \<Rightarrow> ToolCall" where
  "stored_call e tc =
     \<lparr>ID = ID tc, CallType = ''function'',
      Function = Some \<lparr>FnName = Name tc, FnArguments = marshal_args e (Arguments tc)\<rparr>,
      Name = Name tc, Arguments = []\<rparr>"

definition call_message :: "turn_env \<Rightarrow> LLMResponse \<Rightarrow> ToolCall list \<Rightarrow> Message" where
  "call_message e resp calls =
     (text_message ''assistant'' (RespContent resp))
       \<lparr>ReasoningContent := RespReasoning resp, Usage := RespUsage resp, ToolCalls := map (stored_call e) calls\<rparr>"

definition not_exposed :: "turn_env \<Rightarrow> string \<Rightarrow> string" where
  "not_exposed e name = ''Tool '' @ quote_name e name @ '' is not exposed in this request. Discover it first with tool_search_tool_bm25 or tool_search_tool_regex, then call it on the next turn.''"

text \<open>The calls of a round run in parallel, each by itself; only exposed ones run. Beside the result stands what ran.\<close>

definition execute_call ::
  "turn_env \<Rightarrow> turn_state \<Rightarrow> tool_scope \<Rightarrow> nat \<times> ToolCall \<Rightarrow> ToolResult \<times> turn_event list" where
  "execute_call e st scope = (\<lambda>(idx, tc).
     if Name tc \<notin> toolDefinitionNameSet (Exposed scope) then (ErrorResult (not_exposed e (Name tc)), [])
     else
       let run = (\<lambda>t. run_tool e (Tick st) idx t (Arguments tc))
       in (ExecuteWithContext (quote_name e) run (Some run) (\<lambda>_. True) (registry e (Tick st)) (Name tc), [Ran tc]))"

definition isToolDiscoverySearchName :: "string \<Rightarrow> bool" where
  "isToolDiscoverySearchName name \<longleftrightarrow> name = ''tool_search_tool_bm25'' \<or> name = ''tool_search_tool_regex''"

definition result_content :: "ToolResult \<Rightarrow> string" where
  "result_content r = (if ForLLM r = [] then (case Err r of Some err \<Rightarrow> err | None \<Rightarrow> []) else ForLLM r)"

definition tool_message :: "ToolCall \<Rightarrow> ToolResult \<Rightarrow> Message" where
  "tool_message tc r = (text_message ''tool'' (result_content r))\<lparr>ToolCallID := ID tc\<rparr>"

definition result_events :: "processOptions \<Rightarrow> ToolResult \<Rightarrow> turn_event list" where
  "result_events opts r =
     (if \<not> Silent r \<and> ForUser r \<noteq> [] \<and> OptSendResponse opts then [ToUser (ForUser r)] else []) @
     (if ResultMedia r \<noteq> [] then [MediaToUser (ResultMedia r)] else [])"

definition process_result ::
  "turn_env \<Rightarrow> processOptions \<Rightarrow> tool_scope \<Rightarrow> ToolCall \<times> ToolResult \<Rightarrow> turn_state \<times> string list \<Rightarrow>
   turn_state \<times> string list" where
  "process_result e opts scope = (\<lambda>(tc, r) (st, valid).
     let st1 = emit (result_events opts r) st;
         found = (if isToolDiscoverySearchName (Name tc) \<and> \<not> IsError r
                  then ExtractToolReferenceNames (parse_bundle e) (result_content r) else None);
         (st2, valid') =
           (case found of
              Some (n # ns) \<Rightarrow>
                let v = intersectToolNames (mergeToolNames valid (n # ns)) (HiddenNames scope)
                in (st1\<lparr>Sess := sm_SetDiscoveredTools (clock e (Tick st1)) (Sess st1) (OptSessionKey opts) v,
                        SchemaCache := fst (InvalidateSession (OptSessionKey opts) (SchemaCache st1))\<rparr>, v)
            | _ \<Rightarrow> (st1, valid));
         m = tool_message tc r
     in (save_message e opts m (st2\<lparr>Msgs := Msgs st2 @ [m]\<rparr>), valid'))"

definition tool_round ::
  "turn_env \<Rightarrow> processOptions \<Rightarrow> tool_scope \<Rightarrow> LLMResponse \<Rightarrow> turn_state \<Rightarrow> turn_state \<times> turn_error option" where
  "tool_round e opts scope resp st =
     (let calls = map (NormalizeToolCall e) (RespToolCalls resp) in
      case checkpoint e opts st of
        (st1, Some stop) \<Rightarrow> (st1, Some stop)
      | (st1, None) \<Rightarrow>
          let m = call_message e resp calls;
              st2 = save_message e opts m (st1\<lparr>Msgs := Msgs st1 @ [m]\<rparr>);
              outcomes = map (execute_call e st2 scope) (enumerate 0 calls);
              st3 = emit (concat (map snd outcomes)) (tick st2)
          in case checkpoint e opts st3 of
               (st4, Some stop) \<Rightarrow> (st4, Some stop)
             | (st4, None) \<Rightarrow>
                 (fst (fold (process_result e opts scope) (zip calls (map fst outcomes))
                   (st4, ValidDiscovered scope)), None))"

section \<open>The turn\<close>

fun iterations ::
  "turn_env \<Rightarrow> turn_agent \<Rightarrow> processOptions \<Rightarrow> FallbackCandidate list \<Rightarrow> string \<Rightarrow> nat \<Rightarrow> turn_state \<Rightarrow>
   turn_state \<times> (turn_error + string \<times> UsageInfo option)" where
  "iterations e agent opts cands model 0 st = (st, Inr ([], None))"
| "iterations e agent opts cands model (Suc k) st =
     (case checkpoint e opts st of
        (st1, Some stop) \<Rightarrow> (st1, Inl stop)
      | (st1, None) \<Rightarrow>
     (case prepare_tools e agent opts cands model st1 of
        (st2, Inl err) \<Rightarrow> (st2, Inl err)
      | (st2, Inr scope) \<Rightarrow>
     (case dispatch e agent opts \<lparr>ReqCandidates = cands, ReqModel = model, ReqDefs = Exposed scope\<rparr> 3
             \<lparr>Force = False, Cycles = 0, LastBudget = None\<rparr> st2 (Direct Canceled) of
        (st3, Inl err) \<Rightarrow> (st3, Inl err)
      | (st3, Inr resp) \<Rightarrow>
     (case checkpoint e opts st3 of
        (st4, Some stop) \<Rightarrow> (st4, Inl stop)
      | (st4, None) \<Rightarrow>
          if \<not> validateUsageContract (RespUsage resp) then (st4, Inl UsageViolation)
          else if \<not> cache_analysis_ok e (Tick st4) then (tick st4, Inl CacheAnalysisFailed)
          else if RespToolCalls resp = [] then
            (tick st4, Inr (if RespContent resp = [] then RespReasoning resp else RespContent resp, RespUsage resp))
          else
            (case tool_round e opts scope resp (tick st4) of
               (st5, Some err) \<Rightarrow> (st5, Inl err)
             | (st5, None) \<Rightarrow> iterations e agent opts cands model k st5)))))"

definition runLLMIteration ::
  "turn_env \<Rightarrow> turn_agent \<Rightarrow> processOptions \<Rightarrow> turn_state \<Rightarrow>
   turn_state \<times> (turn_error + (string \<times> UsageInfo option) \<times> string)" where
  "runLLMIteration e agent opts st =
     (case turn_model agent opts (Msgs st) of
        Inl err \<Rightarrow> (st, Inl err)
      | Inr (cands, model) \<Rightarrow>
          (case iterations e agent opts cands model (MaxIterations agent) st of
             (st', Inl err) \<Rightarrow> (st', Inl err)
           | (st', Inr reply) \<Rightarrow> (st', Inr (reply, model))))"

text \<open>What a stopped run leaves in the session; the request itself succeeds with an empty response.\<close>

definition stop_run ::
  "turn_env \<Rightarrow> processOptions \<Rightarrow> string \<Rightarrow> turn_state \<Rightarrow> turn_state \<times> (turn_error + string \<times> string)" where
  "stop_run e opts reason st =
     (save_message e opts (text_message ''assistant'' (normalizeStopReason reason)) st, Inr ([], []))"

text \<open>After the answer a summary may be started; it runs in the background (\<open>summarizeSession\<close> of theory Summaries).\<close>

definition start_summary :: "turn_env \<Rightarrow> turn_agent \<Rightarrow> processOptions \<Rightarrow> turn_state \<Rightarrow> turn_state" where
  "start_summary e agent opts st =
     (if \<not> OptEnableSummary opts then st
      else
        case (if OptTrackRunControl opts then checkpoint e opts st else (st, None)) of
          (st1, Some _) \<Rightarrow> st1
        | (st1, None) \<Rightarrow>
            (case maybeSummarize (AgentWindow (TurnLimits agent)) (SummaryLimits agent) (Summarizing st1) (TurnAgentID agent)
                    (OptSessionKey opts) (sm_GetHistory (Sess st1) (OptSessionKey opts)) of
               (running, started) \<Rightarrow>
                 emit (if started then [SummaryStarted (OptSessionKey opts)] else []) (st1\<lparr>Summarizing := running\<rparr>)))"

definition runAgentLoop ::
  "turn_env \<Rightarrow> (Message list \<Rightarrow> Message list) \<Rightarrow> turn_agent \<Rightarrow> processOptions \<Rightarrow> turn_state \<Rightarrow>
   turn_state \<times> (turn_error + string \<times> string)" where
  "runAgentLoop e resolveMedia agent opts st =
     (let key = OptSessionKey opts;
          messages = resolveMedia (build_messages e (Tick st) (sm_GetHistory (Sess st) key)
            (sm_GetSummary (Sess st) key) (OptUserMessage opts) (OptMedia opts));
          st1 = save_message e opts (text_message ''user'' (OptUserMessage opts)) (st\<lparr>Msgs := messages\<rparr>)
      in case runLLMIteration e agent opts st1 of
           (st2, Inl (TurnStopped reason)) \<Rightarrow> stop_run e opts reason st2
         | (st2, Inl err) \<Rightarrow> (st2, Inl err)
         | (st2, Inr ((content, usage), model)) \<Rightarrow>
             (case (if OptTrackRunControl opts then checkpoint e opts st2 else (st2, None)) of
                (st3, Some (TurnStopped reason)) \<Rightarrow> stop_run e opts reason st3
              | (st3, Some err) \<Rightarrow> (st3, Inl err)
              | (st3, None) \<Rightarrow>
                  let final = (if content = [] then OptDefaultResponse opts else content)
                  in (start_summary e agent opts (save_message e opts ((text_message ''assistant'' final)\<lparr>Usage := usage\<rparr>) st3),
                      Inr (final, model))))"

section \<open>What the steps add to the log and to the session\<close>

definition history :: "processOptions \<Rightarrow> turn_state \<Rightarrow> Message list" where
  "history opts st = sm_GetHistory (Sess st) (OptSessionKey opts)"

definition summary_text :: "processOptions \<Rightarrow> turn_state \<Rightarrow> string" where
  "summary_text opts st = sm_GetSummary (Sess st) (OptSessionKey opts)"

text \<open>\<open>adds\<close>: messages are appended. \<open>grows\<close>: and a summary may have taken the place of the oldest messages.\<close>

definition adds :: "processOptions \<Rightarrow> turn_state \<Rightarrow> turn_event list \<Rightarrow> Message list \<Rightarrow> turn_state \<Rightarrow> bool" where
  "adds opts st es ms st' \<longleftrightarrow> Events st' = Events st @ es \<and> history opts st' = history opts st @ ms \<and>
     summary_text opts st' = summary_text opts st"

definition grows :: "processOptions \<Rightarrow> turn_state \<Rightarrow> turn_event list \<Rightarrow> Message list \<Rightarrow> turn_state \<Rightarrow> bool" where
  "grows opts st es ms st' \<longleftrightarrow> Events st' = Events st @ es \<and>
     condensed_history (history opts st @ ms) (summary_text opts st) (history opts st') (summary_text opts st')"

lemma adds_refl [intro]: "adds opts st [] [] st"
  by (simp add: adds_def)

lemma adds_trans: "adds opts a es ms b \<Longrightarrow> adds opts b es' ms' c \<Longrightarrow> adds opts a (es @ es') (ms @ ms') c"
  by (simp add: adds_def)

lemma adds_grows: "adds opts st es ms st' \<Longrightarrow> grows opts st es ms st'"
  by (simp add: adds_def grows_def)

lemma grows_refl [intro]: "grows opts st [] [] st"
  by (rule adds_grows) (rule adds_refl)

lemma grows_trans: "grows opts a es ms b \<Longrightarrow> grows opts b es' ms' c \<Longrightarrow> grows opts a (es @ es') (ms @ ms') c"
  unfolding grows_def by (metis append_assoc condensed_history_trans)

lemma grows_adds: "grows opts a es ms b \<Longrightarrow> adds opts b es' ms' c \<Longrightarrow> grows opts a (es @ es') (ms @ ms') c"
  by (rule grows_trans [OF _ adds_grows])

lemma history_simps [simp]:
  "history opts (st\<lparr>Msgs := a\<rparr>) = history opts st" "history opts (st\<lparr>Counters := b\<rparr>) = history opts st"
  "history opts (st\<lparr>Tracker := c\<rparr>) = history opts st" "history opts (st\<lparr>SchemaCache := d\<rparr>) = history opts st"
  "history opts (st\<lparr>Topology := f\<rparr>) = history opts st" "history opts (tick st) = history opts st"
  "history opts (emit es st) = history opts st" "Events (tick st) = Events st" "Events (emit es st) = Events st @ es"
  "history opts (st\<lparr>Summarizing := g\<rparr>) = history opts st"
  "Events (save_message e opts m st) = Events st" "history opts (save_message e opts m st) = history opts st @ [m]"
  by (simp_all add: history_def tick_def emit_def save_message_def sm_add_history)

lemma summary_text_simps [simp]:
  "summary_text opts (st\<lparr>Msgs := a\<rparr>) = summary_text opts st" "summary_text opts (st\<lparr>Counters := b\<rparr>) = summary_text opts st"
  "summary_text opts (st\<lparr>Tracker := c\<rparr>) = summary_text opts st" "summary_text opts (st\<lparr>SchemaCache := d\<rparr>) = summary_text opts st"
  "summary_text opts (st\<lparr>Topology := f\<rparr>) = summary_text opts st" "summary_text opts (tick st) = summary_text opts st"
  "summary_text opts (st\<lparr>Summarizing := g\<rparr>) = summary_text opts st"
  "summary_text opts (emit es st) = summary_text opts st" "summary_text opts (save_message e opts m st) = summary_text opts st"
  by (simp_all add: summary_text_def tick_def emit_def save_message_def)

lemma discovered_history [simp]:
  "sm_GetHistory (sm_SetDiscoveredTools now sm key names) key' = sm_GetHistory sm key'"
  by (simp add: sm_GetHistory_def sm_SetDiscoveredTools_def put_def newSession_def Let_def split: option.splits)

lemma checkpoint_adds: "checkpoint e opts st = (st', x) \<Longrightarrow> adds opts st [] [] st'"
  by (auto simp: checkpoint_def adds_def)

lemmas checkpoint_grows = checkpoint_adds [THEN adds_grows]

lemma callLLM_grows:
  assumes "callLLM e rq st = (st', out)"
  shows "\<exists>calls. grows opts st [Request (Msgs st) (ReqDefs rq) calls] [] st'"
  using assms
  by (auto simp: callLLM_def adds_def Let_def history_def summary_text_def emit_def tick_def
      split: if_splits prod.splits intro!: adds_grows)

lemma condensed_grows: "condensed (OptSessionKey opts) (Sess st) (Sess st') \<Longrightarrow> Events st' = Events st \<Longrightarrow> grows opts st [] [] st'"
  by (simp add: condensed_def grows_def history_def summary_text_def)

lemma fit_request_grows:
  assumes "fit_request e agent opts rq rs st = (st', x)" shows "grows opts st [] [] st'"
proof (rule condensed_grows)
  obtain sess cnt r where c: "compactToBudget (turn_summary e agent opts (Tick st)) (TurnLimits agent) (Sess st) (Msgs st)
      (effective_max_tokens agent opts) (ReqCandidates rq) (Force rs) (Counters st) = (sess, cnt, r)" by (metis prod_cases3)
  have "condensed (OptSessionKey opts) (Sess st) (fst (compactToBudget (turn_summary e agent opts (Tick st)) (TurnLimits agent) (Sess st) (Msgs st)
      (effective_max_tokens agent opts) (ReqCandidates rq) (Force rs) (Counters st)))"
    by (rule compactToBudget_session) (simp_all add: turn_summary_def rebuild_condensed, erule (1) condensed_trans)
  then have "condensed (OptSessionKey opts) (Sess st) sess" by (simp add: c)
  moreover have "Sess st' = Sess st \<or> Sess st' = sess"
    using assms c by (auto simp: fit_request_def Let_def tick_def split: if_splits option.splits sum.splits)
  ultimately show "condensed (OptSessionKey opts) (Sess st) (Sess st')" by auto
  show "Events st' = Events st"
    using assms c by (auto simp: fit_request_def Let_def tick_def split: if_splits option.splits sum.splits)
qed

lemma prepare_tools_grows: "prepare_tools e agent opts cands model st = (st', x) \<Longrightarrow> grows opts st [] [] st'"
  by (auto simp: prepare_tools_def adds_def Let_def history_def summary_text_def tick_def
      split: option.splits prod.splits intro!: adds_grows)

text \<open>Requests and tool runs in a log: every run tool was offered in the request before it.\<close>

fun offered :: "string set \<Rightarrow> turn_event list \<Rightarrow> string set" where
  "offered S [] = S"
| "offered S (Request ms defs calls # es) = offered (toolDefinitionNameSet defs) es"
| "offered S (x # es) = offered S es"

fun only_offered :: "string set \<Rightarrow> turn_event list \<Rightarrow> bool" where
  "only_offered S [] = True"
| "only_offered S (Request ms defs calls # es) = only_offered (toolDefinitionNameSet defs) es"
| "only_offered S (Ran tc # es) = (Name tc \<in> S \<and> only_offered S es)"
| "only_offered S (x # es) = only_offered S es"

definition requests :: "turn_event list \<Rightarrow> (Message list \<times> ToolDefinition list) list" where
  "requests es = List.map_filter (\<lambda>x. case x of Request ms defs calls \<Rightarrow> Some (ms, defs) | _ \<Rightarrow> None) es"

lemma requests_simps [simp]:
  "requests [] = []" "requests (Request ms defs calls # es) = (ms, defs) # requests es"
  "requests (Ran tc # es) = requests es" "requests (ToUser t # es) = requests es" "requests (MediaToUser r # es) = requests es"
  "requests (SummaryStarted k # es) = requests es"
  by (simp_all add: requests_def List.map_filter_simps)

lemma requests_append [simp]: "requests (xs @ ys) = requests xs @ requests ys"
  by (simp add: requests_def List.map_filter_def)

lemma offered_append [simp]: "offered S (xs @ ys) = offered (offered S xs) ys"
  by (induction S xs rule: offered.induct) simp_all

lemma only_offered_append [simp]:
  "only_offered S (xs @ ys) \<longleftrightarrow> only_offered S xs \<and> only_offered (offered S xs) ys"
  by (induction S xs rule: only_offered.induct) simp_all

definition speaks :: "Message list \<Rightarrow> bool" where
  "speaks ms \<longleftrightarrow> (\<exists>m \<in> set ms. Role m \<noteq> ''system'')"

lemma ensure_speaks: "speaks (fst (ensureNonSystemDispatchMessage ms fallback))"
  by (auto simp: speaks_def ensureNonSystemDispatchMessage_def Let_def text_message_def)

text \<open>The log of one retry loop: requests with the same definitions, and notices to the user.\<close>

definition dispatch_log :: "ToolDefinition list \<Rightarrow> nat \<Rightarrow> turn_event list \<Rightarrow> bool" where
  "dispatch_log defs k es \<longleftrightarrow> length (requests es) \<le> k \<and>
     (\<forall>x \<in> set es. case x of Request ms d calls \<Rightarrow> d = defs \<and> speaks ms | ToUser t \<Rightarrow> True | _ \<Rightarrow> False)"

lemma dispatch_log_offered:
  assumes "dispatch_log defs k es"
  shows "only_offered S es" and "offered S es = (if requests es = [] then S else toolDefinitionNameSet defs)"
  using assms unfolding dispatch_log_def
  by (induction S es rule: only_offered.induct) (auto simp: dispatch_log_def split: if_splits)

lemma dispatch_grows:
  assumes "dispatch e agent opts rq k rs st err = (st', out)"
  shows "\<exists>es. grows opts st es [] st' \<and> dispatch_log (ReqDefs rq) k es \<and> (\<forall>resp. out = Inr resp \<longrightarrow> requests es \<noteq> [])"
  using assms
proof (induction e agent opts rq k rs st err arbitrary: st' out rule: dispatch.induct)
  case (1 e agent opts rq rs st err)
  then show ?case by (auto simp: dispatch_log_def intro!: exI [of _ "[]"])
next
  case (2 e agent opts rq k rs st err0)
  obtain st1 c1 where c1: "checkpoint e opts st = (st1, c1)" by fastforce
  note g1 = checkpoint_grows [OF c1]
  show ?case
  proof (cases c1)
    case (Some stop)
    with 2(3) c1 g1 show ?thesis by (auto simp: dispatch_log_def intro!: exI [of _ "[]"])
  next
    case None
    obtain st2 b where f: "fit_request e agent opts rq rs st1 = (st2, b)" by fastforce
    note g2 = grows_trans [OF g1 fit_request_grows [OF f]]
    show ?thesis
    proof (cases b)
      case (Inl err)
      with 2(3) c1 None f g2 show ?thesis by (auto simp: dispatch_log_def intro!: exI [of _ "[]"])
    next
      case (Inr rs')
      define msgs where
        "msgs = fst (ensureNonSystemDispatchMessage (sanitizeDispatchMessages (Msgs st2)) (OptUserMessage opts))"
      obtain st3 o3 where c: "callLLM e rq (st2\<lparr>Msgs := msgs\<rparr>) = (st3, o3)" by fastforce
      obtain calls where "grows opts (st2\<lparr>Msgs := msgs\<rparr>) [Request msgs (ReqDefs rq) calls] [] st3"
        using callLLM_grows [OF c, of opts] by auto
      then have "grows opts st2 [Request msgs (ReqDefs rq) calls] [] st3" by (simp add: grows_def)
      note g3 = grows_trans [OF g2 this]
      obtain st4 c4 where c4: "checkpoint e opts st3 = (st4, c4)" by fastforce
      let ?r = "Request msgs (ReqDefs rq) calls"
      have g4: "grows opts st [?r] [] st4" using grows_trans [OF g3 checkpoint_grows [OF c4]] by simp
      have log: "dispatch_log (ReqDefs rq) (Suc k) [?r]" using ensure_speaks by (simp add: dispatch_log_def msgs_def)
      have end_here: ?thesis if "(st', out) = (st4, x)" for x
        using that g4 log by (intro exI [of _ "[?r]"]) simp
      have again: ?thesis
        if rec: "\<exists>es. grows opts st5 es [] st' \<and> dispatch_log (ReqDefs rq) k es \<and> (\<forall>resp. out = Inr resp \<longrightarrow> requests es \<noteq> [])"
          and st5: "grows opts st4 n [] st5" "n = [] \<or> n = [ToUser compress_notice]" for st5 n
      proof -
        from rec obtain es where "grows opts st5 es [] st'" "dispatch_log (ReqDefs rq) k es" by blast
        with grows_trans [OF grows_trans [OF g4 st5(1)]] st5(2) log show ?thesis
          by (intro exI [of _ "?r # n @ es"]) (auto simp: dispatch_log_def)
      qed
      have red: "(st', out) = (case c4 of Some stop \<Rightarrow> (st4, Inl stop) | None \<Rightarrow>
          (case o3 of Inl resp \<Rightarrow> (st4, Inr resp)
           | Inr err \<Rightarrow>
               if is_timeout_error e err \<and> 0 < k then dispatch e agent opts rq k rs' st4 err
               else if is_context_error e err \<and> 0 < k then
                 dispatch e agent opts rq k (rs'\<lparr>Force := True\<rparr>)
                   (if k = 2 \<and> OptChannel opts \<notin> {''cli'', ''system'', ''subagent''}
                    then emit [ToUser compress_notice] st4 else st4) err
               else (st4, Inl (LLMFailed err))))"
        using 2(3) c1 None f Inr c c4 unfolding msgs_def by (simp add: Let_def split: option.splits)
      note IH = 2(1,2) [OF c1 [symmetric] None f [symmetric] Inr msgs_def c [symmetric] c4 [symmetric]]
      show ?thesis
      proof (cases c4)
        case (Some stop)
        with red end_here show ?thesis by simp
      next
        case N4: None
        show ?thesis
        proof (cases o3)
          case (Inl resp)
          with red N4 end_here show ?thesis by simp
        next
          case I3: (Inr err)
          show ?thesis
          proof (cases "is_timeout_error e err \<and> 0 < k")
            case True
            with red N4 I3 have "dispatch e agent opts rq k rs' st4 err = (st', out)" by simp
            from IH(1) [OF N4 I3 True this] again [OF _ grows_refl] show ?thesis by blast
          next
            case F: False
            show ?thesis
            proof (cases "is_context_error e err \<and> 0 < k")
              case True
              let ?s = "if k = 2 \<and> OptChannel opts \<notin> {''cli'', ''system'', ''subagent''}
                then emit [ToUser compress_notice] st4 else st4"
              have run: "dispatch e agent opts rq k (rs'\<lparr>Force := True\<rparr>) ?s err = (st', out)"
                using red N4 I3 F True by simp
              have "grows opts st4 (if k = 2 \<and> OptChannel opts \<notin> {''cli'', ''system'', ''subagent''}
                then [ToUser compress_notice] else []) [] ?s"
                by (intro adds_grows) (simp add: adds_def)
              from again [OF IH(2) [OF N4 I3 F True run] this] show ?thesis by auto
            next
              case False
              with red N4 I3 F end_here show ?thesis by (auto split: if_splits)
            qed
          qed
        qed
      qed
    qed
  qed
qed

text \<open>A round of tool calls as it is saved: the calls, then the result of each of them in order.\<close>

definition complete_round :: "Message list \<Rightarrow> bool" where
  "complete_round ms \<longleftrightarrow> (\<exists>m results. ms = m # results \<and> is_call_turn m \<and>
     map ToolCallID results = map ID (ToolCalls m) \<and> (\<forall>x \<in> set results. is_tool x))"

definition deliveries :: "turn_event list \<Rightarrow> bool" where
  "deliveries es \<longleftrightarrow> (\<forall>x \<in> set es. case x of ToUser t \<Rightarrow> True | MediaToUser r \<Rightarrow> True | _ \<Rightarrow> False)"

lemma deliveries_log: "deliveries es \<Longrightarrow> only_offered S es \<and> offered S es = S \<and> requests es = []"
  by (induction S es rule: only_offered.induct) (auto simp: deliveries_def)

lemma process_result_grows:
  assumes "process_result e opts scope (tc, r) (st, valid) = (st', valid')"
  shows "adds opts st (result_events opts r) [tool_message tc r] st'" and "deliveries (result_events opts r)"
  using assms
  by (auto simp: process_result_def adds_def Let_def history_def summary_text_def save_message_def emit_def sm_add_history
      result_events_def deliveries_def split: option.splits list.splits)

lemma results_grow:
  "fold (process_result e opts scope) (zip calls results) (st, valid) = (st', valid') \<Longrightarrow>
   length results = length calls \<Longrightarrow>
   \<exists>es ms. adds opts st es ms st' \<and> deliveries es \<and> map ToolCallID ms = map ID calls \<and> (\<forall>x \<in> set ms. is_tool x)"
proof (induction calls arbitrary: results st valid)
  case Nil
  then show ?case by (auto simp: deliveries_def)
next
  case (Cons tc calls)
  then obtain r rs where results: "results = r # rs" by (cases results) auto
  obtain st1 v1 where one: "process_result e opts scope (tc, r) (st, valid) = (st1, v1)" by fastforce
  from Cons.prems results one have "fold (process_result e opts scope) (zip calls rs) (st1, v1) = (st', valid')"
    and "length rs = length calls" by simp_all
  from Cons.IH [OF this] obtain es ms where rest: "adds opts st1 es ms st'" "deliveries es"
    "map ToolCallID ms = map ID calls" "\<forall>x \<in> set ms. is_tool x" by blast
  from adds_trans [OF process_result_grows(1) [OF one] rest(1)] rest(2-) process_result_grows(2) [OF one]
  show ?case
    by (intro exI [of _ "result_events opts r @ es"] exI [of _ "[tool_message tc r] @ ms"])
      (auto simp: tool_message_def text_message_def deliveries_def is_tool_def)
qed

lemma ran_log:
  "only_offered (toolDefinitionNameSet (Exposed scope)) (concat (map snd (map (execute_call e st scope) xs))) \<and>
   offered (toolDefinitionNameSet (Exposed scope)) (concat (map snd (map (execute_call e st scope) xs))) =
     toolDefinitionNameSet (Exposed scope) \<and>
   requests (concat (map snd (map (execute_call e st scope) xs))) = []"
proof (induction xs)
  case (Cons x xs)
  obtain idx tc where x: "x = (idx, tc)" by fastforce
  have "snd (execute_call e st scope x) = (if Name tc \<in> toolDefinitionNameSet (Exposed scope) then [Ran tc] else [])"
    by (simp add: x execute_call_def Let_def)
  with Cons.IH show ?case by simp
qed simp

lemma tool_round_adds:
  assumes run: "tool_round e opts scope resp st = (st', out)" and "RespToolCalls resp \<noteq> []"
  shows "\<exists>es ms. adds opts st es ms st' \<and> only_offered (toolDefinitionNameSet (Exposed scope)) es \<and> requests es = [] \<and>
    (case out of None \<Rightarrow> complete_round ms | Some err \<Rightarrow> ms = [] \<or> (\<exists>m. ms = [m] \<and> is_call_turn m))"
proof -
  let ?names = "toolDefinitionNameSet (Exposed scope)"
  define calls where "calls = map (NormalizeToolCall e) (RespToolCalls resp)"
  define m where "m = call_message e resp calls"
  have m: "is_call_turn m" "map ID (ToolCalls m) = map ID calls"
    using assms(2) by (auto simp: m_def calls_def call_message_def is_call_turn_def text_message_def stored_call_def o_def)
  obtain st1 c1 where c1: "checkpoint e opts st = (st1, c1)" by fastforce
  show ?thesis
  proof (cases c1)
    case (Some stop)
    with run c1 checkpoint_adds [OF c1] show ?thesis
      by (intro exI [of _ "[]"] exI [of _ "[]"]) (auto simp: tool_round_def Let_def)
  next
    case None
    define st2 where "st2 = save_message e opts m (st1\<lparr>Msgs := Msgs st1 @ [m]\<rparr>)"
    define outcomes where "outcomes = map (execute_call e st2 scope) (enumerate 0 calls)"
    define ran_events where "ran_events = concat (map snd outcomes)"
    define st3 where "st3 = emit ran_events (tick st2)"
    have "adds opts st1 ran_events [m] st3"
      by (simp add: adds_def st3_def st2_def)
    note g3 = adds_trans [OF checkpoint_adds [OF c1] this]
    have ran: "only_offered ?names ran_events \<and> offered ?names ran_events = ?names \<and> requests ran_events = []"
      unfolding ran_events_def outcomes_def by (rule ran_log)
    obtain st4 c4 where c4: "checkpoint e opts st3 = (st4, c4)" by fastforce
    note g4 = adds_trans [OF g3 checkpoint_adds [OF c4]]
    have out: "(st', out) = (case c4 of Some stop \<Rightarrow> (st4, Some stop) | None \<Rightarrow>
        (fst (fold (process_result e opts scope) (zip calls (map fst outcomes)) (st4, ValidDiscovered scope)), None))"
      using run c1 None c4 unfolding calls_def m_def outcomes_def ran_events_def st2_def st3_def
      by (simp add: tool_round_def Let_def del: map_map)
    show ?thesis
    proof (cases c4)
      case (Some stop)
      with out g4 m ran show ?thesis
        by (intro exI [of _ ran_events] exI [of _ "[m]"]) simp
    next
      case N4: None
      obtain st5 v5 where fold: "fold (process_result e opts scope) (zip calls (map fst outcomes)) (st4, ValidDiscovered scope) = (st5, v5)"
        by fastforce
      have "length (map fst outcomes) = length calls" by (simp add: outcomes_def)
      from results_grow [OF fold this] obtain es ms where r: "adds opts st4 es ms st5" "deliveries es"
        "map ToolCallID ms = map ID calls" "\<forall>x \<in> set ms. is_tool x" by blast
      from adds_trans [OF g4 r(1)] r(2-) deliveries_log [OF r(2)] ran m out N4 fold show ?thesis
        by (intro exI [of _ "ran_events @ es"] exI [of _ "m # ms"]) (auto simp: complete_round_def)
    qed
  qed
qed

section \<open>Turns\<close>

definition dangling :: "turn_error option \<Rightarrow> Message list \<Rightarrow> bool" where
  "dangling out ms \<longleftrightarrow> ms = [] \<or> out \<noteq> None \<and> (\<exists>m. ms = [m] \<and> is_call_turn m)"

definition failure :: "'e + 'a \<Rightarrow> 'e option" where
  "failure out = (case out of Inl e \<Rightarrow> Some e | Inr _ \<Rightarrow> None)"

lemma failure_simps [simp]: "failure (Inl e) = Some e" "failure (Inr x) = None"
  by (simp_all add: failure_def)

definition iteration_log :: "nat \<Rightarrow> turn_error option \<Rightarrow> turn_event list \<Rightarrow> Message list \<Rightarrow> bool" where
  "iteration_log k out es ms \<longleftrightarrow> (\<forall>S. only_offered S es) \<and> length (requests es) \<le> 3 * k \<and>
     (\<forall>r \<in> set (requests es). speaks (fst r)) \<and>
     (\<exists>rounds last. ms = concat rounds @ last \<and> length rounds \<le> k \<and> list_all complete_round rounds \<and> dangling out last)"

lemma iteration_log_Nil: "iteration_log k out [] []"
  by (auto simp: iteration_log_def dangling_def intro!: exI [of _ "[]"])

lemma dispatch_iteration_log:
  assumes "dispatch_log defs 3 es" shows "iteration_log (Suc k) out es []"
proof -
  have "\<forall>r \<in> set (requests es). speaks (fst r)"
    using assms by (auto simp: dispatch_log_def requests_def List.map_filter_def split: turn_event.splits)
  then show ?thesis
    using assms dispatch_log_offered(1) [OF assms]
    by (auto simp: iteration_log_def dispatch_log_def dangling_def intro!: exI [of _ "[]"])
qed

lemma iterations_grow:
  assumes "iterations e agent opts cands model k st = (st', out)"
  shows "\<exists>es ms. grows opts st es ms st' \<and> iteration_log k (failure out) es ms"
  using assms
proof (induction k arbitrary: st)
  case 0
  then show ?case using iteration_log_Nil by (intro exI [of _ "[]"]) auto
next
  case (Suc k)
  obtain st1 c1 where c1: "checkpoint e opts st = (st1, c1)" by fastforce
  note g1 = checkpoint_grows [OF c1]
  show ?case
  proof (cases c1)
    case (Some stop)
    with Suc.prems c1 g1 iteration_log_Nil show ?thesis by (intro exI [of _ "[]"]) auto
  next
    case None
    obtain st2 p where p: "prepare_tools e agent opts cands model st1 = (st2, p)" by fastforce
    note g2 = grows_trans [OF g1 prepare_tools_grows [OF p]]
    show ?thesis
    proof (cases p)
      case (Inl err)
      with Suc.prems c1 None p g2 iteration_log_Nil show ?thesis by (intro exI [of _ "[]"]) auto
    next
      case (Inr scope)
      let ?rq = "\<lparr>ReqCandidates = cands, ReqModel = model, ReqDefs = Exposed scope\<rparr>"
      obtain st3 d where d: "dispatch e agent opts ?rq 3 \<lparr>Force = False, Cycles = 0, LastBudget = None\<rparr> st2
          (Direct Canceled) = (st3, d)" by fastforce
      from dispatch_grows [OF d] obtain es where g: "grows opts st2 es [] st3"
        and log: "dispatch_log (Exposed scope) 3 es" and asked: "\<forall>resp. d = Inr resp \<longrightarrow> requests es \<noteq> []" by auto
      note g3 = grows_trans [OF g2 g]
      have stop: ?thesis if "st' = s" "grows opts st3 [] [] s" for s
        using that grows_trans [OF g3 that(2)] dispatch_iteration_log [OF log, of k]
        by (intro exI [of _ es] exI [of _ "[]"]) auto
      show ?thesis
      proof (cases d)
        case D: (Inl err)
        with Suc.prems c1 None p Inr d have "st' = st3" by simp
        then show ?thesis by (rule stop) (rule grows_refl)
      next
        case D: (Inr resp)
        obtain st4 c4 where c4: "checkpoint e opts st3 = (st4, c4)" by fastforce
        note g4 = checkpoint_grows [OF c4]
        have tick4: "grows opts st3 [] [] (tick st4)" using g4 by (simp add: grows_def)
        consider (stopped) "\<exists>x. (st', out) = (st4, x)" | (ended) "\<exists>x. (st', out) = (tick st4, x)"
          | (more) "c4 = None" "RespToolCalls resp \<noteq> []"
            "(st', out) = (case tool_round e opts scope resp (tick st4) of
               (st5, Some err) \<Rightarrow> (st5, Inl err) | (st5, None) \<Rightarrow> iterations e agent opts cands model k st5)"
          using Suc.prems c1 None p Inr d D c4 by (cases c4) (auto split: if_splits)
        then show ?thesis
        proof cases
          case stopped
          then show ?thesis using stop [of st4] g4 by auto
        next
          case ended
          then show ?thesis using stop [of "tick st4"] tick4 by auto
        next
          case more
          obtain st5 r where t: "tool_round e opts scope resp (tick st4) = (st5, r)" by fastforce
          from tool_round_adds [OF t more(2)] obtain es5 ms5 where g5: "adds opts (tick st4) es5 ms5 st5"
            and off: "only_offered (toolDefinitionNameSet (Exposed scope)) es5" "requests es5 = []"
            and ms5: "case r of None \<Rightarrow> complete_round ms5 | Some err \<Rightarrow> ms5 = [] \<or> (\<exists>m. ms5 = [m] \<and> is_call_turn m)"
            by blast
          have g': "grows opts st (es @ es5) ms5 st5"
            using grows_adds [OF grows_trans [OF g3 tick4] g5] by simp
          have offered: "offered S es = toolDefinitionNameSet (Exposed scope)" for S
            using dispatch_log_offered(2) [OF log] asked D by simp
          have base: "\<forall>S. only_offered S (es @ es5)" "length (requests (es @ es5)) \<le> 3"
            "\<forall>r \<in> set (requests (es @ es5)). speaks (fst r)"
            using dispatch_iteration_log [OF log, of 0] off offered by (auto simp: iteration_log_def)
          show ?thesis
          proof (cases r)
            case (Some err)
            with more t have "st' = st5" "failure out \<noteq> None" by auto
            moreover have "dangling (failure out) ms5" using ms5 Some calculation(2) by (auto simp: dangling_def)
            then have "\<exists>rounds last. ms5 = concat rounds @ last \<and> length rounds \<le> Suc k \<and>
                list_all complete_round rounds \<and> dangling (failure out) last"
              by (intro exI [of _ "[]"] exI [of _ ms5]) simp
            ultimately show ?thesis
              using g' base by (intro exI [of _ "es @ es5"] exI [of _ ms5]) (auto simp: iteration_log_def)
          next
            case N: None
            with more t have "iterations e agent opts cands model k st5 = (st', out)" by simp
            from Suc.IH [OF this] obtain es6 ms6 where g6: "grows opts st5 es6 ms6 st'"
              and log6: "iteration_log k (failure out) es6 ms6" by blast
            from log6 obtain rounds last where "ms6 = concat rounds @ last" "length rounds \<le> k"
              "list_all complete_round rounds" "dangling (failure out) last" by (auto simp: iteration_log_def)
            then have "\<exists>rounds last. ms5 @ ms6 = concat rounds @ last \<and> length rounds \<le> Suc k \<and>
                list_all complete_round rounds \<and> dangling (failure out) last"
              using ms5 N by (intro exI [of _ "ms5 # rounds"] exI [of _ last]) simp
            with grows_trans [OF g' g6] log6 base show ?thesis
              by (intro exI [of _ "(es @ es5) @ es6"] exI [of _ "ms5 @ ms6"]) (auto simp: iteration_log_def)
          qed
        qed
      qed
    qed
  qed
qed

lemma start_summary_adds:
  "\<exists>es. adds opts st es [] (start_summary e agent opts st) \<and> (\<forall>S. only_offered S es) \<and> requests es = []"
proof -
  have tail: "(\<forall>S. only_offered S (if b then [SummaryStarted k] else [])) \<and> requests (if b then [SummaryStarted k] else []) = []" for b k
    by simp
  obtain st1 c where c: "(if OptTrackRunControl opts then checkpoint e opts st else (st, None)) = (st1, c)" by fastforce
  have g: "adds opts st [] [] st1" using c checkpoint_adds adds_refl by (auto split: if_splits)
  obtain running started where m: "maybeSummarize (AgentWindow (TurnLimits agent)) (SummaryLimits agent) (Summarizing st1)
      (TurnAgentID agent) (OptSessionKey opts) (sm_GetHistory (Sess st1) (OptSessionKey opts)) = (running, started)" by fastforce
  show ?thesis
  proof (cases "OptEnableSummary opts \<and> c = None")
    case True
    let ?es = "if started then [SummaryStarted (OptSessionKey opts)] else []"
    from True c m have "start_summary e agent opts st = emit ?es (st1\<lparr>Summarizing := running\<rparr>)"
      by (simp add: start_summary_def)
    with g have "adds opts st ?es [] (start_summary e agent opts st)" by (simp add: adds_def)
    with tail show ?thesis by blast
  next
    case False
    with c have "start_summary e agent opts st = st \<or> start_summary e agent opts st = st1"
      by (auto simp: start_summary_def split: option.splits)
    with g show ?thesis using adds_refl by (intro exI [of _ "[]"]) auto
  qed
qed

text \<open>The end of a turn: what it adds to the session and to the log after the last round.\<close>

lemma turn_end:
  assumes "runAgentLoop e resolveMedia agent opts st = (st', out)"
    and "st1 = save_message e opts (text_message ''user'' (OptUserMessage opts)) (st\<lparr>Msgs := resolveMedia (build_messages e (Tick st)
      (sm_GetHistory (Sess st) (OptSessionKey opts)) (sm_GetSummary (Sess st) (OptSessionKey opts)) (OptUserMessage opts) (OptMedia opts))\<rparr>)"
    and run: "runLLMIteration e agent opts st1 = (st2, r)"
  shows "\<exists>es final. adds opts st2 es final st' \<and> (\<forall>S. only_offered S es) \<and> requests es = [] \<and>
    (case out of
       Inl err \<Rightarrow> final = []
     | Inr (text, model) \<Rightarrow>
         (failure r = None \<and> (\<exists>usage. final = [(text_message ''assistant'' text)\<lparr>Usage := usage\<rparr>])) \<or>
         (text = [] \<and> (\<exists>reason. final = [text_message ''assistant'' (normalizeStopReason reason)])))"
    (is "\<exists>es final. ?P es final")
proof -
  have all: "(st', out) = (case (st2, r) of
       (st2, Inl (TurnStopped reason)) \<Rightarrow> stop_run e opts reason st2
     | (st2, Inl err) \<Rightarrow> (st2, Inl err)
     | (st2, Inr ((content, usage), model)) \<Rightarrow>
         (case (if OptTrackRunControl opts then checkpoint e opts st2 else (st2, None)) of
            (st3, Some (TurnStopped reason)) \<Rightarrow> stop_run e opts reason st3
          | (st3, Some err) \<Rightarrow> (st3, Inl err)
          | (st3, None) \<Rightarrow>
              let final = (if content = [] then OptDefaultResponse opts else content)
              in (start_summary e agent opts (save_message e opts ((text_message ''assistant'' final)\<lparr>Usage := usage\<rparr>) st3), Inr (final, model))))"
    using assms(1) unfolding runAgentLoop_def Let_def assms(2) [symmetric] run by simp
  have stop: "\<exists>es final. ?P es final" if "(st', out) = stop_run e opts reason s" "adds opts st2 [] [] s" for reason s
    using that by (intro exI [of _ "[]"] exI [of _ "[text_message ''assistant'' (normalizeStopReason reason)]"])
      (auto simp: stop_run_def adds_def)
  have fail: "\<exists>es final. ?P es final" if "(st', out) = (s, Inl err)" "adds opts st2 [] [] s" for err s
    using that by (intro exI [of _ "[]"]) auto
  show ?thesis
  proof (cases r)
    case (Inl err)
    show ?thesis
    proof (cases "\<exists>reason. err = TurnStopped reason")
      case True
      then obtain reason where "err = TurnStopped reason" ..
      with all Inl show ?thesis by (intro stop [of reason st2]) auto
    next
      case False
      with all Inl have "(st', out) = (st2, Inl err)" by (cases err; simp)
      then show ?thesis by (rule fail) auto
    qed
  next
    case (Inr a)
    obtain content usage model where a: "a = ((content, usage), model)" by (cases a) auto
    obtain st3 c3 where c3: "(if OptTrackRunControl opts then checkpoint e opts st2 else (st2, None)) = (st3, c3)" by fastforce
    then have g3: "adds opts st2 [] [] st3" using checkpoint_adds adds_refl by (auto split: if_splits)
    show ?thesis
    proof (cases c3)
      case None
      define final where "final = (if content = [] then OptDefaultResponse opts else content)"
      define m where "m = (text_message ''assistant'' final)\<lparr>Usage := usage\<rparr>"
      have st': "st' = start_summary e agent opts (save_message e opts m st3)" "out = Inr (final, model)"
        using all Inr a c3 None by (simp_all add: Let_def final_def m_def)
      from start_summary_adds [of opts "save_message e opts m st3" e agent] obtain es where
        es: "adds opts (save_message e opts m st3) es [] st'" "\<forall>S. only_offered S es" "requests es = []" unfolding st'(1) by blast
      have "adds opts st3 [] [m] (save_message e opts m st3)" by (simp add: adds_def)
      from adds_trans [OF adds_trans [OF g3 this] es(1)] have "adds opts st2 es [m] st'" by simp
      with es(2,3) st'(2) Inr show ?thesis by (intro exI [of _ es] exI [of _ "[m]"]) (auto simp: m_def)
    next
      case (Some err)
      show ?thesis
      proof (cases "\<exists>reason. err = TurnStopped reason")
        case True
        then obtain reason where "err = TurnStopped reason" ..
        with all Inr a c3 Some g3 show ?thesis by (intro stop [of reason st3]) auto
      next
        case False
        with all Inr a c3 Some have "(st', out) = (st3, Inl err)" by (cases err; simp)
        then show ?thesis using g3 by (rule fail)
      qed
    qed
  qed
qed

text \<open>The rounds of a turn.\<close>

lemma turn_rounds:
  assumes "runLLMIteration e agent opts st1 = (st2, r)"
  shows "\<exists>es ms. grows opts st1 es ms st2 \<and> iteration_log (MaxIterations agent) (failure r) es ms"
proof (cases "turn_model agent opts (Msgs st1)")
  case (Inl err)
  have "iteration_log (MaxIterations agent) x [] []" for x
    by (auto simp: iteration_log_def dangling_def intro!: exI [of _ "[]"])
  with Inl assms show ?thesis by (intro exI [of _ "[]"]) (auto simp: runLLMIteration_def)
next
  case (Inr cm)
  obtain x where it: "iterations e agent opts (fst cm) (snd cm) (MaxIterations agent) st1 = (st2, x)"
    "failure r = failure x"
    using assms Inr by (auto simp: runLLMIteration_def split: prod.splits sum.splits)
  from iterations_grow [OF it(1)] show ?thesis unfolding it(2) .
qed

text \<open>C1. What a turn leaves in its session when it returns. To what was there it adds the user message, then complete rounds of tool
  calls (the calls, followed by exactly one result for each of them in order), at most as many as the iterations allowed, and then the
  answer that the caller gets; a failed turn may end with one call turn without results instead, and a stopped one with the reason of
  the stop. All of that is still in the session, unless the second stage of the context guard summarized it: then the oldest messages
  are gone, but four or more are left and the session has a summary. Without that the summary is the old one. (Nobody else writes to
  the session during the turn; a summary that the turn starts at its end runs in the background and is in theory Summaries.)\<close>

theorem turn_recorded:
  assumes "runAgentLoop e resolveMedia agent opts st = (st', out)"
  shows "\<exists>rounds calls final dropped. history opts st @ text_message ''user'' (OptUserMessage opts) # concat rounds @ calls @ final =
      dropped @ history opts st' \<and>
    (dropped = [] \<longrightarrow> summary_text opts st' = summary_text opts st) \<and>
    (dropped \<noteq> [] \<longrightarrow> 4 \<le> length (history opts st') \<and> summary_text opts st' \<noteq> []) \<and>
    length rounds \<le> MaxIterations agent \<and> list_all complete_round rounds \<and>
    (calls = [] \<or> (\<exists>m. calls = [m] \<and> is_call_turn m)) \<and>
    (case out of
       Inl err \<Rightarrow> final = []
     | Inr (text, model) \<Rightarrow>
         (calls = [] \<and> (\<exists>usage. final = [(text_message ''assistant'' text)\<lparr>Usage := usage\<rparr>])) \<or>
         (text = [] \<and> (\<exists>reason. final = [text_message ''assistant'' (normalizeStopReason reason)])))"
proof -
  define st1 where "st1 = save_message e opts (text_message ''user'' (OptUserMessage opts)) (st\<lparr>Msgs := resolveMedia (build_messages e (Tick st)
      (sm_GetHistory (Sess st) (OptSessionKey opts)) (sm_GetSummary (Sess st) (OptSessionKey opts)) (OptUserMessage opts) (OptMedia opts))\<rparr>)"
  obtain st2 r where run: "runLLMIteration e agent opts st1 = (st2, r)" by fastforce
  from turn_rounds [OF run] obtain es ms where g: "grows opts st1 es ms st2" and log: "iteration_log (MaxIterations agent) (failure r) es ms"
    by blast
  from turn_end [OF assms st1_def run] obtain es' final where e: "adds opts st2 es' final st'" and
    final: "case out of Inl err \<Rightarrow> final = []
     | Inr (text, model) \<Rightarrow>
         (failure r = None \<and> (\<exists>usage. final = [(text_message ''assistant'' text)\<lparr>Usage := usage\<rparr>])) \<or>
         (text = [] \<and> (\<exists>reason. final = [text_message ''assistant'' (normalizeStopReason reason)]))" by blast
  from log obtain rounds last where ms: "ms = concat rounds @ last" "length rounds \<le> MaxIterations agent"
    "list_all complete_round rounds" and last: "dangling (failure r) last" by (auto simp: iteration_log_def)
  have "adds opts st [] [text_message ''user'' (OptUserMessage opts)] st1" by (simp add: adds_def st1_def)
  from grows_adds [OF grows_trans [OF adds_grows [OF this] g] e] ms(1)
  have "grows opts st (es @ es') (text_message ''user'' (OptUserMessage opts) # concat rounds @ last @ final) st'" by simp
  then obtain dropped where "history opts st @ text_message ''user'' (OptUserMessage opts) # concat rounds @ last @ final =
      dropped @ history opts st'" "dropped = [] \<longrightarrow> summary_text opts st' = summary_text opts st"
    "dropped \<noteq> [] \<longrightarrow> 4 \<le> length (history opts st') \<and> summary_text opts st' \<noteq> []" by (auto simp: grows_def condensed_history_def)
  moreover have calls: "last = [] \<or> (\<exists>m. last = [m] \<and> is_call_turn m)" "failure r = None \<Longrightarrow> last = []"
    using last by (auto simp: dangling_def)
  moreover have "case out of Inl err \<Rightarrow> final = []
     | Inr (text, model) \<Rightarrow>
         (last = [] \<and> (\<exists>usage. final = [(text_message ''assistant'' text)\<lparr>Usage := usage\<rparr>])) \<or>
         (text = [] \<and> (\<exists>reason. final = [text_message ''assistant'' (normalizeStopReason reason)]))"
    using final calls(2) by (cases out) auto
  ultimately show ?thesis
    using ms(2,3) by (intro exI [of _ rounds] exI [of _ last] exI [of _ final] exI [of _ dropped] conjI)
qed

text \<open>C3. A turn runs only tools that it offered in the request before; in all it sends at most three requests for each iteration that
  the agent is allowed; and every request has a message that is not a system message. A request is one direct call of a provider or
  one pass of the fallback chain over the candidates; requests for summaries are not counted.\<close>

theorem turn_runs_offered_tools:
  assumes "runAgentLoop e resolveMedia agent opts st = (st', out)"
  shows "\<exists>es. Events st' = Events st @ es \<and> only_offered {} es \<and> length (requests es) \<le> 3 * MaxIterations agent \<and>
    (\<forall>(ms, defs) \<in> set (requests es). speaks ms)"
proof -
  define st1 where "st1 = save_message e opts (text_message ''user'' (OptUserMessage opts)) (st\<lparr>Msgs := resolveMedia (build_messages e (Tick st)
      (sm_GetHistory (Sess st) (OptSessionKey opts)) (sm_GetSummary (Sess st) (OptSessionKey opts)) (OptUserMessage opts) (OptMedia opts))\<rparr>)"
  obtain st2 r where run: "runLLMIteration e agent opts st1 = (st2, r)" by fastforce
  from turn_rounds [OF run] obtain es ms where "grows opts st1 es ms st2" "iteration_log (MaxIterations agent) (failure r) es ms" by blast
  moreover from turn_end [OF assms st1_def run] obtain es' final where "adds opts st2 es' final st'" "\<forall>S. only_offered S es'" "requests es' = []"
    by blast
  moreover have "Events st1 = Events st" by (simp add: st1_def)
  ultimately show ?thesis
    by (intro exI [of _ "es @ es'"]) (auto simp: grows_def adds_def iteration_log_def split_beta)
qed

section \<open>A stop while tools run\<close>

lemma second_pass_append:
  "\<not> is_tool y \<Longrightarrow> second_pass (xs @ y # ys) = second_pass xs @ second_pass (y # ys)"
proof (induction xs rule: second_pass.induct)
  case (2 m ms)
  have "takeWhile is_tool (ms @ y # ys) = takeWhile is_tool ms"
    using 2(4) by (induction ms) auto
  moreover have "dropWhile is_tool (ms @ y # ys) = dropWhile is_tool ms @ y # ys"
    using 2(4) by (induction ms) auto
  ultimately show ?case
    using 2 by (auto simp: Let_def)
qed simp

lemma first_pass_append: "first_pass xs (ys @ zs) = first_pass (first_pass xs ys) zs"
  by (induction ys arbitrary: xs) simp_all

lemma sanitize_stopped:
  assumes "valid_history h" and r: "Role r = ''assistant''" "ToolCalls r = []"
  shows "sanitizeHistoryForProvider (h @ [r]) = h @ [r]"
    and "is_call_turn m \<Longrightarrow> sanitizeHistoryForProvider (h @ [m, r]) = h @ [r]"
proof -
  have h: "first_pass [] h = h" "second_pass h = h"
    using assms(1) valid_runs [of Other h] first_pass_id [of "[]" h] second_pass_id
    by (auto simp: valid_history_def may_call_def)
  have keep: "keep_message xs r" for xs by (simp add: keep_message_def r)
  have pass2: "second_pass (h @ [r]) = h @ [r]" "is_call_turn m \<Longrightarrow> second_pass (h @ [m, r]) = h @ [r]"
    using r by (auto simp: second_pass_append h is_tool_def is_call_turn_def neq_Nil_conv)
  show "sanitizeHistoryForProvider (h @ [r]) = h @ [r]"
    and "is_call_turn m \<Longrightarrow> sanitizeHistoryForProvider (h @ [m, r]) = h @ [r]"
    using pass2 by (simp_all add: sanitizeHistoryForProvider_def first_pass_append h keep)
qed

text \<open>A stop that comes while tools run makes the conversation forget that they ran: the calls are in the session
  without results, so the next request shows the history before the round and the reason of the stop, and nothing
  of the calls.\<close>

theorem stopped_tools_forgotten:
  assumes "tool_round e opts scope resp st = (st', Some (TurnStopped reason))" and "RespToolCalls resp \<noteq> []"
    and "valid_history (history opts st)"
  shows "sanitizeHistoryForProvider (history opts (fst (stop_run e opts reason st'))) =
    history opts st @ [text_message ''assistant'' (normalizeStopReason reason)]"
proof -
  let ?r = "text_message ''assistant'' (normalizeStopReason reason)"
  have r: "Role ?r = ''assistant''" "ToolCalls ?r = []" by (simp_all add: text_message_def)
  from tool_round_adds [OF assms(1,2)] obtain ms where ms: "history opts st' = history opts st @ ms"
    "ms = [] \<or> (\<exists>m. ms = [m] \<and> is_call_turn m)" by (auto simp: adds_def)
  with sanitize_stopped [OF assms(3) r] show ?thesis by (auto simp: stop_run_def)
qed

section \<open>A concrete turn\<close>

definition demo_call :: ToolCall where
  "demo_call = \<lparr>ID = ''c1'', CallType = ''function'', Function = None, Name = ''clock'', Arguments = []\<rparr>"

definition demo_usage :: "UsageInfo option" where
  "demo_usage = Some \<lparr>PromptTokens = 3, CompletionTokens = 1, TotalTokens = 4\<rparr>"

definition demo_reply :: "Message list \<Rightarrow> LLMResponse" where
  "demo_reply ms =
     (if list_ex is_tool ms
      then \<lparr>RespContent = ''It is noon.'', RespReasoning = [], RespToolCalls = [], RespUsage = demo_usage\<rparr>
      else \<lparr>RespContent = [], RespReasoning = [], RespToolCalls = [demo_call], RespUsage = demo_usage\<rparr>)"

definition demo_registry :: ToolRegistry where
  "demo_registry = the (Register NewToolRegistry (demo_tool ''clock''))"

definition demo_env :: "(nat \<Rightarrow> checkpoint_result) \<Rightarrow> turn_env" where
  "demo_env stops =
     \<lparr>answer = stops,
      attempts = \<lambda>n ms defs i. \<lparr>canceled_before = False, t_check = 0, t_remaining = 0,
        run_outcome = \<lambda>p m. Inl (demo_reply ms), elapsed = 0, canceled_after = False, t_fail = 0\<rparr>,
      run_tool = \<lambda>n i t args. NewToolResult ''12:00'', summarizer = \<lambda>n m c p a. LLMError, prompts = \<lambda>n. (''s'', ''d'', []), registry = \<lambda>n. demo_registry,
      cache_analysis_ok = \<lambda>n. True, clock = int, chain_text = \<lambda>err. [],
      request_signature = \<lambda>ms m d f. [], toolset_hash = \<lambda>ds. [], marshal_args = \<lambda>a. ''{}'',
      parse_args = \<lambda>t. None, parse_bundle = \<lambda>t. None, quote_name = \<lambda>n. n\<rparr>"

definition demo_turn_agent :: turn_agent where
  "demo_turn_agent = \<lparr>TurnAgentID = ''main'', MaxIterations = 5, TurnModel = ''m'',
     TurnCandidates = [\<lparr>CandProvider = ''p'', CandModel = ''m''\<rparr>], TurnRouter = None, LightCandidates = [],
     TurnLimits = \<lparr>AgentWindow = 100000, AgentMaxTokens = 1000, AgentGuard = zero_guard\<lparr>DebugDump := True\<rparr>,
       CandidateWindows = []\<rparr>,
     SupportsVision = None, ThinkingLevel = ''off'',
     SummaryLimits = \<lparr>SummarizeTokenPercent = 75, SummarizeMessageThreshold = 20\<rparr>\<rparr>"

definition demo_options :: processOptions where
  "demo_options = \<lparr>OptSessionKey = ''k'', OptChannel = ''telegram'', OptUserMessage = ''What time is it?'', OptMedia = [],
     OptDefaultResponse = ''Done.'', OptSendResponse = True, OptMaxTokens = 0, OptModelOverride = [],
     OptTrackRunControl = True, OptEnableSummary = True\<rparr>"

definition demo_state :: turn_state where
  "demo_state = \<lparr>Sess = \<lparr>sessions = Map.empty, storage = []\<rparr>, Msgs = [], Tracker = NewCooldownTracker,
     Counters = \<lparr>compactionTriggered = 0, compactionStageFail = 0, contextBudgetUnfit = 0\<rparr>, SchemaCache = [],
     Topology = None, Summarizing = {}, Events = [], Tick = 0\<rparr>"


theorem turn_recorded_witness:
  "\<exists>st' out rounds calls final dropped. runAgentLoop (demo_env (\<lambda>_. Proceed)) id demo_turn_agent demo_options demo_state = (st', out) \<and>
    text_message ''user'' ''What time is it?'' # concat rounds @ calls @ final = dropped @ history demo_options st' \<and>
    length rounds \<le> 5 \<and> list_all complete_round rounds"
proof -
  obtain st' out where run: "runAgentLoop (demo_env (\<lambda>_. Proceed)) id demo_turn_agent demo_options demo_state = (st', out)" by fastforce
  have "history demo_options demo_state = []"
    by (simp add: history_def demo_state_def sm_GetHistory_def)
  moreover have "OptUserMessage demo_options = ''What time is it?''" "MaxIterations demo_turn_agent = 5"
    by (simp_all add: demo_options_def demo_turn_agent_def)
  moreover from turn_recorded [OF run] obtain rounds calls final dropped where
    "history demo_options demo_state @ text_message ''user'' (OptUserMessage demo_options) # concat rounds @ calls @ final =
       dropped @ history demo_options st'"
    "length rounds \<le> MaxIterations demo_turn_agent" "list_all complete_round rounds" by blast
  ultimately show ?thesis
    using run by (intro exI [of _ st'] exI [of _ out] exI [of _ rounds] exI [of _ calls] exI [of _ final] exI [of _ dropped]) simp
qed

theorem turn_runs_offered_tools_witness:
  "\<exists>st' out. runAgentLoop (demo_env (\<lambda>_. Proceed)) id demo_turn_agent demo_options demo_state = (st', out) \<and>
    only_offered {} (Events st') \<and> length (requests (Events st')) \<le> 15"
proof -
  obtain st' out where run: "runAgentLoop (demo_env (\<lambda>_. Proceed)) id demo_turn_agent demo_options
      demo_state = (st', out)" by fastforce
  have "Events demo_state = []" "MaxIterations demo_turn_agent = 5"
    by (simp_all add: demo_state_def demo_turn_agent_def)
  with turn_runs_offered_tools [OF run] run show ?thesis by auto
qed

text \<open>The tool runs, then the stop is seen.\<close>

definition demo_scope :: tool_scope where
  "demo_scope = \<lparr>ValidDiscovered = [], HiddenNames = {}, Exposed = [the (ToolToSchema (demo_tool ''clock''))]\<rparr>"

lemma demo_exposed: "''clock'' \<in> toolDefinitionNameSet (Exposed demo_scope)"
proof -
  have "ValidateToolContract (demo_tool ''clock'')" "TrimSpace ''clock'' = ''clock''" by code_simp+
  then show ?thesis
    by (simp add: toolDefinitionNameSet_def demo_scope_def ToolToSchema_def demo_tool_def)
qed

definition stop_env :: turn_env where
  "stop_env = demo_env (\<lambda>n. if n = 2 then RunCancelled ''stop'' else Proceed)"

lemma demo_round:
  "\<exists>st'. tool_round stop_env demo_options demo_scope (demo_reply []) demo_state = (st', Some (TurnStopped ''stop'')) \<and>
     Ran (NormalizeToolCall stop_env demo_call) \<in> set (Events st')"
proof -
  have "RespToolCalls (demo_reply []) = [demo_call]" "Name (NormalizeToolCall stop_env demo_call) = ''clock''"
    "Tick demo_state = 0" "OptTrackRunControl demo_options"
    "answer stop_env n = (if n = 2 then RunCancelled ''stop'' else Proceed)" for n
    by (simp_all add: demo_reply_def NormalizeToolCall_def demo_call_def demo_state_def demo_options_def stop_env_def
        demo_env_def Let_def)
  then show ?thesis
    using demo_exposed
    by (simp add: tool_round_def Let_def checkpoint_def tick_def emit_def save_message_def execute_call_def)
qed

theorem stopped_tools_forgotten_witness:
  "\<exists>st'. tool_round stop_env demo_options demo_scope (demo_reply []) demo_state = (st', Some (TurnStopped ''stop'')) \<and>
     Ran (NormalizeToolCall stop_env demo_call) \<in> set (Events st') \<and>
     sanitizeHistoryForProvider (history demo_options (fst (stop_run stop_env demo_options ''stop'' st'))) =
       [text_message ''assistant'' (normalizeStopReason ''stop'')]"
proof -
  obtain st' where run: "tool_round stop_env demo_options demo_scope (demo_reply []) demo_state = (st', Some (TurnStopped ''stop''))"
    and ran: "Ran (NormalizeToolCall stop_env demo_call) \<in> set (Events st')"
    using demo_round by blast
  have "RespToolCalls (demo_reply []) \<noteq> []" "history demo_options demo_state = []"
    by (simp_all add: demo_reply_def history_def demo_state_def sm_GetHistory_def)
  then have "RespToolCalls (demo_reply []) \<noteq> []" "valid_history (history demo_options demo_state)"
    by (simp_all add: valid_history_def)
  from stopped_tools_forgotten [OF run this] \<open>history demo_options demo_state = []\<close> run ran show ?thesis by auto
qed

end
