(* ===== verification/Paths.thy ===== *)
theory Paths
  imports Prelude
begin

text \<open>
  The functions of Go's \<open>path/filepath\<close> on Unix that the tools use, and a file system with symbolic links. A path
  is handled as its components; \<open>Clean\<close> and the functions built on it work on strings as in Go.
\<close>

section \<open>Components\<close>

abbreviation slash :: char where "slash \<equiv> CHR ''/''"

fun split_at :: "char \<Rightarrow> string \<Rightarrow> string list" where
  "split_at sep [] = [[]]"
| "split_at sep (c # s) =
     (if c = sep then [] # split_at sep s
      else case split_at sep s of [] \<Rightarrow> [[c]] | x # xs \<Rightarrow> (c # x) # xs)"

definition elements :: "string \<Rightarrow> string list" where
  "elements s = filter (\<lambda>c. c \<noteq> [] \<and> c \<noteq> ''.'') (split_at slash s)"

fun join_with :: "char \<Rightarrow> string list \<Rightarrow> string" where
  "join_with sep [] = []"
| "join_with sep [s] = s"
| "join_with sep (s # t # r) = s @ sep # join_with sep (t # r)"

definition is_abs :: "string \<Rightarrow> bool" where
  "is_abs s \<longleftrightarrow> s \<noteq> [] \<and> hd s = slash"

text \<open>Resolving \<open>..\<close>: the stack is in reverse; above the root there is nothing.\<close>

fun resolve_dots :: "bool \<Rightarrow> string list \<Rightarrow> string list \<Rightarrow> string list" where
  "resolve_dots rooted acc [] = rev acc"
| "resolve_dots rooted acc (c # cs) =
     (if c = ''..'' then
        (case acc of
           [] \<Rightarrow> resolve_dots rooted (if rooted then [] else [''..'']) cs
         | a # as \<Rightarrow> resolve_dots rooted (if a = ''..'' then ''..'' # acc else as) cs)
      else resolve_dots rooted (c # acc) cs)"

definition comps :: "string \<Rightarrow> string list" where
  "comps s = resolve_dots (is_abs s) [] (elements s)"

definition unparse :: "bool \<Rightarrow> string list \<Rightarrow> string" where
  "unparse rooted cs = (if rooted then slash # join_with slash cs else if cs = [] then ''.'' else join_with slash cs)"

definition Clean :: "string \<Rightarrow> string" where
  "Clean s = (if s = [] then ''.'' else unparse (is_abs s) (comps s))"

definition Join_paths :: "string \<Rightarrow> string \<Rightarrow> string" where
  "Join_paths a b = (if a = [] \<and> b = [] then [] else if a = [] then Clean b else Clean (a @ slash # b))"

text \<open>\<open>filepath.Abs\<close> in the working directory \<open>cwd\<close>.\<close>

definition Abs_path :: "string \<Rightarrow> string \<Rightarrow> string" where
  "Abs_path cwd s = (if is_abs s then Clean s else Join_paths cwd s)"

definition Dir_of :: "string \<Rightarrow> string" where
  "Dir_of s = Clean (rev (dropWhile (\<lambda>c. c \<noteq> slash) (rev s)))"

fun strip_common :: "string list \<Rightarrow> string list \<Rightarrow> string list \<times> string list" where
  "strip_common (b # bs) (t # ts) = (if b = t then strip_common bs ts else (b # bs, t # ts))"
| "strip_common bs ts = (bs, ts)"

definition Rel :: "string \<Rightarrow> string \<Rightarrow> string option" where
  "Rel basepath targpath =
     (let base = Clean basepath; targ = Clean targpath in
      if targ = base then Some ''.''
      else if is_abs base \<noteq> is_abs targ then None
      else
        let (bs, ts) = strip_common (comps base)
              (if targ = ''.'' then [''.''] else comps targ)
        in case bs of
             [] \<Rightarrow> Some (join_with slash ts)
           | b # _ \<Rightarrow> if b = ''..'' then None
               else Some (join_with slash (replicate (length bs) ''..'' @ ts)))"

definition IsLocal :: "string \<Rightarrow> bool" where
  "IsLocal s \<longleftrightarrow> s \<noteq> [] \<and> \<not> is_abs s \<and> Clean s \<noteq> ''..'' \<and> \<not> HasPrefix (Clean s) ''../''"

section \<open>Cleaned paths\<close>

text \<open>A normal component, and a normal list of components.\<close>

definition name_ok :: "string \<Rightarrow> bool" where
  "name_ok c \<longleftrightarrow> c \<noteq> [] \<and> c \<noteq> ''.'' \<and> slash \<notin> set c"

definition normal :: "bool \<Rightarrow> string list \<Rightarrow> bool" where
  "normal rooted cs \<longleftrightarrow> list_all name_ok cs \<and>
     (\<exists>k ds. cs = replicate k ''..'' @ ds \<and> ''..'' \<notin> set ds \<and> (rooted \<longrightarrow> k = 0))"

lemma split_at_no_sep: "c \<in> set (split_at sep s) \<Longrightarrow> sep \<notin> set c"
  by (induction s arbitrary: c) (auto split: if_splits list.splits)

lemma split_at_nonempty: "split_at sep s \<noteq> []"
  by (cases s) (auto split: list.splits)

lemma split_at_plain: "sep \<notin> set s \<Longrightarrow> split_at sep s = [s]"
  by (induction s) auto

lemma split_at_append: "sep \<notin> set s \<Longrightarrow> split_at sep (s @ sep # t) = s # split_at sep t"
  by (induction s) auto

lemma split_join: "cs \<noteq> [] \<Longrightarrow> \<forall>c \<in> set cs. sep \<notin> set c \<Longrightarrow> split_at sep (join_with sep cs) = cs"
  by (induction sep cs rule: join_with.induct) (auto simp: split_at_plain split_at_append)

lemma elements_ok: "list_all name_ok (elements s)"
  using split_at_no_sep by (force simp: elements_def list_all_iff name_ok_def)

lemma elements_join: "list_all name_ok cs \<Longrightarrow> elements (join_with slash cs) = cs"
  and elements_rooted: "list_all name_ok cs \<Longrightarrow> elements (slash # join_with slash cs) = cs"
proof -
  assume ok: "list_all name_ok cs"
  have "filter (\<lambda>c. c \<noteq> [] \<and> c \<noteq> ''.'') cs = cs"
    using ok by (auto simp: list_all_iff name_ok_def filter_id_conv)
  moreover have "split_at slash (join_with slash cs) = cs" if "cs \<noteq> []"
    using ok that by (intro split_join) (auto simp: list_all_iff name_ok_def)
  ultimately show "elements (join_with slash cs) = cs"
    by (cases "cs = []") (auto simp: elements_def)
  then show "elements (slash # join_with slash cs) = cs" by (simp add: elements_def)
qed

lemma resolve_normal:
  "list_all name_ok (rev acc @ cs) \<Longrightarrow> normal rooted (rev acc) \<Longrightarrow> normal rooted (resolve_dots rooted acc cs)"
proof (induction rooted acc cs rule: resolve_dots.induct)
  case (2 rooted acc c cs)
  show ?case
  proof (cases "c = ''..''")
    case False
    from 2(5) obtain k ds where "rev acc = replicate k ''..'' @ ds" "''..'' \<notin> set ds" "rooted \<longrightarrow> k = 0"
      by (auto simp: normal_def)
    then have "\<exists>k ds. rev (c # acc) = replicate k ''..'' @ ds \<and> ''..'' \<notin> set ds \<and> (rooted \<longrightarrow> k = 0)"
      using False by (intro exI [of _ k] exI [of _ "ds @ [c]"]) auto
    then have "normal rooted (rev (c # acc))"
      using 2(4) by (simp add: normal_def)
    with 2(3,4) False show ?thesis by simp
  next
    case True
    show ?thesis
    proof (cases acc)
      case Nil
      have "normal rooted (rev (if rooted then [] else [''..'']))"
        by (auto simp: normal_def name_ok_def intro!: exI [of _ 1])
      with 2(1,4) True Nil show ?thesis by (simp split: if_splits)
    next
      case (Cons a as)
      from 2(5) obtain k ds where ds: "rev acc = replicate k ''..'' @ ds" "''..'' \<notin> set ds" "rooted \<longrightarrow> k = 0"
        by (auto simp: normal_def)
      have "normal rooted (rev (if a = ''..'' then ''..'' # acc else as))"
      proof (cases "a = ''..''")
        case True
        with ds Cons have "ds = []" by (cases ds rule: rev_cases) auto
        moreover from this ds Cons have "\<not> rooted" by auto
        ultimately show ?thesis
          using ds(1) 2(4) \<open>c = ''..''\<close> True
          by (auto simp: normal_def list_all_iff replicate_append_same [symmetric] intro!: exI [of _ "Suc k"] exI [of _ "[]"])
      next
        case False
        have "ds \<noteq> []"
        proof
          assume "ds = []"
          with ds(1) Cons have "set (rev as @ [a]) = set (replicate k ''..'')" by simp
          with False show False by (auto split: if_splits)
        qed
        then obtain ds' where "ds = ds' @ [a]"
          using ds(1) Cons by (cases ds rule: rev_cases) auto
        with ds Cons False 2(4) show ?thesis
          by (auto simp: normal_def intro!: exI [of _ k] exI [of _ ds'])
      qed
      with 2(2,4) True Cons show ?thesis by (auto split: if_splits)
    qed
  qed
qed simp

lemma normal_comps: "normal (is_abs s) (comps s)"
  unfolding comps_def using elements_ok
  by (intro resolve_normal) (auto simp: normal_def)

lemma resolve_id: "normal rooted cs \<Longrightarrow> resolve_dots rooted [] cs = cs"
proof -
  assume "normal rooted cs"
  then obtain k ds where ds: "cs = replicate k ''..'' @ ds" "''..'' \<notin> set ds" "rooted \<longrightarrow> k = 0"
    by (auto simp: normal_def)
  have plain: "resolve_dots r acc ds = rev acc @ ds" for r acc
    using ds(2) by (induction ds arbitrary: acc) auto
  have "\<not> rooted \<Longrightarrow> resolve_dots rooted (replicate j ''..'') (replicate k ''..'' @ ds) = replicate (j + k) ''..'' @ ds" for j
  proof (induction k arbitrary: j)
    case (Suc k)
    then show ?case using Suc.IH [of "Suc j"] by (cases j) simp_all
  qed (simp add: plain)
  from this [of 0] ds plain [of rooted "[]"] show ?thesis by (cases rooted) auto
qed

lemma is_abs_unparse: "list_all name_ok cs \<Longrightarrow> is_abs (unparse rooted cs) = rooted"
proof -
  assume "list_all name_ok cs"
  then have "hd (join_with slash cs) \<noteq> slash" if "cs \<noteq> []"
    using that by (cases cs; cases "tl cs") (auto simp: name_ok_def neq_Nil_conv)
  then show ?thesis by (auto simp: unparse_def is_abs_def)
qed

lemma comps_unparse: "normal rooted cs \<Longrightarrow> comps (unparse rooted cs) = cs"
proof -
  assume n: "normal rooted cs"
  then have ok: "list_all name_ok cs" by (simp add: normal_def)
  then have "elements (unparse rooted cs) = cs"
    using elements_join elements_rooted by (auto simp: unparse_def elements_def)
  then show ?thesis by (simp add: comps_def is_abs_unparse [OF ok] resolve_id [OF n])
qed

lemma is_abs_Clean [simp]: "is_abs (Clean s) = is_abs s"
  using normal_comps [of s] by (auto simp: Clean_def is_abs_unparse normal_def) (simp_all add: is_abs_def)

lemma comps_Clean [simp]: "comps (Clean s) = comps s"
proof (cases "s = []")
  case False
  then show ?thesis using comps_unparse [OF normal_comps [of s]] by (simp add: Clean_def)
qed (simp add: Clean_def comps_def elements_def is_abs_def)

lemma join_nonempty: "list_all name_ok cs \<Longrightarrow> cs \<noteq> [] \<Longrightarrow> join_with sep cs \<noteq> []"
  by (cases "(sep, cs)" rule: join_with.cases) (auto simp: name_ok_def)

lemma Clean_nonempty [simp]: "Clean s \<noteq> []"
  using normal_comps [of s] join_nonempty [of "comps s"] by (auto simp: Clean_def unparse_def normal_def)

lemma Clean_idem [simp]: "Clean (Clean s) = Clean s"
  by (cases "s = []") (simp_all add: Clean_def [of "Clean s"], simp_all add: Clean_def comps_def elements_def is_abs_def unparse_def)

lemma Clean_eq_iff: "is_abs s \<Longrightarrow> is_abs t \<Longrightarrow> Clean s = Clean t \<longleftrightarrow> comps s = comps t"
  by (rule iffI, metis comps_Clean) (auto simp: Clean_def is_abs_def)

lemma abs_no_dots: "is_abs s \<Longrightarrow> ''..'' \<notin> set (comps s)"
  using normal_comps [of s] by (auto simp: normal_def)

end
