(* ===== verification/Sandbox.thy ===== *)
theory Sandbox
  imports Paths ToolResults Runes
begin

text \<open>
  The file tools of an agent: the path checks and the file systems of \<open>pkg/tools/filesystem.go\<close> and the edits of
  \<open>pkg/tools/edit.go\<close>. The operating system's file system is a map from component lists to nodes; \<open>walk\<close> follows a
  path through its symbolic links, from the root of the file system or, confined as \<open>os.Root\<close> does it, from a
  directory that no step may leave. Regular expressions of the configuration are predicates with their source text.
\<close>

section \<open>A file system with links\<close>

datatype node = DirNode | FileNode string | LinkNode string

type_synonym filesystem = "string list \<Rightarrow> node option"

datatype fs_error = NotExist | NotDir | IsDirectory | TooManyLinks | EscapesRoot | WriteFailed

function walk ::
  "filesystem \<Rightarrow> bool \<Rightarrow> string list \<Rightarrow> nat \<Rightarrow> string list \<Rightarrow> string list \<Rightarrow> fs_error + string list" where
  "walk fs confined root n dir [] = Inr dir"
| "walk fs confined root n dir (c # cs) =
     (if c = ''..'' then
        (if dir = [] \<and> confined then Inl EscapesRoot else walk fs confined root n (butlast dir) cs)
      else
        (case fs (root @ dir @ [c]) of
           None \<Rightarrow> Inl NotExist
         | Some DirNode \<Rightarrow> walk fs confined root n (dir @ [c]) cs
         | Some (FileNode data) \<Rightarrow> if cs = [] then Inr (dir @ [c]) else Inl NotDir
         | Some (LinkNode target) \<Rightarrow>
             (case n of
                0 \<Rightarrow> Inl TooManyLinks
              | Suc m \<Rightarrow>
                  if is_abs target then
                    (if confined then Inl EscapesRoot else walk fs confined root m [] (elements target @ cs))
                  else walk fs confined root m dir (elements target @ cs))))"
  by pat_completeness auto
termination
  by (relation "measures [\<lambda>(fs, b, r, n, d, cs). n, \<lambda>(fs, b, r, n, d, cs). length cs]") auto

text \<open>\<open>EvalSymlinks\<close> follows 255 links, the system call that opens a path 40, and \<open>os.Root\<close> 8.\<close>

definition maxLinks :: nat where "maxLinks = 255"
definition kernelMaxLinks :: nat where "kernelMaxLinks = 40"
definition rootMaxLinks :: nat where "rootMaxLinks = 8"

definition eval_links :: "filesystem \<Rightarrow> string list \<Rightarrow> fs_error + string list" where
  "eval_links fs cs = walk fs False [] maxLinks [] cs"

text \<open>\<open>filepath.EvalSymlinks\<close> of an absolute path.\<close>

definition EvalSymlinks :: "filesystem \<Rightarrow> string \<Rightarrow> fs_error + string" where
  "EvalSymlinks fs path = (case eval_links fs (comps path) of Inl e \<Rightarrow> Inl e | Inr q \<Rightarrow> Inr (unparse True q))"

section \<open>Path checks\<close>

definition isWithinWorkspace :: "string \<Rightarrow> string \<Rightarrow> bool" where
  "isWithinWorkspace candidate workspace =
     (case Rel (Clean workspace) (Clean candidate) of
        None \<Rightarrow> False
      | Some rel \<Rightarrow> rel = ''.'' \<or> IsLocal rel)"

function resolve_ancestor :: "filesystem \<Rightarrow> string list \<Rightarrow> fs_error + string list" where
  "resolve_ancestor fs cs =
     (case eval_links fs cs of
        Inr q \<Rightarrow> Inr q
      | Inl e \<Rightarrow> if e \<noteq> NotExist then Inl e else if cs = [] then Inl NotExist else resolve_ancestor fs (butlast cs))"
  by pat_completeness auto
termination by (relation "measure (length \<circ> snd)") auto

declare resolve_ancestor.simps [simp del]

definition resolveExistingAncestor :: "filesystem \<Rightarrow> string \<Rightarrow> fs_error + string" where
  "resolveExistingAncestor fs path =
     (case resolve_ancestor fs (comps path) of Inl e \<Rightarrow> Inl e | Inr q \<Rightarrow> Inr (unparse True q))"

function resolve_against :: "filesystem \<Rightarrow> string list \<Rightarrow> string list \<Rightarrow> fs_error + string list" where
  "resolve_against fs cs rest =
     (case eval_links fs cs of
        Inr q \<Rightarrow> Inr (q @ rest)
      | Inl e \<Rightarrow>
          if e \<noteq> NotExist then Inl e
          else if cs = [] then Inl NotExist
          else resolve_against fs (butlast cs) (last cs # rest))"
  by pat_completeness auto
termination by (relation "measure (length \<circ> fst \<circ> snd)") auto

declare resolve_against.simps [simp del]

definition resolvePathAgainstExistingAncestor :: "filesystem \<Rightarrow> string \<Rightarrow> fs_error + string" where
  "resolvePathAgainstExistingAncestor fs path =
     (case resolve_against fs (comps path) [] of Inl e \<Rightarrow> Inl e | Inr q \<Rightarrow> Inr (unparse True q))"

record allow_pattern =
  PatternText :: string
  PatternMatches :: "string \<Rightarrow> bool"

definition HasSuffix :: "string \<Rightarrow> string \<Rightarrow> bool" where
  "HasSuffix s suf \<longleftrightarrow> HasPrefix (rev s) (rev suf)"

definition TrimSuffix :: "string \<Rightarrow> string \<Rightarrow> string" where
  "TrimSuffix s suf = (if HasSuffix s suf then take (length s - length suf) s else s)"

abbreviation backslash :: char where "backslash \<equiv> CHR 0x5C"

fun meta_from :: "bool \<Rightarrow> string \<Rightarrow> bool" where
  "meta_from escaped [] = escaped"
| "meta_from escaped (c # s) =
     (if escaped then meta_from False s
      else if c = backslash then meta_from True s
      else if c \<in> set ''.+*?()[]{}|'' then True
      else meta_from False s)"

definition containsUnescapedRegexMeta :: "string \<Rightarrow> bool" where
  "containsUnescapedRegexMeta s = meta_from False s"

fun unescape_from :: "bool \<Rightarrow> string \<Rightarrow> string option" where
  "unescape_from escaped [] = (if escaped then None else Some [])"
| "unescape_from escaped (c # s) =
     (if escaped then map_option (Cons c) (unescape_from False s)
      else if c = backslash then unescape_from True s
      else map_option (Cons c) (unescape_from False s))"

definition unescapeRegexLiteral :: "string \<Rightarrow> string option" where
  "unescapeRegexLiteral s = unescape_from False s"

definition extractAllowedPathRoot :: "allow_pattern \<Rightarrow> string option" where
  "extractAllowedPathRoot pattern =
     (let raw = PatternText pattern in
      if \<not> HasPrefix raw ''^'' then None
      else
        let literal = TrimSuffix (TrimSuffix (TrimPrefix raw ''^'') ''(?:/|$)'')
              (''(?:'' @ [backslash, backslash] @ ''|$)'') in
        if containsUnescapedRegexMeta literal then None
        else
          (case unescapeRegexLiteral literal of
             None \<Rightarrow> None
           | Some u \<Rightarrow> if u = [] \<or> \<not> is_abs u then None else Some (Clean u)))"

definition isWithinAllowedRoot :: "filesystem \<Rightarrow> string \<Rightarrow> string \<Rightarrow> bool" where
  "isWithinAllowedRoot fs path root =
     (let candidate = Clean path;
          variants = Clean root #
            (case resolvePathAgainstExistingAncestor fs root of Inr r \<Rightarrow> [Clean r] | Inl _ \<Rightarrow> [])
      in list_ex (isWithinWorkspace candidate) variants)"

definition matchesAllowedPath :: "filesystem \<Rightarrow> allow_pattern list \<Rightarrow> string \<Rightarrow> bool" where
  "matchesAllowedPath fs patterns path =
     (let cleaned = Clean path in
      list_ex (\<lambda>p. PatternMatches p cleaned \<or>
        (case extractAllowedPathRoot p of Some root \<Rightarrow> isWithinAllowedRoot fs cleaned root | None \<Rightarrow> False)) patterns)"

definition isAllowedPath :: "filesystem \<Rightarrow> allow_pattern list \<Rightarrow> string \<Rightarrow> bool" where
  "isAllowedPath fs patterns path =
     (if patterns = [] then False
      else
        let cleaned = Clean path in
        if \<not> is_abs cleaned then False
        else if \<not> matchesAllowedPath fs patterns cleaned then False
        else
          (case resolvePathAgainstExistingAncestor fs cleaned of
             Inl _ \<Rightarrow> False
           | Inr resolved \<Rightarrow> matchesAllowedPath fs patterns resolved))"

datatype path_error = NoWorkspace | OutsideWorkspace | LinkOutsideWorkspace | CannotResolve fs_error

definition validatePathWithAllowPaths ::
  "filesystem \<Rightarrow> string \<Rightarrow> string \<Rightarrow> string \<Rightarrow> bool \<Rightarrow> allow_pattern list \<Rightarrow> path_error + string" where
  "validatePathWithAllowPaths fs cwd path workspace restrict patterns =
     (if workspace = [] then Inl NoWorkspace
      else
        let absWorkspace = Abs_path cwd workspace;
            absPath = (if is_abs path then Clean path else Abs_path cwd (Join_paths absWorkspace path)) in
        if \<not> restrict then Inr absPath
        else if isAllowedPath fs patterns absPath then Inr absPath
        else if \<not> isWithinWorkspace absPath absWorkspace then Inl OutsideWorkspace
        else
          let workspaceReal = (case EvalSymlinks fs absWorkspace of Inr r \<Rightarrow> r | Inl _ \<Rightarrow> absWorkspace) in
          (case EvalSymlinks fs absPath of
             Inr resolved \<Rightarrow>
               if isWithinWorkspace resolved workspaceReal then Inr absPath else Inl LinkOutsideWorkspace
           | Inl e \<Rightarrow>
               if e \<noteq> NotExist then Inl (CannotResolve e)
               else
                 (case resolveExistingAncestor fs (Dir_of absPath) of
                    Inr parent \<Rightarrow>
                      if isWithinWorkspace parent workspaceReal then Inr absPath else Inl LinkOutsideWorkspace
                  | Inl e' \<Rightarrow> if e' \<noteq> NotExist then Inl (CannotResolve e') else Inr absPath)))"

section \<open>The sandboxed file system\<close>

text \<open>\<open>os.Root\<close> operations on components below \<open>root\<close>.\<close>

definition getSafeRelPath :: "string \<Rightarrow> string \<Rightarrow> string option" where
  "getSafeRelPath workspace path =
     (if workspace = [] then None
      else
        let cleaned = Clean path;
            rel = (if is_abs cleaned then Rel workspace cleaned else Some cleaned)
        in case rel of None \<Rightarrow> None | Some r \<Rightarrow> if IsLocal r then Some r else None)"

definition root_read :: "filesystem \<Rightarrow> string list \<Rightarrow> string list \<Rightarrow> fs_error + string" where
  "root_read fs root cs =
     (case walk fs True root rootMaxLinks [] cs of
        Inl e \<Rightarrow> Inl e
      | Inr dir \<Rightarrow>
          (case fs (root @ dir) of
             Some (FileNode data) \<Rightarrow> Inr data
           | Some DirNode \<Rightarrow> Inl IsDirectory
           | _ \<Rightarrow> Inl NotExist))"

text \<open>Like \<open>walk\<close>, but a missing directory is made; a link as the last component has to lead to a directory.\<close>

function mkdir_walk ::
  "filesystem \<Rightarrow> string list \<Rightarrow> nat \<Rightarrow> string list \<Rightarrow> string list \<Rightarrow> filesystem \<times> (fs_error + string list)" where
  "mkdir_walk fs root n dir [] = (fs, Inr dir)"
| "mkdir_walk fs root n dir (c # cs) =
     (if c = ''..'' then
        (if dir = [] then (fs, Inl EscapesRoot) else mkdir_walk fs root n (butlast dir) cs)
      else
        (case fs (root @ dir @ [c]) of
           None \<Rightarrow> mkdir_walk (fs(root @ dir @ [c] \<mapsto> DirNode)) root n (dir @ [c]) cs
         | Some DirNode \<Rightarrow> mkdir_walk fs root n (dir @ [c]) cs
         | Some (FileNode data) \<Rightarrow> (fs, Inl NotDir)
         | Some (LinkNode target) \<Rightarrow>
             if cs = [] then
               (case walk fs True root n dir [c] of
                  Inr q \<Rightarrow> (fs, if q = [] \<or> fs (root @ q) = Some DirNode then Inr q else Inl NotDir)
                | Inl _ \<Rightarrow> (fs, Inl NotDir))
             else
               (case n of
                  0 \<Rightarrow> (fs, Inl TooManyLinks)
                | Suc m \<Rightarrow>
                    if is_abs target then (fs, Inl EscapesRoot)
                    else mkdir_walk fs root m dir (elements target @ cs))))"
  by pat_completeness auto
termination
  by (relation "measures [\<lambda>(fs, r, n, d, cs). n, \<lambda>(fs, r, n, d, cs). length cs]") auto

text \<open>Writing: the parents are made, the data goes to a temporary file in the root (with a name of its own), which is
  renamed over the target. When a step fails the temporary file is removed again. \<open>io_ok\<close> says whether
  the steps on the temporary file succeed.\<close>

definition root_write ::
  "filesystem \<Rightarrow> string list \<Rightarrow> string list \<Rightarrow> string \<Rightarrow> bool \<Rightarrow> filesystem \<times> (fs_error + unit)" where
  "root_write fs root cs data io_ok =
     (let dir = butlast cs;
          (fs1, made) = (if dir = [] then (fs, Inr []) else mkdir_walk fs root rootMaxLinks [] dir)
      in case made of
           Inl e \<Rightarrow> (fs1, Inl e)
         | Inr _ \<Rightarrow>
             if \<not> io_ok then (fs1, Inl WriteFailed)
             else
               (case walk fs1 True root rootMaxLinks [] dir of
                  Inl e \<Rightarrow> (fs1, Inl e)
                | Inr parent \<Rightarrow>
                    if cs = [] \<or> last cs = ''..'' \<or> fs1 (root @ parent @ [last cs]) = Some DirNode
                    then (fs1, Inl IsDirectory)
                    else (fs1(root @ parent @ [last cs] \<mapsto> FileNode data), Inr ())))"

text \<open>\<open>sandboxFs\<close>: the workspace is opened as the root, following links.\<close>

datatype sandbox_error = NoRoot | EscapesWorkspace | RootError fs_error

definition sandbox_root :: "filesystem \<Rightarrow> string \<Rightarrow> string list option" where
  "sandbox_root fs workspace =
     (if workspace = [] then None
      else
        (case walk fs False [] kernelMaxLinks [] (comps workspace) of
           Inr r \<Rightarrow> if r = [] \<or> fs r = Some DirNode then Some r else None
         | Inl _ \<Rightarrow> None))"

definition sandbox_ReadFile :: "filesystem \<Rightarrow> string \<Rightarrow> string \<Rightarrow> sandbox_error + string" where
  "sandbox_ReadFile fs workspace path =
     (case sandbox_root fs workspace of
        None \<Rightarrow> Inl NoRoot
      | Some root \<Rightarrow>
          (case getSafeRelPath workspace path of
             None \<Rightarrow> Inl EscapesWorkspace
           | Some rel \<Rightarrow> (case root_read fs root (comps rel) of Inl e \<Rightarrow> Inl (RootError e) | Inr d \<Rightarrow> Inr d)))"

definition sandbox_WriteFile ::
  "filesystem \<Rightarrow> string \<Rightarrow> string \<Rightarrow> string \<Rightarrow> bool \<Rightarrow> filesystem \<times> (sandbox_error + unit)" where
  "sandbox_WriteFile fs workspace path data io_ok =
     (case sandbox_root fs workspace of
        None \<Rightarrow> (fs, Inl NoRoot)
      | Some root \<Rightarrow>
          (case getSafeRelPath workspace path of
             None \<Rightarrow> (fs, Inl EscapesWorkspace)
           | Some rel \<Rightarrow>
               (let (fs', r) = root_write fs root (comps rel) data io_ok
                in (fs', case r of Inl e \<Rightarrow> Inl (RootError e) | Inr u \<Rightarrow> Inr u))))"

section \<open>Edits\<close>

datatype 'e edit_error = TextNotFound | TextNotUnique nat | EditIO 'e

text \<open>\<open>strings.Count\<close> and \<open>strings.Replace\<close> with \<open>n = 1\<close>.\<close>

definition Count :: "string \<Rightarrow> string \<Rightarrow> nat" where
  "Count s sub = (if sub = [] then Suc (length (runes s)) else CountSub s sub)"

definition Replace_first :: "string \<Rightarrow> string \<Rightarrow> string \<Rightarrow> string" where
  "Replace_first s old new =
     (case Index s old of None \<Rightarrow> s | Some i \<Rightarrow> take i s @ new @ drop (i + length old) s)"

definition replaceEditContent :: "string \<Rightarrow> string \<Rightarrow> string \<Rightarrow> 'e edit_error + string" where
  "replaceEditContent content oldText newText =
     (if \<not> Contains content oldText then Inl TextNotFound
      else if 1 < Count content oldText then Inl (TextNotUnique (Count content oldText))
      else Inr (Replace_first content oldText newText))"

text \<open>\<open>editFile\<close> and \<open>appendFile\<close> work on the interface \<open>fileSystem\<close>: its \<open>ReadFile\<close> and \<open>WriteFile\<close> are arguments, and its state is
  handed through. \<open>missing\<close> says which errors are \<open>fs.ErrNotExist\<close>.\<close>

definition editFile ::
  "('s \<Rightarrow> string \<Rightarrow> 'e + string) \<Rightarrow> ('s \<Rightarrow> string \<Rightarrow> string \<Rightarrow> bool \<Rightarrow> 's \<times> ('e + unit)) \<Rightarrow>
   's \<Rightarrow> string \<Rightarrow> string \<Rightarrow> string \<Rightarrow> bool \<Rightarrow> 's \<times> ('e edit_error + unit)" where
  "editFile read wr s path oldText newText io_ok =
     (case read s path of
        Inl e \<Rightarrow> (s, Inl (EditIO e))
      | Inr content \<Rightarrow>
          (case replaceEditContent content oldText newText of
             Inl e \<Rightarrow> (s, Inl e)
           | Inr newContent \<Rightarrow> apsnd (map_sum EditIO id) (wr s path newContent io_ok)))"

definition appendFile ::
  "('s \<Rightarrow> string \<Rightarrow> 'e + string) \<Rightarrow> ('s \<Rightarrow> string \<Rightarrow> string \<Rightarrow> bool \<Rightarrow> 's \<times> ('e + unit)) \<Rightarrow> ('e \<Rightarrow> bool) \<Rightarrow>
   's \<Rightarrow> string \<Rightarrow> string \<Rightarrow> bool \<Rightarrow> 's \<times> ('e + unit)" where
  "appendFile read wr missing s path appendContent io_ok =
     (case read s path of
        Inl e \<Rightarrow> if missing e then wr s path appendContent io_ok else (s, Inl e)
      | Inr content \<Rightarrow> wr s path (content @ appendContent) io_ok)"

section \<open>Paths inside a directory\<close>

lemma takeWhile_join: "list_all name_ok cs \<Longrightarrow> cs \<noteq> [] \<Longrightarrow> takeWhile (\<lambda>c. c \<noteq> slash) (join_with slash cs) = hd cs"
  by (cases "(slash, cs)" rule: join_with.cases)
    (auto simp: name_ok_def takeWhile_append takeWhile_eq_all_conv)

lemma local_iff:
  assumes "normal False cs" and "cs \<noteq> []"
  shows "IsLocal (join_with slash cs) \<longleftrightarrow> hd cs \<noteq> ''..''"
proof -
  let ?s = "join_with slash cs"
  have ok: "list_all name_ok cs" using assms(1) by (simp add: normal_def)
  have s: "?s = unparse False cs" using assms(2) by (simp add: unparse_def)
  have "\<not> is_abs ?s" using is_abs_unparse [OF ok, of False] s by simp
  moreover have "Clean ?s = ?s"
    using comps_unparse [OF assms(1)] calculation s join_nonempty [OF ok assms(2), of slash]
    by (auto simp: Clean_def)
  moreover have "hd cs = ''..'' \<longleftrightarrow> ?s = ''..'' \<or> HasPrefix ?s ''../''"
  proof
    assume "hd cs = ''..''"
    then show "?s = ''..'' \<or> HasPrefix ?s ''../''"
      using assms(2) by (cases "(slash, cs)" rule: join_with.cases) (auto simp: HasPrefix_def)
  next
    assume "?s = ''..'' \<or> HasPrefix ?s ''../''"
    then have "takeWhile (\<lambda>c. c \<noteq> slash) ?s = ''..''" by (auto simp: HasPrefix_iff prefix_def)
    then show "hd cs = ''..''" using takeWhile_join [OF ok assms(2)] by simp
  qed
  ultimately show ?thesis
    using join_nonempty [OF ok assms(2)] by (auto simp: IsLocal_def)
qed

lemma strip_common_cases:
  "(\<exists>r. ts = bs @ r \<and> strip_common bs ts = ([], r)) \<or>
   (\<exists>b bs' ts' p. strip_common bs ts = (b # bs', ts') \<and> bs = p @ b # bs' \<and> ts = p @ ts' \<and> \<not> prefix bs ts)"
proof (induction bs arbitrary: ts)
  case Nil
  then show ?case by (cases ts) auto
next
  case (Cons b bs)
  show ?case
  proof (cases ts)
    case (Cons t ts')
    with Cons.IH [of ts'] show ?thesis by (cases "b = t") (auto intro: exI [where x = "_ # _"])
  qed simp
qed

lemma normal_dots: "''..'' \<notin> set cs \<Longrightarrow> list_all name_ok cs \<Longrightarrow> normal False (replicate k ''..'' @ cs)"
  by (auto simp: normal_def name_ok_def list_all_iff)

lemma within_iff:
  assumes "is_abs candidate" and "is_abs workspace"
  shows "isWithinWorkspace candidate workspace \<longleftrightarrow> prefix (comps workspace) (comps candidate)"
proof (cases "Clean candidate = Clean workspace")
  case True
  then show ?thesis
    using Clean_eq_iff [OF assms] by (simp add: isWithinWorkspace_def Rel_def)
next
  case False
  let ?b = "comps workspace" and ?t = "comps candidate"
  have ok: "list_all name_ok ?b" "list_all name_ok ?t" "''..'' \<notin> set ?b" "''..'' \<notin> set ?t"
    using normal_comps abs_no_dots assms by (auto simp: normal_def)
  have ne: "Clean candidate \<noteq> ''.''" "Clean workspace \<noteq> Clean candidate"
    using False assms is_abs_Clean [of candidate] by (auto simp: is_abs_def)
  from strip_common_cases [of ?t ?b] show ?thesis
  proof
    assume "\<exists>r. ?t = ?b @ r \<and> strip_common ?b ?t = ([], r)"
    then obtain r where r: "?t = ?b @ r" "strip_common ?b ?t = ([], r)" by blast
    then have "r \<noteq> []" using False Clean_eq_iff [OF assms] by auto
    moreover from this have "normal False r" "hd r \<noteq> ''..''"
      using ok r(1) normal_dots [of r 0] calculation by (simp, cases r, auto)
    ultimately have "IsLocal (join_with slash r)" using local_iff by blast
    then show ?thesis
      using r ne assms by (simp add: isWithinWorkspace_def Rel_def Let_def)
  next
    assume "\<exists>b bs' ts' p. strip_common ?b ?t = (b # bs', ts') \<and> ?b = p @ b # bs' \<and> ?t = p @ ts' \<and> \<not> prefix ?b ?t"
    then obtain b bs' ts' p where r: "strip_common ?b ?t = (b # bs', ts')" "?b = p @ b # bs'" "?t = p @ ts'"
      "\<not> prefix ?b ?t" by blast
    let ?cs = "replicate (length (b # bs')) ''..'' @ ts'"
    have "normal False ?cs" using ok r(3) by (intro normal_dots) auto
    then have "\<not> IsLocal (join_with slash ?cs)" using local_iff [of ?cs] by simp
    moreover have "join_with slash ?cs \<noteq> ''.''"
      by (cases "replicate (length bs') ''..'' @ ts'") auto
    moreover have "b \<noteq> ''..''" using ok r(2) by auto
    ultimately show ?thesis
      using r ne assms by (simp add: isWithinWorkspace_def Rel_def Let_def)
  qed
qed

lemma is_abs_rooted [simp]: "is_abs (unparse True cs)"
  by (simp add: unparse_def is_abs_def)

lemma EvalSymlinks_abs: "EvalSymlinks fs p = Inr q \<Longrightarrow> is_abs q"
  by (auto simp: EvalSymlinks_def split: sum.splits)

lemma abs_Abs_path: "is_abs cwd \<Longrightarrow> is_abs (Abs_path cwd s)"
  by (auto simp: Abs_path_def Join_paths_def) (auto simp: is_abs_def)

text \<open>The real workspace that the checks compare with.\<close>

definition real_workspace :: "filesystem \<Rightarrow> string \<Rightarrow> string" where
  "real_workspace fs absWorkspace = (case EvalSymlinks fs absWorkspace of Inr r \<Rightarrow> r | Inl _ \<Rightarrow> absWorkspace)"

text \<open>C25. A path that a restricted tool accepts is one that the allow-list opens, or it lies in the workspace, component by
  component, and so does what its links lead to: the file itself when it exists, else the nearest directory above it that exists.
  This is for any allow-list and an absolute working directory of the process.\<close>

theorem accepted_path_inside:
  assumes "validatePathWithAllowPaths fs cwd path workspace True patterns = Inr p" and "is_abs cwd"
  shows "isAllowedPath fs patterns p \<or> prefix (comps (Abs_path cwd workspace)) (comps p) \<and>
    (case EvalSymlinks fs p of
       Inr q \<Rightarrow> prefix (comps (real_workspace fs (Abs_path cwd workspace))) (comps q)
     | Inl e \<Rightarrow> e = NotExist \<and>
         (case resolveExistingAncestor fs (Dir_of p) of
            Inr q \<Rightarrow> prefix (comps (real_workspace fs (Abs_path cwd workspace))) (comps q)
          | Inl e' \<Rightarrow> e' = NotExist))"
proof -
  let ?ws = "Abs_path cwd workspace"
  define q where "q = (if is_abs path then Clean path else Abs_path cwd (Join_paths ?ws path))"
  have abs: "is_abs q" "is_abs ?ws" "is_abs (real_workspace fs ?ws)"
    using assms(2) EvalSymlinks_abs abs_Abs_path
    by (auto simp: q_def real_workspace_def split: sum.split)
  have anc: "is_abs r" if "resolveExistingAncestor fs x = Inr r" for r x
    using that by (auto simp: resolveExistingAncestor_def split: sum.splits)
  from assms(1) have run: "(if isAllowedPath fs patterns q then Inr q
      else if \<not> isWithinWorkspace q ?ws then Inl OutsideWorkspace
      else case EvalSymlinks fs q of
          Inr resolved \<Rightarrow> if isWithinWorkspace resolved (real_workspace fs ?ws) then Inr q else Inl LinkOutsideWorkspace
        | Inl e \<Rightarrow>
            if e \<noteq> NotExist then Inl (CannotResolve e)
            else (case resolveExistingAncestor fs (Dir_of q) of
                Inr parent \<Rightarrow> if isWithinWorkspace parent (real_workspace fs ?ws) then Inr q else Inl LinkOutsideWorkspace
              | Inl e' \<Rightarrow> if e' \<noteq> NotExist then Inl (CannotResolve e') else Inr q)) = Inr p"
    unfolding validatePathWithAllowPaths_def Let_def q_def real_workspace_def by (auto split: if_splits)
  then have "p = q" by (auto split: if_splits sum.splits)
  then show ?thesis
    using run within_iff [OF abs(1,2)] within_iff [OF EvalSymlinks_abs abs(3)] within_iff [OF anc abs(3)]
    by (auto split: if_splits sum.splits)
qed

lemma local_no_dots: "IsLocal s \<Longrightarrow> ''..'' \<notin> set (comps s)"
proof -
  assume loc: "IsLocal s"
  show ?thesis
  proof (cases "comps s = []")
    case False
    have n: "normal False (comps s)" using normal_comps [of s] loc by (simp add: IsLocal_def)
    have "IsLocal (join_with slash (comps s))"
      using loc False is_abs_Clean [of s] Clean_idem [of s] Clean_nonempty [of s]
      by (auto simp: IsLocal_def Clean_def unparse_def split: if_splits)
    then have "hd (comps s) \<noteq> ''..''" using local_iff [OF n False] by simp
    with n show ?thesis unfolding normal_def by (metis append_Nil hd_append2 hd_replicate replicate_empty)
  qed simp
qed

section \<open>Writes stay inside\<close>

text \<open>Making directories only adds directories, and only below the root.\<close>

definition adds_dirs :: "string list \<Rightarrow> filesystem \<Rightarrow> filesystem \<Rightarrow> bool" where
  "adds_dirs root fs fs' \<longleftrightarrow>
     (\<forall>p. fs' p \<noteq> fs p \<longrightarrow> strict_prefix root p \<and> fs p = None \<and> fs' p = Some DirNode)"

lemma adds_dirs_refl [simp]: "adds_dirs root fs fs"
  by (simp add: adds_dirs_def)

lemma adds_dirs_trans: "adds_dirs root a b \<Longrightarrow> adds_dirs root b c \<Longrightarrow> adds_dirs root a c"
  unfolding adds_dirs_def by metis

lemma mkdir_adds: "mkdir_walk fs root n dir cs = (fs', r) \<Longrightarrow> adds_dirs root fs fs'"
proof (induction fs root n dir cs rule: mkdir_walk.induct)
  case (2 fs root n dir c cs)
  show ?case
  proof (cases "c = ''..''")
    case True
    with 2(1) "2.prems" show ?thesis by (auto split: if_splits)
  next
    case F: False
    show ?thesis
    proof (cases "fs (root @ dir @ [c])")
      case None
      have "adds_dirs root fs (fs(root @ dir @ [c] \<mapsto> DirNode))"
        using None by (auto simp: adds_dirs_def strict_prefix_def)
      moreover have "adds_dirs root (fs(root @ dir @ [c] \<mapsto> DirNode)) fs'"
      proof -
        have run: "mkdir_walk (fs(root @ dir @ [c] \<mapsto> DirNode)) root n (dir @ [c]) cs = (fs', r)"
          using "2.prems" F None by simp
        show ?thesis by (rule 2(2) [OF F None run])
      qed
      ultimately show ?thesis by (rule adds_dirs_trans)
    next
      case (Some node)
      with F "2.prems" 2(3,4) show ?thesis
        by (cases node) (auto split: nat.splits if_splits sum.splits)
    qed
  qed
qed simp

lemma root_write_changes:
  assumes "root_write fs root cs data io_ok = (fs', r)"
  shows "\<exists>fs1. adds_dirs root fs fs1 \<and>
    (case r of
       Inl e \<Rightarrow> fs' = fs1
     | Inr _ \<Rightarrow> \<exists>p. strict_prefix root p \<and> fs1 p \<noteq> Some DirNode \<and> fs' = fs1(p \<mapsto> FileNode data))"
proof -
  obtain fs1 made where made: "(if butlast cs = [] then (fs, Inr []) else mkdir_walk fs root rootMaxLinks [] (butlast cs)) = (fs1, made)"
    by fastforce
  then have "adds_dirs root fs fs1" using mkdir_adds by (auto split: if_splits)
  with assms made show ?thesis
    by (intro exI [of _ fs1])
      (auto simp: root_write_def Let_def strict_prefix_def split: sum.splits if_splits intro!: exI [where x = "root @ _ @ [_]"])
qed

lemma write_changes:
  assumes "sandbox_WriteFile fs workspace path data io_ok = (fs', r)" and "fs' p \<noteq> fs p"
  shows "\<exists>root. sandbox_root fs workspace = Some root \<and> strict_prefix root p \<and>
    (fs p = None \<and> fs' p = Some DirNode \<or> r = Inr () \<and> fs p \<noteq> Some DirNode \<and> fs' p = Some (FileNode data))"
proof -
  from assms obtain root rel r' where root: "sandbox_root fs workspace = Some root"
    and wr: "root_write fs root (comps rel) data io_ok = (fs', r')"
    and r: "r = (case r' of Inl e \<Rightarrow> Inl (RootError e) | Inr u \<Rightarrow> Inr u)"
    by (auto simp: sandbox_WriteFile_def split: option.splits prod.splits)
  obtain fs1 where add: "adds_dirs root fs fs1"
    and last: "case r' of Inl e \<Rightarrow> fs' = fs1
      | Inr _ \<Rightarrow> \<exists>q. strict_prefix root q \<and> fs1 q \<noteq> Some DirNode \<and> fs' = fs1(q \<mapsto> FileNode data)"
    using root_write_changes [OF wr] by blast
  show ?thesis
  proof (cases "fs1 p = fs p")
    case False
    then have new: "strict_prefix root p" "fs p = None" "fs1 p = Some DirNode" using add by (auto simp: adds_dirs_def)
    with last have "fs' p = Some DirNode" by (auto split: sum.splits)
    with new root show ?thesis by blast
  next
    case True
    with assms(2) last obtain u where "r' = Inr u" by (cases r') auto
    with True assms(2) last r root show ?thesis by (auto split: if_splits)
  qed
qed

lemma write_one_file:
  assumes "sandbox_WriteFile fs workspace path data io_ok = (fs', Inr ())"
  shows "\<exists>root rel parent. sandbox_root fs workspace = Some root \<and> getSafeRelPath workspace path = Some rel \<and>
    (let target = root @ parent @ [last (comps rel)] in
     fs target \<noteq> Some DirNode \<and> fs' target = Some (FileNode data) \<and>
     (\<forall>p. p \<noteq> target \<and> fs' p \<noteq> fs p \<longrightarrow> strict_prefix root p \<and> fs p = None \<and> fs' p = Some DirNode))"
proof -
  from assms obtain root rel where root: "sandbox_root fs workspace = Some root" and rel: "getSafeRelPath workspace path = Some rel"
    and wr: "root_write fs root (comps rel) data io_ok = (fs', Inr ())"
    by (auto simp: sandbox_WriteFile_def split: option.splits prod.splits sum.splits)
  obtain fs1 made where made: "(if butlast (comps rel) = [] then (fs, Inr []) else mkdir_walk fs root rootMaxLinks [] (butlast (comps rel))) = (fs1, made)"
    by fastforce
  then have add: "adds_dirs root fs fs1" using mkdir_adds by (auto split: if_splits)
  have "\<exists>parent. fs1 (root @ parent @ [last (comps rel)]) \<noteq> Some DirNode \<and> fs' = fs1(root @ parent @ [last (comps rel)] \<mapsto> FileNode data)"
  proof (cases "butlast (comps rel) = []")
    case True
    with wr made show ?thesis
      by (intro exI [of _ "[]"]) (auto simp: root_write_def Let_def split: sum.splits if_splits)
  next
    case False
    with wr made show ?thesis by (auto simp: root_write_def Let_def split: sum.splits if_splits)
  qed
  then obtain parent where free: "fs1 (root @ parent @ [last (comps rel)]) \<noteq> Some DirNode"
    and fs': "fs' = fs1(root @ parent @ [last (comps rel)] \<mapsto> FileNode data)" by blast
  have "fs (root @ parent @ [last (comps rel)]) \<noteq> Some DirNode" using free add unfolding adds_dirs_def by metis
  moreover have "\<forall>p. p \<noteq> root @ parent @ [last (comps rel)] \<and> fs' p \<noteq> fs p \<longrightarrow> strict_prefix root p \<and> fs p = None \<and> fs' p = Some DirNode"
    using add by (simp add: adds_dirs_def fs')
  moreover have "fs' (root @ parent @ [last (comps rel)]) = Some (FileNode data)" by (simp add: fs')
  ultimately show ?thesis unfolding Let_def using root rel by blast
qed

lemma write_changes_below:
  "sandbox_WriteFile fs workspace path data io_ok = (fs', r) \<Longrightarrow> sandbox_root fs workspace = Some root \<Longrightarrow>
   fs' p \<noteq> fs p \<Longrightarrow> strict_prefix root p"
  using write_changes by fastforce


section \<open>Reading back\<close>

definition link_free :: "filesystem \<Rightarrow> bool" where
  "link_free fs \<longleftrightarrow> (\<forall>p t. fs p \<noteq> Some (LinkNode t))"

lemma link_free_upd [simp]: "link_free fs \<Longrightarrow> link_free (fs(p \<mapsto> DirNode))"
  "link_free fs \<Longrightarrow> link_free (fs(p \<mapsto> FileNode d))"
  by (auto simp: link_free_def)

lemma mkdir_plain:
  assumes "mkdir_walk fs root n dir cs = (fs', Inr q)" and "link_free fs" and "''..'' \<notin> set cs"
  shows "q = dir @ cs \<and> link_free fs' \<and> (\<forall>k. 0 < k \<and> k \<le> length cs \<longrightarrow> fs' (root @ dir @ take k cs) = Some DirNode)"
  using assms
proof (induction fs root n dir cs rule: mkdir_walk.induct)
  case (2 fs root n dir c cs)
  then have c: "c \<noteq> ''..''" by auto
  have ih: ?case if "mkdir_walk fs1 root n (dir @ [c]) cs = (fs', Inr q)" and "link_free fs1"
    and "fs1 (root @ dir @ [c]) = Some DirNode"
    and IH: "q = (dir @ [c]) @ cs \<and> link_free fs' \<and>
      (\<forall>k. 0 < k \<and> k \<le> length cs \<longrightarrow> fs' (root @ (dir @ [c]) @ take k cs) = Some DirNode)" for fs1
  proof -
    have "fs' (root @ dir @ [c]) = Some DirNode"
      using mkdir_adds [OF that(1)] that(3) unfolding adds_dirs_def by (metis option.distinct(1))
    then have "fs' (root @ dir @ take k (c # cs)) = Some DirNode" if "0 < k" "k \<le> length (c # cs)" for k
      using IH that by (cases k; cases "k = 1") auto
    with IH show ?thesis by simp
  qed
  show ?case
  proof (cases "fs (root @ dir @ [c])")
    case None
    let ?fs = "fs(root @ dir @ [c] \<mapsto> DirNode)"
    from None 2(5) c have run: "mkdir_walk ?fs root n (dir @ [c]) cs = (fs', Inr q)" by simp
    have free: "link_free ?fs" using 2(6) by simp
    show ?thesis by (rule ih [OF run free]) (use 2(2) [OF c None run free] 2(7) in auto)
  next
    case (Some node)
    then have "node = DirNode" using 2(5,6) c by (cases node) (auto simp: link_free_def)
    with Some 2(5) c have run: "mkdir_walk fs root n (dir @ [c]) cs = (fs', Inr q)" by simp
    show ?thesis
      by (rule ih [OF run 2(6)]) (use 2(3) [OF c Some \<open>node = DirNode\<close> run 2(6)] 2(7) Some \<open>node = DirNode\<close> in auto)
  qed
qed simp

lemma walk_dirs:
  "\<forall>k. 0 < k \<and> k < length cs \<longrightarrow> fs (root @ dir @ take k cs) = Some DirNode \<Longrightarrow>
   cs \<noteq> [] \<longrightarrow> (\<exists>x. fs (root @ dir @ cs) = Some x \<and> (\<forall>t. x \<noteq> LinkNode t)) \<Longrightarrow> ''..'' \<notin> set cs \<Longrightarrow>
   walk fs conf root n dir cs = Inr (dir @ cs)"
proof (induction cs arbitrary: dir)
  case (Cons c cs)
  show ?case
  proof (cases "cs = []")
    case True
    with Cons.prems show ?thesis by (auto split: node.split)
  next
    case False
    then have d: "fs (root @ dir @ [c]) = Some DirNode" using Cons.prems(1) [rule_format, of 1] by simp
    have "walk fs conf root n (dir @ [c]) cs = Inr ((dir @ [c]) @ cs)"
    proof (rule Cons.IH)
      show "\<forall>k. 0 < k \<and> k < length cs \<longrightarrow> fs (root @ (dir @ [c]) @ take k cs) = Some DirNode"
        using Cons.prems(1) by (metis append.assoc append_Cons append_Nil length_Cons not_less_eq take_Suc_Cons zero_less_Suc)
    qed (use Cons.prems(2,3) in auto)
    moreover have "c \<noteq> ''..''" using Cons.prems(3) by auto
    ultimately show ?thesis using d by simp
  qed
qed simp

lemma walk_plain:
  "walk fs conf root n dir cs = Inr q \<Longrightarrow> link_free fs \<Longrightarrow> ''..'' \<notin> set cs \<Longrightarrow>
   q = dir @ cs \<and> (\<forall>k. 0 < k \<and> k < length cs \<longrightarrow> fs (root @ dir @ take k cs) = Some DirNode) \<and>
   (cs \<noteq> [] \<longrightarrow> fs (root @ dir @ cs) \<noteq> None)"
proof (induction cs arbitrary: dir)
  case (Cons c cs)
  then have c: "c \<noteq> ''..''" by auto
  with Cons.prems(1) obtain node where node: "fs (root @ dir @ [c]) = Some node" by (auto split: option.splits)
  show ?case
  proof (cases node)
    case DirNode
    with Cons.prems c node have "walk fs conf root n (dir @ [c]) cs = Inr q" by simp
    from Cons.IH [OF this] Cons.prems(2,3) have
      ih: "q = (dir @ [c]) @ cs" "\<forall>k. 0 < k \<and> k < length cs \<longrightarrow> fs (root @ (dir @ [c]) @ take k cs) = Some DirNode"
      "cs \<noteq> [] \<longrightarrow> fs (root @ (dir @ [c]) @ cs) \<noteq> None" by auto
    have "fs (root @ dir @ take k (c # cs)) = Some DirNode" if "0 < k" "k < length (c # cs)" for k
      using ih(2) node DirNode that by (cases k; cases "k = 1") auto
    with ih node show ?thesis by auto
  next
    case (FileNode d)
    with Cons.prems c node show ?thesis by (auto split: if_splits)
  next
    case (LinkNode t)
    with Cons.prems(2) node show ?thesis by (auto simp: link_free_def)
  qed
qed simp

lemma eval_below:
  assumes "walk fs False [] n [] cs = Inr root" and "link_free fs" and "''..'' \<notin> set cs"
    and "\<And>p. \<not> strict_prefix root p \<Longrightarrow> fs' p = fs p"
  shows "walk fs' False [] n [] cs = Inr root" and "root = cs"
proof -
  from walk_plain [OF assms(1,2,3)]
  have w: "root = cs" "\<forall>k. 0 < k \<and> k < length cs \<longrightarrow> fs (take k cs) = Some DirNode" "cs \<noteq> [] \<longrightarrow> fs cs \<noteq> None" by auto
  have same: "fs' (take k cs) = fs (take k cs)" for k
    using assms(4) w(1) by (auto simp: strict_prefix_def take_is_prefix prefix_order.antisym)
  from same [of "length cs"] have "fs' cs = fs cs" by simp
  then show "walk fs' False [] n [] cs = Inr root"
    unfolding w(1)
    using w same assms(2,3) by (subst walk_dirs) (auto simp: link_free_def)
  show "root = cs" by (rule w(1))
qed

lemma write_then_read:
  assumes "sandbox_WriteFile fs workspace path data io_ok = (fs', Inr ())" and "link_free fs" and "is_abs workspace"
  shows "sandbox_ReadFile fs' workspace path = Inr data"
proof -
  from assms(1) obtain root rel where root: "sandbox_root fs workspace = Some root"
    and rel: "getSafeRelPath workspace path = Some rel"
    and wr: "root_write fs root (comps rel) data io_ok = (fs', Inr ())"
    by (auto simp: sandbox_WriteFile_def split: option.splits prod.splits sum.splits)
  let ?cs = "comps rel" let ?dir = "butlast ?cs"
  have "IsLocal rel" using rel by (auto simp: getSafeRelPath_def Let_def split: if_splits option.splits)
  have dots: "''..'' \<notin> set ?cs" by (rule local_no_dots) fact
  from wr obtain fs1 where made: "if ?dir = [] then fs1 = fs else \<exists>q. mkdir_walk fs root rootMaxLinks [] ?dir = (fs1, Inr q)"
    and cs: "?cs \<noteq> []" and parent: "\<exists>parent. walk fs1 True root rootMaxLinks [] ?dir = Inr parent \<and>
       fs' = fs1(root @ parent @ [last ?cs] \<mapsto> FileNode data)"
    by (auto simp: root_write_def Let_def split: prod.splits sum.splits if_splits)
  have free1: "link_free fs1" and dirs: "\<forall>k. 0 < k \<and> k \<le> length ?dir \<longrightarrow> fs1 (root @ take k ?dir) = Some DirNode"
    using made assms(2) mkdir_plain [of fs root rootMaxLinks "[]" ?dir fs1] dots
    by (auto split: if_splits dest: in_set_butlastD)
  obtain parent where "walk fs1 True root rootMaxLinks [] ?dir = Inr parent"
    and fs': "fs' = fs1(root @ parent @ [last ?cs] \<mapsto> FileNode data)" using parent by blast
  with walk_plain [OF this(1) free1] dots have "parent = ?dir" by (auto dest: in_set_butlastD)
  with fs' cs have fs': "fs' = fs1(root @ ?cs \<mapsto> FileNode data)" by simp
  have "walk fs' True root rootMaxLinks [] ?cs = Inr ([] @ ?cs)"
  proof (rule walk_dirs)
    show "\<forall>k. 0 < k \<and> k < length ?cs \<longrightarrow> fs' (root @ [] @ take k ?cs) = Some DirNode"
    proof (intro allI impI)
      fix k assume k: "0 < k \<and> k < length ?cs"
      then have "take k ?cs = take k ?dir" by (simp add: take_butlast)
      moreover have "take k ?cs \<noteq> ?cs" using k by (metis length_take min_less_iff_conj nat_neq_iff)
      ultimately show "fs' (root @ [] @ take k ?cs) = Some DirNode" using dirs k fs' by auto
    qed
  qed (use fs' dots in auto)
  then have read: "root_read fs' root ?cs = Inr data" by (simp add: root_read_def fs')
  have below: "fs' p = fs p" if "\<not> strict_prefix root p" for p
    using write_changes_below [OF assms(1) root] that by blast
  from root have open_root: "walk fs False [] kernelMaxLinks [] (comps workspace) = Inr root" "root = [] \<or> fs root = Some DirNode"
    by (auto simp: sandbox_root_def split: if_splits sum.splits)
  have "walk fs' False [] kernelMaxLinks [] (comps workspace) = Inr root"
    by (rule eval_below(1) [OF open_root(1) assms(2) abs_no_dots [OF assms(3)] below])
  moreover have "fs' root = fs root" by (rule below) simp
  moreover have "workspace \<noteq> []" using assms(3) by (auto simp: is_abs_def)
  ultimately have "sandbox_root fs' workspace = Some root"
    using open_root(2) by (simp add: sandbox_root_def)
  with rel read show ?thesis by (simp add: sandbox_ReadFile_def)
qed

text \<open>A small file system: the workspace \<open>/w\<close> with a file and a link that leads out of it.\<close>

definition demo_fs :: filesystem where
  "demo_fs = map_of
     [([''w''], DirNode), ([''w'', ''a''], FileNode ''one two''), ([''w'', ''out''], LinkNode ''../etc''),
      ([''etc''], DirNode), ([''etc'', ''passwd''], FileNode ''secret'')]"

definition plain_fs :: filesystem where
  "plain_fs = map_of [([''w''], DirNode), ([''w'', ''a''], FileNode ''one two'')]"

lemma plain_fs_link_free: "link_free plain_fs"
  by (auto simp: link_free_def plain_fs_def)

text \<open>What was written is read back: after a successful sandboxed write on a file system without links the same
  path gives the data.\<close>

theorem sandbox_read_back:
  assumes "sandbox_WriteFile fs workspace path data io_ok = (fs', Inr ())" and "link_free fs" and "is_abs workspace"
  shows "sandbox_ReadFile fs' workspace path = Inr data"
  by (rule write_then_read [OF assms])

theorem sandbox_read_back_witness:
  "sandbox_ReadFile (fst (sandbox_WriteFile plain_fs ''/w'' ''sub/b'' ''data'' True)) ''/w'' ''sub/b'' = Inr ''data''"
proof -
  have "snd (sandbox_WriteFile plain_fs ''/w'' ''sub/b'' ''data'' True) = Inr ()" by code_simp
  then show ?thesis
    using sandbox_read_back [of plain_fs "''/w''" "''sub/b''" "''data''" True] plain_fs_link_free
    by (simp add: is_abs_def prod_eq_iff)
qed

section \<open>Edits of a file\<close>

lemma Index_Some_split: "Index s sub = Some i \<Longrightarrow> s = take i s @ sub @ drop (i + length sub) s"
proof -
  assume "Index s sub = Some i"
  then obtain ys where ys: "s = take i s @ sub @ ys" "i + length sub \<le> length s" using Index_Some_iff_split by blast
  have "drop (i + length sub) s = ys"
    using arg_cong [OF ys(1), of "drop (i + length sub)"] ys(2) by (auto simp: min_def split: if_splits)
  with ys(1) show ?thesis by simp
qed

lemma CountSub_pos: "sub \<noteq> [] \<Longrightarrow> 0 < CountSub (ys @ sub @ zs) sub"
proof (induction ys)
  case Nil
  then show ?case by (subst CountSub.simps) simp
next
  case (Cons c ys)
  then show ?case by (subst CountSub.simps) simp
qed

lemma Count_pos: "0 < Count (ys @ sub @ zs) sub"
  by (simp add: Count_def CountSub_pos)

text \<open>A text that occurs at two overlapping places counts as unique, and the edit takes the first place.\<close>

theorem overlapping_text_unique:
  "(replaceEditContent ''aaa'' ''aa'' ''b'' :: unit edit_error + string) = Inr ''ba'' \<and>
   ''aaa'' = [] @ ''aa'' @ ''a'' \<and> ''aaa'' = ''a'' @ ''aa'' @ []"
  by code_simp

theorem accepted_path_inside_witness:
  "prefix (comps ''/w'') (comps ''/w/a'')"
proof -
  have no: "\<not> isAllowedPath plain_fs [] ''/w/a''" by (simp add: isAllowedPath_def)
  have "validatePathWithAllowPaths plain_fs ''/'' ''a'' ''/w'' True [] = Inr ''/w/a''" by code_simp
  from accepted_path_inside [OF this] no have "prefix (comps (Abs_path ''/'' ''/w'')) (comps ''/w/a'')"
    by (simp add: is_abs_def)
  moreover have "Abs_path ''/'' ''/w'' = ''/w''" by code_simp
  ultimately show ?thesis by simp
qed


end
