(* ===== verification/FileTools.thy ===== *)
theory FileTools
  imports Sandbox Messages
begin

text \<open>
  The tools \<open>read_file\<close>, \<open>write_file\<close>, \<open>edit_file\<close>, \<open>append_file\<close> and \<open>list_dir\<close> over any file system: the
  \<open>Execute\<close> methods of \<open>pkg/tools/filesystem.go\<close> and \<open>pkg/tools/edit.go\<close>. As in the code the tools hold a \<open>fileSystem\<close>, whose
  \<open>ReadFile\<close> and \<open>WriteFile\<close> are arguments here (those of theory Sandbox, or those that \<open>buildFs\<close> of theory HostFs chooses). The
  texts of the file-system errors are the argument \<open>show\<close>.
\<close>

section \<open>Numbers in arguments and results\<close>

text \<open>The decimal text of a natural number, and \<open>strconv.ParseInt\<close> with base 10 and 64 bits.\<close>

fun decimal :: "nat \<Rightarrow> string" where
  "decimal n = (if n < 10 then [char_of (48 + n)] else decimal (n div 10) @ [char_of (48 + n mod 10)])"

declare decimal.simps [simp del]

definition digits_value :: "string \<Rightarrow> nat" where
  "digits_value s = fold (\<lambda>c n. n * 10 + (of_char c - 48)) s 0"

definition ParseInt :: "string \<Rightarrow> int option" where
  "ParseInt s =
     (let neg = HasPrefix s ''-''; ds = (if neg \<or> HasPrefix s ''+'' then tl s else s) in
      if ds = [] \<or> \<not> list_all is_digit ds then None
      else
        let v = (if neg then - int (digits_value ds) else int (digits_value ds))
        in if v < - (2 ^ 63) \<or> 2 ^ 63 \<le> v then None else Some v)"

datatype arg_error = InvalidFormat string | Overflow string | UnsupportedType string | TooSmall string | Missing string

text \<open>A JSON number arrives as a \<open>float64\<close>, of which the whole ones are modelled. The bound
  \<open>math.MaxInt64\<close> is \<open>2 ^ 63\<close> as a \<open>float64\<close>, so that this value passes the check and the conversion wraps.\<close>

definition getInt64Arg :: "(string \<times> json) list \<Rightarrow> string \<Rightarrow> int \<Rightarrow> arg_error + int" where
  "getInt64Arg args key defaultVal =
     (case map_of args key of
        None \<Rightarrow> Inr defaultVal
      | Some (JInt v) \<Rightarrow>
          if v > 2 ^ 63 \<or> v < - (2 ^ 63) then Inl (Overflow key)
          else Inr (if v = 2 ^ 63 then - (2 ^ 63) else v)
      | Some (JString s) \<Rightarrow> (case ParseInt s of None \<Rightarrow> Inl (InvalidFormat key) | Some v \<Rightarrow> Inr v)
      | Some _ \<Rightarrow> Inl (UnsupportedType key))"

definition string_arg :: "(string \<times> json) list \<Rightarrow> string \<Rightarrow> string option" where
  "string_arg args key = (case map_of args key of Some (JString s) \<Rightarrow> Some s | _ \<Rightarrow> None)"

section \<open>\<open>read_file\<close>\<close>

definition MaxReadFileSize :: int where "MaxReadFileSize = 64 * 1024"

definition NewReadFileTool_maxSize :: "int \<Rightarrow> int" where
  "NewReadFileTool_maxSize maxReadFileSize = (if maxReadFileSize \<le> 0 then MaxReadFileSize else maxReadFileSize)"

definition Base_of :: "string \<Rightarrow> string" where
  "Base_of s =
     (if s = [] then ''.''
      else
        let t = rev (dropWhile (\<lambda>c. c = slash) (rev s)); b = rev (takeWhile (\<lambda>c. c \<noteq> slash) (rev t))
        in if b = [] then [slash] else b)"

text \<open>One page: the data, and whether a byte follows it.\<close>

definition read_page :: "string \<Rightarrow> nat \<Rightarrow> nat \<Rightarrow> string \<times> bool" where
  "read_page content offset len =
     (let probe = take (len + 1) (drop offset content)
      in (take (min (length probe) len) probe, len < length probe))"

definition page_args :: "(string \<times> json) list \<Rightarrow> int \<Rightarrow> arg_error + (string \<times> nat \<times> nat)" where
  "page_args args maxSize =
     (case string_arg args ''path'' of
        None \<Rightarrow> Inl (Missing ''path'')
      | Some path \<Rightarrow>
          (case getInt64Arg args ''offset'' 0 of
             Inl e \<Rightarrow> Inl e
           | Inr offset \<Rightarrow>
               if offset < 0 then Inl (TooSmall ''offset'')
               else
                 (case getInt64Arg args ''length'' maxSize of
                    Inl e \<Rightarrow> Inl e
                  | Inr len \<Rightarrow>
                      if len \<le> 0 then Inl (TooSmall ''length'')
                      else Inr (path, nat offset, nat (if maxSize < len then maxSize else len)))))"

definition page_text :: "string \<Rightarrow> nat \<Rightarrow> nat \<Rightarrow> string \<Rightarrow> bool \<Rightarrow> string" where
  "page_text path totalSize offset data hasMore =
     (let readEnd = offset + length data
      in ''[file: '' @ Base_of path @ '' | total: '' @ decimal totalSize @ '' bytes | read: bytes '' @ decimal offset @ ''-'' @
         decimal (readEnd - 1) @ '']'' @ [CHR 0x0A] @
         (if hasMore
          then ''[TRUNCATED - file has more content. Call read_file again with offset='' @ decimal readEnd @ '' to continue.]''
          else ''[END OF FILE - no further content.]'') @ [CHR 0x0A, CHR 0x0A] @ data)"

definition read_result :: "string \<Rightarrow> string \<Rightarrow> nat \<Rightarrow> nat \<Rightarrow> ToolResult" where
  "read_result path content offset len =
     (let (data, hasMore) = read_page content offset len in
      if data = [] then WithTouchedPaths (NewToolResult ''[END OF FILE - no content at this offset]'') [path]
      else WithTouchedPaths (NewToolResult (page_text path (length content) offset data hasMore)) [path])"

definition ReadFile_Execute ::
  "('e \<Rightarrow> string) \<Rightarrow> (arg_error \<Rightarrow> string) \<Rightarrow> ('s \<Rightarrow> string \<Rightarrow> 'e + string) \<Rightarrow> 's \<Rightarrow> int \<Rightarrow> (string \<times> json) list \<Rightarrow> ToolResult" where
  "ReadFile_Execute show show_arg read fs maxSize args =
     (case page_args args maxSize of
        Inl e \<Rightarrow> ErrorResult (show_arg e)
      | Inr (path, offset, len) \<Rightarrow>
          (case read fs path of
             Inl e \<Rightarrow> ErrorResult (show e)
           | Inr content \<Rightarrow> read_result path content offset len))"

section \<open>The tools that write\<close>

definition written_result :: "('e \<Rightarrow> string) \<Rightarrow> string \<Rightarrow> string \<Rightarrow> 'e edit_error + unit \<Rightarrow> ToolResult" where
  "written_result show message path r =
     (case r of
        Inl (EditIO e) \<Rightarrow> ErrorResult (show e)
      | Inl TextNotFound \<Rightarrow> ErrorResult ''old_text not found in file. Make sure it matches exactly''
      | Inl (TextNotUnique n) \<Rightarrow>
          ErrorResult (''old_text appears '' @ decimal n @ '' times. Please provide more context to make it unique'')
      | Inr _ \<Rightarrow> WithTouchedPaths (SilentResult (message @ path)) [path])"

definition WriteFile_Execute ::
  "('e \<Rightarrow> string) \<Rightarrow> ('s \<Rightarrow> string \<Rightarrow> string \<Rightarrow> bool \<Rightarrow> 's \<times> ('e + unit)) \<Rightarrow> 's \<Rightarrow> (string \<times> json) list \<Rightarrow> bool \<Rightarrow> 's \<times> ToolResult" where
  "WriteFile_Execute show wr fs args io_ok =
     (case string_arg args ''path'' of
        None \<Rightarrow> (fs, ErrorResult ''path is required'')
      | Some path \<Rightarrow>
          (case string_arg args ''content'' of
             None \<Rightarrow> (fs, ErrorResult ''content is required'')
           | Some content \<Rightarrow>
               (let (fs', r) = wr fs path content io_ok
                in (fs', written_result show ''File written: '' path (map_sum EditIO id r)))))"

definition EditFile_Execute ::
  "('e \<Rightarrow> string) \<Rightarrow> ('s \<Rightarrow> string \<Rightarrow> 'e + string) \<Rightarrow> ('s \<Rightarrow> string \<Rightarrow> string \<Rightarrow> bool \<Rightarrow> 's \<times> ('e + unit)) \<Rightarrow>
   's \<Rightarrow> (string \<times> json) list \<Rightarrow> bool \<Rightarrow> 's \<times> ToolResult" where
  "EditFile_Execute show read wr fs args io_ok =
     (case (string_arg args ''path'', string_arg args ''old_text'', string_arg args ''new_text'') of
        (None, _, _) \<Rightarrow> (fs, ErrorResult ''path is required'')
      | (_, None, _) \<Rightarrow> (fs, ErrorResult ''old_text is required'')
      | (_, _, None) \<Rightarrow> (fs, ErrorResult ''new_text is required'')
      | (Some path, Some oldText, Some newText) \<Rightarrow>
          (let (fs', r) = editFile read wr fs path oldText newText io_ok
           in (fs', written_result show ''File edited: '' path r)))"

definition AppendFile_Execute ::
  "('e \<Rightarrow> string) \<Rightarrow> ('s \<Rightarrow> string \<Rightarrow> 'e + string) \<Rightarrow> ('s \<Rightarrow> string \<Rightarrow> string \<Rightarrow> bool \<Rightarrow> 's \<times> ('e + unit)) \<Rightarrow> ('e \<Rightarrow> bool) \<Rightarrow>
   's \<Rightarrow> (string \<times> json) list \<Rightarrow> bool \<Rightarrow> 's \<times> ToolResult" where
  "AppendFile_Execute show read wr missing fs args io_ok =
     (case string_arg args ''path'' of
        None \<Rightarrow> (fs, ErrorResult ''path is required'')
      | Some path \<Rightarrow>
          (case string_arg args ''content'' of
             None \<Rightarrow> (fs, ErrorResult ''content is required'')
           | Some content \<Rightarrow>
               (let (fs', r) = appendFile read wr missing fs path content io_ok
                in (fs', written_result show ''Appended to '' path (map_sum EditIO id r)))))"

text \<open>The entries of a directory: a name, and whether it is one.\<close>

definition formatDirEntries :: "(string \<times> bool) list \<Rightarrow> ToolResult" where
  "formatDirEntries entries =
     NewToolResult (concat (map (\<lambda>(name, is_dir). (if is_dir then ''DIR:  '' else ''FILE: '') @ name @ [CHR 0x0A]) entries))"

section \<open>Properties\<close>

lemma read_page_exact:
  "fst (read_page content offset len) = take len (drop offset content)"
  "snd (read_page content offset len) \<longleftrightarrow> offset + len < length content"
  by (auto simp: read_page_def Let_def min_def)

fun read_on :: "string \<Rightarrow> nat \<Rightarrow> nat \<Rightarrow> nat \<Rightarrow> string" where
  "read_on content len 0 offset = []"
| "read_on content len (Suc fuel) offset =
     (let (data, more) = read_page content offset len
      in data @ (if more then read_on content len fuel (offset + length data) else []))"

lemma read_on_rest: "0 < len \<Longrightarrow> length content < offset + fuel \<Longrightarrow> offset \<le> length content \<Longrightarrow> read_on content len fuel offset = drop offset content"
proof (induction fuel arbitrary: offset)
  case (Suc fuel)
  let ?d = "take len (drop offset content)"
  have page: "read_page content offset len = (?d, offset + len < length content)"
    using read_page_exact by (simp add: prod_eq_iff)
  show ?case
  proof (cases "offset + len < length content")
    case True
    then have "read_on content len fuel (offset + len) = drop (offset + len) content"
      using Suc.prems by (intro Suc.IH) auto
    with True page show ?thesis
      by (simp add: add.commute flip: drop_drop)
  qed (use page in simp)
qed simp

text \<open>Pages are complete: from offset 0, following the offset that each page announces while it says that more
  content follows gives the whole file, for every page length, after at most one step per byte.\<close>

theorem read_pages_complete:
  assumes "0 < len"
  shows "read_on content len (Suc (length content)) 0 = content"
  using read_on_rest [OF assms, of content 0 "Suc (length content)"] by simp

theorem read_pages_complete_witness: "read_on ''one two'' 3 (Suc (length ''one two'')) 0 = ''one two''"
  by (rule read_pages_complete) simp

text \<open>When \<open>write_file\<close> in the sandbox reports an error, whatever the reason, every file of the file system is as it was
  (directories may have been made); no file is left half written and none appears.\<close>

theorem failed_write_keeps_files:
  assumes "WriteFile_Execute show (\<lambda>fs. sandbox_WriteFile fs workspace) fs args io_ok = (fs', res)" and "IsError res"
  shows "\<forall>p d. fs' p = Some (FileNode d) \<longleftrightarrow> fs p = Some (FileNode d)"
proof (intro allI)
  fix p d
  show "fs' p = Some (FileNode d) \<longleftrightarrow> fs p = Some (FileNode d)"
  proof (cases "fs' = fs")
    case False
    with assms obtain path content r where wr: "sandbox_WriteFile fs workspace path content io_ok = (fs', r)"
      and "IsError (written_result show ''File written: '' path (map_sum EditIO id r))"
      by (auto simp: WriteFile_Execute_def split: option.splits prod.splits)
    then have "r \<noteq> Inr ()"
      by (auto simp: written_result_def WithTouchedPaths_def)
    with write_changes [OF wr, of p] show ?thesis by (cases "fs' p = fs p") auto
  qed simp
qed

theorem failed_write_keeps_files_witness:
  "\<exists>fs'. fst (WriteFile_Execute (\<lambda>e. []) (\<lambda>fs. sandbox_WriteFile fs ''/w'') demo_fs [(''path'', JString ''out/x''), (''content'', JString ''d'')] True) = fs' \<and>
     (fs' [''etc'', ''passwd''] = Some (FileNode ''secret'') \<longleftrightarrow> True)"
proof -
  let ?run = "WriteFile_Execute (\<lambda>e. []) (\<lambda>fs. sandbox_WriteFile fs ''/w'') demo_fs [(''path'', JString ''out/x''), (''content'', JString ''d'')] True"
  have "IsError (snd ?run)" and "demo_fs [''etc'', ''passwd''] = Some (FileNode ''secret'')" by code_simp+
  with failed_write_keeps_files [of "\<lambda>e. []" "''/w''" demo_fs _ True "fst ?run" "snd ?run"] show ?thesis by simp
qed

end
