(* ===== verification/Identity.thy ===== *)
theory Identity
  imports Dispatch
begin

text \<open>
  Who may talk to a channel: canonical identities and allow-list entries of \<open>pkg/identity/identity.go\<close>, and the
  allow-list and group trigger of \<open>BaseChannel\<close> in \<open>pkg/channels/base.go\<close>.
\<close>

section \<open>Canonical identities\<close>

record SenderInfo =
  Platform :: string
  PlatformID :: string
  CanonicalID :: string
  Username :: string

definition BuildCanonicalID :: "string \<Rightarrow> string \<Rightarrow> string" where
  "BuildCanonicalID platform platformID =
     (let p = ToLower (TrimSpace platform); i = TrimSpace platformID
      in if p = [] \<or> i = [] then [] else p @ '':'' @ i)"

definition ParseCanonicalID :: "string \<Rightarrow> (string \<times> string) option" where
  "ParseCanonicalID canonical =
     (let c = TrimSpace canonical in
      case Index c '':'' of
        None \<Rightarrow> None
      | Some idx \<Rightarrow> if idx = 0 \<or> idx = length c - 1 then None else Some (take idx c, drop (idx + 1) c))"

definition isNumeric :: "string \<Rightarrow> bool" where
  "isNumeric s \<longleftrightarrow> s \<noteq> [] \<and> list_all is_digit s"

text \<open>Both parts of an entry of the form \<open>id|username\<close>.\<close>

definition split_bar :: "string \<Rightarrow> string \<times> string" where
  "split_bar s =
     (case Index s ''|'' of
        Some idx \<Rightarrow> if 0 < idx then (take idx s, drop (idx + 1) s) else (s, [])
      | None \<Rightarrow> (s, []))"

definition match_canonical :: "SenderInfo \<Rightarrow> string \<Rightarrow> string \<Rightarrow> bool" where
  "match_canonical sender platform i =
     (let candidate = BuildCanonicalID platform i in
      if candidate \<noteq> [] \<and> CanonicalID sender \<noteq> [] then EqualFold (CanonicalID sender) candidate
      else EqualFold platform (Platform sender) \<and> PlatformID sender = i)"

definition match_legacy :: "SenderInfo \<Rightarrow> string \<Rightarrow> bool" where
  "match_legacy sender allowed =
     (let isAtUsername = HasPrefix allowed ''@'';
          trimmed = TrimPrefix allowed ''@'';
          (allowedID, allowedUser) = split_bar trimmed
      in PlatformID sender \<noteq> [] \<and> PlatformID sender = allowedID \<or>
         isAtUsername \<and> Username sender \<noteq> [] \<and> Username sender = trimmed \<or>
         allowedUser \<noteq> [] \<and> PlatformID sender \<noteq> [] \<and> PlatformID sender = allowedID \<or>
         allowedUser \<noteq> [] \<and> Username sender \<noteq> [] \<and> Username sender = allowedUser)"

definition MatchAllowed :: "SenderInfo \<Rightarrow> string \<Rightarrow> bool" where
  "MatchAllowed sender entry =
     (let allowed = TrimSpace entry in
      if allowed = [] then False
      else
        (case ParseCanonicalID allowed of
           Some (platform, i) \<Rightarrow>
             if \<not> isNumeric platform then match_canonical sender platform i else match_legacy sender allowed
         | None \<Rightarrow> match_legacy sender allowed))"

section \<open>The allow-list of a channel\<close>

definition sender_matches :: "string \<Rightarrow> string \<Rightarrow> bool" where
  "sender_matches senderID allowed =
     (let (idPart, userPart) = split_bar senderID;
          trimmed = TrimPrefix allowed ''@'';
          (allowedID, allowedUser) = split_bar trimmed
      in senderID = allowed \<or> idPart = allowed \<or> senderID = trimmed \<or> idPart = trimmed \<or> idPart = allowedID \<or>
         allowedUser \<noteq> [] \<and> senderID = allowedUser \<or>
         userPart \<noteq> [] \<and> (userPart = allowed \<or> userPart = trimmed \<or> userPart = allowedUser))"

definition IsAllowed :: "string list \<Rightarrow> string \<Rightarrow> bool" where
  "IsAllowed allowList senderID = (allowList = [] \<or> list_ex (sender_matches senderID) allowList)"

definition IsAllowedSender :: "string list \<Rightarrow> SenderInfo \<Rightarrow> bool" where
  "IsAllowedSender allowList sender = (allowList = [] \<or> list_ex (MatchAllowed sender) allowList)"

text \<open>The check of \<open>HandleMessage\<close>: the structured sender where there is one.\<close>

definition sender_admitted :: "string list \<Rightarrow> SenderInfo \<Rightarrow> string \<Rightarrow> bool" where
  "sender_admitted allowList sender senderID =
     (if CanonicalID sender \<noteq> [] \<or> PlatformID sender \<noteq> [] then IsAllowedSender allowList sender
      else IsAllowed allowList senderID)"

record GroupTrigger =
  MentionOnly :: bool
  TriggerPrefixes :: "string list"

definition ShouldRespondInGroup :: "GroupTrigger \<Rightarrow> bool \<Rightarrow> string \<Rightarrow> bool \<times> string" where
  "ShouldRespondInGroup gt isMentioned content =
     (if isMentioned then (True, TrimSpace content)
      else if MentionOnly gt then (False, content)
      else if TriggerPrefixes gt \<noteq> [] then
        (case List.find (\<lambda>p. p \<noteq> [] \<and> HasPrefix content p) (TriggerPrefixes gt) of
           Some p \<Rightarrow> (True, TrimSpace (TrimPrefix content p))
         | None \<Rightarrow> (False, content))
      else (True, TrimSpace content))"

section \<open>Properties\<close>

lemma lower_not_colon: "CHR '':'' = lower_char c \<Longrightarrow> c = CHR '':''"
  by (auto simp: lower_char_def is_upper_def split: if_splits dest: arg_cong [where f = "of_char :: char \<Rightarrow> nat"])

lemma canonical_parts:
  assumes "BuildCanonicalID platform i \<noteq> []" and "CHR '':'' \<notin> set platform"
  shows "ParseCanonicalID (BuildCanonicalID platform i) = Some (ToLower (TrimSpace platform), TrimSpace i)"
proof -
  let ?p = "ToLower (TrimSpace platform)" and ?i = "TrimSpace i"
  from assms(1) have ne: "?p \<noteq> []" "?i \<noteq> []" and c: "BuildCanonicalID platform i = ?p @ '':'' @ ?i"
    by (auto simp: BuildCanonicalID_def Let_def split: if_splits)
  have "CHR '':'' \<notin> set (TrimSpace platform)" using assms(2) set_TrimSpace by blast
  then have colon: "CHR '':'' \<notin> set ?p" using lower_not_colon by (auto simp: ToLower_def) metis
  have "trimmed ?p" using trimmed_TrimSpace [of "ToLower platform"] by (simp add: TrimSpace_ToLower)
  then have "trimmed (?p @ '':'' @ ?i)"
    using ne trimmed_TrimSpace [of i] by (auto simp: trimmed_def)
  then show ?thesis
    using ne Index_char_append [OF colon, of ?i] by (simp add: c ParseCanonicalID_def Let_def TrimSpace_trimmed)
qed


lemma cut_unique: "c \<notin> set a \<Longrightarrow> c \<notin> set b \<Longrightarrow> a @ c # i = b @ c # j \<longleftrightarrow> a = b \<and> i = j"
proof (induction a arbitrary: b)
  case Nil
  then show ?case by (cases b) auto
next
  case (Cons x a)
  then show ?case by (cases b) auto
qed

lemma canonical_lower: "EqualFold (a @ '':'' @ i) (b @ '':'' @ j) \<longleftrightarrow> ToLower a = ToLower b \<and> ToLower i = ToLower j"
  if "CHR '':'' \<notin> set a" "CHR '':'' \<notin> set b"
proof -
  have colon: "CHR '':'' \<notin> set (ToLower a)" "CHR '':'' \<notin> set (ToLower b)"
    using that lower_not_colon by (auto simp: ToLower_def) metis+
  have "lower_char CHR '':'' = CHR '':''" by (simp add: lower_char_def is_upper_def)
  then have "EqualFold (a @ '':'' @ i) (b @ '':'' @ j) \<longleftrightarrow> ToLower a @ CHR '':'' # ToLower i = ToLower b @ CHR '':'' # ToLower j"
    by (simp add: EqualFold_def ToLower_def)
  also have "\<dots> \<longleftrightarrow> ToLower a = ToLower b \<and> ToLower i = ToLower j"
    by (rule cut_unique [OF colon])
  finally show ?thesis .
qed

text \<open>A canonical entry of an allow-list admits exactly one identity: a sender that carries the canonical form of its
  platform and its identifier is let in exactly when both are the ones of the entry, up to case and blanks around
  them.\<close>

theorem canonical_entry_exact:
  assumes "CanonicalID sender = BuildCanonicalID (Platform sender) (PlatformID sender)" and "CanonicalID sender \<noteq> []"
    and "BuildCanonicalID platform i \<noteq> []" and "CHR '':'' \<notin> set platform" and "CHR '':'' \<notin> set (Platform sender)"
    and "\<not> isNumeric (ToLower (TrimSpace platform))"
  shows "MatchAllowed sender (BuildCanonicalID platform i) \<longleftrightarrow>
    EqualFold (TrimSpace (Platform sender)) (TrimSpace platform) \<and>
    EqualFold (TrimSpace (PlatformID sender)) (TrimSpace i)"
proof -
  let ?p = "ToLower (TrimSpace platform)" and ?i = "TrimSpace i"
  let ?sp = "ToLower (TrimSpace (Platform sender))" and ?si = "TrimSpace (PlatformID sender)"
  from assms(1,2) have c: "CanonicalID sender = ?sp @ '':'' @ ?si"
    by (auto simp: BuildCanonicalID_def Let_def split: if_splits)
  from assms(3) have ne: "?p \<noteq> []" "?i \<noteq> []" and e: "BuildCanonicalID platform i = ?p @ '':'' @ ?i"
    by (auto simp: BuildCanonicalID_def Let_def split: if_splits)
  have tr: "TrimSpace ?p = ?p" by (simp add: TrimSpace_ToLower)
  have parse: "ParseCanonicalID (BuildCanonicalID platform i) = Some (?p, ?i)"
    by (rule canonical_parts [OF assms(3,4)])
  have "trimmed (BuildCanonicalID platform i)"
    using ne trimmed_TrimSpace [of "ToLower platform"] trimmed_TrimSpace [of i]
    by (simp add: e trimmed_def TrimSpace_ToLower)
  then have "TrimSpace (BuildCanonicalID platform i) = BuildCanonicalID platform i" by (rule TrimSpace_trimmed)
  moreover have "BuildCanonicalID ?p ?i = BuildCanonicalID platform i"
    using ne by (simp add: BuildCanonicalID_def Let_def tr)
  ultimately have "MatchAllowed sender (BuildCanonicalID platform i) \<longleftrightarrow>
      EqualFold (CanonicalID sender) (BuildCanonicalID platform i)"
    using assms(2,3,6) parse by (simp add: MatchAllowed_def Let_def match_canonical_def)
  moreover have "CHR '':'' \<notin> set ?p" "CHR '':'' \<notin> set ?sp"
    using assms(4,5) set_TrimSpace lower_not_colon by (fastforce simp: ToLower_def)+
  ultimately show ?thesis
    using canonical_lower [of ?sp ?p ?si ?i] by (simp add: c e EqualFold_def)
qed

definition telegram_sender :: SenderInfo where
  "telegram_sender = \<lparr>Platform = ''telegram'', PlatformID = ''42'', CanonicalID = ''telegram:42'', Username = ''bob''\<rparr>"

theorem canonical_entry_exact_witness:
  "MatchAllowed telegram_sender (BuildCanonicalID '' Telegram'' ''42'') \<longleftrightarrow> True"
proof -
  have "CanonicalID telegram_sender = BuildCanonicalID (Platform telegram_sender) (PlatformID telegram_sender)"
    "CanonicalID telegram_sender \<noteq> []" "BuildCanonicalID '' Telegram'' ''42'' \<noteq> []"
    "CHR '':'' \<notin> set '' Telegram''" "CHR '':'' \<notin> set (Platform telegram_sender)"
    "\<not> isNumeric (ToLower (TrimSpace '' Telegram''))"
    by code_simp+
  from canonical_entry_exact [OF this] have "MatchAllowed telegram_sender (BuildCanonicalID '' Telegram'' ''42'') \<longleftrightarrow>
      EqualFold (TrimSpace ''telegram'') (TrimSpace '' Telegram'') \<and> EqualFold (TrimSpace ''42'') (TrimSpace ''42'')"
    by (simp add: telegram_sender_def)
  moreover have "EqualFold (TrimSpace ''telegram'') (TrimSpace '' Telegram'')" by code_simp
  ultimately show ?thesis by (simp add: EqualFold_def)
qed

lemma TrimSpace_first: "\<not> is_space c \<Longrightarrow> \<exists>t. TrimSpace (c # s) = c # t"
  by (simp add: TrimSpace_def TrimLeftSpace_def TrimRightSpace_def dropWhile_append) (metis rev_rev_ident)

text \<open>An allow-list of Matrix user identifiers, which the documentation asks for, lets nobody in: an entry
  \<open>@user:server\<close> is read as the identity \<open>server\<close> of a platform \<open>@user\<close>.\<close>

theorem matrix_user_ids_rejected:
  assumes "list_all (\<lambda>e. \<exists>user server. e = ''@'' @ user @ '':'' @ server \<and> CHR '':'' \<notin> set user \<and>
      server \<noteq> [] \<and> trimmed e) allowList"
    and "allowList \<noteq> []" and "CanonicalID sender = BuildCanonicalID ''matrix'' (PlatformID sender)"
    and "TrimSpace (PlatformID sender) \<noteq> []"
    and "Platform sender = ''matrix''"
  shows "\<not> IsAllowedSender allowList sender"
proof -
  have "\<not> MatchAllowed sender e" if "e \<in> set allowList" for e
  proof -
    from that assms(1) obtain user server where e: "e = ''@'' @ user @ '':'' @ server"
      and colon: "CHR '':'' \<notin> set user" and server: "server \<noteq> []" and tr: "trimmed e"
      by (auto simp: list_all_iff)
    let ?p = "''@'' @ user"
    have "CHR '':'' \<notin> set ?p" using colon by simp
    from Index_char_append [OF this, of server]
    have parse: "ParseCanonicalID e = Some (?p, server)"
      using server TrimSpace_trimmed [OF tr] by (simp add: ParseCanonicalID_def Let_def e)
    have "\<not> isNumeric ?p" by (simp add: isNumeric_def is_digit_def)
    then have m: "MatchAllowed sender e \<longleftrightarrow> match_canonical sender ?p server"
      using parse TrimSpace_trimmed [OF tr] by (simp add: MatchAllowed_def Let_def e)
    have cid: "CanonicalID sender = ''matrix'' @ '':'' @ TrimSpace (PlatformID sender)"
      using assms(3,4) by (simp add: BuildCanonicalID_def Let_def) code_simp
    obtain t where "TrimSpace ?p = CHR ''@'' # t"
      using TrimSpace_first [of "CHR ''@''" user] by (auto simp: is_space_def)
    then have "BuildCanonicalID ?p server = [] \<or> (\<exists>u. BuildCanonicalID ?p server = CHR ''@'' # u)"
      by (auto simp: BuildCanonicalID_def Let_def ToLower_def lower_char_def is_upper_def)
    then show ?thesis
      using m cid assms(5)
      by (auto simp: match_canonical_def Let_def EqualFold_def ToLower_def lower_char_def is_upper_def)
  qed
  with assms(2) show ?thesis by (auto simp: IsAllowedSender_def list_ex_iff)
qed


definition matrix_sender :: SenderInfo where
  "matrix_sender = \<lparr>Platform = ''matrix'', PlatformID = ''@bob:example.org'',
     CanonicalID = BuildCanonicalID ''matrix'' ''@bob:example.org'', Username = ''@bob:example.org''\<rparr>"

theorem matrix_user_ids_rejected_witness:
  "\<not> IsAllowedSender [''@bob:example.org''] matrix_sender \<and>
   IsAllowedSender [''matrix:@bob:example.org''] matrix_sender"
proof
  show "\<not> IsAllowedSender [''@bob:example.org''] matrix_sender"
  proof (rule matrix_user_ids_rejected)
    have "''@bob:example.org'' = ''@'' @ ''bob'' @ '':'' @ ''example.org'' \<and> CHR '':'' \<notin> set ''bob'' \<and>
        ''example.org'' \<noteq> [] \<and> trimmed ''@bob:example.org''" by code_simp
    then show "list_all (\<lambda>e. \<exists>user server. e = ''@'' @ user @ '':'' @ server \<and> CHR '':'' \<notin> set user \<and>
        server \<noteq> [] \<and> trimmed e) [''@bob:example.org'']" by (intro list.pred_inject(2) [THEN iffD2] list.pred_inject(1) conjI) blast
    show "TrimSpace (PlatformID matrix_sender) \<noteq> []" by code_simp
  qed (simp_all add: matrix_sender_def)
  show "IsAllowedSender [''matrix:@bob:example.org''] matrix_sender" by code_simp
qed

end
