(* ===== verification/Channels.thy ===== *)
theory Channels
  imports Identity Split "HOL-Library.Multiset"
begin

text \<open>
  The delivery of messages to a channel: \<open>pkg/channels/manager.go\<close> and \<open>HandleMessage\<close> of \<open>pkg/channels/base.go\<close>. A
  channel is its capabilities and the answers of the platform; an operation gives the new state of the manager and
  the calls that it makes, in order. The indicators (typing, reaction, placeholder) of a chat are kept in the maps of the
  manager, as association lists; an indicator has a number of its own. Cancelling the context shows where the
  code waits: \<open>live k\<close> says whether the context still lives at the wait number \<open>k\<close>. Times are in milliseconds.
\<close>

section \<open>Errors and delays\<close>

datatype send_error = ErrNotRunning | ErrRateLimit | ErrTemporary | ErrSendFailed | ErrUnknown

definition ClassifySendError :: "int \<Rightarrow> send_error \<Rightarrow> send_error" where
  "ClassifySendError statusCode rawErr =
     (if statusCode = 429 then ErrRateLimit
      else if 500 \<le> statusCode then ErrTemporary
      else if 400 \<le> statusCode then ErrSendFailed
      else rawErr)"

definition ClassifyNetError :: "send_error option \<Rightarrow> send_error option" where
  "ClassifyNetError err = (case err of None \<Rightarrow> None | Some _ \<Rightarrow> Some ErrTemporary)"

definition maxRetries :: nat where "maxRetries = 3"
definition rateLimitDelay :: nat where "rateLimitDelay = 1000"
definition baseBackoff :: nat where "baseBackoff = 500"
definition maxBackoff :: nat where "maxBackoff = 8000"
definition defaultChannelQueueSize :: nat where "defaultChannelQueueSize = 16"
definition typingStopTTL :: int where "typingStopTTL = 300000"
definition placeholderTTL :: int where "placeholderTTL = 600000"

definition permanent :: "send_error \<Rightarrow> bool" where
  "permanent e \<longleftrightarrow> e = ErrNotRunning \<or> e = ErrSendFailed"

definition retry_delay :: "nat \<Rightarrow> send_error \<Rightarrow> nat" where
  "retry_delay attempt e = (if e = ErrRateLimit then rateLimitDelay else min (baseBackoff * 2 ^ attempt) maxBackoff)"

text \<open>The limiter of a channel, as messages per second and burst.\<close>

definition channelRateConfig :: "(string \<times> nat) list" where
  "channelRateConfig =
     [(''telegram'', 20), (''discord'', 1), (''slack'', 1), (''matrix'', 2), (''line'', 10), (''irc'', 2)]"

definition channel_limit :: "string \<Rightarrow> nat \<times> nat" where
  "channel_limit name =
     (let r = (case map_of channelRateConfig name of Some v \<Rightarrow> v | None \<Rightarrow> 10) in (r, max 1 ((r + 1) div 2)))"

definition IsInternalChannel :: "string \<Rightarrow> bool" where
  "IsInternalChannel c \<longleftrightarrow> c \<in> set [''cli'', ''system'', ''subagent'']"

section \<open>Indicators\<close>

record OutboundMessage =
  OutChannel :: string
  OutChatID :: string
  OutContent :: string

record platform =
  CanType :: bool
  CanReact :: bool
  CanPlace :: bool
  CanEdit :: bool
  MaxMessageLength :: nat

datatype chan_call =
  StopTyping nat | UndoReaction nat
| EditMessage string string string bool
| Send OutboundMessage "send_error option"
| Wait nat

record manager =
  placeholders :: "(string \<times> string \<times> int) list"
  typingStops :: "(string \<times> nat \<times> int) list"
  reactionUndos :: "(string \<times> nat \<times> int) list"

definition chat_key :: "string \<Rightarrow> string \<Rightarrow> string" where
  "chat_key channel chatID = channel @ '':'' @ chatID"

definition RecordPlaceholder :: "manager \<Rightarrow> string \<Rightarrow> string \<Rightarrow> string \<Rightarrow> int \<Rightarrow> manager" where
  "RecordPlaceholder m channel chatID placeholderID now =
     m\<lparr>placeholders := assoc_put (chat_key channel chatID) (placeholderID, now) (placeholders m)\<rparr>"

definition RecordTypingStop :: "manager \<Rightarrow> string \<Rightarrow> string \<Rightarrow> nat \<Rightarrow> int \<Rightarrow> manager \<times> chan_call list" where
  "RecordTypingStop m channel chatID stop now =
     (let key = chat_key channel chatID in
      (m\<lparr>typingStops := assoc_put key (stop, now) (typingStops m)\<rparr>,
       case map_of (typingStops m) key of Some (previous, _) \<Rightarrow> [StopTyping previous] | None \<Rightarrow> []))"

definition RecordReactionUndo :: "manager \<Rightarrow> string \<Rightarrow> string \<Rightarrow> nat \<Rightarrow> int \<Rightarrow> manager" where
  "RecordReactionUndo m channel chatID undo now =
     m\<lparr>reactionUndos := assoc_put (chat_key channel chatID) (undo, now) (reactionUndos m)\<rparr>"

text \<open>Before a message is sent: both indicators end, and a placeholder becomes the message if it can be edited
  (\<open>edit_ok\<close>).\<close>

definition preSend :: "manager \<Rightarrow> platform \<Rightarrow> bool \<Rightarrow> string \<Rightarrow> OutboundMessage \<Rightarrow> manager \<times> chan_call list \<times> bool" where
  "preSend m ch edit_ok name msg =
     (let key = chat_key name (OutChatID msg);
          c1 = (case map_of (typingStops m) key of Some (n, _) \<Rightarrow> [StopTyping n] | None \<Rightarrow> []);
          c2 = (case map_of (reactionUndos m) key of Some (n, _) \<Rightarrow> [UndoReaction n] | None \<Rightarrow> []);
          m' = m\<lparr>typingStops := assoc_del key (typingStops m), reactionUndos := assoc_del key (reactionUndos m),
                 placeholders := assoc_del key (placeholders m)\<rparr>
      in case map_of (placeholders m) key of
           Some (i, _) \<Rightarrow>
             if i \<noteq> [] \<and> CanEdit ch
             then (m', c1 @ c2 @ [EditMessage (OutChatID msg) i (OutContent msg) edit_ok], edit_ok)
             else (m', c1 @ c2, False)
         | None \<Rightarrow> (m', c1 @ c2, False))"

text \<open>The janitor, at the time \<open>now\<close>.\<close>

definition janitor :: "manager \<Rightarrow> int \<Rightarrow> manager \<times> chan_call list" where
  "janitor m now =
     (let old = (\<lambda>(k, n, t). now - t > typingStopTTL) in
      (m\<lparr>typingStops := filter (Not \<circ> old) (typingStops m), reactionUndos := filter (Not \<circ> old) (reactionUndos m),
         placeholders := filter (\<lambda>(k, i, t). \<not> now - t > placeholderTTL) (placeholders m)\<rparr>,
       map (\<lambda>(k, n, t). StopTyping n) (filter old (typingStops m)) @
       map (\<lambda>(k, n, t). UndoReaction n) (filter old (reactionUndos m))))"

text \<open>\<open>SendPlaceholder\<close> and \<open>handleStatusUpdate\<close> (the broadcast to web clients aside): the second keeps the entry.\<close>

definition SendPlaceholder :: "manager \<Rightarrow> platform option \<Rightarrow> string option \<Rightarrow> string \<Rightarrow> string \<Rightarrow> int \<Rightarrow> manager \<times> bool" where
  "SendPlaceholder m ch sent channel chatID now =
     (case ch of
        None \<Rightarrow> (m, False)
      | Some p \<Rightarrow>
          if \<not> CanPlace p then (m, False)
          else
            (case sent of
               None \<Rightarrow> (m, False)
             | Some phID \<Rightarrow> if phID = [] then (m, False) else (RecordPlaceholder m channel chatID phID now, True)))"

definition handleStatusUpdate :: "manager \<Rightarrow> platform option \<Rightarrow> bool \<Rightarrow> string \<Rightarrow> string \<Rightarrow> string \<Rightarrow> chan_call list" where
  "handleStatusUpdate m ch edit_ok channelName chatID txt =
     (case ch of
        None \<Rightarrow> []
      | Some p \<Rightarrow>
          if CanPlace p \<and> CanEdit p then
            (case map_of (placeholders m) (chat_key channelName chatID) of
               Some (i, _) \<Rightarrow> if i = [] then [] else [EditMessage chatID i txt edit_ok]
             | None \<Rightarrow> [])
          else [])"

section \<open>Sending with retries\<close>

datatype send_outcome = Delivered | Edited | Abandoned | Failed send_error

text \<open>The attempts from number \<open>attempt\<close> on; \<open>answer\<close> is what the platform says to an attempt.\<close>

function attempts_from ::
  "(nat \<Rightarrow> send_error option) \<Rightarrow> (nat \<Rightarrow> bool) \<Rightarrow> OutboundMessage \<Rightarrow> nat \<Rightarrow> chan_call list \<times> send_outcome" where
  "attempts_from reply live msg attempt =
     (case reply attempt of
        None \<Rightarrow> ([Send msg None], Delivered)
      | Some e \<Rightarrow>
          if permanent e \<or> maxRetries \<le> attempt then ([Send msg (Some e)], Failed e)
          else if \<not> live (Suc attempt) then ([Send msg (Some e)], Abandoned)
          else
            let (cs, r) = attempts_from reply live msg (Suc attempt)
            in (Send msg (Some e) # Wait (retry_delay attempt e) # cs, r))"
  by pat_completeness auto
termination by (relation "measure (\<lambda>(a, l, m, n). Suc maxRetries - n)") (auto simp: maxRetries_def)

declare attempts_from.simps [simp del]

definition sendWithRetry ::
  "manager \<Rightarrow> platform \<Rightarrow> bool \<Rightarrow> (nat \<Rightarrow> send_error option) \<Rightarrow> (nat \<Rightarrow> bool) \<Rightarrow> string \<Rightarrow> OutboundMessage \<Rightarrow>
   manager \<times> chan_call list \<times> send_outcome" where
  "sendWithRetry m ch edit_ok reply live name msg =
     (if \<not> live 0 then (m, [], Abandoned)
      else
        let (m', cs, edited) = preSend m ch edit_ok name msg in
        if edited then (m', cs, Edited)
        else let (cs', r) = attempts_from reply live msg 0 in (m', cs @ cs', r))"

definition sendMediaWithRetry ::
  "bool \<Rightarrow> (nat \<Rightarrow> send_error option) \<Rightarrow> (nat \<Rightarrow> bool) \<Rightarrow> OutboundMessage \<Rightarrow> chan_call list \<times> send_outcome" where
  "sendMediaWithRetry can_media reply live msg =
     (if \<not> can_media \<or> \<not> live 0 then ([], Abandoned) else attempts_from reply live msg 0)"

text \<open>What a worker does with one message: the chunks of a long one are sent one after the other. The answers of the
  platform to a chunk are chosen by its number. \<open>None\<close> stands for a split that does not end.\<close>

definition message_chunks :: "nat \<Rightarrow> platform \<Rightarrow> string \<Rightarrow> string list option" where
  "message_chunks fuel ch content =
     (if 0 < MaxMessageLength ch \<and> MaxMessageLength ch < length (runes content)
      then SplitMessage fuel content (int (MaxMessageLength ch)) else Some [content])"

fun send_chunks ::
  "manager \<Rightarrow> platform \<Rightarrow> (nat \<Rightarrow> bool) \<Rightarrow> (nat \<Rightarrow> nat \<Rightarrow> send_error option) \<Rightarrow> (nat \<Rightarrow> nat \<Rightarrow> bool) \<Rightarrow> string \<Rightarrow>
   OutboundMessage \<Rightarrow> nat \<Rightarrow> string list \<Rightarrow> manager \<times> chan_call list \<times> send_outcome list" where
  "send_chunks m ch edit_ok reply live name msg i [] = (m, [], [])"
| "send_chunks m ch edit_ok reply live name msg i (chunk # chunks) =
     (let (m1, cs, r) = sendWithRetry m ch (edit_ok i) (reply i) (live i) name (msg\<lparr>OutContent := chunk\<rparr>);
          (m2, cs', rs) = send_chunks m1 ch edit_ok reply live name msg (Suc i) chunks
      in (m2, cs @ cs', r # rs))"

definition work_message ::
  "nat \<Rightarrow> manager \<Rightarrow> platform \<Rightarrow> (nat \<Rightarrow> bool) \<Rightarrow> (nat \<Rightarrow> nat \<Rightarrow> send_error option) \<Rightarrow> (nat \<Rightarrow> nat \<Rightarrow> bool) \<Rightarrow> string \<Rightarrow>
   OutboundMessage \<Rightarrow> (manager \<times> chan_call list \<times> send_outcome list) option" where
  "work_message fuel m ch edit_ok reply live name msg =
     map_option (send_chunks m ch edit_ok reply live name msg 0) (message_chunks fuel ch (OutContent msg))"

section \<open>A message arrives\<close>

record InboundMessage = inbound_message +
  InSender :: SenderInfo
  InContent :: string
  InMedia :: "string list"
  InMessageID :: string
  InMediaScope :: string

text \<open>\<open>\[(voice|audio)(?::[^\]]*)?\]\<close> anywhere in the text.\<close>

definition annotation_at :: "string \<Rightarrow> bool" where
  "annotation_at s =
     list_ex (\<lambda>tag. HasPrefix s tag \<and>
       (case drop (length tag) s of
          [] \<Rightarrow> False
        | c # r \<Rightarrow> c = CHR '']'' \<or> c = CHR '':'' \<and> CHR '']'' \<in> set r)) [''[voice'', ''[audio'']"

fun audioAnnotation :: "string \<Rightarrow> bool" where
  "audioAnnotation [] = False"
| "audioAnnotation (c # s) = (annotation_at (c # s) \<or> audioAnnotation s)"

text \<open>\<open>uid\<close> is the next value of \<open>uniqueID\<close>.\<close>

definition BuildMediaScope :: "string \<Rightarrow> string \<Rightarrow> string \<Rightarrow> string \<Rightarrow> string" where
  "BuildMediaScope uid channel chatID messageID =
     channel @ '':'' @ chatID @ '':'' @ (if messageID = [] then uid else messageID)"

record base_channel =
  ChanName :: string
  AllowList :: "string list"
  ChanPlatform :: platform
  HasOwner :: bool

text \<open>What the platform answers to the indicators: the number of the new one, or the identifier of the placeholder.\<close>

record indicator_replies =
  TypingReply :: "nat option"
  ReactionReply :: "nat option"
  PlaceholderReply :: "string option"

text \<open>The outcome; a message that the bus does not take (\<open>bus_takes\<close> is what \<open>PublishInbound\<close> answers) is only logged as an error, and
  its indicators stay.\<close>

datatype handled = NotAdmitted | PublishedMsg InboundMessage | PublishFailed InboundMessage

definition HandleMessage ::
  "base_channel \<Rightarrow> manager \<Rightarrow> indicator_replies \<Rightarrow> int \<Rightarrow> string \<Rightarrow> string \<times> string \<Rightarrow> string \<Rightarrow> string \<Rightarrow> string \<Rightarrow> string \<Rightarrow>
   string list \<Rightarrow> (string \<times> string) list \<Rightarrow> SenderInfo \<Rightarrow> bool \<Rightarrow> manager \<times> chan_call list \<times> handled" where
  "HandleMessage c m re now uid peer messageID senderID chatID content mediaFiles metadata sender bus_takes =
     (if \<not> sender_admitted (AllowList c) sender senderID then (m, [], NotAdmitted)
      else
        let resolved = (if CanonicalID sender \<noteq> [] then CanonicalID sender else senderID);
            msg = \<lparr>MsgChannel = ChanName c, MsgSenderID = resolved, MsgChatID = chatID, MsgSessionKey = [],
                   MsgPeerKind = fst peer, MsgPeerID = snd peer, MsgMetadata = metadata, InSender = sender,
                   InContent = content, InMedia = mediaFiles, InMessageID = messageID,
                   InMediaScope = BuildMediaScope uid (ChanName c) chatID messageID\<rparr>;
            (m1, cs) = (case TypingReply re of
                Some n \<Rightarrow> if HasOwner c \<and> CanType (ChanPlatform c) then RecordTypingStop m (ChanName c) chatID n now else (m, [])
              | None \<Rightarrow> (m, []));
            m2 = (case ReactionReply re of
                Some n \<Rightarrow> if HasOwner c \<and> CanReact (ChanPlatform c) \<and> messageID \<noteq> []
                           then RecordReactionUndo m1 (ChanName c) chatID n now else m1
              | None \<Rightarrow> m1);
            m3 = (case PlaceholderReply re of
                Some i \<Rightarrow> if HasOwner c \<and> \<not> audioAnnotation content \<and> CanPlace (ChanPlatform c) \<and> i \<noteq> []
                           then RecordPlaceholder m2 (ChanName c) chatID i now else m2
              | None \<Rightarrow> m2)
        in (m3, cs, if bus_takes then PublishedMsg msg else PublishFailed msg))"

section \<open>Sending: bounds and outcomes\<close>

fun is_attempt :: "chan_call \<Rightarrow> bool" where
  "is_attempt (Send msg r) = True" | "is_attempt c = False"

fun succeeded :: "chan_call \<Rightarrow> bool" where
  "succeeded (Send msg r) = (r = None)" | "succeeded (EditMessage ch i t ok) = ok" | "succeeded c = False"

fun waited :: "chan_call \<Rightarrow> nat" where
  "waited (Wait d) = d" | "waited c = 0"

lemma retry_delay_le: "retry_delay attempt e \<le> max rateLimitDelay (baseBackoff * 2 ^ attempt)"
  by (auto simp: retry_delay_def)

lemma attempts_bounds:
  "attempts_from reply live msg k = (cs, r) \<Longrightarrow> k \<le> maxRetries \<Longrightarrow>
   length (filter is_attempt cs) \<le> Suc maxRetries - k \<and>
   length (filter succeeded cs) = (if r = Delivered then 1 else 0) \<and> r \<noteq> Edited \<and>
   (\<forall>e. r = Failed e \<longrightarrow> permanent e \<or> length (filter is_attempt cs) = Suc maxRetries - k) \<and>
   sum_list (map waited cs) \<le> (\<Sum>i \<in> {k..<maxRetries}. max rateLimitDelay (baseBackoff * 2 ^ i))"
proof (induction reply live msg k arbitrary: cs r rule: attempts_from.induct)
  case (1 reply live msg k)
  show ?case
  proof (cases "reply k")
    case None
    with 1(2,3) show ?thesis by (auto simp: attempts_from.simps [of reply live msg k])
  next
    case (Some e)
    show ?thesis
    proof (cases "permanent e \<or> maxRetries \<le> k \<or> \<not> live (Suc k)")
      case True
      with Some 1(2,3) show ?thesis
        by (auto simp: attempts_from.simps [of reply live msg k] split: if_splits)
    next
      case False
      then have k: "k < maxRetries" by simp
      obtain cs' r' where rec: "attempts_from reply live msg (Suc k) = (cs', r')" by fastforce
      with Some False 1(2) have cs: "cs = Send msg (Some e) # Wait (retry_delay k e) # cs'" and r: "r = r'"
        by (auto simp: attempts_from.simps [of reply live msg k])
      have ih: "length (filter is_attempt cs') \<le> Suc maxRetries - Suc k \<and>
          length (filter succeeded cs') = (if r' = Delivered then 1 else 0) \<and> r' \<noteq> Edited \<and>
          (\<forall>e. r' = Failed e \<longrightarrow> permanent e \<or> length (filter is_attempt cs') = Suc maxRetries - Suc k) \<and>
          sum_list (map waited cs') \<le> (\<Sum>i \<in> {Suc k..<maxRetries}. max rateLimitDelay (baseBackoff * 2 ^ i))"
        using 1(1) [OF Some _ _ rec] False k by simp
      have "(\<Sum>i \<in> {k..<maxRetries}. max rateLimitDelay (baseBackoff * 2 ^ i)) =
          max rateLimitDelay (baseBackoff * 2 ^ k) + (\<Sum>i \<in> {Suc k..<maxRetries}. max rateLimitDelay (baseBackoff * 2 ^ i))"
        using k by (simp add: sum.atLeast_Suc_lessThan)
      with ih cs r k retry_delay_le [of k e] show ?thesis by (auto simp: Suc_diff_le)
    qed
  qed
qed

lemma preSend_calls:
  "preSend m ch ok name msg = (m', cs, edited) \<Longrightarrow>
   filter is_attempt cs = [] \<and> length (filter succeeded cs) = (if edited then 1 else 0) \<and> sum_list (map waited cs) = 0"
  by (auto simp: preSend_def Let_def split: option.splits if_splits prod.splits)

text \<open>Sending one message is bounded and delivers at most once: there are at most four attempts, with pauses of at
  most four seconds in all; exactly one call succeeds when the message counts as delivered or became the
  placeholder, and none otherwise; a failure is reported only for a permanent error or after the fourth attempt.\<close>

theorem send_bounded_once:
  assumes "sendWithRetry m ch edit_ok reply live name msg = (m', cs, r)"
  shows "length (filter is_attempt cs) \<le> 4 \<and> sum_list (map waited cs) \<le> 4000 \<and>
    length (filter succeeded cs) = (if r = Delivered \<or> r = Edited then 1 else 0) \<and>
    (case r of Failed e \<Rightarrow> permanent e \<or> length (filter is_attempt cs) = 4 | _ \<Rightarrow> True)"
proof -
  have total: "(\<Sum>i \<in> {0..<maxRetries}. max rateLimitDelay (baseBackoff * 2 ^ i)) = 4000"
    by (simp add: maxRetries_def rateLimitDelay_def baseBackoff_def numeral_3_eq_3)
  obtain m1 cs1 edited where pre: "preSend m ch edit_ok name msg = (m1, cs1, edited)" by (metis prod_cases3)
  obtain cs2 r2 where att: "attempts_from reply live msg 0 = (cs2, r2)" by fastforce
  from attempts_bounds [OF att] total have b: "length (filter is_attempt cs2) \<le> 4"
    "length (filter succeeded cs2) = (if r2 = Delivered then 1 else 0)" "r2 \<noteq> Edited"
    "\<forall>e. r2 = Failed e \<longrightarrow> permanent e \<or> length (filter is_attempt cs2) = 4" "sum_list (map waited cs2) \<le> 4000"
    by (auto simp: maxRetries_def)
  from assms pre att have "cs = [] \<and> r = Abandoned \<or> edited \<and> cs = cs1 \<and> r = Edited \<or> \<not> edited \<and> cs = cs1 @ cs2 \<and> r = r2"
    by (auto simp: sendWithRetry_def split: if_splits)
  with b preSend_calls [OF pre] show ?thesis by (auto split: send_outcome.splits simp del: sum_list_eq_0_iff)
qed

definition demo_platform :: platform where
  "demo_platform = \<lparr>CanType = True, CanReact = True, CanPlace = True, CanEdit = True, MaxMessageLength = 4\<rparr>"

definition no_indicators :: manager where
  "no_indicators = \<lparr>placeholders = [], typingStops = [], reactionUndos = []\<rparr>"

definition demo_out :: OutboundMessage where
  "demo_out = \<lparr>OutChannel = ''slack'', OutChatID = ''c'', OutContent = ''one two three''\<rparr>"

theorem send_bounded_once_witness:
  "let (m', cs, r) = sendWithRetry no_indicators demo_platform True (\<lambda>k. Some ErrTemporary) (\<lambda>k. True) ''slack'' demo_out
   in length (filter is_attempt cs) \<le> 4 \<and> r = Failed ErrTemporary \<and> sum_list (map waited cs) = 3500"
proof -
  let ?run = "sendWithRetry no_indicators demo_platform True (\<lambda>k. Some ErrTemporary) (\<lambda>k. True) ''slack'' demo_out"
  have run: "snd (snd ?run) = Failed ErrTemporary" "sum_list (map waited (fst (snd ?run))) = 3500" by code_simp+
  obtain m' cs r where e: "?run = (m', cs, r)" by (metis prod_cases3)
  from send_bounded_once [OF e] run e show ?thesis by simp
qed

lemma preSend_clears: "preSend m ch ok name msg = (m', cs, edited) \<Longrightarrow> map_of (placeholders m') (chat_key name (OutChatID msg)) = None"
  by (auto simp: preSend_def Let_def split: option.splits if_splits)

lemma send_without_placeholder:
  assumes "map_of (placeholders m) (chat_key name (OutChatID msg)) = None" and "live 0"
  shows "\<exists>m' cs. sendWithRetry m ch ok reply live name msg = (m', cs, snd (attempts_from reply live msg 0)) \<and>
    map_of (placeholders m') (chat_key name (OutChatID msg)) = None"
proof -
  obtain m' cs edited where pre: "preSend m ch ok name msg = (m', cs, edited)" by (metis prod_cases3)
  then have "\<not> edited" using assms(1) by (auto simp: preSend_def Let_def split: option.splits)
  with pre assms(2) preSend_clears [OF pre] show ?thesis by (auto simp: sendWithRetry_def split: prod.split)
qed

lemma chunk_outcomes:
  assumes "send_chunks m ch edit_ok reply live name msg i chunks = (m', cs, rs)"
    and "map_of (placeholders m) (chat_key name (OutChatID msg)) = None" and "\<forall>j. live j 0"
  shows "length rs = length chunks \<and>
    (\<forall>j < length chunks. rs ! j = snd (attempts_from (reply (i + j)) (live (i + j)) (msg\<lparr>OutContent := chunks ! j\<rparr>) 0))"
  using assms
proof (induction chunks arbitrary: m i m' cs rs)
  case (Cons chunk chunks)
  let ?msg = "msg\<lparr>OutContent := chunk\<rparr>"
  have key: "map_of (placeholders m) (chat_key name (OutChatID ?msg)) = None" "live i 0" using Cons.prems by simp_all
  from send_without_placeholder [of m name ?msg "live i" ch "edit_ok i" "reply i", OF key] obtain m1 cs1
    where run: "sendWithRetry m ch (edit_ok i) (reply i) (live i) name ?msg =
        (m1, cs1, snd (attempts_from (reply i) (live i) ?msg 0))"
      and none: "map_of (placeholders m1) (chat_key name (OutChatID msg)) = None" by auto
  obtain m2 cs2 rs2 where rec: "send_chunks m1 ch edit_ok reply live name msg (Suc i) chunks = (m2, cs2, rs2)"
    by (metis prod_cases3)
  with run Cons.prems(1) have "rs = snd (attempts_from (reply i) (live i) ?msg 0) # rs2" by simp
  with Cons.IH [OF rec none Cons.prems(3)] show ?case by (auto simp: nth_Cons split: nat.split)
qed simp

text \<open>The chunks of a long message are sent on after a failure: when the platform rejects one chunk for good,
  every chunk before and after it is still delivered, so that the reader gets a message with a hole.\<close>

theorem rejected_chunk_leaves_hole:
  assumes "send_chunks m ch edit_ok (\<lambda>i k. if i = bad then Some ErrSendFailed else None) live name msg 0 chunks = (m', cs, rs)"
    and "map_of (placeholders m) (chat_key name (OutChatID msg)) = None" and "\<forall>j. live j 0"
  shows "rs = map (\<lambda>j. if j = bad then Failed ErrSendFailed else Delivered) [0..<length chunks]"
proof (rule nth_equalityI)
  fix j assume "j < length rs"
  with chunk_outcomes [OF assms]
  show "rs ! j = map (\<lambda>j. if j = bad then Failed ErrSendFailed else Delivered) [0..<length chunks] ! j"
    by (simp add: attempts_from.simps permanent_def)
qed (use chunk_outcomes [OF assms] in simp)

theorem rejected_chunk_leaves_hole_witness:
  "snd (snd (send_chunks no_indicators demo_platform (\<lambda>i. True) (\<lambda>i k. if i = 1 then Some ErrSendFailed else None) (\<lambda>i k. True)
     ''slack'' demo_out 0 [''one'', ''two'', ''six''])) = [Delivered, Failed ErrSendFailed, Delivered]"
proof -
  obtain m' cs rs where run: "send_chunks no_indicators demo_platform (\<lambda>i. True)
      (\<lambda>i k. if i = 1 then Some ErrSendFailed else None) (\<lambda>i k. True) ''slack'' demo_out 0 [''one'', ''two'', ''six''] = (m', cs, rs)"
    by (metis prod_cases3)
  have "map_of (placeholders no_indicators) (chat_key ''slack'' (OutChatID demo_out)) = None"
    by (simp add: no_indicators_def)
  from rejected_chunk_leaves_hole [OF run this] run show ?thesis by (simp add: upt_rec)
qed

section \<open>Indicators are accounted for\<close>

datatype mgr_op =
  OpTyping string string nat int
| OpReaction string string nat int
| OpPlaceholder string string string int
| OpSend platform bool string OutboundMessage
| OpJanitor int

fun do_op :: "manager \<Rightarrow> mgr_op \<Rightarrow> manager \<times> chan_call list" where
  "do_op m (OpTyping c i n now) = RecordTypingStop m c i n now"
| "do_op m (OpReaction c i n now) = (RecordReactionUndo m c i n now, [])"
| "do_op m (OpPlaceholder c i p now) = (RecordPlaceholder m c i p now, [])"
| "do_op m (OpSend ch ok name msg) = (let (m', cs, _) = preSend m ch ok name msg in (m', cs))"
| "do_op m (OpJanitor now) = janitor m now"

fun do_ops :: "manager \<Rightarrow> mgr_op list \<Rightarrow> manager \<times> chan_call list" where
  "do_ops m [] = (m, [])"
| "do_ops m (oper # opers) = (let (m1, cs) = do_op m oper; (m2, cs') = do_ops m1 opers in (m2, cs @ cs'))"

text \<open>The typing indicators that were started, stopped and are still on.\<close>

definition typing_started :: "mgr_op list \<Rightarrow> nat multiset" where
  "typing_started opers = mset (List.map_filter (\<lambda>oper. case oper of OpTyping c i n t \<Rightarrow> Some n | _ \<Rightarrow> None) opers)"

definition typing_stopped :: "chan_call list \<Rightarrow> nat multiset" where
  "typing_stopped cs = mset (List.map_filter (\<lambda>c. case c of StopTyping n \<Rightarrow> Some n | _ \<Rightarrow> None) cs)"

definition typing_on :: "manager \<Rightarrow> nat multiset" where
  "typing_on m = mset (map (fst \<circ> snd) (typingStops m))"

definition distinct_chats :: "manager \<Rightarrow> bool" where
  "distinct_chats m \<longleftrightarrow> distinct (map fst (typingStops m))"

lemma typing_stopped_append [simp]: "typing_stopped (a @ b) = typing_stopped a + typing_stopped b"
  by (simp add: typing_stopped_def List.map_filter_def)

lemma typing_stopped_simps [simp]:
  "typing_stopped [] = {#}" "typing_stopped (StopTyping n # cs) = add_mset n (typing_stopped cs)"
  "typing_stopped (UndoReaction n # cs) = typing_stopped cs" "typing_stopped (EditMessage a b t ok # cs) = typing_stopped cs"
  by (simp_all add: typing_stopped_def List.map_filter_def)

lemma values_del:
  "distinct (map fst l) \<Longrightarrow>
   mset (map (fst \<circ> snd) l) = (case map_of l k of Some (n, _) \<Rightarrow> {#n#} | None \<Rightarrow> {#}) + mset (map (fst \<circ> snd) (assoc_del k l))"
proof (induction l)
  case (Cons x l)
  obtain k' n t where x: "x = (k', n, t)" by (cases x)
  show ?case
  proof (cases "k' = k")
    case True
    with Cons.prems x have "k \<notin> fst ` set l" by auto
    then have "assoc_del k l = l" by (auto simp: assoc_del_def filter_id_conv)
    with True x show ?thesis by (simp add: assoc_del_def)
  next
    case False
    with Cons x show ?thesis by (simp add: assoc_del_def)
  qed
qed (simp add: assoc_del_def)

lemma assoc_put_alt: "assoc_put k v l = (k, v) # assoc_del k l"
  by (simp add: assoc_put_def assoc_del_def)

lemma stopped_map: "typing_stopped (map (\<lambda>(k, n, t). StopTyping n) l) = mset (map (fst \<circ> snd) l)"
  "typing_stopped (map (\<lambda>(k, n, t). UndoReaction n) l') = {#}"
  by (induction l) (auto, induction l', auto)

lemma op_accounts:
  assumes "distinct_chats m" and "do_op m oper = (m', cs)"
  shows "typing_on m + typing_started [oper] = typing_stopped cs + typing_on m'" and "distinct_chats m'"
proof -
  have on: "typing_on m = (case map_of (typingStops m) k of Some (n, _) \<Rightarrow> {#n#} | None \<Rightarrow> {#}) +
      mset (map (fst \<circ> snd) (assoc_del k (typingStops m)))" for k
    using values_del assms(1) by (simp add: typing_on_def distinct_chats_def)
  have split: "mset (map f (filter (Not \<circ> P) l)) + mset (map f (filter P l)) = mset (map f l)" for P l and f :: "_ \<Rightarrow> nat"
    by (induction l) auto
  show "typing_on m + typing_started [oper] = typing_stopped cs + typing_on m'"
  proof (cases oper)
    case (OpTyping c i n now)
    with assms(2) on [of "chat_key c i"] show ?thesis
      by (auto simp: RecordTypingStop_def Let_def typing_started_def List.map_filter_def typing_on_def assoc_put_alt
        split: option.splits)
  next
    case (OpSend ch ok name msg)
    with assms(2) on [of "chat_key name (OutChatID msg)"] show ?thesis
      by (auto simp: preSend_def Let_def typing_started_def List.map_filter_def typing_on_def split: option.splits if_splits)
  next
    case (OpJanitor now)
    let ?old = "\<lambda>(k :: string, n :: nat, t). now - t > typingStopTTL"
    from assms(2) OpJanitor have "typingStops m' = filter (Not \<circ> ?old) (typingStops m)"
      and "typing_stopped cs = mset (map (fst \<circ> snd) (filter ?old (typingStops m)))"
      by (auto simp: janitor_def Let_def stopped_map simp del: mset_map mset_filter)
    with OpJanitor split [of "fst \<circ> snd" ?old "typingStops m"] show ?thesis
      by (simp add: typing_on_def typing_started_def List.map_filter_def add.commute del: mset_map mset_filter)
  qed (use assms(2) in \<open>auto simp: RecordReactionUndo_def RecordPlaceholder_def typing_started_def List.map_filter_def typing_on_def\<close>)
  show "distinct_chats m'"
    using assms by (cases oper)
      (auto simp: distinct_chats_def RecordTypingStop_def RecordReactionUndo_def RecordPlaceholder_def preSend_def janitor_def
        assoc_put_def assoc_del_def Let_def distinct_filter_keys split: option.splits if_splits prod.splits)
qed


lemma typing_started_Cons: "typing_started (oper # opers) = typing_started [oper] + typing_started opers"
  by (simp add: typing_started_def List.map_filter_def split: option.split)

lemma ops_account:
  "distinct_chats m \<Longrightarrow> do_ops m opers = (m', cs) \<Longrightarrow>
   typing_on m + typing_started opers = typing_stopped cs + typing_on m' \<and> distinct_chats m'"
proof (induction opers arbitrary: m m' cs)
  case Nil
  then show ?case by (simp add: typing_started_def List.map_filter_def)
next
  case (Cons oper opers)
  obtain m1 cs1 where op: "do_op m oper = (m1, cs1)" by fastforce
  obtain m2 cs2 where rest: "do_ops m1 opers = (m2, cs2)" by fastforce
  note a = op_accounts [OF Cons.prems(1) op]
  note ih = Cons.IH [OF a(2) rest]
  from op rest Cons.prems(2) have m': "m' = m2" and cs: "cs = cs1 @ cs2" by simp_all
  have "typing_on m + typing_started (oper # opers) = (typing_on m + typing_started [oper]) + typing_started opers"
    by (simp only: typing_started_Cons [of oper opers] add.assoc)
  also have "\<dots> = typing_stopped cs1 + (typing_on m1 + typing_started opers)"
    by (simp only: a(1) add.assoc)
  also have "\<dots> = typing_stopped cs + typing_on m'"
    using ih by (simp only: m' cs typing_stopped_append add.assoc)
  finally show ?case using ih m' by simp
qed


definition demo_ops :: "mgr_op list" where
  "demo_ops = [OpTyping ''irc'' ''c'' 1 0, OpReaction ''irc'' ''c'' 7 0, OpPlaceholder ''irc'' ''c'' ''p1'' 0,
     OpTyping ''irc'' ''c'' 2 5, OpReaction ''irc'' ''c'' 8 5, OpPlaceholder ''irc'' ''c'' ''p2'' 5,
     OpTyping ''irc'' ''d'' 3 6, OpSend demo_platform True ''irc'' (demo_out\<lparr>OutChatID := ''c''\<rparr>)]"

lemma demo_indicators: "snd (do_ops no_indicators demo_ops) =
    [StopTyping 1, StopTyping 2, UndoReaction 8, EditMessage ''c'' ''p2'' ''one two three'' True]"
  and demo_rest: "typingStops (fst (do_ops no_indicators demo_ops)) = [(''irc:d'', 3, 6)]"
  and demo_left: "reactionUndos (fst (do_ops no_indicators demo_ops)) = []"
  and demo_none: "placeholders (fst (do_ops no_indicators demo_ops)) = []"
  by code_simp+


text \<open>Reactions and placeholders of two messages that arrive before the first answer are lost: the second one
  replaces the first in the map without undoing it, so that after the answer the first reaction (7) and the
  first placeholder (\<open>p1\<close>) are still shown in the chat and nothing will ever remove them.\<close>

theorem second_message_orphans_indicators:
  "let (m', cs) = do_ops no_indicators demo_ops in
     UndoReaction 7 \<notin> set cs \<and> reactionUndos m' = [] \<and>
     list_all (\<lambda>c. case c of EditMessage chat i t ok \<Rightarrow> i \<noteq> ''p1'' | _ \<Rightarrow> True) cs \<and> placeholders m' = []"
  using demo_indicators demo_left demo_none by (auto simp: split_beta)

text \<open>A sender that the allow-list does not admit leaves no trace: nothing is published and no indicator changes. What is offered to
  the bus for an admitted one is a message of the channel itself, with the sender's canonical identity where there is one (the
  raw identifier otherwise, also for a sender that was admitted by its platform identity), and it is published exactly when
  the bus takes it.\<close>

theorem only_admitted_published:
  assumes "HandleMessage c m re now uid peer messageID senderID chatID content mediaFiles metadata sender bus_takes = (m', cs, out)"
  shows "if sender_admitted (AllowList c) sender senderID
    then \<exists>msg. out = (if bus_takes then PublishedMsg msg else PublishFailed msg) \<and> MsgChannel msg = ChanName c \<and>
      MsgSenderID msg = (if CanonicalID sender = [] then senderID else CanonicalID sender) \<and> InSender msg = sender \<and>
      MsgChatID msg = chatID \<and> MsgSessionKey msg = [] \<and> InContent msg = content
    else out = NotAdmitted \<and> m' = m \<and> cs = []"
proof (cases "sender_admitted (AllowList c) sender senderID")
  case True
  have "snd (snd (HandleMessage c m re now uid peer messageID senderID chatID content mediaFiles metadata sender bus_takes)) =
      (if bus_takes then PublishedMsg else PublishFailed) \<lparr>MsgChannel = ChanName c,
        MsgSenderID = (if CanonicalID sender = [] then senderID else CanonicalID sender),
        MsgChatID = chatID, MsgSessionKey = [], MsgPeerKind = fst peer, MsgPeerID = snd peer, MsgMetadata = metadata,
        InSender = sender, InContent = content, InMedia = mediaFiles, InMessageID = messageID,
        InMediaScope = BuildMediaScope uid (ChanName c) chatID messageID\<rparr>"
    using True by (simp add: HandleMessage_def Let_def split_beta)
  with assms True show ?thesis by simp
next
  case False
  with assms show ?thesis by (simp add: HandleMessage_def)
qed

definition irc_channel :: base_channel where
  "irc_channel = \<lparr>ChanName = ''irc'', AllowList = [''irc:bob''], ChanPlatform = demo_platform, HasOwner = True\<rparr>"

theorem only_admitted_published_witness:
  "snd (snd (HandleMessage irc_channel no_indicators \<lparr>TypingReply = Some 1, ReactionReply = None, PlaceholderReply = None\<rparr> 0
     ''u'' (''direct'', []) ''m1'' ''42'' ''room'' ''hi'' [] [] telegram_sender True)) = NotAdmitted"
proof -
  let ?run = "HandleMessage irc_channel no_indicators \<lparr>TypingReply = Some 1, ReactionReply = None, PlaceholderReply = None\<rparr> 0
     ''u'' (''direct'', []) ''m1'' ''42'' ''room'' ''hi'' [] [] telegram_sender True"
  have no: "\<not> sender_admitted (AllowList irc_channel) telegram_sender ''42''" by code_simp
  obtain m' cs out where run: "?run = (m', cs, out)" by (metis prod_cases3)
  from only_admitted_published [OF run] no have "out = NotAdmitted" by simp
  then show ?thesis using run by (simp only: snd_conv)
qed

end
