(* ===== verification/ShellGuard.thy ===== *)
theory ShellGuard
  imports FileTools ErrorClassifier Channels
begin

text \<open>
  The guard of the tool \<open>exec\<close>: \<open>pkg/tools/shell.go\<close>. A regular expression with alternatives is a list of
  sequences (theory \<open>ErrorClassifier\<close>); patterns of the configuration are predicates. What a started command does is
  the argument \<open>run\<close>; the process itself, its output streams and its termination are the operating system's.
\<close>

section \<open>Patterns\<close>

definition some_of :: "(char \<Rightarrow> bool) \<Rightarrow> rx list" where "some_of f = [One f, Many f]"

definition spaces :: "rx list" where "spaces = some_of re_space"
definition blanks :: "rx list" where "blanks = [Many re_space]"

definition word :: "string \<Rightarrow> rx list" where "word s = Boundary # lit s @ [Boundary]"

definition words2 :: "string \<Rightarrow> string \<Rightarrow> rx list" where
  "words2 a b = Boundary # lit a @ spaces @ lit b @ [Boundary]"

definition defaultDenyPatterns :: "rx list list" where
  "defaultDenyPatterns =
     [Boundary # lit ''rm'' @ spaces @ lit ''-'' @ [One (among ''rf''), Opt (among ''rf''), Boundary],
      Boundary # lit ''del'' @ spaces @ lit ''/'' @ [One (among ''fq''), Boundary],
      Boundary # lit ''rmdir'' @ spaces @ lit ''/s'' @ [Boundary],
      word ''format'' @ [One re_space], word ''mkfs'' @ [One re_space], word ''diskpart'' @ [One re_space],
      Boundary # lit ''dd'' @ spaces @ lit ''if='',
      lit ''>'' @ blanks @ lit ''/dev/sd'' @ [One is_lower], lit ''>'' @ blanks @ lit ''/dev/hd'' @ [One is_lower],
      lit ''>'' @ blanks @ lit ''/dev/vd'' @ [One is_lower], lit ''>'' @ blanks @ lit ''/dev/xvd'' @ [One is_lower],
      lit ''>'' @ blanks @ lit ''/dev/nvme'' @ [One is_digit], lit ''>'' @ blanks @ lit ''/dev/mmcblk'' @ [One is_digit],
      lit ''>'' @ blanks @ lit ''/dev/loop'' @ [One is_digit], lit ''>'' @ blanks @ lit ''/dev/dm-'' @ [One is_digit],
      lit ''>'' @ blanks @ lit ''/dev/md'' @ [One is_digit], lit ''>'' @ blanks @ lit ''/dev/sr'' @ [One is_digit],
      lit ''>'' @ blanks @ lit ''/dev/nbd'' @ [One is_digit],
      word ''shutdown'', word ''reboot'', word ''poweroff'',
      lit '':()'' @ blanks @ lit ''{'' @ [Many dot] @ lit ''};'' @ blanks @ lit '':'',
      lit ''$('' @ some_of (\<lambda>c. c \<noteq> CHR '')'') @ lit '')'',
      lit ''${'' @ some_of (\<lambda>c. c \<noteq> CHR ''}'') @ lit ''}'',
      [One (\<lambda>c. c = CHR 0x60)] @ some_of (\<lambda>c. c \<noteq> CHR 0x60) @ [One (\<lambda>c. c = CHR 0x60)],
      lit ''|'' @ blanks @ lit ''sh'' @ [Boundary], lit ''|'' @ blanks @ lit ''bash'' @ [Boundary],
      lit '';'' @ blanks @ lit ''rm'' @ spaces @ lit ''-'' @ [One (among ''rf'')],
      lit ''&&'' @ blanks @ lit ''rm'' @ spaces @ lit ''-'' @ [One (among ''rf'')],
      lit ''||'' @ blanks @ lit ''rm'' @ spaces @ lit ''-'' @ [One (among ''rf'')],
      lit ''<<'' @ blanks @ lit ''EOF'',
      lit ''$('' @ blanks @ lit ''cat'' @ spaces, lit ''$('' @ blanks @ lit ''curl'' @ spaces,
      lit ''$('' @ blanks @ lit ''wget'' @ spaces, lit ''$('' @ blanks @ lit ''which'' @ spaces,
      word ''sudo'',
      Boundary # lit ''chmod'' @ spaces @
        [One (among ''01234567''), One (among ''01234567''), One (among ''01234567''), Opt (among ''01234567''), Boundary],
      word ''chown'', word ''pkill'', word ''killall'', word ''kill'',
      word ''curl'' @ [Many dot] @ lit ''|'' @ blanks @ lit ''sh'', word ''curl'' @ [Many dot] @ lit ''|'' @ blanks @ lit ''bash'',
      word ''wget'' @ [Many dot] @ lit ''|'' @ blanks @ lit ''sh'', word ''wget'' @ [Many dot] @ lit ''|'' @ blanks @ lit ''bash'',
      Boundary # lit ''npm'' @ spaces @ lit ''install'' @ spaces @ lit ''-g'' @ [Boundary],
      Boundary # lit ''pip'' @ spaces @ lit ''install'' @ spaces @ lit ''--user'' @ [Boundary],
      words2 ''apt'' ''install'', words2 ''apt'' ''remove'', words2 ''apt'' ''purge'',
      words2 ''yum'' ''install'', words2 ''yum'' ''remove'', words2 ''dnf'' ''install'', words2 ''dnf'' ''remove'',
      words2 ''docker'' ''run'', words2 ''docker'' ''exec'', words2 ''git'' ''push'', words2 ''git'' ''force'',
      word ''ssh'' @ [Many dot] @ lit ''@'', word ''eval'',
      Boundary # lit ''source'' @ spaces @ [Many dot] @ lit ''.sh'' @ [Boundary]]"

section \<open>Absolute paths in a command\<close>

definition quote_char :: "char \<Rightarrow> bool" where "quote_char c \<longleftrightarrow> c = CHR 0x22 \<or> c = CHR 0x27"

definition unix_path_char :: "char \<Rightarrow> bool" where "unix_path_char c \<longleftrightarrow> \<not> re_space c \<and> \<not> quote_char c"

definition windows_path_char :: "char \<Rightarrow> bool" where "windows_path_char c \<longleftrightarrow> c \<noteq> backslash \<and> \<not> quote_char c"

text \<open>The length of a match of \<open>absolutePathPattern\<close> at the start of a text, or 0.\<close>

definition path_match :: "string \<Rightarrow> nat" where
  "path_match s =
     (let win = (case s of
            a # b # c # r \<Rightarrow>
              if (is_upper a \<or> is_lower a) \<and> b = CHR '':'' \<and> c = backslash then length (takeWhile windows_path_char r) else 0
          | _ \<Rightarrow> 0);
          unix = (case s of
            c # r \<Rightarrow> if c = slash then length (takeWhile unix_path_char r) else 0
          | [] \<Rightarrow> 0)
      in if 0 < win then win + 3 else if 0 < unix then unix + 1 else 0)"

text \<open>\<open>FindAllStringIndex\<close>: each match with the text before it, given in reverse.\<close>

function path_matches :: "string \<Rightarrow> string \<Rightarrow> (string \<times> string) list" where
  "path_matches before [] = []"
| "path_matches before (c # s) =
     (let n = path_match (c # s) in
      if n = 0 then path_matches (c # before) s
      else (before, take n (c # s)) # path_matches (rev (take n (c # s)) @ before) (drop n (c # s)))"
  by pat_completeness auto
termination by (relation "measure (length \<circ> snd)") auto

definition webSchemes :: "string list" where
  "webSchemes = [''http:'', ''https:'', ''ftp:'', ''ftps:'', ''sftp:'', ''ssh:'', ''git:'']"

definition is_web_url :: "string \<Rightarrow> string \<Rightarrow> bool" where
  "is_web_url before raw \<longleftrightarrow> HasPrefix raw ''//'' \<and> before \<noteq> [] \<and> list_ex (\<lambda>sch. HasPrefix before (rev sch)) webSchemes"

definition safePaths :: "string list" where
  "safePaths = [''/dev/null'', ''/dev/zero'', ''/dev/random'', ''/dev/urandom'', ''/dev/stdin'', ''/dev/stdout'', ''/dev/stderr'']"

section \<open>The guard\<close>

record exec_tool =
  WorkingDir :: string
  RestrictToWorkspace :: bool
  AllowRemote :: bool
  DenyPatterns :: "rx list list"
  CustomAllow :: "(string \<Rightarrow> bool) list"
  AllowPatterns :: "(string \<Rightarrow> bool) list"
  AllowedPaths :: "allow_pattern list"

datatype guard_error = DangerousPattern | NotInAllowlist | PathTraversal | PathOutside

definition path_refused :: "filesystem \<Rightarrow> string \<Rightarrow> allow_pattern list \<Rightarrow> string \<Rightarrow> string \<times> string \<Rightarrow> bool" where
  "path_refused fs pwd allowed cwdPath m =
     (let (before, raw) = m in
      if is_web_url before raw then False
      else
        let p = Abs_path pwd raw in
        if p \<in> set safePaths then False
        else if isAllowedPath fs allowed p then False
        else (case Rel cwdPath p of None \<Rightarrow> False | Some rel \<Rightarrow> HasPrefix rel ''..''))"

definition guardCommand :: "exec_tool \<Rightarrow> filesystem \<Rightarrow> string \<Rightarrow> string \<Rightarrow> string \<Rightarrow> guard_error option" where
  "guardCommand t fs pwd command cwd =
     (let cmd = TrimSpace command; lower = ToLower cmd in
      if \<not> list_ex (\<lambda>p. p lower) (CustomAllow t) \<and> list_ex (\<lambda>r. MatchString r lower) (DenyPatterns t)
      then Some DangerousPattern
      else if AllowPatterns t \<noteq> [] \<and> \<not> list_ex (\<lambda>p. p lower) (AllowPatterns t) then Some NotInAllowlist
      else if RestrictToWorkspace t then
        (if Contains cmd (''..'' @ [backslash]) \<or> Contains cmd ''../'' then Some PathTraversal
         else if list_ex (path_refused fs pwd (AllowedPaths t) (Abs_path pwd cwd)) (path_matches [] cmd) then Some PathOutside
         else None)
      else None)"

section \<open>Execution\<close>

datatype exec_outcome =
  StartFailed string
| TimedOut
| Ran string string "string option"  \<comment> \<open>standard output, standard error, error of the exit\<close>

datatype exec_refusal =
  NoCommand | RemoteChannel | BadWorkingDir path_error | Guarded guard_error | ResolveFailed fs_error | DirEscaped

definition exec_text :: "string \<Rightarrow> string \<Rightarrow> string option \<Rightarrow> string" where
  "exec_text out err exit =
     (let nl = [CHR 0x0A];
          o1 = (if err \<noteq> [] then out @ nl @ ''STDERR:'' @ nl @ err else out);
          o2 = (case exit of Some e \<Rightarrow> o1 @ nl @ ''Exit code: '' @ e | None \<Rightarrow> o1);
          o3 = (if o2 = [] then ''(no output)'' else o2)
      in if 10000 < length o3
         then take 10000 o3 @ nl @ ''... (truncated, '' @ decimal (length o3 - 10000) @ '' more chars)'' else o3)"

definition remote_refused :: "exec_tool \<Rightarrow> string \<Rightarrow> (string \<times> json) list \<Rightarrow> bool" where
  "remote_refused t ctxChannel args =
     (if AllowRemote t then False
      else
        let channel = TrimSpace (if ctxChannel = []
              then (case string_arg args ''__channel'' of Some c \<Rightarrow> c | None \<Rightarrow> []) else ctxChannel)
        in channel = [] \<or> \<not> IsInternalChannel channel)"

text \<open>The directory that the command starts in: first from the arguments, then with its links resolved.\<close>

definition exec_dir :: "exec_tool \<Rightarrow> filesystem \<Rightarrow> string \<Rightarrow> (string \<times> json) list \<Rightarrow> path_error + string" where
  "exec_dir t fs pwd args =
     (let wd = (case string_arg args ''working_dir'' of Some d \<Rightarrow> d | None \<Rightarrow> []);
          cwd = (if wd = [] then Inr (WorkingDir t)
                 else if RestrictToWorkspace t \<and> WorkingDir t \<noteq> []
                 then validatePathWithAllowPaths fs pwd wd (WorkingDir t) True (AllowedPaths t)
                 else Inr wd)
      in case cwd of Inl e \<Rightarrow> Inl e | Inr d \<Rightarrow> Inr (if d = [] then pwd else d))"

definition resolve_dir :: "exec_tool \<Rightarrow> filesystem \<Rightarrow> string \<Rightarrow> string \<Rightarrow> exec_refusal + string" where
  "resolve_dir t fs pwd cwd =
     (if RestrictToWorkspace t \<and> WorkingDir t \<noteq> [] \<and> cwd \<noteq> WorkingDir t then
        (case EvalSymlinks fs cwd of
           Inl e \<Rightarrow> Inl (ResolveFailed e)
         | Inr resolved \<Rightarrow>
             if isAllowedPath fs (AllowedPaths t) resolved then Inr resolved
             else
               (case Rel (real_workspace fs (Abs_path pwd (WorkingDir t))) resolved of
                  None \<Rightarrow> Inl DirEscaped
                | Some rel \<Rightarrow> if \<not> IsLocal rel then Inl DirEscaped else Inr resolved))
      else Inr cwd)"

definition admit_command ::
  "exec_tool \<Rightarrow> filesystem \<Rightarrow> string \<Rightarrow> string \<Rightarrow> (string \<times> json) list \<Rightarrow> exec_refusal + string \<times> string" where
  "admit_command t fs pwd ctxChannel args =
     (case string_arg args ''command'' of
        None \<Rightarrow> Inl NoCommand
      | Some command \<Rightarrow>
          if remote_refused t ctxChannel args then Inl RemoteChannel
          else
            (case exec_dir t fs pwd args of
               Inl e \<Rightarrow> Inl (BadWorkingDir e)
             | Inr cwd \<Rightarrow>
                 (case guardCommand t fs pwd command cwd of
                    Some e \<Rightarrow> Inl (Guarded e)
                  | None \<Rightarrow> (case resolve_dir t fs pwd cwd of Inl e \<Rightarrow> Inl e | Inr d \<Rightarrow> Inr (command, d)))))"

definition Exec_Execute ::
  "exec_tool \<Rightarrow> filesystem \<Rightarrow> string \<Rightarrow> string \<Rightarrow> (exec_refusal \<Rightarrow> string) \<Rightarrow> string \<Rightarrow> (string \<Rightarrow> string \<Rightarrow> exec_outcome) \<Rightarrow>
   (string \<times> json) list \<Rightarrow> ToolResult \<times> (string \<times> string) option" where
  "Exec_Execute t fs pwd ctxChannel show timeoutText run args =
     (case admit_command t fs pwd ctxChannel args of
        Inl e \<Rightarrow> (ErrorResult (show e), None)
      | Inr (command, dir) \<Rightarrow>
          ((case run command dir of
              StartFailed e \<Rightarrow> ErrorResult (''failed to start command: '' @ e)
            | TimedOut \<Rightarrow>
                (let msg = ''Command timed out after '' @ timeoutText
                 in (NewToolResult msg)\<lparr>ForUser := msg, IsError := True\<rparr>)
            | Ran out err exit \<Rightarrow>
                (let txt = exec_text out err exit
                 in (NewToolResult txt)\<lparr>ForUser := txt, IsError := (exit \<noteq> None)\<rparr>)), Some (command, dir)))"

section \<open>What the guard keeps out\<close>

lemma path_matches_split:
  "(b, raw) \<in> set (path_matches before s) \<Longrightarrow> \<exists>pre post. s = pre @ raw @ post \<and> b = rev pre @ before"
proof (induction before s rule: path_matches.induct)
  case (2 before c s)
  let ?n = "path_match (c # s)"
  show ?case
  proof (cases "?n = 0")
    case True
    with 2(1) 2(3) obtain pre post where "s = pre @ raw @ post" "b = rev pre @ c # before" by auto
    then show ?thesis by (intro exI [of _ "c # pre"] exI [of _ post]) simp
  next
    case False
    with 2(3) consider "b = before" "raw = take ?n (c # s)"
      | "(b, raw) \<in> set (path_matches (rev (take ?n (c # s)) @ before) (drop ?n (c # s)))"
      by (auto simp: Let_def)
    then show ?thesis
    proof cases
      case 1
      then show ?thesis by (intro exI [of _ "[]"] exI [of _ "drop ?n (c # s)"]) simp
    next
      case 2
      from "2.IH"(2) [OF refl False this] obtain pre post
        where "drop ?n (c # s) = pre @ raw @ post" "b = rev pre @ rev (take ?n (c # s)) @ before" by auto
      moreover have "c # s = take ?n (c # s) @ drop ?n (c # s)" by simp
      ultimately show ?thesis
        by (intro exI [of _ "take ?n (c # s) @ pre"] exI [of _ post]) (metis append.assoc rev_append)
    qed
  qed
qed simp

lemma outside_rel:
  assumes "is_abs p" and "is_abs cwd" and "\<not> prefix (comps cwd) (comps p)"
  shows "\<exists>rel. Rel cwd p = Some rel \<and> HasPrefix rel ''..''"
proof -
  let ?b = "comps cwd" and ?t = "comps p"
  have ne: "Clean p \<noteq> Clean cwd" using assms Clean_eq_iff [OF assms(1,2)] by auto
  have "''..'' \<notin> set ?b" by (rule abs_no_dots [OF assms(2)])
  moreover from strip_common_cases [of ?t ?b] assms(3) obtain b bs' ts'
    where r: "strip_common ?b ?t = (b # bs', ts')" "b \<in> set ?b" by auto
  ultimately have "b \<noteq> ''..''" by auto
  moreover have "Clean p \<noteq> ''.''" using assms(1) is_abs_Clean [of p] by (auto simp: is_abs_def)
  ultimately have "Rel cwd p = Some (join_with slash (replicate (length (b # bs')) ''..'' @ ts'))"
    using r ne assms by (simp add: Rel_def Let_def)
  moreover have "HasPrefix (join_with slash (''..'' # xs)) ''..''" for xs
    by (cases xs) (auto simp: HasPrefix_def)
  ultimately show ?thesis by auto
qed

text \<open>C24. In a restricted workspace a command that the guard lets pass names no absolute path outside of its directory but those
  that the allow-list opens: every match of the path pattern in it is the part of a web address after its scheme, one of the
  harmless devices, a path that the configured patterns allow, or a path that lies in the directory of the command, component
  by component. The working directory of the process is absolute. (What the pattern does not match, as \<open>cd ..\<close>, is not looked at.)\<close>

theorem guarded_paths_inside:
  assumes "guardCommand t fs pwd command cwd = None" and "RestrictToWorkspace t"
    and "(before, raw) \<in> set (path_matches [] (TrimSpace command))" and "is_abs pwd"
  shows "is_web_url before raw \<or> Abs_path pwd raw \<in> set safePaths \<or> isAllowedPath fs (AllowedPaths t) (Abs_path pwd raw) \<or>
    prefix (comps (Abs_path pwd cwd)) (comps (Abs_path pwd raw))"
proof (rule ccontr)
  assume no: "\<not> ?thesis"
  have abs: "is_abs (Abs_path pwd raw)" "is_abs (Abs_path pwd cwd)" using abs_Abs_path [OF assms(4)] by auto
  from outside_rel [OF abs] no obtain rel
    where "Rel (Abs_path pwd cwd) (Abs_path pwd raw) = Some rel" "HasPrefix rel ''..''" by auto
  with no have "path_refused fs pwd (AllowedPaths t) (Abs_path pwd cwd) (before, raw)"
    by (simp add: path_refused_def Let_def)
  with assms(1-3) show False
    by (auto simp: guardCommand_def Let_def list_ex_iff split: if_splits)
qed

text \<open>A text without any character of some class that a pattern asks for does not match it.\<close>

fun lacks :: "rx list \<Rightarrow> string \<Rightarrow> bool" where
  "lacks [] s = False"
| "lacks (One f # r) s = (\<not> list_ex f s \<or> lacks r s)"
| "lacks (x # r) s = lacks r s"

lemma rel_lacks: "rx_rel r p s \<Longrightarrow> \<not> lacks r s"
proof (induction rule: rx_rel.induct)
  have mono: "lacks r (c # s) \<Longrightarrow> lacks r s" for r c s by (induction r s rule: lacks.induct) auto
  {
    case (rel_one r c s f p)
    then show ?case using mono by auto
  next
    case (rel_opt_some r c s f p)
    then show ?case using mono by auto
  next
    case (rel_many_more f r c s p)
    then show ?case using mono by fastforce
  }
qed auto

lemma no_match: "lacks r s \<Longrightarrow> \<not> MatchString r s"
proof -
  assume l: "lacks r s"
  have mono: "lacks r (pre @ post) \<Longrightarrow> lacks r post" for pre post
    by (induction r post rule: lacks.induct) auto
  show ?thesis
  proof
    assume "MatchString r s"
    then obtain pre post q where "s = pre @ post" "rx_rel r q post"
      using rx_find_iff [of r None s] by (auto simp: MatchString_def)
    with rel_lacks mono l show False by blast
  qed
qed

definition demo_tool :: exec_tool where
  "demo_tool = \<lparr>WorkingDir = ''/w'', RestrictToWorkspace = True, AllowRemote = False, DenyPatterns = defaultDenyPatterns,
     CustomAllow = [], AllowPatterns = [], AllowedPaths = []\<rparr>"

lemma not_denied: "list_all (\<lambda>r. lacks r s) defaultDenyPatterns \<Longrightarrow> \<not> list_ex (\<lambda>r. MatchString r s) defaultDenyPatterns"
  using no_match by (auto simp: list_all_iff list_ex_iff)

lemma demo_allowed:
  "list_all (\<lambda>r. lacks r (ToLower (TrimSpace ''cat /w/a''))) defaultDenyPatterns"
  "list_all (\<lambda>r. lacks r (ToLower (TrimSpace ''cd ..;cat x''))) defaultDenyPatterns"
  "list_all (\<lambda>r. lacks r (ToLower (TrimSpace ''echo https://x;cat</etc/passwd''))) defaultDenyPatterns"
  by code_simp+

lemma demo_matches:
  "path_matches [] (TrimSpace ''cat /w/a'') = [('' tac'', ''/w/a'')]"
  "path_matches [] (TrimSpace ''cd ..;cat x'') = []"
  "path_matches [] (TrimSpace ''echo https://x;cat</etc/passwd'') = [('':sptth ohce'', ''//x;cat</etc/passwd'')]"
  "\<not> path_refused plain_fs ''/'' [] (Abs_path ''/'' ''/w'') ('' tac'', ''/w/a'')"
  "\<not> path_refused plain_fs ''/'' [] (Abs_path ''/'' ''/w'') ('':sptth ohce'', ''//x;cat</etc/passwd'')"
  by code_simp+

lemma demo_traversal:
  "\<not> Contains (TrimSpace ''cat /w/a'') (''..'' @ [backslash]) \<and> \<not> Contains (TrimSpace ''cat /w/a'') ''../''"
  "\<not> Contains (TrimSpace ''cd ..;cat x'') (''..'' @ [backslash]) \<and> \<not> Contains (TrimSpace ''cd ..;cat x'') ''../''"
  "\<not> Contains (TrimSpace ''echo https://x;cat</etc/passwd'') (''..'' @ [backslash]) \<and>
   \<not> Contains (TrimSpace ''echo https://x;cat</etc/passwd'') ''../''"
  by code_simp+

lemma demo_guarded:
  "guardCommand demo_tool plain_fs ''/'' ''cat /w/a'' ''/w'' = None"
  "guardCommand demo_tool plain_fs ''/'' ''cd ..;cat x'' ''/w'' = None"
  "guardCommand demo_tool plain_fs ''/'' ''echo https://x;cat</etc/passwd'' ''/w'' = None"
  using demo_allowed [THEN not_denied] demo_matches demo_traversal
  by (simp_all add: guardCommand_def Let_def demo_tool_def)


theorem guarded_paths_inside_witness:
  "is_web_url '' tac'' ''/w/a'' \<or> Abs_path ''/'' ''/w/a'' \<in> set safePaths \<or>
   prefix (comps (Abs_path ''/'' ''/w'')) (comps (Abs_path ''/'' ''/w/a''))"
  using guarded_paths_inside [OF demo_guarded(1)] demo_matches(1) by (simp add: demo_tool_def is_abs_def isAllowedPath_def)

text \<open>The guard of a restricted workspace lets commands pass that leave it: \<open>cd ..\<close> has no slash after the dots, and a
  web address exempts everything up to the next blank or quote, a redirection from another absolute path included.\<close>

theorem guard_lets_escapes_pass:
  "guardCommand demo_tool plain_fs ''/'' ''cd ..;cat x'' ''/w'' = None \<and>
   guardCommand demo_tool plain_fs ''/'' ''echo https://x;cat</etc/passwd'' ''/w'' = None"
  using demo_guarded by simp

text \<open>A command of a restricted tool starts only after the guard let it pass, and in a directory that, with all links
  resolved, lies in the real workspace (or is the configured directory itself).\<close>

theorem exec_starts_inside:
  assumes "Exec_Execute t fs pwd ctxChannel show timeoutText run args = (res, Some (command, dir))"
    and "RestrictToWorkspace t" and "WorkingDir t \<noteq> []" and "AllowedPaths t = []" and "is_abs pwd"
  shows "(\<exists>cwd. guardCommand t fs pwd command cwd = None) \<and>
    (dir = WorkingDir t \<or> prefix (comps (real_workspace fs (Abs_path pwd (WorkingDir t)))) (comps dir))"
proof -
  let ?ws = "real_workspace fs (Abs_path pwd (WorkingDir t))"
  from assms(1) have adm: "admit_command t fs pwd ctxChannel args = Inr (command, dir)"
    by (auto simp: Exec_Execute_def split: sum.splits prod.splits)
  then obtain cwd where g: "guardCommand t fs pwd command cwd = None" and d: "resolve_dir t fs pwd cwd = Inr dir"
    by (auto simp: admit_command_def split: option.splits if_splits sum.splits)
  have ws: "is_abs ?ws"
    using abs_Abs_path [OF assms(5)] EvalSymlinks_abs by (auto simp: real_workspace_def split: sum.split)
  have "prefix (comps ?ws) (comps dir)" if "dir \<noteq> WorkingDir t"
  proof -
    from d that assms(2-4) obtain rel where ev: "EvalSymlinks fs cwd = Inr dir" and rel: "Rel ?ws dir = Some rel" "IsLocal rel"
      by (auto simp: resolve_dir_def isAllowedPath_def split: if_splits sum.splits option.splits)
    then have "isWithinWorkspace dir ?ws" by (simp add: isWithinWorkspace_def Rel_def)
    then show ?thesis using within_iff [OF EvalSymlinks_abs [OF ev] ws] by simp
  qed
  with g show ?thesis by blast
qed

theorem exec_starts_inside_witness:
  "\<exists>res. Exec_Execute demo_tool plain_fs ''/'' ''cli'' (\<lambda>e. []) [] (\<lambda>c d. Ran ''one two'' [] None) [(''command'', JString ''cat /w/a'')] =
      (res, Some (''cat /w/a'', ''/w'')) \<and> (\<exists>cwd. guardCommand demo_tool plain_fs ''/'' ''cat /w/a'' cwd = None)"
proof -
  let ?run = "Exec_Execute demo_tool plain_fs ''/'' ''cli'' (\<lambda>e. []) [] (\<lambda>c d. Ran ''one two'' [] None) [(''command'', JString ''cat /w/a'')]"
  have "\<not> remote_refused demo_tool ''cli'' [(''command'', JString ''cat /w/a'')]" by code_simp
  then have "snd ?run = Some (''cat /w/a'', ''/w'')"
    using demo_guarded(1)
    by (simp add: Exec_Execute_def admit_command_def string_arg_def exec_dir_def resolve_dir_def demo_tool_def)
  then have run: "?run = (fst ?run, Some (''cat /w/a'', ''/w''))" by (metis prod.collapse)
  from exec_starts_inside [OF run] have "\<exists>cwd. guardCommand demo_tool plain_fs ''/'' ''cat /w/a'' cwd = None"
    by (simp add: demo_tool_def is_abs_def)
  with run show ?thesis by blast
qed

text \<open>The restriction to internal channels does not hold without a channel in the context: the arguments, which the model
  writes, then name the channel themselves.\<close>

theorem remote_channel_from_arguments:
  assumes "map_of args ''__channel'' = Some (JString ''cli'')"
  shows "\<not> remote_refused t [] args"
proof -
  have "TrimSpace ''cli'' = ''cli''" "IsInternalChannel ''cli''" by code_simp+
  with assms show ?thesis by (simp add: remote_refused_def string_arg_def Let_def)
qed

theorem remote_channel_from_arguments_witness:
  "\<not> remote_refused demo_tool [] [(''command'', JString ''id''), (''__channel'', JString ''cli'')]"
  by (rule remote_channel_from_arguments) simp

end
