(* ===== verification/ChannelDispatch.thy ===== *)
theory ChannelDispatch
  imports Channels
begin

text \<open>
  The goroutines behind the channels of \<open>pkg/channels/manager.go\<close>: the dispatcher that takes messages from the bus
  (\<open>dispatchLoop\<close>), a worker with a bounded queue for each started channel (\<open>runWorker\<close>), callers that put messages into a
  queue directly (\<open>SendToChannel\<close>), and the shutdown (\<open>StopAll\<close>). A step is one action of one of them; a message that came from the
  bus is marked with \<open>True\<close> in a queue. The handling of a message by its worker is one step here: \<open>work_message\<close> of
  theory \<open>Channels\<close> says what it does.
\<close>

record out_state =
  BusQueue :: "OutboundMessage list"
  Held :: "OutboundMessage option"
  WorkQueue :: "string \<Rightarrow> (bool \<times> OutboundMessage) list"
  Handled :: "string \<Rightarrow> (bool \<times> OutboundMessage) list"
  BusLog :: "OutboundMessage list"
  Cancelled :: bool

record out_config =
  Registered :: "string set"
  Working :: "string set"

definition routable :: "out_config \<Rightarrow> string \<Rightarrow> bool" where
  "routable cfg c \<longleftrightarrow> \<not> IsInternalChannel c \<and> c \<in> Registered cfg \<and> c \<in> Working cfg"

definition out_init :: out_state where
  "out_init = \<lparr>BusQueue = [], Held = None, WorkQueue = (\<lambda>c. []), Handled = (\<lambda>c. []), BusLog = [], Cancelled = False\<rparr>"

definition enqueue :: "string \<Rightarrow> bool \<times> OutboundMessage \<Rightarrow> out_state \<Rightarrow> out_state" where
  "enqueue c x s = s\<lparr>WorkQueue := (WorkQueue s)(c := WorkQueue s c @ [x])\<rparr>"

inductive out_step :: "out_config \<Rightarrow> out_state \<Rightarrow> out_state \<Rightarrow> bool" for cfg :: out_config where
  publish: "out_step cfg s (s\<lparr>BusQueue := BusQueue s @ [msg], BusLog := BusLog s @ [msg]\<rparr>)"
| skip: "BusQueue s = msg # q \<Longrightarrow> Held s = None \<Longrightarrow> \<not> routable cfg (OutChannel msg) \<Longrightarrow> out_step cfg s (s\<lparr>BusQueue := q\<rparr>)"
| take: "BusQueue s = msg # q \<Longrightarrow> Held s = None \<Longrightarrow> routable cfg (OutChannel msg) \<Longrightarrow>
    out_step cfg s (s\<lparr>BusQueue := q, Held := Some msg\<rparr>)"
| hand_over: "Held s = Some msg \<Longrightarrow> length (WorkQueue s (OutChannel msg)) < defaultChannelQueueSize \<Longrightarrow>
    out_step cfg s (enqueue (OutChannel msg) (True, msg) (s\<lparr>Held := None\<rparr>))"
| give_up: "Held s = Some msg \<Longrightarrow> Cancelled s \<Longrightarrow> out_step cfg s (s\<lparr>Held := None\<rparr>)"
| direct: "c \<in> Working cfg \<Longrightarrow> c \<in> Registered cfg \<Longrightarrow> length (WorkQueue s c) < defaultChannelQueueSize \<Longrightarrow>
    out_step cfg s (enqueue c (False, msg) s)"
| work: "WorkQueue s c = x # q \<Longrightarrow> \<not> Cancelled s \<Longrightarrow>
    out_step cfg s (s\<lparr>WorkQueue := (WorkQueue s)(c := q), Handled := (Handled s)(c := Handled s c @ [x])\<rparr>)"
| abandon: "WorkQueue s c = x # q \<Longrightarrow> Cancelled s \<Longrightarrow> out_step cfg s (s\<lparr>WorkQueue := (WorkQueue s)(c := q)\<rparr>)"
| cancel: "out_step cfg s (s\<lparr>Cancelled := True\<rparr>)"

inductive_cases out_stepE: "out_step cfg s s'"

definition from_bus :: "(bool \<times> OutboundMessage) list \<Rightarrow> OutboundMessage list" where
  "from_bus xs = map snd (filter fst xs)"

definition held_for :: "string \<Rightarrow> out_state \<Rightarrow> OutboundMessage list" where
  "held_for c s = (case Held s of Some msg \<Rightarrow> if OutChannel msg = c then [msg] else [] | None \<Rightarrow> [])"

definition to_channel :: "string \<Rightarrow> OutboundMessage list \<Rightarrow> OutboundMessage list" where
  "to_channel c ms = filter (\<lambda>m. OutChannel m = c) ms"

text \<open>What is on its way to a channel, oldest first.\<close>

definition on_the_way :: "string \<Rightarrow> out_state \<Rightarrow> OutboundMessage list" where
  "on_the_way c s = from_bus (Handled s c) @ from_bus (WorkQueue s c) @ held_for c s @ to_channel c (BusQueue s)"

definition out_inv :: "out_config \<Rightarrow> out_state \<Rightarrow> bool" where
  "out_inv cfg s \<longleftrightarrow>
     (\<not> Cancelled s \<longrightarrow> (\<forall>c. routable cfg c \<longrightarrow> on_the_way c s = to_channel c (BusLog s))) \<and>
     (\<forall>c. length (WorkQueue s c) \<le> defaultChannelQueueSize) \<and>
     (\<forall>msg. Held s = Some msg \<longrightarrow> routable cfg (OutChannel msg)) \<and>
     (\<forall>c. \<not> routable cfg c \<longrightarrow> from_bus (WorkQueue s c) = [] \<and> from_bus (Handled s c) = [])"

lemma from_bus_simps [simp]: "from_bus [] = []" "from_bus (xs @ ys) = from_bus xs @ from_bus ys"
  "from_bus ((True, m) # xs) = m # from_bus xs" "from_bus ((False, m) # xs) = from_bus xs"
  by (simp_all add: from_bus_def)

lemma from_bus_Cons: "from_bus (x # xs) = from_bus [x] @ from_bus xs"
  by (simp add: from_bus_def)

lemma out_inv_init: "out_inv cfg out_init"
  by (simp add: out_inv_def out_init_def on_the_way_def held_for_def to_channel_def)

lemma out_inv_step: "out_step cfg s s' \<Longrightarrow> out_inv cfg s \<Longrightarrow> out_inv cfg s'"
proof (induction rule: out_step.induct)
  case (work s c x q)
  then have "from_bus (WorkQueue s c) = from_bus [x] @ from_bus q" by (simp only: from_bus_Cons [of x q])
  moreover have "length q \<le> defaultChannelQueueSize"
    using work unfolding out_inv_def by (metis Suc_leD length_Cons)
  ultimately show ?case using work
    by (auto simp: out_inv_def on_the_way_def held_for_def split: option.splits)
next
  case (abandon s c x q)
  then have "from_bus (WorkQueue s c) = from_bus [x] @ from_bus q" by (simp only: from_bus_Cons [of x q])
  moreover have "length q \<le> defaultChannelQueueSize"
    using abandon unfolding out_inv_def by (metis Suc_leD length_Cons)
  ultimately show ?case using abandon
    by (auto simp: out_inv_def on_the_way_def held_for_def split: option.splits)
next
  case (skip s msg q)
  then have "to_channel c q = to_channel c (BusQueue s)" if "routable cfg c" for c
    using that by (auto simp: to_channel_def)
  with skip show ?case by (auto simp: out_inv_def on_the_way_def held_for_def)
qed (auto simp: out_inv_def on_the_way_def held_for_def to_channel_def enqueue_def split: option.splits)

lemma out_inv_reachable: "(out_step cfg)\<^sup>*\<^sup>* out_init s \<Longrightarrow> out_inv cfg s"
  by (induction rule: rtranclp_induct) (auto intro: out_inv_init out_inv_step)

text \<open>C13. Until the shutdown, every message published for a started channel is handled by its worker exactly once and in
  order: what the worker has handled, what waits in its queue (never more than 16), what the dispatcher holds and
  what is still on the bus make up, in this order, the messages published for the channel. A message for an
  internal channel or one that is not started reaches no worker.\<close>

theorem outbound_in_order:
  assumes "(out_step cfg)\<^sup>*\<^sup>* out_init s" and "\<not> Cancelled s"
  shows "if routable cfg c
    then from_bus (Handled s c) @ from_bus (WorkQueue s c) @ held_for c s @ to_channel c (BusQueue s) = to_channel c (BusLog s) \<and>
      length (WorkQueue s c) \<le> 16
    else from_bus (Handled s c @ WorkQueue s c) = []"
  using out_inv_reachable [OF assms(1)] assms(2)
  by (auto simp: out_inv_def on_the_way_def defaultChannelQueueSize_def)

definition demo_config :: out_config where
  "demo_config = \<lparr>Registered = {''slack'', ''irc''}, Working = {''slack'', ''irc''}\<rparr>"

definition demo_handled :: out_state where
  "demo_handled = out_init\<lparr>BusLog := [demo_out], WorkQueue := (\<lambda>c. []), Handled := (\<lambda>c. [])(''slack'' := [(True, demo_out)])\<rparr>"

lemma demo_routable: "routable demo_config ''slack''" "routable demo_config ''irc''"
  by (simp_all add: routable_def demo_config_def IsInternalChannel_def)

lemma demo_reachable: "(out_step demo_config)\<^sup>*\<^sup>* out_init demo_handled"
proof -
  let ?s1 = "out_init\<lparr>BusQueue := [demo_out], BusLog := [demo_out]\<rparr>"
  let ?s2 = "?s1\<lparr>BusQueue := [], Held := Some demo_out\<rparr>"
  let ?s3 = "enqueue ''slack'' (True, demo_out) (?s2\<lparr>Held := None\<rparr>)"
  have ch: "OutChannel demo_out = ''slack''" by (simp add: demo_out_def)
  have "out_step demo_config out_init ?s1" using out_step.publish [of demo_config out_init demo_out] by (simp add: out_init_def)
  moreover have "out_step demo_config ?s1 ?s2"
    by (rule out_step.take [of ?s1 demo_out "[]"]) (simp_all add: out_init_def ch demo_routable)
  moreover have "out_step demo_config ?s2 ?s3"
    using out_step.hand_over [of ?s2 demo_out demo_config] by (simp add: out_init_def ch defaultChannelQueueSize_def)
  moreover have "out_step demo_config ?s3 demo_handled"
    using out_step.work [of ?s3 "''slack''" "(True, demo_out)" "[]" demo_config]
    by (simp add: out_init_def enqueue_def demo_handled_def fun_upd_def cong: if_cong)
  ultimately show ?thesis by (meson converse_rtranclp_into_rtranclp rtranclp.rtrancl_refl)
qed

theorem outbound_in_order_witness:
  "from_bus (Handled demo_handled ''slack'') @ from_bus (WorkQueue demo_handled ''slack'') @ held_for ''slack'' demo_handled @
     to_channel ''slack'' (BusQueue demo_handled) = to_channel ''slack'' (BusLog demo_handled) \<and>
   length (WorkQueue demo_handled ''slack'') \<le> 16"
  using outbound_in_order [OF demo_reachable, of "''slack''"] demo_routable by (simp add: demo_handled_def out_init_def)

text \<open>A shutdown does not drain the queues: from the moment that the context is cancelled, which \<open>StopAll\<close> does before it
  closes the queues and waits, no worker handles a message any more; the queued ones are lost.\<close>

theorem shutdown_loses_queued:
  assumes "(out_step cfg)\<^sup>*\<^sup>* s s'" and "Cancelled s"
  shows "Handled s' = Handled s \<and> Cancelled s'"
  using assms
proof (induction rule: rtranclp_induct)
  case (step s1 s2)
  then have "Cancelled s1" by blast
  with step(2) have "Handled s2 = Handled s1 \<and> Cancelled s2"
    by (auto elim!: out_stepE simp: enqueue_def)
  with step show ?case by simp
qed simp

theorem shutdown_loses_queued_witness:
  "\<exists>s. WorkQueue s ''slack'' = [] \<and> Handled s ''slack'' = [] \<and>
     (out_step demo_config)\<^sup>*\<^sup>* (enqueue ''slack'' (True, demo_out) (out_init\<lparr>Cancelled := True\<rparr>)) s"
proof -
  let ?s = "enqueue ''slack'' (True, demo_out) (out_init\<lparr>Cancelled := True\<rparr>)"
  let ?t = "?s\<lparr>WorkQueue := (WorkQueue ?s)(''slack'' := [])\<rparr>"
  have "out_step demo_config ?s ?t"
    by (rule out_step.abandon [of ?s "''slack''" "(True, demo_out)"]) (simp_all add: enqueue_def out_init_def)
  then have run: "(out_step demo_config)\<^sup>*\<^sup>* ?s ?t" ..
  from shutdown_loses_queued [OF run] have "Handled ?t = Handled ?s" by (simp add: enqueue_def)
  then have "Handled ?t ''slack'' = []" by (simp add: enqueue_def out_init_def)
  with run show ?thesis by (intro exI [of _ ?t]) simp
qed

text \<open>Steps before a shutdown in which the worker of one channel takes nothing.\<close>

inductive others_step :: "out_config \<Rightarrow> string \<Rightarrow> out_state \<Rightarrow> out_state \<Rightarrow> bool" for cfg :: out_config and stuck :: string where
  other: "out_step cfg s s' \<Longrightarrow> length (WorkQueue s stuck) \<le> length (WorkQueue s' stuck) \<Longrightarrow> \<not> Cancelled s' \<Longrightarrow> others_step cfg stuck s s'"

text \<open>One stuck channel stops them all: when the dispatcher holds a message for a channel whose queue is full and
  whose worker takes nothing, no message of any other channel leaves the bus, whatever else happens before a shutdown.\<close>

theorem stuck_channel_blocks_all:
  assumes "(others_step cfg stuck)\<^sup>*\<^sup>* s s'" and "Held s = Some msg" and "OutChannel msg = stuck"
    and "length (WorkQueue s stuck) = 16" and "\<not> Cancelled s"
  shows "Held s' = Some msg \<and> (\<exists>new. BusQueue s' = BusQueue s @ new)"
proof -
  from assms(1) have "Held s' = Some msg \<and> (\<exists>new. BusQueue s' = BusQueue s @ new) \<and> 16 \<le> length (WorkQueue s' stuck) \<and> \<not> Cancelled s'"
  proof (induction rule: rtranclp_induct)
    case base
    with assms show ?case by simp
  next
    case (step s1 s2)
    from step(2) have o: "out_step cfg s1 s2" "length (WorkQueue s1 stuck) \<le> length (WorkQueue s2 stuck)" "\<not> Cancelled s2"
      by (auto elim: others_step.cases)
    from o(1) step(3) have "Held s2 = Some msg \<and> (\<exists>new. BusQueue s2 = BusQueue s @ new)"
      by (cases rule: out_step.cases) (auto simp: enqueue_def assms(3) defaultChannelQueueSize_def)
    with o step(3) show ?case by auto
  qed
  then show ?thesis by blast
qed


definition stuck_state :: out_state where
  "stuck_state = out_init\<lparr>Held := Some demo_out, WorkQueue := (\<lambda>c. replicate 16 (True, demo_out))\<rparr>"

theorem stuck_channel_blocks_all_witness:
  "Held (stuck_state\<lparr>BusQueue := [demo_out\<lparr>OutChannel := ''irc''\<rparr>], BusLog := [demo_out\<lparr>OutChannel := ''irc''\<rparr>]\<rparr>) = Some demo_out"
proof -
  let ?m = "demo_out\<lparr>OutChannel := ''irc''\<rparr>"
  let ?s = "stuck_state\<lparr>BusQueue := [?m], BusLog := [?m]\<rparr>"
  have "out_step demo_config stuck_state ?s"
    using out_step.publish [of demo_config stuck_state ?m] by (simp add: stuck_state_def out_init_def)
  then have "others_step demo_config ''slack'' stuck_state ?s"
    by (rule others_step.other) (simp_all add: stuck_state_def out_init_def)
  then have "(others_step demo_config ''slack'')\<^sup>*\<^sup>* stuck_state ?s" ..
  from stuck_channel_blocks_all [OF this, of demo_out] show ?thesis
    by (simp add: stuck_state_def out_init_def demo_out_def)
qed

end
