(* ===== verification/Heartbeat.thy ===== *)
theory Heartbeat
  imports Channels
begin

text \<open>
  Heartbeats of agents: the policy for the answers (\<open>pkg/heartbeat/policy.go\<close>), the hours and intervals
  (\<open>pkg/heartbeat/schedule.go\<close>), one run (\<open>pkg/heartbeat/runner.go\<close>) and the choice of the next job
  (\<open>pkg/heartbeat/service.go\<close>). Instants and durations are in milliseconds. A time zone is its offset from UTC, which is
  taken to be constant: summer time is not modelled. The hash of a file, the agent and the clock are arguments.
\<close>

section \<open>Policy\<close>

definition HeartbeatOKToken :: string where "HeartbeatOKToken = ''HEARTBEAT_OK''"

definition defaultAckMaxChars :: int where "defaultAckMaxChars = 60"

definition ack_noise :: "char \<Rightarrow> bool" where
  "ack_noise c \<longleftrightarrow> byte c \<in> {32, 9, 10, 13} \<or> c \<in> set ''.,!?;:''"

text \<open>The text and \<open>ShouldSkip\<close>.\<close>

definition StripHeartbeatToken :: "string \<Rightarrow> int \<Rightarrow> string \<times> bool" where
  "StripHeartbeatToken response ackMaxChars =
     (let ack = nat (if ackMaxChars \<le> 0 then defaultAckMaxChars else ackMaxChars) in
      case Index response HeartbeatOKToken of
        None \<Rightarrow> (response, False)
      | Some idx \<Rightarrow>
          let before = take idx response;
              trimmed = dropWhile ack_noise (drop (idx + length HeartbeatOKToken) response);
              remaining = TrimSpace before
          in if ack < length trimmed then (TrimSpace (before @ '' '' @ trimmed), False)
             else if remaining = [] then ([], True)
             else if length remaining \<le> ack then (remaining, True)
             else (remaining, False))"

definition IsEffectivelyEmpty :: "string \<Rightarrow> bool" where
  "IsEffectivelyEmpty response \<longleftrightarrow> TrimSpace response = []"

section \<open>Hours and intervals\<close>

record HeartbeatScheduleConfig =
  ActiveHoursStart :: string
  ActiveHoursEnd :: string
  ZoneOffset :: int

definition day_ms :: int where "day_ms = 86400000"
definition minute_ms :: int where "minute_ms = 60000"

text \<open>\<open>Sscanf\<close> with \<open>%d:%d\<close> on five bytes: a number may have a sign or leading blanks, and what follows the second one is
  not looked at.\<close>

definition digit_of :: "char \<Rightarrow> int" where "digit_of c = int (byte c) - 48"

definition scan_two :: "char \<Rightarrow> char \<Rightarrow> bool \<Rightarrow> int option" where
  "scan_two a b at_end =
     (if is_digit a \<and> is_digit b then Some (10 * digit_of a + digit_of b)
      else if is_digit a then (if at_end then Some (digit_of a) else None)
      else if is_digit b then
        (if a = CHR ''-'' then Some (- digit_of b)
         else if a = CHR ''+'' \<or> a = CHR '' '' \<or> byte a = 9 then Some (digit_of b)
         else None)
      else None)"

definition parseHHMM :: "string \<Rightarrow> (int \<times> int) option" where
  "parseHHMM s =
     (case s of
        [a, b, c, d, e] \<Rightarrow>
          if c \<noteq> CHR '':'' then None
          else
            (case (scan_two a b False, scan_two d e True) of
               (Some h, Some m) \<Rightarrow> if h < 0 \<or> 23 < h \<or> m < 0 \<or> 59 < m then None else Some (h, m)
             | _ \<Rightarrow> None)
      | _ \<Rightarrow> None)"

text \<open>Whether \<open>now\<close> is in the active hours, and the next start of the window if not.\<close>

definition IsWithinActiveHours :: "HeartbeatScheduleConfig \<Rightarrow> int \<Rightarrow> bool \<times> int option" where
  "IsWithinActiveHours cfg now =
     (if ActiveHoursStart cfg = [] \<and> ActiveHoursEnd cfg = [] then (True, None)
      else
        (case (parseHHMM (ActiveHoursStart cfg), parseHHMM (ActiveHoursEnd cfg)) of
           (Some (startH, startM), Some (endH, endM)) \<Rightarrow>
             let midnight = (now + ZoneOffset cfg) div day_ms * day_ms - ZoneOffset cfg;
                 windowStart = midnight + (startH * 60 + startM) * minute_ms;
                 windowEnd = midnight + (endH * 60 + endM) * minute_ms
             in if windowEnd \<le> windowStart then
                  (if now < windowEnd then (True, None)
                   else if windowStart \<le> now then (True, None)
                   else (False, Some windowStart))
                else if windowStart \<le> now \<and> now < windowEnd then (True, None)
                else if now < windowStart then (False, Some windowStart)
                else (False, Some (windowStart + day_ms))
         | _ \<Rightarrow> (True, None)))"

fun double_up_to :: "nat \<Rightarrow> int \<Rightarrow> int \<Rightarrow> int" where
  "double_up_to 0 maxMin result = result"
| "double_up_to (Suc n) maxMin result =
     (if maxMin \<le> result * 2 then maxMin else double_up_to n maxMin (result * 2))"

definition AdaptiveInterval :: "int \<Rightarrow> int \<Rightarrow> int \<Rightarrow> int" where
  "AdaptiveInterval baseMin maxMin consecutiveOk =
     double_up_to (nat consecutiveOk) (if maxMin \<le> 0 then 120 else maxMin) (if baseMin \<le> 0 then 30 else baseMin) * minute_ms"

definition IsIdleWindowActive :: "int option \<Rightarrow> int \<Rightarrow> int \<Rightarrow> bool" where
  "IsIdleWindowActive lastActivityAt idleWindowMin now =
     (if idleWindowMin \<le> 0 then False
      else case lastActivityAt of None \<Rightarrow> False | Some t \<Rightarrow> now - idleWindowMin * minute_ms < t)"

section \<open>One run\<close>

record HeartbeatRunConfig =
  RunAgentID :: string
  IntervalMinutes :: int
  MaxIntervalMinutes :: int
  IdleWindowMinutes :: int
  SkipIfUnchanged :: bool
  ShowOk :: bool
  AckMaxChars :: int
  AdaptiveBackoff :: bool
  ScheduleCfg :: HeartbeatScheduleConfig

record HeartbeatState =
  LastRunAtMs :: int
  LastFileHash :: string
  ConsecutiveOk :: int

datatype HeartbeatStatus = StatusSent | StatusOkToken | StatusOkEmpty | StatusSkipped string | StatusFailed

definition effectiveInterval :: "HeartbeatRunConfig \<Rightarrow> int \<Rightarrow> int" where
  "effectiveInterval cfg consecutiveOk =
     (if \<not> AdaptiveBackoff cfg then IntervalMinutes cfg
      else AdaptiveInterval (IntervalMinutes cfg) (MaxIntervalMinutes cfg) consecutiveOk div minute_ms)"

definition preview :: "string \<Rightarrow> nat \<Rightarrow> string" where
  "preview s n = (if length s \<le> n then s else take n s)"

record HeartbeatEvent =
  EvTs :: int
  EvStatus :: HeartbeatStatus
  EvAgentID :: string
  EvPreview :: string
  EvConsecutiveOk :: int
  EvIntervalMin :: int

datatype file_read = FileMissing | FileUnreadable | FileContent string

datatype hb_call =
  ProcessHeartbeat string string string string  \<comment> \<open>session, prompt, channel, chat\<close>
| PruneLastTurn string
| PublishTo string string string

text \<open>What a run sees: the clock at its start and end, the last activity and channel of the user, the file, the
  session key of the run and the answer of the agent.\<close>

record run_env =
  StartAt :: int
  AgentDoneAt :: int
  LastActivity :: "int option"
  LastChannel :: string
  HeartbeatFile :: file_read
  HashOf :: "string \<Rightarrow> string"
  PromptOf :: "string \<Rightarrow> string"
  RunSession :: string
  AgentReply :: "string option"

definition hb_event :: "HeartbeatRunConfig \<Rightarrow> run_env \<Rightarrow> HeartbeatState \<Rightarrow> HeartbeatStatus \<Rightarrow> string \<Rightarrow> HeartbeatEvent" where
  "hb_event cfg e st status txt =
     \<lparr>EvTs = StartAt e, EvStatus = status, EvAgentID = RunAgentID cfg, EvPreview = preview txt 80,
      EvConsecutiveOk = ConsecutiveOk st, EvIntervalMin = effectiveInterval cfg (ConsecutiveOk st)\<rparr>"

definition deliver_target :: "string \<Rightarrow> string \<times> string" where
  "deliver_target lastCh =
     (case SplitN (CHR '':'') 2 lastCh of [c, i] \<Rightarrow> if lastCh = [] then ([], []) else (c, i) | _ \<Rightarrow> ([], []))"

definition judge_reply ::
  "HeartbeatRunConfig \<Rightarrow> run_env \<Rightarrow> HeartbeatState \<Rightarrow> string \<times> string \<Rightarrow> string \<Rightarrow>
   HeartbeatEvent \<times> HeartbeatState \<times> hb_call list" where
  "judge_reply cfg e st target response =
     (let (txt, skip) = StripHeartbeatToken response (AckMaxChars cfg);
          publish = (if fst target \<noteq> [] \<and> snd target \<noteq> [] then [PublishTo (fst target) (snd target) txt] else [])
      in if skip \<or> IsEffectivelyEmpty txt then
           (let st' = st\<lparr>ConsecutiveOk := ConsecutiveOk st + 1\<rparr>
            in (hb_event cfg e st' (if IsEffectivelyEmpty response then StatusOkEmpty else StatusOkToken) txt, st',
                PruneLastTurn (RunSession e) # (if ShowOk cfg then publish else [])))
         else
           (let st' = st\<lparr>ConsecutiveOk := 0\<rparr> in (hb_event cfg e st' StatusSent txt, st', publish)))"

definition RunOnce ::
  "HeartbeatRunConfig \<Rightarrow> run_env \<Rightarrow> HeartbeatState \<Rightarrow> HeartbeatEvent \<times> HeartbeatState \<times> hb_call list" where
  "RunOnce cfg e st =
     (let skip = (\<lambda>reason. (hb_event cfg e st (StatusSkipped reason) [], st, [])) in
      if \<not> fst (IsWithinActiveHours (ScheduleCfg cfg) (StartAt e)) then skip ''active_hours''
      else if IsIdleWindowActive (LastActivity e) (IdleWindowMinutes cfg) (StartAt e) then skip ''idle_window''
      else
        (case HeartbeatFile e of
           FileMissing \<Rightarrow> skip ''no_file''
         | FileUnreadable \<Rightarrow> (hb_event cfg e st StatusFailed [], st, [])
         | FileContent content \<Rightarrow>
             if SkipIfUnchanged cfg \<and> HashOf e content = LastFileHash st then skip ''unchanged_file''
             else
               let target = deliver_target (LastChannel e);
                   called = ProcessHeartbeat (RunSession e) (PromptOf e content) (fst target) (snd target);
                   st1 = st\<lparr>LastFileHash := HashOf e content, LastRunAtMs := AgentDoneAt e\<rparr>
               in case AgentReply e of
                    None \<Rightarrow> (hb_event cfg e st1 StatusFailed [], st1, [called])
                  | Some response \<Rightarrow>
                      (let (ev, st2, cs) = judge_reply cfg e st1 target response in (ev, st2, called # cs))))"

section \<open>The orchestrator\<close>

record runtime_job =
  JobCfg :: HeartbeatRunConfig
  JobState :: HeartbeatState
  NextDueAt :: int
  JobRunning :: bool

definition intervalDuration :: "HeartbeatRunConfig \<Rightarrow> int \<Rightarrow> int" where
  "intervalDuration cfg consecutiveOk =
     (if AdaptiveBackoff cfg then AdaptiveInterval (IntervalMinutes cfg) (MaxIntervalMinutes cfg) consecutiveOk
      else IntervalMinutes cfg * minute_ms)"

definition adjustToActiveHours :: "HeartbeatScheduleConfig \<Rightarrow> int \<Rightarrow> int" where
  "adjustToActiveHours cfg dueAt =
     (case IsWithinActiveHours cfg dueAt of (False, Some nextStart) \<Rightarrow> nextStart | _ \<Rightarrow> dueAt)"

definition job_due :: "runtime_job \<Rightarrow> int \<Rightarrow> int" where
  "job_due job nextAllowedStart =
     (let cfg = ScheduleCfg (JobCfg job);
          due = adjustToActiveHours cfg (NextDueAt job);
          due' = (if due < nextAllowedStart then nextAllowedStart else due)
      in adjustToActiveHours cfg due')"

text \<open>The index and the time of the next job; the zero time of \<open>nextAllowedStart\<close> is before all others.\<close>

definition selectNextJob :: "runtime_job list \<Rightarrow> int \<Rightarrow> (nat \<times> int) option" where
  "selectNextJob jobs nextAllowedStart =
     foldl (\<lambda>best i.
         if JobRunning (jobs ! i) then best
         else
           let due = job_due (jobs ! i) nextAllowedStart
           in case best of
                None \<Rightarrow> Some (i, due)
              | Some (j, d) \<Rightarrow> if due < d then Some (i, due) else Some (j, d))
       None [0..<length jobs]"

definition initialDueAt :: "runtime_job \<Rightarrow> int \<Rightarrow> int" where
  "initialDueAt job serviceStart =
     (let iv = intervalDuration (JobCfg job) (ConsecutiveOk (JobState job))
      in if 0 < LastRunAtMs (JobState job) then LastRunAtMs (JobState job) + iv else serviceStart + iv)"

text \<open>A round: the job is dispatched at \<open>runStart\<close>, and its completion comes in.\<close>

definition start_job :: "runtime_job list \<Rightarrow> nat \<Rightarrow> runtime_job list" where
  "start_job jobs i = jobs[i := (jobs ! i)\<lparr>JobRunning := True\<rparr>]"

definition applyCompletion :: "runtime_job list \<Rightarrow> nat \<Rightarrow> int \<Rightarrow> HeartbeatState \<Rightarrow> runtime_job list" where
  "applyCompletion jobs i runFinished nextState =
     (if length jobs \<le> i then jobs
      else jobs[i := (jobs ! i)\<lparr>JobRunning := False, JobState := nextState,
             NextDueAt := runFinished + intervalDuration (JobCfg (jobs ! i)) (ConsecutiveOk nextState)\<rparr>])"

datatype config_error =
  NoTimezone | BadTimezone | BadGap int | NoJobs | NoAgentID nat | DuplicateAgent nat | ShortInterval nat int

fun validate_jobs :: "nat \<Rightarrow> string list \<Rightarrow> (string \<times> int) list \<Rightarrow> config_error option" where
  "validate_jobs i seen [] = None"
| "validate_jobs i seen ((agentID, iv) # jobs) =
     (if agentID = [] then Some (NoAgentID i)
      else if agentID \<in> set seen then Some (DuplicateAgent i)
      else if iv < 5 then Some (ShortInterval i iv)
      else validate_jobs (Suc i) (agentID # seen) jobs)"

definition validateConfig :: "(string \<Rightarrow> bool) \<Rightarrow> bool \<Rightarrow> int \<Rightarrow> (string \<times> int) list \<Rightarrow> string \<Rightarrow> config_error option" where
  "validateConfig zone_known enabled minimumGap jobs timezone =
     (if TrimSpace timezone = [] then Some NoTimezone
      else if \<not> zone_known timezone then Some BadTimezone
      else if minimumGap \<le> 0 then Some (BadGap minimumGap)
      else if enabled \<and> jobs = [] then Some NoJobs
      else validate_jobs 0 [] jobs)"

section \<open>The schedule\<close>

lemma scan_bounds: "parseHHMM s = Some (h, m) \<Longrightarrow> 0 \<le> h \<and> h \<le> 23 \<and> 0 \<le> m \<and> m \<le> 59"
  by (auto simp: parseHHMM_def split: list.splits option.splits if_splits)

lemma start_of_day:
  assumes "0 \<le> x" and "x < day_ms" and "n = d * day_ms - off + x"
  shows "(n + off) div day_ms * day_ms - off + x = n"
proof -
  have "n + off = x + d * day_ms" using assms(3) by simp
  then have "(n + off) div day_ms = x div day_ms + d" by (simp add: day_ms_def)
  moreover have "x div day_ms = 0" using assms(1,2) by simp
  ultimately show ?thesis using assms(3) by simp
qed

lemma clock_bounds: "0 \<le> h \<Longrightarrow> h \<le> 23 \<Longrightarrow> 0 \<le> m \<Longrightarrow> m \<le> 59 \<Longrightarrow> 0 \<le> (h * 60 + m) * minute_ms \<and> (h * 60 + m) * minute_ms < day_ms"
  by (auto simp: minute_ms_def day_ms_def)

lemma next_start_inside:
  assumes "IsWithinActiveHours cfg t = (False, Some n)"
  shows "t < n \<and> fst (IsWithinActiveHours cfg n)"
proof -
  from assms obtain h m h' m' where p: "parseHHMM (ActiveHoursStart cfg) = Some (h, m)" "parseHHMM (ActiveHoursEnd cfg) = Some (h', m')"
    by (auto simp: IsWithinActiveHours_def Let_def split: if_splits option.splits)
  let ?x = "(h * 60 + m) * minute_ms" and ?y = "(h' * 60 + m') * minute_ms"
  let ?d = "(t + ZoneOffset cfg) div day_ms"
  have b: "0 \<le> ?x" "?x < day_ms" "0 \<le> ?y" "?y < day_ms"
    using scan_bounds [OF p(1)] scan_bounds [OF p(2)] clock_bounds by auto
  have pos: "0 < day_ms" by (simp add: day_ms_def)
  have t: "?d * day_ms \<le> t + ZoneOffset cfg" "t + ZoneOffset cfg < ?d * day_ms + day_ms"
    using pos div_mult_mod_eq [of "t + ZoneOffset cfg" day_ms] pos_mod_bound [OF pos, of "t + ZoneOffset cfg"]
      pos_mod_sign [OF pos, of "t + ZoneOffset cfg"] by linarith+
  from assms p have n: "n = ?d * day_ms - ZoneOffset cfg + ?x \<and> t < n \<or> n = ?d * day_ms - ZoneOffset cfg + ?x + day_ms \<and> ?x < ?y"
    by (auto simp: IsWithinActiveHours_def Let_def split: if_splits)
  then have "n = ?d * day_ms - ZoneOffset cfg + ?x \<or> n = (?d + 1) * day_ms - ZoneOffset cfg + ?x"
    by (auto simp: distrib_right)
  then have day: "(n + ZoneOffset cfg) div day_ms * day_ms - ZoneOffset cfg + ?x = n"
    using start_of_day [OF b(1,2)] by blast
  have "fst (IsWithinActiveHours cfg n)"
    using p day by (auto simp: IsWithinActiveHours_def Let_def)
  moreover have "t < n" using n t b by auto
  ultimately show ?thesis by simp
qed

lemma outside_has_next: "\<not> fst (IsWithinActiveHours cfg t) \<Longrightarrow> \<exists>n. IsWithinActiveHours cfg t = (False, Some n)"
  by (auto simp: IsWithinActiveHours_def Let_def split: if_splits option.splits)

lemma adjust_later: "t \<le> adjustToActiveHours cfg t" and adjust_inside: "fst (IsWithinActiveHours cfg (adjustToActiveHours cfg t))"
proof -
  have "t \<le> adjustToActiveHours cfg t \<and> fst (IsWithinActiveHours cfg (adjustToActiveHours cfg t))"
  proof (cases "fst (IsWithinActiveHours cfg t)")
    case True
    then have "adjustToActiveHours cfg t = t"
      by (cases "IsWithinActiveHours cfg t") (simp add: adjustToActiveHours_def)
    with True show ?thesis by simp
  next
    case False
    then obtain n where "IsWithinActiveHours cfg t = (False, Some n)" using outside_has_next by blast
    with next_start_inside [OF this] show ?thesis by (simp add: adjustToActiveHours_def)
  qed
  then show "t \<le> adjustToActiveHours cfg t" and "fst (IsWithinActiveHours cfg (adjustToActiveHours cfg t))" by auto
qed

lemma job_due_bounds: "NextDueAt job \<le> job_due job na \<and> na \<le> job_due job na \<and>
    fst (IsWithinActiveHours (ScheduleCfg (JobCfg job)) (job_due job na))"
proof -
  let ?cfg = "ScheduleCfg (JobCfg job)"
  let ?due = "adjustToActiveHours ?cfg (NextDueAt job)"
  let ?due' = "if ?due < na then na else ?due"
  have "NextDueAt job \<le> ?due'" "na \<le> ?due'" using adjust_later [of "NextDueAt job" ?cfg] by auto
  moreover have "?due' \<le> job_due job na" "fst (IsWithinActiveHours ?cfg (job_due job na))"
    using adjust_later [of ?due' ?cfg] adjust_inside [of ?cfg ?due'] by (simp_all add: job_due_def Let_def)
  ultimately show ?thesis by linarith
qed

text \<open>The fold keeps the first job of the smallest due time among the jobs seen.\<close>

definition best_of :: "runtime_job list \<Rightarrow> int \<Rightarrow> nat \<Rightarrow> (nat \<times> int) option \<Rightarrow> bool" where
  "best_of jobs na k best \<longleftrightarrow>
     (case best of
        None \<Rightarrow> \<forall>j < k. JobRunning (jobs ! j)
      | Some (i, t) \<Rightarrow> i < k \<and> \<not> JobRunning (jobs ! i) \<and> t = job_due (jobs ! i) na \<and>
          (\<forall>j < k. \<not> JobRunning (jobs ! j) \<longrightarrow> t \<le> job_due (jobs ! j) na \<and> (j < i \<longrightarrow> t < job_due (jobs ! j) na)))"

lemma best_of_select: "best_of jobs na (length jobs) (selectNextJob jobs na)"
proof -
  let ?f = "\<lambda>best i. if JobRunning (jobs ! i) then best
         else let due = job_due (jobs ! i) na
           in case best of None \<Rightarrow> Some (i, due) | Some (j, d) \<Rightarrow> if due < d then Some (i, due) else Some (j, d)"
  have "best_of jobs na k (foldl ?f None [0..<k])" for k
  proof (induction k)
    case (Suc k)
    then show ?case
      by (auto simp: best_of_def Let_def less_Suc_eq split: option.splits)
  qed (simp add: best_of_def)
  then show ?thesis by (simp add: selectNextJob_def)
qed

text \<open>The orchestrator starts the job that is due first: the chosen job is not running, and its time lies in its
  active hours, not before it is due and not before the gap after the last start is over; no job that is not
  running could start earlier, and among equals the first one of the configuration is taken. Only when all jobs
  run is there none.\<close>

theorem next_job_earliest:
  "case selectNextJob jobs nextAllowedStart of
     None \<Rightarrow> list_all JobRunning jobs
   | Some (i, t) \<Rightarrow> i < length jobs \<and> \<not> JobRunning (jobs ! i) \<and> nextAllowedStart \<le> t \<and> NextDueAt (jobs ! i) \<le> t \<and>
       fst (IsWithinActiveHours (ScheduleCfg (JobCfg (jobs ! i))) t) \<and>
       list_all (\<lambda>j. JobRunning (jobs ! j) \<or> t \<le> job_due (jobs ! j) nextAllowedStart) [0..<length jobs] \<and>
       list_all (\<lambda>j. JobRunning (jobs ! j) \<or> t < job_due (jobs ! j) nextAllowedStart) [0..<i]"
proof (cases "selectNextJob jobs nextAllowedStart")
  case None
  with best_of_select [of jobs nextAllowedStart] show ?thesis
    by (auto simp: best_of_def list_all_iff in_set_conv_nth)
next
  case (Some x)
  obtain i t where x: "x = (i, t)" by (cases x)
  with Some best_of_select [of jobs nextAllowedStart]
  have "i < length jobs" "\<not> JobRunning (jobs ! i)" "t = job_due (jobs ! i) nextAllowedStart"
    "\<forall>j < length jobs. \<not> JobRunning (jobs ! j) \<longrightarrow> t \<le> job_due (jobs ! j) nextAllowedStart \<and> (j < i \<longrightarrow> t < job_due (jobs ! j) nextAllowedStart)"
    by (auto simp: best_of_def)
  moreover from this have "list_all (\<lambda>j. JobRunning (jobs ! j) \<or> t < job_due (jobs ! j) nextAllowedStart) [0..<i]"
    unfolding list_all_iff using less_trans by (metis atLeastLessThan_iff set_upt)
  ultimately show ?thesis
    using Some x job_due_bounds [of "jobs ! i" nextAllowedStart] by (auto simp: list_all_iff)
qed

section \<open>Starvation\<close>

text \<open>The rounds of the orchestrator, one after the other: a job is chosen, started at \<open>r\<close> and done at \<open>f\<close>. The list is
  the indices of the jobs that ran.\<close>

inductive hb_rounds :: "int \<Rightarrow> runtime_job list \<Rightarrow> int \<Rightarrow> nat list \<Rightarrow> bool" for gap :: int where
  no_round: "hb_rounds gap jobs na []"
| one_round: "selectNextJob jobs na = Some (i, t) \<Longrightarrow> t \<le> r \<Longrightarrow> r \<le> f \<Longrightarrow>
    f + intervalDuration (JobCfg (jobs ! i)) (ConsecutiveOk st) \<le> r + gap \<or> i \<noteq> 0 \<Longrightarrow>
    hb_rounds gap (applyCompletion (start_job jobs i) i f st) (r + gap) is \<Longrightarrow> hb_rounds gap jobs na (i # is)"

text \<open>A job can starve all the others: when the interval of the first job together with the time that it runs is not
  longer than the minimum gap between starts, it is due again at every choice, and since the first of the
  configuration wins among equals, no other job ever runs.\<close>

theorem first_job_starves_others:
  assumes "hb_rounds gap jobs na is" and "jobs \<noteq> []" and "\<not> JobRunning (jobs ! 0)" and "NextDueAt (jobs ! 0) \<le> na"
    and "ActiveHoursStart (ScheduleCfg (JobCfg (jobs ! 0))) = []" and "ActiveHoursEnd (ScheduleCfg (JobCfg (jobs ! 0))) = []"
  shows "set is \<subseteq> {0}"
  using assms
proof (induction rule: hb_rounds.induct)
  case (one_round jobs na i t r f st "is")
  have free: "adjustToActiveHours (ScheduleCfg (JobCfg (jobs ! 0))) x = x" for x
    using one_round.prems by (simp add: adjustToActiveHours_def IsWithinActiveHours_def)
  then have due: "job_due (jobs ! 0) na = na" using one_round.prems(3) by (simp add: job_due_def Let_def)
  from best_of_select [of jobs na] one_round.hyps(1)
  have best: "t = job_due (jobs ! i) na" "\<forall>j < length jobs. \<not> JobRunning (jobs ! j) \<longrightarrow> t \<le> job_due (jobs ! j) na \<and> (j < i \<longrightarrow> t < job_due (jobs ! j) na)"
    by (auto simp: best_of_def)
  have "i = 0"
  proof (rule ccontr)
    assume "i \<noteq> 0"
    with best(2) one_round.prems(1,2) have "t < job_due (jobs ! 0) na" by auto
    with due best(1) job_due_bounds [of "jobs ! i" na] show False by simp
  qed
  moreover have "set is \<subseteq> {0}"
  proof (rule one_round.IH)
    show "NextDueAt (applyCompletion (start_job jobs i) i f st ! 0) \<le> r + gap"
      using one_round.hyps(4) one_round.prems(1) \<open>i = 0\<close> by (simp add: applyCompletion_def start_job_def)
  qed (use one_round.prems \<open>i = 0\<close> in \<open>simp_all add: applyCompletion_def start_job_def\<close>)
  ultimately show ?case by simp
qed simp


definition hb_job :: "string \<Rightarrow> int \<Rightarrow> runtime_job" where
  "hb_job agent iv =
     \<lparr>JobCfg = \<lparr>RunAgentID = agent, IntervalMinutes = iv, MaxIntervalMinutes = 120, IdleWindowMinutes = 0,
        SkipIfUnchanged = True, ShowOk = False, AckMaxChars = 60, AdaptiveBackoff = False,
        ScheduleCfg = \<lparr>ActiveHoursStart = [], ActiveHoursEnd = [], ZoneOffset = 0\<rparr>\<rparr>,
      JobState = \<lparr>LastRunAtMs = 0, LastFileHash = [], ConsecutiveOk = 0\<rparr>, NextDueAt = 0, JobRunning = False\<rparr>"

lemma demo_select: "selectNextJob [hb_job ''a'' 5, hb_job ''b'' 5] 0 = Some (0, 0)"
  by code_simp

theorem first_job_starves_others_witness:
  "hb_rounds 600000 [hb_job ''a'' 5, hb_job ''b'' 5] 0 [0] \<and> set [0 :: nat] \<subseteq> {0}"
proof -
  let ?st = "\<lparr>LastRunAtMs = 0, LastFileHash = [], ConsecutiveOk = 0\<rparr>"
  have "hb_rounds 600000 [hb_job ''a'' 5, hb_job ''b'' 5] 0 [0]"
  proof (rule one_round [where t = 0 and r = 0 and f = 60000 and st = ?st])
    show "60000 + intervalDuration (JobCfg ([hb_job ''a'' 5, hb_job ''b'' 5] ! 0)) (ConsecutiveOk ?st) \<le> 0 + 600000 \<or> (0 :: nat) \<noteq> 0"
      by (simp add: intervalDuration_def hb_job_def minute_ms_def)
  qed (use demo_select in \<open>simp_all add: no_round\<close>)
  from this first_job_starves_others [OF this] show ?thesis by (simp add: hb_job_def)
qed

section \<open>Backoff\<close>

lemma double_up_to_min:
  "0 < base \<Longrightarrow> base \<le> cap \<Longrightarrow> double_up_to k cap base = min (base * 2 ^ k) cap"
proof (induction k arbitrary: base)
  case (Suc k)
  show ?case
  proof (cases "cap \<le> base * 2")
    case True
    have "base * 2 \<le> base * 2 ^ Suc k" using Suc.prems(1) by (simp add: mult_left_mono)
    with True show ?thesis by simp
  next
    case False
    then show ?thesis using Suc.IH [of "base * 2"] Suc.prems(1) by (simp add: ac_simps)
  qed
qed simp

text \<open>The interval doubles with every quiet heartbeat in a row up to the maximum, when the configured interval is
  not above the maximum; when it is, the first quiet heartbeat makes the interval shorter instead of longer.\<close>

theorem adaptive_interval_spec:
  assumes "0 < baseMin" and "0 < maxMin" and "0 \<le> ok"
  shows "if baseMin \<le> maxMin then AdaptiveInterval baseMin maxMin ok = min (baseMin * 2 ^ nat ok) maxMin * minute_ms
    else AdaptiveInterval baseMin maxMin 0 = baseMin * minute_ms \<and> AdaptiveInterval baseMin maxMin (1 + ok) = maxMin * minute_ms"
proof (cases "baseMin \<le> maxMin")
  case True
  with assms show ?thesis by (simp add: AdaptiveInterval_def double_up_to_min)
next
  case False
  have "nat (1 + ok) = Suc (nat ok)" using assms(3) by simp
  with False assms show ?thesis by (simp add: AdaptiveInterval_def)
qed

theorem adaptive_interval_spec_witness:
  "AdaptiveInterval 30 120 3 = 120 * minute_ms \<and> AdaptiveInterval 240 120 1 = 120 * minute_ms \<and>
   AdaptiveInterval 240 120 0 = 240 * minute_ms"
  using adaptive_interval_spec [of 30 120 3] adaptive_interval_spec [of 240 120 0] by simp

section \<open>Runs\<close>

lemma run_calls:
  assumes "RunOnce cfg e st = (ev, st', cs)"
  shows "cs = [] \<and> st' = st \<or>
    (\<exists>content prompt c i. HeartbeatFile e = FileContent content \<and> hd cs = ProcessHeartbeat (RunSession e) prompt c i \<and>
      (SkipIfUnchanged cfg \<longrightarrow> HashOf e content \<noteq> LastFileHash st) \<and> LastFileHash st' = HashOf e content)"
  using assms
  by (auto simp: RunOnce_def judge_reply_def Let_def split: if_splits file_read.splits option.splits prod.splits)

text \<open>A heartbeat whose agent failed is not tried again: the hash of the file is remembered before the outcome is
  looked at, so with \<open>SkipIfUnchanged\<close> no later run calls the agent until the file changes, whenever it happens.\<close>

theorem failed_run_not_retried:
  assumes "RunOnce cfg e st = (ev, st', cs)" and "AgentReply e = None" and "cs \<noteq> []" and "SkipIfUnchanged cfg"
    and "RunOnce cfg e' st' = (ev', st'', cs')" and "HeartbeatFile e' = HeartbeatFile e" and "HashOf e' = HashOf e"
  shows "EvStatus ev = StatusFailed \<and> cs' = [] \<and> st'' = st'"
proof -
  from run_calls [OF assms(1)] assms(3) obtain content where c: "HeartbeatFile e = FileContent content"
    "LastFileHash st' = HashOf e content" by auto
  have "EvStatus ev = StatusFailed"
    using assms(1-3) c(1)
    by (auto simp: RunOnce_def hb_event_def Let_def split: if_splits)
  moreover from run_calls [OF assms(5)] c assms(4,6,7) have "cs' = [] \<and> st'' = st'" by auto
  ultimately show ?thesis by simp
qed

definition hb_env :: run_env where
  "hb_env = \<lparr>StartAt = 1000, AgentDoneAt = 2000, LastActivity = None, LastChannel = ''irc:c'', HeartbeatFile = FileContent ''do it'',
     HashOf = (\<lambda>s. s), PromptOf = (\<lambda>s. s), RunSession = ''agent:a:heartbeat:1'', AgentReply = None\<rparr>"

theorem failed_run_not_retried_witness:
  "let (ev, st', cs) = RunOnce (JobCfg (hb_job ''a'' 5)) hb_env (JobState (hb_job ''a'' 5)) in
     cs \<noteq> [] \<and> snd (snd (RunOnce (JobCfg (hb_job ''a'' 5)) (hb_env\<lparr>StartAt := 9000\<rparr>) st')) = []"
proof -
  let ?cfg = "JobCfg (hb_job ''a'' 5)"
  obtain ev st' cs where run: "RunOnce ?cfg hb_env (JobState (hb_job ''a'' 5)) = (ev, st', cs)" by (metis prod_cases3)
  obtain ev' st'' cs' where again: "RunOnce ?cfg (hb_env\<lparr>StartAt := 9000\<rparr>) st' = (ev', st'', cs')" by (metis prod_cases3)
  have "cs \<noteq> []"
    using run by (auto simp: RunOnce_def hb_job_def hb_env_def IsWithinActiveHours_def IsIdleWindowActive_def Let_def split: prod.splits)
  moreover have "cs' = []"
    using failed_run_not_retried [OF run _ calculation _ again] by (simp add: hb_env_def hb_job_def)
  ultimately show ?thesis using run again by simp
qed

text \<open>Only news is delivered: a heartbeat publishes something only to the last channel of the user, outside of the
  acknowledgement policy's silence (unless acknowledgements are to be shown), and only what the policy leaves of the
  answer; an answer that counts as quiet removes its turn from the session and adds to the backoff, any other resets it.\<close>

theorem heartbeat_publishes_news:
  assumes "RunOnce cfg e st = (ev, st', cs)" and "AgentReply e = Some response" and "cs \<noteq> []"
  shows "let (txt, skip) = StripHeartbeatToken response (AckMaxChars cfg); quiet = (skip \<or> IsEffectivelyEmpty txt) in
    (PublishTo c i t \<in> set cs \<longleftrightarrow> (c, i) = deliver_target (LastChannel e) \<and> c \<noteq> [] \<and> i \<noteq> [] \<and> t = txt \<and> (quiet \<longrightarrow> ShowOk cfg)) \<and>
    (PruneLastTurn (RunSession e) \<in> set cs \<longleftrightarrow> quiet) \<and>
    ConsecutiveOk st' = (if quiet then ConsecutiveOk st + 1 else 0)"
proof -
  obtain answer quiet where strip: "StripHeartbeatToken response (AckMaxChars cfg) = (answer, quiet)" by fastforce
  let ?target = "deliver_target (LastChannel e)"
  from run_calls [OF assms(1)] assms(3) obtain content where c: "HeartbeatFile e = FileContent content" by auto
  let ?st1 = "st\<lparr>LastFileHash := HashOf e content, LastRunAtMs := AgentDoneAt e\<rparr>"
  have "cs = ProcessHeartbeat (RunSession e) (PromptOf e content) (fst ?target) (snd ?target) #
      snd (snd (judge_reply cfg e ?st1 ?target response)) \<and> st' = fst (snd (judge_reply cfg e ?st1 ?target response))"
    using assms c by (auto simp: RunOnce_def Let_def split: if_splits prod.splits)
  then show ?thesis
    using strip by (auto simp: judge_reply_def Let_def prod_eq_iff)
qed

theorem heartbeat_publishes_news_witness:
  "PublishTo ''irc'' ''c'' ''disk full'' \<in> set (snd (snd (RunOnce (JobCfg (hb_job ''a'' 5))
     (hb_env\<lparr>AgentReply := Some ''disk full''\<rparr>) (JobState (hb_job ''a'' 5)))))"
proof -
  let ?e = "hb_env\<lparr>AgentReply := Some ''disk full''\<rparr>"
  obtain ev st' cs where run: "RunOnce (JobCfg (hb_job ''a'' 5)) ?e (JobState (hb_job ''a'' 5)) = (ev, st', cs)" by (metis prod_cases3)
  then have "cs \<noteq> []"
    by (auto simp: RunOnce_def hb_job_def hb_env_def IsWithinActiveHours_def IsIdleWindowActive_def Let_def split: prod.splits)
  moreover have "StripHeartbeatToken ''disk full'' 60 = (''disk full'', False)" "deliver_target ''irc:c'' = (''irc'', ''c'')"
    "\<not> IsEffectivelyEmpty ''disk full''" by code_simp+
  ultimately have "PublishTo ''irc'' ''c'' ''disk full'' \<in> set cs"
    using heartbeat_publishes_news [OF run, of "''disk full''" "''irc''" "''c''" "''disk full''"]
    by (simp add: hb_env_def hb_job_def)
  with run show ?thesis by simp
qed

text \<open>What follows the token of an acknowledgement is lost when it is short, words included: only blanks and
  punctuation were meant to be stripped there.\<close>

theorem short_tail_dropped:
  "StripHeartbeatToken (''Backup of the database finished, three tables were skipped, see log. HEARTBEAT_OK but disk is full'') 60 =
   (''Backup of the database finished, three tables were skipped, see log.'', False)"
  by code_simp

end
