(* ===== verification/Checkpoint.thy ===== *)
theory Checkpoint
  imports Paths Messages "HOL-Library.Multiset"
begin

text \<open>
  Checkpoints of a workspace and its session: \<open>pkg/checkpoint\<close>. A workspace is the list of its files, a path being its
  components, with their contents; what is under a directory \<open>sessions\<close> is left alone by the walks of the code. Hashes
  are arguments, and so is what the templates of compensation rules make of a call. The text of a file system error
  is not kept.
\<close>

section \<open>Workspaces and snapshots\<close>

type_synonym wpath = "string list"
type_synonym workspace = "(wpath \<times> string) list"

record FileSnapshot =
  SnapPath :: wpath
  SnapSHA :: string
  SnapSize :: int

record CommitManifest =
  CommitID :: string
  CommitAgent :: string
  CommitSession :: string
  CreatedAt :: int
  ParentID :: string
  SessionLineCount :: nat
  WorkspaceFiles :: "FileSnapshot list"
  HasSnapData :: bool
  Revoked :: bool

datatype ckpt_error = ErrNoSnapData | CopyFailed wpath | BadSession | NoManifest

definition in_sessions :: "wpath \<Rightarrow> bool" where
  "in_sessions p \<longleftrightarrow> ''sessions'' \<in> set (butlast p)"

definition MaxSnapFileSizeBytes :: "int \<Rightarrow> int" where
  "MaxSnapFileSizeBytes maxSnapFileSize = (if maxSnapFileSize \<le> 0 then 5 * 1024 * 1024 else maxSnapFileSize)"

definition small_enough :: "int \<Rightarrow> string \<Rightarrow> bool" where
  "small_enough maxFileSize data \<longleftrightarrow> \<not> (0 < maxFileSize \<and> maxFileSize < int (length data))"

definition WalkWorkspace :: "(string \<Rightarrow> string) \<Rightarrow> int \<Rightarrow> workspace \<Rightarrow> FileSnapshot list" where
  "WalkWorkspace sha maxFileSize ws =
     map (\<lambda>(p, data). \<lparr>SnapPath = p, SnapSHA = sha data, SnapSize = int (length data)\<rparr>)
       (filter (\<lambda>(p, data). \<not> in_sessions p \<and> small_enough maxFileSize data) ws)"

text \<open>Copying a file to a path fails when a directory of the path is a file or the path is a directory.\<close>

definition blocked :: "workspace \<Rightarrow> wpath \<Rightarrow> bool" where
  "blocked ws p \<longleftrightarrow> list_ex (\<lambda>(q, d). strict_prefix q p \<or> strict_prefix p q) ws"

definition copyFile :: "workspace \<Rightarrow> wpath \<Rightarrow> workspace \<Rightarrow> workspace option" where
  "copyFile src p dst =
     (case map_of src p of
        None \<Rightarrow> None
      | Some data \<Rightarrow> if blocked dst p then None else Some (assoc_put p data dst))"

definition sessionSnapFile :: wpath where "sessionSnapFile = [''_session.json'']"

fun copy_all :: "workspace \<Rightarrow> wpath list \<Rightarrow> workspace \<Rightarrow> ckpt_error option \<times> workspace" where
  "copy_all src [] dst = (None, dst)"
| "copy_all src (p # ps) dst =
     (case copyFile src p dst of None \<Rightarrow> (Some (CopyFailed p), dst) | Some dst' \<Rightarrow> copy_all src ps dst')"

text \<open>The directory with the data of a commit; \<open>msgs\<close> is the text of the messages, or \<open>None\<close> for a nil list.\<close>

definition StoreSnapData :: "workspace \<Rightarrow> FileSnapshot list \<Rightarrow> string option \<Rightarrow> ckpt_error option \<times> workspace" where
  "StoreSnapData ws snapshots msgs =
     (case copy_all ws (map SnapPath snapshots) [] of
        (Some e, dir) \<Rightarrow> (Some e, dir)
      | (None, dir) \<Rightarrow>
          (case msgs of None \<Rightarrow> (None, dir) | Some data \<Rightarrow> (None, assoc_put sessionSnapFile data dir)))"

definition LoadSessionSnap :: "workspace option \<Rightarrow> ckpt_error + string" where
  "LoadSessionSnap snapDir =
     (case snapDir of
        None \<Rightarrow> Inl ErrNoSnapData
      | Some dir \<Rightarrow> (case map_of dir sessionSnapFile of None \<Rightarrow> Inl ErrNoSnapData | Some data \<Rightarrow> Inr data))"

text \<open>The files of the snapshot are put back, one after the other; then the files that the manifest does not list are
  removed.\<close>

definition RestoreSnapData :: "workspace option \<Rightarrow> workspace \<Rightarrow> CommitManifest \<Rightarrow> ckpt_error option \<times> workspace" where
  "RestoreSnapData snapDir ws manifest =
     (case snapDir of
        None \<Rightarrow> (Some ErrNoSnapData, ws)
      | Some dir \<Rightarrow>
          let paths = map SnapPath (WorkspaceFiles manifest) in
          (case copy_all dir (filter (\<lambda>p. map_of dir p \<noteq> None) paths) ws of
             (Some e, ws') \<Rightarrow> (Some e, ws')
           | (None, ws') \<Rightarrow> (None, filter (\<lambda>(p, d). in_sessions p \<or> p \<in> set paths) ws')))"

section \<open>The store of commits\<close>

text \<open>The commits of one agent, with their snapshot directories. The identifier is the hash of the manifest without one.\<close>

record commit_store =
  Manifests :: "(string \<times> CommitManifest) list"
  SnapDirs :: "(string \<times> workspace) list"

definition Write :: "(CommitManifest \<Rightarrow> string) \<Rightarrow> commit_store \<Rightarrow> CommitManifest \<Rightarrow> commit_store \<times> CommitManifest" where
  "Write hash s m =
     (let i = take 32 (hash (m\<lparr>CommitID := []\<rparr>)); m' = m\<lparr>CommitID := i\<rparr>
      in (s\<lparr>Manifests := assoc_put i m' (Manifests s)\<rparr>, m'))"

definition ListCommits :: "commit_store \<Rightarrow> string \<Rightarrow> CommitManifest list" where
  "ListCommits s sessionKey =
     sort_key (\<lambda>m. - CreatedAt m)
       (filter (\<lambda>m. sessionKey = [] \<or> CommitSession m = sessionKey) (map snd (Manifests s)))"

definition LatestCommitID :: "commit_store \<Rightarrow> string \<Rightarrow> string" where
  "LatestCommitID s sessionKey = (case ListCommits s sessionKey of [] \<Rightarrow> [] | m # _ \<Rightarrow> CommitID m)"

definition Revoke :: "commit_store \<Rightarrow> string \<Rightarrow> commit_store \<times> CommitManifest option" where
  "Revoke s i =
     (case map_of (Manifests s) i of
        None \<Rightarrow> (s, None)
      | Some m \<Rightarrow>
          if Revoked m then (s, Some m)
          else (s\<lparr>Manifests := assoc_put i (m\<lparr>Revoked := True\<rparr>) (Manifests s)\<rparr>, Some (m\<lparr>Revoked := True\<rparr>)))"

definition remove_commits :: "CommitManifest list \<Rightarrow> commit_store \<Rightarrow> commit_store" where
  "remove_commits ms s =
     s\<lparr>Manifests := fold (\<lambda>m. assoc_del (CommitID m)) ms (Manifests s),
       SnapDirs := fold (\<lambda>m. assoc_del (CommitID m)) ms (SnapDirs s)\<rparr>"

definition PruneOldest :: "commit_store \<Rightarrow> int \<Rightarrow> commit_store" where
  "PruneOldest s maxKeep =
     (if maxKeep \<le> 0 then s
      else
        let all = ListCommits s []
        in if int (length all) \<le> maxKeep then s else remove_commits (drop (nat maxKeep) all) s)"

record ckpt_config =
  StoreSnap :: bool
  MaxSnapSize :: int
  MaxCommits :: int

definition CreateCommit ::
  "ckpt_config \<Rightarrow> (string \<Rightarrow> string) \<Rightarrow> (CommitManifest \<Rightarrow> string) \<Rightarrow> commit_store \<Rightarrow> string \<Rightarrow> string \<Rightarrow> workspace \<Rightarrow>
   string option \<Rightarrow> nat \<Rightarrow> int \<Rightarrow> string \<Rightarrow> commit_store \<times> CommitManifest" where
  "CreateCommit cfg sha hash s agentID sessionKey ws msgs msgCount now parentID =
     (let snapshots = WalkWorkspace sha (MaxSnapFileSizeBytes (MaxSnapSize cfg)) ws;
          m = \<lparr>CommitID = [], CommitAgent = agentID, CommitSession = sessionKey, CreatedAt = now, ParentID = parentID,
               SessionLineCount = msgCount, WorkspaceFiles = snapshots, HasSnapData = StoreSnap cfg, Revoked = False\<rparr>;
          (s1, written) = Write hash s m;
          (s2, written2) =
            (if StoreSnap cfg then
               (case StoreSnapData ws snapshots msgs of
                  (err, dir) \<Rightarrow>
                    let s' = s1\<lparr>SnapDirs := assoc_put (CommitID written) dir (SnapDirs s1)\<rparr>
                    in if err = None then (s', written) else Write hash s' (written\<lparr>HasSnapData := False\<rparr>))
             else (s1, written))
      in (if 0 < MaxCommits cfg then PruneOldest s2 (MaxCommits cfg) else s2, written2))"

section \<open>Restoring\<close>

lemma copy_all_map:
  "copy_all src ps dst = (None, dst') \<Longrightarrow> map_of dst' p = (if p \<in> set ps then map_of src p else map_of dst p)"
proof (induction ps arbitrary: dst)
  case (Cons q ps)
  then obtain data dst1 where "map_of src q = Some data" "dst1 = assoc_put q data dst" "copy_all src ps dst1 = (None, dst')"
    by (auto simp: copyFile_def split: option.splits if_splits)
  with Cons.IH [OF this(3)] show ?case by auto
qed simp

lemma map_of_filter_key: "map_of (filter (\<lambda>(p, d). Q p) l) p = (if Q p then map_of l p else None)"
  by (induction l) auto

lemma walk_paths:
  "distinct (map fst ws) \<Longrightarrow>
   p \<in> set (map SnapPath (WalkWorkspace sha maxSize ws)) \<longleftrightarrow>
   \<not> in_sessions p \<and> (\<exists>data. map_of ws p = Some data \<and> small_enough maxSize data)"
  by (auto simp: WalkWorkspace_def image_iff)

lemma restored_file:
  assumes "StoreSnapData ws (WalkWorkspace sha maxSize ws) msgs = (None, dir)"
    and "WorkspaceFiles m = WalkWorkspace sha maxSize ws" and "distinct (map fst ws)"
    and "RestoreSnapData (Some dir) later m = (None, restored)"
  shows "map_of restored p =
    (if in_sessions p then map_of later p
     else if p = sessionSnapFile \<and> msgs \<noteq> None \<and> (\<exists>data. map_of ws p = Some data \<and> small_enough maxSize data) then msgs
     else case map_of ws p of Some data \<Rightarrow> if small_enough maxSize data then Some data else None | None \<Rightarrow> None)"
proof -
  let ?paths = "map SnapPath (WalkWorkspace sha maxSize ws)"
  note in_paths = walk_paths [OF assms(3), of _ sha maxSize]
  obtain dir0 where dir0: "copy_all ws ?paths [] = (None, dir0)"
    and dir: "dir = (case msgs of None \<Rightarrow> dir0 | Some data \<Rightarrow> assoc_put sessionSnapFile data dir0)"
    using assms(1) by (auto simp: StoreSnapData_def split: prod.splits option.splits)
  then have d: "map_of dir q = (if q = sessionSnapFile \<and> msgs \<noteq> None then msgs else if q \<in> set ?paths then map_of ws q else None)" for q
    using copy_all_map [OF dir0, of q] by (auto split: option.splits)
  obtain ws1 where ws1: "copy_all dir (filter (\<lambda>p. map_of dir p \<noteq> None) ?paths) later = (None, ws1)"
    and res: "restored = filter (\<lambda>(p, d). in_sessions p \<or> p \<in> set ?paths) ws1"
    using assms(2,4) by (auto simp: RestoreSnapData_def Let_def split: prod.splits option.splits)
  have "map_of dir p \<noteq> None" if "p \<in> set ?paths" using that d in_paths by auto
  moreover have "map_of restored p = (if in_sessions p \<or> p \<in> set ?paths then map_of ws1 p else None)"
    unfolding res by (rule map_of_filter_key)
  ultimately show ?thesis
    using copy_all_map [OF ws1, of p] d [of p] in_paths [of p]
    by (auto split: option.splits)
qed

text \<open>C14. What the workspace holds after a rollback, path by path, when storing the data and restoring it gave no error and the
  removals succeed, whatever happened to the workspace since the checkpoint. A file below a directory \<open>sessions\<close> is as it was before
  the rollback. Of the others, a file that the checkpoint covered, being small enough, has its old content again, with one
  exception: a file \<open>_session.json\<close> in the root has the stored messages as its content. Every other file is gone: those made since
  the checkpoint, and those that were there at the checkpoint but too large for it.\<close>

theorem restore_exact:
  assumes "StoreSnapData ws (WalkWorkspace sha maxSize ws) msgs = (None, dir)"
    and "WorkspaceFiles m = WalkWorkspace sha maxSize ws" and "distinct (map fst ws)"
    and "RestoreSnapData (Some dir) later m = (None, restored)"
  shows "map_of restored p =
    (if in_sessions p then map_of later p
     else if p = sessionSnapFile \<and> msgs \<noteq> None \<and> (\<exists>data. map_of ws p = Some data \<and> small_enough maxSize data) then msgs
     else case map_of ws p of Some data \<Rightarrow> if small_enough maxSize data then Some data else None | None \<Rightarrow> None)"
  by (rule restored_file [OF assms])

definition demo_ws :: workspace where
  "demo_ws = [([''a''], ''one''), ([''src'', ''b''], ''two''), ([''big''], ''0123456789''), ([''sessions'', ''s''], ''old'')]"

definition demo_later :: workspace where
  "demo_later = [([''a''], ''changed''), ([''big''], ''0123456789''), ([''new''], ''x''), ([''sessions'', ''s''], ''grown'')]"

definition demo_manifest :: CommitManifest where
  "demo_manifest = \<lparr>CommitID = ''1'', CommitAgent = ''main'', CommitSession = ''s'', CreatedAt = 1, ParentID = [],
     SessionLineCount = 2, WorkspaceFiles = WalkWorkspace id 5 demo_ws, HasSnapData = True, Revoked = False\<rparr>"

definition demo_dir :: workspace where
  "demo_dir = snd (StoreSnapData demo_ws (WalkWorkspace id 5 demo_ws) (Some ''[]''))"

definition demo_restored :: workspace where
  "demo_restored = snd (RestoreSnapData (Some demo_dir) demo_later demo_manifest)"

lemma demo_stored: "StoreSnapData demo_ws (WalkWorkspace id 5 demo_ws) (Some ''[]'') = (None, demo_dir)"
proof -
  have "fst (StoreSnapData demo_ws (WalkWorkspace id 5 demo_ws) (Some ''[]'')) = None" by code_simp
  then show ?thesis by (simp add: demo_dir_def prod_eq_iff)
qed

lemma demo_rollback: "RestoreSnapData (Some demo_dir) demo_later demo_manifest = (None, demo_restored)"
proof -
  have "fst (RestoreSnapData (Some demo_dir) demo_later demo_manifest) = None" by code_simp
  then show ?thesis by (simp add: demo_restored_def prod_eq_iff)
qed

lemma demo_files: "WorkspaceFiles demo_manifest = WalkWorkspace id 5 demo_ws" "distinct (map fst demo_ws)"
  "map_of demo_ws sessionSnapFile = None"
  by (simp_all add: demo_manifest_def demo_ws_def sessionSnapFile_def)

theorem restore_exact_witness:
  "map_of demo_restored [''a''] = Some ''one'' \<and> map_of demo_restored [''new''] = None \<and>
   map_of demo_restored [''sessions'', ''s''] = Some ''grown''"
proof -
  note at = restore_exact [OF demo_stored demo_files(1,2) demo_rollback]
  show ?thesis
    unfolding at by (simp add: in_sessions_def demo_ws_def demo_later_def small_enough_def sessionSnapFile_def)
qed

text \<open>A rollback deletes files that were there all the time: a file that was too large for the checkpoint is not in the
  manifest, and what is not in the manifest is removed, even when nothing at all has changed since the checkpoint.\<close>

theorem rollback_deletes_large_files:
  assumes "StoreSnapData ws (WalkWorkspace sha maxSize ws) msgs = (None, dir)"
    and "WorkspaceFiles m = WalkWorkspace sha maxSize ws" and "distinct (map fst ws)"
    and "RestoreSnapData (Some dir) ws m = (None, restored)"
    and "map_of ws p = Some data" and "\<not> small_enough maxSize data" and "\<not> in_sessions p"
  shows "map_of restored p = None"
  using restored_file [OF assms(1-4), of p] assms(5-7) by auto

theorem rollback_deletes_large_files_witness:
  "map_of demo_ws [''big''] = Some ''0123456789'' \<and>
   map_of (snd (RestoreSnapData (Some demo_dir) demo_ws demo_manifest)) [''big''] = None"
proof -
  have "fst (RestoreSnapData (Some demo_dir) demo_ws demo_manifest) = None" by code_simp
  then have run: "RestoreSnapData (Some demo_dir) demo_ws demo_manifest = (None, snd (RestoreSnapData (Some demo_dir) demo_ws demo_manifest))"
    by (simp add: prod_eq_iff)
  have "map_of demo_ws [''big''] = Some ''0123456789''" "\<not> small_enough 5 ''0123456789''" "\<not> in_sessions [''big'']"
    by code_simp+
  with rollback_deletes_large_files [OF demo_stored demo_files(1,2) run] show ?thesis by simp
qed

text \<open>The messages of the session overwrite a file of the workspace: a file \<open>_session.json\<close> in its root comes back from a
  rollback with the messages as its content.\<close>

theorem session_file_clobbered:
  assumes "StoreSnapData ws (WalkWorkspace sha maxSize ws) (Some msgs) = (None, dir)"
    and "WorkspaceFiles m = WalkWorkspace sha maxSize ws" and "distinct (map fst ws)"
    and "RestoreSnapData (Some dir) later m = (None, restored)"
    and "map_of ws sessionSnapFile = Some data" and "small_enough maxSize data"
  shows "map_of restored sessionSnapFile = Some msgs"
  using restored_file [OF assms(1-4), of sessionSnapFile] assms(5,6) by (auto simp: in_sessions_def sessionSnapFile_def)

theorem session_file_clobbered_witness:
  "map_of (snd (RestoreSnapData (Some (snd (StoreSnapData [(sessionSnapFile, ''mine'')]
       (WalkWorkspace id 5 [(sessionSnapFile, ''mine'')]) (Some ''[]'')))) []
     (demo_manifest\<lparr>WorkspaceFiles := WalkWorkspace id 5 [(sessionSnapFile, ''mine'')]\<rparr>))) sessionSnapFile = Some ''[]''"
proof -
  let ?ws = "[(sessionSnapFile, ''mine'')]"
  let ?st = "StoreSnapData ?ws (WalkWorkspace id 5 ?ws) (Some ''[]'')"
  let ?m = "demo_manifest\<lparr>WorkspaceFiles := WalkWorkspace id 5 ?ws\<rparr>"
  let ?rs = "RestoreSnapData (Some (snd ?st)) [] ?m"
  have "fst ?st = None" "fst ?rs = None" by code_simp+
  then have st: "?st = (None, snd ?st)" and rs: "?rs = (None, snd ?rs)" by (simp_all add: prod_eq_iff)
  show ?thesis
    using session_file_clobbered [OF st _ _ rs, of "''mine''"] by (simp add: small_enough_def)
qed

section \<open>Pruning\<close>

lemma fold_del: "map_of (fold (\<lambda>m. assoc_del (CommitID m)) ms l) i = (if i \<in> CommitID ` set ms then None else map_of l i)"
  by (induction ms arbitrary: l) auto

definition store_ok :: "commit_store \<Rightarrow> bool" where
  "store_ok s \<longleftrightarrow> distinct (map fst (Manifests s)) \<and> list_all (\<lambda>(i, m). CommitID m = i) (Manifests s)"

lemma fold_del_filter: "fold (\<lambda>m. assoc_del (CommitID m)) ms l = filter (\<lambda>e. fst e \<notin> CommitID ` set ms) l"
proof (induction ms arbitrary: l)
  case (Cons m ms)
  then show ?case by (auto simp: assoc_del_def intro: filter_cong)
qed simp

lemma prune_count:
  assumes "store_ok s" and "0 < maxKeep"
  shows "int (length (Manifests (PruneOldest s maxKeep))) \<le> maxKeep"
proof (cases "int (length (ListCommits s [])) \<le> maxKeep")
  case True
  with assms(2) show ?thesis by (simp add: PruneOldest_def ListCommits_def)
next
  case False
  let ?all = "ListCommits s []" and ?left = "Manifests (PruneOldest s maxKeep)"
  have left: "?left = filter (\<lambda>e. fst e \<notin> CommitID ` set (drop (nat maxKeep) ?all)) (Manifests s)"
    using False assms(2) by (simp add: PruneOldest_def Let_def remove_commits_def fold_del_filter)
  have "fst ` set ?left \<subseteq> CommitID ` set (take (nat maxKeep) ?all)"
  proof
    fix i assume "i \<in> fst ` set ?left"
    then obtain m where m: "(i, m) \<in> set (Manifests s)" "i \<notin> CommitID ` set (drop (nat maxKeep) ?all)" using left by auto
    with assms(1) have "CommitID m = i" by (auto simp: store_ok_def list_all_iff)
    moreover have "m \<in> set ?all" using m(1) by (force simp: ListCommits_def)
    then have "m \<in> set (take (nat maxKeep) ?all) \<union> set (drop (nat maxKeep) ?all)"
      by (metis append_take_drop_id set_append)
    ultimately show "i \<in> CommitID ` set (take (nat maxKeep) ?all)" using m(2) by auto
  qed
  then have "card (fst ` set ?left) \<le> card (set (take (nat maxKeep) ?all))"
    by (meson List.finite_set card_image_le card_mono finite_imageI le_trans)
  also have "\<dots> \<le> nat maxKeep" by (rule order_trans [OF card_length]) simp
  finally have "card (fst ` set ?left) \<le> nat maxKeep" .
  moreover have "distinct (map fst ?left)" using assms(1) left by (simp add: store_ok_def distinct_filter_keys)
  then have "card (fst ` set ?left) = length ?left" by (metis distinct_card length_map list.set_map)
  ultimately show ?thesis using assms(2) by simp
qed


definition demo_store :: commit_store where
  "demo_store = \<lparr>Manifests = [(''1'', demo_manifest), (''2'', demo_manifest\<lparr>CommitID := ''2'', CreatedAt := 2\<rparr>)],
     SnapDirs = [(''1'', []), (''2'', [])]\<rparr>"


text \<open>When the data of a commit cannot be stored, two commits are left: the manifest is written again without the
  mark that it has data, but under the new hash, so that the first one stays in the store and still claims to have
  its data.\<close>

theorem failed_snapshot_leaves_claim:
  assumes "StoreSnap cfg" and "MaxCommits cfg \<le> 0"
    and "fst (StoreSnapData ws (WalkWorkspace sha (MaxSnapFileSizeBytes (MaxSnapSize cfg)) ws) msgs) \<noteq> None"
    and "\<And>m. HasSnapData m \<Longrightarrow> take 32 (hash (m\<lparr>HasSnapData := False\<rparr>)) \<noteq> take 32 (hash m)"
    and "CreateCommit cfg sha hash s agentID sessionKey ws msgs msgCount now parentID = (s', m)"
  shows "\<exists>i stale. i \<noteq> CommitID m \<and> \<not> HasSnapData m \<and> map_of (Manifests s') i = Some stale \<and> HasSnapData stale"
proof -
  let ?snaps = "WalkWorkspace sha (MaxSnapFileSizeBytes (MaxSnapSize cfg)) ws"
  let ?m = "\<lparr>CommitID = [], CommitAgent = agentID, CommitSession = sessionKey, CreatedAt = now, ParentID = parentID,
    SessionLineCount = msgCount, WorkspaceFiles = ?snaps, HasSnapData = True, Revoked = False\<rparr>"
  obtain e dir where st: "StoreSnapData ws ?snaps msgs = (Some e, dir)" using assms(3) by (cases "StoreSnapData ws ?snaps msgs") auto
  have ne: "take 32 (hash (?m\<lparr>HasSnapData := False\<rparr>)) \<noteq> take 32 (hash ?m)" by (rule assms(4)) simp
  have "CommitID m = take 32 (hash (?m\<lparr>HasSnapData := False\<rparr>))" "\<not> HasSnapData m"
    "map_of (Manifests s') (take 32 (hash ?m)) = Some (?m\<lparr>CommitID := take 32 (hash ?m)\<rparr>)"
    using assms(1,2,5) st ne by (auto simp: CreateCommit_def Write_def Let_def)
  with ne show ?thesis by (intro exI [of _ "take 32 (hash ?m)"]) auto
qed

definition demo_hash :: "CommitManifest \<Rightarrow> string" where
  "demo_hash m = (if HasSnapData m then ''1'' else ''2'')"

theorem failed_snapshot_leaves_claim_witness:
  "\<exists>i stale. i \<noteq> ''2'' \<and> HasSnapData stale \<and> map_of (Manifests (fst (CreateCommit \<lparr>StoreSnap = True, MaxSnapSize = 0, MaxCommits = 0\<rparr> id demo_hash
     \<lparr>Manifests = [], SnapDirs = []\<rparr> ''main'' ''s'' [([''a''], ''x''), ([''a'', ''b''], ''y'')] None 0 1 []))) i = Some stale"
proof -
  let ?cfg = "\<lparr>StoreSnap = True, MaxSnapSize = 0, MaxCommits = 0\<rparr>" and ?ws = "[([''a''], ''x''), ([''a'', ''b''], ''y'')]"
  let ?run = "CreateCommit ?cfg id demo_hash \<lparr>Manifests = [], SnapDirs = []\<rparr> ''main'' ''s'' ?ws None 0 1 []"
  obtain s' m where run: "?run = (s', m)" by fastforce
  have "fst (StoreSnapData ?ws (WalkWorkspace id (MaxSnapFileSizeBytes (MaxSnapSize ?cfg)) ?ws) None) \<noteq> None" by code_simp
  moreover have "CommitID (snd ?run) = ''2''" by code_simp
  ultimately show ?thesis
    using failed_snapshot_leaves_claim [OF _ _ _ _ run] run by (simp add: demo_hash_def) metis
qed

end
