(* ===== verification/Rollback.thy ===== *)
theory Rollback
  imports Checkpoint
begin

text \<open>
  The audit log of tool calls (\<open>pkg/checkpoint/action_log.go\<close>), the hooks of the turns that write it and take checkpoints
  (\<open>hooks.go\<close>), the compensation of external calls (\<open>compensation.go\<close>) and the rollback to a commit (\<open>rollback.go\<close> and
  \<open>Service.Rollback\<close>). An agent has one log and one counter for the life of the process, which the hooks of all its turns
  share. The log is the list of its entries, oldest first; it is taken to hold what was appended, one call of \<open>Append\<close> after
  the other.
\<close>

section \<open>The log\<close>

datatype side_effect = SideEffectNone | SideEffectLocal | SideEffectExternal

record CompensationPlan =
  InverseTool :: string
  InverseArgs :: string

record ActionEntry =
  Seq :: nat
  EntrySession :: string
  ToolName :: string
  EntryError :: bool
  SideEffect :: side_effect
  EntryCommit :: "string option"
  Compensation :: "CompensationPlan option"

type_synonym action_log = "ActionEntry list"

text \<open>\<open>seqs\<close> is the counter in memory.\<close>

definition Append :: "nat \<Rightarrow> action_log \<Rightarrow> ActionEntry \<Rightarrow> nat \<times> action_log" where
  "Append seqs log entry = (Suc seqs, log @ [entry\<lparr>Seq := Suc seqs\<rparr>])"

definition Query :: "action_log \<Rightarrow> int \<Rightarrow> ActionEntry list" where
  "Query log limit =
     (let entries = rev log in if 0 < limit \<and> limit < int (length entries) then take (nat limit) entries else entries)"

definition QueryAfterSeq :: "action_log \<Rightarrow> nat \<Rightarrow> ActionEntry list" where
  "QueryAfterSeq log afterSeq = filter (\<lambda>e. afterSeq < Seq e) (rev (Query log 0))"

section \<open>The hook of a turn\<close>

record hook =
  HookSession :: string
  LastCommit :: "string option"
  CallCount :: nat

definition new_hook :: "string \<Rightarrow> hook" where
  "new_hook sessionKey = \<lparr>HookSession = sessionKey, LastCommit = None, CallCount = 0\<rparr>"

record tool_call =
  CallTool :: string
  CallError :: bool
  CallEffect :: side_effect
  CallInverse :: "CompensationPlan option"  \<comment> \<open>what the rules and their templates make of the call\<close>

definition LogToolCall :: "hook \<Rightarrow> tool_call \<Rightarrow> nat \<times> action_log \<Rightarrow> nat \<times> action_log" where
  "LogToolCall h c actionLog =
     (let entry = \<lparr>Seq = 0, EntrySession = HookSession h, ToolName = CallTool c, EntryError = CallError c,
            SideEffect = CallEffect c, EntryCommit = LastCommit h,
            Compensation = (if CallEffect c = SideEffectExternal then CallInverse c else None)\<rparr>
      in Append (fst actionLog) (snd actionLog) entry)"

definition takeCheckpoint :: "hook \<Rightarrow> string \<Rightarrow> hook" where
  "takeCheckpoint h commitID = h\<lparr>LastCommit := Some commitID\<rparr>"

text \<open>\<open>commit\<close> is the result of \<open>CreateCommit\<close>: the identifier, or \<open>None\<close> when it failed.\<close>

definition hook_commit :: "hook \<Rightarrow> string option \<Rightarrow> hook" where
  "hook_commit h commit = (case commit of None \<Rightarrow> h | Some i \<Rightarrow> takeCheckpoint h i)"

definition CheckpointBefore :: "bool \<Rightarrow> string list \<Rightarrow> hook \<Rightarrow> string list \<Rightarrow> string option \<Rightarrow> hook" where
  "CheckpointBefore enabled checkpointBefore h toolNames commit =
     (if \<not> enabled then h
      else if list_ex (\<lambda>n. n \<in> set checkpointBefore) toolNames then hook_commit h commit else h)"

definition IncrementAndMaybeCheckpoint :: "bool \<Rightarrow> int \<Rightarrow> hook \<Rightarrow> nat \<Rightarrow> string option \<Rightarrow> hook" where
  "IncrementAndMaybeCheckpoint enabled everyN h n commit =
     (if \<not> enabled \<or> everyN \<le> 0 then h
      else if everyN \<le> int (CallCount h + n) then hook_commit (h\<lparr>CallCount := 0\<rparr>) commit
      else h\<lparr>CallCount := CallCount h + n\<rparr>)"

section \<open>Rollback\<close>

fun commitCutSeq :: "ActionEntry list \<Rightarrow> string \<Rightarrow> nat" where
  "commitCutSeq [] target = 0"
| "commitCutSeq (e # es) target = (if EntryCommit e = Some target then Seq e else commitCutSeq es target)"

definition FindSideEffectsBetween :: "action_log \<Rightarrow> string \<Rightarrow> ActionEntry list" where
  "FindSideEffectsBetween log target =
     (let all = Query log 0; cutSeq = commitCutSeq all target
      in filter (\<lambda>e. SideEffect e = SideEffectExternal) (takeWhile (\<lambda>e. \<not> Seq e \<le> cutSeq) all))"

definition entriesAfterCommit :: "action_log \<Rightarrow> string \<Rightarrow> ActionEntry list" where
  "entriesAfterCommit log target = QueryAfterSeq log (commitCutSeq (Query log 0) target)"

record CompensationResult =
  CompSeq :: nat
  CompTool :: string
  CompArgs :: string
  CompOutcome :: "string + string"  \<comment> \<open>error or result\<close>

text \<open>The executor gives the error or the result of a call; the calls are made in the order of the results.\<close>

definition ExecuteCompensations :: "ActionEntry list \<Rightarrow> (string \<Rightarrow> string \<Rightarrow> string + string) \<Rightarrow> CompensationResult list" where
  "ExecuteCompensations entries executor =
     List.map_filter (\<lambda>e. case Compensation e of
         None \<Rightarrow> None
       | Some p \<Rightarrow> Some \<lparr>CompSeq = Seq e, CompTool = InverseTool p, CompArgs = InverseArgs p,
           CompOutcome = executor (InverseTool p) (InverseArgs p)\<rparr>) (rev entries)"

datatype scope = ScopeSession | ScopeWorkspace | ScopeAll | ScopeOther string

record RollbackResult =
  Unrestorable :: "ActionEntry list"
  CompensationsRun :: "CompensationResult list"
  RestoredSession :: "string option"
  RestoredFiles :: bool

definition compensated :: "CompensationResult list \<Rightarrow> nat set" where
  "compensated rs = {CompSeq r |r. r \<in> set rs \<and> (case CompOutcome r of Inl e \<Rightarrow> e = [] | Inr _ \<Rightarrow> True)}"

definition Rollback ::
  "commit_store \<Rightarrow> action_log \<Rightarrow> string \<Rightarrow> scope \<Rightarrow> workspace option \<Rightarrow> (string \<Rightarrow> string \<Rightarrow> string + string) option \<Rightarrow>
   (ckpt_error + RollbackResult) \<times> CompensationResult list \<times> workspace option" where
  "Rollback s log commitID sc ws executor =
     (case map_of (Manifests s) commitID of
        None \<Rightarrow> (Inl NoManifest, [], ws)
      | Some commit \<Rightarrow>
          if \<not> HasSnapData commit then (Inl ErrNoSnapData, [], ws)
          else
            let snapDir = map_of (SnapDirs s) commitID;
                comps = (case executor of None \<Rightarrow> [] | Some ex \<Rightarrow> ExecuteCompensations (entriesAfterCommit log (CommitID commit)) ex);
                effects = filter (\<lambda>e. Seq e \<notin> compensated comps) (FindSideEffectsBetween log (CommitID commit));
                session = (if sc = ScopeSession \<or> sc = ScopeAll then map_sum id Some (LoadSessionSnap snapDir) else Inr None)
            in case session of
                 Inl e \<Rightarrow> (Inl e, comps, ws)
               | Inr msgs \<Rightarrow>
                   (case (if sc = ScopeWorkspace \<or> sc = ScopeAll then ws else None) of
                      None \<Rightarrow>
                        (Inr \<lparr>Unrestorable = effects, CompensationsRun = comps, RestoredSession = msgs, RestoredFiles = False\<rparr>, comps, ws)
                    | Some w \<Rightarrow>
                        (case RestoreSnapData snapDir w commit of
                           (Some e, w') \<Rightarrow> (Inl e, comps, Some w')
                         | (None, w') \<Rightarrow>
                             (Inr \<lparr>Unrestorable = effects, CompensationsRun = comps, RestoredSession = msgs, RestoredFiles = True\<rparr>,
                              comps, Some w'))))"

section \<open>What a rollback sees of the log\<close>

text \<open>The log of an agent and the hooks of its turns. A turn begins with a hook of its own; its calls are logged when they are
  done, and \<open>CommitTaken\<close> is a checkpoint that the hook has taken. Turns of several sessions may run at the same time.\<close>

record audit =
  SeqCounter :: nat
  AuditLog :: action_log
  TurnHooks :: "nat \<rightharpoonup> hook"

datatype audit_event = TurnBegins nat string | ToolDone nat tool_call | CommitTaken nat string

fun audit_step :: "audit \<Rightarrow> audit_event \<Rightarrow> audit" where
  "audit_step a (TurnBegins t sessionKey) = a\<lparr>TurnHooks := (TurnHooks a)(t \<mapsto> new_hook sessionKey)\<rparr>"
| "audit_step a (ToolDone t c) =
     (case TurnHooks a t of
        None \<Rightarrow> a
      | Some h \<Rightarrow> let (seqs, log) = LogToolCall h c (SeqCounter a, AuditLog a) in a\<lparr>SeqCounter := seqs, AuditLog := log\<rparr>)"
| "audit_step a (CommitTaken t i) =
     (case TurnHooks a t of None \<Rightarrow> a | Some h \<Rightarrow> a\<lparr>TurnHooks := (TurnHooks a)(t \<mapsto> takeCheckpoint h i)\<rparr>)"

definition audit_run :: "audit \<Rightarrow> audit_event list \<Rightarrow> audit" where
  "audit_run a evs = foldl audit_step a evs"

text \<open>The log and the counter of a running process: the numbers count the entries.\<close>

definition numbered :: "audit \<Rightarrow> bool" where
  "numbered a \<longleftrightarrow> SeqCounter a = length (AuditLog a) \<and> map Seq (AuditLog a) = [1..<Suc (length (AuditLog a))]"

lemma audit_run_simps [simp]: "audit_run a [] = a" "audit_run a (e # evs) = audit_run (audit_step a e) evs"
  "audit_run a (evs @ evs') = audit_run (audit_run a evs) evs'"
  by (simp_all add: audit_run_def)

lemma numbered_step: "numbered a \<Longrightarrow> numbered (audit_step a e)"
  by (cases e) (auto simp: numbered_def LogToolCall_def Append_def Let_def split: option.split)

lemma numbered_run: "numbered a \<Longrightarrow> numbered (audit_run a evs)"
  by (induction evs arbitrary: a) (auto simp: numbered_step)

text \<open>The turns whose last checkpoint is \<open>c\<close>, the entries of whose calls carry it.\<close>

definition holders :: "string \<Rightarrow> audit \<Rightarrow> nat set" where
  "holders c a = {t. \<exists>h. TurnHooks a t = Some h \<and> LastCommit h = Some c}"

fun moves :: "nat \<Rightarrow> audit_event \<Rightarrow> bool" where
  "moves t (TurnBegins u k) = (u = t)"
| "moves t (CommitTaken u i) = (u = t)"
| "moves t (ToolDone u c) = False"

lemma holders_step: "(\<And>u. ev \<noteq> CommitTaken u c) \<Longrightarrow> holders c (audit_step a ev) \<subseteq> holders c a - {t. moves t ev}"
  by (cases ev) (auto simp: holders_def new_hook_def takeCheckpoint_def Let_def split: option.splits if_splits prod.splits)

lemma holders_run: "\<forall>u. CommitTaken u c \<notin> set evs \<Longrightarrow> holders c (audit_run a evs) \<subseteq> holders c a"
proof (induction evs arbitrary: a)
  case (Cons ev evs)
  then have "holders c (audit_step a ev) \<subseteq> holders c a" using holders_step [of ev c a] by auto
  moreover have "holders c (audit_run (audit_step a ev) evs) \<subseteq> holders c (audit_step a ev)" using Cons by simp
  ultimately show ?case by simp
qed simp

lemma holder_stays: "t \<in> holders c a \<Longrightarrow> \<forall>ev \<in> set evs. \<not> moves t ev \<Longrightarrow> t \<in> holders c (audit_run a evs)"
proof (induction evs arbitrary: a)
  case (Cons ev evs)
  have "t \<in> holders c (audit_step a ev)"
    using Cons.prems by (cases ev) (auto simp: holders_def Let_def split: option.splits prod.splits)
  then show ?case using Cons by simp
qed simp

text \<open>A step logs at most the entry of its call.\<close>

lemma step_log: "\<exists>new. AuditLog (audit_step a ev) = AuditLog a @ new \<and>
    (\<forall>e \<in> set new. EntryCommit e = Some c \<longrightarrow> (\<exists>t k. ev = ToolDone t k \<and> t \<in> holders c a))"
  by (cases ev) (auto simp: LogToolCall_def Append_def holders_def Let_def split: option.splits)

lemma run_log: "\<exists>new. AuditLog (audit_run a evs) = AuditLog a @ new"
proof (induction evs arbitrary: a)
  case (Cons ev evs)
  from step_log [of a ev] obtain n1 where "AuditLog (audit_step a ev) = AuditLog a @ n1" by blast
  moreover from Cons.IH [of "audit_step a ev"] obtain n2 where "AuditLog (audit_run (audit_step a ev) evs) = AuditLog (audit_step a ev) @ n2" ..
  ultimately show ?case by simp
qed simp

lemma untagged_run:
  assumes "\<forall>u. CommitTaken u c \<notin> set evs" and "\<forall>u \<in> holders c a. \<forall>k. ToolDone u k \<notin> set evs"
  shows "\<exists>new. AuditLog (audit_run a evs) = AuditLog a @ new \<and> (\<forall>e \<in> set new. EntryCommit e \<noteq> Some c)"
  using assms
proof (induction evs arbitrary: a)
  case (Cons ev evs)
  have sub: "holders c (audit_step a ev) \<subseteq> holders c a" using holders_step [of ev c a] Cons.prems(1) by auto
  from step_log [of a ev c] obtain n1 where n1: "AuditLog (audit_step a ev) = AuditLog a @ n1"
    "\<forall>e \<in> set n1. EntryCommit e = Some c \<longrightarrow> (\<exists>t k. ev = ToolDone t k \<and> t \<in> holders c a)" by blast
  have "\<forall>e \<in> set n1. EntryCommit e \<noteq> Some c" using n1(2) Cons.prems(2) by auto
  moreover have "\<exists>new. AuditLog (audit_run (audit_step a ev) evs) = AuditLog (audit_step a ev) @ new \<and> (\<forall>e \<in> set new. EntryCommit e \<noteq> Some c)"
    using Cons.prems sub by (intro Cons.IH) auto
  ultimately show ?case using n1(1) by (auto intro: exI [of _ "n1 @ _"])
qed simp

lemma cut_append: "\<forall>e \<in> set xs. EntryCommit e \<noteq> Some t \<Longrightarrow> commitCutSeq (xs @ ys) t = commitCutSeq ys t"
  by (induction xs) auto

lemma cut_none: "\<forall>e \<in> set xs. EntryCommit e \<noteq> Some t \<Longrightarrow> commitCutSeq xs t = 0"
  using cut_append [of xs t "[]"] by simp

lemma numbered_split:
  assumes "numbered a" and "AuditLog a = old @ new"
  shows "(\<forall>e \<in> set old. Seq e \<le> length old) \<and> (\<forall>e \<in> set new. length old < Seq e)"
proof -
  have seq: "Seq ((old @ new) ! i) = Suc i" if "i < length (old @ new)" for i
  proof -
    have "map Seq (old @ new) ! i = [1..<Suc (length (old @ new))] ! i" using assms by (simp add: numbered_def)
    then show ?thesis using that by (simp del: map_append upt_Suc)
  qed
  have "Seq (old ! i) \<le> length old" if "i < length old" for i using seq [of i] that by (simp add: nth_append)
  moreover have "length old < Seq (new ! i)" if "i < length new" for i using seq [of "length old + i"] that by simp
  ultimately show ?thesis by (metis in_set_conv_nth)
qed

lemma between_after:
  assumes "numbered a" and "AuditLog a = old @ new" and "commitCutSeq (Query (AuditLog a) 0) c = length old"
  shows "entriesAfterCommit (AuditLog a) c = new"
    and "FindSideEffectsBetween (AuditLog a) c = filter (\<lambda>e. SideEffect e = SideEffectExternal) (rev new)"
proof -
  note order = numbered_split [OF assms(1,2)]
  have none: "filter (\<lambda>e. length old < Seq e) old = []" and all: "filter (\<lambda>e. length old < Seq e) new = new"
    using order by (auto simp: filter_empty_conv filter_id_conv)
  then show "entriesAfterCommit (AuditLog a) c = new"
    by (simp add: entriesAfterCommit_def assms(3)) (simp add: QueryAfterSeq_def Query_def assms(2))
  have "takeWhile (\<lambda>e. \<not> Seq e \<le> length old) (rev new @ rev old) = rev new @ takeWhile (\<lambda>e. \<not> Seq e \<le> length old) (rev old)"
    using order by (intro takeWhile_append2) auto
  moreover have "takeWhile (\<lambda>e. \<not> Seq e \<le> length old) (rev old) = []" using order by (cases old rule: rev_cases) auto
  ultimately show "FindSideEffectsBetween (AuditLog a) c = filter (\<lambda>e. SideEffect e = SideEffectExternal) (rev new)"
    unfolding FindSideEffectsBetween_def Let_def assms(3) by (simp add: Query_def assms(2))
qed

text \<open>The cut is the last entry that carries the commit, or the beginning of the log when none does.\<close>

lemma cut_exact:
  assumes "numbered a" and "AuditLog a = old @ new" and "\<forall>e \<in> set new. EntryCommit e \<noteq> Some c"
    and "old = [] \<or> EntryCommit (last old) = Some c"
  shows "commitCutSeq (Query (AuditLog a) 0) c = length old"
proof (cases old rule: rev_cases)
  case Nil
  then show ?thesis using assms(2,3) by (simp add: Query_def cut_none)
next
  case (snoc es e)
  have "map Seq (es @ e # new) = [1..<Suc (length (es @ e # new))]"
    using assms(1) unfolding numbered_def assms(2) snoc by (simp del: upt_Suc)
  then have "map Seq (es @ e # new) ! length es = [1..<Suc (length (es @ e # new))] ! length es" by simp
  then have "Seq e = Suc (length es)" by (simp add: nth_append del: upt_Suc)
  then show ?thesis using assms(3,4) by (simp add: Query_def assms(2) snoc cut_append)
qed

text \<open>What the process has seen of a commit when a turn takes it: nothing.\<close>

definition fresh_commit :: "string \<Rightarrow> audit \<Rightarrow> bool" where
  "fresh_commit c a \<longleftrightarrow> holders c a = {} \<and> (\<forall>e \<in> set (AuditLog a). EntryCommit e \<noteq> Some c)"

lemma fresh_run: "fresh_commit c a \<Longrightarrow> \<forall>u. CommitTaken u c \<notin> set evs \<Longrightarrow> fresh_commit c (audit_run a evs)"
  using untagged_run [of c evs a] holders_run [of c evs a] by (auto simp: fresh_commit_def)

lemma call_logged:
  "TurnHooks b t = Some h \<Longrightarrow> AuditLog (audit_step b (ToolDone t k)) \<noteq> [] \<and> EntryCommit (last (AuditLog (audit_step b (ToolDone t k)))) = LastCommit h"
  by (simp add: LogToolCall_def Append_def Let_def)

text \<open>The entries after the last call that the turn itself made between its checkpoint and its next one carry another commit.\<close>

lemma untagged_after:
  assumes "holders c a \<subseteq> {t}" and "\<forall>u. CommitTaken u c \<notin> set (quiet @ post)" and "\<forall>k. ToolDone t k \<notin> set quiet"
    and "post = [] \<or> moves t (hd post)"
  shows "\<exists>new. AuditLog (audit_run a (quiet @ post)) = AuditLog a @ new \<and> (\<forall>e \<in> set new. EntryCommit e \<noteq> Some c)"
proof -
  from untagged_run [of c quiet a] assms(1-3) obtain n1 where n1: "AuditLog (audit_run a quiet) = AuditLog a @ n1"
    "\<forall>e \<in> set n1. EntryCommit e \<noteq> Some c" by fastforce
  let ?b = "audit_run a quiet"
  have b: "holders c ?b \<subseteq> {t}" using holders_run [of c quiet a] assms(1,2) by auto
  have "\<exists>new. AuditLog (audit_run ?b post) = AuditLog ?b @ new \<and> (\<forall>e \<in> set new. EntryCommit e \<noteq> Some c)"
  proof (cases post)
    case (Cons ev evs)
    with assms(2,4) have ev: "moves t ev" "\<And>u. ev \<noteq> CommitTaken u c" by auto
    then have "holders c (audit_step ?b ev) = {}" using holders_step [of ev c ?b] b by auto
    moreover have "AuditLog (audit_step ?b ev) = AuditLog ?b" using ev(1) by (cases ev) (auto split: option.split)
    ultimately show ?thesis using untagged_run [of c evs "audit_step ?b ev"] assms(2) Cons by simp
  qed simp
  with n1 show ?thesis by auto
qed

text \<open>C33. What a rollback to a checkpoint undoes and reports, exactly, whatever the log of the process already holds and
  whatever other turns of the agent do in between. Let a turn take the checkpoint, and let \<open>calls\<close> be the events up to the
  last call that this turn completes before its next checkpoint (or its end). If there is such a call, the rollback undoes
  the calls that were logged after it, of all turns, and none before; its report is the external ones among them, newest
  first. If the turn completes no call before its next checkpoint, it undoes and reports the calls of the whole log, those
  before the checkpoint included. (So the calls right after a checkpoint are missed and, in the other case, too many are
  undone; both against the comment of \<open>FindSideEffectsBetween\<close>.) The entries are numbered as within one process, one
  \<open>Append\<close> after the other, and the identifier of the commit is new.\<close>

theorem undo_from_next_commit:
  assumes "numbered a" and "fresh_commit c a" and "\<forall>u. CommitTaken u c \<notin> set (pre @ calls @ quiet @ post)"
    and "TurnHooks (audit_run a pre) t \<noteq> None"
    and "\<forall>ev \<in> set (calls @ quiet). \<not> moves t ev" and "post = [] \<or> moves t (hd post)"
    and "calls = [] \<or> (\<exists>k. last calls = ToolDone t k)" and "\<forall>k. ToolDone t k \<notin> set quiet"
    and "log = AuditLog (audit_run a (pre @ CommitTaken t c # calls @ quiet @ post))"
    and "before = (if calls = [] then [] else AuditLog (audit_run a (pre @ CommitTaken t c # calls)))"
  shows "\<exists>undone. log = before @ undone \<and> entriesAfterCommit log c = undone \<and>
    FindSideEffectsBetween log c = filter (\<lambda>e. SideEffect e = SideEffectExternal) (rev undone)"
proof -
  let ?a0 = "audit_run a pre"
  let ?a1 = "audit_step ?a0 (CommitTaken t c)"
  let ?a2 = "audit_run ?a1 calls"
  have fresh: "fresh_commit c ?a0" using assms(2,3) by (intro fresh_run) auto
  have logs: "AuditLog ?a1 = AuditLog ?a0" by (auto split: option.split)
  have h1: "holders c ?a1 \<subseteq> {t}" "t \<in> holders c ?a1"
    using fresh assms(4) by (auto simp: fresh_commit_def holders_def takeCheckpoint_def split: if_splits)
  then have h2: "holders c ?a2 \<subseteq> {t}" using holders_run [of c calls ?a1] assms(3) by auto
  from untagged_after [OF h2, of quiet post] assms(3,6,8) obtain new where
    new: "log = AuditLog ?a2 @ new" "\<forall>e \<in> set new. EntryCommit e \<noteq> Some c" by (auto simp: assms(9))
  have num: "numbered (audit_run ?a2 (quiet @ post))" using assms(1) by (simp add: numbered_run numbered_step del: audit_step.simps)
  have log: "AuditLog (audit_run ?a2 (quiet @ post)) = log" by (simp add: assms(9))
  have "\<exists>undone. log = before @ undone \<and> (\<forall>e \<in> set undone. EntryCommit e \<noteq> Some c) \<and> (before = [] \<or> EntryCommit (last before) = Some c)"
  proof (cases calls rule: rev_cases)
    case Nil
    then show ?thesis using new fresh logs by (auto simp: assms(10) fresh_commit_def)
  next
    case (snoc cs ev)
    then obtain k where k: "ev = ToolDone t k" using assms(7) by auto
    have "t \<in> holders c (audit_run ?a1 cs)" using assms(5) snoc h1(2) by (intro holder_stays) auto
    then obtain h where "TurnHooks (audit_run ?a1 cs) t = Some h" "LastCommit h = Some c" unfolding holders_def by blast
    from call_logged [OF this(1), of k] this(2) have "AuditLog ?a2 \<noteq> []" "EntryCommit (last (AuditLog ?a2)) = Some c"
      by (simp_all add: snoc k del: audit_step.simps)
    then show ?thesis using new snoc by (auto simp: assms(10))
  qed
  then obtain undone where u: "log = before @ undone" "\<forall>e \<in> set undone. EntryCommit e \<noteq> Some c"
    "before = [] \<or> EntryCommit (last before) = Some c" by blast
  have cut: "commitCutSeq (Query log 0) c = length before" using cut_exact [OF num, unfolded log, OF u] .
  from between_after [OF num, unfolded log, OF u(1) cut] u(1) show ?thesis by blast
qed

definition demo_call :: "string \<Rightarrow> tool_call" where
  "demo_call n = \<lparr>CallTool = n, CallError = False, CallEffect = SideEffectExternal, CallInverse = Some \<lparr>InverseTool = ''undo'', InverseArgs = n\<rparr>\<rparr>"

text \<open>An agent whose log has an entry of an earlier turn.\<close>

definition demo_audit :: audit where
  "demo_audit = audit_run \<lparr>SeqCounter = 0, AuditLog = [], TurnHooks = Map.empty\<rparr> [TurnBegins 0 ''s'', ToolDone 0 (demo_call ''old'')]"

lemma demo_audit: "numbered demo_audit" "fresh_commit c demo_audit"
  by (simp_all add: demo_audit_def numbered_def fresh_commit_def holders_def new_hook_def LogToolCall_def Append_def)

theorem undo_from_next_commit_witness:
  "\<exists>log. map ToolName log = [''old'', ''mail'', ''post'', ''pay''] \<and> map ToolName (entriesAfterCommit log ''c'') = [''post'', ''pay'']"
proof -
  let ?pre = "[TurnBegins 1 ''s'', TurnBegins 2 ''u'']" and ?calls = "[ToolDone 1 (demo_call ''mail'')]"
    and ?quiet = "[ToolDone 2 (demo_call ''post'')]" and ?post = "[CommitTaken 1 ''d'', ToolDone 1 (demo_call ''pay'')]"
  let ?before = "AuditLog (audit_run demo_audit (?pre @ CommitTaken 1 ''c'' # ?calls))"
  define log where "log = AuditLog (audit_run demo_audit (?pre @ CommitTaken 1 ''c'' # ?calls @ ?quiet @ ?post))"
  have "\<exists>undone. log = ?before @ undone \<and> entriesAfterCommit log ''c'' = undone \<and>
      FindSideEffectsBetween log ''c'' = filter (\<lambda>e. SideEffect e = SideEffectExternal) (rev undone)"
    by (rule undo_from_next_commit [OF demo_audit(1,2) _ _ _ _ _ _ log_def]) (simp_all add: demo_audit_def new_hook_def Let_def split_def)
  moreover have "map ToolName ?before = [''old'', ''mail'']" "map ToolName log = [''old'', ''mail'', ''post'', ''pay'']"
    unfolding log_def demo_audit_def by (simp_all add: LogToolCall_def Append_def demo_call_def new_hook_def takeCheckpoint_def)
  ultimately show ?thesis by (intro exI [of _ log]) auto
qed

text \<open>A rollback to a checkpoint after which its turn has completed no call undoes the calls before it: no entry has the target,
  the cut is at zero, and the inverse of every call of the log runs, newest first.\<close>

theorem earlier_calls_undone:
  assumes "numbered a" and "fresh_commit c a" and "log = AuditLog (audit_run a [CommitTaken t c])"
    and "map_of (Manifests st) c = Some m" and "CommitID m = c" and "HasSnapData m"
  shows "fst (snd (Rollback st log c (ScopeOther x) ws (Some ex))) = ExecuteCompensations (AuditLog a) ex"
proof -
  have log: "log = AuditLog a" by (auto simp: assms(3) split: option.split)
  have "commitCutSeq (Query (AuditLog a) 0) c = 0"
    using cut_exact [OF assms(1), of "[]"] assms(2) by (simp add: fresh_commit_def)
  then have "entriesAfterCommit log c = AuditLog a"
    using between_after(1) [OF assms(1), of "[]" "AuditLog a" c] by (simp add: log)
  then show ?thesis using assms(4-6) by (simp add: Rollback_def Let_def map_sum.simps log)
qed

theorem earlier_calls_undone_witness:
  "map CompArgs (fst (snd (Rollback demo_store (AuditLog (audit_run demo_audit [CommitTaken 0 ''1''])) ''1'' (ScopeOther []) None
     (Some (\<lambda>t a. Inr []))))) = [''old'']"
proof -
  have "map_of (Manifests demo_store) ''1'' = Some demo_manifest" "CommitID demo_manifest = ''1''" "HasSnapData demo_manifest"
    by (simp_all add: demo_store_def demo_manifest_def)
  note run = earlier_calls_undone [OF demo_audit refl this, of 0 "[]" None "\<lambda>t a. Inr []"]
  show ?thesis unfolding run
    by (simp add: ExecuteCompensations_def demo_audit_def LogToolCall_def Append_def new_hook_def demo_call_def Let_def map_filter_simps)
qed

text \<open>A rollback restores what the checkpoint saved: with the data in the store, the messages of the session are the saved
  ones, and outside the folder of sessions the files of the workspace are those that were saved, and no others (a file with
  the name of the saved messages comes back as these).\<close>

theorem Rollback_restores:
  assumes "StoreSnapData ws (WalkWorkspace sha maxSize ws) (Some msgs) = (None, dir)"
    and "map_of (Manifests st) c = Some m" and "HasSnapData m" and "WorkspaceFiles m = WalkWorkspace sha maxSize ws"
    and "map_of (SnapDirs st) c = Some dir" and "distinct (map fst ws)"
    and "Rollback st log c ScopeAll (Some later) ex = (Inr r, undone, Some restored)"
  shows "RestoredSession r = Some msgs \<and> map_of restored p =
    (if in_sessions p then map_of later p
     else if p = sessionSnapFile \<and> (\<exists>data. map_of ws p = Some data \<and> small_enough maxSize data) then Some msgs
     else case map_of ws p of Some data \<Rightarrow> if small_enough maxSize data then Some data else None | None \<Rightarrow> None)"
proof -
  have load: "LoadSessionSnap (Some dir) = Inr msgs"
    using assms(1) by (auto simp: StoreSnapData_def LoadSessionSnap_def split: prod.splits option.splits if_splits)
  have "RestoredSession r = Some msgs" and run: "RestoreSnapData (Some dir) later m = (None, restored)"
    using assms(2,3,5,7) by (auto simp: Rollback_def Let_def load map_sum.simps split: prod.splits option.splits)
  then show ?thesis using restored_file [OF assms(1,4,6) run, of p] by simp
qed

theorem Rollback_restores_witness:
  "map_of demo_restored [''a''] = Some ''one'' \<and> map_of demo_restored [''new''] = None"
proof -
  let ?st = "\<lparr>Manifests = [(''1'', demo_manifest)], SnapDirs = [(''1'', demo_dir)]\<rparr>"
  have load: "LoadSessionSnap (Some demo_dir) = Inr ''[]''" by code_simp
  have "\<exists>r. Rollback ?st [] ''1'' ScopeAll (Some demo_later) None = (Inr r, [], Some demo_restored)"
    by (simp add: Rollback_def Let_def load demo_rollback map_sum.simps) (simp add: demo_manifest_def)
  then obtain r where r: "Rollback ?st [] ''1'' ScopeAll (Some demo_later) None = (Inr r, [], Some demo_restored)" ..
  have m: "map_of (Manifests ?st) ''1'' = Some demo_manifest" "HasSnapData demo_manifest" "map_of (SnapDirs ?st) ''1'' = Some demo_dir"
    by (simp_all add: demo_manifest_def)
  note saved = Rollback_restores [OF demo_stored m(1,2) demo_files(1) m(3) demo_files(2) r]
  from saved [of "[''a'']"] saved [of "[''new'']"] show ?thesis by (simp add: in_sessions_def demo_ws_def small_enough_def sessionSnapFile_def)
qed

end
