(* ===== verification/Subagents.thy ===== *)
theory Subagents
  imports Turn Channels FileTools
begin

text \<open>
  Subagents (\<open>pkg/tools/toolloop.go\<close>, \<open>subagent.go\<close>, \<open>spawn.go\<close>, \<open>spawn_status.go\<close>): the loop of model and tools that a
  subagent runs, the manager with its tasks, the tools that start them and report on them, and the way of a result back
  through \<open>processSystemMessage\<close> of \<open>pkg/agent/loop.go\<close>. The provider, the tools and the texts of times are arguments.
\<close>

section \<open>The tool loop\<close>

record loop_env =
  loop_chat :: "nat \<Rightarrow> Message list \<Rightarrow> ToolDefinition list \<Rightarrow> string + LLMResponse"
  loop_tool :: "nat \<Rightarrow> nat \<Rightarrow> Tool \<Rightarrow> (string \<times> json) list \<Rightarrow> ToolResult"
  loop_codec :: turn_env  \<comment> \<open>for the texts of arguments and quoted names\<close>

datatype loop_event = LoopRequest "Message list" "ToolDefinition list" | LoopRan ToolCall

text \<open>The definitions of a tool without a valid contract cannot be built: \<open>ToolToSchema\<close> panics.\<close>

datatype loop_outcome = ContractPanic | ChatFailed string | Finished string nat

definition loop_defs :: "ToolRegistry option \<Rightarrow> ToolDefinition list option" where
  "loop_defs reg = (case reg of None \<Rightarrow> Some [] | Some r \<Rightarrow> ToProviderDefsWithHiddenAllowlist r {})"

definition loop_call :: "loop_env \<Rightarrow> ToolCall \<Rightarrow> ToolCall" where
  "loop_call e tc =
     \<lparr>ID = ID tc, CallType = ''function'',
      Function = Some \<lparr>FnName = Name tc, FnArguments = marshal_args (loop_codec e) (Arguments tc)\<rparr>,
      Name = Name tc, Arguments = Arguments tc\<rparr>"

definition loop_execute ::
  "loop_env \<Rightarrow> ToolRegistry option \<Rightarrow> ToolDefinition list \<Rightarrow> nat \<Rightarrow> nat \<times> ToolCall \<Rightarrow> ToolResult \<times> loop_event list" where
  "loop_execute e reg defs iteration = (\<lambda>(idx, tc).
     if Name tc \<notin> toolDefinitionNameSet defs then
       (ErrorResult (''tool '' @ quote_name (loop_codec e) (Name tc) @ '' is not exposed in this request; discover it first''), [])
     else
       (case reg of
          Some r \<Rightarrow>
            (ExecuteWithContext (quote_name (loop_codec e)) (\<lambda>t. loop_tool e iteration idx t (Arguments tc)) None (\<lambda>_. False) r (Name tc),
             [LoopRan tc])
        | None \<Rightarrow> (ErrorResult ''No tools available'', [])))"

text \<open>The first number is what is left of \<open>MaxIterations\<close>, the second the iterations so far.\<close>

fun tool_loop ::
  "loop_env \<Rightarrow> ToolRegistry option \<Rightarrow> nat \<Rightarrow> nat \<Rightarrow> Message list \<Rightarrow> loop_outcome \<times> loop_event list" where
  "tool_loop e reg 0 iteration messages = (Finished [] iteration, [])"
| "tool_loop e reg (Suc left) iteration messages =
     (case loop_defs reg of
        None \<Rightarrow> (ContractPanic, [])
      | Some defs \<Rightarrow>
          (case loop_chat e iteration messages defs of
             Inl err \<Rightarrow> (ChatFailed (''LLM call failed: '' @ err), [LoopRequest messages defs])
           | Inr resp \<Rightarrow>
               if RespToolCalls resp = [] then (Finished (RespContent resp) (Suc iteration), [LoopRequest messages defs])
               else
                 let calls = map (NormalizeToolCall (loop_codec e)) (RespToolCalls resp);
                     assistant = (text_message ''assistant'' (RespContent resp))\<lparr>ToolCalls := map (loop_call e) calls\<rparr>;
                     outcomes = map (loop_execute e reg defs iteration) (enumerate 0 calls);
                     results = map (\<lambda>(tc, r). tool_message tc r) (zip calls (map fst outcomes));
                     (out, events) = tool_loop e reg left (Suc iteration) (messages @ assistant # results)
                 in (out, LoopRequest messages defs # concat (map snd outcomes) @ events)))"

definition RunToolLoop :: "loop_env \<Rightarrow> ToolRegistry option \<Rightarrow> nat \<Rightarrow> Message list \<Rightarrow> loop_outcome \<times> loop_event list" where
  "RunToolLoop e reg maxIterations messages = tool_loop e reg maxIterations 0 messages"

section \<open>The manager of subagents\<close>

datatype task_status = Running | Completed | Failed | Canceled

record SubagentTask =
  TaskID :: string
  TaskText :: string
  TaskLabel :: string
  TaskAgent :: string
  OriginChannel :: string
  OriginChat :: string
  TaskStatus :: task_status
  TaskResult :: string
  TaskCreated :: int

record SubagentManager =
  Tasks :: "(string \<times> SubagentTask) list"
  ManagerTools :: ToolRegistry
  ManagerMax :: nat
  ManagerModel :: string
  NextID :: nat

definition NewSubagentManager :: "string \<Rightarrow> SubagentManager" where
  "NewSubagentManager model = \<lparr>Tasks = [], ManagerTools = NewToolRegistry, ManagerMax = 10, ManagerModel = model, NextID = 1\<rparr>"

definition SetTools :: "SubagentManager \<Rightarrow> ToolRegistry \<Rightarrow> SubagentManager" where
  "SetTools m r = m\<lparr>ManagerTools := r\<rparr>"

definition task_id :: "nat \<Rightarrow> string" where
  "task_id n = ''subagent-'' @ decimal n"

definition quoted :: "string \<Rightarrow> string" where
  "quoted s = CHR 0x27 # s @ [CHR 0x27]"

definition Spawn ::
  "SubagentManager \<Rightarrow> int \<Rightarrow> string \<Rightarrow> string \<Rightarrow> string \<Rightarrow> string \<Rightarrow> string \<Rightarrow> SubagentManager \<times> string" where
  "Spawn m now task label agentID originChannel originChatID =
     (let i = task_id (NextID m);
          t = \<lparr>TaskID = i, TaskText = task, TaskLabel = label, TaskAgent = agentID, OriginChannel = originChannel,
               OriginChat = originChatID, TaskStatus = Running, TaskResult = [], TaskCreated = now\<rparr>
      in (m\<lparr>NextID := Suc (NextID m), Tasks := assoc_put i t (Tasks m)\<rparr>,
          if label \<noteq> [] then ''Spawned subagent '' @ quoted label @ '' for task: '' @ task
          else ''Spawned subagent for task: '' @ task))"

text \<open>What a task asks of the model: the instructions and the text of the task, and nothing else.\<close>

definition subagent_prompt :: string where
  "subagent_prompt = ''You are a subagent. Complete the given task independently and report the result.'' @ nl @
     ''You have access to tools - use them as needed to complete your task.'' @ nl @
     ''After completing the task, provide a clear summary of what was done.''"

definition task_messages :: "SubagentTask \<Rightarrow> Message list" where
  "task_messages t = [text_message ''system'' subagent_prompt, text_message ''user'' (TaskText t)]"

definition run_subagent :: "loop_env \<Rightarrow> SubagentManager \<Rightarrow> SubagentTask \<Rightarrow> loop_outcome \<times> loop_event list" where
  "run_subagent e m t = RunToolLoop e (Some (ManagerTools m)) (ManagerMax m) (task_messages t)"

definition update_task :: "string \<Rightarrow> (SubagentTask \<Rightarrow> SubagentTask) \<Rightarrow> SubagentManager \<Rightarrow> SubagentManager" where
  "update_task i f m =
     (case map_of (Tasks m) i of None \<Rightarrow> m | Some t \<Rightarrow> m\<lparr>Tasks := assoc_put i (f t) (Tasks m)\<rparr>)"

text \<open>\<open>runTask\<close> before and after its loop; a cancelled task that did not start calls nobody back.\<close>

definition cancel_unstarted :: "string \<Rightarrow> SubagentManager \<Rightarrow> SubagentManager" where
  "cancel_unstarted i = update_task i (\<lambda>t. t\<lparr>TaskStatus := Canceled, TaskResult := ''Task canceled before execution''\<rparr>)"

definition task_failed :: "bool \<Rightarrow> string \<Rightarrow> SubagentTask \<Rightarrow> SubagentTask" where
  "task_failed cancelled err t =
     (if cancelled then t\<lparr>TaskStatus := Canceled, TaskResult := ''Task canceled during execution''\<rparr>
      else t\<lparr>TaskStatus := Failed, TaskResult := ''Error: '' @ err\<rparr>)"

definition completion_text :: "SubagentTask \<Rightarrow> string \<Rightarrow> nat \<Rightarrow> string" where
  "completion_text t content n =
     ''Subagent '' @ quoted (TaskLabel t) @ '' completed (iterations: '' @ decimal n @ ''): '' @ content"

definition finish_task ::
  "string \<Rightarrow> bool \<Rightarrow> loop_outcome \<Rightarrow> SubagentManager \<Rightarrow> SubagentManager \<times> ToolResult option" where
  "finish_task i cancelled out m =
     (case (map_of (Tasks m) i, out) of
        (None, _) \<Rightarrow> (m, None)
      | (Some t, ContractPanic) \<Rightarrow> (m, None)
      | (Some t, ChatFailed err) \<Rightarrow>
          (update_task i (task_failed cancelled err) m,
           Some ((ErrorResult (TaskResult (task_failed cancelled err t)))\<lparr>Err := Some err\<rparr>))
      | (Some t, Finished content n) \<Rightarrow>
          (update_task i (\<lambda>t. t\<lparr>TaskStatus := Completed, TaskResult := content\<rparr>) m,
           Some ((NewToolResult (completion_text t content n))\<lparr>ForUser := content\<rparr>)))"

section \<open>The tools around the manager\<close>

text \<open>Arguments of a call are JSON values; \<open>allowlistCheck\<close> is \<open>None\<close> when it is not set.\<close>

definition task_arg :: "(string \<times> json) list \<Rightarrow> string \<Rightarrow> string option" where
  "task_arg args k = (case map_of args k of Some (JString s) \<Rightarrow> Some s | _ \<Rightarrow> None)"

definition or_default :: "string \<Rightarrow> string \<Rightarrow> string" where
  "or_default s d = (if s = [] then d else s)"

definition spawn_tool ::
  "(string \<Rightarrow> bool) option \<Rightarrow> SubagentManager option \<Rightarrow> int \<Rightarrow> string \<Rightarrow> string \<Rightarrow> (string \<times> json) list \<Rightarrow>
   ToolResult \<times> SubagentManager option" where
  "spawn_tool allowlistCheck manager now channel chatID args =
     (case task_arg args ''task'' of
        None \<Rightarrow> (ErrorResult ''task is required and must be a non-empty string'', manager)
      | Some task \<Rightarrow>
          if TrimSpace task = [] then (ErrorResult ''task is required and must be a non-empty string'', manager)
          else
            let label = (case task_arg args ''label'' of Some l \<Rightarrow> l | None \<Rightarrow> []);
                agentID = (case task_arg args ''agent_id'' of Some a \<Rightarrow> a | None \<Rightarrow> [])
            in if agentID \<noteq> [] \<and> (case allowlistCheck of Some check \<Rightarrow> \<not> check agentID | None \<Rightarrow> False)
               then (ErrorResult (''not allowed to spawn agent '' @ quoted agentID), manager)
               else
                 (case manager of
                    None \<Rightarrow> (ErrorResult ''Subagent manager not configured'', None)
                  | Some m \<Rightarrow>
                      let (m', text) = Spawn m now task label agentID (or_default channel ''cli'') (or_default chatID ''direct'')
                      in (AsyncResult text, Some m')))"

text \<open>The status of tasks; \<open>quote\<close> is the \<open>%q\<close> of a label, \<open>when\<close> the text of a time in UTC.\<close>

definition visible_to :: "string \<Rightarrow> string \<Rightarrow> SubagentTask \<Rightarrow> bool" where
  "visible_to channel chatID t \<longleftrightarrow>
     \<not> (channel \<noteq> [] \<and> OriginChannel t \<noteq> [] \<and> OriginChannel t \<noteq> channel) \<and>
     \<not> (chatID \<noteq> [] \<and> OriginChat t \<noteq> [] \<and> OriginChat t \<noteq> chatID)"

definition status_name :: "task_status \<Rightarrow> string" where
  "status_name s = (case s of Running \<Rightarrow> ''running'' | Completed \<Rightarrow> ''completed'' | Failed \<Rightarrow> ''failed'' | Canceled \<Rightarrow> ''canceled'')"

definition format_task :: "(string \<Rightarrow> string) \<Rightarrow> (int \<Rightarrow> string) \<Rightarrow> SubagentTask \<Rightarrow> string" where
  "format_task quote when t =
     ''['' @ TaskID t @ ''] status='' @ status_name (TaskStatus t) @
     (if TaskLabel t \<noteq> [] then ''  label='' @ quote (TaskLabel t) else []) @
     (if TaskAgent t \<noteq> [] then ''  agent='' @ TaskAgent t else []) @
     (if 0 < TaskCreated t then ''  created='' @ when (TaskCreated t) else []) @
     (if TaskText t \<noteq> [] then nl @ ''  task:   '' @ TaskText t else []) @
     (if TaskResult t \<noteq> [] then
        nl @ ''  result: '' @
        (if 300 < length (runes (TaskResult t)) then of_runes (take 300 (runes (TaskResult t))) @ EncodeRune 8230 else TaskResult t)
      else [])"

definition listed_tasks :: "string \<Rightarrow> string \<Rightarrow> SubagentManager \<Rightarrow> SubagentTask list" where
  "listed_tasks channel chatID m =
     sort_key TaskCreated (sort_key TaskID (filter (visible_to channel chatID) (map snd (Tasks m))))"

definition count_line :: "SubagentTask list \<Rightarrow> task_status \<times> string \<Rightarrow> string" where
  "count_line ts = (\<lambda>(s, label).
     let n = length (filter (\<lambda>t. TaskStatus t = s) ts)
     in if 0 < n then ''  '' @ label @ replicate (10 - length label) CHR '' '' @ '' '' @ decimal n @ nl else [])"

definition status_report :: "(string \<Rightarrow> string) \<Rightarrow> (int \<Rightarrow> string) \<Rightarrow> SubagentTask list \<Rightarrow> string" where
  "status_report quote when ts =
     (let text = ''Subagent status report ('' @ decimal (length ts) @ '' total):'' @ nl @
            concat (map (count_line ts) [(Running, ''Running:''), (Completed, ''Completed:''), (Failed, ''Failed:''), (Canceled, ''Canceled:'')]) @
            nl @ concat (map (\<lambda>t. format_task quote when t @ nl @ nl) ts)
      in rev (dropWhile (\<lambda>c. c = CHR 0x0A) (rev text)))"

definition spawn_status ::
  "(string \<Rightarrow> string) \<Rightarrow> (int \<Rightarrow> string) \<Rightarrow> SubagentManager option \<Rightarrow> string \<Rightarrow> string \<Rightarrow> (string \<times> json) list \<Rightarrow> ToolResult" where
  "spawn_status quote when manager channel chatID args =
     (case manager of
        None \<Rightarrow> ErrorResult ''Subagent manager not configured''
      | Some m \<Rightarrow>
          (case (case map_of args ''task_id'' of
                   None \<Rightarrow> Some [] | Some JNull \<Rightarrow> Some [] | Some (JString s) \<Rightarrow> Some (TrimSpace s) | Some _ \<Rightarrow> None) of
             None \<Rightarrow> ErrorResult ''task_id must be a string''
           | Some taskID \<Rightarrow>
               if taskID \<noteq> [] then
                 (case map_of (Tasks m) taskID of
                    Some t \<Rightarrow>
                      if visible_to channel chatID t then NewToolResult (format_task quote when t)
                      else ErrorResult (''No subagent found with task ID: '' @ taskID)
                  | None \<Rightarrow> ErrorResult (''No subagent found with task ID: '' @ taskID))
               else if Tasks m = [] then NewToolResult ''No subagents have been spawned yet.''
               else
                 let ts = listed_tasks channel chatID m
                 in if ts = [] then NewToolResult ''No subagents found for this conversation.''
                    else NewToolResult (status_report quote when ts)))"

section \<open>The way back to the conversation\<close>

text \<open>What the agent loop does with the result of a background task: the text for the user is sent to the chat, and a
  message goes to the internal channel \<open>system\<close>, with the chat in its \<open>ChatID\<close>.\<close>

definition async_messages :: "string \<Rightarrow> string \<Rightarrow> string \<Rightarrow> ToolResult \<Rightarrow> (string \<times> string \<times> string) list \<times> (string \<times> string \<times> string) option" where
  "async_messages tool channel chatID r =
     (if \<not> Silent r \<and> ForUser r \<noteq> [] then [(channel, chatID, ForUser r)] else [],
      if result_content r = [] then None else Some (''async:'' @ tool, channel @ colon # chatID, result_content r))"

definition parse_origin :: "string \<Rightarrow> string \<times> string" where
  "parse_origin chatID =
     (case Index chatID [colon] of
        Some (Suc i) \<Rightarrow> (take (Suc i) chatID, drop (Suc (Suc i)) chatID)
      | _ \<Rightarrow> (''cli'', chatID))"

record system_turn =
  SysSessionKey :: string
  SysChannel :: string
  SysChatID :: string
  SysMessage :: string

definition processSystemMessage ::
  "agent_registry \<Rightarrow> string \<Rightarrow> string \<Rightarrow> string \<Rightarrow> string \<Rightarrow> string + system_turn option" where
  "processSystemMessage reg channel senderID chatID content =
     (if channel \<noteq> ''system'' then Inl (''processSystemMessage called with non-system message channel: '' @ channel)
      else
        let (originChannel, originChatID) = parse_origin chatID
        in if IsInternalChannel originChannel then Inr None
           else
             (case GetDefaultAgent reg of
                None \<Rightarrow> Inl ''no default agent for system message''
              | Some agent \<Rightarrow>
                  Inr (Some \<lparr>SysSessionKey = BuildAgentMainSessionKey agent, SysChannel = originChannel, SysChatID = originChatID,
                    SysMessage = ''[System: '' @ senderID @ ''] '' @ content\<rparr>)))"

section \<open>The loop of a subagent\<close>

fun loop_only_offered :: "string set \<Rightarrow> loop_event list \<Rightarrow> bool" where
  "loop_only_offered S [] = True"
| "loop_only_offered S (LoopRequest ms defs # es) = loop_only_offered (toolDefinitionNameSet defs) es"
| "loop_only_offered S (LoopRan tc # es) = (Name tc \<in> S \<and> loop_only_offered S es)"

definition loop_requests :: "loop_event list \<Rightarrow> Message list list" where
  "loop_requests es = List.map_filter (\<lambda>e. case e of LoopRequest ms defs \<Rightarrow> Some ms | LoopRan tc \<Rightarrow> None) es"

lemma loop_requests_simps [simp]: "loop_requests [] = []" "loop_requests (LoopRequest ms defs # es) = ms # loop_requests es"
  "loop_requests (LoopRan tc # es) = loop_requests es" "loop_requests (xs @ ys) = loop_requests xs @ loop_requests ys"
  by (simp_all add: loop_requests_def map_filter_def)

lemma ran_offered:
  assumes "\<forall>x \<in> set xs. \<exists>tc. x = LoopRan tc \<and> Name tc \<in> S"
  shows "loop_requests xs = []" and "loop_only_offered S (xs @ ys) = loop_only_offered S ys"
  using assms by (induction xs) auto

lemma loop_execute_events:
  "\<forall>x \<in> set (concat (map snd (map (loop_execute e reg defs i) calls))). \<exists>tc. x = LoopRan tc \<and> Name tc \<in> toolDefinitionNameSet defs"
  by (auto simp: loop_execute_def split: if_splits option.splits)

lemma loop_round:
  assumes "RespToolCalls resp \<noteq> []"
  shows "complete_round ((text_message ''assistant'' (RespContent resp))\<lparr>ToolCalls := map (loop_call e) (map (NormalizeToolCall c) (RespToolCalls resp))\<rparr> #
    map (\<lambda>(tc, r). tool_message tc r) (zip (map (NormalizeToolCall c) (RespToolCalls resp)) (map fst (map f (enumerate 0 (map (NormalizeToolCall c) (RespToolCalls resp)))))))"
proof -
  let ?calls = "map (NormalizeToolCall c) (RespToolCalls resp)"
  have "map ToolCallID (map (\<lambda>(tc, r). tool_message tc r) (zip cs rs)) = map ID cs" if "length cs = length rs" for cs :: "ToolCall list" and rs
    using that by (induction cs rs rule: list_induct2) (simp_all add: tool_message_def)
  from this [of ?calls "map fst (map f (enumerate 0 ?calls))"]
  show ?thesis using assms
    by (auto simp: complete_round_def is_call_turn_def is_tool_def text_message_def loop_call_def o_def tool_message_def)
qed

text \<open>The loop of a subagent: at most \<open>MaxIterations\<close> requests are sent, each is the task followed by complete rounds of
  calls and results, and only tools run whose definitions were sent with the request that they answer.\<close>

theorem subagent_loop_sound:
  "length (loop_requests (snd (RunToolLoop e reg maxIterations messages))) \<le> maxIterations \<and>
   list_all (\<lambda>r. \<exists>rounds. r = messages @ concat rounds \<and> list_all complete_round rounds)
     (loop_requests (snd (RunToolLoop e reg maxIterations messages))) \<and>
   loop_only_offered {} (snd (RunToolLoop e reg maxIterations messages))"
proof -
  have "length (loop_requests (snd (tool_loop e reg k i (messages @ concat rounds)))) \<le> k \<and>
     (\<forall>r \<in> set (loop_requests (snd (tool_loop e reg k i (messages @ concat rounds)))).
        \<exists>rounds. r = messages @ concat rounds \<and> list_all complete_round rounds) \<and>
     (\<forall>S. loop_only_offered S (snd (tool_loop e reg k i (messages @ concat rounds))))"
    if "list_all complete_round rounds" for k i rounds
    using that
  proof (induction k arbitrary: i rounds)
    case (Suc k)
    let ?ms = "messages @ concat rounds"
    show ?case
    proof (cases "loop_defs reg")
      case (Some defs)
      show ?thesis
      proof (cases "loop_chat e i ?ms defs")
        case (Inr resp)
        show ?thesis
        proof (cases "RespToolCalls resp = []")
          case False
          let ?calls = "map (NormalizeToolCall (loop_codec e)) (RespToolCalls resp)"
          let ?outs = "map (loop_execute e reg defs i) (enumerate 0 ?calls)"
          let ?round = "(text_message ''assistant'' (RespContent resp))\<lparr>ToolCalls := map (loop_call e) ?calls\<rparr> #
            map (\<lambda>(tc, r). tool_message tc r) (zip ?calls (map fst ?outs))"
          have "complete_round ?round" by (rule loop_round [OF False])
          with Suc.prems have "list_all complete_round (rounds @ [?round])" by simp
          note rest = Suc.IH [OF this, of "Suc i"]
          note ran = ran_offered [OF loop_execute_events [of e reg defs i "enumerate 0 ?calls"]]
          have "snd (tool_loop e reg (Suc k) i ?ms) =
            LoopRequest ?ms defs # concat (map snd ?outs) @ snd (tool_loop e reg k (Suc i) (messages @ concat (rounds @ [?round])))"
            using Some Inr False by (simp add: Let_def split_beta)
          then show ?thesis using rest ran Suc.prems by auto
        qed (use Some Inr Suc.prems in auto)
      qed (use Some Suc.prems in auto)
    qed simp
  qed simp
  from this [of "[]" maxIterations 0] show ?thesis by (simp add: RunToolLoop_def list_all_iff)
qed

lemma no_tools_defs: "loop_defs (Some NewToolRegistry) = Some []"
  by (simp add: loop_defs_def ToProviderDefsWithHiddenAllowlist_def visible_def sortedToolNames_def NewToolRegistry_def map_filter_def)

lemma no_tools_run: "loop_only_offered {} es \<Longrightarrow> \<forall>ms defs. LoopRequest ms defs \<in> set es \<longrightarrow> defs = [] \<Longrightarrow> LoopRan tc \<notin> set es"
proof (induction es)
  case (Cons x es)
  show ?case
  proof (cases x)
    case (LoopRequest ms defs)
    with Cons.prems have "defs = []" by auto
    with Cons LoopRequest show ?thesis by (simp add: toolDefinitionNameSet_def)
  qed (use Cons in simp)
qed simp

lemma loop_request_defs: "LoopRequest ms defs \<in> set (snd (tool_loop e reg k i messages)) \<Longrightarrow> loop_defs reg = Some defs"
proof (induction k arbitrary: i messages)
  case (Suc k)
  from Suc.prems show ?case
    by (auto simp: Let_def split_beta loop_execute_def dest: Suc.IH split: option.splits sum.splits if_splits)
qed simp

section \<open>The life of a task\<close>

text \<open>A task is spawned in a turn and runs with the context of that turn, which is cancelled when the turn ends. What a
  provider makes of a cancelled context is its own affair: most return an error (\<open>chat_failed\<close>), but an answer (\<open>answered\<close>) may come
  after the end of the turn, too (the command line of Codex gives what a killed process has printed).\<close>

datatype phase = Waiting | Looping | Returned loop_outcome | Over

record sub_state =
  Mgr :: SubagentManager
  TurnOf :: "string \<Rightarrow> nat"
  PhaseOf :: "string \<Rightarrow> phase option"
  Ended :: "nat set"
  Told :: "(string \<times> ToolResult) list"

definition sub_start :: "string \<Rightarrow> sub_state" where
  "sub_start model = \<lparr>Mgr = NewSubagentManager model, TurnOf = \<lambda>i. 0, PhaseOf = \<lambda>i. None, Ended = {}, Told = []\<rparr>"

definition spawn_step :: "sub_state \<Rightarrow> nat \<Rightarrow> int \<Rightarrow> string \<Rightarrow> string \<Rightarrow> string \<Rightarrow> string \<Rightarrow> string \<Rightarrow> sub_state" where
  "spawn_step s turn now task label agentID channel chatID =
     (let i = task_id (NextID (Mgr s))
      in s\<lparr>Mgr := fst (Spawn (Mgr s) now task label agentID (or_default channel ''cli'') (or_default chatID ''direct'')), TurnOf := (TurnOf s)(i := turn),
           PhaseOf := (PhaseOf s)(i \<mapsto> Waiting)\<rparr>)"

inductive sub_step :: "sub_state \<Rightarrow> sub_state \<Rightarrow> bool" where
  spawned: "turn \<notin> Ended s \<Longrightarrow> sub_step s (spawn_step s turn now task label agentID channel chatID)"
| turn_ended: "sub_step s (s\<lparr>Ended := insert turn (Ended s)\<rparr>)"
| not_started: "PhaseOf s i = Some Waiting \<Longrightarrow> TurnOf s i \<in> Ended s \<Longrightarrow>
    sub_step s (s\<lparr>Mgr := cancel_unstarted i (Mgr s), PhaseOf := (PhaseOf s)(i \<mapsto> Over)\<rparr>)"
| started: "PhaseOf s i = Some Waiting \<Longrightarrow> TurnOf s i \<notin> Ended s \<Longrightarrow> sub_step s (s\<lparr>PhaseOf := (PhaseOf s)(i \<mapsto> Looping)\<rparr>)"
| answered: "PhaseOf s i = Some Looping \<Longrightarrow>
    sub_step s (s\<lparr>PhaseOf := (PhaseOf s)(i \<mapsto> Returned (Finished content n))\<rparr>)"
| chat_failed: "PhaseOf s i = Some Looping \<Longrightarrow> sub_step s (s\<lparr>PhaseOf := (PhaseOf s)(i \<mapsto> Returned (ChatFailed err))\<rparr>)"
| finished: "PhaseOf s i = Some (Returned out) \<Longrightarrow> finish_task i (TurnOf s i \<in> Ended s) out (Mgr s) = (m, Some r) \<Longrightarrow>
    sub_step s (s\<lparr>Mgr := m, PhaseOf := (PhaseOf s)(i \<mapsto> Over), Told := Told s @ [(i, r)]\<rparr>)"

abbreviation sub_reach :: "sub_state \<Rightarrow> sub_state \<Rightarrow> bool" where
  "sub_reach \<equiv> sub_step\<^sup>*\<^sup>*"

definition settled :: "task_status \<Rightarrow> bool" where
  "settled st \<longleftrightarrow> st \<noteq> Running"

text \<open>The tasks are numbered, running ones have work ahead of them, and only finished ones were reported, once each.\<close>

definition task_ok :: "sub_state \<Rightarrow> string \<Rightarrow> bool" where
  "task_ok s i \<longleftrightarrow>
     (case (map_of (Tasks (Mgr s)) i, PhaseOf s i) of
        (None, None) \<Rightarrow> i \<notin> fst ` set (Told s)
      | (Some t, Some p) \<Rightarrow> TaskID t = i \<and> (\<exists>n. 0 < n \<and> n < NextID (Mgr s) \<and> i = task_id n) \<and>
          (settled (TaskStatus t) \<longleftrightarrow> p = Over) \<and> (i \<in> fst ` set (Told s) \<longrightarrow> p = Over) \<and>
          OriginChannel t \<noteq> [] \<and> OriginChat t \<noteq> []
      | _ \<Rightarrow> False)"

definition sub_ok :: "sub_state \<Rightarrow> bool" where
  "sub_ok s \<longleftrightarrow> ManagerTools (Mgr s) = NewToolRegistry \<and> distinct (map fst (Tasks (Mgr s))) \<and> distinct (map fst (Told s)) \<and>
     0 < NextID (Mgr s) \<and> (\<forall>i. task_ok s i)"

lemma digits_value_snoc: "digits_value (s @ [c]) = digits_value s * 10 + (of_char c - 48)"
  by (simp add: digits_value_def)

lemma digits_decimal: "digits_value (decimal n) = n"
proof (induction n rule: decimal.induct)
  case (1 n)
  then show ?case by (subst decimal.simps) (auto simp: digits_value_snoc digits_value_def)
qed

lemma task_id_inj [simp]: "task_id m = task_id n \<longleftrightarrow> m = n"
  by (metis digits_decimal same_append_eq task_id_def)

lemma update_task_simps [simp]:
  "ManagerTools (update_task i f m) = ManagerTools m" "NextID (update_task i f m) = NextID m"
  "map_of (Tasks (update_task i f m)) j = (if j = i then map_option f (map_of (Tasks m) i) else map_of (Tasks m) j)"
  "distinct (map fst (Tasks m)) \<Longrightarrow> distinct (map fst (Tasks (update_task i f m)))"
  by (auto simp: update_task_def split: option.splits)

lemma Spawn_simps [simp]:
  "ManagerTools (fst (Spawn m now task label a ch c)) = ManagerTools m" "NextID (fst (Spawn m now task label a ch c)) = Suc (NextID m)"
  "map_of (Tasks (fst (Spawn m now task label a ch c))) j =
     (if j = task_id (NextID m) then Some \<lparr>TaskID = j, TaskText = task, TaskLabel = label, TaskAgent = a, OriginChannel = ch,
        OriginChat = c, TaskStatus = Running, TaskResult = [], TaskCreated = now\<rparr> else map_of (Tasks m) j)"
  "distinct (map fst (Tasks m)) \<Longrightarrow> distinct (map fst (Tasks (fst (Spawn m now task label a ch c))))"
  by (auto simp: Spawn_def Let_def)

lemma finish_task_result:
  "finish_task i c out m = (m', Some r) \<Longrightarrow> \<exists>f. m' = update_task i f m \<and> map_of (Tasks m) i \<noteq> None \<and>
     (\<forall>t. TaskID (f t) = TaskID t \<and> settled (TaskStatus (f t)) \<and> OriginChannel (f t) = OriginChannel t \<and> OriginChat (f t) = OriginChat t \<and>
       (c \<and> (\<exists>err. out = ChatFailed err) \<longrightarrow> TaskStatus (f t) = Canceled \<and> IsError r))"
proof (cases out)
  case (ChatFailed err)
  moreover assume "finish_task i c out m = (m', Some r)"
  ultimately show ?thesis
    by (intro exI [of _ "task_failed c err"]) (auto simp: finish_task_def settled_def task_failed_def split: option.splits)
next
  case (Finished content n)
  moreover assume "finish_task i c out m = (m', Some r)"
  ultimately show ?thesis
    by (intro exI [of _ "\<lambda>t. t\<lparr>TaskStatus := Completed, TaskResult := content\<rparr>"])
      (auto simp: finish_task_def settled_def split: option.splits)
qed (auto simp: finish_task_def split: option.splits)

lemma fresh_id: "sub_ok s \<Longrightarrow> PhaseOf s (task_id (NextID (Mgr s))) = None \<and> map_of (Tasks (Mgr s)) (task_id (NextID (Mgr s))) = None"
proof -
  assume "sub_ok s"
  then have "task_ok s (task_id (NextID (Mgr s)))" by (simp add: sub_ok_def)
  then show ?thesis by (auto simp: task_ok_def split: option.splits)
qed

lemma sub_ok_start: "sub_ok (sub_start model)"
  by (simp add: sub_ok_def task_ok_def sub_start_def NewSubagentManager_def)


lemma task_ok_other:
  assumes "task_ok s j" and "j \<noteq> i" and "NextID (Mgr s) \<le> NextID (Mgr s')"
    and "map_of (Tasks (Mgr s')) j = map_of (Tasks (Mgr s)) j" and "PhaseOf s' j = PhaseOf s j"
    and "j \<in> fst ` set (Told s') \<longleftrightarrow> j \<in> fst ` set (Told s)"
  shows "task_ok s' j"
  using assms by (auto simp: task_ok_def split: option.splits)

definition own_ok :: "sub_state \<Rightarrow> string \<Rightarrow> SubagentTask \<Rightarrow> phase \<Rightarrow> bool" where
  "own_ok s i t p \<longleftrightarrow> TaskID t = i \<and> (\<exists>n. 0 < n \<and> n < NextID (Mgr s) \<and> i = task_id n) \<and>
     (settled (TaskStatus t) \<longleftrightarrow> p = Over) \<and> (i \<in> fst ` set (Told s) \<longrightarrow> p = Over) \<and> OriginChannel t \<noteq> [] \<and> OriginChat t \<noteq> []"

lemma task_ok_own: "PhaseOf s i = Some p \<Longrightarrow> task_ok s i \<longleftrightarrow> (\<exists>t. map_of (Tasks (Mgr s)) i = Some t \<and> own_ok s i t p)"
  by (cases "map_of (Tasks (Mgr s)) i") (simp_all add: task_ok_def own_ok_def)

lemma sub_okI:
  assumes "sub_ok s" and "ManagerTools (Mgr s') = NewToolRegistry" "distinct (map fst (Tasks (Mgr s')))" "distinct (map fst (Told s'))"
    and "NextID (Mgr s) \<le> NextID (Mgr s')" and "\<And>j. j \<noteq> i \<Longrightarrow> map_of (Tasks (Mgr s')) j = map_of (Tasks (Mgr s)) j"
    and "\<And>j. j \<noteq> i \<Longrightarrow> PhaseOf s' j = PhaseOf s j" and "\<And>j. j \<noteq> i \<Longrightarrow> j \<in> fst ` set (Told s') \<longleftrightarrow> j \<in> fst ` set (Told s)"
    and "task_ok s' i"
  shows "sub_ok s'"
proof -
  have "task_ok s' j" for j
  proof (cases "j = i")
    case False
    then show ?thesis using assms(1,5-8) by (intro task_ok_other [of s j i s']) (auto simp: sub_ok_def)
  qed (use assms(9) in simp)
  moreover have "0 < NextID (Mgr s')" using assms(1,5) unfolding sub_ok_def by linarith
  ultimately show ?thesis using assms(2-4) unfolding sub_ok_def by blast
qed

lemma move_ok:
  assumes "sub_ok s" and "PhaseOf s i = Some p" and "p \<noteq> Over" and "q \<noteq> Over"
  shows "sub_ok (s\<lparr>PhaseOf := (PhaseOf s)(i \<mapsto> q)\<rparr>)"
proof (rule sub_okI [OF assms(1), of _ i])
  from assms(1,2) obtain t where "map_of (Tasks (Mgr s)) i = Some t" "own_ok s i t p"
    using task_ok_own [OF assms(2)] unfolding sub_ok_def by blast
  then show "task_ok (s\<lparr>PhaseOf := (PhaseOf s)(i \<mapsto> q)\<rparr>) i"
    using assms(3,4) by (simp add: task_ok_own [where p = q] own_ok_def)
qed (use assms(1) in \<open>simp_all add: sub_ok_def\<close>)

lemma settle_ok:
  assumes "sub_ok s" and "PhaseOf s i = Some p" and "p \<noteq> Over" and "told = [] \<or> (\<exists>r. told = [(i, r)])"
    and f: "\<And>t. TaskID (f t) = TaskID t \<and> settled (TaskStatus (f t)) \<and> OriginChannel (f t) = OriginChannel t \<and> OriginChat (f t) = OriginChat t"
  shows "sub_ok (s\<lparr>Mgr := update_task i f (Mgr s), PhaseOf := (PhaseOf s)(i \<mapsto> Over), Told := Told s @ told\<rparr>)"
proof (rule sub_okI [OF assms(1), of _ i])
  let ?s' = "s\<lparr>Mgr := update_task i f (Mgr s), PhaseOf := (PhaseOf s)(i \<mapsto> Over), Told := Told s @ told\<rparr>"
  from assms(1,2) obtain t where t: "map_of (Tasks (Mgr s)) i = Some t" "own_ok s i t p"
    using task_ok_own [OF assms(2)] unfolding sub_ok_def by blast
  then show "task_ok ?s' i" using f [of t] by (simp add: task_ok_own [where p = Over] own_ok_def)
  have "i \<notin> fst ` set (Told s)" using t(2) assms(3) by (auto simp: own_ok_def)
  then show "distinct (map fst (Told ?s'))" using assms(1,4) by (force simp: sub_ok_def)
qed (use assms(1,4) in \<open>auto simp: sub_ok_def\<close>)

lemma sub_ok_step: "sub_step s s' \<Longrightarrow> sub_ok s \<Longrightarrow> sub_ok s'"
proof (induction rule: sub_step.induct)
  case (spawned turn s now task label agentID channel chatID)
  let ?i = "task_id (NextID (Mgr s))"
  have "task_ok s ?i" using spawned(2) unfolding sub_ok_def by blast
  then have "?i \<notin> fst ` set (Told s)" using fresh_id [OF spawned(2)] by (simp add: task_ok_def)
  moreover have "0 < NextID (Mgr s)" using spawned(2) by (simp add: sub_ok_def)
  ultimately have own: "task_ok (spawn_step s turn now task label agentID channel chatID) ?i"
    by (subst task_ok_own [where p = Waiting]) (auto simp: spawn_step_def Let_def own_ok_def settled_def or_default_def)
  show ?case
    by (rule sub_okI [OF spawned(2) _ _ _ _ _ _ _ own]) (use spawned(2) in \<open>simp_all add: spawn_step_def Let_def sub_ok_def\<close>)
next
  case (turn_ended s turn)
  have "task_ok (s\<lparr>Ended := insert turn (Ended s)\<rparr>) i = task_ok s i" for i
    by (simp add: task_ok_def split: option.split)
  with turn_ended show ?case by (simp add: sub_ok_def)
next
  case (not_started s i)
  from settle_ok [OF not_started(3,1), of "[]" "\<lambda>t. t\<lparr>TaskStatus := Canceled, TaskResult := ''Task canceled before execution''\<rparr>"]
  show ?case by (simp add: cancel_unstarted_def settled_def)
next
  case (started s i)
  from move_ok [OF started(3,1), of Looping] show ?case by simp
next
  case (answered s i content n)
  from move_ok [OF answered(2,1)] show ?case by simp
next
  case (chat_failed s i err)
  from move_ok [OF chat_failed(2,1)] show ?case by simp
next
  case (finished s i out m r)
  from finish_task_result [OF finished(2)] obtain f where f: "m = update_task i f (Mgr s)"
    "\<And>t. TaskID (f t) = TaskID t \<and> settled (TaskStatus (f t)) \<and> OriginChannel (f t) = OriginChannel t \<and> OriginChat (f t) = OriginChat t"
    by blast
  from settle_ok [OF finished(3,1), of "[(i, r)]" f] f show ?case by simp
qed

lemma sub_ok_reach: "sub_reach s s' \<Longrightarrow> sub_ok s \<Longrightarrow> sub_ok s'"
  by (induction rule: rtranclp_induct) (auto simp: sub_ok_step)


lemma sub_ok_reached: "sub_reach (sub_start model) s \<Longrightarrow> sub_ok s"
  using sub_ok_reach sub_ok_start by blast

text \<open>What a step can do to a task that has been spawned.\<close>

lemma step_task:
  assumes "sub_step s s'" and "sub_ok s" and "map_of (Tasks (Mgr s)) i = Some t" and "PhaseOf s i = Some p"
  shows "\<exists>t' p'. map_of (Tasks (Mgr s')) i = Some t' \<and> PhaseOf s' i = Some p' \<and> TurnOf s' i = TurnOf s i \<and> Ended s \<subseteq> Ended s' \<and>
    (p = Over \<longrightarrow> t' = t \<and> p' = Over \<and> filter (\<lambda>x. fst x = i) (Told s') = filter (\<lambda>x. fst x = i) (Told s))"
  using assms
proof (induction rule: sub_step.induct)
  case (spawned turn s now task label agentID channel chatID)
  from spawned(3,4) fresh_id [OF spawned(2)] have "i \<noteq> task_id (NextID (Mgr s))" by auto
  with spawned show ?case by (auto simp: spawn_step_def Let_def)
next
  case (finished s j out m r)
  from finish_task_result [OF finished(2)] obtain f where "m = update_task j f (Mgr s)" by blast
  with finished show ?case by (cases "j = i") auto
qed (auto simp: cancel_unstarted_def)

lemma reach_task:
  assumes "sub_reach s s'" and "sub_ok s" and "map_of (Tasks (Mgr s)) i = Some t" and "PhaseOf s i = Some p"
  shows "\<exists>t' p'. map_of (Tasks (Mgr s')) i = Some t' \<and> PhaseOf s' i = Some p' \<and> TurnOf s' i = TurnOf s i \<and> Ended s \<subseteq> Ended s' \<and>
    (p = Over \<longrightarrow> t' = t \<and> p' = Over \<and> filter (\<lambda>x. fst x = i) (Told s') = filter (\<lambda>x. fst x = i) (Told s))"
  using assms(1)
proof (induction rule: rtranclp_induct)
  case base
  then show ?case using assms by auto
next
  case (step s1 s2)
  from step.IH obtain t1 p1 where 1: "map_of (Tasks (Mgr s1)) i = Some t1" "PhaseOf s1 i = Some p1" "TurnOf s1 i = TurnOf s i"
    "Ended s \<subseteq> Ended s1" "p = Over \<longrightarrow> t1 = t \<and> p1 = Over \<and> filter (\<lambda>x. fst x = i) (Told s1) = filter (\<lambda>x. fst x = i) (Told s)" by blast
  from step_task [OF step.hyps(2) sub_ok_reach [OF step.hyps(1) assms(2)] 1(1,2)] 1 show ?case by fastforce
qed

lemma distinct_keys_once: "distinct (map fst xs) \<Longrightarrow> length (filter (\<lambda>x. fst x = i) xs) \<le> 1"
proof (induction xs)
  case (Cons x xs)
  have "filter (\<lambda>y. fst y = i) xs = []" if "fst x = i" using Cons.prems that by (auto simp: filter_empty_conv image_iff)
  with Cons show ?case by auto
qed simp


text \<open>A background task whose loop has not begun when the turn that started it ends never runs: it is canceled or, until it notices,
  waiting, and nothing is ever told about it. (One that is in its loop then has a cancelled context: a provider that heeds it
  returns an error and the task is canceled; one that answers all the same, as the command line of Codex can, completes it.)\<close>

theorem background_task_ends_with_turn:
  assumes "sub_reach (sub_start model) s" and "sub_reach s s'" and "map_of (Tasks (Mgr s)) i = Some t"
    and "TurnOf s i \<in> Ended s" and "PhaseOf s i = Some Waiting"
  shows "\<exists>t'. map_of (Tasks (Mgr s')) i = Some t' \<and> TaskStatus t' \<in> {Running, Canceled} \<and> PhaseOf s' i \<in> {Some Waiting, Some Over} \<and>
    (\<forall>r. (i, r) \<notin> set (Told s'))"
proof -
  have ok: "sub_ok s" by (rule sub_ok_reached [OF assms(1)])
  define cut where "cut = (\<lambda>s' :: sub_state. \<exists>t'. map_of (Tasks (Mgr s')) i = Some t' \<and> TaskStatus t' \<in> {Running, Canceled} \<and>
    TurnOf s' i \<in> Ended s' \<and> PhaseOf s' i \<in> {Some Waiting, Some Over} \<and> (\<forall>r. (i, r) \<notin> set (Told s')))"
  have start: "cut s"
  proof -
    have "task_ok s i" using ok unfolding sub_ok_def by blast
    with assms(3,5) have "own_ok s i t Waiting" by (simp add: task_ok_own)
    then have "TaskStatus t = Running" "i \<notin> fst ` set (Told s)" by (auto simp: own_ok_def settled_def)
    then have "\<forall>r. (i, r) \<notin> set (Told s)" by force
    with \<open>TaskStatus t = Running\<close> assms(3-5) show ?thesis by (auto simp: cut_def)
  qed
  have keep: "cut s2" if "sub_step s1 s2" and "sub_ok s1" and "cut s1" for s1 s2
    using that
  proof (induction rule: sub_step.induct)
    case (spawned turn s now task label agentID channel chatID)
    from spawned(3) fresh_id [OF spawned(2)] have "i \<noteq> task_id (NextID (Mgr s))" by (auto simp: cut_def)
    with spawned(3) show ?case by (auto simp: cut_def spawn_step_def Let_def)
  next
    case (finished s j out m r)
    from finish_task_result [OF finished(2)] obtain f where m: "m = update_task j f (Mgr s)" by blast
    have "j \<noteq> i" using finished(1,4) by (auto simp: cut_def)
    with finished(4) show ?case by (auto simp: cut_def m)
  qed (auto simp: cut_def cancel_unstarted_def)
  have "cut s'" using assms(2)
  proof (induction rule: rtranclp_induct)
    case (step s1 s2)
    then show ?case using keep sub_ok_reach [OF step.hyps(1) ok] by blast
  qed (rule start)
  then show ?thesis by (auto simp: cut_def)
qed

definition demo_sub :: sub_state where
  "demo_sub = spawn_step (sub_start ''m'') 1 7 ''read the report'' [] [] ''telegram'' ''42''"

definition demo_id :: string where
  "demo_id = task_id (NextID (Mgr (sub_start ''m'')))"

definition demo_task :: "task_status \<Rightarrow> string \<Rightarrow> SubagentTask" where
  "demo_task st result = \<lparr>TaskID = demo_id, TaskText = ''read the report'', TaskLabel = [], TaskAgent = [],
     OriginChannel = ''telegram'', OriginChat = ''42'', TaskStatus = st, TaskResult = result, TaskCreated = 7\<rparr>"

lemma demo_sub_run:
  "sub_reach (sub_start ''m'') demo_sub" "PhaseOf demo_sub demo_id = Some Waiting" "TurnOf demo_sub demo_id = 1"
  "map_of (Tasks (Mgr demo_sub)) demo_id = Some (demo_task Running [])"
proof -
  show "sub_reach (sub_start ''m'') demo_sub"
    unfolding demo_sub_def by (intro r_into_rtranclp sub_step.spawned) (simp add: sub_start_def)
qed (simp_all add: demo_sub_def demo_id_def demo_task_def spawn_step_def Let_def or_default_def)

definition demo_cut :: sub_state where
  "demo_cut = demo_sub\<lparr>Ended := insert 1 (Ended demo_sub)\<rparr>"

definition demo_over :: sub_state where
  "demo_over = demo_cut\<lparr>Mgr := cancel_unstarted demo_id (Mgr demo_cut), PhaseOf := (PhaseOf demo_cut)(demo_id \<mapsto> Over)\<rparr>"

lemma demo_cut_run: "sub_reach (sub_start ''m'') demo_cut" "sub_reach demo_cut demo_over"
proof -
  show "sub_reach (sub_start ''m'') demo_cut"
    using demo_sub_run(1) sub_step.turn_ended [of demo_sub 1] unfolding demo_cut_def by (rule rtranclp.rtrancl_into_rtrancl)
  show "sub_reach demo_cut demo_over"
    unfolding demo_over_def by (intro r_into_rtranclp sub_step.not_started) (simp_all add: demo_cut_def demo_sub_run(2,3))
qed


theorem background_task_ends_with_turn_witness:
  "\<exists>t. map_of (Tasks (Mgr demo_over)) demo_id = Some t \<and> TaskStatus t \<in> {Running, Canceled}"
proof -
  have "map_of (Tasks (Mgr demo_cut)) demo_id = Some (demo_task Running [])" "TurnOf demo_cut demo_id \<in> Ended demo_cut"
    "PhaseOf demo_cut demo_id = Some Waiting"
    by (simp_all add: demo_cut_def demo_sub_run(2-4))
  from background_task_ends_with_turn [OF demo_cut_run this] show ?thesis by blast
qed

text \<open>A subagent has no tools, whatever its prompt says: the manager that the agent loop creates starts with an empty
  registry that is never replaced, so no request of a subagent offers a tool and no tool ever runs.\<close>

theorem subagent_has_no_tools:
  assumes "sub_reach (sub_start model) s"
  shows "LoopRan tc \<notin> set (snd (run_subagent e (Mgr s) t)) \<and>
    (LoopRequest ms defs \<in> set (snd (run_subagent e (Mgr s) t)) \<longrightarrow> defs = [])"
proof -
  have reg: "ManagerTools (Mgr s) = NewToolRegistry" using sub_ok_reached [OF assms] unfolding sub_ok_def by blast
  have none: "LoopRequest ms defs \<in> set (snd (run_subagent e (Mgr s) t)) \<Longrightarrow> defs = []" for ms defs
    using loop_request_defs [of ms defs e "Some NewToolRegistry"] unfolding run_subagent_def RunToolLoop_def reg
    by (fastforce simp: no_tools_defs)
  have "loop_only_offered {} (snd (run_subagent e (Mgr s) t))" unfolding run_subagent_def using subagent_loop_sound by blast
  from no_tools_run [OF this] none show ?thesis by blast
qed

theorem subagent_has_no_tools_witness:
  "\<forall>e t tc. LoopRan tc \<notin> set (snd (run_subagent e (Mgr demo_sub) t))"
  using subagent_has_no_tools [OF demo_sub_run(1)] by blast

text \<open>A subagent that never comes to an answer counts as completed: when the model asks for tools in every iteration, the
  task ends with the status completed, an empty result and an empty report.\<close>

theorem exhausted_task_completes:
  assumes "\<And>i ms defs. \<exists>resp. loop_chat e i ms defs = Inr resp \<and> RespToolCalls resp \<noteq> []"
    and "loop_defs (Some (ManagerTools m)) \<noteq> None" and "map_of (Tasks m) i = Some t"
  shows "fst (run_subagent e m t) = Finished [] (ManagerMax m) \<and>
    (\<exists>t'. map_of (Tasks (fst (finish_task i cancelled (fst (run_subagent e m t)) m))) i = Some t' \<and>
       TaskStatus t' = Completed \<and> TaskResult t' = [])"
proof -
  have "fst (tool_loop e (Some (ManagerTools m)) k n ms) = Finished [] (n + k)" for k n ms
  proof (induction k arbitrary: n ms)
    case (Suc k)
    from assms(2) obtain defs where defs: "loop_defs (Some (ManagerTools m)) = Some defs" by blast
    from assms(1) [of n ms defs] obtain resp where "loop_chat e n ms defs = Inr resp" "RespToolCalls resp \<noteq> []" by blast
    with defs Suc.IH show ?case by (simp add: Let_def split_beta)
  qed simp
  from this [of "ManagerMax m" 0 "task_messages t"]
  have "fst (run_subagent e m t) = Finished [] (ManagerMax m)" by (simp add: run_subagent_def RunToolLoop_def)
  with assms(3) show ?thesis by (simp add: finish_task_def)
qed

definition demo_chatter :: "turn_env \<Rightarrow> loop_env" where
  "demo_chatter c = \<lparr>loop_chat = \<lambda>i ms defs. Inr \<lparr>RespContent = ''let me look'', RespReasoning = [], RespToolCalls =
     [\<lparr>ID = ''c1'', CallType = ''function'', Function = None, Name = ''read_file'', Arguments = []\<rparr>], RespUsage = None\<rparr>,
     loop_tool = \<lambda>i j t args. NewToolResult [], loop_codec = c\<rparr>"

theorem exhausted_task_completes_witness:
  "\<forall>c. fst (run_subagent (demo_chatter c) (Mgr demo_sub) (demo_task Running [])) = Finished [] 10"
proof
  fix c
  have "ManagerTools (Mgr demo_sub) = NewToolRegistry" using sub_ok_reached [OF demo_sub_run(1)] unfolding sub_ok_def by blast
  then have "loop_defs (Some (ManagerTools (Mgr demo_sub))) \<noteq> None" by (simp add: no_tools_defs)
  moreover have "\<exists>resp. loop_chat (demo_chatter c) i ms defs = Inr resp \<and> RespToolCalls resp \<noteq> []" for i ms defs
    by (simp add: demo_chatter_def)
  moreover have "ManagerMax (Mgr demo_sub) = 10"
    by (simp add: demo_sub_def spawn_step_def sub_start_def NewSubagentManager_def Spawn_def Let_def)
  ultimately show "fst (run_subagent (demo_chatter c) (Mgr demo_sub) (demo_task Running [])) = Finished [] 10"
    using exhausted_task_completes [OF _ _ demo_sub_run(4), of "demo_chatter c"] by simp
qed

lemma task_facts:
  assumes "sub_ok s" and "(i, t) \<in> set (Tasks (Mgr s))"
  shows "TaskID t = i" and "OriginChannel t \<noteq> []" and "OriginChat t \<noteq> []" and "map_of (Tasks (Mgr s)) i = Some t"
proof -
  show lookup: "map_of (Tasks (Mgr s)) i = Some t" using assms unfolding sub_ok_def by simp
  have "task_ok s i" using assms(1) unfolding sub_ok_def by blast
  then show "TaskID t = i" "OriginChannel t \<noteq> []" "OriginChat t \<noteq> []" using lookup by (auto simp: task_ok_def split: option.splits)
qed

lemma visible_own:
  assumes "sub_ok s" and "(i, t) \<in> set (Tasks (Mgr s))" and "channel \<noteq> []" and "chatID \<noteq> []"
  shows "visible_to channel chatID t \<longleftrightarrow> OriginChannel t = channel \<and> OriginChat t = chatID"
  using task_facts(2,3) [OF assms(1,2)] assms(3,4) by (auto simp: visible_to_def)

lemma distinct_tasks: "sub_ok s \<Longrightarrow> distinct (map snd (Tasks (Mgr s))) \<and> inj_on TaskID (set (map snd (Tasks (Mgr s))))"
proof -
  assume ok: "sub_ok s"
  have ids: "map TaskID (map snd (Tasks (Mgr s))) = map fst (Tasks (Mgr s))"
    using task_facts(1) [OF ok] by (auto simp: map_eq_conv)
  have "distinct (map TaskID (map snd (Tasks (Mgr s))))" unfolding ids using ok unfolding sub_ok_def by blast
  then show ?thesis by (simp only: distinct_map)
qed

lemma listed_same:
  assumes "sub_ok s" and "sub_ok s'" and "channel \<noteq> []" and "chatID \<noteq> []"
    and same: "\<And>i t. OriginChannel t = channel \<and> OriginChat t = chatID \<Longrightarrow>
      map_of (Tasks (Mgr s)) i = Some t \<longleftrightarrow> map_of (Tasks (Mgr s')) i = Some t"
  shows "listed_tasks channel chatID (Mgr s) = listed_tasks channel chatID (Mgr s')"
proof -
  let ?xs = "filter (visible_to channel chatID) (map snd (Tasks (Mgr s)))"
  let ?ys = "filter (visible_to channel chatID) (map snd (Tasks (Mgr s')))"
  have sub: "set (filter (visible_to channel chatID) (map snd (Tasks (Mgr a)))) \<subseteq> set (filter (visible_to channel chatID) (map snd (Tasks (Mgr b))))"
    if a: "sub_ok a" and b: "sub_ok b" and eq: "\<And>i t. OriginChannel t = channel \<and> OriginChat t = chatID \<Longrightarrow>
      map_of (Tasks (Mgr a)) i = Some t \<longleftrightarrow> map_of (Tasks (Mgr b)) i = Some t" for a b
  proof
    fix t assume "t \<in> set (filter (visible_to channel chatID) (map snd (Tasks (Mgr a))))"
    then obtain i where i: "(i, t) \<in> set (Tasks (Mgr a))" "visible_to channel chatID t" by auto
    with visible_own [OF a i(1) assms(3,4)] task_facts(4) [OF a i(1)] eq have "map_of (Tasks (Mgr b)) i = Some t" by blast
    then have "(i, t) \<in> set (Tasks (Mgr b))" by (rule map_of_SomeD)
    with i(2) show "t \<in> set (filter (visible_to channel chatID) (map snd (Tasks (Mgr b))))" by force
  qed
  have "set ?xs = set ?ys" using sub [OF assms(1,2) same] sub [OF assms(2,1) same [symmetric]] by blast
  then have "mset ?xs = mset ?ys"
    using distinct_tasks [OF assms(1)] distinct_tasks [OF assms(2)] by (subst set_eq_iff_mset_eq_distinct [symmetric]) (auto simp: distinct_filter)
  moreover have "inj_on TaskID (set ?xs)" using distinct_tasks [OF assms(1)] by (auto intro: inj_on_subset)
  ultimately have "sort_key TaskID ?xs = sort_key TaskID ?ys" by (intro sort_key_inj_key_eq) simp_all
  then show ?thesis by (simp add: listed_tasks_def)
qed

text \<open>Status reports stay within a conversation: what a caller with a channel and a chat is told depends only on the tasks
  of that conversation, up to the notice that nothing has been spawned at all.\<close>

theorem status_stays_in_conversation:
  assumes "sub_reach (sub_start model) s" and "sub_reach (sub_start model') s'" and "channel \<noteq> []" and "chatID \<noteq> []"
    and same: "\<And>i t. OriginChannel t = channel \<and> OriginChat t = chatID \<Longrightarrow>
      map_of (Tasks (Mgr s)) i = Some t \<longleftrightarrow> map_of (Tasks (Mgr s')) i = Some t"
    and "Tasks (Mgr s) \<noteq> []" and "Tasks (Mgr s') \<noteq> []"
  shows "spawn_status quote when (Some (Mgr s)) channel chatID args = spawn_status quote when (Some (Mgr s')) channel chatID args"
proof -
  note ok = sub_ok_reached [OF assms(1)] sub_ok_reached [OF assms(2)]
  define own where "own = (\<lambda>(a :: sub_state) i. case map_of (Tasks (Mgr a)) i of Some t \<Rightarrow> if visible_to channel chatID t then Some t else None | None \<Rightarrow> None)"
  have own: "own a i = Some t \<longleftrightarrow> map_of (Tasks (Mgr a)) i = Some t \<and> OriginChannel t = channel \<and> OriginChat t = chatID"
    if "sub_ok a" for a :: sub_state and i t
    using visible_own [OF that map_of_SomeD, of i _ channel chatID] assms(3,4) by (auto simp: own_def split: option.splits)
  have "own s i = own s' i" for i
  proof (rule option.expand)
    show "(own s i = None) = (own s' i = None)" using own [OF ok(1), of i] own [OF ok(2), of i] same by (metis not_Some_eq)
    show "own s i \<noteq> None \<Longrightarrow> own s' i \<noteq> None \<Longrightarrow> the (own s i) = the (own s' i)"
      using own [OF ok(1), of i] own [OF ok(2), of i] same by fastforce
  qed
  moreover have "(case map_of (Tasks (Mgr a)) i of Some t \<Rightarrow> if visible_to channel chatID t then F t else X | None \<Rightarrow> X) =
      (case own a i of Some t \<Rightarrow> F t | None \<Rightarrow> X)" for a :: sub_state and i and F :: "SubagentTask \<Rightarrow> ToolResult" and X
    by (simp add: own_def split: option.split)
  ultimately show ?thesis
    using listed_same [OF ok assms(3,4) same] assms(6,7) by (simp add: spawn_status_def Let_def split: option.split json.split)
qed

theorem status_stays_in_conversation_witness:
  "spawn_status id (\<lambda>n. []) (Some (Mgr (spawn_step demo_sub 1 8 ''secret'' [] [] ''telegram'' ''43''))) ''telegram'' ''42'' [] =
   spawn_status id (\<lambda>n. []) (Some (Mgr demo_sub)) ''telegram'' ''42'' []"
proof -
  let ?s = "spawn_step demo_sub 1 8 ''secret'' [] [] ''telegram'' ''43''"
  have "1 \<notin> Ended demo_sub" by (simp add: demo_sub_def spawn_step_def sub_start_def Let_def)
  with demo_sub_run(1) have run: "sub_reach (sub_start ''m'') ?s" by (meson rtranclp.rtrancl_into_rtrancl sub_step.spawned)
  have fresh: "map_of (Tasks (Mgr demo_sub)) (task_id (NextID (Mgr demo_sub))) = None"
    using fresh_id [OF sub_ok_reached [OF demo_sub_run(1)]] by blast
  have "map_of (Tasks (Mgr ?s)) i = Some t \<longleftrightarrow> map_of (Tasks (Mgr demo_sub)) i = Some t"
    if "OriginChannel t = ''telegram'' \<and> OriginChat t = ''42''" for i t
    using that fresh by (auto simp: spawn_step_def Let_def or_default_def)
  moreover have "Tasks (Mgr demo_sub) \<noteq> []" using demo_sub_run(4) by auto
  moreover have "Tasks (Mgr ?s) \<noteq> []" by (simp add: spawn_step_def Spawn_def Let_def assoc_put_def)
  ultimately show ?thesis by (intro status_stays_in_conversation [OF run demo_sub_run(1)]) simp_all
qed

lemma Index_colon: "colon \<notin> set ch \<Longrightarrow> Index (ch @ colon # c) [colon] = Some (length ch)"
  by (rule Index_char_append)

text \<open>The result of a background task finds its way back to the chat it came from, but not to the session: the message that
  the loop sends to itself is taken up in the main session of the default agent, whatever session and agent started the task.\<close>

theorem background_result_goes_to_main:
  assumes "channel \<noteq> []" and "colon \<notin> set channel" and "\<not> IsInternalChannel channel" and "GetDefaultAgent reg = Some agent"
    and "snd (async_messages tool channel chatID r) = Some (sender, sysChat, content)"
  shows "processSystemMessage reg ''system'' sender sysChat content =
    Inr (Some \<lparr>SysSessionKey = BuildAgentMainSessionKey agent, SysChannel = channel, SysChatID = chatID,
      SysMessage = ''[System: async:'' @ tool @ ''] '' @ result_content r\<rparr>)"
proof -
  from assms(5) have m: "sender = ''async:'' @ tool" "sysChat = channel @ colon # chatID" "content = result_content r"
    by (auto simp: async_messages_def split: if_splits)
  from assms(1) obtain n where "length channel = Suc n" by (cases channel) auto
  then have "parse_origin sysChat = (channel, chatID)" using Index_colon [OF assms(2), of chatID] by (simp add: parse_origin_def m(2))
  with assms(3,4) show ?thesis by (simp add: processSystemMessage_def m(1,3))
qed

theorem background_result_goes_to_main_witness:
  "\<exists>t. processSystemMessage [''main'', ''work''] ''system'' ''async:spawn'' ''telegram:42'' ''ok'' = Inr (Some t) \<and>
     SysSessionKey t = BuildAgentMainSessionKey ''main'' \<and> SysChatID t = ''42''"
proof -
  have "snd (async_messages ''spawn'' ''telegram'' ''42'' (NewToolResult ''ok'')) = Some (''async:spawn'', ''telegram'' @ colon # ''42'', ''ok'')"
    by (simp add: async_messages_def result_content_def)
  from background_result_goes_to_main [OF _ _ _ _ this, of "[''main'', ''work'']" "''main''"] show ?thesis
    by (simp add: GetDefaultAgent_def IsInternalChannel_def)
qed

end
