(* ===== verification/Skills.thy ===== *)
theory Skills
  imports Paths Messages Runes History
begin

text \<open>
  Skills: the loader (\<open>pkg/skills/loader.go\<close>), the inventory of collisions between scopes (\<open>scope_collision.go\<close>) and the
  tool that loads a skill (\<open>pkg/tools/skill_tool.go\<close>). A root of skills is the list of its directories, each with the
  content of its \<open>SKILL.md\<close> if there is one. The Markdown, JSON and YAML parsers and the newline normalization of the
  Markdown package are arguments.
\<close>

section \<open>Metadata\<close>

record SkillMetadata =
  MetaName :: string
  MetaDescription :: string
  MetaPaths :: "string list"

record SkillInfo =
  SkillName :: string
  SkillPath :: string
  SkillSource :: string
  SkillDescription :: string
  SkillPaths :: "string list"

record skill_parsers =
  normalize_newlines :: "string \<Rightarrow> string"
  markdown_meta :: "string \<Rightarrow> string \<times> string"  \<comment> \<open>first level-1 heading, first paragraph\<close>
  json_meta :: "string \<Rightarrow> (string \<times> json) list option"
  yaml_meta :: "string \<Rightarrow> (string \<times> json) list"

definition alnum :: "char \<Rightarrow> bool" where
  "alnum c \<longleftrightarrow> is_upper c \<or> is_lower c \<or> is_digit c"

text \<open>\<open>namePattern\<close>: groups of letters and digits with single hyphens between them.\<close>

fun name_from :: "bool \<Rightarrow> string \<Rightarrow> bool" where
  "name_from inside [] = inside"
| "name_from inside (c # cs) =
     (if alnum c then name_from True cs else if c = CHR ''-'' \<and> inside then name_from False cs else False)"

definition namePattern :: "string \<Rightarrow> bool" where
  "namePattern s = name_from False s"

definition MaxNameLength :: nat where "MaxNameLength = 64"

definition MaxDescriptionLength :: nat where "MaxDescriptionLength = 1024"

definition valid_skill :: "SkillInfo \<Rightarrow> bool" where
  "valid_skill info \<longleftrightarrow>
     SkillName info \<noteq> [] \<and> length (SkillName info) \<le> MaxNameLength \<and> namePattern (SkillName info) \<and>
     SkillDescription info \<noteq> [] \<and> length (SkillDescription info) \<le> MaxDescriptionLength"

fun until_line :: "string \<Rightarrow> string list \<Rightarrow> (string list \<times> string list) option" where
  "until_line l [] = None"
| "until_line l (x # xs) =
     (if x = l then Some ([], xs) else map_option (\<lambda>(a, b). (x # a, b)) (until_line l xs))"

definition splitFrontmatter :: "skill_parsers \<Rightarrow> string \<Rightarrow> string \<times> string" where
  "splitFrontmatter p content =
     (case split_at (CHR 0x0A) (normalize_newlines p content) of
        [] \<Rightarrow> ([], content)
      | first # rest \<Rightarrow>
          if first \<noteq> ''---'' then ([], content)
          else
            (case until_line ''---'' rest of
               None \<Rightarrow> ([], content)
             | Some (front, body) \<Rightarrow>
                 (join_with (CHR 0x0A) front, dropWhile (\<lambda>c. c = CHR 0x0A) (join_with (CHR 0x0A) body))))"

definition parsePathsValue :: "json option \<Rightarrow> string list" where
  "parsePathsValue raw =
     (case raw of
        Some (JString s) \<Rightarrow> if TrimSpace s = [] then [] else [TrimSpace s]
      | Some (JArray xs) \<Rightarrow>
          List.map_filter (\<lambda>x. case x of JString s \<Rightarrow> if TrimSpace s = [] then None else Some (TrimSpace s) | _ \<Rightarrow> None) xs
      | _ \<Rightarrow> [])"

definition meta_text :: "(string \<times> json) list \<Rightarrow> string \<Rightarrow> string \<Rightarrow> string" where
  "meta_text kv key orelse =
     (case map_of kv key of
        Some (JString s) \<Rightarrow> if TrimSpace s \<noteq> [] then TrimSpace s else orelse
      | _ \<Rightarrow> orelse)"

definition apply_fields :: "(string \<times> json) list \<Rightarrow> SkillMetadata \<Rightarrow> SkillMetadata" where
  "apply_fields kv m =
     \<lparr>MetaName = meta_text kv ''name'' (MetaName m), MetaDescription = meta_text kv ''description'' (MetaDescription m),
      MetaPaths = parsePathsValue (map_of kv ''paths'')\<rparr>"

definition getSkillMetadata :: "skill_parsers \<Rightarrow> string \<Rightarrow> string \<Rightarrow> SkillMetadata" where
  "getSkillMetadata p dirName content =
     (let (frontmatter, body) = splitFrontmatter p content;
          (title, description) = markdown_meta p body;
          m = \<lparr>MetaName = (if title \<noteq> [] \<and> namePattern title \<and> length title \<le> MaxNameLength then title else dirName),
               MetaDescription = description, MetaPaths = []\<rparr>
      in if frontmatter = [] then m
         else (case json_meta p frontmatter of
                 Some kv \<Rightarrow> apply_fields kv m
               | None \<Rightarrow> apply_fields (yaml_meta p frontmatter) m))"

section \<open>The loader\<close>

type_synonym skill_root = "(string \<times> string option) list"

record SkillsLoader =
  workspaceSkills :: "string \<times> skill_root"
  globalSkills :: "string \<times> skill_root"
  builtinSkills :: "string \<times> skill_root"

definition skill_file :: "string \<Rightarrow> string \<Rightarrow> string" where
  "skill_file dir name = Join_paths dir (name @ ''/SKILL.md'')"

definition root_skills :: "skill_parsers \<Rightarrow> string \<Rightarrow> string \<times> skill_root \<Rightarrow> SkillInfo list" where
  "root_skills p source = (\<lambda>(dir, entries).
     if dir = [] then []
     else
       filter valid_skill
         (List.map_filter (\<lambda>(name, content). map_option (\<lambda>text.
            let m = getSkillMetadata p name text
            in \<lparr>SkillName = MetaName m, SkillPath = skill_file dir name, SkillSource = source,
                SkillDescription = MetaDescription m, SkillPaths = MetaPaths m\<rparr>) content)
          (sort_key fst entries)))"

definition all_skills :: "skill_parsers \<Rightarrow> SkillsLoader \<Rightarrow> SkillInfo list" where
  "all_skills p sl =
     root_skills p ''workspace'' (workspaceSkills sl) @ root_skills p ''global'' (globalSkills sl) @
     root_skills p ''builtin'' (builtinSkills sl)"

definition sourcePriority :: "string \<Rightarrow> nat" where
  "sourcePriority source =
     (if source = ''workspace'' then 0 else if source = ''global'' then 1 else if source = ''builtin'' then 2 else 3)"

definition pickCollisionWinner :: "SkillInfo \<Rightarrow> SkillInfo \<Rightarrow> SkillInfo \<times> SkillInfo" where
  "pickCollisionWinner a b =
     (let pa = sourcePriority (SkillSource a); pb = sourcePriority (SkillSource b)
      in if pa < pb then (a, b) else if pb < pa then (b, a) else if SkillPath a \<le> SkillPath b then (a, b) else (b, a))"

record SkillCollision =
  CollisionName :: string
  Winner :: SkillInfo
  Conflict :: SkillInfo

fun find_collisions :: "(string \<times> SkillInfo) list \<Rightarrow> SkillInfo list \<Rightarrow> SkillCollision list" where
  "find_collisions seen [] = []"
| "find_collisions seen (info # rest) =
     (case map_of seen (SkillName info) of
        None \<Rightarrow> find_collisions (assoc_put (SkillName info) info seen) rest
      | Some existing \<Rightarrow>
          let (winner, conflict) = pickCollisionWinner existing info
          in \<lparr>CollisionName = SkillName info, Winner = winner, Conflict = conflict\<rparr> #
             find_collisions (assoc_put (SkillName info) winner seen) rest)"

definition ValidateSkillNameCollisions :: "skill_parsers \<Rightarrow> SkillsLoader \<Rightarrow> SkillCollision list" where
  "ValidateSkillNameCollisions p sl =
     sort_key CollisionName (sort_key (\<lambda>c. SkillPath (Conflict c)) (find_collisions [] (all_skills p sl)))"

fun first_of_name :: "string set \<Rightarrow> SkillInfo list \<Rightarrow> SkillInfo list" where
  "first_of_name seen [] = []"
| "first_of_name seen (info # rest) =
     (if SkillName info \<in> seen then first_of_name seen rest
      else info # first_of_name (insert (SkillName info) seen) rest)"

definition sort_skills :: "SkillInfo list \<Rightarrow> SkillInfo list" where
  "sort_skills xs = sort_key SkillName (sort_key SkillPath xs)"

definition ListSkills :: "skill_parsers \<Rightarrow> SkillsLoader \<Rightarrow> SkillInfo list" where
  "ListSkills p sl =
     (if ValidateSkillNameCollisions p sl \<noteq> [] then [] else sort_skills (first_of_name {} (all_skills p sl)))"

text \<open>\<open>LoadSkill\<close> looks for a directory of that name; here for names of one path element.\<close>

definition skill_content :: "string \<times> skill_root \<Rightarrow> string \<Rightarrow> string option" where
  "skill_content = (\<lambda>(dir, entries) name. if dir = [] then None else case map_of entries name of Some (Some text) \<Rightarrow> Some text | _ \<Rightarrow> None)"

definition LoadSkill :: "skill_parsers \<Rightarrow> SkillsLoader \<Rightarrow> string \<Rightarrow> string option" where
  "LoadSkill p sl name =
     map_option (\<lambda>text. snd (splitFrontmatter p text))
       (case skill_content (workspaceSkills sl) name of
          Some text \<Rightarrow> Some text
        | None \<Rightarrow>
            (case skill_content (globalSkills sl) name of
               Some text \<Rightarrow> Some text
             | None \<Rightarrow> skill_content (builtinSkills sl) name))"

definition LoadSkillsForContext :: "skill_parsers \<Rightarrow> SkillsLoader \<Rightarrow> string list \<Rightarrow> string" where
  "LoadSkillsForContext p sl names =
     Join ([CHR 0x0A, CHR 0x0A] @ ''---'' @ [CHR 0x0A, CHR 0x0A])
       (List.map_filter (\<lambda>name. map_option (\<lambda>text. ''### Skill: '' @ name @ [CHR 0x0A, CHR 0x0A] @ text) (LoadSkill p sl name)) names)"

section \<open>The tool that loads a skill\<close>

definition ValidateSkillIdentifier :: "string \<Rightarrow> bool" where
  "ValidateSkillIdentifier i =
     (let t = TrimSpace i
      in t \<noteq> [] \<and> \<not> list_ex (\<lambda>c. c = CHR ''/'' \<or> c = CHR 0x5C) t \<and> \<not> Contains t ''..'')"

record skill_payload =
  PaySkill :: string
  PayArgs :: string
  PaySource :: string
  PayPath :: string
  PayContent :: string

datatype skill_answer = BadIdentifier | NotFound "string list" | Loaded skill_payload

definition SkillTool_Execute :: "skill_parsers \<Rightarrow> SkillsLoader \<Rightarrow> string \<Rightarrow> string \<Rightarrow> skill_answer" where
  "SkillTool_Execute p sl rawName rawArgs =
     (let name = TrimSpace rawName
      in if \<not> ValidateSkillIdentifier name then BadIdentifier
         else
           (case LoadSkill p sl name of
              None \<Rightarrow> NotFound (sort (map SkillName (ListSkills p sl)))
            | Some content \<Rightarrow>
                (case find (\<lambda>s. SkillName s = name) (ListSkills p sl) of
                   Some s \<Rightarrow> Loaded \<lparr>PaySkill = name, PayArgs = TrimSpace rawArgs, PaySource = SkillSource s, PayPath = SkillPath s, PayContent = content\<rparr>
                 | None \<Rightarrow> Loaded \<lparr>PaySkill = name, PayArgs = TrimSpace rawArgs, PaySource = [], PayPath = [], PayContent = content\<rparr>)))"

section \<open>Collisions between scopes\<close>

record SkillScopeRef =
  RefName :: string
  RefScope :: string
  RefPath :: string
  RefAgent :: string

definition scanSkillScopeDir :: "skill_parsers \<Rightarrow> string \<Rightarrow> string \<Rightarrow> string \<times> skill_root \<Rightarrow> SkillScopeRef list" where
  "scanSkillScopeDir p scope agentID = (\<lambda>(rootDir, entries).
     let dir = TrimSpace rootDir in
     if dir = [] then []
     else
       sort_key RefName (sort_key RefPath
         (List.map_filter (\<lambda>(name, content). case content of
              None \<Rightarrow> None
            | Some text \<Rightarrow>
                let n = (if TrimSpace (MetaName (getSkillMetadata p name text)) \<noteq> []
                         then TrimSpace (MetaName (getSkillMetadata p name text)) else name)
                in if n \<noteq> [] \<and> length n \<le> MaxNameLength \<and> namePattern n
                   then Some \<lparr>RefName = n, RefScope = scope, RefPath = skill_file dir name, RefAgent = TrimSpace agentID\<rparr> else None)
          (sort_key fst entries))))"

record SkillScopeCollision =
  ScopeName :: string
  ScopeWinner :: SkillScopeRef
  ScopeConflict :: SkillScopeRef

text \<open>The agents come in the order of their identifiers.\<close>

definition detectCrossScopeCollisions ::
  "SkillScopeRef list \<Rightarrow> (string \<times> SkillScopeRef list) list \<Rightarrow> SkillScopeCollision list" where
  "detectCrossScopeCollisions global workspaceByAgent =
     (if global = [] \<or> workspaceByAgent = [] then []
      else sort_key ScopeName (sort_key (RefAgent \<circ> ScopeWinner) (sort_key (RefPath \<circ> ScopeWinner)
       (concat (map (\<lambda>(agentID, wsSkills).
          concat (map (\<lambda>ws. map (\<lambda>g. \<lparr>ScopeName = RefName ws, ScopeWinner = ws, ScopeConflict = g\<rparr>)
            (filter (\<lambda>g. RefName g = RefName ws) global)) wsSkills))
        (sort_key fst workspaceByAgent))))))"

definition BuildSkillScopeInventory ::
  "skill_parsers \<Rightarrow> string \<times> skill_root \<Rightarrow> (string \<times> string \<times> skill_root) list \<Rightarrow> SkillScopeCollision list" where
  "BuildSkillScopeInventory p globalDir workspaces =
     detectCrossScopeCollisions (scanSkillScopeDir p ''global'' [] globalDir)
       (map (\<lambda>(agentID, workspace, entries). (agentID, scanSkillScopeDir p ''workspace'' agentID (Join_paths (TrimSpace workspace) ''skills'', entries)))
         (filter (\<lambda>(agentID, workspace, entries). TrimSpace workspace \<noteq> []) workspaces))"

section \<open>What is listed\<close>

lemma first_of_name_distinct: "distinct (map SkillName xs) \<Longrightarrow> S \<inter> SkillName ` set xs = {} \<Longrightarrow> first_of_name S xs = xs"
  by (induction S xs rule: first_of_name.induct) auto

lemma sort_key_Nil: "sort_key f xs = [] \<longleftrightarrow> xs = []"
  by (metis length_0_conv length_sort)

lemma assoc_put_keys: "fst ` set (assoc_put k v m) = insert k (fst ` set m)"
  by (force simp: assoc_put_def)

lemma find_collisions_none:
  "find_collisions seen xs = [] \<longleftrightarrow> distinct (map SkillName xs) \<and> fst ` set seen \<inter> SkillName ` set xs = {}"
proof (induction seen xs rule: find_collisions.induct)
  case (2 seen info rest)
  show ?case
  proof (cases "map_of seen (SkillName info)")
    case None
    then have "SkillName info \<notin> fst ` set seen" by (simp add: map_of_eq_None_iff)
    with 2(1) [OF None] None show ?thesis by (auto simp: assoc_put_keys)
  next
    case (Some x)
    then have "SkillName info \<in> fst ` set seen" by (metis map_of_eq_None_iff option.distinct(1))
    with Some show ?thesis by (auto simp: split_beta Let_def)
  qed
qed simp

lemma collisions_none: "ValidateSkillNameCollisions p sl = [] \<longleftrightarrow> distinct (map SkillName (all_skills p sl))"
  by (simp add: ValidateSkillNameCollisions_def sort_key_Nil find_collisions_none)

lemma all_skills_valid: "s \<in> set (all_skills p sl) \<Longrightarrow> valid_skill s"
  by (auto simp: all_skills_def root_skills_def split: prod.splits if_splits)

text \<open>C35. The list of skills is all or nothing: if no two skills have the same name it is all the valid skills of the three
  roots, ordered by name, and otherwise it is empty: a name in two roots is a collision, and no root overrides another as the overview
  of the configuration says.\<close>

theorem ListSkills_exact:
  "ListSkills p sl = (if distinct (map SkillName (all_skills p sl)) then sort_skills (all_skills p sl) else []) \<and>
   sorted (map SkillName (ListSkills p sl)) \<and> distinct (map SkillName (ListSkills p sl)) \<and> list_all valid_skill (ListSkills p sl)"
proof -
  have eq: "ListSkills p sl = (if distinct (map SkillName (all_skills p sl)) then sort_skills (all_skills p sl) else [])"
    by (simp add: ListSkills_def collisions_none first_of_name_distinct)
  moreover have "sorted (map SkillName (sort_skills xs))" for xs by (simp add: sort_skills_def)
  moreover have "distinct (map SkillName (sort_skills xs)) = distinct (map SkillName xs)" for xs
    by (simp add: sort_skills_def distinct_map)
  moreover have "set (sort_skills xs) = set xs" for xs by (simp add: sort_skills_def)
  ultimately show ?thesis using all_skills_valid by (auto simp: list_all_iff)
qed

definition ranks_before :: "SkillInfo \<Rightarrow> SkillInfo \<Rightarrow> bool" where
  "ranks_before a b \<longleftrightarrow> sourcePriority (SkillSource a) < sourcePriority (SkillSource b) \<or>
     sourcePriority (SkillSource a) = sourcePriority (SkillSource b) \<and> SkillPath a \<le> SkillPath b"

lemma pick_ranks: "pickCollisionWinner a b = (w, c) \<Longrightarrow> ranks_before w c \<and> {w, c} = {a, b}"
  by (auto simp: pickCollisionWinner_def ranks_before_def Let_def split: if_splits)

lemma collisions_count:
  "length (filter (\<lambda>c. CollisionName c = n) (find_collisions seen xs)) =
     length (filter (\<lambda>s. SkillName s = n) xs) - (if map_of seen n = None then 1 else 0) \<and>
   list_all (\<lambda>c. ranks_before (Winner c) (Conflict c)) (find_collisions seen xs)"
proof (induction seen xs rule: find_collisions.induct)
  case (2 seen info rest)
  show ?case
  proof (cases "map_of seen (SkillName info)")
    case None
    with 2(1) [OF None] show ?thesis by auto
  next
    case (Some x)
    obtain w c where wc: "pickCollisionWinner x info = (w, c)" by fastforce
    from 2(2) [OF Some wc [symmetric] refl] pick_ranks [OF wc] Some wc show ?thesis by auto
  qed
qed simp

text \<open>Every skill whose name is taken is reported once, each time with the winner that the order of the scopes, and then of the
  paths, gives.\<close>

theorem collisions_reported:
  "length (filter (\<lambda>c. CollisionName c = n) (ValidateSkillNameCollisions p sl)) =
     length (filter (\<lambda>s. SkillName s = n) (all_skills p sl)) - 1 \<and>
   list_all (\<lambda>c. ranks_before (Winner c) (Conflict c)) (ValidateSkillNameCollisions p sl)"
proof -
  have len: "length (filter P (sort_key f xs)) = length (filter P xs)" for P and f :: "SkillCollision \<Rightarrow> string" and xs
    by (simp add: filter_sort)
  have all: "list_all P (sort_key f xs) = list_all P xs" for P and f :: "SkillCollision \<Rightarrow> string" and xs by (simp add: list_all_iff)
  show ?thesis using collisions_count [of n "[]"] by (simp add: ValidateSkillNameCollisions_def len all)
qed

text \<open>A listed skill need not be loadable: skills are listed under the name in their metadata but looked up by their directory, so
  the tool can answer that a skill is not found and name it as available.\<close>

theorem listed_skill_not_loadable:
  assumes "s \<in> set (ListSkills p sl)" and "TrimSpace name = SkillName s" and "ValidateSkillIdentifier (SkillName s)"
    and "SkillName s \<notin> fst ` (set (snd (workspaceSkills sl)) \<union> set (snd (globalSkills sl)) \<union> set (snd (builtinSkills sl)))"
  shows "\<exists>names. SkillTool_Execute p sl name args = NotFound names \<and> SkillName s \<in> set names"
proof -
  have none: "skill_content r (SkillName s) = None" if "SkillName s \<notin> fst ` set (snd r)" for r
    using that by (cases r) (simp add: skill_content_def map_of_eq_None_iff [THEN iffD2])
  have "LoadSkill p sl (SkillName s) = None"
    using assms(4) none [of "workspaceSkills sl"] none [of "globalSkills sl"] none [of "builtinSkills sl"] by (simp add: LoadSkill_def image_Un)
  with assms(1-3) show ?thesis by (auto simp: SkillTool_Execute_def)
qed

definition demo_parsers :: skill_parsers where
  "demo_parsers = \<lparr>normalize_newlines = id, markdown_meta = \<lambda>t. ([], t), json_meta = \<lambda>f. None,
     yaml_meta = \<lambda>f. [(''name'', JString f)]\<rparr>"

definition demo_text :: "string \<Rightarrow> string" where
  "demo_text name = ''---'' @ [CHR 0x0A] @ name @ [CHR 0x0A] @ ''---'' @ [CHR 0x0A] @ ''Do it''"

definition demo_loader :: "skill_root \<Rightarrow> skill_root \<Rightarrow> SkillsLoader" where
  "demo_loader ws builtin = \<lparr>workspaceSkills = (''/w/skills'', ws), globalSkills = (''/g'', []), builtinSkills = (''/b'', builtin)\<rparr>"

theorem listed_skill_not_loadable_witness:
  "\<exists>names. SkillTool_Execute demo_parsers (demo_loader [(''dir'', Some (demo_text ''review''))] []) ''review'' [] = NotFound names \<and> ''review'' \<in> set names"
proof -
  let ?sl = "demo_loader [(''dir'', Some (demo_text ''review''))] []"
  let ?s = "\<lparr>SkillName = ''review'', SkillPath = ''/w/skills/dir/SKILL.md'', SkillSource = ''workspace'', SkillDescription = ''Do it'', SkillPaths = []\<rparr>"
  have "ListSkills demo_parsers ?sl = [?s]" by code_simp
  moreover have "ValidateSkillIdentifier ''review''" "TrimSpace ''review'' = ''review''" by code_simp+
  ultimately show ?thesis
    using listed_skill_not_loadable [of ?s demo_parsers ?sl "''review''" "[]"] by (simp add: demo_loader_def)
qed

text \<open>The inventory of collisions does not see the builtin skills: with no global skills it finds nothing, although a skill of a
  workspace with the name of a builtin one empties the list of skills.\<close>

theorem inventory_misses_builtin:
  assumes "a \<in> set (root_skills p ''workspace'' (workspaceSkills sl))" and "b \<in> set (root_skills p ''builtin'' (builtinSkills sl))"
    and "SkillName a = SkillName b" and "snd (globalSkills sl) = []"
  shows "ListSkills p sl = [] \<and> BuildSkillScopeInventory p (globalSkills sl) workspaces = []"
proof
  have "\<not> distinct (map SkillName (all_skills p sl))" using assms(1-3) by (force simp: all_skills_def)
  then show "ListSkills p sl = []" by (simp add: ListSkills_def collisions_none)
  have "scanSkillScopeDir p ''global'' [] (globalSkills sl) = []"
    using assms(4) by (cases "globalSkills sl") (simp add: scanSkillScopeDir_def map_filter_def Let_def)
  then show "BuildSkillScopeInventory p (globalSkills sl) workspaces = []"
    by (simp add: BuildSkillScopeInventory_def detectCrossScopeCollisions_def split_def)
qed

theorem inventory_misses_builtin_witness:
  "ListSkills demo_parsers (demo_loader [(''a'', Some (demo_text ''review''))] [(''b'', Some (demo_text ''review''))]) = [] \<and>
   BuildSkillScopeInventory demo_parsers (''/g'', []) [(''main'', ''/w'', [(''a'', Some (demo_text ''review''))])] = []"
proof -
  let ?sl = "demo_loader [(''a'', Some (demo_text ''review''))] [(''b'', Some (demo_text ''review''))]"
  let ?a = "\<lparr>SkillName = ''review'', SkillPath = ''/w/skills/a/SKILL.md'', SkillSource = ''workspace'', SkillDescription = ''Do it'', SkillPaths = []\<rparr>"
  let ?b = "\<lparr>SkillName = ''review'', SkillPath = ''/b/b/SKILL.md'', SkillSource = ''builtin'', SkillDescription = ''Do it'', SkillPaths = []\<rparr>"
  have "root_skills demo_parsers ''workspace'' (workspaceSkills ?sl) = [?a]" "root_skills demo_parsers ''builtin'' (builtinSkills ?sl) = [?b]"
    by code_simp+
  with inventory_misses_builtin [of ?a demo_parsers ?sl ?b "[(''main'', ''/w'', [(''a'', Some (demo_text ''review''))])]"]
  show ?thesis by (simp add: demo_loader_def)
qed

end
