(* ===== verification/SkillActivation.thy ===== *)
theory SkillActivation
  imports Skills
begin

text \<open>
  Skills in the prompt of an agent (\<open>pkg/agent/context.go\<close>): the summary of skills within its budgets, the patterns of paths
  that make a skill conditional, and the skills that are active in a session. The token counter is an argument (\<open>None\<close> where
  the code panics); a pattern is kept as the list of the parts of the regular expression that it is turned into.
\<close>

section \<open>The summary of skills\<close>

definition maxSkillDescChars :: nat where "maxSkillDescChars = 250"

definition minSkillDescChars :: nat where "minSkillDescChars = 20"

definition truncateSkillDescription :: "string \<Rightarrow> nat \<Rightarrow> string" where
  "truncateSkillDescription s limit =
     (if limit = 0 then []
      else
        let t = TrimSpace s
        in if length t \<le> limit then t
           else if limit \<le> 1 then take limit t
           else take (limit - 1) t @ EncodeRune 8230)"

text \<open>Replacing the ampersands first and the brackets after them treats every character once.\<close>

definition xml_char :: "char \<Rightarrow> string" where
  "xml_char c = (if c = CHR ''&'' then ''&amp;'' else if c = CHR ''<'' then ''&lt;'' else if c = CHR ''>'' then ''&gt;'' else [c])"

definition xmlEscape :: "string \<Rightarrow> string" where
  "xmlEscape s = concat (map xml_char s)"

definition line_break :: string where "line_break = [CHR 0x0A]"

definition skill_lines :: "nat \<Rightarrow> SkillInfo \<Rightarrow> string list" where
  "skill_lines descBudget s =
     [''  <skill>'', ''    <name>'' @ xmlEscape (SkillName s) @ ''</name>'',
      ''    <description>'' @ xmlEscape (truncateSkillDescription (SkillDescription s) descBudget) @ ''</description>'',
      ''    <location>'' @ xmlEscape (SkillPath s) @ ''</location>'', ''    <source>'' @ SkillSource s @ ''</source>'', ''  </skill>'']"

definition renderSkillsSummaryWithDescBudget :: "SkillInfo list \<Rightarrow> nat \<Rightarrow> string" where
  "renderSkillsSummaryWithDescBudget skills descBudget =
     Join line_break (''<skills>'' # concat (map (skill_lines descBudget) skills) @ [''</skills>''])"

definition description_budget :: "int \<Rightarrow> SkillInfo list \<Rightarrow> nat" where
  "description_budget totalBudget skills =
     (let fixedChars = sum_list (map (\<lambda>s. int (length (SkillName s) + length (SkillPath s) + length (SkillSource s) + 128)) skills);
          available = totalBudget - fixedChars
      in if available \<le> 0 then minSkillDescChars
         else
           let perSkill = available div int (length skills)
           in if perSkill < int minSkillDescChars then minSkillDescChars
              else if int maxSkillDescChars < perSkill then maxSkillDescChars
              else nat perSkill)"

function shrink_summary :: "(string \<Rightarrow> nat option) \<Rightarrow> nat \<Rightarrow> SkillInfo list \<Rightarrow> nat \<Rightarrow> string option" where
  "shrink_summary count tokenBudget skills descBudget =
     (let summary = renderSkillsSummaryWithDescBudget skills descBudget
      in case count summary of
           None \<Rightarrow> None
         | Some tokens \<Rightarrow>
             if tokens \<le> tokenBudget then Some summary
             else if minSkillDescChars < descBudget then shrink_summary count tokenBudget skills (descBudget - 1)
             else Some summary)"
  by pat_completeness auto
termination
  by (relation "measure (\<lambda>(c, b, s, d). d)") (auto simp: minSkillDescChars_def)

declare shrink_summary.simps [simp del]

definition renderSkillsSummary :: "(string \<Rightarrow> nat option) \<Rightarrow> int \<Rightarrow> nat \<Rightarrow> SkillInfo list \<Rightarrow> string option" where
  "renderSkillsSummary count charBudget tokenBudget skillsIn =
     (let skills = sort_skills skillsIn
      in if skills = [] then Some []
         else shrink_summary count tokenBudget skills (description_budget charBudget skills))"

definition staticSkillInfos :: "SkillInfo list \<Rightarrow> SkillInfo list" where
  "staticSkillInfos skills = filter (\<lambda>s. SkillPaths s = []) skills"

section \<open>Patterns of paths\<close>

definition normalizeRelativeSkillPath :: "string \<Rightarrow> string \<Rightarrow> string option" where
  "normalizeRelativeSkillPath workspace rawPath =
     (let raw = TrimSpace rawPath
      in if raw = [] then None
         else
           (case (if is_abs (Clean raw) then Rel workspace (Clean raw) else Some (Clean raw)) of
              None \<Rightarrow> None
            | Some path \<Rightarrow> if path = ''.'' \<or> HasPrefix path ''../'' \<or> HasPrefix path ''/'' then None else Some path))"

definition normalizeAndUniqueTouchedPaths :: "string \<Rightarrow> string list \<Rightarrow> string list" where
  "normalizeAndUniqueTouchedPaths workspace touched =
     sort (dedup [] (List.map_filter (normalizeRelativeSkillPath workspace) touched))"

text \<open>The parts: \<open>(?:.*/)?\<close>, \<open>(?:/.*)?\<close>, \<open>.*\<close>, \<open>[^/]*\<close>, \<open>[^/]\<close> and a quoted character.\<close>

datatype glob = DirStar | TailStar | AnyStar | SegStar | SegOne | Lit rune

function glob_tokens :: "string \<Rightarrow> glob list" where
  "glob_tokens s =
     (if s = [] then []
      else if HasPrefix s ''**/'' then DirStar # glob_tokens (drop 3 s)
      else if HasPrefix s ''/**'' then TailStar # glob_tokens (drop 3 s)
      else if HasPrefix s ''**'' then AnyStar # glob_tokens (drop 2 s)
      else if hd s = CHR ''*'' then SegStar # glob_tokens (tl s)
      else if hd s = CHR ''?'' then SegOne # glob_tokens (tl s)
      else Lit (byte (hd s)) # glob_tokens (tl s))"
  by pat_completeness auto
termination
  by (relation "measure length") auto

declare glob_tokens.simps [simp del]

definition wildcardPatternToRegexp :: "string \<Rightarrow> glob list option" where
  "wildcardPatternToRegexp pattern = (if TrimSpace pattern = [] then None else Some (glob_tokens (TrimSpace pattern)))"

text \<open>Matching of the whole text; \<open>.\<close> is any character but a newline.\<close>

fun after_slashes :: "rune list \<Rightarrow> rune list list" where
  "after_slashes [] = []"
| "after_slashes (r # rs) = (if r = 10 then [] else (if r = 47 then [rs] else []) @ after_slashes rs)"

lemma after_slashes_shorter: "t \<in> set (after_slashes s) \<Longrightarrow> length t < length s"
  by (induction s) (auto split: if_splits)

function glob_match :: "glob list \<Rightarrow> rune list \<Rightarrow> bool" where
  "glob_match [] s = (s = [])"
| "glob_match (Lit r # g) s = (case s of [] \<Rightarrow> False | x # xs \<Rightarrow> x = r \<and> glob_match g xs)"
| "glob_match (SegOne # g) s = (case s of [] \<Rightarrow> False | x # xs \<Rightarrow> x \<noteq> 47 \<and> glob_match g xs)"
| "glob_match (SegStar # g) s = (glob_match g s \<or> (case s of [] \<Rightarrow> False | x # xs \<Rightarrow> x \<noteq> 47 \<and> glob_match (SegStar # g) xs))"
| "glob_match (AnyStar # g) s = (glob_match g s \<or> (case s of [] \<Rightarrow> False | x # xs \<Rightarrow> x \<noteq> 10 \<and> glob_match (AnyStar # g) xs))"
| "glob_match (DirStar # g) s = (glob_match g s \<or> list_ex (glob_match g) (after_slashes s))"
| "glob_match (TailStar # g) s = (glob_match g s \<or> (case s of [] \<Rightarrow> False | x # xs \<Rightarrow> x = 47 \<and> glob_match (AnyStar # g) xs))"
  by pat_completeness auto
termination
  by (relation "measure (\<lambda>(g, s). length g + length s)") (auto dest: after_slashes_shorter)

definition matching_paths :: "string list \<Rightarrow> string list \<Rightarrow> string list" where
  "matching_paths patterns paths =
     dedup [] (concat (map (\<lambda>p. case wildcardPatternToRegexp p of None \<Rightarrow> [] | Some g \<Rightarrow> filter (\<lambda>q. glob_match g (runes q)) paths) patterns))"

section \<open>The skills of a session\<close>

record SkillActivationEntry =
  ActivationName :: string
  ActivationPatterns :: "string list"
  ActivationPaths :: "string list"

record SkillActivationState =
  EvidencePaths :: "string list"
  ActivatedEntries :: "SkillActivationEntry list"
  DeactivatedNames :: "string list"

record session_skills =
  ActiveSkills :: "(string \<times> string list) list"
  SkillEvidence :: "(string \<times> SkillActivationState) list"
  SkillStateEpoch :: nat

definition no_session_skills :: session_skills where
  "no_session_skills = \<lparr>ActiveSkills = [], SkillEvidence = [], SkillStateEpoch = 0\<rparr>"

definition normalizeSkillSessionKey :: "string \<Rightarrow> string" where
  "normalizeSkillSessionKey key = (if TrimSpace key = [] then ''default'' else TrimSpace key)"

definition active_names :: "session_skills \<Rightarrow> string \<Rightarrow> string list" where
  "active_names st key = (case map_of (ActiveSkills st) (normalizeSkillSessionKey key) of None \<Rightarrow> [] | Some names \<Rightarrow> names)"

definition evaluateConditionalSkills :: "SkillInfo list \<Rightarrow> string list \<Rightarrow> SkillActivationEntry list" where
  "evaluateConditionalSkills skills relativePaths =
     (if relativePaths = [] then []
      else
        sort_key ActivationName
          (List.map_filter (\<lambda>s.
             let matched = matching_paths (SkillPaths s) relativePaths
             in if SkillPaths s = [] \<or> matched = [] then None
                else Some \<lparr>ActivationName = SkillName s, ActivationPatterns = SkillPaths s, ActivationPaths = sort matched\<rparr>) skills))"

definition RecomputeSessionSkills ::
  "string \<Rightarrow> SkillInfo list \<Rightarrow> session_skills \<Rightarrow> string \<Rightarrow> string list \<Rightarrow> session_skills \<times> string list \<times> string list" where
  "RecomputeSessionSkills workspace skills st key touched =
     (let k = normalizeSkillSessionKey key;
          relative = normalizeAndUniqueTouchedPaths workspace touched;
          entries = evaluateConditionalSkills skills relative;
          new = dedup [] (map ActivationName entries);
          prev = active_names st key;
          activated = sort (filter (\<lambda>n. n \<notin> set prev) new);
          deactivated = sort (filter (\<lambda>n. n \<notin> set new) prev)
      in (st\<lparr>ActiveSkills := (if new = [] then assoc_del k (ActiveSkills st) else assoc_put k new (ActiveSkills st)),
             SkillEvidence := assoc_put k \<lparr>EvidencePaths = relative, ActivatedEntries = entries, DeactivatedNames = deactivated\<rparr> (SkillEvidence st),
             SkillStateEpoch := (if activated \<noteq> [] \<or> deactivated \<noteq> [] then Suc (SkillStateEpoch st) else SkillStateEpoch st)\<rparr>,
          activated, deactivated))"

definition ClearSessionSkillState :: "session_skills \<Rightarrow> string \<Rightarrow> session_skills" where
  "ClearSessionSkillState st key =
     (let k = normalizeSkillSessionKey key
      in st\<lparr>ActiveSkills := assoc_del k (ActiveSkills st), SkillEvidence := assoc_del k (SkillEvidence st),
            SkillStateEpoch := (if map_of (ActiveSkills st) k \<noteq> None then Suc (SkillStateEpoch st) else SkillStateEpoch st)\<rparr>)"

definition activatedSessionSkillInfos :: "SkillInfo list \<Rightarrow> session_skills \<Rightarrow> string \<Rightarrow> SkillInfo list" where
  "activatedSessionSkillInfos skills st key = filter (\<lambda>s. SkillName s \<in> set (active_names st key)) skills"

text \<open>A turn starts with no touched paths; after every round of tools, and with the final answer, the skills of the session are
  recomputed from the paths that the turn has touched so far.\<close>

definition turn_recompute ::
  "string \<Rightarrow> SkillInfo list \<Rightarrow> string \<Rightarrow> session_skills \<Rightarrow> string list list \<Rightarrow> session_skills" where
  "turn_recompute workspace skills key st rounds =
     fst (foldl (\<lambda>(st, touched) new.
        let touched' = touched @ dedup touched new
        in (fst (RecomputeSessionSkills workspace skills st key touched'), touched')) (st, []) (rounds @ [[]]))"

section \<open>The summary fits\<close>

lemma description_budget_range: "minSkillDescChars \<le> description_budget b skills \<and> description_budget b skills \<le> maxSkillDescChars"
  by (auto simp: description_budget_def minSkillDescChars_def maxSkillDescChars_def Let_def)

lemma shrink_summary_best:
  assumes "\<And>text. count text \<noteq> None" and "minSkillDescChars \<le> d"
  shows "\<exists>d'. minSkillDescChars \<le> d' \<and> d' \<le> d \<and> shrink_summary count tb skills d = Some (renderSkillsSummaryWithDescBudget skills d') \<and>
    (the (count (renderSkillsSummaryWithDescBudget skills d')) \<le> tb \<or> d' = minSkillDescChars) \<and>
    (\<forall>d''. d' < d'' \<and> d'' \<le> d \<longrightarrow> tb < the (count (renderSkillsSummaryWithDescBudget skills d'')))"
  using assms(2)
proof (induction d rule: less_induct)
  case (less d)
  obtain n where n: "count (renderSkillsSummaryWithDescBudget skills d) = Some n" using assms(1) by blast
  show ?case
  proof (cases "n \<le> tb \<or> \<not> minSkillDescChars < d")
    case True
    then show ?thesis using less.prems n by (intro exI [of _ d]) (subst shrink_summary.simps, auto simp: Let_def)
  next
    case False
    then have smaller: "d - 1 < d" "minSkillDescChars \<le> d - 1" by auto
    from less.IH [OF this] obtain d' where d': "minSkillDescChars \<le> d'" "d' \<le> d - 1"
      "shrink_summary count tb skills (d - 1) = Some (renderSkillsSummaryWithDescBudget skills d')"
      "the (count (renderSkillsSummaryWithDescBudget skills d')) \<le> tb \<or> d' = minSkillDescChars"
      "\<forall>d''. d' < d'' \<and> d'' \<le> d - 1 \<longrightarrow> tb < the (count (renderSkillsSummaryWithDescBudget skills d''))" by blast
    have "shrink_summary count tb skills d = shrink_summary count tb skills (d - 1)"
      using False n by (subst shrink_summary.simps) (simp add: Let_def)
    moreover have "tb < the (count (renderSkillsSummaryWithDescBudget skills d''))" if "d' < d''" "d'' \<le> d" for d''
      using d'(5) that False n by (cases "d'' = d") auto
    ultimately show ?thesis using d' smaller by (intro exI [of _ d']) auto
  qed
qed

text \<open>The summary of skills is the one with the longest descriptions that fits: among the limits from 20 up to the one that the
  budget of characters gives it takes the largest with which the tokens fit, and 20 if none does.\<close>

theorem renderSkillsSummary_best:
  assumes "\<And>text. count text \<noteq> None" and "skillsIn \<noteq> []"
  shows "\<exists>d. 20 \<le> d \<and> d \<le> 250 \<and> d \<le> description_budget charBudget (sort_skills skillsIn) \<and>
    renderSkillsSummary count charBudget tokenBudget skillsIn = Some (renderSkillsSummaryWithDescBudget (sort_skills skillsIn) d) \<and>
    (the (count (renderSkillsSummaryWithDescBudget (sort_skills skillsIn) d)) \<le> tokenBudget \<or> d = 20) \<and>
    (\<forall>d'. d < d' \<and> d' \<le> description_budget charBudget (sort_skills skillsIn) \<longrightarrow>
       tokenBudget < the (count (renderSkillsSummaryWithDescBudget (sort_skills skillsIn) d')))"
proof -
  let ?s = "sort_skills skillsIn"
  have "?s \<noteq> []" using assms(2) by (simp add: sort_skills_def sort_key_Nil)
  then have eq: "renderSkillsSummary count charBudget tokenBudget skillsIn =
      shrink_summary count tokenBudget ?s (description_budget charBudget ?s)"
    by (simp add: renderSkillsSummary_def Let_def)
  have range: "minSkillDescChars \<le> description_budget charBudget ?s" "description_budget charBudget ?s \<le> 250"
    using description_budget_range [of charBudget ?s] by (simp_all add: maxSkillDescChars_def)
  from shrink_summary_best [where count = count and tb = tokenBudget and skills = ?s, OF assms(1) range(1)] obtain d where d:
    "minSkillDescChars \<le> d" "d \<le> description_budget charBudget ?s"
    "shrink_summary count tokenBudget ?s (description_budget charBudget ?s) = Some (renderSkillsSummaryWithDescBudget ?s d)"
    "the (count (renderSkillsSummaryWithDescBudget ?s d)) \<le> tokenBudget \<or> d = minSkillDescChars"
    "\<forall>d'. d < d' \<and> d' \<le> description_budget charBudget ?s \<longrightarrow> tokenBudget < the (count (renderSkillsSummaryWithDescBudget ?s d'))"
    by (elim exE conjE)
  have "20 \<le> d" "the (count (renderSkillsSummaryWithDescBudget ?s d)) \<le> tokenBudget \<or> d = 20"
    using d(1,4) by (simp_all add: minSkillDescChars_def)
  moreover have "d \<le> 250" using d(2) range(2) by (rule le_trans)
  ultimately show ?thesis unfolding eq using d(2,3,5) by (intro exI [of _ d] conjI)
qed

definition demo_skill :: SkillInfo where
  "demo_skill = \<lparr>SkillName = ''review'', SkillPath = ''/s/review/SKILL.md'', SkillSource = ''global'',
     SkillDescription = replicate 30 CHR ''x'', SkillPaths = []\<rparr>"

theorem renderSkillsSummary_best_witness:
  "renderSkillsSummary (\<lambda>t. Some 1) 8000 2400 [demo_skill] = Some (renderSkillsSummaryWithDescBudget [demo_skill] 250)"
proof -
  have sorted: "sort_skills [demo_skill] = [demo_skill]" by (simp add: sort_skills_def)
  have budget: "description_budget 8000 [demo_skill] = 250" by code_simp
  from renderSkillsSummary_best [of "\<lambda>t. Some 1" "[demo_skill]" 8000 2400]
  obtain d where d: "d \<le> 250" "renderSkillsSummary (\<lambda>t. Some 1) 8000 2400 [demo_skill] = Some (renderSkillsSummaryWithDescBudget [demo_skill] d)"
    "\<forall>d'. d < d' \<and> d' \<le> 250 \<longrightarrow> 2400 < (1 :: nat)" unfolding sorted budget by auto
  then have "d = 250" by (metis le_neq_implies_less le_refl not_less one_le_numeral)
  with d(2) show ?thesis by simp
qed

lemma count_concat: "count_list (concat xs) c = sum_list (map (\<lambda>x. count_list x c) xs)"
  by (induction xs) auto

lemma xmlEscape_no_bracket: "count_list (xmlEscape s) CHR ''<'' = 0 \<and> count_list (xmlEscape s) CHR ''>'' = 0"
  by (induction s) (auto simp: xmlEscape_def xml_char_def)

lemma count_Join: "c \<notin> set sep \<Longrightarrow> count_list (Join sep xs) c = sum_list (map (\<lambda>x. count_list x c) xs)"
  by (induction sep xs rule: Join.induct) auto

definition sources :: "string list" where
  "sources = [''workspace'', ''global'', ''builtin'']"

lemma tag_brackets:
  "list_all (\<lambda>t. count_list t CHR ''<'' = 1 \<and> count_list t CHR ''>'' = 1)
     [''  <skill>'', ''    <name>'', ''</name>'', ''    <description>'', ''</description>'', ''    <location>'', ''</location>'',
      ''    <source>'', ''</source>'', ''  </skill>'', ''<skills>'', ''</skills>'']"
  "list_all (\<lambda>t. count_list t CHR ''<'' = 0 \<and> count_list t CHR ''>'' = 0) sources"
  by code_simp+

lemma skill_brackets:
  assumes "SkillSource s \<in> set sources" and "b = CHR ''<'' \<or> b = CHR ''>''"
  shows "sum_list (map (\<lambda>l. count_list l b) (skill_lines d s)) = 10"
proof -
  note tags = tag_brackets(1) [unfolded list.pred_inject]
  have src: "count_list (SkillSource s) b = 0" using tag_brackets(2) assms by (auto simp: list_all_iff)
  have esc: "count_list (xmlEscape t) b = 0" for t using xmlEscape_no_bracket [of t] assms(2) by auto
  have "sum_list (map (\<lambda>l. count_list l b) (skill_lines d s)) =
      count_list ''  <skill>'' b + (count_list ''    <name>'' b + count_list ''</name>'' b) +
      (count_list ''    <description>'' b + count_list ''</description>'' b) + (count_list ''    <location>'' b + count_list ''</location>'' b) +
      (count_list ''    <source>'' b + count_list ''</source>'' b) + count_list ''  </skill>'' b"
    by (simp only: skill_lines_def list.map sum_list.Cons sum_list.Nil count_list_append esc src add_0 add_0_right add.assoc)
  moreover have "count_list ''  <skill>'' b = 1" "count_list ''    <name>'' b = 1" "count_list ''</name>'' b = 1"
    "count_list ''    <description>'' b = 1" "count_list ''</description>'' b = 1" "count_list ''    <location>'' b = 1"
    "count_list ''</location>'' b = 1" "count_list ''    <source>'' b = 1" "count_list ''</source>'' b = 1" "count_list ''  </skill>'' b = 1"
    using tags assms(2) by blast+
  ultimately show ?thesis by simp
qed

text \<open>What a skill says cannot break the summary: its name, description and path add no bracket to it, so that there are
  exactly the brackets of the elements that the code writes.\<close>

theorem summary_brackets:
  assumes "\<And>s. s \<in> set skills \<Longrightarrow> SkillSource s \<in> set sources"
  shows "count_list (renderSkillsSummaryWithDescBudget skills d) CHR ''<'' = 2 + 10 * length skills \<and>
    count_list (renderSkillsSummaryWithDescBudget skills d) CHR ''>'' = 2 + 10 * length skills"
proof -
  have "sum_list (map (\<lambda>l. count_list l b) (concat (map (skill_lines d) xs))) = 10 * length xs"
    if "\<forall>s \<in> set xs. SkillSource s \<in> set sources" and "b = CHR ''<'' \<or> b = CHR ''>''" for xs b
    using that by (induction xs) (simp_all add: skill_brackets del: count_list.simps)
  with assms show ?thesis
    using tag_brackets(1) by (simp add: renderSkillsSummaryWithDescBudget_def count_Join line_break_def del: count_list.simps)
qed

theorem summary_brackets_witness:
  "count_list (renderSkillsSummaryWithDescBudget [demo_skill\<lparr>SkillDescription := ''</skill><x>''\<rparr>] 50) CHR ''<'' = 12"
  using summary_brackets [of "[demo_skill\<lparr>SkillDescription := ''</skill><x>''\<rparr>]" 50] by (simp add: demo_skill_def sources_def)

text \<open>A shortened description is longer than its limit: the ellipsis has three bytes and only one is cut for it.\<close>

theorem shortened_description_too_long:
  assumes "2 \<le> limit" and "limit < length (TrimSpace s)"
  shows "length (truncateSkillDescription s limit) = limit + 2"
  using assms by (simp add: truncateSkillDescription_def EncodeRune_def Let_def)

theorem shortened_description_too_long_witness:
  "length (truncateSkillDescription (replicate 30 CHR ''x'') 20) = 22"
proof -
  have "TrimSpace (replicate 30 CHR ''x'') = replicate 30 CHR ''x''" by code_simp
  then show ?thesis using shortened_description_too_long [of 20 "replicate 30 CHR ''x''"] by simp
qed

section \<open>Matching\<close>

definition wildcard :: "char \<Rightarrow> bool" where
  "wildcard c \<longleftrightarrow> c = CHR ''*'' \<or> c = CHR ''?''"

lemma glob_tokens_Cons:
  "glob_tokens [] = []"
  "\<not> wildcard c \<Longrightarrow> \<not> HasPrefix (c # s) ''/**'' \<Longrightarrow> glob_tokens (c # s) = Lit (byte c) # glob_tokens s"
  by (subst glob_tokens.simps, auto simp: wildcard_def HasPrefix_def)+

lemma glob_tokens_literal:
  "\<forall>c \<in> set s. \<not> wildcard c \<Longrightarrow> glob_tokens s = map (Lit \<circ> byte) s"
proof (induction s)
  case (Cons c s)
  then have "\<not> HasPrefix (c # s) ''/**''" by (cases s) (auto simp: HasPrefix_def wildcard_def)
  with Cons show ?case by (simp add: glob_tokens_Cons)
qed (simp add: glob_tokens_Cons)

lemma match_literals: "glob_match (map (Lit \<circ> f) s @ g) t \<longleftrightarrow> (\<exists>u. t = map f s @ u \<and> glob_match g u)"
proof (induction s arbitrary: t)
  case (Cons c s)
  then show ?case by (cases t) auto
qed simp

lemma DecodeRune_byte: "fst (DecodeRune (c # s)) = byte c \<Longrightarrow> snd (DecodeRune (c # s)) \<le> 1 \<Longrightarrow> byte c < 128"
proof -
  have "byte c < 256" using range_nat_of_char by (metis atLeastLessThan_iff rangeI)
  then show "fst (DecodeRune (c # s)) = byte c \<Longrightarrow> snd (DecodeRune (c # s)) \<le> 1 \<Longrightarrow> byte c < 128"
    by (cases "byte c = 65533") (auto simp: DecodeRune_def RuneError_def Let_def split: if_splits list.splits)
qed

lemma runes_bytes_ascii: "runes s = map byte s \<longleftrightarrow> (\<forall>c \<in> set s. byte c < 128)"
proof
  show "runes s = map byte s \<Longrightarrow> \<forall>c \<in> set s. byte c < 128"
  proof (induction s)
    case (Cons c s)
    have first: "fst (DecodeRune (c # s)) = byte c" and rest: "runes (drop (snd (DecodeRune (c # s))) (c # s)) = map byte s"
      using Cons.prems by (subst (asm) runes.simps, simp)+
    have "length s \<le> length (drop (snd (DecodeRune (c # s))) (c # s))"
      using length_runes_le [of "drop (snd (DecodeRune (c # s))) (c # s)"] unfolding rest by simp
    then have "snd (DecodeRune (c # s)) \<le> 1" 
    proof (cases s)
      case Nil
      then show ?thesis by (simp add: DecodeRune_def)
    next
      case (Cons a list)
      with \<open>length s \<le> _\<close> show ?thesis by (cases "snd (DecodeRune (c # s))") auto
    qed
    then have "byte c < 128" by (rule DecodeRune_byte [OF first])
    with Cons show ?case by (simp add: runes_ascii_Cons)
  qed simp
qed (rule runes_ascii)

text \<open>A pattern without wildcards matches exactly the paths whose characters have the codes of its bytes. An ASCII pattern so
  matches itself and nothing else, and a pattern with any other letter does not even match itself.\<close>

theorem literal_pattern:
  assumes "\<forall>c \<in> set (TrimSpace pattern). \<not> wildcard c" and "TrimSpace pattern \<noteq> []"
  shows "\<exists>g. wildcardPatternToRegexp pattern = Some g \<and> (\<forall>path. glob_match g (runes path) \<longleftrightarrow> runes path = map byte (TrimSpace pattern)) \<and>
    (glob_match g (runes (TrimSpace pattern)) \<longleftrightarrow> (\<forall>c \<in> set (TrimSpace pattern). byte c < 128))"
proof -
  let ?t = "TrimSpace pattern"
  have "glob_match (glob_tokens ?t) (runes path) \<longleftrightarrow> runes path = map byte ?t" for path
    using match_literals [of byte ?t "[]" "runes path"] by (simp add: glob_tokens_literal [OF assms(1)] o_def)
  then show ?thesis using assms(2) by (simp add: wildcardPatternToRegexp_def runes_bytes_ascii)
qed

theorem literal_pattern_witness:
  "\<exists>g. wildcardPatternToRegexp [char_of (195 :: nat), char_of (188 :: nat)] = Some g \<and> \<not> glob_match g (runes [char_of (195 :: nat), char_of (188 :: nat)])"
proof -
  let ?p = "[char_of (195 :: nat), char_of (188 :: nat)]"
  have p: "TrimSpace ?p = ?p" "\<forall>c \<in> set ?p. \<not> wildcard c" "byte (char_of (195 :: nat)) = 195" by code_simp+
  from literal_pattern [of ?p] show ?thesis unfolding p(1) using p(2,3) by auto
qed

lemma glob_tokens_append:
  "\<forall>c \<in> set s. \<not> wildcard c \<Longrightarrow> \<not> (s \<noteq> [] \<and> last s = CHR ''/'' \<and> HasPrefix t ''**'') \<Longrightarrow>
   glob_tokens (s @ t) = map (Lit \<circ> byte) s @ glob_tokens t"
proof (induction s)
  case (Cons c s)
  have "\<not> HasPrefix (c # s @ t) ''/**''"
  proof (cases s)
    case Nil
    with Cons.prems show ?thesis by (auto simp: HasPrefix_def)
  next
    case (Cons d s')
    with Cons.prems(1) show ?thesis by (auto simp: HasPrefix_def wildcard_def)
  qed
  moreover have "glob_tokens (s @ t) = map (Lit \<circ> byte) s @ glob_tokens t" using Cons by (cases s) auto
  ultimately show ?case using Cons.prems(1) by (simp add: glob_tokens_Cons)
qed simp

lemma match_any: "glob_match (AnyStar # g) s \<longleftrightarrow> (\<exists>u v. s = u @ v \<and> 10 \<notin> set u \<and> glob_match g v)"
proof (induction s)
  case Nil
  then show ?case by simp
next
  case (Cons x s)
  show ?case
  proof
    assume "glob_match (AnyStar # g) (x # s)"
    then have "glob_match g (x # s) \<or> x \<noteq> 10 \<and> glob_match (AnyStar # g) s" by simp
    then consider "glob_match g (x # s)" | "x \<noteq> 10" "glob_match (AnyStar # g) s" by blast
    then show "\<exists>u v. x # s = u @ v \<and> 10 \<notin> set u \<and> glob_match g v"
    proof cases
      case 1
      then have "x # s = [] @ (x # s) \<and> 10 \<notin> set [] \<and> glob_match g (x # s)" by simp
      then show ?thesis by blast
    next
      case 2
      with Cons obtain u v where "s = u @ v" "10 \<notin> set u" "glob_match g v" by blast
      with 2(1) have "x # s = (x # u) @ v \<and> 10 \<notin> set (x # u) \<and> glob_match g v" by simp
      then show ?thesis by blast
    qed
  next
    assume "\<exists>u v. x # s = u @ v \<and> 10 \<notin> set u \<and> glob_match g v"
    then obtain u v where uv: "x # s = u @ v" "10 \<notin> set u" "glob_match g v" by blast
    show "glob_match (AnyStar # g) (x # s)"
    proof (cases u)
      case (Cons y u')
      with uv have "glob_match (AnyStar # g) s" using Cons.IH by auto
      with uv Cons show ?thesis by auto
    qed (use uv in auto)
  qed
qed

text \<open>A double star between two names stands for any folders between them, and for none: \<open>dir/**/name\<close> matches the paths that
  begin with \<open>dir\<close>, end with \<open>/name\<close> and have between the two nothing or a slash and any text without a newline.\<close>

theorem globstar_between:
  assumes "\<forall>c \<in> set (dir @ name). \<not> wildcard c \<and> byte c < 128" and "dir \<noteq> []" and "last dir \<noteq> CHR ''/''" and "\<not> is_space (hd dir)"
    and "name \<noteq> []" and "\<not> is_space (last name)"
  shows "\<exists>g. wildcardPatternToRegexp (dir @ ''/**/'' @ name) = Some g \<and>
    (\<forall>path. glob_match g (runes path) \<longleftrightarrow>
      (\<exists>mid. runes path = map byte dir @ mid @ map byte (CHR ''/'' # name) \<and> (mid = [] \<or> hd mid = 47 \<and> 10 \<notin> set mid)))"
proof -
  let ?p = "dir @ ''/**/'' @ name"
  have trim: "TrimSpace ?p = ?p"
    using assms(2,4-6) by (cases dir; cases name rule: rev_cases) (simp_all add: TrimSpace_def TrimLeftSpace_def TrimRightSpace_def)
  have "glob_tokens ?p = map (Lit \<circ> byte) dir @ glob_tokens (''/**/'' @ name)"
    using assms(1,3) by (intro glob_tokens_append) (auto simp: HasPrefix_def)
  also have "glob_tokens (''/**/'' @ name) = TailStar # glob_tokens (CHR ''/'' # name)"
    by (subst glob_tokens.simps) (simp add: HasPrefix_def)
  also have "glob_tokens (CHR ''/'' # name) = map (Lit \<circ> byte) (CHR ''/'' # name)"
    using assms(1) by (intro glob_tokens_literal) (auto simp: wildcard_def)
  finally have tokens: "glob_tokens ?p = map (Lit \<circ> byte) dir @ TailStar # map (Lit \<circ> byte) (CHR ''/'' # name)" .
  have lit: "glob_match (map (Lit \<circ> byte) xs) t \<longleftrightarrow> t = map byte xs" for xs t using match_literals [of byte xs "[]" t] by (simp add: o_def)
  have tail: "glob_match (TailStar # map (Lit \<circ> byte) (CHR ''/'' # name)) t \<longleftrightarrow>
      (\<exists>mid. t = mid @ map byte (CHR ''/'' # name) \<and> (mid = [] \<or> hd mid = 47 \<and> 10 \<notin> set mid))" for t
  proof -
    have "glob_match (TailStar # map (Lit \<circ> byte) (CHR ''/'' # name)) t \<longleftrightarrow> t = map byte (CHR ''/'' # name) \<or>
        (\<exists>t'. t = 47 # t' \<and> glob_match (AnyStar # map (Lit \<circ> byte) (CHR ''/'' # name)) t')"
      unfolding glob_match.simps(7) lit by (cases t) simp_all
    also have "\<dots> \<longleftrightarrow> t = map byte (CHR ''/'' # name) \<or> (\<exists>u. t = (47 # u) @ map byte (CHR ''/'' # name) \<and> 10 \<notin> set u)"
      unfolding match_any lit by auto
    also have "\<dots> \<longleftrightarrow> (\<exists>mid. t = mid @ map byte (CHR ''/'' # name) \<and> (mid = [] \<or> hd mid = 47 \<and> 10 \<notin> set mid))"
    proof
      assume "\<exists>mid. t = mid @ map byte (CHR ''/'' # name) \<and> (mid = [] \<or> hd mid = 47 \<and> 10 \<notin> set mid)"
      then obtain mid where mid: "t = mid @ map byte (CHR ''/'' # name)" "mid = [] \<or> hd mid = 47 \<and> 10 \<notin> set mid" by blast
      then show "t = map byte (CHR ''/'' # name) \<or> (\<exists>u. t = (47 # u) @ map byte (CHR ''/'' # name) \<and> 10 \<notin> set u)"
        by (cases mid) auto
    qed (auto intro: exI [of _ "[]"] exI [of _ "47 # _"])
    finally show ?thesis .
  qed
  have "glob_match (glob_tokens ?p) t \<longleftrightarrow> (\<exists>u. t = map byte dir @ u \<and>
      (\<exists>mid. u = mid @ map byte (CHR ''/'' # name) \<and> (mid = [] \<or> hd mid = 47 \<and> 10 \<notin> set mid)))" for t
    unfolding tokens tail [symmetric] using match_literals [of byte dir _ t] by (simp add: o_def)
  then have "glob_match (glob_tokens ?p) t \<longleftrightarrow> (\<exists>mid. t = map byte dir @ mid @ map byte (CHR ''/'' # name) \<and>
      (mid = [] \<or> hd mid = 47 \<and> 10 \<notin> set mid))" for t by auto
  with trim assms(2) show ?thesis by (simp add: wildcardPatternToRegexp_def)
qed

theorem globstar_between_witness:
  "\<exists>g. wildcardPatternToRegexp ''src/**/a'' = Some g \<and> glob_match g (runes ''src/a'') \<and> glob_match g (runes ''src/x/y/a'') \<and>
     \<not> glob_match g (runes ''srcs/a'')"
proof -
  have "\<forall>c \<in> set (''src'' @ ''a''). \<not> wildcard c \<and> byte c < 128" "\<not> is_space (hd ''src'')" "\<not> is_space (last ''a'')" by code_simp+
  from globstar_between [OF this(1) _ _ this(2) _ this(3)] obtain g where g: "wildcardPatternToRegexp ''src/**/a'' = Some g"
    "\<And>path. glob_match g (runes path) \<longleftrightarrow> (\<exists>mid. runes path = map byte ''src'' @ mid @ map byte (CHR ''/'' # ''a'') \<and> (mid = [] \<or> hd mid = 47 \<and> 10 \<notin> set mid))"
    by auto
  have r: "runes ''src/a'' = map byte ''src'' @ map byte ''/a''" "runes ''src/x/y/a'' = map byte ''src'' @ map byte ''/x/y'' @ map byte ''/a''"
    "runes ''srcs/a'' = map byte ''src'' @ map byte ''s'' @ map byte ''/a''" "hd (map byte ''s'') \<noteq> 47" "hd (map byte ''/x/y'') = 47" "10 \<notin> set (map byte ''/x/y'')"
    by code_simp+
  have "\<not> glob_match g (runes ''srcs/a'')"
  proof
    assume hit: "glob_match g (runes ''srcs/a'')"
    obtain mid where "map byte ''s'' @ map byte ''/a'' = mid @ map byte (CHR ''/'' # ''a'')" "mid = [] \<or> hd mid = 47"
      using hit [unfolded g(2), unfolded r(3)] by (auto simp only: same_append_eq)
    then have "mid = map byte ''s''" "mid = [] \<or> hd mid = 47" by (simp_all only: append_same_eq)
    with r(4) show False by simp
  qed
  moreover have "glob_match g (runes ''src/x/y/a'')" unfolding g(2) unfolding r(2) using r(5,6) by (intro exI [of _ "map byte ''/x/y''"] conjI) simp_all
  moreover have "glob_match g (runes ''src/a'')" unfolding g(2) unfolding r(1) by (intro exI [of _ "[]"]) simp
  ultimately show ?thesis using g(1) by blast
qed

section \<open>The skills of a session are those of its last turn\<close>

lemma map_of_assoc_del' [simp]: "map_of (assoc_del k m) i = (if i = k then None else map_of m i)"
  by (simp add: map_of_assoc_del)

definition skills_of_paths :: "string \<Rightarrow> SkillInfo list \<Rightarrow> string list \<Rightarrow> string set" where
  "skills_of_paths workspace skills touched =
     {SkillName s |s. s \<in> set skills \<and> (\<exists>p \<in> set (SkillPaths s). \<exists>g q. wildcardPatternToRegexp p = Some g \<and>
        q \<in> set (normalizeAndUniqueTouchedPaths workspace touched) \<and> glob_match g (runes q))}"

lemma matching_paths_set: "set (matching_paths ps qs) = {q \<in> set qs. \<exists>p \<in> set ps. \<exists>g. wildcardPatternToRegexp p = Some g \<and> glob_match g (runes q)}"
  by (auto simp: matching_paths_def set_dedup split: option.splits) metis+

lemma evaluated_names:
  "set (map ActivationName (evaluateConditionalSkills skills (normalizeAndUniqueTouchedPaths workspace touched))) = skills_of_paths workspace skills touched"
proof -
  let ?r = "normalizeAndUniqueTouchedPaths workspace touched"
  have hit: "matching_paths ps ?r \<noteq> [] \<longleftrightarrow> (\<exists>p \<in> set ps. \<exists>g q. wildcardPatternToRegexp p = Some g \<and> q \<in> set ?r \<and> glob_match g (runes q))" for ps
  proof -
    have "matching_paths ps ?r \<noteq> [] \<longleftrightarrow> set (matching_paths ps ?r) \<noteq> {}" by simp
    then show ?thesis unfolding matching_paths_set by blast
  qed
  have "matching_paths [] ?r = []" by (simp add: matching_paths_def)
  have "matching_paths ps [] = []" for ps by (induction ps) (auto simp: matching_paths_def split: option.split)
  then have "set (map ActivationName (evaluateConditionalSkills skills r)) = {SkillName s |s. s \<in> set skills \<and> matching_paths (SkillPaths s) r \<noteq> []}"
    for r
  proof (cases "r = []")
    case False
    have "matching_paths [] r = []" by (simp add: matching_paths_def)
    then show ?thesis using False
      unfolding evaluateConditionalSkills_def by (auto simp: map_filter_def Let_def image_iff split: if_splits) metis
  qed (simp add: evaluateConditionalSkills_def)
  from this [of ?r] show ?thesis unfolding hit skills_of_paths_def .
qed

text \<open>C28. Recomputing makes exactly those conditional skills active in the session that have a pattern which matches one of the given
  paths. It reports what was added and what was removed, counts a change of the set and leaves every other session alone.\<close>

theorem recompute_exact:
  assumes "RecomputeSessionSkills workspace skills st key touched = (st', activated, deactivated)"
  shows "set (active_names st' key) = skills_of_paths workspace skills touched \<and>
    set activated = set (active_names st' key) - set (active_names st key) \<and>
    set deactivated = set (active_names st key) - set (active_names st' key) \<and>
    (SkillStateEpoch st' = (if set (active_names st' key) = set (active_names st key) then SkillStateEpoch st else Suc (SkillStateEpoch st))) \<and>
    (normalizeSkillSessionKey other \<noteq> normalizeSkillSessionKey key \<longrightarrow> active_names st' other = active_names st other)"
proof -
  let ?new = "dedup [] (map ActivationName (evaluateConditionalSkills skills (normalizeAndUniqueTouchedPaths workspace touched)))"
  have new: "active_names st' key = ?new" and a: "activated = sort (filter (\<lambda>n. n \<notin> set (active_names st key)) ?new)"
    and d: "deactivated = sort (filter (\<lambda>n. n \<notin> set ?new) (active_names st key))"
    and e: "SkillStateEpoch st' = (if activated \<noteq> [] \<or> deactivated \<noteq> [] then Suc (SkillStateEpoch st) else SkillStateEpoch st)"
    and o: "normalizeSkillSessionKey other \<noteq> normalizeSkillSessionKey key \<longrightarrow> active_names st' other = active_names st other"
    using assms by (auto simp: RecomputeSessionSkills_def active_names_def Let_def)
  have "set ?new = skills_of_paths workspace skills touched" using evaluated_names by (simp add: set_dedup)
  moreover have "set activated = set ?new - set (active_names st key)" "set deactivated = set (active_names st key) - set ?new"
    by (auto simp: a d)
  moreover have "activated = [] \<and> deactivated = [] \<longleftrightarrow> set ?new = set (active_names st key)"
    using calculation(2,3) by (metis Diff_eq_empty_iff set_empty subset_antisym subset_refl)
  ultimately show ?thesis using e o by (auto simp: new)
qed

definition demo_cond :: SkillInfo where
  "demo_cond = \<lparr>SkillName = ''go'', SkillPath = ''/s/go/SKILL.md'', SkillSource = ''global'', SkillDescription = ''Go rules'', SkillPaths = [''main.go'']\<rparr>"

theorem recompute_exact_witness:
  "set (active_names (fst (RecomputeSessionSkills ''/w'' [demo_cond] no_session_skills ''k'' [''/w/main.go''])) ''k'') = {''go''}"
proof -
  have "normalizeAndUniqueTouchedPaths ''/w'' [''/w/main.go''] = [''main.go'']" by code_simp
  moreover have "wildcardPatternToRegexp ''main.go'' \<noteq> None \<and> glob_match (the (wildcardPatternToRegexp ''main.go'')) (runes ''main.go'')" by code_simp
  ultimately have "skills_of_paths ''/w'' [demo_cond] [''/w/main.go''] = {''go''}"
    by (auto simp: skills_of_paths_def demo_cond_def)
  moreover obtain st' a d where "RecomputeSessionSkills ''/w'' [demo_cond] no_session_skills ''k'' [''/w/main.go''] = (st', a, d)" by (cases rule: prod_cases3)
  ultimately show ?thesis using recompute_exact by fastforce
qed

lemma turn_recompute_step:
  "turn_recompute workspace skills key st rounds =
     (let touched = foldl (\<lambda>t new. t @ dedup t new) [] rounds
      in fst (RecomputeSessionSkills workspace skills
           (fst (foldl (\<lambda>(st, t) new. (fst (RecomputeSessionSkills workspace skills st key (t @ dedup t new)), t @ dedup t new)) (st, []) rounds)) key touched))"
proof -
  have "snd (foldl (\<lambda>(st, t) new. (fst (RecomputeSessionSkills workspace skills st key (t @ dedup t new)), t @ dedup t new)) (st, t0) rounds) =
      foldl (\<lambda>t new. t @ dedup t new) t0 rounds" for t0
    by (induction rounds arbitrary: st t0) auto
  from this [of "[]"] show ?thesis by (simp add: turn_recompute_def Let_def split_beta)
qed

lemma touched_set: "set (foldl (\<lambda>t new. t @ dedup t new) t0 rounds) = set t0 \<union> \<Union> (set ` set rounds)"
  by (induction rounds arbitrary: t0) (auto simp: set_dedup)

lemma skills_of_paths_cong: "set xs = set ys \<Longrightarrow> skills_of_paths workspace skills xs = skills_of_paths workspace skills ys"
  by (auto simp: skills_of_paths_def normalizeAndUniqueTouchedPaths_def set_dedup map_filter_def)

text \<open>The conditional skills of a session last for one turn: after a turn the active ones are those of the paths that this turn
  touched, whatever was active before; a turn that touches no file leaves none.\<close>

theorem session_skills_forgotten:
  "set (active_names (turn_recompute workspace skills key st rounds) key) = skills_of_paths workspace skills (concat rounds) \<and>
   (concat rounds = [] \<longrightarrow> activatedSessionSkillInfos skills (turn_recompute workspace skills key st rounds) key = [])"
proof -
  let ?t = "foldl (\<lambda>t new. t @ dedup t new) [] rounds"
  obtain st1 where "turn_recompute workspace skills key st rounds = fst (RecomputeSessionSkills workspace skills st1 key ?t)"
    unfolding turn_recompute_step Let_def by blast
  moreover obtain st' a d where r: "RecomputeSessionSkills workspace skills st1 key ?t = (st', a, d)" by (cases rule: prod_cases3)
  moreover have "set ?t = set (concat rounds)" by (simp add: touched_set)
  ultimately have names: "set (active_names (turn_recompute workspace skills key st rounds) key) = skills_of_paths workspace skills (concat rounds)"
    using recompute_exact [OF r] skills_of_paths_cong by (metis fst_conv)
  moreover have "skills_of_paths workspace skills [] = {}"
    by (simp add: skills_of_paths_def normalizeAndUniqueTouchedPaths_def map_filter_def)
  ultimately show ?thesis by (simp add: activatedSessionSkillInfos_def del: concat_eq_Nil_conv)
qed

theorem session_skills_forgotten_witness:
  "activatedSessionSkillInfos [demo_cond] (turn_recompute ''/w'' [demo_cond] ''k''
     (turn_recompute ''/w'' [demo_cond] ''k'' no_session_skills [[''/w/main.go'']]) []) ''k'' = []"
  using session_skills_forgotten [of "''/w''" "[demo_cond]" "''k''" _ "[]"] by simp

end
