(* ===== verification/PromptCache.thy ===== *)
theory PromptCache
  imports Paths History
begin

text \<open>
  The cached system prompt of an agent (\<open>pkg/agent/context.go\<close>) and the memory that is part of it (\<open>memory.go\<close>). A world is
  the files with their contents and times, the folders and the current day. The identity text, the summary of the skill files
  (which depends on the counter and model that \<open>SetSkillsTokenCounter\<close> sets for its budget) and the way dates are written are
  arguments of a builder. Each operation sees one state of the world.
\<close>

section \<open>The world\<close>

type_synonym mtime = int

record world =
  WFiles :: "(string \<times> string \<times> mtime) list"
  WDirs :: "(string \<times> mtime) list"
  WDay :: int

record builder =
  BWorkspace :: string
  BRoots :: "string list"  \<comment> \<open>the roots of skills\<close>
  BIdentity :: string
  BSummary :: "string \<Rightarrow> (string \<Rightarrow> string option) \<Rightarrow> string"  \<comment> \<open>by the model of the token counter and the texts of the skills\<close>
  BDate :: "int \<Rightarrow> string"  \<comment> \<open>a day as \<open>YYYYMMDD\<close>\<close>

definition stat_time :: "world \<Rightarrow> string \<Rightarrow> mtime option" where
  "stat_time w p = (case map_of (WFiles w) p of Some (_, t) \<Rightarrow> Some t | None \<Rightarrow> map_of (WDirs w) p)"

definition read_text :: "world \<Rightarrow> string \<Rightarrow> string option" where
  "read_text w p = map_option fst (map_of (WFiles w) p)"

definition under_root :: "string \<Rightarrow> string \<Rightarrow> bool" where
  "under_root root p \<longleftrightarrow> HasPrefix p (root @ ''/'')"

section \<open>Memory\<close>

definition memory_file :: "builder \<Rightarrow> string" where
  "memory_file b = Join_paths (BWorkspace b) ''memory/MEMORY.md''"

definition note_file :: "builder \<Rightarrow> int \<Rightarrow> string" where
  "note_file b day = Join_paths (Join_paths (BWorkspace b) ''memory'') (take 6 (BDate b day) @ ''/'' @ BDate b day @ ''.md'')"

definition blank_line :: string where "blank_line = [CHR 0x0A, CHR 0x0A]"

definition GetRecentDailyNotes :: "builder \<Rightarrow> world \<Rightarrow> nat \<Rightarrow> string" where
  "GetRecentDailyNotes b w days =
     Join section_separator (List.map_filter (\<lambda>i. read_text w (note_file b (WDay w - int i))) [0..<days])"

definition ReadLongTerm :: "builder \<Rightarrow> world \<Rightarrow> string" where
  "ReadLongTerm b w = (case read_text w (memory_file b) of Some t \<Rightarrow> t | None \<Rightarrow> [])"

definition memory_text :: "string \<Rightarrow> string \<Rightarrow> string" where
  "memory_text longTerm recentNotes =
     (if longTerm = [] \<and> recentNotes = [] then []
      else
        (if longTerm \<noteq> [] then ''## Long-term Memory'' @ blank_line @ longTerm else []) @
        (if recentNotes \<noteq> [] then
           (if longTerm \<noteq> [] then section_separator else []) @ ''## Recent Daily Notes'' @ blank_line @ recentNotes
         else []))"

definition GetMemoryContext :: "builder \<Rightarrow> world \<Rightarrow> string" where
  "GetMemoryContext b w = memory_text (ReadLongTerm b w) (GetRecentDailyNotes b w 3)"

definition AppendToday :: "builder \<Rightarrow> string \<Rightarrow> mtime \<Rightarrow> world \<Rightarrow> string \<Rightarrow> world" where
  "AppendToday b header now w content =
     (let path = note_file b (WDay w);
          existing = (case read_text w path of Some t \<Rightarrow> t | None \<Rightarrow> []);
          new = (if existing = [] then ''# '' @ header @ blank_line @ content else existing @ CHR 0x0A # content)
      in w\<lparr>WFiles := assoc_put path (new, now) (WFiles w)\<rparr>)"

section \<open>The prompt\<close>

definition bootstrap_names :: "string list" where
  "bootstrap_names = [''AGENTS.md'', ''SOUL.md'', ''USER.md'', ''IDENTITY.md'']"

definition LoadBootstrapFiles :: "builder \<Rightarrow> world \<Rightarrow> string" where
  "LoadBootstrapFiles b w =
     concat (List.map_filter (\<lambda>n. map_option (\<lambda>text. ''## '' @ n @ blank_line @ text @ blank_line)
       (read_text w (Join_paths (BWorkspace b) n))) bootstrap_names)"

definition below_roots :: "builder \<Rightarrow> string \<Rightarrow> bool" where
  "below_roots b p \<longleftrightarrow> list_ex (\<lambda>r. under_root r p) (BRoots b)"

definition skill_texts :: "builder \<Rightarrow> world \<Rightarrow> string \<Rightarrow> string option" where
  "skill_texts b w = (\<lambda>p. if below_roots b p then read_text w p else None)"

definition dynamic_boundary :: string where
  "dynamic_boundary = ''__SYSTEM_PROMPT_DYNAMIC_BOUNDARY__''"

definition prompt_sections :: "builder \<Rightarrow> string \<Rightarrow> string \<Rightarrow> string \<Rightarrow> string" where
  "prompt_sections b bootstrap skills memory =
     Join section_separator
       ([BIdentity b] @ (if bootstrap \<noteq> [] then [bootstrap] else []) @
        (if skills \<noteq> [] then
           [''# Skills'' @ blank_line @
            ''The following skills extend your capabilities. To use a skill, read its SKILL.md file using the read_file tool.'' @
            blank_line @ skills] else []) @
        (if memory \<noteq> [] then [''# Memory'' @ blank_line @ memory] else []) @ [dynamic_boundary])"

text \<open>\<open>counter\<close> is the model of the token counter that is set.\<close>

definition BuildSystemPrompt :: "builder \<Rightarrow> string \<Rightarrow> world \<Rightarrow> string" where
  "BuildSystemPrompt b counter w =
     prompt_sections b (LoadBootstrapFiles b w) (BSummary b counter (skill_texts b w)) (GetMemoryContext b w)"

section \<open>The cache\<close>

record prompt_cache =
  CachedPrompt :: string
  CachedAt :: "mtime option"  \<comment> \<open>\<open>None\<close>: the zero time\<close>
  ExistedAt :: "(string \<times> bool) list option"
  SkillFilesAt :: "(string \<times> mtime) list option"
  InvalidationEpoch :: nat

definition empty_cache :: prompt_cache where
  "empty_cache = \<lparr>CachedPrompt = [], CachedAt = None, ExistedAt = None, SkillFilesAt = None, InvalidationEpoch = 0\<rparr>"

definition InvalidateCache :: "prompt_cache \<Rightarrow> prompt_cache" where
  "InvalidateCache c =
     c\<lparr>CachedPrompt := [], CachedAt := None, ExistedAt := None, SkillFilesAt := None, InvalidationEpoch := Suc (InvalidationEpoch c)\<rparr>"

definition sourcePaths :: "builder \<Rightarrow> string list" where
  "sourcePaths b = map (Join_paths (BWorkspace b)) bootstrap_names @ [memory_file b]"

definition walk_skills :: "builder \<Rightarrow> world \<Rightarrow> (string \<times> mtime) list" where
  "walk_skills b w = map (\<lambda>(p, text, t). (p, t)) (filter (\<lambda>e. below_roots b (fst e)) (WFiles w))"

text \<open>The latest of some times; the second after 1970 began where there are none.\<close>

definition latest :: "mtime list \<Rightarrow> mtime" where
  "latest ts = (case ts of [] \<Rightarrow> 1 | t # r \<Rightarrow> fold max r t)"

record cache_baseline =
  BaseExisted :: "(string \<times> bool) list"
  BaseSkills :: "(string \<times> mtime) list"
  BaseTime :: mtime

definition buildCacheBaseline :: "builder \<Rightarrow> world \<Rightarrow> cache_baseline" where
  "buildCacheBaseline b w =
     (let allPaths = sourcePaths b @ BRoots b
      in \<lparr>BaseExisted = map (\<lambda>p. (p, stat_time w p \<noteq> None)) allPaths, BaseSkills = walk_skills b w,
          BaseTime = latest (List.map_filter (stat_time w) allPaths @ map snd (walk_skills b w))\<rparr>)"

definition fileChangedSince :: "prompt_cache \<Rightarrow> world \<Rightarrow> string \<Rightarrow> bool" where
  "fileChangedSince c w path =
     (case ExistedAt c of
        None \<Rightarrow> True
      | Some existed \<Rightarrow>
          if (map_of existed path = Some True) \<noteq> (stat_time w path \<noteq> None) then True
          else (case stat_time w path of None \<Rightarrow> False | Some t \<Rightarrow> (case CachedAt c of None \<Rightarrow> True | Some m \<Rightarrow> m < t)))"

definition skillFilesChangedSince :: "builder \<Rightarrow> world \<Rightarrow> (string \<times> mtime) list option \<Rightarrow> bool" where
  "skillFilesChangedSince b w filesAtCache =
     (case filesAtCache of
        None \<Rightarrow> True
      | Some old \<Rightarrow> list_ex (\<lambda>(p, t). stat_time w p \<noteq> Some t) old \<or> list_ex (\<lambda>(p, t). map_of old p = None) (walk_skills b w))"

definition sourceFilesChanged :: "builder \<Rightarrow> prompt_cache \<Rightarrow> world \<Rightarrow> bool" where
  "sourceFilesChanged b c w \<longleftrightarrow>
     CachedAt c = None \<or> list_ex (fileChangedSince c w) (sourcePaths b) \<or> list_ex (fileChangedSince c w) (BRoots b) \<or>
     skillFilesChangedSince b w (SkillFilesAt c)"

definition BuildSystemPromptWithCache :: "builder \<Rightarrow> string \<Rightarrow> world \<Rightarrow> prompt_cache \<Rightarrow> prompt_cache \<times> string" where
  "BuildSystemPromptWithCache b counter w c =
     (if CachedPrompt c \<noteq> [] \<and> \<not> sourceFilesChanged b c w then (c, CachedPrompt c)
      else
        let baseline = buildCacheBaseline b w; prompt = BuildSystemPrompt b counter w
        in (c\<lparr>CachedPrompt := prompt, CachedAt := Some (BaseTime baseline), ExistedAt := Some (BaseExisted baseline),
              SkillFilesAt := Some (BaseSkills baseline)\<rparr>, prompt))"

section \<open>The cache is current as long as times move on\<close>

text \<open>What happens between two prompts: files are written and folders made or changed at the current time, both are removed (neither
  takes the place of the other), the day changes, another model is set for the token counter.\<close>

datatype world_op = WriteFile string string | RemoveFile string | TouchDir string | RemoveDir string | DayPasses | SetCounter string | Build | Invalidate

record prompt_state =
  PWorld :: world
  PCounter :: string
  PCache :: prompt_cache
  PClock :: mtime

definition prompt_op :: "builder \<Rightarrow> prompt_state \<Rightarrow> world_op \<Rightarrow> prompt_state" where
  "prompt_op b s op =
     (case op of
        WriteFile p body \<Rightarrow>
          if map_of (WDirs (PWorld s)) p \<noteq> None then s
          else s\<lparr>PClock := PClock s + 1, PWorld := (PWorld s)\<lparr>WFiles := assoc_put p (body, PClock s + 1) (WFiles (PWorld s))\<rparr>\<rparr>
      | RemoveFile p \<Rightarrow> s\<lparr>PWorld := (PWorld s)\<lparr>WFiles := assoc_del p (WFiles (PWorld s))\<rparr>\<rparr>
      | TouchDir p \<Rightarrow>
          if map_of (WFiles (PWorld s)) p \<noteq> None then s
          else s\<lparr>PClock := PClock s + 1, PWorld := (PWorld s)\<lparr>WDirs := assoc_put p (PClock s + 1) (WDirs (PWorld s))\<rparr>\<rparr>
      | RemoveDir p \<Rightarrow> s\<lparr>PWorld := (PWorld s)\<lparr>WDirs := assoc_del p (WDirs (PWorld s))\<rparr>\<rparr>
      | DayPasses \<Rightarrow> s\<lparr>PWorld := (PWorld s)\<lparr>WDay := WDay (PWorld s) + 1\<rparr>\<rparr>
      | SetCounter model \<Rightarrow> s\<lparr>PCounter := TrimSpace model\<rparr>
      | Invalidate \<Rightarrow> s\<lparr>PCache := InvalidateCache (PCache s)\<rparr>
      | Build \<Rightarrow> s\<lparr>PCache := fst (BuildSystemPromptWithCache b (PCounter s) (PWorld s) (PCache s))\<rparr>)"

definition prompt_run :: "builder \<Rightarrow> prompt_state \<Rightarrow> world_op list \<Rightarrow> prompt_state" where
  "prompt_run b s ops = foldl (prompt_op b) s ops"

text \<open>A file or folder of a world is one of an earlier world or newer than all that was there.\<close>

definition later_world :: "mtime \<Rightarrow> world \<Rightarrow> world \<Rightarrow> bool" where
  "later_world m w0 w \<longleftrightarrow> (\<forall>p t. map_of (WDirs w) p = Some t \<longrightarrow> map_of (WDirs w0) p = Some t \<or> m < t) \<and>
     (\<forall>p body t. map_of (WFiles w) p = Some (body, t) \<longrightarrow> map_of (WFiles w0) p = Some (body, t) \<or> m < t)"

definition times_ok :: "mtime \<Rightarrow> world \<Rightarrow> bool" where
  "times_ok m w \<longleftrightarrow> 1 \<le> m \<and> (\<forall>p body t. map_of (WFiles w) p = Some (body, t) \<longrightarrow> t \<le> m) \<and>
     (\<forall>p t. map_of (WDirs w) p = Some t \<longrightarrow> t \<le> m) \<and> distinct (map fst (WFiles w))"

text \<open>The prompt of a world but for the daily notes and the counter's model, which are given.\<close>

definition prompt_with :: "builder \<Rightarrow> string \<Rightarrow> string \<Rightarrow> world \<Rightarrow> string" where
  "prompt_with b counter notes w =
     prompt_sections b (LoadBootstrapFiles b w) (BSummary b counter (skill_texts b w)) (memory_text (ReadLongTerm b w) notes)"

lemma prompt_with_now: "prompt_with b counter (GetRecentDailyNotes b w 3) w = BuildSystemPrompt b counter w"
  by (simp add: prompt_with_def BuildSystemPrompt_def GetMemoryContext_def)

lemma latest_bound: "(\<forall>t \<in> set ts. t \<le> m) \<Longrightarrow> 1 \<le> m \<Longrightarrow> latest ts \<le> m"
proof -
  have "fold max r t \<le> m" if "t \<le> m" "\<forall>x \<in> set r. x \<le> m" for r and t :: mtime
    using that by (induction r arbitrary: t) auto
  then show "(\<forall>t \<in> set ts. t \<le> m) \<Longrightarrow> 1 \<le> m \<Longrightarrow> latest ts \<le> m" by (auto simp: latest_def split: list.split)
qed

lemma latest_upper: "t \<in> set ts \<Longrightarrow> t \<le> latest ts"
proof -
  have "t0 \<le> fold max r t0 \<and> (\<forall>x \<in> set r. x \<le> fold max r t0)" for r and t0 :: mtime
    by (induction r arbitrary: t0) (auto, (meson max.boundedE order_trans)+)
  then show "t \<in> set ts \<Longrightarrow> t \<le> latest ts" by (cases ts) (auto simp: latest_def)
qed

definition dirs_ok :: "world \<Rightarrow> bool" where
  "dirs_ok w \<longleftrightarrow> (\<forall>p. map_of (WDirs w) p = None \<or> map_of (WFiles w) p = None)"

definition cached_of :: "builder \<Rightarrow> string \<Rightarrow> world \<Rightarrow> prompt_cache \<Rightarrow> bool" where
  "cached_of b counter w0 c \<longleftrightarrow> CachedPrompt c = BuildSystemPrompt b counter w0 \<and> CachedAt c = Some (BaseTime (buildCacheBaseline b w0)) \<and>
     ExistedAt c = Some (BaseExisted (buildCacheBaseline b w0)) \<and> SkillFilesAt c = Some (walk_skills b w0)"

lemma map_of_keys: "p \<in> set ps \<Longrightarrow> map_of (map (\<lambda>p. (p, f p)) (ps @ qs)) p = Some (f p)"
  by (induction ps) auto

lemma walk_lookup: "distinct (map fst (WFiles w)) \<Longrightarrow> (p, t) \<in> set (walk_skills b w) \<longleftrightarrow> below_roots b p \<and> (\<exists>body. map_of (WFiles w) p = Some (body, t))"
  by (force simp: walk_skills_def)

lemma times_file: "times_ok m w \<Longrightarrow> map_of (WFiles w) p = Some (body, t) \<Longrightarrow> t \<le> m"
  unfolding times_ok_def by blast

lemma times_stat: "times_ok m w \<Longrightarrow> stat_time w p = Some t \<Longrightarrow> t \<le> m"
  unfolding times_ok_def stat_time_def by (auto simp del: map_of_eq_Some_iff split: option.splits)

lemma base_time_bound: "times_ok m w \<Longrightarrow> BaseTime (buildCacheBaseline b w) \<le> m"
proof -
  assume ok: "times_ok m w"
  have "t \<le> m" if "(p, t) \<in> set (walk_skills b w)" for p t
  proof -
    from that ok obtain body where "map_of (WFiles w) p = Some (body, t)" using walk_lookup [of w p t b] by (auto simp: times_ok_def)
    with ok show ?thesis by (rule times_file)
  qed
  then show ?thesis
    using times_stat [OF ok] ok by (auto simp: buildCacheBaseline_def Let_def map_filter_def times_ok_def intro!: latest_bound)
qed

lemma source_unchanged:
  assumes "cached_of b counter w0 c" and "times_ok m w0" and "later_world m w0 w" and "dirs_ok w" and "dirs_ok w0"
    and p: "p \<in> set (sourcePaths b)" and "\<not> fileChangedSince c w p"
  shows "read_text w p = read_text w0 p"
proof -
  have "map_of (BaseExisted (buildCacheBaseline b w0)) p = Some (stat_time w0 p \<noteq> None)"
    using p by (simp only: buildCacheBaseline_def Let_def cache_baseline.simps map_of_keys)
  then have exist: "stat_time w0 p \<noteq> None \<longleftrightarrow> stat_time w p \<noteq> None" and old: "\<And>t. stat_time w p = Some t \<Longrightarrow> t \<le> m"
    using assms(1,7) base_time_bound [OF assms(2), of b] by (auto simp: fileChangedSince_def cached_of_def split: if_splits option.splits)
  show ?thesis
  proof (cases "map_of (WFiles w) p")
    case None
    have "map_of (WFiles w0) p = None"
    proof (rule ccontr)
      assume is_file: "map_of (WFiles w0) p \<noteq> None"
      then have "stat_time w p \<noteq> None" using exist by (auto simp: stat_time_def split: option.splits)
      then obtain t where t: "map_of (WDirs w) p = Some t" "t \<le> m" using None old by (auto simp: stat_time_def)
      with assms(3) have "map_of (WDirs w0) p = Some t" by (force simp: later_world_def)
      with assms(5) is_file show False unfolding dirs_ok_def by (metis option.distinct(1))
    qed
    with None show ?thesis by (simp add: read_text_def)
  next
    case (Some e)
    obtain body t where e: "e = (body, t)" by fastforce
    with Some old [of t] assms(3) have "map_of (WFiles w0) p = Some (body, t)" by (force simp: later_world_def stat_time_def)
    with Some e show ?thesis by (simp add: read_text_def)
  qed
qed

lemma skills_unchanged:
  assumes "times_ok m w0" and "later_world m w0 w" and "dirs_ok w0" and "distinct (map fst (WFiles w))"
    and "\<not> skillFilesChangedSince b w (Some (walk_skills b w0))"
  shows "skill_texts b w = skill_texts b w0"
proof
  fix p
  have d0: "distinct (map fst (WFiles w0))" using assms(1) by (simp add: times_ok_def)
  have same: "stat_time w q = Some t" if "(q, t) \<in> set (walk_skills b w0)" for q t
    using that assms(5) by (auto simp: skillFilesChangedSince_def list_ex_iff)
  have known: "map_of (walk_skills b w0) q \<noteq> None" if "(q, t) \<in> set (walk_skills b w)" for q t
    using that assms(5) by (auto simp: skillFilesChangedSince_def list_ex_iff)
  show "skill_texts b w p = skill_texts b w0 p"
  proof (cases "below_roots b p")
    case True
    show ?thesis
    proof (cases "map_of (WFiles w0) p")
      case None
      then have "map_of (walk_skills b w0) p = None" by (auto simp: walk_skills_def map_of_eq_None_iff image_iff)
      then have "(p, t) \<notin> set (walk_skills b w)" for t using known by blast
      then have "map_of (WFiles w) p = None" using walk_lookup [OF assms(4), of p _ b] True by (cases "map_of (WFiles w) p") auto
      with None show ?thesis by (simp add: skill_texts_def read_text_def)
    next
      case (Some e)
      obtain body t where e: "e = (body, t)" by fastforce
      with Some True have "(p, t) \<in> set (walk_skills b w0)" using walk_lookup [OF d0] by blast
      then have "stat_time w p = Some t" by (rule same)
      moreover have tm: "t \<le> m" using times_file [OF assms(1)] Some e by blast
      moreover have "map_of (WDirs w) p \<noteq> Some t"
      proof
        assume "map_of (WDirs w) p = Some t"
        with assms(2) tm have "map_of (WDirs w0) p = Some t" by (force simp: later_world_def)
        with assms(3) Some show False unfolding dirs_ok_def by (metis option.distinct(1))
      qed
      ultimately obtain body2 where current: "map_of (WFiles w) p = Some (body2, t)"
        by (auto simp: stat_time_def split: option.splits)
      with tm have "map_of (WFiles w0) p = Some (body2, t)" using assms(2) by (force simp: later_world_def)
      with Some e current show ?thesis by (simp add: skill_texts_def read_text_def)
    qed
  qed (simp add: skill_texts_def)
qed

lemma unchanged_prompt:
  assumes "cached_of b counter w0 c" and "times_ok m w0" and "later_world m w0 w" and "dirs_ok w" and "dirs_ok w0" and "distinct (map fst (WFiles w))"
    and "\<not> sourceFilesChanged b c w"
  shows "CachedPrompt c = prompt_with b counter (GetRecentDailyNotes b w0 3) w"
proof -
  have source: "read_text w p = read_text w0 p" if "p \<in> set (sourcePaths b)" for p
    using source_unchanged [OF assms(1-5) that] that assms(7) by (auto simp: sourceFilesChanged_def list_ex_iff)
  then have "LoadBootstrapFiles b w = LoadBootstrapFiles b w0"
    by (simp add: LoadBootstrapFiles_def sourcePaths_def bootstrap_names_def map_filter_def)
  moreover have "skill_texts b w = skill_texts b w0"
    using skills_unchanged [OF assms(2,3,5,6)] assms(1,7) by (simp add: sourceFilesChanged_def cached_of_def)
  moreover have "ReadLongTerm b w = ReadLongTerm b w0"
    using source [of "memory_file b"] by (simp add: ReadLongTerm_def sourcePaths_def)
  ultimately show ?thesis using assms(1) by (simp add: cached_of_def BuildSystemPrompt_def prompt_with_def GetMemoryContext_def)
qed

text \<open>The cache was filled at an earlier moment of the run.\<close>

definition filled_at :: "builder \<Rightarrow> prompt_state \<Rightarrow> prompt_state \<Rightarrow> bool" where
  "filled_at b t s \<longleftrightarrow> cached_of b (PCounter t) (PWorld t) (PCache s) \<and> PClock t \<le> PClock s \<and> times_ok (PClock t) (PWorld t) \<and>
     dirs_ok (PWorld t) \<and> later_world (PClock t) (PWorld t) (PWorld s)"

lemma later_refl: "later_world m w w"
  by (simp add: later_world_def)

lemma times_put: "times_ok m w \<Longrightarrow> times_ok (m + 1) (w\<lparr>WFiles := assoc_put p (body, m + 1) (WFiles w)\<rparr>)"
  unfolding times_ok_def by (auto simp del: map_of_eq_Some_iff) (metis add.commute zle_add1_eq_le less_imp_le order_trans zless_add1_eq le_less)+

lemma times_del: "times_ok m w \<Longrightarrow> times_ok m (w\<lparr>WFiles := assoc_del p (WFiles w)\<rparr>)"
  unfolding times_ok_def by (simp add: map_of_assoc_del del: map_of_eq_Some_iff)

lemma later_put: "later_world m w0 w \<Longrightarrow> m < t \<Longrightarrow> later_world m w0 (w\<lparr>WFiles := assoc_put p (body, t) (WFiles w)\<rparr>)"
  "later_world m w0 w \<Longrightarrow> m < t \<Longrightarrow> later_world m w0 (w\<lparr>WDirs := assoc_put p t (WDirs w)\<rparr>)"
  by (auto simp: later_world_def)

lemma later_del: "later_world m w0 w \<Longrightarrow> later_world m w0 (w\<lparr>WFiles := assoc_del p (WFiles w)\<rparr>)"
  "later_world m w0 w \<Longrightarrow> later_world m w0 (w\<lparr>WDirs := assoc_del p (WDirs w)\<rparr>)"
  by (auto simp: later_world_def map_of_assoc_del split: if_splits)

lemma times_dir: "times_ok m w \<Longrightarrow> times_ok (m + 1) (w\<lparr>WDirs := assoc_put p (m + 1) (WDirs w)\<rparr>)"
  "times_ok m w \<Longrightarrow> times_ok m (w\<lparr>WDirs := assoc_del p (WDirs w)\<rparr>)"
  unfolding times_ok_def by (auto simp: map_of_assoc_del simp del: map_of_eq_Some_iff) (metis zle_add1_eq_le less_imp_le order_trans le_less)+

lemma frame_day [simp]: "dirs_ok (w\<lparr>WDay := d\<rparr>) = dirs_ok w" "times_ok m (w\<lparr>WDay := d\<rparr>) = times_ok m w"
  "later_world m w0 (w\<lparr>WDay := d\<rparr>) = later_world m w0 w"
  by (simp_all add: dirs_ok_def times_ok_def later_world_def)

lemma dirs_op: "dirs_ok (PWorld s) \<Longrightarrow> dirs_ok (PWorld (prompt_op b s op))"
  by (cases op) (auto simp: prompt_op_def dirs_ok_def map_of_assoc_del simp del: not_None_eq)

lemma state_ok:
  assumes "times_ok (PClock s) (PWorld s)" and "dirs_ok (PWorld s)"
  shows "times_ok (PClock (prompt_op b s op)) (PWorld (prompt_op b s op)) \<and> dirs_ok (PWorld (prompt_op b s op))"
  using dirs_op [OF assms(2), of b op] times_put [OF assms(1)] times_del [OF assms(1)] times_dir [OF assms(1)] assms by (cases op) (auto simp: prompt_op_def split del: if_split split: if_splits)

lemma filled_stays:
  assumes "filled_at b t s" and "op \<noteq> Invalidate" and "op \<noteq> Build"
  shows "filled_at b t (prompt_op b s op)"
  using assms by (cases op) (auto simp: filled_at_def prompt_op_def intro: later_put later_del)

lemma cached_build:
  assumes "\<not> (CachedPrompt c \<noteq> [] \<and> \<not> sourceFilesChanged b c w)" and "BuildSystemPromptWithCache b counter w c = (c', prompt)"
  shows "cached_of b counter w c' \<and> prompt = BuildSystemPrompt b counter w"
proof -
  have c': "c' = c\<lparr>CachedPrompt := BuildSystemPrompt b counter w, CachedAt := Some (BaseTime (buildCacheBaseline b w)),
      ExistedAt := Some (BaseExisted (buildCacheBaseline b w)), SkillFilesAt := Some (BaseSkills (buildCacheBaseline b w))\<rparr>"
    and p: "prompt = BuildSystemPrompt b counter w"
    using assms by (auto simp: BuildSystemPromptWithCache_def Let_def)
  have "BaseSkills (buildCacheBaseline b w) = walk_skills b w" by (simp add: buildCacheBaseline_def Let_def)
  with c' p show ?thesis by (simp add: cached_of_def)
qed

lemma prompt_run_snoc [simp]: "prompt_run b s [] = s" "prompt_run b s (ops @ [op]) = prompt_op b (prompt_run b s ops) op"
  by (simp_all add: prompt_run_def)

definition prompt_start :: "world \<Rightarrow> string \<Rightarrow> mtime \<Rightarrow> prompt_state" where
  "prompt_start w counter now = \<lparr>PWorld = w, PCounter = counter, PCache = empty_cache, PClock = now\<rparr>"

text \<open>At every moment of a run the cache is empty or was filled by a \<open>Build\<close> since the last invalidation.\<close>

lemma prompt_inv:
  assumes "times_ok now w" and "dirs_ok w" and "s = prompt_run b (prompt_start w counter now) ops"
  shows "times_ok (PClock s) (PWorld s) \<and> dirs_ok (PWorld s) \<and>
    (CachedPrompt (PCache s) = [] \<or>
      (\<exists>pre post. ops = pre @ Build # post \<and> Invalidate \<notin> set post \<and> filled_at b (prompt_run b (prompt_start w counter now) pre) s))"
  using assms(3)
proof (induction ops arbitrary: s rule: rev_induct)
  case Nil
  with assms(1,2) show ?case by (simp add: prompt_start_def empty_cache_def)
next
  case (snoc op ops)
  let ?run = "prompt_run b (prompt_start w counter now)"
  let ?s = "?run ops"
  note ih = snoc.IH [OF refl]
  have s: "s = prompt_op b ?s op" using snoc.prems by simp
  have ok: "times_ok (PClock s) (PWorld s)" "dirs_ok (PWorld s)" using ih state_ok [of ?s b op] by (auto simp: s)
  have "CachedPrompt (PCache s) = [] \<or> (\<exists>pre post. ops @ [op] = pre @ Build # post \<and> Invalidate \<notin> set post \<and> filled_at b (?run pre) s)"
  proof (cases "op = Invalidate")
    case True
    then show ?thesis by (simp add: s prompt_op_def InvalidateCache_def)
  next
    case noinv: False
    show ?thesis
    proof (cases "op = Build \<and> \<not> (CachedPrompt (PCache ?s) \<noteq> [] \<and> \<not> sourceFilesChanged b (PCache ?s) (PWorld ?s))")
      case True
      then have "cached_of b (PCounter ?s) (PWorld ?s) (PCache s)"
        using cached_build [of "PCache ?s" b "PWorld ?s" "PCounter ?s"] by (auto simp: s prompt_op_def prod_eq_iff)
      then have "filled_at b ?s s" using True ih by (auto simp: filled_at_def s prompt_op_def later_refl)
      with True show ?thesis by (intro disjI2 exI [of _ ops] exI [of _ "[]"]) simp
    next
      case False
      have keep: "PCache s = PCache ?s \<and> (filled_at b t ?s \<longrightarrow> filled_at b t s)" for t
        using False noinv filled_stays [of b t ?s op]
        by (cases op) (auto simp: s prompt_op_def filled_at_def BuildSystemPromptWithCache_def)
      show ?thesis
      proof (cases "CachedPrompt (PCache ?s) = []")
        case True
        with keep show ?thesis by simp
      next
        case full: False
        with ih obtain pre post where pp: "ops = pre @ Build # post" "Invalidate \<notin> set post" "filled_at b (?run pre) ?s" by blast
        then have "ops @ [op] = pre @ Build # (post @ [op])" "Invalidate \<notin> set (post @ [op])" "filled_at b (?run pre) s"
          using keep noinv by auto
        then show ?thesis by blast
      qed
    qed
  qed
  with ok show ?case by blast
qed

text \<open>C16. The cached prompt is current but for the daily notes and the token counter. From a world without times later than now in
  which no path is a file and a folder, and whatever files were written or removed, folders made,
  changed or removed, however days passed, counters were set, prompts were built and the cache invalidated, as long as every file that is written and every folder
  that changes gets a time after all earlier ones: the prompt that the cache gives is the one that building it now would give with the daily notes and the counter's
  model taken from a moment \<open>t\<close> of the run, where \<open>t\<close> is now or the moment of an earlier build since which the cache was not
  invalidated. So with the same notes and the same counter at \<open>t\<close> it is the current prompt, and bootstrap files, skills and the
  long-term memory are current always; notes that are written, days that pass and another counter are not noticed by themselves.\<close>

theorem cached_prompt_current:
  assumes "times_ok now w" and "dirs_ok w" and "run = prompt_run b (prompt_start w counter now)"
    and "BuildSystemPromptWithCache b (PCounter (run ops)) (PWorld (run ops)) (PCache (run ops)) = (c, prompt)"
  shows "\<exists>pre post. ops = pre @ post \<and> (post = [] \<or> hd post = Build) \<and> Invalidate \<notin> set post \<and>
    prompt = prompt_with b (PCounter (run pre)) (GetRecentDailyNotes b (PWorld (run pre)) 3) (PWorld (run ops)) \<and>
    (PCounter (run pre) = PCounter (run ops) \<and> GetRecentDailyNotes b (PWorld (run pre)) 3 = GetRecentDailyNotes b (PWorld (run ops)) 3 \<longrightarrow>
      prompt = BuildSystemPrompt b (PCounter (run ops)) (PWorld (run ops)))"
proof -
  let ?s = "run ops"
  have inv: "times_ok (PClock ?s) (PWorld ?s)" "dirs_ok (PWorld ?s)" "CachedPrompt (PCache ?s) = [] \<or>
      (\<exists>pre post. ops = pre @ Build # post \<and> Invalidate \<notin> set post \<and> filled_at b (run pre) ?s)"
    using prompt_inv [OF assms(1,2) refl, of b counter ops] unfolding assms(3) by blast+
  have "\<exists>pre post. ops = pre @ post \<and> (post = [] \<or> hd post = Build) \<and> Invalidate \<notin> set post \<and>
    prompt = prompt_with b (PCounter (run pre)) (GetRecentDailyNotes b (PWorld (run pre)) 3) (PWorld ?s)"
  proof (cases "CachedPrompt (PCache ?s) \<noteq> [] \<and> \<not> sourceFilesChanged b (PCache ?s) (PWorld ?s)")
    case True
    with inv(3) obtain pre post where pp: "ops = pre @ Build # post" "Invalidate \<notin> set post" "filled_at b (run pre) ?s" by blast
    have "distinct (map fst (WFiles (PWorld ?s)))" using inv(1) by (simp add: times_ok_def)
    then have "CachedPrompt (PCache ?s) = prompt_with b (PCounter (run pre)) (GetRecentDailyNotes b (PWorld (run pre)) 3) (PWorld ?s)"
      using unchanged_prompt [of b "PCounter (run pre)" "PWorld (run pre)" "PCache ?s" "PClock (run pre)" "PWorld ?s"] pp(3) inv(2) True
      by (simp add: filled_at_def)
    moreover have "prompt = CachedPrompt (PCache ?s)" using assms(4) True by (auto simp: BuildSystemPromptWithCache_def)
    ultimately show ?thesis using pp by (intro exI [of _ pre] exI [of _ "Build # post"]) simp
  next
    case False
    from cached_build [OF False assms(4)] show ?thesis by (intro exI [of _ ops] exI [of _ "[]"]) (simp add: prompt_with_now)
  qed
  then show ?thesis using prompt_with_now by metis
qed

definition demo_builder :: builder where
  "demo_builder = \<lparr>BWorkspace = ''/w'', BRoots = [''/w/skills''], BIdentity = ''I am'', BSummary = (\<lambda>counter f. case f ''/w/skills/a/SKILL.md'' of Some t \<Rightarrow> t | None \<Rightarrow> []),
     BDate = (\<lambda>d. ''20260203'')\<rparr>"

definition demo_world :: world where
  "demo_world = \<lparr>WFiles = [(''/w/SOUL.md'', ''kind'', 5), (''/w/skills/a/SKILL.md'', ''skill a'', 7)], WDirs = [(''/w/skills'', 6), (''/w/skills/a'', 7)], WDay = 3\<rparr>"

lemma demo_paths: "sourcePaths demo_builder = [''/w/AGENTS.md'', ''/w/SOUL.md'', ''/w/USER.md'', ''/w/IDENTITY.md'', ''/w/memory/MEMORY.md'']"
  "\<not> below_roots demo_builder ''/w/skills''" "\<not> below_roots demo_builder ''/w/memory/202602/20260203.md''"
  by code_simp+

lemma demo_world_ok: "times_ok 7 demo_world" "dirs_ok demo_world"
  by (simp_all add: times_ok_def demo_world_def dirs_ok_def)

theorem cached_prompt_current_witness:
  "\<exists>ops c prompt. ops = [Build, WriteFile ''/w/SOUL.md'' ''stern'', Build, RemoveFile ''/w/skills/a/SKILL.md'', SetCounter ''m'', DayPasses] \<and>
     (let s = prompt_run demo_builder (prompt_start demo_world ''m'' 7) ops in
      BuildSystemPromptWithCache demo_builder (PCounter s) (PWorld s) (PCache s) = (c, prompt) \<and>
      (\<exists>notes. prompt = prompt_with demo_builder ''m'' notes (PWorld s)))"
proof -
  let ?run = "prompt_run demo_builder (prompt_start demo_world ''m'' 7)"
  let ?ops = "[Build, WriteFile ''/w/SOUL.md'' ''stern'', Build, RemoveFile ''/w/skills/a/SKILL.md'', SetCounter ''m'', DayPasses]"
  obtain c prompt where b: "BuildSystemPromptWithCache demo_builder (PCounter (?run ?ops)) (PWorld (?run ?ops)) (PCache (?run ?ops)) = (c, prompt)"
    by fastforce
  have trim: "TrimSpace ''m'' = ''m''" by code_simp
  have counter: "PCounter (?run ops) = ''m''" if "set ops \<subseteq> set ?ops" for ops
    using that trim by (induction ops rule: rev_induct) (auto simp: prompt_start_def prompt_op_def)
  from cached_prompt_current [OF demo_world_ok refl b] obtain pre post where
    p: "?ops = pre @ post" "prompt = prompt_with demo_builder (PCounter (?run pre)) (GetRecentDailyNotes demo_builder (PWorld (?run pre)) 3) (PWorld (?run ?ops))"
    by blast
  have "set pre \<subseteq> set ?ops" unfolding p(1) by simp
  then have "prompt = prompt_with demo_builder ''m'' (GetRecentDailyNotes demo_builder (PWorld (?run pre)) 3) (PWorld (?run ?ops))"
    using p(2) counter by simp
  with b show ?thesis unfolding Let_def by blast
qed

lemma Join_nonempty: "y \<noteq> [] \<Longrightarrow> Join sep (xs @ [y]) \<noteq> []"
proof (induction xs)
  case (Cons x xs)
  then show ?case by (cases xs) auto
qed simp

lemma prompt_nonempty: "BuildSystemPrompt b counter w \<noteq> []"
  unfolding BuildSystemPrompt_def prompt_sections_def append_assoc [symmetric] by (rule Join_nonempty) (simp add: dynamic_boundary_def)

lemma first_prompt:
  assumes "BuildSystemPromptWithCache b counter w empty_cache = (c, prompt)"
  shows "prompt \<noteq> []" and "CachedAt c = Some (BaseTime (buildCacheBaseline b w))"
    and "ExistedAt c = Some (BaseExisted (buildCacheBaseline b w))" and "SkillFilesAt c = Some (walk_skills b w)"
  using assms prompt_nonempty [of b counter w] by (auto simp: BuildSystemPromptWithCache_def empty_cache_def Let_def buildCacheBaseline_def)

lemma same_skill_files:
  assumes "\<And>q u. (q, u) \<in> set (walk_skills b w) \<Longrightarrow> stat_time w' q = stat_time w q"
    and "set (walk_skills b w') = set (walk_skills b w)"
  shows "skillFilesChangedSince b w' (Some (walk_skills b w)) = skillFilesChangedSince b w (Some (walk_skills b w))"
proof -
  have "list_ex (\<lambda>(q, u). stat_time w' q \<noteq> Some u) (walk_skills b w) = list_ex (\<lambda>(q, u). stat_time w q \<noteq> Some u) (walk_skills b w)"
    unfolding list_ex_iff by (rule bex_cong [OF refl]) (use assms(1) in \<open>auto split: prod.split\<close>)
  moreover have "list_ex Q (walk_skills b w') = list_ex Q (walk_skills b w)" for Q
    unfolding list_ex_iff assms(2) ..
  ultimately show ?thesis by (simp only: skillFilesChangedSince_def option.case)
qed

lemma repeat_build:
  assumes "BuildSystemPromptWithCache b counter w empty_cache = (c, prompt)" and "\<not> sourceFilesChanged b c w'" and "prompt \<noteq> []"
  shows "BuildSystemPromptWithCache b counter' w' c = (c, prompt)"
  using assms by (auto simp: BuildSystemPromptWithCache_def empty_cache_def Let_def)

lemma map_filter_member: "p \<in> set ps \<Longrightarrow> f p = Some t \<Longrightarrow> t \<in> set (List.map_filter f ps)"
  by (force simp: map_filter_def)

lemma fresh_unchanged:
  assumes "BuildSystemPromptWithCache b counter w empty_cache = (c, prompt)" and "distinct (map fst (WFiles w))" and "dirs_ok w"
  shows "\<not> sourceFilesChanged b c w"
proof -
  let ?base = "buildCacheBaseline b w"
  have c: "CachedAt c = Some (BaseTime ?base)" "ExistedAt c = Some (BaseExisted ?base)" "SkillFilesAt c = Some (walk_skills b w)"
    by (rule first_prompt [OF assms(1)])+
  have time: "t \<le> BaseTime ?base" if "p \<in> set (sourcePaths b @ BRoots b)" "stat_time w p = Some t" for p t
    unfolding buildCacheBaseline_def Let_def cache_baseline.simps
    by (rule latest_upper) (use map_filter_member [of p "sourcePaths b @ BRoots b" "stat_time w" t] that in simp)
  have "\<not> fileChangedSince c w p" if "p \<in> set (sourcePaths b @ BRoots b)" for p
  proof -
    have "map_of (BaseExisted ?base) p = Some (stat_time w p \<noteq> None)"
      unfolding buildCacheBaseline_def Let_def cache_baseline.simps using map_of_keys [OF that, of _ "[]"] by simp
    with time [OF that] show ?thesis by (auto simp: fileChangedSince_def c split: option.split)
  qed
  moreover have "\<not> skillFilesChangedSince b w (Some (walk_skills b w))"
  proof -
    have "stat_time w p = Some t" if "(p, t) \<in> set (walk_skills b w)" for p t
      using walk_lookup [OF assms(2)] that by (auto simp: stat_time_def simp del: map_of_eq_Some_iff)
    moreover have "map_of (walk_skills b w) p \<noteq> None" if "(p, t) \<in> set (walk_skills b w)" for p t
      using that weak_map_of_SomeI by fastforce
    ultimately show ?thesis by (auto simp: skillFilesChangedSince_def list_ex_iff)
  qed
  ultimately show ?thesis by (auto simp: sourceFilesChanged_def c list_ex_iff)
qed

text \<open>The daily notes are in the prompt but not among the files that the cache looks at: after a prompt was built, notes may be
  written, days may pass and the counter may change, and the cache still gives the old one.\<close>

theorem daily_notes_stale:
  assumes "BuildSystemPromptWithCache b counter w empty_cache = (c, prompt)" and "distinct (map fst (WFiles w))" and "dirs_ok w"
    and "note_file b (WDay w) \<notin> set (sourcePaths b @ BRoots b)" and "\<not> below_roots b (note_file b (WDay w))"
  shows "BuildSystemPromptWithCache b counter' ((AppendToday b header now w content)\<lparr>WDay := later\<rparr>) c = (c, prompt)"
proof -
  let ?w = "(AppendToday b header now w content)\<lparr>WDay := later\<rparr>"
  have files: "map_of (WFiles ?w) p = map_of (WFiles w) p" if "p \<noteq> note_file b (WDay w)" for p
    using that by (simp add: AppendToday_def Let_def)
  have dirs: "WDirs ?w = WDirs w" by (simp add: AppendToday_def Let_def)
  have same: "stat_time ?w p = stat_time w p" if "p \<noteq> note_file b (WDay w)" for p
    unfolding stat_time_def files [OF that] dirs ..
  then have "fileChangedSince c ?w p = fileChangedSince c w p" if "p \<in> set (sourcePaths b @ BRoots b)" for p
    using that assms(4) by (metis fileChangedSince_def)
  moreover have "set (walk_skills b ?w) = set (walk_skills b w)"
    using assms(5) by (force simp: walk_skills_def AppendToday_def Let_def assoc_put_def)
  moreover have "\<not> sourceFilesChanged b c w" by (rule fresh_unchanged [OF assms(1-3)])
  moreover have "stat_time ?w p = stat_time w p" if "(p, t) \<in> set (walk_skills b w)" for p t
    using that assms(5) by (intro same) (auto simp: walk_skills_def)
  ultimately have "\<not> sourceFilesChanged b c ?w"
    using same_skill_files [of b w ?w] first_prompt [OF assms(1)] by (auto simp: sourceFilesChanged_def list_ex_iff)
  then show ?thesis using repeat_build [OF assms(1)] first_prompt(1) [OF assms(1)] by blast
qed

theorem daily_notes_stale_witness:
  "\<exists>c prompt. BuildSystemPromptWithCache demo_builder ''m'' ((AppendToday demo_builder ''1'' 9 demo_world ''buy milk'')\<lparr>WDay := 4\<rparr>) c = (c, prompt) \<and>
     prompt \<noteq> BuildSystemPrompt demo_builder ''m'' ((AppendToday demo_builder ''1'' 9 demo_world ''buy milk'')\<lparr>WDay := 4\<rparr>)"
proof -
  obtain c prompt where b: "BuildSystemPromptWithCache demo_builder ''m'' demo_world empty_cache = (c, prompt)" by fastforce
  have "distinct (map fst (WFiles demo_world))" by (simp add: demo_world_def)
  moreover have day: "note_file demo_builder (WDay demo_world) = ''/w/memory/202602/20260203.md''" by code_simp
  have "BRoots demo_builder = [''/w/skills'']" by (simp add: demo_builder_def)
  with day have "note_file demo_builder (WDay demo_world) \<notin> set (sourcePaths demo_builder @ BRoots demo_builder)"
    "\<not> below_roots demo_builder (note_file demo_builder (WDay demo_world))" using demo_paths(1,3) by simp_all
  ultimately have "BuildSystemPromptWithCache demo_builder ''m'' ((AppendToday demo_builder ''1'' 9 demo_world ''buy milk'')\<lparr>WDay := 4\<rparr>) c = (c, prompt)"
    using daily_notes_stale [OF b _ demo_world_ok(2)] by blast
  moreover have "prompt = BuildSystemPrompt demo_builder ''m'' demo_world" using b by (auto simp: BuildSystemPromptWithCache_def empty_cache_def Let_def)
  moreover have "BuildSystemPrompt demo_builder ''m'' demo_world \<noteq> BuildSystemPrompt demo_builder ''m'' ((AppendToday demo_builder ''1'' 9 demo_world ''buy milk'')\<lparr>WDay := 4\<rparr>)"
    by code_simp
  ultimately show ?thesis by metis
qed

text \<open>A file that is put back with an old time goes unnoticed: replacing a bootstrap file by one whose time is not after the latest
  time of all the tracked files does not renew the prompt.\<close>

theorem old_file_unnoticed:
  assumes "BuildSystemPromptWithCache b counter w empty_cache = (c, prompt)" and "distinct (map fst (WFiles w))" and "dirs_ok w"
    and "p \<in> set (sourcePaths b)" and "map_of (WFiles w) p \<noteq> None" and "\<not> below_roots b p"
    and "t \<le> BaseTime (buildCacheBaseline b w)"
  shows "BuildSystemPromptWithCache b counter (w\<lparr>WFiles := assoc_put p (body, t) (WFiles w)\<rparr>) c = (c, prompt)"
proof -
  let ?w = "w\<lparr>WFiles := assoc_put p (body, t) (WFiles w)\<rparr>"
  have same: "stat_time ?w q = stat_time w q" if "q \<noteq> p" for q
    using that by (simp add: stat_time_def split: option.split)
  have c: "CachedAt c = Some (BaseTime (buildCacheBaseline b w))" "SkillFilesAt c = Some (walk_skills b w)"
    "ExistedAt c = Some (BaseExisted (buildCacheBaseline b w))"
    by (rule first_prompt [OF assms(1)])+
  have still: "\<not> sourceFilesChanged b c w" by (rule fresh_unchanged [OF assms(1-3)])
  have "\<not> fileChangedSince c ?w p"
  proof -
    have "map_of (BaseExisted (buildCacheBaseline b w)) p = Some (stat_time w p \<noteq> None)"
      unfolding buildCacheBaseline_def Let_def cache_baseline.simps using assms(4) by (simp only: map_of_keys)
    moreover have "stat_time w p \<noteq> None" using assms(5) by (auto simp: stat_time_def)
    ultimately show ?thesis using assms(7) by (simp add: fileChangedSince_def c stat_time_def)
  qed
  moreover have "fileChangedSince c ?w q = fileChangedSince c w q" if "q \<noteq> p" for q using same [OF that] by (simp only: fileChangedSince_def)
  ultimately have "\<not> fileChangedSince c ?w q" if "q \<in> set (sourcePaths b @ BRoots b)" for q
    using still that by (cases "q = p") (auto simp: sourceFilesChanged_def list_ex_iff)
  moreover have "set (walk_skills b ?w) = set (walk_skills b w)"
    using assms(6) by (force simp: walk_skills_def assoc_put_def)
  moreover have "stat_time ?w q = stat_time w q" if "(q, u) \<in> set (walk_skills b w)" for q u
    using that assms(6) by (intro same) (auto simp: walk_skills_def)
  ultimately have "\<not> sourceFilesChanged b c ?w" 
    using still same_skill_files [of b w ?w] by (auto simp: sourceFilesChanged_def c list_ex_iff)
  then show ?thesis using repeat_build [OF assms(1)] first_prompt(1) [OF assms(1)] by blast
qed

theorem old_file_unnoticed_witness:
  "\<exists>c prompt. BuildSystemPromptWithCache demo_builder ''m'' (demo_world\<lparr>WFiles := assoc_put ''/w/SOUL.md'' (''stern'', 6) (WFiles demo_world)\<rparr>) c = (c, prompt)"
proof -
  obtain c prompt where b: "BuildSystemPromptWithCache demo_builder ''m'' demo_world empty_cache = (c, prompt)" by fastforce
  have "''/w/SOUL.md'' \<in> set (sourcePaths demo_builder)" using demo_paths(1) by simp
  moreover have "\<not> below_roots demo_builder ''/w/SOUL.md''" "6 \<le> BaseTime (buildCacheBaseline demo_builder demo_world)" by code_simp+
  moreover have "distinct (map fst (WFiles demo_world))" "map_of (WFiles demo_world) ''/w/SOUL.md'' \<noteq> None" by (simp_all add: demo_world_def)
  ultimately show ?thesis using old_file_unnoticed [OF b _ demo_world_ok(2)] by blast
qed

end
