(* ===== verification/HostFs.thy ===== *)
theory HostFs
  imports FileTools
begin

text \<open>
  The file systems that the file tools choose from (\<open>buildFs\<close> of \<open>pkg/tools/filesystem.go\<close>): the host's, the sandbox of theory
  Sandbox, and the one that sends the paths of an allow-list to the host. The host takes a path the way the kernel does, name by
  name and without cleaning it first; \<open>cwd\<close> is the working directory of the process. Each operation sees one state of the files.
\<close>

section \<open>The host's files\<close>

definition host_elements :: "string \<Rightarrow> string \<Rightarrow> string list" where
  "host_elements cwd path = (if is_abs path then elements path else elements cwd @ elements path)"

text \<open>A path that ends in a slash or a dot has to be a directory.\<close>

definition names_dir :: "string \<Rightarrow> bool" where
  "names_dir path \<longleftrightarrow> last (split_at slash path) \<in> {[], ''.''}"

definition is_dir :: "filesystem \<Rightarrow> string list \<Rightarrow> bool" where
  "is_dir fs p \<longleftrightarrow> p = [] \<or> fs p = Some DirNode"

definition host_walk :: "filesystem \<Rightarrow> string list \<Rightarrow> fs_error + string list" where
  "host_walk fs cs = walk fs False [] kernelMaxLinks [] cs"

definition hostFs_ReadFile :: "filesystem \<Rightarrow> string \<Rightarrow> string \<Rightarrow> fs_error + string" where
  "hostFs_ReadFile fs cwd path =
     (if path = [] then Inl NotExist
      else
        (case host_walk fs (host_elements cwd path) of
           Inl e \<Rightarrow> Inl e
         | Inr q \<Rightarrow>
             if is_dir fs q then Inl IsDirectory
             else (case fs q of Some (FileNode data) \<Rightarrow> (if names_dir path then Inl NotDir else Inr data) | _ \<Rightarrow> Inl NotExist)))"

text \<open>\<open>os.MkdirAll\<close> of a cleaned path: the parents first, then the directory itself, unless it is there.\<close>

function MkdirAll :: "filesystem \<Rightarrow> string list \<Rightarrow> filesystem \<times> (fs_error + unit)" where
  "MkdirAll fs cs =
     (case host_walk fs cs of
        Inr q \<Rightarrow> (fs, if is_dir fs q then Inr () else Inl NotDir)
      | Inl e \<Rightarrow>
          if cs = [] then (fs, Inl e)
          else
            (case MkdirAll fs (butlast cs) of
               (fs1, Inl e1) \<Rightarrow> (fs1, Inl e1)
             | (fs1, Inr _) \<Rightarrow>
                 (case host_walk fs1 (butlast cs) of
                    Inl e2 \<Rightarrow> (fs1, Inl e2)
                  | Inr p \<Rightarrow>
                      if fs1 (p @ [last cs]) = None \<and> last cs \<noteq> ''..'' then (fs1(p @ [last cs] \<mapsto> DirNode), Inr ())
                      else (fs1, Inl NotDir))))"
  by pat_completeness auto
termination by (relation "measure (length \<circ> snd)") auto

declare MkdirAll.simps [simp del]

text \<open>\<open>WriteFileAtomic\<close>: the folder that is made is the cleaned parent of the path, but the data is renamed to the path as it
  stands. \<open>io_ok\<close> says whether the steps on the temporary file succeed; when one fails it is removed again.\<close>

definition WriteFileAtomic :: "filesystem \<Rightarrow> string \<Rightarrow> string \<Rightarrow> string \<Rightarrow> bool \<Rightarrow> filesystem \<times> (fs_error + unit)" where
  "WriteFileAtomic fs cwd path data io_ok =
     (case MkdirAll fs (host_elements cwd (Dir_of path)) of
        (fs1, Inl e) \<Rightarrow> (fs1, Inl e)
      | (fs1, Inr _) \<Rightarrow>
          if \<not> io_ok then (fs1, Inl WriteFailed)
          else
            let cs = host_elements cwd path in
            (case host_walk fs1 (butlast cs) of
               Inl e \<Rightarrow> (fs1, Inl e)
             | Inr parent \<Rightarrow>
                 if path = [] \<or> cs = [] \<or> last cs = ''..'' \<or> names_dir path \<or> \<not> is_dir fs1 parent \<or> fs1 (parent @ [last cs]) = Some DirNode
                 then (fs1, Inl IsDirectory)
                 else (fs1(parent @ [last cs] \<mapsto> FileNode data), Inr ())))"

section \<open>The choice of a file system\<close>

datatype file_error = HostError fs_error | SandboxError sandbox_error

datatype fileSystem = HostFs | SandboxFs string | WhitelistFs string "allow_pattern list"

definition buildFs :: "string \<Rightarrow> bool \<Rightarrow> allow_pattern list \<Rightarrow> fileSystem" where
  "buildFs workspace restrict patterns =
     (if \<not> restrict then HostFs
      else if patterns \<noteq> [] then WhitelistFs workspace patterns
      else SandboxFs workspace)"

text \<open>Whether the host serves a path.\<close>

fun by_host :: "fileSystem \<Rightarrow> filesystem \<Rightarrow> string \<Rightarrow> bool" where
  "by_host HostFs fs path = True"
| "by_host (SandboxFs workspace) fs path = False"
| "by_host (WhitelistFs workspace patterns) fs path = isAllowedPath fs patterns path"

fun sandbox_of :: "fileSystem \<Rightarrow> string" where
  "sandbox_of HostFs = []"
| "sandbox_of (SandboxFs workspace) = workspace"
| "sandbox_of (WhitelistFs workspace patterns) = workspace"

definition fs_ReadFile :: "fileSystem \<Rightarrow> string \<Rightarrow> filesystem \<Rightarrow> string \<Rightarrow> file_error + string" where
  "fs_ReadFile sys cwd fs path =
     (if by_host sys fs path then map_sum HostError id (hostFs_ReadFile fs cwd path)
      else map_sum SandboxError id (sandbox_ReadFile fs (sandbox_of sys) path))"

definition fs_WriteFile :: "fileSystem \<Rightarrow> string \<Rightarrow> filesystem \<Rightarrow> string \<Rightarrow> string \<Rightarrow> bool \<Rightarrow> filesystem \<times> (file_error + unit)" where
  "fs_WriteFile sys cwd fs path data io_ok =
     (if by_host sys fs path then apsnd (map_sum HostError id) (WriteFileAtomic fs cwd path data io_ok)
      else apsnd (map_sum SandboxError id) (sandbox_WriteFile fs (sandbox_of sys) path data io_ok))"

section \<open>Edits through any file system\<close>

lemma map_sum_Inr: "map_sum f id r = Inr () \<longleftrightarrow> r = Inr ()"
  by (cases r) auto

text \<open>What a file system promises its tools: a file that was written is read back. \<open>settled\<close> is what a provider needs for it.\<close>

locale file_store =
  fixes read :: "'s \<Rightarrow> string \<Rightarrow> 'e + string"
    and wr :: "'s \<Rightarrow> string \<Rightarrow> string \<Rightarrow> bool \<Rightarrow> 's \<times> ('e + unit)"
    and settled :: "'s \<Rightarrow> 's \<Rightarrow> string \<Rightarrow> bool"
  assumes read_back: "wr s path data io_ok = (s', Inr ()) \<Longrightarrow> settled s s' path \<Longrightarrow> read s' path = Inr data"
begin

lemma edit_once:
  assumes "editFile read wr s path oldText newText io_ok = (s', Inr ())" and "settled s s' path"
  shows "\<exists>pre post. read s path = Inr (pre @ oldText @ post) \<and> Count (pre @ oldText @ post) oldText = 1 \<and>
    read s' path = Inr (pre @ newText @ post)"
proof -
  from assms(1) obtain content new where old: "read s path = Inr content" and edit: "(replaceEditContent content oldText newText :: 'e edit_error + string) = Inr new"
    and wr: "wr s path new io_ok = (s', Inr ())"
    by (auto simp: editFile_def map_sum_Inr prod_eq_iff split: sum.splits)
  from edit obtain i where i: "Index content oldText = Some i" and unique: "\<not> 1 < Count content oldText"
    and new: "new = take i content @ newText @ drop (i + length oldText) content"
    by (auto simp: replaceEditContent_def Contains_def Replace_first_def split: if_splits)
  have parts: "content = take i content @ oldText @ drop (i + length oldText) content"
    using Index_Some_split [OF i] .
  have "0 < Count content oldText" using parts Count_pos by metis
  with old parts new read_back [OF wr assms(2)] unique show ?thesis
    by (intro exI [of _ "take i content"] exI [of _ "drop (i + length oldText) content"]) simp
qed

lemma append_adds:
  assumes "appendFile read wr missing s path added io_ok = (s', Inr ())" and "settled s s' path"
  shows "read s' path = Inr ((case read s path of Inr content \<Rightarrow> content | Inl _ \<Rightarrow> []) @ added)"
  using assms read_back [OF _ assms(2)] by (auto simp: appendFile_def split: sum.splits if_splits)

end

interpretation sandbox_store: file_store
  "\<lambda>fs. sandbox_ReadFile fs workspace" "\<lambda>fs. sandbox_WriteFile fs workspace" "\<lambda>fs fs' path. link_free fs \<and> is_abs workspace"
  for workspace
  by unfold_locales (auto intro: write_then_read)

section \<open>The host reads back what it wrote\<close>

lemma walk_step:
  "walk fs False [] n dir cs = Inr p \<Longrightarrow> link_free fs \<Longrightarrow> is_dir fs p \<Longrightarrow> walk fs False [] n dir (cs @ ds) = walk fs False [] n p ds"
proof (induction cs arbitrary: dir)
  case (Cons c cs)
  show ?case
  proof (cases "c = ''..''")
    case False
    with Cons.prems(1) obtain node where node: "fs (dir @ [c]) = Some node" by (auto split: option.splits)
    with Cons False show ?thesis by (cases node) (auto simp: link_free_def is_dir_def split: if_splits)
  qed (use Cons in auto)
qed simp

lemma walk_other:
  "walk fs False [] n dir cs = Inr p \<Longrightarrow> link_free fs \<Longrightarrow> is_dir fs p \<Longrightarrow> fs x \<noteq> Some DirNode \<Longrightarrow>
   walk (fs(x \<mapsto> FileNode data)) False [] n dir cs = Inr p"
proof (induction cs arbitrary: dir)
  case (Cons c cs)
  show ?case
  proof (cases "c = ''..''")
    case False
    with Cons.prems(1) obtain node where node: "fs (dir @ [c]) = Some node" by (auto split: option.splits)
    with Cons False show ?thesis by (cases node) (auto simp: link_free_def is_dir_def split: if_splits)
  qed (use Cons in auto)
qed simp

lemma MkdirAll_adds: "MkdirAll fs cs = (fs1, r) \<Longrightarrow> fs1 p \<noteq> fs p \<Longrightarrow> fs p = None \<and> fs1 p = Some DirNode"
proof (induction fs cs arbitrary: fs1 r rule: MkdirAll.induct)
  case (1 fs cs)
  show ?case
  proof (cases "host_walk fs cs")
    case (Inr q)
    with 1(2,3) show ?thesis by (simp add: MkdirAll.simps [of fs cs])
  next
    case (Inl e)
    show ?thesis
    proof (cases "cs = []")
      case True
      with Inl 1(2,3) show ?thesis by (simp add: MkdirAll.simps [of fs "[]"])
    next
      case False
      obtain fs2 r2 where m: "MkdirAll fs (butlast cs) = (fs2, r2)" by fastforce
      have ih: "fs2 p \<noteq> fs p \<Longrightarrow> fs p = None \<and> fs2 p = Some DirNode" by (rule 1(1) [OF Inl False m])
      have "fs1 = fs2 \<or> (\<exists>q. fs2 q = None \<and> fs1 = fs2(q \<mapsto> DirNode))"
        using 1(2) Inl False m by (auto simp: MkdirAll.simps [of fs cs] split: sum.splits if_splits)
      then show ?thesis
      proof
        assume "\<exists>q. fs2 q = None \<and> fs1 = fs2(q \<mapsto> DirNode)"
        then obtain q where "fs2 q = None" "fs1 = fs2(q \<mapsto> DirNode)" by blast
        then show ?thesis using ih 1(3) by (cases "fs2 p = fs p"; cases "p = q") auto
      qed (use ih 1(3) in blast)
    qed
  qed
qed

lemma MkdirAll_link_free: "MkdirAll fs cs = (fs1, r) \<Longrightarrow> link_free fs \<Longrightarrow> link_free fs1"
  unfolding link_free_def by (metis MkdirAll_adds node.distinct(3) option.inject)

lemma host_write_cases:
  assumes "WriteFileAtomic fs cwd path data io_ok = (fs', Inr ())"
  obtains fs1 parent c cs where "MkdirAll fs (host_elements cwd (Dir_of path)) = (fs1, Inr ())" and "host_elements cwd path = cs @ [c]"
    and "host_walk fs1 cs = Inr parent" and "is_dir fs1 parent" and "c \<noteq> ''..''" and "path \<noteq> []" and "\<not> names_dir path"
    and "fs1 (parent @ [c]) \<noteq> Some DirNode" and "fs' = fs1(parent @ [c] \<mapsto> FileNode data)"
proof -
  let ?cs = "host_elements cwd path"
  from assms obtain fs1 parent where
    "MkdirAll fs (host_elements cwd (Dir_of path)) = (fs1, Inr ())" "host_walk fs1 (butlast ?cs) = Inr parent"
    "path \<noteq> []" "?cs \<noteq> []" "last ?cs \<noteq> ''..''" "\<not> names_dir path" "is_dir fs1 parent" "fs1 (parent @ [last ?cs]) \<noteq> Some DirNode"
    "fs' = fs1(parent @ [last ?cs] \<mapsto> FileNode data)"
    by (simp add: WriteFileAtomic_def Let_def split: prod.splits sum.splits if_splits)
  then show thesis using that [of fs1 "butlast ?cs" "last ?cs" parent] by simp
qed

lemma host_read_back:
  assumes "WriteFileAtomic fs cwd path data io_ok = (fs', Inr ())" and "link_free fs"
  shows "hostFs_ReadFile fs' cwd path = Inr data"
proof -
  obtain fs1 parent c cs where m: "MkdirAll fs (host_elements cwd (Dir_of path)) = (fs1, Inr ())" and cs: "host_elements cwd path = cs @ [c]"
    and walk: "host_walk fs1 cs = Inr parent" and dir: "is_dir fs1 parent" and c: "c \<noteq> ''..''" and ok: "path \<noteq> []" "\<not> names_dir path"
    and free: "fs1 (parent @ [c]) \<noteq> Some DirNode" and fs': "fs' = fs1(parent @ [c] \<mapsto> FileNode data)"
    by (rule host_write_cases [OF assms(1)])
  have lf: "link_free fs1" "link_free fs'" using MkdirAll_link_free [OF m assms(2)] fs' by simp_all
  have "host_walk fs' cs = Inr parent" unfolding host_walk_def fs' using walk_other [OF _ lf(1) dir free] walk by (simp add: host_walk_def)
  moreover have "is_dir fs' parent" using dir by (auto simp: is_dir_def fs')
  ultimately have "host_walk fs' (cs @ [c]) = Inr (parent @ [c])"
    using walk_step [OF _ lf(2)] c by (simp add: host_walk_def fs')
  then show ?thesis using ok by (simp add: hostFs_ReadFile_def cs is_dir_def fs')
qed

interpretation host_store: file_store
  "\<lambda>fs. hostFs_ReadFile fs cwd" "\<lambda>fs. WriteFileAtomic fs cwd" "\<lambda>fs fs' path. link_free fs"
  for cwd
  by unfold_locales (rule host_read_back)

text \<open>The file system that the tools are built with: it answers from the side that wrote.\<close>

definition same_side :: "fileSystem \<Rightarrow> filesystem \<Rightarrow> filesystem \<Rightarrow> string \<Rightarrow> bool" where
  "same_side sys fs fs' path \<longleftrightarrow> link_free fs \<and> by_host sys fs' path = by_host sys fs path \<and> (sys \<noteq> HostFs \<longrightarrow> is_abs (sandbox_of sys))"

interpretation chosen_store: file_store "fs_ReadFile sys cwd" "fs_WriteFile sys cwd" "same_side sys"
  for sys cwd
proof
  fix fs path data io_ok fs'
  assume w: "fs_WriteFile sys cwd fs path data io_ok = (fs', Inr ())" and s: "same_side sys fs fs' path"
  show "fs_ReadFile sys cwd fs' path = Inr data"
  proof (cases "by_host sys fs path")
    case True
    with w have "WriteFileAtomic fs cwd path data io_ok = (fs', Inr ())" by (auto simp: fs_WriteFile_def map_sum_Inr prod_eq_iff)
    with True s show ?thesis using host_read_back by (simp add: fs_ReadFile_def same_side_def)
  next
    case False
    with w have "sandbox_WriteFile fs (sandbox_of sys) path data io_ok = (fs', Inr ())" by (auto simp: fs_WriteFile_def map_sum_Inr prod_eq_iff)
    moreover have "sys \<noteq> HostFs" using False by auto
    ultimately show ?thesis using False s write_then_read by (simp add: fs_ReadFile_def same_side_def)
  qed
qed

text \<open>C29. An edit replaces once, whatever file system \<open>buildFs\<close> chose (the host's, the sandbox, or the one of an allow-list): an edit
  that succeeds replaced the only place (among places that do not overlap) where the old text stood, and nothing else of the file:
  before it was \<open>pre @ oldText @ post\<close>, and reading the file again gives \<open>pre @ newText @ post\<close>. This is for files without links,
  a path that is on the same side of the allow-list before and after the edit, and, for a restricted tool, an absolute workspace.\<close>

theorem chosen_edit_once:
  assumes "editFile (fs_ReadFile (buildFs workspace restrict patterns) cwd) (fs_WriteFile (buildFs workspace restrict patterns) cwd)
      fs path oldText newText io_ok = (fs', Inr ())"
    and "same_side (buildFs workspace restrict patterns) fs fs' path"
  shows "\<exists>pre post. fs_ReadFile (buildFs workspace restrict patterns) cwd fs path = Inr (pre @ oldText @ post) \<and>
    Count (pre @ oldText @ post) oldText = 1 \<and> fs_ReadFile (buildFs workspace restrict patterns) cwd fs' path = Inr (pre @ newText @ post)"
  by (rule chosen_store.edit_once [OF assms])

theorem chosen_edit_once_witness:
  "\<exists>pre post. fs_ReadFile (buildFs ''/x'' False []) ''/w'' plain_fs ''../w/a'' = Inr (pre @ ''two'' @ post) \<and>
    Count (pre @ ''two'' @ post) ''two'' = 1 \<and>
    fs_ReadFile (buildFs ''/x'' False []) ''/w'' (fst (editFile (fs_ReadFile HostFs ''/w'') (fs_WriteFile HostFs ''/w'') plain_fs ''../w/a'' ''two'' ''2'' True)) ''../w/a'' =
      Inr (pre @ ''2'' @ post)"
proof -
  let ?r = "editFile (fs_ReadFile HostFs ''/w'') (fs_WriteFile HostFs ''/w'') plain_fs ''../w/a'' ''two'' ''2'' True"
  have sys: "buildFs ''/x'' False [] = HostFs" by (simp add: buildFs_def)
  have "snd ?r = Inr ()" by code_simp
  then have "?r = (fst ?r, Inr ())" by (simp add: prod_eq_iff)
  moreover have "same_side HostFs plain_fs (fst ?r) ''../w/a''" using plain_fs_link_free by (simp add: same_side_def)
  ultimately show ?thesis
    unfolding sys by (rule chosen_edit_once [where workspace = "''/x''" and restrict = False and patterns = "[]", unfolded sys])
qed

section \<open>What the allow-list opens\<close>

lemma walk_more: "walk fs conf root n dir cs = Inr q \<Longrightarrow> n \<le> m \<Longrightarrow> walk fs conf root m dir cs = Inr q"
proof (induction fs conf root n dir cs arbitrary: m rule: walk.induct)
  case (2 fs conf root n dir c cs)
  show ?case
  proof (cases "c = ''..''")
    case True
    with 2(5) have up: "\<not> (dir = [] \<and> conf)" "walk fs conf root n (butlast dir) cs = Inr q" by (auto split: if_splits)
    from 2(1) [OF True up 2(6)] up(1) True show ?thesis by simp
  next
    case False
    with 2(5) obtain node where node: "fs (root @ dir @ [c]) = Some node" by (auto split: option.splits)
    show ?thesis
    proof (cases node)
      case DirNode
      with False node 2(5) have "walk fs conf root n (dir @ [c]) cs = Inr q" by simp
      from 2(2) [OF False node DirNode this 2(6)] False node DirNode show ?thesis by simp
    next
      case (FileNode d)
      with False node 2(5) show ?thesis by (auto split: if_splits)
    next
      case (LinkNode target)
      with False node 2(5) obtain k where k: "n = Suc k" by (cases n) auto
      then obtain j where j: "m = Suc j" "k \<le> j" using 2(6) by (cases m) auto
      show ?thesis
      proof (cases "is_abs target")
        case True
        with False node LinkNode k 2(5) have "\<not> conf" "walk fs conf root k [] (elements target @ cs) = Inr q" by (auto split: if_splits)
        with 2(3) [OF False node LinkNode k True _ this(2) j(2)] False node LinkNode k True j show ?thesis by simp
      next
        case rel: False
        with False node LinkNode k 2(5) have "walk fs conf root k dir (elements target @ cs) = Inr q" by simp
        with 2(4) [OF False node LinkNode k rel this j(2)] False node LinkNode k rel j show ?thesis by simp
      qed
    qed
  qed
qed simp

text \<open>C9. What the host reads for an allowed path that is clean is allowed itself: the file at the end of its links has a path
  that the patterns accept.\<close>

theorem allowed_read_allowed:
  assumes "isAllowedPath fs patterns path" and "Clean path = path" and "fs_ReadFile (WhitelistFs workspace patterns) cwd fs path = Inr data"
  shows "\<exists>q. fs q = Some (FileNode data) \<and> matchesAllowedPath fs patterns (unparse True q)"
proof -
  have abs: "is_abs path" using assms(1) by (auto simp: isAllowedPath_def Let_def split: if_splits)
  have n: "normal True (comps path)" using normal_comps [of path] abs by simp
  have "path = unparse True (comps path)" using assms(2) abs by (auto simp: Clean_def is_abs_def split: if_splits)
  moreover have "elements (unparse True (comps path)) = comps path"
    using n elements_rooted by (auto simp: unparse_def normal_def)
  ultimately have "host_elements cwd path = comps path" using abs by (simp add: host_elements_def)
  moreover obtain q where "host_walk fs (host_elements cwd path) = Inr q" and q: "fs q = Some (FileNode data)"
    using assms(1,3) by (auto simp: fs_ReadFile_def hostFs_ReadFile_def split: if_splits sum.splits option.splits node.splits)
  ultimately have "eval_links fs (comps path) = Inr q"
    unfolding eval_links_def host_walk_def by (auto intro: walk_more simp: kernelMaxLinks_def maxLinks_def)
  then have "resolve_against fs (comps path) [] = Inr q" by (simp add: resolve_against.simps)
  then have "matchesAllowedPath fs patterns (unparse True q)"
    using assms(1,2) by (auto simp: isAllowedPath_def Let_def resolvePathAgainstExistingAncestor_def split: if_splits)
  with q show ?thesis by blast
qed

text \<open>A folder \<open>/ok\<close> that an allow-list opens, with a link in it.\<close>

definition linked_fs :: filesystem where
  "linked_fs = map_of
     [([''w''], DirNode), ([''ok''], DirNode), ([''ok'', ''a''], FileNode ''one''), ([''ok'', ''l''], LinkNode ''/etc/ssl''),
      ([''etc''], DirNode), ([''etc'', ''ssl''], DirNode), ([''etc'', ''passwd''], FileNode ''secret'')]"

definition ok_patterns :: "allow_pattern list" where
  "ok_patterns = [\<lparr>PatternText = ''^/ok(?:/|$)'', PatternMatches = (\<lambda>p. p = ''/ok'' \<or> HasPrefix p ''/ok/'')\<rparr>]"

theorem allowed_read_allowed_witness:
  "\<exists>q. linked_fs q = Some (FileNode ''one'') \<and> matchesAllowedPath linked_fs ok_patterns (unparse True q)"
proof (rule allowed_read_allowed)
  show "isAllowedPath linked_fs ok_patterns ''/ok/a''" "Clean ''/ok/a'' = ''/ok/a''" by code_simp+
  show "fs_ReadFile (WhitelistFs ''/w'' ok_patterns) ''/'' linked_fs ''/ok/a'' = Inr ''one''" by code_simp
qed

text \<open>A path with \<open>..\<close> behind a link leaves the allow-list: the check cleans the path first, the host does not. The file
  that is read is neither in the workspace nor allowed, and a write to such a path changes it.\<close>

theorem dots_leave_allowed:
  "buildFs ''/w'' True ok_patterns = WhitelistFs ''/w'' ok_patterns \<and>
   fs_ReadFile (WhitelistFs ''/w'' ok_patterns) ''/'' linked_fs ''/ok/l/../passwd'' = Inr ''secret'' \<and>
   isAllowedPath linked_fs ok_patterns ''/etc/passwd'' = False \<and>
   fst (fs_WriteFile (WhitelistFs ''/w'' ok_patterns) ''/'' linked_fs ''/ok/l/../passwd'' ''mine'' True) [''etc'', ''passwd''] = Some (FileNode ''mine'')"
proof (intro conjI)
  show "buildFs ''/w'' True ok_patterns = WhitelistFs ''/w'' ok_patterns" by (simp add: buildFs_def ok_patterns_def)
qed (code_simp)+

text \<open>Without an allow-list a restricted tool only reaches the workspace: every change lies below its real directory.\<close>

theorem restricted_write_confined:
  assumes "fs_WriteFile (buildFs workspace True []) cwd fs path data io_ok = (fs', r)" and "fs' p \<noteq> fs p"
  shows "\<exists>root. sandbox_root fs workspace = Some root \<and> strict_prefix root p"
proof -
  from assms(1) obtain r' where "sandbox_WriteFile fs workspace path data io_ok = (fs', r')"
    by (auto simp: buildFs_def fs_WriteFile_def prod_eq_iff)
  from write_changes [OF this assms(2)] show ?thesis by blast
qed

theorem restricted_write_confined_witness: "strict_prefix [''w''] [''w'', ''b'']"
proof -
  let ?r = "fs_WriteFile (buildFs ''/w'' True []) ''/'' demo_fs ''b'' ''d'' True"
  have "fst ?r [''w'', ''b''] \<noteq> demo_fs [''w'', ''b'']" and root: "sandbox_root demo_fs ''/w'' = Some [''w'']" by code_simp+
  with restricted_write_confined [of "''/w''" "''/''" demo_fs "''b''" "''d''" True "fst ?r" "snd ?r" "[''w'', ''b'']"] show ?thesis by simp
qed

end
