(* ===== verification/CronTool.thy ===== *)
theory CronTool
  imports Cron Channels FileTools
begin

text \<open>
  The tool \<open>cron\<close> (\<open>pkg/tools/cron.go\<close>), by which a model schedules jobs, the handler that runs them
  (\<open>setupCronTool\<close> of \<open>pkg/gateway/gateway.go\<close>) and the webhook that reports them (\<open>pkg/cron/webhook.go\<close>), over the service of theory
  Cron. The command runner and the agent are arguments, and so are the clock readings, the identifiers and the success of each save.
\<close>

section \<open>Texts and numbers\<close>

text \<open>\<open>utils.Truncate\<close>, with truncation enabled.\<close>

definition Truncate :: "string \<Rightarrow> int \<Rightarrow> string" where
  "Truncate s maxLen =
     (if maxLen \<le> 0 then []
      else if int (length (runes s)) \<le> maxLen then s
      else if maxLen \<le> 3 then of_runes (take (nat maxLen) (runes s))
      else of_runes (take (nat maxLen - 3) (runes s)) @ ''...'')"

definition int_text :: "int \<Rightarrow> string" where
  "int_text n = (if n < 0 then ''-'' @ decimal (nat (- n)) else decimal (nat n))"

text \<open>The conversion \<open>int64(f)\<close> of a whole \<open>float64\<close>, as on amd64.\<close>

definition int64_of :: "int \<Rightarrow> int" where
  "int64_of v = (if - (2 ^ 63) \<le> v \<and> v < 2 ^ 63 then v else - (2 ^ 63))"

definition int_arg :: "(string \<times> json) list \<Rightarrow> string \<Rightarrow> int option" where
  "int_arg args key = (case map_of args key of Some (JInt v) \<Rightarrow> Some v | _ \<Rightarrow> None)"

definition bool_arg :: "(string \<times> json) list \<Rightarrow> string \<Rightarrow> bool" where
  "bool_arg args key \<longleftrightarrow> map_of args key = Some (JBool True)"

section \<open>The tool\<close>

record cron_tool =
  ToolExecEnabled :: bool
  AllowCommand :: bool
  HookEnabled :: bool  \<comment> \<open>with an endpoint\<close>

text \<open>One call: the clock before and while the job is added and when it is updated, the new identifier, and whether each save succeeds.\<close>

record cron_call =
  AskedAt :: int
  AddedAt :: int
  ChangedAt :: int
  FreshID :: string
  AddSaved :: bool
  ChangeSaved :: bool

definition blank_schedule :: CronSchedule where
  "blank_schedule = \<lparr>SchedKind = [], AtMS = None, EveryMS = None, Expr = [], TZ = []\<rparr>"

definition asked_schedule :: "int \<Rightarrow> (string \<times> json) list \<Rightarrow> CronSchedule option" where
  "asked_schedule now args =
     (let positive = (\<lambda>key. case int_arg args key of Some v \<Rightarrow> if 0 < v then Some v else None | None \<Rightarrow> None)
      in case positive ''at_seconds'' of
           Some v \<Rightarrow> Some (blank_schedule\<lparr>SchedKind := ''at'', AtMS := Some (wrap64 (now + int64_of v * 1000))\<rparr>)
         | None \<Rightarrow>
             (case positive ''every_seconds'' of
                Some v \<Rightarrow> Some (blank_schedule\<lparr>SchedKind := ''every'', EveryMS := Some (wrap64 (int64_of v * 1000))\<rparr>)
              | None \<Rightarrow>
                  (case string_arg args ''cron_expr'' of
                     Some e \<Rightarrow> if e \<noteq> [] then Some (blank_schedule\<lparr>SchedKind := ''cron'', Expr := e\<rparr>) else None
                   | None \<Rightarrow> None)))"

definition save_failed :: string where "save_failed = ''Error adding job: ''"

text \<open>The checks for a command: \<open>None\<close> when it may be scheduled.\<close>

definition command_refused :: "cron_tool \<Rightarrow> string \<Rightarrow> (string \<times> json) list \<Rightarrow> string option" where
  "command_refused t channel args =
     (if \<not> ToolExecEnabled t then Some ''command execution is disabled''
      else if \<not> IsInternalChannel channel then Some ''scheduling command execution is restricted to internal channels''
      else if \<not> AllowCommand t \<and> \<not> bool_arg args ''command_confirm''
        then Some ''command_confirm=true is required when allow_command is disabled''
      else None)"

definition addJob ::
  "(string \<Rightarrow> int \<Rightarrow> int option) \<Rightarrow> string \<Rightarrow> cron_tool \<Rightarrow> cron_call \<Rightarrow> string \<Rightarrow> string \<Rightarrow> (string \<times> json) list \<Rightarrow>
   CronService \<Rightarrow> CronService \<times> ToolResult" where
  "addJob next_tick ioerr t call channel chatID args cs =
     (if channel = [] \<or> chatID = []
      then (cs, ErrorResult ''no session context (channel/chat_id not set). Use this tool in an active conversation.'')
      else
        let chat = (case string_arg args ''to'' of Some x \<Rightarrow> if x \<noteq> [] then x else chatID | None \<Rightarrow> chatID);
            message = (case string_arg args ''message'' of Some m \<Rightarrow> m | None \<Rightarrow> [])
        in if message = [] then (cs, ErrorResult ''message is required for add'')
        else
          (case asked_schedule (AskedAt call) args of
             None \<Rightarrow> (cs, ErrorResult ''one of at_seconds, every_seconds, or cron_expr is required'')
           | Some schedule \<Rightarrow>
               let command = (case string_arg args ''command'' of Some c \<Rightarrow> c | None \<Rightarrow> []) in
               (case (if command \<noteq> [] then command_refused t channel args else None) of
                  Some refused \<Rightarrow> (cs, ErrorResult refused)
                | None \<Rightarrow>
                    let deliver = (bool_arg args ''deliver'' \<and> command = []);
                        job = new_job next_tick (AddedAt call) (FreshID call) (Truncate message 30) schedule message deliver channel chat
                    in case AddJob (AddSaved call) cs job of
                         (cs1, Inl e, _) \<Rightarrow> (cs1, ErrorResult (save_failed @ ioerr))
                       | (cs1, Inr job, _) \<Rightarrow>
                           let cs2 = (if command = [] then cs1
                                      else fst (UpdateJob (ChangeSaved call) (ChangedAt call) cs1
                                        (job\<lparr>Payload := (Payload job)\<lparr>Command := command\<rparr>\<rparr>)))
                           in (cs2, SilentResult (''Cron job added: '' @ JobName job @ '' (id: '' @ JobID job @ '')'')))))"

definition schedule_info :: "CronSchedule \<Rightarrow> string" where
  "schedule_info s =
     (case (SchedKind s = ''every'', EveryMS s) of
        (True, Some e) \<Rightarrow> ''every '' @ int_text (if 0 \<le> e then e div 1000 else - (- e div 1000)) @ ''s''
      | _ \<Rightarrow> if SchedKind s = ''cron'' then Expr s else if SchedKind s = ''at'' then ''one-time'' else ''unknown'')"

definition listJobs :: "CronService \<Rightarrow> ToolResult" where
  "listJobs cs =
     (let jobs = ListJobs cs False in
      if jobs = [] then SilentResult ''No scheduled jobs''
      else SilentResult (''Scheduled jobs:'' @ [CHR 0x0A] @
        concat (map (\<lambda>j. ''- '' @ JobName j @ '' (id: '' @ JobID j @ '', '' @ schedule_info (Schedule j) @ '')'' @ [CHR 0x0A]) jobs)))"

definition removeJob :: "bool \<Rightarrow> (string \<times> json) list \<Rightarrow> CronService \<Rightarrow> CronService \<times> ToolResult" where
  "removeJob io_ok args cs =
     (case string_arg args ''job_id'' of
        Some jobID \<Rightarrow>
          if jobID = [] then (cs, ErrorResult ''job_id is required for remove'')
          else
            (let (cs', removed) = RemoveJob io_ok cs jobID
             in (cs', if removed then SilentResult (''Cron job removed: '' @ jobID)
                      else ErrorResult (''Job '' @ jobID @ '' not found'')))
      | None \<Rightarrow> (cs, ErrorResult ''job_id is required for remove''))"

definition enableJob ::
  "(string \<Rightarrow> int \<Rightarrow> int option) \<Rightarrow> bool \<Rightarrow> int \<Rightarrow> (string \<times> json) list \<Rightarrow> bool \<Rightarrow> CronService \<Rightarrow> CronService \<times> ToolResult" where
  "enableJob next_tick io_ok now args on cs =
     (case string_arg args ''job_id'' of
        Some jobID \<Rightarrow>
          if jobID = [] then (cs, ErrorResult ''job_id is required for enable/disable'')
          else
            (case EnableJob next_tick io_ok now cs jobID on of
               (cs', None) \<Rightarrow> (cs', ErrorResult (''Job '' @ jobID @ '' not found''))
             | (cs', Some job) \<Rightarrow>
                 (cs', SilentResult (''Cron job '' @ [CHR 0x27] @ JobName job @ [CHR 0x27] @ '' '' @ (if on then ''enabled'' else ''disabled''))))
      | None \<Rightarrow> (cs, ErrorResult ''job_id is required for enable/disable''))"

definition CronTool_Execute ::
  "(string \<Rightarrow> int \<Rightarrow> int option) \<Rightarrow> string \<Rightarrow> cron_tool \<Rightarrow> cron_call \<Rightarrow> string \<Rightarrow> string \<Rightarrow> (string \<times> json) list \<Rightarrow>
   CronService \<Rightarrow> CronService \<times> ToolResult" where
  "CronTool_Execute next_tick ioerr t call channel chatID args cs =
     (case string_arg args ''action'' of
        None \<Rightarrow> (cs, ErrorResult ''action is required'')
      | Some a \<Rightarrow>
          if a = ''add'' then addJob next_tick ioerr t call channel chatID args cs
          else if a = ''list'' then (cs, listJobs cs)
          else if a = ''remove'' then removeJob (ChangeSaved call) args cs
          else if a = ''enable'' then enableJob next_tick (ChangeSaved call) (ChangedAt call) args True cs
          else if a = ''disable'' then enableJob next_tick (ChangeSaved call) (ChangedAt call) args False cs
          else (cs, ErrorResult (''unknown action: '' @ a)))"

section \<open>Running a job\<close>

text \<open>What a run of a job does: the messages it publishes, the contents it reports to the webhook, and its result.\<close>

record job_run =
  Outputs :: "(string \<times> string \<times> string) list"
  Hooks :: "string list"
  RunResult :: string

definition fireWebhook :: "cron_tool \<Rightarrow> string \<Rightarrow> string list" where
  "fireWebhook t content = (if HookEnabled t then [content] else [])"

definition ExecuteJob ::
  "(string \<Rightarrow> string \<Rightarrow> string \<Rightarrow> ToolResult) \<Rightarrow> (string \<Rightarrow> string \<Rightarrow> string \<Rightarrow> string \<Rightarrow> string + string) \<Rightarrow> cron_tool \<Rightarrow> CronJob \<Rightarrow> job_run" where
  "ExecuteJob run_exec run_agent t job =
     (let p = Payload job;
          channel = (if PayloadChannel p = [] then ''cli'' else PayloadChannel p);
          chat = (if To p = [] then ''direct'' else To p)
      in if Command p \<noteq> [] then
           (if \<not> ToolExecEnabled t
            then \<lparr>Outputs = [(channel, chat, ''Error executing scheduled command: command execution is disabled'')], Hooks = [], RunResult = ''ok''\<rparr>
            else
              let r = run_exec (Command p) channel chat;
                  output = (if IsError r then ''Error executing scheduled command: '' @ ForLLM r
                            else ''Scheduled command '' @ [CHR 0x27] @ Command p @ [CHR 0x27] @ '' executed:'' @ [CHR 0x0A] @ ForLLM r)
              in \<lparr>Outputs = [(channel, chat, output)], Hooks = (if IsError r then [] else fireWebhook t output), RunResult = ''ok''\<rparr>)
         else if Deliver p then
           \<lparr>Outputs = [(channel, chat, PayloadMessage p)], Hooks = fireWebhook t (PayloadMessage p), RunResult = ''ok''\<rparr>
         else
           (case run_agent (PayloadMessage p) (''cron-'' @ JobID job) channel chat of
              Inl e \<Rightarrow> \<lparr>Outputs = [], Hooks = [], RunResult = ''Error: '' @ e\<rparr>
            | Inr response \<Rightarrow> \<lparr>Outputs = [], Hooks = fireWebhook t response, RunResult = ''ok''\<rparr>))"

text \<open>The handler that the gateway gives to the service: the error of a run, which it never has.\<close>

definition gateway_onJob ::
  "(string \<Rightarrow> string \<Rightarrow> string \<Rightarrow> ToolResult) \<Rightarrow> (string \<Rightarrow> string \<Rightarrow> string \<Rightarrow> string \<Rightarrow> string + string) \<Rightarrow> cron_tool \<Rightarrow> CronJob \<Rightarrow> string \<times> string option" where
  "gateway_onJob run_exec run_agent t job = (RunResult (ExecuteJob run_exec run_agent t job), None)"

section \<open>The webhook\<close>

datatype hook_reply = NetworkError | Status nat

datatype hook_outcome = Delivered | Rejected | Cancelled | GaveUp

text \<open>\<open>cancelled n\<close>: the context ends in the pause after attempt \<open>n\<close>. The number counts the requests that were sent.\<close>

fun hook_attempts :: "(nat \<Rightarrow> hook_reply) \<Rightarrow> (nat \<Rightarrow> bool) \<Rightarrow> nat \<Rightarrow> nat \<Rightarrow> nat \<times> hook_outcome" where
  "hook_attempts reply cancelled attempt 0 = (attempt - 1, GaveUp)"
| "hook_attempts reply cancelled attempt (Suc left) =
     (let again = (if 0 < left \<and> cancelled attempt then (attempt, Cancelled) else hook_attempts reply cancelled (Suc attempt) left)
      in case reply attempt of
           NetworkError \<Rightarrow> again
         | Status s \<Rightarrow>
             if 200 \<le> s \<and> s < 300 then (attempt, Delivered)
             else if 400 \<le> s \<and> s \<noteq> 429 then (attempt, Rejected)
             else again)"

definition SendWebhook :: "(nat \<Rightarrow> hook_reply) \<Rightarrow> (nat \<Rightarrow> bool) \<Rightarrow> nat \<times> hook_outcome" where
  "SendWebhook reply cancelled = hook_attempts reply cancelled 1 3"

section \<open>Commands come from internal channels\<close>

definition command_safe :: "cron_tool \<Rightarrow> CronJob \<Rightarrow> bool" where
  "command_safe t job \<longleftrightarrow> Command (Payload job) \<noteq> [] \<longrightarrow>
     ToolExecEnabled t \<and> IsInternalChannel (PayloadChannel (Payload job)) \<and> \<not> Deliver (Payload job)"

lemma safe_update_any:
  "list_all P jobs \<Longrightarrow> (\<And>j. P (f j)) \<Longrightarrow> list_all P (update_first i f jobs)"
  by (induction jobs) auto

lemma payload_kept [simp]: "Payload (set_next x job) = Payload job" "Payload (record_run a b e job) = Payload job"
  "Payload (enable nt now on job) = Payload job"
  by (simp_all add: set_next_def record_run_def enable_def)

lemma safe_jobs:
  assumes "list_all (command_safe t) (Jobs cs)"
  shows "list_all (command_safe t) (Jobs (fst (removeJobUnsafe io_ok cs i)))"
    and "list_all (command_safe t) (Jobs (fst (EnableJob nt io_ok now cs i on)))"
    and "list_all (command_safe t) (Jobs (exec_finish nt io_ok t0 now err cs i))"
proof -
  have upd: "list_all (command_safe t) (update_first i f jobs)"
    if "list_all (command_safe t) jobs" and "\<And>j. Payload (f j) = Payload j" for f jobs
    using that by (induction jobs) (simp_all add: command_safe_def)
  have gone: "list_all (command_safe t) (Jobs (fst (removeJobUnsafe io_ok cs i)))"
    if "list_all (command_safe t) (Jobs cs)" for cs
    using that by (auto simp: removeJobUnsafe_def Let_def list_all_iff)
  show "list_all (command_safe t) (Jobs (fst (removeJobUnsafe io_ok cs i)))" by (rule gone [OF assms])
  show "list_all (command_safe t) (Jobs (fst (EnableJob nt io_ok now cs i on)))"
    using assms by (simp add: EnableJob_def upd split: option.split)
  show "list_all (command_safe t) (Jobs (exec_finish nt io_ok t0 now err cs i))"
    using assms by (simp add: exec_finish_def Let_def upd gone split: option.split)
qed

lemma addJob_safe:
  assumes "list_all (command_safe t) (Jobs cs)" and "addJob nt ioerr t call channel chatID args cs = (cs', r)"
  shows "list_all (command_safe t) (Jobs cs')"
proof -
  have new: "command_safe t (new_job nt now i n sched m deliver ch to)" for now i n sched m deliver ch to
    by (simp add: command_safe_def new_job_def)
  have cmd: "command_safe t (job\<lparr>Payload := (Payload job)\<lparr>Command := c\<rparr>, UpdatedAtMS := now\<rparr>)"
    if "ToolExecEnabled t" "IsInternalChannel ch" "job = new_job nt now' i n sched m False ch to" for job c now now' i n sched m ch to
    using that by (simp add: command_safe_def new_job_def)
  show ?thesis
    using assms
    by (auto simp: addJob_def Let_def AddJob_def UpdateJob_def saveStoreUnsafe_def command_refused_def new
        split: if_splits option.splits intro!: safe_update_any cmd)
qed

lemma tool_safe:
  assumes "list_all (command_safe t) (Jobs cs)" and "CronTool_Execute nt ioerr t call channel chatID args cs = (cs', r)"
  shows "list_all (command_safe t) (Jobs cs')"
proof -
  have remove: "list_all (command_safe t) (Jobs (fst (removeJob io args cs)))" for io
    using assms(1) safe_jobs(1) [OF assms(1)] by (auto simp: removeJob_def RemoveJob_def split: option.split prod.split) (metis fst_conv)+
  have enable: "list_all (command_safe t) (Jobs (fst (enableJob nt io now args on cs)))" for io now on
    using assms(1) safe_jobs(2) [OF assms(1), of nt io now] by (auto simp: enableJob_def split: option.split prod.split) (metis fst_conv)+
  show ?thesis
    using assms(2) addJob_safe [OF assms(1)] assms(1) remove [of "ChangeSaved call"]
      enable [of "ChangeSaved call" "ChangedAt call" True] enable [of "ChangeSaved call" "ChangedAt call" False]
    by (auto simp: CronTool_Execute_def split: option.splits if_splits)
qed

text \<open>The uses of the service: calls of the tool and runs of jobs.\<close>

datatype cron_use = ToolUse cron_call string string "(string \<times> json) list" | RunUse bool int int string

definition cron_use :: "(string \<Rightarrow> int \<Rightarrow> int option) \<Rightarrow> string \<Rightarrow> cron_tool \<Rightarrow> (CronJob \<Rightarrow> string option) \<Rightarrow> CronService \<Rightarrow> cron_use \<Rightarrow> CronService" where
  "cron_use next_tick ioerr t handler cs u =
     (case u of
        ToolUse call channel chatID args \<Rightarrow> fst (CronTool_Execute next_tick ioerr t call channel chatID args cs)
      | RunUse io_ok t0 now jobID \<Rightarrow> executeJobByID next_tick io_ok t0 now handler cs jobID)"

text \<open>C32. A command is only ever scheduled from an internal channel, and it runs there: however the tool is called and the jobs run, every
  job with a command was given one while commands were enabled, belongs to an internal channel and is not delivered as a message.\<close>

theorem commands_stay_internal:
  assumes "job \<in> set (Jobs (foldl (cron_use next_tick ioerr t handler) \<lparr>Jobs = [], store_file = NoJobFile, running = True\<rparr> uses))"
    and "Command (Payload job) \<noteq> []"
  shows "ToolExecEnabled t \<and> IsInternalChannel (PayloadChannel (Payload job)) \<and> \<not> Deliver (Payload job)"
proof -
  have step: "list_all (command_safe t) (Jobs (cron_use next_tick ioerr t handler cs u))" if "list_all (command_safe t) (Jobs cs)" for cs u
  proof (cases u)
    case (ToolUse call channel chatID args)
    show ?thesis unfolding cron_use_def ToolUse cron_use.case by (rule tool_safe [OF that surjective_pairing])
  next
    case (RunUse io_ok t0 now jobID)
    then show ?thesis using that safe_jobs(3) [OF that] by (simp add: cron_use_def executeJobByID_def split: option.split)
  qed
  have "list_all (command_safe t) (Jobs (foldl (cron_use next_tick ioerr t handler) cs uses))" if "list_all (command_safe t) (Jobs cs)" for cs
    using that by (induction uses arbitrary: cs) (simp_all add: step)
  from this [of "\<lparr>Jobs = [], store_file = NoJobFile, running = True\<rparr>"] assms show ?thesis
    by (auto simp: list_all_iff command_safe_def)
qed

section \<open>What is recorded of a run\<close>

text \<open>A failed run is recorded as a success: when the agent fails, the service still writes that the last run was in order and that
  there was no error; a job for one time is even deleted.\<close>

theorem failed_run_recorded_ok:
  assumes "find_job cs jobID = Some job" and "Command (Payload job) = []" and "\<not> Deliver (Payload job)"
    and "\<And>m k c d. run_agent m k c d = Inl e"
  shows "RunResult (ExecuteJob run_exec run_agent t job) = ''Error: '' @ e \<and>
    (case find_job (executeJobByID next_tick io_ok t0 now (snd \<circ> gateway_onJob run_exec run_agent t) cs jobID) jobID of
       Some job' \<Rightarrow> LastStatus (State job') = ''ok'' \<and> LastError (State job') = []
     | None \<Rightarrow> SchedKind (Schedule job) = ''at'' \<and> DeleteAfterRun job)"
proof
  show "RunResult (ExecuteJob run_exec run_agent t job) = ''Error: '' @ e" using assms by (simp add: ExecuteJob_def Let_def)
  have none: "(snd \<circ> gateway_onJob run_exec run_agent t) job = None" by (simp add: gateway_onJob_def)
  show "case find_job (executeJobByID next_tick io_ok t0 now (snd \<circ> gateway_onJob run_exec run_agent t) cs jobID) jobID of
       Some job' \<Rightarrow> LastStatus (State job') = ''ok'' \<and> LastError (State job') = []
     | None \<Rightarrow> SchedKind (Schedule job) = ''at'' \<and> DeleteAfterRun job"
    unfolding executeJobByID_def exec_lookup_def assms(1) option.case none find_job_finish [OF assms(1)]
    by (simp add: set_next_def record_run_def)
qed

theorem failed_run_recorded_ok_witness:
  "case find_job (executeJobByID (\<lambda>_ _. None) True 5 6 (snd \<circ> gateway_onJob (\<lambda>_ _ _. ErrorResult []) (\<lambda>_ _ _ _. Inl ''down'')
       \<lparr>ToolExecEnabled = True, AllowCommand = True, HookEnabled = False\<rparr>)
     ((demo_service ''every'')\<lparr>Jobs := [(demo_job ''every'')\<lparr>Payload := (Payload (demo_job ''every''))\<lparr>Deliver := False\<rparr>\<rparr>]\<rparr>) ''j'') ''j'' of
     Some job' \<Rightarrow> LastStatus (State job') = ''ok'' | None \<Rightarrow> False"
proof -
  let ?job = "(demo_job ''every'')\<lparr>Payload := (Payload (demo_job ''every''))\<lparr>Deliver := False\<rparr>\<rparr>"
  let ?cs = "(demo_service ''every'')\<lparr>Jobs := [?job]\<rparr>"
  have job: "find_job ?cs ''j'' = Some ?job" "Command (Payload ?job) = []" "\<not> Deliver (Payload ?job)" "SchedKind (Schedule ?job) \<noteq> ''at''"
    by (simp_all add: find_job_def demo_job_def new_job_def)
  from failed_run_recorded_ok [OF job(1-3), where run_agent = "\<lambda>_ _ _ _. Inl ''down''" and e = "''down''"
      and run_exec = "\<lambda>_ _ _. ErrorResult []" and t = "\<lparr>ToolExecEnabled = True, AllowCommand = True, HookEnabled = False\<rparr>"
      and next_tick = "\<lambda>_ _. None" and io_ok = True and ?t0.0 = 5 and now = 6] job(4) show ?thesis
    by (cases "find_job (executeJobByID (\<lambda>_ _. None) True 5 6 (snd \<circ> gateway_onJob (\<lambda>_ _ _. ErrorResult []) (\<lambda>_ _ _ _. Inl ''down'')
        \<lparr>ToolExecEnabled = True, AllowCommand = True, HookEnabled = False\<rparr>) ?cs ''j'') ''j''") simp_all
qed

text \<open>A schedule that never comes is accepted: the tool reports a new job although its expression has no next tick, and the job is never due.\<close>

theorem dead_expression_accepted:
  assumes "string_arg args ''cron_expr'' = Some e" and "e \<noteq> []" and "\<And>now. next_tick e now = None"
    and "int_arg args ''at_seconds'' = None" and "int_arg args ''every_seconds'' = None"
    and "string_arg args ''message'' = Some m" and "m \<noteq> []" and "string_arg args ''command'' = None"
    and "channel \<noteq> []" and "chatID \<noteq> []" and "AddSaved call"
    and "addJob next_tick ioerr t call channel chatID args cs = (cs', r)"
  shows "\<not> IsError r \<and> (\<exists>job. Jobs cs' = Jobs cs @ [job] \<and> Enabled job \<and> (\<forall>now. \<not> is_due now job) \<and>
    (\<forall>now. computeNextRun next_tick (Schedule job) now = None))"
proof -
  have sched: "asked_schedule (AskedAt call) args = Some (blank_schedule\<lparr>SchedKind := ''cron'', Expr := e\<rparr>)"
    using assms(1,2,4,5) by (simp add: asked_schedule_def)
  have none: "computeNextRun next_tick (blank_schedule\<lparr>SchedKind := ''cron'', Expr := e\<rparr>) now = None" for now
    using assms(3) by (simp add: computeNextRun_def blank_schedule_def)
  from assms(12) show ?thesis
    using assms(6-11) by (auto simp: addJob_def Let_def sched AddJob_def saveStoreUnsafe_def new_job_def is_due_def none)
qed

definition demo_tool :: cron_tool where
  "demo_tool = \<lparr>ToolExecEnabled = True, AllowCommand = True, HookEnabled = True\<rparr>"

definition demo_call :: cron_call where
  "demo_call = \<lparr>AskedAt = 1, AddedAt = 2, ChangedAt = 3, FreshID = ''j'', AddSaved = True, ChangeSaved = False\<rparr>"

definition no_jobs :: CronService where
  "no_jobs = \<lparr>Jobs = [], store_file = NoJobFile, running = True\<rparr>"

theorem dead_expression_accepted_witness:
  "\<exists>cs' r job. addJob (\<lambda>_ _. None) [] demo_tool demo_call ''cli'' ''me'' [(''cron_expr'', JString ''99 * * * *''), (''message'', JString ''hi'')] no_jobs = (cs', r) \<and>
     \<not> IsError r \<and> Jobs cs' = [job] \<and> (\<forall>now. \<not> is_due now job)"
proof -
  let ?args = "[(''cron_expr'', JString ''99 * * * *''), (''message'', JString ''hi'')]"
  obtain cs' r where run: "addJob (\<lambda>_ _. None) [] demo_tool demo_call ''cli'' ''me'' ?args no_jobs = (cs', r)" by fastforce
  have args: "string_arg ?args ''cron_expr'' = Some ''99 * * * *''" "int_arg ?args ''at_seconds'' = None" "int_arg ?args ''every_seconds'' = None"
    "string_arg ?args ''message'' = Some ''hi''" "string_arg ?args ''command'' = None"
    by (simp_all add: string_arg_def int_arg_def)
  have "AddSaved demo_call" "Jobs no_jobs = []" by (simp_all add: demo_call_def no_jobs_def)
  with dead_expression_accepted [OF args(1) _ _ args(2-4) _ args(5) _ _ _ run] run show ?thesis by fastforce
qed

text \<open>A command may get lost: when the job is saved but its command is not, the tool still reports success, and after a restart the
  job has no command, so that its message goes to the agent instead.\<close>

theorem command_lost:
  assumes "string_arg args ''command'' = Some c" and "c \<noteq> []" and "AddSaved call" and "\<not> ChangeSaved call"
    and "find_job cs (FreshID call) = None" and "addJob next_tick ioerr t call channel chatID args cs = (cs', r)" and "\<not> IsError r"
  shows "\<exists>job. store_file cs' = JobFile (Jobs cs @ [job]) \<and> JobID job = FreshID call \<and> Command (Payload job) = [] \<and> \<not> Deliver (Payload job)"
  using assms(1-4,6,7)
  by (auto simp: addJob_def Let_def AddJob_def saveStoreUnsafe_def UpdateJob_def new_job_def split: if_splits option.splits)

theorem command_lost_witness:
  "\<exists>cs' r job. addJob (\<lambda>_ _. None) [] demo_tool demo_call ''cli'' ''me''
       [(''every_seconds'', JInt 60), (''message'', JString ''disk''), (''command'', JString ''df'')] no_jobs = (cs', r) \<and>
     \<not> IsError r \<and> store_file cs' = JobFile [job] \<and> Command (Payload job) = []"
proof -
  let ?args = "[(''every_seconds'', JInt 60), (''message'', JString ''disk''), (''command'', JString ''df'')]"
  obtain cs' r where run: "addJob (\<lambda>_ _. None) [] demo_tool demo_call ''cli'' ''me'' ?args no_jobs = (cs', r)" by fastforce
  have "\<not> IsError (snd (addJob (\<lambda>_ _. None) [] demo_tool demo_call ''cli'' ''me'' ?args no_jobs))" by code_simp
  moreover have "string_arg ?args ''command'' = Some ''df''" by (simp add: string_arg_def)
  moreover have "AddSaved demo_call" "\<not> ChangeSaved demo_call" "find_job no_jobs (FreshID demo_call) = None" "Jobs no_jobs = []"
    by (simp_all add: demo_call_def no_jobs_def find_job_def)
  ultimately show ?thesis using command_lost [OF _ _ _ _ _ run] run by fastforce
qed

theorem commands_stay_internal_witness:
  "IsInternalChannel (PayloadChannel (Payload (hd (Jobs (fst (CronTool_Execute (\<lambda>_ _. None) [] demo_tool (demo_call\<lparr>ChangeSaved := True\<rparr>) ''cli'' ''me''
     [(''action'', JString ''add''), (''every_seconds'', JInt 60), (''message'', JString ''disk''), (''command'', JString ''df'')] no_jobs))))))"
proof -
  let ?args = "[(''action'', JString ''add''), (''every_seconds'', JInt 60), (''message'', JString ''disk''), (''command'', JString ''df'')]"
  let ?call = "demo_call\<lparr>ChangeSaved := True\<rparr>"
  let ?cs = "fst (CronTool_Execute (\<lambda>_ _. None) [] demo_tool ?call ''cli'' ''me'' ?args no_jobs)"
  have "Jobs ?cs \<noteq> []" and cmd: "Command (Payload (hd (Jobs ?cs))) \<noteq> []" by code_simp+
  then have "hd (Jobs ?cs) \<in> set (Jobs ?cs)" by simp
  then have "hd (Jobs ?cs) \<in> set (Jobs (foldl (cron_use (\<lambda>_ _. None) [] demo_tool (\<lambda>_. None)) \<lparr>Jobs = [], store_file = NoJobFile, running = True\<rparr>
      [ToolUse ?call ''cli'' ''me'' ?args]))"
    by (simp add: cron_use_def no_jobs_def)
  from commands_stay_internal [OF this cmd] show ?thesis by blast
qed

section \<open>Delivery of the webhook\<close>

definition accepted :: "hook_reply \<Rightarrow> bool" where
  "accepted r \<longleftrightarrow> (case r of Status s \<Rightarrow> 200 \<le> s \<and> s < 300 | NetworkError \<Rightarrow> False)"

definition retried :: "hook_reply \<Rightarrow> bool" where
  "retried r \<longleftrightarrow> (case r of Status s \<Rightarrow> \<not> accepted r \<and> (s < 400 \<or> s = 429) | NetworkError \<Rightarrow> True)"

lemma hook_step:
  "hook_attempts reply cancelled a (Suc left) =
     (if accepted (reply a) then (a, Delivered) else if \<not> retried (reply a) then (a, Rejected)
      else if 0 < left \<and> cancelled a then (a, Cancelled) else hook_attempts reply cancelled (Suc a) left)"
  by (cases "reply a") (auto simp: Let_def accepted_def retried_def)

declare hook_attempts.simps(2) [simp del]

lemma hook_attempts_exact:
  "hook_attempts reply cancelled a (Suc left) = (n, outcome) \<Longrightarrow>
   a \<le> n \<and> n \<le> a + left \<and> (\<forall>k. a \<le> k \<and> k < n \<longrightarrow> retried (reply k)) \<and> (outcome = Delivered \<longleftrightarrow> accepted (reply n))"
proof (induction left arbitrary: a)
  case 0
  then show ?case by (auto simp: hook_step split: if_splits)
next
  case (Suc left)
  show ?case
  proof (cases "retried (reply a) \<and> \<not> accepted (reply a) \<and> \<not> cancelled a")
    case False
    then have "n = a" "outcome = Delivered \<longleftrightarrow> accepted (reply a)"
      using Suc.prems unfolding hook_step [of reply cancelled a "Suc left"] by (auto split: if_splits)
    then show ?thesis by auto
  next
    case True
    then have "hook_attempts reply cancelled (Suc a) (Suc left) = (n, outcome)"
      using Suc.prems unfolding hook_step [of reply cancelled a "Suc left"] by simp
    from Suc.IH [OF this] have *: "Suc a \<le> n" "n \<le> Suc a + left" "\<forall>k. Suc a \<le> k \<and> k < n \<longrightarrow> retried (reply k)"
      "outcome = Delivered \<longleftrightarrow> accepted (reply n)" by auto
    have "retried (reply k)" if "a \<le> k" "k < n" for k using *(3) True that by (cases "k = a") auto
    with * show ?thesis by simp
  qed
qed

text \<open>The webhook is delivered by one of at most three requests, each but the last of which was answered in a way that is tried again;
  no request follows the one that was accepted.\<close>

theorem webhook_requests:
  "SendWebhook reply cancelled = (n, outcome) \<Longrightarrow> 1 \<le> n \<and> n \<le> 3 \<and> (\<forall>k. 1 \<le> k \<and> k < n \<longrightarrow> retried (reply k)) \<and>
     (outcome = Delivered \<longleftrightarrow> accepted (reply n))"
  using hook_attempts_exact [of reply cancelled 1 2 n outcome] by (simp add: SendWebhook_def numeral_3_eq_3 numeral_2_eq_2)

text \<open>Server errors are not tried again: after the first answer with a status of 500 or more the webhook gives up, although the
  comment promises up to three attempts for them.\<close>

theorem webhook_server_error:
  "500 \<le> s \<Longrightarrow> reply 1 = Status s \<Longrightarrow> SendWebhook reply cancelled = (1, Rejected)"
  by (simp add: SendWebhook_def numeral_3_eq_3 hook_step accepted_def retried_def)

theorem webhook_requests_witness: "retried (Status 429) \<and> accepted (Status 204)"
proof -
  have "SendWebhook (\<lambda>n. if n = 1 then Status 429 else Status 204) (\<lambda>_. False) = (2, Delivered)" by code_simp
  from webhook_requests [OF this] show ?thesis by (auto dest: spec [of _ 1])
qed

theorem webhook_server_error_witness: "SendWebhook (\<lambda>_. Status 503) (\<lambda>_. False) = (1, Rejected)"
  by (rule webhook_server_error [where s = 503]) simp_all

end
