(* ===== verification/SearchCache.thy ===== *)
theory SearchCache
  imports Float64
begin

text \<open>
  The cache of skill searches (\<open>pkg/skills/search_cache.go\<close>): entries by normalized query, an order of use and a life time. A query
  that is not there may be answered from a similar one; similarity compares the sets of three-byte pieces of the two queries. The order
  in which Go visits the map of entries is an argument, and so is the time of each call.
\<close>

section \<open>Similarity\<close>

type_synonym trigram = nat

definition normalizeQuery :: "string \<Rightarrow> string" where
  "normalizeQuery q = ToLower (TrimSpace q)"

fun pieces :: "string \<Rightarrow> trigram list" where
  "pieces (a # b # c # s) = (of_char a * 2 ^ 16 + of_char b * 2 ^ 8 + of_char c) # pieces (b # c # s)"
| "pieces _ = []"

text \<open>Sorted, and each piece once.\<close>

definition buildTrigrams :: "string \<Rightarrow> trigram list" where
  "buildTrigrams s = remdups_adj (sort (pieces s))"

fun common :: "trigram list \<Rightarrow> trigram list \<Rightarrow> nat" where
  "common (x # xs) (y # ys) =
     (if x = y then Suc (common xs ys) else if x < y then common xs (y # ys) else common (x # xs) ys)"
| "common _ _ = 0"

text \<open>The quotient is a \<open>float64\<close>.\<close>

definition jaccardSimilarity :: "trigram list \<Rightarrow> trigram list \<Rightarrow> rat" where
  "jaccardSimilarity a b =
     (if a = [] \<and> b = [] then 1
      else fl (of_nat (common a b) / of_nat (length a + length b - common a b)))"

definition similarityThreshold :: rat where
  "similarityThreshold = fl (7 / 10)"

section \<open>The cache\<close>

record 'r cacheEntry =
  EntryQuery :: string
  EntryTrigrams :: "trigram list"
  EntryResults :: 'r
  EntryCreated :: int

record 'r SearchCache =
  CacheEntries :: "(string \<times> 'r cacheEntry) list"
  UseOrder :: "string list"  \<comment> \<open>oldest first\<close>
  MaxEntries :: nat
  LifeTime :: int

definition NewSearchCache :: "int \<Rightarrow> int \<Rightarrow> 'r SearchCache" where
  "NewSearchCache maxEntries ttl =
     \<lparr>CacheEntries = [], UseOrder = [], MaxEntries = (if maxEntries \<le> 0 then 50 else nat maxEntries),
      LifeTime = (if ttl \<le> 0 then 5 * 60 * 1000000000 else ttl)\<rparr>"

definition new_entry :: "int \<Rightarrow> string \<Rightarrow> 'r \<Rightarrow> 'r cacheEntry" where
  "new_entry now q results = \<lparr>EntryQuery = q, EntryTrigrams = buildTrigrams q, EntryResults = results, EntryCreated = now\<rparr>"

definition fresh :: "'r SearchCache \<Rightarrow> int \<Rightarrow> 'r cacheEntry \<Rightarrow> bool" where
  "fresh sc now e \<longleftrightarrow> now - EntryCreated e < LifeTime sc"

definition moveToEnd :: "string \<Rightarrow> string list \<Rightarrow> string list" where
  "moveToEnd key order = remove1 key order @ [key]"

text \<open>The best fresh entry among those visited, with its similarity; the first one wins a tie.\<close>

definition better :: "'r SearchCache \<Rightarrow> int \<Rightarrow> trigram list \<Rightarrow> ('r cacheEntry option \<times> rat) \<Rightarrow> 'r cacheEntry \<Rightarrow> 'r cacheEntry option \<times> rat" where
  "better sc now q best e =
     (if \<not> fresh sc now e then best
      else let sim = jaccardSimilarity q (EntryTrigrams e) in if snd best < sim then (Some e, sim) else best)"

definition best_match :: "'r SearchCache \<Rightarrow> int \<Rightarrow> trigram list \<Rightarrow> 'r cacheEntry list \<Rightarrow> 'r cacheEntry option \<times> rat" where
  "best_match sc now q visited = foldl (better sc now q) (None, 0) visited"

definition Get :: "(string list \<Rightarrow> string list) \<Rightarrow> 'r SearchCache \<Rightarrow> int \<Rightarrow> string \<Rightarrow> 'r SearchCache \<times> 'r option" where
  "Get visit sc now query =
     (let q = normalizeQuery query in
      if q = [] then (sc, None)
      else
        (case (case map_of (CacheEntries sc) q of Some e \<Rightarrow> if fresh sc now e then Some e else None | None \<Rightarrow> None) of
           Some e \<Rightarrow> (sc\<lparr>UseOrder := moveToEnd q (UseOrder sc)\<rparr>, Some (EntryResults e))
         | None \<Rightarrow>
             let visited = List.map_filter (map_of (CacheEntries sc)) (visit (map fst (CacheEntries sc)))
             in (case best_match sc now (buildTrigrams q) visited of
                   (Some e, sim) \<Rightarrow>
                     if similarityThreshold \<le> sim
                     then (sc\<lparr>UseOrder := moveToEnd (EntryQuery e) (UseOrder sc)\<rparr>, Some (EntryResults e))
                     else (sc, None)
                 | (None, _) \<Rightarrow> (sc, None))))"

definition evictExpired :: "int \<Rightarrow> 'r SearchCache \<Rightarrow> 'r SearchCache" where
  "evictExpired now sc =
     (let live = (\<lambda>k. case map_of (CacheEntries sc) k of Some e \<Rightarrow> fresh sc now e | None \<Rightarrow> False)
      in sc\<lparr>CacheEntries := filter (\<lambda>(k, e). k \<in> set (UseOrder sc) \<longrightarrow> live k) (CacheEntries sc), UseOrder := filter live (UseOrder sc)\<rparr>)"

text \<open>Removes the least recently used entries until there is room.\<close>

fun make_room :: "nat \<Rightarrow> (string \<times> 'r cacheEntry) list \<Rightarrow> string list \<Rightarrow> (string \<times> 'r cacheEntry) list \<times> string list" where
  "make_room limit es [] = (es, [])"
| "make_room limit es (oldest # order) =
     (if limit \<le> length es then make_room limit (assoc_del oldest es) order else (es, oldest # order))"

definition Put :: "'r SearchCache \<Rightarrow> int \<Rightarrow> string \<Rightarrow> 'r \<Rightarrow> 'r SearchCache" where
  "Put sc now query results =
     (let q = normalizeQuery query in
      if q = [] then sc
      else
        let sc1 = evictExpired now sc in
        if map_of (CacheEntries sc1) q \<noteq> None
        then sc1\<lparr>CacheEntries := assoc_put q (new_entry now q results) (CacheEntries sc1), UseOrder := moveToEnd q (UseOrder sc1)\<rparr>
        else
          let (es, order) = make_room (MaxEntries sc1) (CacheEntries sc1) (UseOrder sc1)
          in sc1\<lparr>CacheEntries := assoc_put q (new_entry now q results) es, UseOrder := order @ [q]\<rparr>)"

section \<open>Similarity is that of the sets of pieces\<close>

lemma common_card:
  "sorted_wrt (<) xs \<Longrightarrow> sorted_wrt (<) ys \<Longrightarrow> common xs ys = card (set xs \<inter> set ys)"
proof (induction xs ys rule: common.induct)
  case (1 x xs y ys)
  have notin: "x \<notin> set xs" "y \<notin> set ys" using 1(4,5) by auto
  consider "x = y" | "x < y" | "y < x" by linarith
  then show ?case
  proof cases
    case 1
    then have "set (x # xs) \<inter> set (y # ys) = insert x (set xs \<inter> set ys)" by auto
    with 1 "1.IH"(1) "1.prems" notin show ?thesis by simp
  next
    case 2
    then have "x \<notin> set (y # ys)" using "1.prems"(2) by auto
    then have "set (x # xs) \<inter> set (y # ys) = set xs \<inter> set (y # ys)" by auto
    with 2 "1.IH"(2) "1.prems" show ?thesis by simp
  next
    case 3
    then have "y \<notin> set (x # xs)" using "1.prems"(1) by auto
    then have "set (x # xs) \<inter> set (y # ys) = set (x # xs) \<inter> set ys" by auto
    with 3 "1.IH"(3) "1.prems" show ?thesis by simp
  qed
qed simp_all

lemma distinct_adj_sorted: "sorted xs \<Longrightarrow> distinct (remdups_adj (xs :: nat list))"
proof (induction xs rule: remdups_adj.induct)
  case (3 x y xs)
  then have "x \<notin> set (y # xs)" if "x \<noteq> y" using that by fastforce
  with 3 show ?case by (auto simp del: remdups_adj.simps(2))
qed simp_all

lemma trigrams_sorted: "sorted_wrt (<) (buildTrigrams s)"
  by (simp add: buildTrigrams_def strict_sorted_iff distinct_adj_sorted)

lemma trigrams_set [simp]: "set (buildTrigrams s) = set (pieces s)"
  by (simp add: buildTrigrams_def)

lemma trigrams_length: "length (buildTrigrams s) = card (set (pieces s))"
proof -
  have "distinct (buildTrigrams s)" using trigrams_sorted [of s] strict_sorted_iff by blast
  from distinct_card [OF this] show ?thesis by simp
qed

text \<open>The merge of two sorted lists computes the similarity of Jaccard: the number of pieces in both queries over the number in either.\<close>

theorem jaccard_exact:
  "jaccardSimilarity (buildTrigrams s) (buildTrigrams t) =
     (if pieces s = [] \<and> pieces t = [] then 1
      else fl (of_nat (card (set (pieces s) \<inter> set (pieces t))) / of_nat (card (set (pieces s) \<union> set (pieces t)))))"
proof -
  have c: "common (buildTrigrams s) (buildTrigrams t) = card (set (pieces s) \<inter> set (pieces t))"
    using common_card [OF trigrams_sorted trigrams_sorted] by simp
  have "card (set (pieces s)) + card (set (pieces t)) = card (set (pieces s) \<union> set (pieces t)) + card (set (pieces s) \<inter> set (pieces t))"
    by (rule card_Un_Int) simp_all
  then have u: "length (buildTrigrams s) + length (buildTrigrams t) - common (buildTrigrams s) (buildTrigrams t) = card (set (pieces s) \<union> set (pieces t))"
    by (simp add: c trigrams_length)
  have e: "buildTrigrams x = [] \<longleftrightarrow> pieces x = []" for x
    using trigrams_set [of x] by (metis set_empty)
  show ?thesis unfolding jaccardSimilarity_def u unfolding c e ..
qed

section \<open>The entries and their order\<close>

definition search_inv :: "'r SearchCache \<Rightarrow> bool" where
  "search_inv sc \<longleftrightarrow> distinct (map fst (CacheEntries sc)) \<and> distinct (UseOrder sc) \<and> set (UseOrder sc) = fst ` set (CacheEntries sc) \<and>
     length (CacheEntries sc) \<le> MaxEntries sc \<and> 0 < MaxEntries sc \<and>
     (\<forall>k e. map_of (CacheEntries sc) k = Some e \<longrightarrow> EntryQuery e = k \<and> EntryTrigrams e = buildTrigrams k)"

lemma move_end: "distinct order \<Longrightarrow> key \<in> set order \<Longrightarrow> distinct (moveToEnd key order) \<and> set (moveToEnd key order) = set order"
  by (auto simp: moveToEnd_def)

lemma keys_of: "k \<in> fst ` set m \<longleftrightarrow> map_of m k \<noteq> None"
  by (auto simp: map_of_eq_None_iff)

lemma evict_inv:
  assumes "search_inv sc"
  shows "search_inv (evictExpired now sc)"
proof -
  have keep: "map_of (filter (\<lambda>(k, e). P k) m) k = (if P k then map_of m k else None)" for P k and m :: "(string \<times> 'a cacheEntry) list"
    by (induction m) auto
  let ?live = "\<lambda>k. case map_of (CacheEntries sc) k of Some e \<Rightarrow> fresh sc now e | None \<Rightarrow> False"
  have es: "CacheEntries (evictExpired now sc) = filter (\<lambda>(k, e). k \<in> set (UseOrder sc) \<longrightarrow> ?live k) (CacheEntries sc)"
    and order: "UseOrder (evictExpired now sc) = filter ?live (UseOrder sc)"
    and limit: "MaxEntries (evictExpired now sc) = MaxEntries sc"
    by (simp_all add: evictExpired_def Let_def)
  have look: "map_of (CacheEntries (evictExpired now sc)) k = (if ?live k then map_of (CacheEntries sc) k else None)" for k
    unfolding es keep using assms by (auto simp: search_inv_def keys_of split: option.split)
  have "k \<in> set (UseOrder (evictExpired now sc)) \<longleftrightarrow> k \<in> fst ` set (CacheEntries (evictExpired now sc))" for k
    unfolding keys_of look order using assms keys_of [of k "CacheEntries sc"] by (auto simp: search_inv_def split: option.split)
  then have "set (UseOrder (evictExpired now sc)) = fst ` set (CacheEntries (evictExpired now sc))" by blast
  moreover have "distinct (map fst (CacheEntries (evictExpired now sc)))" "distinct (UseOrder (evictExpired now sc))"
    unfolding es order using assms by (auto simp: search_inv_def distinct_filter_keys)
  moreover have "length (CacheEntries (evictExpired now sc)) \<le> MaxEntries sc"
    unfolding es using assms by (auto simp: search_inv_def intro: order_trans [OF length_filter_le])
  ultimately show ?thesis using assms look limit by (simp add: search_inv_def)
qed

lemma room_inv:
  assumes "make_room limit es order = (es', order')" and "distinct (map fst es)" and "distinct order" and "set order = fst ` set es" and "0 < limit"
  shows "distinct (map fst es') \<and> distinct order' \<and> set order' = fst ` set es' \<and> length es' < limit \<and>
    (\<forall>k e. map_of es' k = Some e \<longrightarrow> map_of es k = Some e)"
  using assms
proof (induction limit es order rule: make_room.induct)
  case (2 limit es oldest order)
  show ?case
  proof (cases "limit \<le> length es")
    case True
    have "fst ` set (assoc_del oldest es) = fst ` set es - {oldest}" by (auto simp: assoc_del_def)
    then have "set order = fst ` set (assoc_del oldest es)" using 2(4,5) by auto
    with True 2 have *: "distinct (map fst es') \<and> distinct order' \<and> set order' = fst ` set es' \<and> length es' < limit"
      and look: "\<forall>k e. map_of es' k = Some e \<longrightarrow> map_of (assoc_del oldest es) k = Some e" by simp_all
    from look have "\<forall>k e. map_of es' k = Some e \<longrightarrow> map_of es k = Some e" unfolding map_of_assoc_del by (metis option.distinct(1))
    with * show ?thesis by blast
  qed (use 2 in auto)
qed auto

lemma new_entry_fields [simp]: "EntryQuery (new_entry now q r) = q" "EntryTrigrams (new_entry now q r) = buildTrigrams q"
  "EntryResults (new_entry now q r) = r" "EntryCreated (new_entry now q r) = now"
  by (simp_all add: new_entry_def)

lemma keys_put: "fst ` set (assoc_put k v m) = insert k (fst ` set m)"
  by (auto simp: assoc_put_def)

lemma length_put: "length (assoc_put k v m) \<le> Suc (length m)"
  by (simp add: assoc_put_def)

lemma length_put_known: "distinct (map fst m) \<Longrightarrow> map_of m k \<noteq> None \<Longrightarrow> length (assoc_put k v m) = length m"
proof -
  assume d: "distinct (map fst m)" and "map_of m k \<noteq> None"
  then have "k \<in> set (map fst m)" by (simp add: map_of_eq_None_iff)
  moreover have "length (assoc_put k v m) = card (fst ` set (assoc_put k v m))" "length m = card (fst ` set m)"
    using d distinct_card [of "map fst (assoc_put k v m)"] distinct_card [of "map fst m"] by simp_all
  ultimately show ?thesis unfolding keys_put by (simp add: insert_absorb)
qed

lemma put_inv:
  assumes "search_inv sc"
  shows "search_inv (Put sc now query results)"
proof (cases "normalizeQuery query = []")
  case False
  let ?q = "normalizeQuery query" let ?sc = "evictExpired now sc"
  note inv = evict_inv [OF assms, of now, unfolded search_inv_def]
  show ?thesis
  proof (cases "map_of (CacheEntries ?sc) ?q = None")
    case True
    obtain es order where room: "make_room (MaxEntries ?sc) (CacheEntries ?sc) (UseOrder ?sc) = (es, order)" by fastforce
    have "distinct (map fst es) \<and> distinct order \<and> set order = fst ` set es \<and> length es < MaxEntries ?sc \<and>
        (\<forall>k e. map_of es k = Some e \<longrightarrow> map_of (CacheEntries ?sc) k = Some e)"
      by (rule room_inv [OF room]) (use inv in simp_all)
    then have r: "distinct (map fst es)" "distinct order" "set order = fst ` set es" "length es < MaxEntries ?sc"
      and sub: "map_of es k = Some e \<Longrightarrow> map_of (CacheEntries ?sc) k = Some e" for k e by simp_all
    then have "?q \<notin> set order" using True sub r(3) keys_of [of ?q es] by (cases "map_of es ?q") auto
    moreover have "Put sc now query results = ?sc\<lparr>CacheEntries := assoc_put ?q (new_entry now ?q results) es, UseOrder := order @ [?q]\<rparr>"
      using False True room by (simp add: Put_def Let_def)
    moreover have "length (assoc_put ?q (new_entry now ?q results) es) \<le> MaxEntries ?sc" using length_put [of ?q "new_entry now ?q results" es] r(4) by linarith
    moreover have "EntryQuery e = k \<and> EntryTrigrams e = buildTrigrams k" if "map_of es k = Some e" for k e using sub [OF that] inv by blast
    ultimately show ?thesis using r inv by (auto simp: search_inv_def keys_put simp del: map_of_eq_Some_iff)
  next
    case known: False
    then have "?q \<in> set (UseOrder ?sc)" using inv keys_of [of ?q "CacheEntries ?sc"] by blast
    with inv have "distinct (moveToEnd ?q (UseOrder ?sc))" "set (moveToEnd ?q (UseOrder ?sc)) = set (UseOrder ?sc)" using move_end by blast+
    moreover have "Put sc now query results =
        ?sc\<lparr>CacheEntries := assoc_put ?q (new_entry now ?q results) (CacheEntries ?sc), UseOrder := moveToEnd ?q (UseOrder ?sc)\<rparr>"
      using False known by (simp add: Put_def Let_def)
    ultimately show ?thesis
      using inv known length_put_known [OF _ known] \<open>?q \<in> set (UseOrder ?sc)\<close>
      by (auto simp: search_inv_def keys_put simp del: map_of_eq_Some_iff)
  qed
qed (simp add: Put_def assms)

lemma best_among:
  "best_match sc now q visited = (Some e, sim) \<Longrightarrow> e \<in> set visited \<and> fresh sc now e \<and> sim = jaccardSimilarity q (EntryTrigrams e)"
proof -
  have "case foldl (better sc now q) best visited of
      (Some e, sim) \<Rightarrow> (Some e, sim) = best \<or> e \<in> set visited \<and> fresh sc now e \<and> sim = jaccardSimilarity q (EntryTrigrams e)
    | _ \<Rightarrow> True" for best
  proof (induction visited arbitrary: best)
    case (Cons x xs)
    have "better sc now q best x = best \<or> fresh sc now x \<and> better sc now q best x = (Some x, jaccardSimilarity q (EntryTrigrams x))"
      by (auto simp: better_def Let_def)
    with Cons [of "better sc now q best x"] show ?case by (auto split: prod.splits option.splits)
  qed (auto split: prod.split option.split)
  from this [of "(None, 0)"] show "best_match sc now q visited = (Some e, sim) \<Longrightarrow> ?thesis" by (simp add: best_match_def)
qed

lemma visited_in: "e \<in> set (List.map_filter (map_of m) ks) \<Longrightarrow> \<exists>k. map_of m k = Some e"
  by (auto simp: map_filter_def simp del: map_of_eq_Some_iff)

lemma get_cases:
  assumes "Get visit sc now query = (sc', r)" and "search_inv sc"
  shows "(sc' = sc \<and> r = None) \<or>
    (\<exists>k e. map_of (CacheEntries sc) k = Some e \<and> fresh sc now e \<and> r = Some (EntryResults e) \<and> sc' = sc\<lparr>UseOrder := moveToEnd k (UseOrder sc)\<rparr> \<and>
       (k = normalizeQuery query \<or> similarityThreshold \<le> jaccardSimilarity (buildTrigrams (normalizeQuery query)) (buildTrigrams k)))"
proof (cases "\<exists>e. map_of (CacheEntries sc) (normalizeQuery query) = Some e \<and> fresh sc now e")
  case True
  then obtain e where e: "map_of (CacheEntries sc) (normalizeQuery query) = Some e" "fresh sc now e" by blast
  show ?thesis
  proof (cases "normalizeQuery query = []")
    case False
    with assms(1) e have "sc' = sc\<lparr>UseOrder := moveToEnd (normalizeQuery query) (UseOrder sc)\<rparr>" "r = Some (EntryResults e)"
      by (simp_all add: Get_def Let_def del: map_of_eq_Some_iff)
    with e show ?thesis by blast
  qed (use assms(1) in \<open>simp add: Get_def\<close>)
next
  case False
  let ?visited = "List.map_filter (map_of (CacheEntries sc)) (visit (map fst (CacheEntries sc)))"
  have none: "(case map_of (CacheEntries sc) (normalizeQuery query) of Some e \<Rightarrow> if fresh sc now e then Some e else None | None \<Rightarrow> None) = None"
    using False by (cases "map_of (CacheEntries sc) (normalizeQuery query)") auto
  show ?thesis
  proof (cases "normalizeQuery query = []")
    case nonempty: False
    obtain best sim where best: "best_match sc now (buildTrigrams (normalizeQuery query)) ?visited = (best, sim)" by fastforce
    from assms(1) nonempty have run: "(case best of Some e \<Rightarrow> if similarityThreshold \<le> sim
          then (sc\<lparr>UseOrder := moveToEnd (EntryQuery e) (UseOrder sc)\<rparr>, Some (EntryResults e)) else (sc, None) | None \<Rightarrow> (sc, None)) = (sc', r)"
      unfolding Get_def Let_def none by (simp add: best)
    show ?thesis
    proof (cases best)
      case (Some e)
      from best_among [of sc now _ ?visited e sim] best Some have e: "e \<in> set ?visited" "fresh sc now e"
        "sim = jaccardSimilarity (buildTrigrams (normalizeQuery query)) (EntryTrigrams e)" by auto
      from visited_in [OF e(1)] obtain k where k: "map_of (CacheEntries sc) k = Some e" by blast
      then have "EntryQuery e = k" "EntryTrigrams e = buildTrigrams k" using assms(2) unfolding search_inv_def by blast+
      with run Some e k show ?thesis by (auto simp del: map_of_eq_Some_iff split: if_splits)
    qed (use run in simp)
  qed (use assms(1) in \<open>simp add: Get_def\<close>)
qed

lemma get_inv:
  assumes "search_inv sc" and "Get visit sc now query = (sc', r)"
  shows "search_inv sc'"
  using get_cases [OF assms(2,1)]
proof
  assume "\<exists>k e. map_of (CacheEntries sc) k = Some e \<and> fresh sc now e \<and> r = Some (EntryResults e) \<and> sc' = sc\<lparr>UseOrder := moveToEnd k (UseOrder sc)\<rparr> \<and>
       (k = normalizeQuery query \<or> similarityThreshold \<le> jaccardSimilarity (buildTrigrams (normalizeQuery query)) (buildTrigrams k))"
  then obtain k e where k: "map_of (CacheEntries sc) k = Some e" "sc' = sc\<lparr>UseOrder := moveToEnd k (UseOrder sc)\<rparr>" by blast
  then have "k \<in> set (UseOrder sc)" using assms(1) keys_of [of k "CacheEntries sc"] by (auto simp: search_inv_def)
  with assms(1) k(2) move_end [of "UseOrder sc" k] show ?thesis unfolding search_inv_def by simp
qed (use assms(1) in simp)

section \<open>Uses of the cache\<close>

datatype 'r cache_use = UseGet "string list \<Rightarrow> string list" int string | UsePut int string 'r

definition use_cache :: "'r SearchCache \<Rightarrow> 'r cache_use \<Rightarrow> 'r SearchCache" where
  "use_cache sc u = (case u of UseGet visit now q \<Rightarrow> fst (Get visit sc now q) | UsePut now q r \<Rightarrow> Put sc now q r)"

definition cache_after :: "int \<Rightarrow> int \<Rightarrow> 'r cache_use list \<Rightarrow> 'r SearchCache" where
  "cache_after maxEntries ttl uses = foldl use_cache (NewSearchCache maxEntries ttl) uses"

lemma cache_after_inv: "search_inv (cache_after maxEntries ttl uses)"
proof -
  have "search_inv (use_cache sc u)" if "search_inv sc" for sc and u :: "'a cache_use"
    using that get_inv [OF that surjective_pairing] put_inv [OF that] by (cases u) (simp_all add: use_cache_def)
  then have "search_inv (foldl use_cache sc uses)" if "search_inv sc" for sc
    using that by (induction uses arbitrary: sc) simp_all
  moreover have "search_inv (NewSearchCache maxEntries ttl :: 'a SearchCache)" by (simp add: search_inv_def NewSearchCache_def)
  ultimately show ?thesis by (simp add: cache_after_def)
qed

text \<open>The cache keeps to its bound, whatever is asked and stored: at most the configured number of entries (50 where there is no
  positive one), each once in the order of use and none missing from it, so that the next eviction takes an entry that is there.\<close>

theorem search_cache_bounded:
  "length (CacheEntries (cache_after maxEntries ttl uses)) \<le> (if maxEntries \<le> 0 then 50 else nat maxEntries) \<and>
   distinct (UseOrder (cache_after maxEntries ttl uses)) \<and>
   set (UseOrder (cache_after maxEntries ttl uses)) = fst ` set (CacheEntries (cache_after maxEntries ttl uses))"
proof -
  have limit: "MaxEntries (use_cache sc u) = MaxEntries sc" for sc :: "'a SearchCache" and u
    by (auto simp: use_cache_def Get_def Put_def Let_def evictExpired_def split: cache_use.split option.split prod.split)
  have "MaxEntries (foldl use_cache sc uses) = MaxEntries sc" for sc :: "'a SearchCache"
    by (induction uses arbitrary: sc) (simp_all add: limit)
  then have "MaxEntries (cache_after maxEntries ttl uses) = (if maxEntries \<le> 0 then 50 else nat maxEntries)"
    by (simp add: cache_after_def NewSearchCache_def)
  then show ?thesis using cache_after_inv [of maxEntries ttl uses] by (simp add: search_inv_def)
qed

text \<open>What was stored is found again: after a query was stored, the same query, up to case and space at its ends, gives the stored
  results as long as their life time lasts, even when the cache was full.\<close>

theorem stored_query_found:
  assumes "normalizeQuery query \<noteq> []" and "normalizeQuery query' = normalizeQuery query"
    and "now' - now < LifeTime sc"
  shows "snd (Get visit (Put sc now query results) now' query') = Some results"
proof -
  let ?q = "normalizeQuery query"
  have entry: "map_of (CacheEntries (Put sc now query results)) ?q = Some (new_entry now ?q results)"
    using assms(1) by (auto simp: Put_def Let_def split: prod.split)
  have "LifeTime (Put sc now query results) = LifeTime sc"
    by (auto simp: Put_def Let_def evictExpired_def split: prod.split)
  then have "fresh (Put sc now query results) now' (new_entry now ?q results)" using assms(3) by (simp add: fresh_def)
  then show ?thesis using assms(1,2) entry by (simp add: Get_def Let_def)
qed

text \<open>A hit was stored: the results that are given belong to an entry that is still alive and whose query is the same, or similar enough.\<close>

theorem hit_was_stored:
  assumes "Get visit (cache_after maxEntries ttl uses) now query = (sc', Some r)"
  shows "\<exists>k e. map_of (CacheEntries (cache_after maxEntries ttl uses)) k = Some e \<and> EntryResults e = r \<and>
    now - EntryCreated e < LifeTime (cache_after maxEntries ttl uses) \<and>
    (k = normalizeQuery query \<or> similarityThreshold \<le> jaccardSimilarity (buildTrigrams (normalizeQuery query)) (buildTrigrams k))"
  using get_cases [OF assms cache_after_inv] unfolding fresh_def by blast

text \<open>Short queries are mixed up: queries of one or two bytes have no pieces, two such queries count as fully similar, and the one
  gets the results of the other.\<close>

theorem short_queries_mixed:
  assumes "length (normalizeQuery query) < 3" and "length (normalizeQuery query') < 3" and "normalizeQuery query \<noteq> []" and "normalizeQuery query' \<noteq> []"
    and "0 < ttl" and "now' - now < ttl" and "0 \<le> now' - now"
  shows "snd (Get (\<lambda>ks. ks) (Put (NewSearchCache maxEntries ttl) now query results) now' query') = Some results"
proof -
  let ?q = "normalizeQuery query" let ?q' = "normalizeQuery query'"
  have none: "buildTrigrams x = []" if "length x < 3" for x
    using that by (cases x rule: pieces.cases) (simp_all add: buildTrigrams_def)
  have sc: "Put (NewSearchCache maxEntries ttl) now query results =
      (NewSearchCache maxEntries ttl)\<lparr>CacheEntries := [(?q, new_entry now ?q results)], UseOrder := [?q]\<rparr>"
    using assms(3) by (simp add: Put_def Let_def evictExpired_def NewSearchCache_def assoc_put_def)
  have "fresh ((NewSearchCache maxEntries ttl)\<lparr>CacheEntries := [(?q, new_entry now ?q results)], UseOrder := [?q]\<rparr>) now' (new_entry now ?q results)"
    using assms(5,6) by (simp add: fresh_def NewSearchCache_def)
  moreover have "similarityThreshold \<le> 1" unfolding similarityThreshold_def using fl_le_int [of "7/10" 1] exponent_le_52 [of "7/10"] by simp
  moreover have "jaccardSimilarity [] [] = 1" by (simp add: jaccardSimilarity_def)
  ultimately show ?thesis
    unfolding sc using assms(4) none [OF assms(1)] none [OF assms(2)]
    by (auto simp: Get_def Let_def best_match_def better_def map_filter_def)
qed

theorem stored_query_found_witness:
  "snd (Get (\<lambda>ks. ks) (Put (NewSearchCache 1 100 :: nat SearchCache) 5 ''Git Hub'' 7) 9 '' git hub'') = Some 7"
proof -
  have "normalizeQuery ''Git Hub'' \<noteq> []" "normalizeQuery '' git hub'' = normalizeQuery ''Git Hub''" by code_simp+
  moreover have "(9::int) - 5 < LifeTime (NewSearchCache 1 100 :: nat SearchCache)" by (simp add: NewSearchCache_def)
  ultimately show ?thesis by (rule stored_query_found)
qed

theorem short_queries_mixed_witness:
  "snd (Get (\<lambda>ks. ks) (Put (NewSearchCache 1 100 :: nat SearchCache) 5 ''go'' 7) 9 ''js'') = Some 7"
proof -
  have "length (normalizeQuery ''go'') < 3" "length (normalizeQuery ''js'') < 3" "normalizeQuery ''go'' \<noteq> []" "normalizeQuery ''js'' \<noteq> []"
    by code_simp+
  then show ?thesis by (rule short_queries_mixed) simp_all
qed

theorem hit_was_stored_witness:
  "EntryResults (snd (hd (CacheEntries (cache_after 1 100 [UsePut 5 ''github'' (7::nat)])))) = 7"
proof -
  have after: "cache_after 1 100 [UsePut 5 ''github'' (7::nat)] = Put (NewSearchCache 1 100) 5 ''github'' 7"
    by (simp add: cache_after_def use_cache_def)
  have q: "normalizeQuery ''github'' = ''github''" by code_simp
  have found: "snd (Get (\<lambda>ks. ks) (cache_after 1 100 [UsePut 5 ''github'' 7]) 9 ''github'') = Some (7::nat)"
    unfolding after by (rule stored_query_found) (simp_all add: q NewSearchCache_def)
  have es: "CacheEntries (cache_after 1 100 [UsePut 5 ''github'' (7::nat)]) = [(''github'', new_entry 5 ''github'' 7)]"
    unfolding after by (simp add: Put_def q Let_def evictExpired_def NewSearchCache_def assoc_put_def)
  from found obtain sc' where "Get (\<lambda>ks. ks) (cache_after 1 100 [UsePut 5 ''github'' 7]) 9 ''github'' = (sc', Some (7::nat))"
    by (metis prod.collapse)
  from hit_was_stored [OF this] obtain k e where "map_of (CacheEntries (cache_after 1 100 [UsePut 5 ''github'' (7::nat)])) k = Some e" "EntryResults e = 7"
    by blast
  then show ?thesis unfolding es by (simp split: if_splits)
qed

end
