(* ===== verification/CacheBreaks.thy ===== *)
theory CacheBreaks
  imports Turn
begin

text \<open>
  The detector of breaks of the provider's prompt cache (\<open>pkg/agent/prompt_cache_break_detector.go\<close>): it keeps the last state of the
  prompt and its size for each session and classifies a jump of the size. The hashes of a state are arguments.
\<close>

section \<open>States of a prompt\<close>

record PromptStateSnapshot =
  SnapProvider :: string
  SystemHash :: string
  ToolsHash :: string
  PerToolHashes :: "(string \<times> string) list"
  SnapModel :: string
  OptionsHash :: string
  SystemChars :: nat
  SnapToolCount :: nat
  SnapSkillEpoch :: nat
  SnapCacheEpoch :: nat

record PromptMutators =
  DiscoveredToolsChanged :: bool
  SkillSetChanged :: bool
  ConfigChanged :: bool
  ExplicitInvalidation :: bool

definition any_mutator :: "PromptMutators \<Rightarrow> bool" where
  "any_mutator m \<longleftrightarrow> DiscoveredToolsChanged m \<or> SkillSetChanged m \<or> ConfigChanged m \<or> ExplicitInvalidation m"

datatype reason_code =
  UnexpectedBreak | ExpectedDiscoveredTools | ExpectedSkillSet | ExpectedConfig | ExpectedInvalidation | ExpectedPromptShape | ExpectedMultiMutation

record cache_diagnostic =
  ReasonCode :: reason_code
  MutationTags :: "string list"
  ChangedTools :: "string list"
  TokensPrev :: int
  TokensCurr :: int
  TokensDelta :: int
  JumpThreshold :: int
  DiagSystemChars :: nat
  DiagToolCount :: nat

record break_detector =
  PromptRecords :: "(string \<times> PromptStateSnapshot \<times> int) list"
  Diagnostics :: "(string \<times> cache_diagnostic) list"

definition NewPromptStateSnapshot ::
  "(string \<Rightarrow> string) \<Rightarrow> (ToolDefinition list \<Rightarrow> string) \<Rightarrow> (ToolDefinition \<Rightarrow> string) \<Rightarrow> string \<Rightarrow> string \<Rightarrow> ToolDefinition list \<Rightarrow> string \<Rightarrow> string \<Rightarrow>
   nat \<Rightarrow> nat \<Rightarrow> PromptStateSnapshot" where
  "NewPromptStateSnapshot hash_text hash_tools hash_tool provider systemPrompt defs model options_hash skill_epoch cache_epoch =
     (let normalized = sort_key (\<lambda>d. FDName (TDFunction d)) defs
      in \<lparr>SnapProvider = TrimSpace provider, SystemHash = hash_text systemPrompt, ToolsHash = hash_tools normalized,
          PerToolHashes = foldl (\<lambda>m d. assoc_put (FDName (TDFunction d)) (hash_tool d) m) [] normalized, SnapModel = model,
          OptionsHash = options_hash, SystemChars = length systemPrompt, SnapToolCount = length defs,
          SnapSkillEpoch = skill_epoch, SnapCacheEpoch = cache_epoch\<rparr>)"

text \<open>A name that is missing on one side has the empty hash there.\<close>

definition hash_of :: "(string \<times> string) list \<Rightarrow> string \<Rightarrow> string" where
  "hash_of m name = (case map_of m name of Some h \<Rightarrow> h | None \<Rightarrow> [])"

definition changedToolSchemas :: "(string \<times> string) list \<Rightarrow> (string \<times> string) list \<Rightarrow> string list" where
  "changedToolSchemas prev cur =
     sort (filter (\<lambda>name. hash_of prev name \<noteq> hash_of cur name) (remdups (map fst prev @ map fst cur)))"

definition modelFamily :: "string \<Rightarrow> string" where
  "modelFamily model =
     (let m = ToLower (TrimSpace model) in
      if Contains m ''gpt-5'' then ''gpt5'' else if Contains m ''gpt-4'' then ''gpt4'' else if Contains m ''claude'' then ''claude''
      else if Contains m ''gemini'' then ''gemini'' else if Contains m ''codex'' then ''codex'' else ''default'')"

definition promptJumpThreshold :: "string \<Rightarrow> string \<Rightarrow> int" where
  "promptJumpThreshold providerName model =
     (let provider = ToLower (TrimSpace providerName); family = modelFamily model in
      if Contains provider ''anthropic'' then (if family = ''claude'' then 2800 else 2400)
      else if Contains provider ''openai'' \<or> Contains provider ''azure'' then (if family = ''gpt5'' \<or> family = ''codex'' then 1600 else 1800)
      else if Contains provider ''google'' \<or> Contains provider ''gemini'' \<or> Contains provider ''antigravity'' then 2500
      else 2000)"

definition classifyExpectedReason :: "PromptMutators \<Rightarrow> bool \<Rightarrow> bool \<Rightarrow> bool \<Rightarrow> bool \<Rightarrow> reason_code \<times> string list" where
  "classifyExpectedReason c systemChanged toolsChanged modelChanged optionsChanged =
     (let tags = sort (map snd (filter fst
        [(DiscoveredToolsChanged c, ''discovered_tools''), (SkillSetChanged c, ''skill_set''), (ConfigChanged c, ''config''),
         (ExplicitInvalidation c, ''explicit_invalidation''), (systemChanged, ''system_prompt''), (toolsChanged, ''tool_schemas''),
         (modelChanged, ''model''), (optionsChanged, ''options'')]))
      in (if 1 < length tags then ExpectedMultiMutation
          else if DiscoveredToolsChanged c then ExpectedDiscoveredTools
          else if SkillSetChanged c then ExpectedSkillSet
          else if ConfigChanged c then ExpectedConfig
          else if ExplicitInvalidation c then ExpectedInvalidation
          else ExpectedPromptShape, tags))"

definition classified :: "PromptMutators \<Rightarrow> PromptStateSnapshot \<Rightarrow> PromptStateSnapshot \<Rightarrow> PromptMutators" where
  "classified m prev s =
     \<lparr>DiscoveredToolsChanged = (DiscoveredToolsChanged m \<or> ToolsHash prev \<noteq> ToolsHash s),
      SkillSetChanged = (SkillSetChanged m \<or> SnapSkillEpoch prev \<noteq> SnapSkillEpoch s),
      ConfigChanged = (ConfigChanged m \<or> SnapModel prev \<noteq> SnapModel s \<or> OptionsHash prev \<noteq> OptionsHash s),
      ExplicitInvalidation = (ExplicitInvalidation m \<or> SnapCacheEpoch prev \<noteq> SnapCacheEpoch s)\<rparr>"

definition diagnose :: "PromptMutators \<Rightarrow> PromptStateSnapshot \<Rightarrow> int \<Rightarrow> PromptStateSnapshot \<Rightarrow> int \<Rightarrow> cache_diagnostic option" where
  "diagnose m prev prevTokens s tokens =
     (let threshold = promptJumpThreshold (SnapProvider s) (SnapModel s); c = classified m prev s;
          systemChanged = (SystemHash prev \<noteq> SystemHash s); toolsChanged = (ToolsHash prev \<noteq> ToolsHash s);
          modelChanged = (SnapModel prev \<noteq> SnapModel s); optionsChanged = (OptionsHash prev \<noteq> OptionsHash s);
          (reason, tags) =
            (if any_mutator c \<or> systemChanged \<or> toolsChanged \<or> modelChanged \<or> optionsChanged
             then classifyExpectedReason c systemChanged toolsChanged modelChanged optionsChanged
             else (UnexpectedBreak, [''unexpected'']))
      in if tokens - prevTokens < threshold then None
         else Some \<lparr>ReasonCode = reason, MutationTags = tags, ChangedTools = changedToolSchemas (PerToolHashes prev) (PerToolHashes s),
           TokensPrev = prevTokens, TokensCurr = tokens, TokensDelta = tokens - prevTokens, JumpThreshold = threshold,
           DiagSystemChars = SystemChars s, DiagToolCount = SnapToolCount s\<rparr>)"

text \<open>The result is \<open>None\<close> for a usage report that breaks its contract.\<close>

definition Analyze ::
  "break_detector \<Rightarrow> string \<Rightarrow> PromptStateSnapshot \<Rightarrow> UsageInfo option \<Rightarrow> PromptMutators \<Rightarrow> break_detector \<times> cache_diagnostic option option" where
  "Analyze d key s usage m =
     (case usage of
        None \<Rightarrow> (d, None)
      | Some u \<Rightarrow>
          if \<not> validateUsageContract usage then (d, None)
          else
            let d' = d\<lparr>PromptRecords := assoc_put key (s, PromptTokens u) (PromptRecords d)\<rparr> in
            (case map_of (PromptRecords d) key of
               None \<Rightarrow> (d', Some None)
             | Some (prev, prevTokens) \<Rightarrow>
                 (case diagnose m prev prevTokens s (PromptTokens u) of
                    None \<Rightarrow> (d', Some None)
                  | Some diag \<Rightarrow> (d'\<lparr>Diagnostics := assoc_put key diag (Diagnostics d)\<rparr>, Some (Some diag)))))"

section \<open>What a diagnostic says\<close>

text \<open>Nothing that the detector looks at has changed.\<close>

definition same_prompt :: "PromptMutators \<Rightarrow> PromptStateSnapshot \<Rightarrow> PromptStateSnapshot \<Rightarrow> bool" where
  "same_prompt m prev s \<longleftrightarrow> \<not> any_mutator m \<and> SystemHash prev = SystemHash s \<and> ToolsHash prev = ToolsHash s \<and> SnapModel prev = SnapModel s \<and>
     OptionsHash prev = OptionsHash s \<and> SnapSkillEpoch prev = SnapSkillEpoch s \<and> SnapCacheEpoch prev = SnapCacheEpoch s"

lemma classify_not_unexpected: "fst (classifyExpectedReason c a b d e) \<noteq> UnexpectedBreak"
  by (simp add: classifyExpectedReason_def Let_def)

text \<open>A break is called unexpected exactly when the prompt grew by the threshold although nothing that shapes it changed; smaller growth
  gives no diagnostic.\<close>

theorem unexpected_iff_unchanged:
  "(case diagnose m prev prevTokens s tokens of
      None \<Rightarrow> tokens - prevTokens < promptJumpThreshold (SnapProvider s) (SnapModel s)
    | Some d \<Rightarrow> promptJumpThreshold (SnapProvider s) (SnapModel s) \<le> tokens - prevTokens \<and> (ReasonCode d = UnexpectedBreak \<longleftrightarrow> same_prompt m prev s))"
proof -
  have any: "(any_mutator (classified m prev s) \<or> SystemHash prev \<noteq> SystemHash s \<or> ToolsHash prev \<noteq> ToolsHash s \<or> SnapModel prev \<noteq> SnapModel s \<or>
      OptionsHash prev \<noteq> OptionsHash s) \<longleftrightarrow> \<not> same_prompt m prev s"
    by (auto simp: any_mutator_def classified_def same_prompt_def)
  show ?thesis
    unfolding diagnose_def Let_def any using classify_not_unexpected by (auto split: prod.split) (metis fst_conv)+
qed

text \<open>A single change of the tools, of the model or of the options is reported as several: it counts twice, as the change itself and as
  its cause, so that the reasons for one of them are never given when it happened.\<close>

theorem single_change_called_multiple:
  assumes "diagnose m prev prevTokens s tokens = Some d"
    and "ToolsHash prev \<noteq> ToolsHash s \<or> SnapModel prev \<noteq> SnapModel s \<or> OptionsHash prev \<noteq> OptionsHash s"
  shows "ReasonCode d = ExpectedMultiMutation"
proof -
  have "any_mutator (classified m prev s)" using assms(2) by (auto simp: any_mutator_def classified_def)
  moreover have "fst (classifyExpectedReason (classified m prev s) a (ToolsHash prev \<noteq> ToolsHash s) (SnapModel prev \<noteq> SnapModel s)
      (OptionsHash prev \<noteq> OptionsHash s)) = ExpectedMultiMutation" for a
    using assms(2) by (auto simp: classifyExpectedReason_def classified_def Let_def)
  ultimately show ?thesis using assms(1) by (auto simp: diagnose_def Let_def split: prod.splits if_splits) (metis fst_conv)+
qed

text \<open>A long message is reported as a break of the cache: with the very same prompt, tools and model, a conversation that grew by the
  threshold between two calls gives the warning, whatever the provider read from its cache.\<close>

theorem long_message_reported:
  assumes "map_of (PromptRecords d) key = Some (s, prevTokens)" and "validateUsageContract (Some u)"
    and "promptJumpThreshold (SnapProvider s) (SnapModel s) \<le> PromptTokens u - prevTokens" and "\<not> any_mutator m"
  shows "\<exists>diag. snd (Analyze d key s (Some u) m) = Some (Some diag) \<and> ReasonCode diag = UnexpectedBreak"
proof -
  have "same_prompt m s s" using assms(4) by (simp add: same_prompt_def)
  with unexpected_iff_unchanged [where m = m and prev = s and prevTokens = prevTokens and s = s and tokens = "PromptTokens u"] assms(3) obtain diag
    where "diagnose m s prevTokens s (PromptTokens u) = Some diag" "ReasonCode diag = UnexpectedBreak"
    by (auto split: option.splits)
  with assms(1,2) show ?thesis by (simp add: Analyze_def Let_def)
qed

text \<open>The tools that are named as changed are those whose schema differs, in order and each once.\<close>

theorem changed_tools_exact:
  "sorted (changedToolSchemas prev cur) \<and> distinct (changedToolSchemas prev cur) \<and>
   set (changedToolSchemas prev cur) = {name. hash_of prev name \<noteq> hash_of cur name}"
proof -
  have "hash_of m name = []" if "name \<notin> fst ` set m" for m name using that by (simp add: hash_of_def map_of_eq_None_iff [THEN iffD2])
  then have "set (changedToolSchemas prev cur) = {name. hash_of prev name \<noteq> hash_of cur name}"
    by (auto simp: changedToolSchemas_def) fastforce+
  then show ?thesis by (simp add: changedToolSchemas_def)
qed

definition demo_snapshot :: "string \<Rightarrow> PromptStateSnapshot" where
  "demo_snapshot model = \<lparr>SnapProvider = ''openai'', SystemHash = ''s'', ToolsHash = ''t'', PerToolHashes = [], SnapModel = model, OptionsHash = ''o'',
     SystemChars = 5, SnapToolCount = 0, SnapSkillEpoch = 0, SnapCacheEpoch = 0\<rparr>"

definition no_mutators :: PromptMutators where
  "no_mutators = \<lparr>DiscoveredToolsChanged = False, SkillSetChanged = False, ConfigChanged = False, ExplicitInvalidation = False\<rparr>"

theorem single_change_called_multiple_witness:
  "map_option ReasonCode (diagnose no_mutators (demo_snapshot ''gpt-4o'') 100 (demo_snapshot ''gpt-5'') 1700) = Some ExpectedMultiMutation"
proof -
  have "diagnose no_mutators (demo_snapshot ''gpt-4o'') 100 (demo_snapshot ''gpt-5'') 1700 \<noteq> None" by code_simp
  then obtain d where d: "diagnose no_mutators (demo_snapshot ''gpt-4o'') 100 (demo_snapshot ''gpt-5'') 1700 = Some d" by blast
  have "SnapModel (demo_snapshot ''gpt-4o'') \<noteq> SnapModel (demo_snapshot ''gpt-5'')" by (simp add: demo_snapshot_def)
  with single_change_called_multiple [OF d] d show ?thesis by simp
qed

theorem long_message_reported_witness:
  "\<exists>diag. snd (Analyze \<lparr>PromptRecords = [(''k'', demo_snapshot ''gpt-5'', 100)], Diagnostics = []\<rparr> ''k'' (demo_snapshot ''gpt-5'')
     (Some \<lparr>PromptTokens = 1700, CompletionTokens = 1, TotalTokens = 1701\<rparr>) no_mutators) = Some (Some diag) \<and> ReasonCode diag = UnexpectedBreak"
proof (rule long_message_reported)
  have "promptJumpThreshold ''openai'' ''gpt-5'' = 1600" by code_simp
  then show "promptJumpThreshold (SnapProvider (demo_snapshot ''gpt-5'')) (SnapModel (demo_snapshot ''gpt-5'')) \<le>
      PromptTokens \<lparr>PromptTokens = 1700, CompletionTokens = 1, TotalTokens = 1701\<rparr> - 100"
    by (simp add: demo_snapshot_def)
qed (simp_all add: validateUsageContract_def any_mutator_def no_mutators_def)

end
