(* ===== verification/ProviderFactory.thy ===== *)
theory ProviderFactory
  imports ModelRef
begin

text \<open>
  From a configuration to the client of a provider: the entries of the model list and the choice among them
  (\<open>GetModelConfig\<close> of \<open>pkg/config/config.go\<close>), the conversion of the older section of providers (\<open>pkg/config/migration.go\<close>), the factory
  (\<open>pkg/providers/factory_provider.go\<close>) and the override of a turn (\<open>buildProviderForOverride\<close> of \<open>pkg/agent/loop.go\<close>). The section
  of providers is a function of the provider's name; the stored credentials are an argument.
\<close>

section \<open>Configuration\<close>

record ProviderConfig =
  PvKey :: string
  PvBase :: string
  PvProxy :: string
  PvTimeout :: int
  PvAuth :: string
  PvConnect :: string

type_synonym providers = "string \<Rightarrow> ProviderConfig"

definition provider_names :: "string list" where
  "provider_names =
     [''anthropic'', ''openai'', ''litellm'', ''openrouter'', ''opencode-go'', ''groq'', ''zhipu'', ''vllm'', ''gemini'', ''nvidia'', ''ollama'',
      ''moonshot'', ''shengsuanyun'', ''deepseek'', ''cerebras'', ''vivgrid'', ''volcengine'', ''github-copilot'', ''antigravity'', ''qwen'',
      ''mistral'', ''avian'', ''minimax'', ''longcat'', ''modelscope'']"

definition providers_IsEmpty :: "providers \<Rightarrow> bool" where
  "providers_IsEmpty p \<longleftrightarrow> list_all (\<lambda>n. PvKey (p n) = [] \<and> PvBase (p n) = []) provider_names"

record model_entry =
  ModelAlias :: string
  ModelPath :: string
  EntryBase :: string
  EntryKey :: string
  EntryProxy :: string
  EntryAuth :: string
  EntryConnect :: string
  EntryWorkspace :: string
  TokensField :: string
  EntryTimeout :: int

datatype entry_error = AliasRequired | PathRequired

definition entry_Validate :: "model_entry \<Rightarrow> entry_error option" where
  "entry_Validate e = (if ModelAlias e = [] then Some AliasRequired else if ModelPath e = [] then Some PathRequired else None)"

definition findMatches :: "model_entry list \<Rightarrow> string \<Rightarrow> model_entry list" where
  "findMatches modelList name = filter (\<lambda>e. ModelAlias e = name) modelList"

text \<open>The counter is shared by all names and only moves when there is a choice.\<close>

definition GetModelConfig :: "model_entry list \<Rightarrow> nat \<Rightarrow> string \<Rightarrow> nat \<times> model_entry option" where
  "GetModelConfig modelList rrCounter name =
     (case findMatches modelList name of
        [] \<Rightarrow> (rrCounter, None)
      | [e] \<Rightarrow> (rrCounter, Some e)
      | matches \<Rightarrow> ((rrCounter + 1) mod 2 ^ 64, Some (matches ! (rrCounter mod length matches))))"

section \<open>Conversion of the older section\<close>

definition buildModelWithProtocol :: "string \<Rightarrow> string \<Rightarrow> string" where
  "buildModelWithProtocol protocol model = (if Contains model ''/'' then model else protocol @ ''/'' @ model)"

record migration =
  ProviderAliases :: "string list"
  Protocol :: string
  DefaultModel :: string

definition migrations :: "migration list" where
  "migrations = map (\<lambda>(names, protocol, model). \<lparr>ProviderAliases = names, Protocol = protocol, DefaultModel = model\<rparr>)
     [([''openai'', ''gpt''], ''openai'', ''openai/gpt-5.4''),
      ([''anthropic'', ''claude''], ''anthropic'', ''anthropic/claude-sonnet-4.6''),
      ([''litellm''], ''litellm'', ''litellm/auto''),
      ([''openrouter''], ''openrouter'', ''openrouter/auto''),
      ([''groq''], ''groq'', ''groq/llama-3.1-70b-versatile''),
      ([''zhipu'', ''glm''], ''zhipu'', ''zhipu/glm-4''),
      ([''vllm''], ''vllm'', ''vllm/auto''),
      ([''gemini'', ''google''], ''gemini'', ''gemini/gemini-pro''),
      ([''nvidia''], ''nvidia'', ''nvidia/meta/llama-3.1-8b-instruct''),
      ([''ollama''], ''ollama'', ''ollama/llama3''),
      ([''moonshot'', ''kimi''], ''moonshot'', ''moonshot/kimi''),
      ([''shengsuanyun''], ''shengsuanyun'', ''shengsuanyun/auto''),
      ([''deepseek''], ''deepseek'', ''deepseek/deepseek-chat''),
      ([''cerebras''], ''cerebras'', ''cerebras/llama-3.3-70b''),
      ([''vivgrid''], ''vivgrid'', ''vivgrid/auto''),
      ([''volcengine'', ''doubao''], ''volcengine'', ''volcengine/doubao-pro''),
      ([''github_copilot'', ''copilot''], ''github-copilot'', ''github-copilot/gpt-5.4''),
      ([''antigravity''], ''antigravity'', ''antigravity/gemini-2.0-flash''),
      ([''qwen'', ''tongyi''], ''qwen'', ''qwen/qwen-max''),
      ([''mistral''], ''mistral'', ''mistral/mistral-small-latest''),
      ([''avian''], ''avian'', ''avian/deepseek/deepseek-v3.2''),
      ([''longcat''], ''longcat'', ''longcat/LongCat-Flash-Thinking''),
      ([''modelscope''], ''modelscope'', ''modelscope/Qwen/Qwen3-235B-A22B-Instruct-2507'')]"

definition blank_entry :: model_entry where
  "blank_entry = \<lparr>ModelAlias = [], ModelPath = [], EntryBase = [], EntryKey = [], EntryProxy = [], EntryAuth = [], EntryConnect = [],
     EntryWorkspace = [], TokensField = [], EntryTimeout = 0\<rparr>"

definition buildConfig :: "migration \<Rightarrow> providers \<Rightarrow> model_entry option" where
  "buildConfig m p =
     (let c = p (Protocol m); base = blank_entry\<lparr>ModelAlias := Protocol m, ModelPath := DefaultModel m\<rparr> in
      if Protocol m = ''github-copilot'' then
        (if PvKey c = [] \<and> PvBase c = [] \<and> PvConnect c = [] then None
         else Some (base\<lparr>EntryBase := PvBase c, EntryConnect := PvConnect c\<rparr>))
      else if Protocol m = ''antigravity'' then
        (if PvKey c = [] \<and> PvAuth c = [] then None else Some (base\<lparr>EntryKey := PvKey c, EntryAuth := PvAuth c\<rparr>))
      else if PvKey c = [] \<and> PvBase c = [] then None
      else Some (base\<lparr>EntryKey := PvKey c, EntryBase := PvBase c, EntryProxy := PvProxy c, EntryTimeout := PvTimeout c,
        EntryAuth := (if Protocol m \<in> {''openai'', ''anthropic''} then PvAuth c else [])\<rparr>))"

text \<open>\<open>applied\<close>: the model without a provider was given to an earlier one.\<close>

fun convert_from :: "string \<Rightarrow> string \<Rightarrow> providers \<Rightarrow> bool \<Rightarrow> migration list \<Rightarrow> model_entry list" where
  "convert_from userProvider userModel p applied [] = []"
| "convert_from userProvider userModel p applied (m # ms) =
     (case buildConfig m p of
        None \<Rightarrow> convert_from userProvider userModel p applied ms
      | Some mc \<Rightarrow>
          if userProvider \<in> set (ProviderAliases m) \<and> userModel \<noteq> [] then
            mc\<lparr>ModelPath := buildModelWithProtocol (Protocol m) userModel\<rparr> # convert_from userProvider userModel p applied ms
          else if userProvider = [] \<and> userModel \<noteq> [] \<and> \<not> applied then
            mc\<lparr>ModelAlias := userModel, ModelPath := buildModelWithProtocol (Protocol m) userModel\<rparr> #
              convert_from userProvider userModel p True ms
          else mc # convert_from userProvider userModel p applied ms)"

definition ConvertProvidersToModelList :: "string \<Rightarrow> string \<Rightarrow> providers \<Rightarrow> model_entry list" where
  "ConvertProvidersToModelList provider userModel p = convert_from (ToLower provider) userModel p False migrations"

section \<open>The factory\<close>

definition ExtractProtocol :: "string \<Rightarrow> string \<times> string" where
  "ExtractProtocol model0 =
     (let model = TrimSpace model0 in
      case Index model ''/'' of None \<Rightarrow> (''openai'', model) | Some i \<Rightarrow> (take i model, drop (Suc i) model))"

definition getDefaultAPIBase :: "string \<Rightarrow> string" where
  "getDefaultAPIBase protocol =
     (case map_of
        [(''openai'', ''https://api.openai.com/v1''), (''openrouter'', ''https://openrouter.ai/api/v1''),
         (''opencode-go'', ''https://opencode.ai/zen/go/v1''), (''litellm'', ''http://localhost:4000/v1''),
         (''groq'', ''https://api.groq.com/openai/v1''), (''zhipu'', ''https://open.bigmodel.cn/api/paas/v4''),
         (''gemini'', ''https://generativelanguage.googleapis.com/v1beta''), (''nvidia'', ''https://integrate.api.nvidia.com/v1''),
         (''ollama'', ''http://localhost:11434/v1''), (''moonshot'', ''https://api.moonshot.cn/v1''),
         (''shengsuanyun'', ''https://router.shengsuanyun.com/api/v1''), (''deepseek'', ''https://api.deepseek.com/v1''),
         (''cerebras'', ''https://api.cerebras.ai/v1''), (''vivgrid'', ''https://api.vivgrid.com/v1''),
         (''volcengine'', ''https://ark.cn-beijing.volces.com/api/v3''), (''qwen'', ''https://dashscope.aliyuncs.com/compatible-mode/v1''),
         (''vllm'', ''http://localhost:8000/v1''), (''mistral'', ''https://api.mistral.ai/v1''), (''avian'', ''https://api.avian.io/v1''),
         (''minimax'', ''https://api.minimaxi.com/v1''), (''longcat'', ''https://api.longcat.chat/openai''),
         (''modelscope'', ''https://api-inference.modelscope.cn/v1'')] protocol
      of Some base \<Rightarrow> base | None \<Rightarrow> [])"

definition httpProtocols :: "string list" where
  "httpProtocols =
     [''openrouter'', ''opencode-go'', ''groq'', ''zhipu'', ''gemini'', ''nvidia'', ''ollama'', ''moonshot'', ''shengsuanyun'', ''deepseek'',
      ''cerebras'', ''vivgrid'', ''volcengine'', ''vllm'', ''qwen'', ''mistral'', ''avian'', ''minimax'', ''longcat'', ''modelscope'']"

definition anthropic_base :: string where
  "anthropic_base = ''https://api.anthropic.com/v1''"

datatype factory_error =
  ModelRequired | KeyOrBaseRequired string | KeyRequired string | BaseRequired string | UnsupportedAuth string string
| CredentialError string | NoCredential string | EmptyToken string | CopilotError | UnknownProtocol string

text \<open>The client that is made. \<open>HTTPClient\<close> has the key, the base, the proxy, the name of the token limit, the time-out and
  whether it supports reasoning efforts.\<close>

datatype client =
  CodexClient string | ClaudeClient string | HTTPClient string string string string int string | AzureClient string string string int
| MessagesClient string string int | AntigravityClient | ClaudeCli string | CodexCli string | CopilotClient string string

text \<open>\<open>cred protocol\<close>: an error, no credential, or its access token.\<close>

definition auth_token :: "(string \<Rightarrow> string + string option) \<Rightarrow> string \<Rightarrow> factory_error + string" where
  "auth_token cred protocol =
     (case cred protocol of Inl e \<Rightarrow> Inl (CredentialError e) | Inr None \<Rightarrow> Inl (NoCredential protocol) | Inr (Some t) \<Rightarrow> Inr t)"

definition resolveHTTPTokenAuth :: "(string \<Rightarrow> string + string option) \<Rightarrow> string \<Rightarrow> factory_error + string" where
  "resolveHTTPTokenAuth cred protocol =
     (case auth_token cred protocol of
        Inl e \<Rightarrow> Inl e
      | Inr t \<Rightarrow> if TrimSpace t = [] then Inl (EmptyToken protocol) else Inr (TrimSpace t))"

definition or_else :: "string \<Rightarrow> string \<Rightarrow> string" where
  "or_else s alternative = (if s = [] then alternative else s)"

definition CreateProviderFromConfig ::
  "(string \<Rightarrow> string + string option) \<Rightarrow> bool \<Rightarrow> model_entry \<Rightarrow> factory_error + client \<times> string" where
  "CreateProviderFromConfig cred copilot_ok e =
     (if ModelPath e = [] then Inl ModelRequired
      else
        let (protocol, modelID) = ExtractProtocol (ModelPath e); stored = EntryAuth e \<in> {''oauth'', ''token''};
            http = (\<lambda>key effort. if key = [] \<and> EntryBase e = [] then Inl (KeyOrBaseRequired protocol)
              else Inr (HTTPClient key (or_else (EntryBase e) (getDefaultAPIBase protocol)) (EntryProxy e) (TokensField e) (EntryTimeout e) effort, modelID))
        in
        if protocol = ''openai'' then
          (if stored then (case auth_token cred ''openai'' of Inl x \<Rightarrow> Inl x | Inr t \<Rightarrow> Inr (CodexClient t, modelID))
           else http (EntryKey e) ''openai'')
        else if protocol \<in> {''azure'', ''azure-openai''} then
          (if EntryKey e = [] then Inl (KeyRequired protocol)
           else if EntryBase e = [] then Inl (BaseRequired protocol)
           else Inr (AzureClient (EntryKey e) (EntryBase e) (EntryProxy e) (EntryTimeout e), modelID))
        else if protocol = ''litellm'' then http (EntryKey e) ''effort''
        else if protocol \<in> set httpProtocols then
          (if EntryAuth e = [] then http (EntryKey e) []
           else if EntryAuth e \<noteq> ''token'' then Inl (UnsupportedAuth (EntryAuth e) protocol)
           else (case resolveHTTPTokenAuth cred protocol of Inl x \<Rightarrow> Inl x | Inr t \<Rightarrow> http t []))
        else if protocol = ''anthropic'' then
          (if stored then (case auth_token cred ''anthropic'' of Inl x \<Rightarrow> Inl x | Inr t \<Rightarrow> Inr (ClaudeClient t, modelID))
           else if EntryKey e = [] then Inl (KeyRequired protocol)
           else Inr (HTTPClient (EntryKey e) (or_else (EntryBase e) anthropic_base) (EntryProxy e) (TokensField e) (EntryTimeout e) [], modelID))
        else if protocol = ''anthropic-messages'' then
          (if EntryKey e = [] then Inl (KeyRequired protocol)
           else Inr (MessagesClient (EntryKey e) (or_else (EntryBase e) anthropic_base) (EntryTimeout e), modelID))
        else if protocol = ''antigravity'' then Inr (AntigravityClient, modelID)
        else if protocol \<in> {''claude-cli'', ''claudecli''} then Inr (ClaudeCli (or_else (EntryWorkspace e) ''.''), modelID)
        else if protocol \<in> {''codex-cli'', ''codexcli''} then Inr (CodexCli (or_else (EntryWorkspace e) ''.''), modelID)
        else if protocol \<in> {''github-copilot'', ''copilot''} then
          (if copilot_ok then Inr (CopilotClient (or_else (EntryBase e) ''localhost:4321'') (or_else (EntryConnect e) ''grpc''), modelID)
           else Inl CopilotError)
        else Inl (UnknownProtocol protocol))"

section \<open>Overrides\<close>

datatype override_error = OverrideProviderEmpty | OverrideModelEmpty | NoOverrideConfig string | OverrideFactory factory_error

definition override_entry :: "model_entry list \<Rightarrow> model_entry list \<Rightarrow> string \<Rightarrow> string \<Rightarrow> model_entry option" where
  "override_entry modelList converted provider model =
     (case find (\<lambda>e. EqualFold (TrimSpace (ModelPath e)) (provider @ ''/'' @ model)) modelList of
        Some e \<Rightarrow> Some e
      | None \<Rightarrow>
          (case find (\<lambda>e. case ParseModelRef (ModelPath e) [] of None \<Rightarrow> False | Some r \<Rightarrow> EqualFold (RefProvider r) provider) converted of
             Some e \<Rightarrow> Some (e\<lparr>ModelAlias := model, ModelPath := provider @ ''/'' @ model\<rparr>)
           | None \<Rightarrow> None))"

definition buildProviderForOverride ::
  "(string \<Rightarrow> string + string option) \<Rightarrow> bool \<Rightarrow> model_entry list \<Rightarrow> model_entry list \<Rightarrow> string \<Rightarrow> string \<Rightarrow> override_error + client \<times> string" where
  "buildProviderForOverride cred copilot_ok modelList converted providerName modelName =
     (let provider = ToLower (TrimSpace providerName); model = TrimSpace modelName in
      if provider = [] then Inl OverrideProviderEmpty
      else if model = [] then Inl OverrideModelEmpty
      else
        (case override_entry modelList converted provider model of
           None \<Rightarrow> Inl (NoOverrideConfig provider)
         | Some e \<Rightarrow> map_sum OverrideFactory id (CreateProviderFromConfig cred copilot_ok e)))"

section \<open>Clients over HTTP\<close>

lemma default_bases: "protocol \<in> set (''openai'' # ''litellm'' # httpProtocols) \<Longrightarrow> getDefaultAPIBase protocol \<noteq> []"
proof -
  have "list_all (\<lambda>p. getDefaultAPIBase p \<noteq> []) (''openai'' # ''litellm'' # httpProtocols)" by code_simp
  then show "protocol \<in> set (''openai'' # ''litellm'' # httpProtocols) \<Longrightarrow> ?thesis" unfolding list_all_iff by blast
qed

text \<open>C34. A client over HTTP is made for one of the protocols that speak it, for the model of the entry, and knows where to send which
  key. Its base is the one of the entry or, where that is empty, the default of the protocol, which is never empty. Its key is the one of
  the entry, unless the entry asks for a stored token (\<open>token\<close>; \<open>litellm\<close> does not look at this): then it is the token that is stored
  for the very protocol of the entry, trimmed and not empty, whatever key the entry has. (The protocol is what stands before the first slash of
  the entry's model; entries that are converted from the old providers section may name another service there than the one
  whose key they hold, see \<open>key_sent_elsewhere\<close>.)\<close>

theorem http_client_complete:
  assumes "CreateProviderFromConfig cred copilot_ok e = Inr (HTTPClient key base proxy field timeout effort, modelID)"
    and "ExtractProtocol (ModelPath e) = (protocol, model)"
  shows "protocol \<in> {''openai'', ''litellm'', ''anthropic''} \<union> set httpProtocols \<and> modelID = model \<and> proxy = EntryProxy e \<and>
    base = (if EntryBase e \<noteq> [] then EntryBase e else if protocol = ''anthropic'' then anthropic_base else getDefaultAPIBase protocol) \<and> base \<noteq> [] \<and>
    (if EntryAuth e = ''token'' \<and> protocol \<noteq> ''litellm''
     then \<exists>t. cred protocol = Inr (Some t) \<and> TrimSpace t \<noteq> [] \<and> key = TrimSpace t
     else key = EntryKey e)"
proof -
  have token: "\<exists>t. cred q = Inr (Some t) \<and> TrimSpace t \<noteq> [] \<and> x = TrimSpace t" if "resolveHTTPTokenAuth cred q = Inr x" for q x
    using that by (auto simp: resolveHTTPTokenAuth_def auth_token_def split: sum.splits option.splits if_splits)
  have anth: "''anthropic'' \<notin> set httpProtocols" "''litellm'' \<notin> set httpProtocols" by code_simp+
  have run: "protocol \<in> {''openai'', ''litellm'', ''anthropic''} \<union> set httpProtocols \<and> modelID = model \<and> proxy = EntryProxy e \<and>
    base = or_else (EntryBase e) (if protocol = ''anthropic'' then anthropic_base else getDefaultAPIBase protocol) \<and>
    (if EntryAuth e = ''token'' \<and> protocol \<noteq> ''litellm'' then resolveHTTPTokenAuth cred protocol = Inr key else key = EntryKey e)"
    using assms(1) anth unfolding CreateProviderFromConfig_def assms(2) Let_def prod.case
    by (auto split: if_splits sum.splits)
  have "or_else (EntryBase e) (if protocol = ''anthropic'' then anthropic_base else getDefaultAPIBase protocol) \<noteq> []"
    using run default_bases [of protocol] by (auto simp: or_else_def anthropic_base_def)
  with run token show ?thesis by (simp add: or_else_def)
qed

section \<open>Turns among entries of one name\<close>

definition picks :: "model_entry list \<Rightarrow> nat \<Rightarrow> string \<Rightarrow> nat \<Rightarrow> model_entry option list" where
  "picks modelList c name n = map (\<lambda>i. snd (GetModelConfig modelList (c + i) name)) [0..<n]"

text \<open>Entries of one name take turns: as many calls in a row as there are entries give each of them once, in the order of the list
  from where the counter stands (as long as the counter does not overflow).\<close>

theorem entries_take_turns:
  assumes "2 \<le> length (findMatches modelList name)"
  shows "picks modelList c name (length (findMatches modelList name)) = map Some (rotate (c mod length (findMatches modelList name)) (findMatches modelList name))"
proof -
  let ?m = "findMatches modelList name"
  have pick: "snd (GetModelConfig modelList k name) = Some (?m ! (k mod length ?m))" for k
    using assms by (auto simp: GetModelConfig_def split: list.split)
  show ?thesis
  proof (rule nth_equalityI)
    fix i assume "i < length (picks modelList c name (length ?m))"
    then have i: "i < length ?m" by (simp add: picks_def)
    then show "picks modelList c name (length ?m) ! i = map Some (rotate (c mod length ?m) ?m) ! i"
      by (simp add: picks_def pick nth_rotate mod_add_left_eq)
  qed (simp add: picks_def)
qed

lemma counter_moves: "2 \<le> length (findMatches modelList name) \<Longrightarrow> fst (GetModelConfig modelList c name) = (c + 1) mod 2 ^ 64"
  by (auto simp: GetModelConfig_def split: list.split)

section \<open>What the conversion keeps\<close>

lemma convert_member:
  "m \<in> set ms \<Longrightarrow> buildConfig m p = Some mc \<Longrightarrow> userProvider \<in> set (ProviderAliases m) \<Longrightarrow> userModel \<noteq> [] \<Longrightarrow>
   mc\<lparr>ModelPath := buildModelWithProtocol (Protocol m) userModel\<rparr> \<in> set (convert_from userProvider userModel p applied ms)"
  by (induction ms arbitrary: applied) (auto split: option.split)

lemma convert_none: "(\<And>m. m \<in> set ms \<Longrightarrow> buildConfig m p = None) \<Longrightarrow> convert_from userProvider userModel p applied ms = []"
  by (induction ms arbitrary: applied) auto

lemma convert_paths:
  "e \<in> set (convert_from userProvider userModel p applied ms) \<Longrightarrow>
   \<exists>m \<in> set ms. ModelPath e = DefaultModel m \<or> userModel \<noteq> [] \<and> ModelPath e = buildModelWithProtocol (Protocol m) userModel"
proof (induction ms arbitrary: applied)
  case (Cons m ms)
  show ?case
  proof (cases "buildConfig m p")
    case None
    with Cons show ?thesis by fastforce
  next
    case (Some mc)
    then have "ModelPath mc = DefaultModel m" by (auto simp: buildConfig_def Let_def split: if_splits)
    with Cons Some show ?thesis by (fastforce split: if_splits)
  qed
qed simp

text \<open>Some providers get lost in the conversion: MiniMax and OpenCode count as configured but have no rule, and where only a login is
  configured (no key and no base) the section even counts as empty; in both cases no entry comes out.\<close>

theorem providers_lost:
  assumes "\<And>n. n \<noteq> ''minimax'' \<Longrightarrow> n \<noteq> ''opencode-go'' \<Longrightarrow> PvKey (p n) = [] \<and> PvBase (p n) = [] \<and> PvConnect (p n) = []"
    and "PvAuth (p ''antigravity'') = []"
  shows "ConvertProvidersToModelList provider userModel p = [] \<and>
    (PvKey (p ''minimax'') \<noteq> [] \<longrightarrow> \<not> providers_IsEmpty p) \<and>
    ((\<forall>n. PvKey (p n) = [] \<and> PvBase (p n) = []) \<longrightarrow> providers_IsEmpty (p(''openai'' := (p ''openai'')\<lparr>PvAuth := ''oauth''\<rparr>)))"
proof (intro conjI impI)
  have no_rule: "list_all (\<lambda>m. Protocol m \<noteq> ''minimax'' \<and> Protocol m \<noteq> ''opencode-go'') migrations" by code_simp
  have "buildConfig m p = None" if "m \<in> set migrations" for m
    using assms(1) [of "Protocol m"] assms(2) no_rule that by (auto simp: list_all_iff buildConfig_def Let_def)
  then show "ConvertProvidersToModelList provider userModel p = []" unfolding ConvertProvidersToModelList_def by (rule convert_none)
  show "\<not> providers_IsEmpty p" if "PvKey (p ''minimax'') \<noteq> []"
    using that by (simp add: providers_IsEmpty_def provider_names_def)
  show "providers_IsEmpty (p(''openai'' := (p ''openai'')\<lparr>PvAuth := ''oauth''\<rparr>))" if "\<forall>n. PvKey (p n) = [] \<and> PvBase (p n) = []"
    using that by (simp add: providers_IsEmpty_def list_all_iff)
qed

text \<open>A key goes to the wrong service: with OpenRouter as the provider and a model that names another service, as OpenRouter's models do,
  the entry that is made keeps OpenRouter's key but has the other service's protocol, and without a base the key is sent to that service.\<close>

theorem key_sent_elsewhere:
  assumes "PvKey (p ''openrouter'') = key" and "key \<noteq> []" and "PvBase (p ''openrouter'') = []"
  shows "\<exists>e \<in> set (ConvertProvidersToModelList ''openrouter'' ''anthropic/claude-sonnet-4.6'' p). ModelAlias e = ''openrouter'' \<and>
    (\<exists>proxy timeout. CreateProviderFromConfig cred copilot_ok e =
       Inr (HTTPClient key ''https://api.anthropic.com/v1'' proxy [] timeout [], ''claude-sonnet-4.6''))"
proof -
  let ?m = "\<lparr>ProviderAliases = [''openrouter''], Protocol = ''openrouter'', DefaultModel = ''openrouter/auto''\<rparr>"
  let ?mc = "blank_entry\<lparr>ModelAlias := ''openrouter'', ModelPath := ''openrouter/auto'', EntryKey := key, EntryBase := [],
    EntryProxy := PvProxy (p ''openrouter''), EntryTimeout := PvTimeout (p ''openrouter''), EntryAuth := []\<rparr>"
  let ?e = "?mc\<lparr>ModelPath := ''anthropic/claude-sonnet-4.6''\<rparr>"
  have rule: "?m \<in> set migrations" by (simp add: migrations_def)
  have mc: "buildConfig ?m p = Some ?mc" using assms by (simp add: buildConfig_def Let_def)
  have low: "ToLower ''openrouter'' = ''openrouter''" and path: "buildModelWithProtocol (Protocol ?m) ''anthropic/claude-sonnet-4.6'' = ''anthropic/claude-sonnet-4.6''"
    and ex: "ExtractProtocol ''anthropic/claude-sonnet-4.6'' = (''anthropic'', ''claude-sonnet-4.6'')" by code_simp+
  have "?e \<in> set (ConvertProvidersToModelList ''openrouter'' ''anthropic/claude-sonnet-4.6'' p)"
    unfolding ConvertProvidersToModelList_def low
    by (rule convert_member [OF rule mc, of "''openrouter''" "''anthropic/claude-sonnet-4.6''" False, unfolded path]) simp_all
  moreover have "CreateProviderFromConfig cred copilot_ok ?e =
      Inr (HTTPClient key ''https://api.anthropic.com/v1'' (PvProxy (p ''openrouter'')) [] (PvTimeout (p ''openrouter'')) [], ''claude-sonnet-4.6'')"
    using assms(2) by (simp add: CreateProviderFromConfig_def ex blank_entry_def httpProtocols_def or_else_def anthropic_base_def)
  ultimately show ?thesis by (intro bexI [of _ ?e]) (auto simp: blank_entry_def)
qed

text \<open>The protocols of the rules.\<close>

lemma protocol_names:
  "m \<in> set migrations \<Longrightarrow> trimmed (Protocol m) \<and> Protocol m \<noteq> [] \<and> CHR ''/'' \<notin> set (Protocol m) \<and> ExtractProtocol (DefaultModel m) = (Protocol m, drop (Suc (length (Protocol m))) (DefaultModel m))"
proof -
  have "list_all (\<lambda>m. trimmed (Protocol m) \<and> Protocol m \<noteq> [] \<and> CHR ''/'' \<notin> set (Protocol m) \<and>
      ExtractProtocol (DefaultModel m) = (Protocol m, drop (Suc (length (Protocol m))) (DefaultModel m))) migrations"
    by code_simp
  then show "m \<in> set migrations \<Longrightarrow> ?thesis" unfolding list_all_iff by blast
qed

lemma slash_absent: "\<not> Contains model ''/'' \<Longrightarrow> CHR ''/'' \<notin> set model"
proof
  assume "\<not> Contains model ''/''" and "CHR ''/'' \<in> set model"
  from split_list [OF this(2)] obtain ys zs where "model = ys @ CHR ''/'' # zs" by blast
  with \<open>\<not> Contains model ''/''\<close> show False by (auto simp: Contains_iff)
qed

lemma extract_built:
  assumes "trimmed protocol" and "protocol \<noteq> []" and "CHR ''/'' \<notin> set protocol" and "\<not> Contains model ''/''" and "trimmed model" and "model \<noteq> []"
  shows "ExtractProtocol (buildModelWithProtocol protocol model) = (protocol, model)"
proof -
  have "trimmed (protocol @ ''/'' @ model)" using assms(1,2,5,6) by (auto simp: trimmed_def)
  then have "TrimSpace (protocol @ ''/'' @ model) = protocol @ CHR ''/'' # model" by (simp add: TrimSpace_trimmed)
  with assms(3,4) show ?thesis
    by (simp add: ExtractProtocol_def buildModelWithProtocol_def Index_char_append)
qed

lemma unknown_only:
  assumes "CreateProviderFromConfig cred copilot_ok e = Inl (UnknownProtocol q)"
  shows "fst (ExtractProtocol (ModelPath e)) \<notin> set (''openai'' # ''litellm'' # ''anthropic'' # ''antigravity'' # ''github-copilot'' # httpProtocols)"
proof -
  obtain protocol model where p: "ExtractProtocol (ModelPath e) = (protocol, model)" by fastforce
  have tok: "auth_token cred x \<noteq> Inl (UnknownProtocol q)" "resolveHTTPTokenAuth cred x \<noteq> Inl (UnknownProtocol q)" for x q
    by (auto simp: auth_token_def resolveHTTPTokenAuth_def split: sum.split option.split)
  show ?thesis
    using assms tok unfolding CreateProviderFromConfig_def p Let_def prod.case fst_conv by (auto split: if_splits sum.splits)
qed

text \<open>A plain model survives the conversion: when the model does not name a service itself, every entry that comes out has the protocol
  of one of the rules, and the factory knows it; for the user's own provider the factory finds the protocol and the model again.\<close>

theorem converted_protocols_known:
  assumes "e \<in> set (ConvertProvidersToModelList provider userModel p)" and "\<not> Contains userModel ''/''" and "trimmed userModel"
  shows "fst (ExtractProtocol (ModelPath e)) \<in> set (map Protocol migrations) \<and> (\<forall>q. CreateProviderFromConfig cred copilot_ok e \<noteq> Inl (UnknownProtocol q))"
proof -
  from assms(1) obtain m where m: "m \<in> set migrations"
    and path: "ModelPath e = DefaultModel m \<or> userModel \<noteq> [] \<and> ModelPath e = buildModelWithProtocol (Protocol m) userModel"
    unfolding ConvertProvidersToModelList_def using convert_paths by blast
  have ex: "fst (ExtractProtocol (ModelPath e)) = Protocol m"
    using path protocol_names [OF m] extract_built [of "Protocol m" userModel] assms(2,3) by auto
  have "list_all (\<lambda>m. Protocol m \<in> set (''openai'' # ''litellm'' # ''anthropic'' # ''antigravity'' # ''github-copilot'' # httpProtocols)) migrations"
    by code_simp
  then have known: "Protocol m \<in> set (''openai'' # ''litellm'' # ''anthropic'' # ''antigravity'' # ''github-copilot'' # httpProtocols)"
    using m unfolding list_all_iff by blast
  show ?thesis using unknown_only [of cred copilot_ok e] known m unfolding ex by auto
qed

section \<open>Overrides\<close>

lemma not_qwen: "ToLower (NormalizeProvider x) \<noteq> ''qwen''"
proof -
  have low: "ToLower (ToLower (TrimSpace x)) = ToLower (TrimSpace x)" by (rule ToLower_idem)
  have lits: "ToLower ''zai'' \<noteq> ''qwen''" "ToLower ''opencode'' \<noteq> ''qwen''" "ToLower ''qwen-portal'' \<noteq> ''qwen''" "ToLower ''kimi-coding'' \<noteq> ''qwen''"
    "ToLower ''openai'' \<noteq> ''qwen''" "ToLower ''anthropic'' \<noteq> ''qwen''" "ToLower ''zhipu'' \<noteq> ''qwen''" "ToLower ''gemini'' \<noteq> ''qwen''" by code_simp+
  show ?thesis unfolding NormalizeProvider_def Let_def using lits low by (simp only: split: if_split) blast
qed

text \<open>Qwen cannot be chosen for a turn: the provider of an entry is normalized to another name, so that an override to the provider \<open>qwen\<close>
  finds no configuration, unless the very model stands in the model list.\<close>

theorem qwen_override_fails:
  assumes "ToLower (TrimSpace providerName) = ''qwen''" and "TrimSpace modelName \<noteq> []"
    and "\<And>e. e \<in> set modelList \<Longrightarrow> \<not> EqualFold (TrimSpace (ModelPath e)) (''qwen/'' @ TrimSpace modelName)"
  shows "buildProviderForOverride cred copilot_ok modelList converted providerName modelName = Inl (NoOverrideConfig ''qwen'')"
proof -
  have exact: "find (\<lambda>e. EqualFold (TrimSpace (ModelPath e)) (''qwen'' @ ''/'' @ TrimSpace modelName)) modelList = None"
    using assms(3) by (auto simp: find_None_iff)
  have ref: "ToLower (RefProvider r) \<noteq> ''qwen''" if "ParseModelRef raw d = Some r" for raw d r
    using that not_qwen by (auto simp: ParseModelRef_def Let_def split: if_splits option.splits nat.splits)
  have "ToLower ''qwen'' = ''qwen''" by code_simp
  then have "find (\<lambda>e. case ParseModelRef (ModelPath e) [] of None \<Rightarrow> False | Some r \<Rightarrow> EqualFold (RefProvider r) ''qwen'') converted = None"
    using ref by (auto simp: find_None_iff EqualFold_def split: option.split)
  with exact assms(1,2) show ?thesis by (simp add: buildProviderForOverride_def override_entry_def Let_def)
qed

section \<open>Examples\<close>

definition no_providers :: providers where
  "no_providers = (\<lambda>_. \<lparr>PvKey = [], PvBase = [], PvProxy = [], PvTimeout = 0, PvAuth = [], PvConnect = []\<rparr>)"

definition with_key :: "string \<Rightarrow> string \<Rightarrow> providers" where
  "with_key name key = no_providers(name := (no_providers name)\<lparr>PvKey := key\<rparr>)"

theorem http_client_complete_witness:
  "\<exists>key. CreateProviderFromConfig (\<lambda>p. Inr (if p = ''groq'' then Some ''stored'' else None)) True (blank_entry\<lparr>ModelPath := ''groq/llama'', EntryKey := ''k'', EntryAuth := ''token''\<rparr>) =
      Inr (HTTPClient key (getDefaultAPIBase ''groq'') [] [] 0 [], ''llama'') \<and> key = TrimSpace ''stored''"
proof -
  let ?cred = "\<lambda>p. Inr (if p = ''groq'' then Some ''stored'' else None)"
  let ?e = "blank_entry\<lparr>ModelPath := ''groq/llama'', EntryKey := ''k'', EntryAuth := ''token''\<rparr>"
  have run: "CreateProviderFromConfig ?cred True ?e = Inr (HTTPClient ''stored'' (getDefaultAPIBase ''groq'') [] [] 0 [], ''llama'')"
    and p: "ExtractProtocol (ModelPath ?e) = (''groq'', ''llama'')" by code_simp+
  have "\<exists>t. ?cred ''groq'' = Inr (Some t) \<and> TrimSpace t \<noteq> [] \<and> ''stored'' = TrimSpace t"
    using http_client_complete [OF run p] by simp
  then have "''stored'' = TrimSpace ''stored''" by auto
  with run show ?thesis by blast
qed

theorem entries_take_turns_witness:
  "picks [blank_entry\<lparr>EntryKey := ''a''\<rparr>, blank_entry\<lparr>EntryKey := ''b''\<rparr>] 7 [] 2 = [Some (blank_entry\<lparr>EntryKey := ''b''\<rparr>), Some (blank_entry\<lparr>EntryKey := ''a''\<rparr>)]"
proof -
  have m: "findMatches [blank_entry\<lparr>EntryKey := ''a''\<rparr>, blank_entry\<lparr>EntryKey := ''b''\<rparr>] [] = [blank_entry\<lparr>EntryKey := ''a''\<rparr>, blank_entry\<lparr>EntryKey := ''b''\<rparr>]"
    by (simp add: findMatches_def blank_entry_def)
  have r: "rotate (7 mod 2) [x, y] = [y, x]" for x y :: model_entry by simp
  have len: "length [x, y] = 2" for x y :: model_entry by simp
  from entries_take_turns [of "[blank_entry\<lparr>EntryKey := ''a''\<rparr>, blank_entry\<lparr>EntryKey := ''b''\<rparr>]" "[]" 7] show ?thesis
    unfolding m len r list.map by simp
qed

theorem providers_lost_witness: "ConvertProvidersToModelList [] ''m1'' (with_key ''minimax'' ''k'') = [] \<and> \<not> providers_IsEmpty (with_key ''minimax'' ''k'')"
proof -
  have "PvKey (with_key ''minimax'' ''k'' ''minimax'') \<noteq> []" by (simp add: with_key_def)
  moreover have "PvKey (with_key ''minimax'' ''k'' n) = [] \<and> PvBase (with_key ''minimax'' ''k'' n) = [] \<and> PvConnect (with_key ''minimax'' ''k'' n) = []"
    if "n \<noteq> ''minimax''" for n using that by (simp add: with_key_def no_providers_def)
  moreover have "PvAuth (with_key ''minimax'' ''k'' ''antigravity'') = []" by (simp add: with_key_def no_providers_def)
  ultimately show ?thesis using providers_lost [of "with_key ''minimax'' ''k''" "[]" "''m1''"] by blast
qed

theorem key_sent_elsewhere_witness:
  "\<exists>e \<in> set (ConvertProvidersToModelList ''openrouter'' ''anthropic/claude-sonnet-4.6'' (with_key ''openrouter'' ''or-key'')).
     \<exists>proxy timeout. CreateProviderFromConfig (\<lambda>_. Inr None) True e = Inr (HTTPClient ''or-key'' ''https://api.anthropic.com/v1'' proxy [] timeout [], ''claude-sonnet-4.6'')"
proof -
  have "PvKey (with_key ''openrouter'' ''or-key'' ''openrouter'') = ''or-key''" "PvBase (with_key ''openrouter'' ''or-key'' ''openrouter'') = []"
    by (simp_all add: with_key_def no_providers_def)
  from key_sent_elsewhere [where p = "with_key ''openrouter'' ''or-key''", OF this(1) _ this(2)] show ?thesis by blast
qed

theorem converted_protocols_known_witness:
  "fst (ExtractProtocol (ModelPath (hd (ConvertProvidersToModelList ''Groq'' ''llama'' (with_key ''groq'' ''k''))))) \<in> set (map Protocol migrations)"
proof -
  have "ConvertProvidersToModelList ''Groq'' ''llama'' (with_key ''groq'' ''k'') \<noteq> []" by code_simp
  then have "hd (ConvertProvidersToModelList ''Groq'' ''llama'' (with_key ''groq'' ''k'')) \<in> set (ConvertProvidersToModelList ''Groq'' ''llama'' (with_key ''groq'' ''k''))"
    by simp
  moreover have "\<not> Contains ''llama'' ''/''" "trimmed ''llama''" by code_simp+
  ultimately show ?thesis using converted_protocols_known by blast
qed

theorem qwen_override_fails_witness:
  "buildProviderForOverride (\<lambda>_. Inr None) True [] (ConvertProvidersToModelList [] [] (with_key ''qwen'' ''k'')) ''Qwen'' ''qwen-max'' = Inl (NoOverrideConfig ''qwen'')"
proof (rule qwen_override_fails)
  show "ToLower (TrimSpace ''Qwen'') = ''qwen''" "TrimSpace ''qwen-max'' \<noteq> []" by code_simp+
qed simp

end
