(* ===== verification/Commands.thy ===== *)
theory Commands
  imports Turn SkillActivation
begin

text \<open>
  Chat commands: \<open>pkg/commands\<close> (parsing, the registry, the executor and the built-in commands) and their side in
  \<open>pkg/agent/loop.go\<close> (\<open>handleCommand\<close>, \<open>buildCommandsRuntime\<close>). A handler is a value of \<open>command_handler\<close>, whose code is
  \<open>run_handler\<close>; it replies once, and the error of that reply is its error. A runtime is a record of optional operations
  over a state \<open>'s\<close>, as the record of optional functions in the code.
\<close>

section \<open>Requests\<close>

text \<open>\<open>strings.Fields\<close>; the first argument is the current word, backwards.\<close>

fun fields_from :: "string \<Rightarrow> string \<Rightarrow> string list" where
  "fields_from w [] = (if w = [] then [] else [rev w])"
| "fields_from w (c # cs) =
     (if \<not> is_space c then fields_from (c # w) cs
      else if w = [] then fields_from [] cs
      else rev w # fields_from [] cs)"

definition nthToken :: "string \<Rightarrow> nat \<Rightarrow> string" where
  "nthToken input n = (let parts = fields_from [] (TrimSpace input) in if length parts \<le> n then [] else parts ! n)"

definition normalizeCommandName :: "string \<Rightarrow> string" where
  "normalizeCommandName name = ToLower (TrimSpace name)"

definition commandPrefixes :: "string list" where
  "commandPrefixes = [''/'', ''!'']"

definition trimCommandPrefix :: "string \<Rightarrow> string option" where
  "trimCommandPrefix token =
     (case find (HasPrefix token) commandPrefixes of None \<Rightarrow> None | Some p \<Rightarrow> Some (drop (length p) token))"

definition HasCommandPrefix :: "string \<Rightarrow> bool" where
  "HasCommandPrefix input \<longleftrightarrow> nthToken input 0 \<noteq> [] \<and> trimCommandPrefix (nthToken input 0) \<noteq> None"

definition parseCommandName :: "string \<Rightarrow> string option" where
  "parseCommandName input =
     (if nthToken input 0 = [] then None
      else
        case trimCommandPrefix (nthToken input 0) of
          None \<Rightarrow> None
        | Some name \<Rightarrow>
            let bare = (case Index name ''@'' of Some i \<Rightarrow> take i name | None \<Rightarrow> name); n = normalizeCommandName bare in
            if n = [] then None else Some n)"

record CommandRequest =
  CmdChannel :: string
  CmdChatID :: string
  CmdSenderID :: string
  CmdText :: string

section \<open>Definitions and the registry\<close>

datatype command_handler =
  HandleStart | HandleHelp | HandleShowModel | HandleShowChannel | HandleAgents | HandleListModels | HandleListChannels
| HandleSwitchModel | HandleSwitchReasoning | HandleMoved | HandleCheckChannel | HandleClear | HandleNew | HandleCompact

record SubCommand =
  SubName :: string
  SubDescription :: string
  SubArgsUsage :: string
  SubHandler :: "command_handler option"

record CommandDefinition =
  DefName :: string
  DefDescription :: string
  DefUsage :: string
  DefAliases :: "string list"
  DefSubCommands :: "SubCommand list"
  DefHandler :: "command_handler option"

definition EffectiveUsage :: "CommandDefinition \<Rightarrow> string" where
  "EffectiveUsage d =
     (if DefSubCommands d = [] then DefUsage d
      else ''/'' @ DefName d @ '' ['' @
        Join ''|'' (map (\<lambda>sc. if SubArgsUsage sc = [] then SubName sc else SubName sc @ '' '' @ SubArgsUsage sc) (DefSubCommands d)) @ '']'')"

record CommandRegistry =
  RegDefs :: "CommandDefinition list"
  RegIndex :: "string \<rightharpoonup> nat"

definition registerCommandName :: "string \<Rightarrow> nat \<Rightarrow> (string \<rightharpoonup> nat) \<Rightarrow> (string \<rightharpoonup> nat)" where
  "registerCommandName name i index =
     (let key = normalizeCommandName name in if key = [] \<or> index key \<noteq> None then index else index(key \<mapsto> i))"

fun register_all :: "nat \<Rightarrow> CommandDefinition list \<Rightarrow> (string \<rightharpoonup> nat) \<Rightarrow> (string \<rightharpoonup> nat)" where
  "register_all i [] index = index"
| "register_all i (d # ds) index =
     register_all (Suc i) ds (fold (\<lambda>a. registerCommandName a i) (DefName d # DefAliases d) index)"

definition NewRegistry :: "CommandDefinition list \<Rightarrow> CommandRegistry" where
  "NewRegistry defs = \<lparr>RegDefs = defs, RegIndex = register_all 0 defs (\<lambda>_. None)\<rparr>"

definition Lookup :: "CommandRegistry \<Rightarrow> string \<Rightarrow> CommandDefinition option" where
  "Lookup r name =
     (let key = normalizeCommandName name in
      if key = [] then None else (case RegIndex r key of None \<Rightarrow> None | Some i \<Rightarrow> Some (RegDefs r ! i)))"

definition simple_command :: "string \<Rightarrow> string \<Rightarrow> string \<Rightarrow> command_handler \<Rightarrow> CommandDefinition" where
  "simple_command name description usage h =
     \<lparr>DefName = name, DefDescription = description, DefUsage = usage, DefAliases = [], DefSubCommands = [], DefHandler = Some h\<rparr>"

definition group_command :: "string \<Rightarrow> string \<Rightarrow> (string \<times> string \<times> string \<times> command_handler) list \<Rightarrow> CommandDefinition" where
  "group_command name description subs =
     \<lparr>DefName = name, DefDescription = description, DefUsage = [], DefAliases = [],
      DefSubCommands = map (\<lambda>(n, d, args, h). \<lparr>SubName = n, SubDescription = d, SubArgsUsage = args, SubHandler = Some h\<rparr>) subs,
      DefHandler = None\<rparr>"

definition startCommand :: CommandDefinition where
  "startCommand = simple_command ''start'' ''Start the bot'' ''/start'' HandleStart"

definition helpCommand :: CommandDefinition where
  "helpCommand = simple_command ''help'' ''Show this help message'' ''/help'' HandleHelp"

definition showCommand :: CommandDefinition where
  "showCommand = group_command ''show'' ''Show current configuration''
     [(''model'', ''Current model and provider'', [], HandleShowModel), (''channel'', ''Current channel'', [], HandleShowChannel),
      (''agents'', ''Registered agents'', [], HandleAgents)]"

definition listCommand :: CommandDefinition where
  "listCommand = group_command ''list'' ''List available options''
     [(''models'', ''Configured models'', [], HandleListModels), (''channels'', ''Enabled channels'', [], HandleListChannels),
      (''agents'', ''Registered agents'', [], HandleAgents)]"

definition switchCommand :: CommandDefinition where
  "switchCommand = group_command ''switch'' ''Switch runtime settings''
     [(''model'', ''Switch to a different model'', ''to <name>'', HandleSwitchModel),
      (''reasoning'', ''Switch reasoning level'', ''to <off|low|medium|high|xhigh|adaptive>'', HandleSwitchReasoning),
      (''channel'', ''Moved to /check channel'', [], HandleMoved)]"

definition checkCommand :: CommandDefinition where
  "checkCommand = group_command ''check'' ''Check channel availability''
     [(''channel'', ''Check if a channel is available'', ''<name>'', HandleCheckChannel)]"

definition clearCommand :: CommandDefinition where
  "clearCommand = simple_command ''clear'' ''Clear the chat history'' ''/clear'' HandleClear"

definition newCommand :: CommandDefinition where
  "newCommand = simple_command ''new'' ''Start a new conversation'' ''/new'' HandleNew"

definition compactCommand :: CommandDefinition where
  "compactCommand = simple_command ''compact'' ''Compact the current conversation'' ''/compact'' HandleCompact"

definition BuiltinDefinitions :: "CommandDefinition list" where
  "BuiltinDefinitions =
     [startCommand, helpCommand, showCommand, listCommand, switchCommand, checkCommand, clearCommand, newCommand, compactCommand]"

definition formatHelpMessage :: "CommandDefinition list \<Rightarrow> string" where
  "formatHelpMessage defs =
     (if defs = [] then ''No commands available.''
      else Join [lf] (map (\<lambda>d.
        (if EffectiveUsage d = [] then ''/'' @ DefName d else EffectiveUsage d) @ '' - '' @
        (if DefDescription d = [] then ''No description'' else DefDescription d)) defs))"

section \<open>Handlers\<close>

record 's Runtime =
  GetModelInfo :: "('s \<Rightarrow> string \<times> string) option"
  ListAgentIDs :: "string list option"
  ListDefinitions :: "CommandDefinition list option"
  GetEnabledChannels :: "string list option"
  SwitchModel :: "(string \<Rightarrow> 's \<Rightarrow> 's \<times> (string + string)) option"
  SwitchReasoning :: "(string \<Rightarrow> 's \<Rightarrow> 's \<times> (string + string)) option"
  SwitchChannel :: "(string \<Rightarrow> string option) option"
  ClearHistory :: "('s \<Rightarrow> 's \<times> string option) option"
  NewSession :: "('s \<Rightarrow> 's \<times> string option) option"
  CompactConversation :: "('s \<Rightarrow> 's \<times> string option) option"

definition unavailableMsg :: string where
  "unavailableMsg = ''Command unavailable in current context.''"

definition start_reply :: string where
  "start_reply = ''Hello! I am SuprClaw '' @ map char_of [0xF0 :: nat, 0x9F, 0xA6, 0x9E]"

definition agents_reply :: "'s Runtime \<Rightarrow> string" where
  "agents_reply rt =
     (case ListAgentIDs rt of
        None \<Rightarrow> unavailableMsg
      | Some ids \<Rightarrow> if ids = [] then ''No agents registered'' else ''Registered agents: '' @ Join '', '' ids)"

text \<open>The handlers of \<open>/switch model\<close> and \<open>/switch reasoning\<close>, which differ in their texts.\<close>

definition switch_setting ::
  "string \<Rightarrow> string \<Rightarrow> (string \<Rightarrow> 's \<Rightarrow> 's \<times> (string + string)) option \<Rightarrow> CommandRequest \<Rightarrow> 's \<Rightarrow> 's \<times> string" where
  "switch_setting what usage switch req s =
     (case switch of
        None \<Rightarrow> (s, unavailableMsg)
      | Some f \<Rightarrow>
          let wanted = nthToken (CmdText req) 3 in
          if nthToken (CmdText req) 2 \<noteq> ''to'' \<or> wanted = [] then (s, usage)
          else (case f wanted s of
                  (s', Inl err) \<Rightarrow> (s', err)
                | (s', Inr old) \<Rightarrow> (s', ''Switched '' @ what @ '' from '' @ old @ '' to '' @ wanted)))"

definition session_action ::
  "string \<Rightarrow> string \<Rightarrow> ('s \<Rightarrow> 's \<times> string option) option \<Rightarrow> 's \<Rightarrow> 's \<times> string" where
  "session_action failed succeeded act s =
     (case act of
        None \<Rightarrow> (s, unavailableMsg)
      | Some f \<Rightarrow> (case f s of (s', Some err) \<Rightarrow> (s', failed @ err) | (s', None) \<Rightarrow> (s', succeeded)))"

definition run_handler :: "command_handler \<Rightarrow> CommandRequest \<Rightarrow> 's Runtime \<Rightarrow> 's \<Rightarrow> 's \<times> string" where
  "run_handler h req rt s =
     (case h of
        HandleStart \<Rightarrow> (s, start_reply)
      | HandleHelp \<Rightarrow> (s, formatHelpMessage (case ListDefinitions rt of Some defs \<Rightarrow> defs | None \<Rightarrow> BuiltinDefinitions))
      | HandleShowModel \<Rightarrow>
          (s, case GetModelInfo rt of
                None \<Rightarrow> unavailableMsg
              | Some info \<Rightarrow> ''Current Model: '' @ fst (info s) @ '' (Provider: '' @ snd (info s) @ '')'')
      | HandleShowChannel \<Rightarrow> (s, ''Current Channel: '' @ CmdChannel req)
      | HandleAgents \<Rightarrow> (s, agents_reply rt)
      | HandleListModels \<Rightarrow>
          (s, case GetModelInfo rt of
                None \<Rightarrow> unavailableMsg
              | Some info \<Rightarrow>
                  ''Configured Model: '' @ fst (info s) @ [lf] @ ''Provider: '' @
                  (if snd (info s) = [] then ''configured default'' else snd (info s)) @ [lf, lf] @
                  ''To change models, update config.json'')
      | HandleListChannels \<Rightarrow>
          (s, case GetEnabledChannels rt of
                None \<Rightarrow> unavailableMsg
              | Some enabled \<Rightarrow>
                  if enabled = [] then ''No channels enabled''
                  else ''Enabled Channels:'' @ [lf] @ ''- '' @ Join ([lf] @ ''- '') enabled)
      | HandleSwitchModel \<Rightarrow> switch_setting ''model'' ''Usage: /switch model to <name>'' (SwitchModel rt) req s
      | HandleSwitchReasoning \<Rightarrow>
          switch_setting ''reasoning'' ''Usage: /switch reasoning to <off|low|medium|high|xhigh|adaptive>'' (SwitchReasoning rt) req s
      | HandleMoved \<Rightarrow> (s, ''This command has moved. Please use: /check channel <name>'')
      | HandleCheckChannel \<Rightarrow>
          (s, case SwitchChannel rt of
                None \<Rightarrow> unavailableMsg
              | Some check \<Rightarrow>
                  let wanted = nthToken (CmdText req) 2 in
                  if wanted = [] then ''Usage: /check channel <name>''
                  else (case check wanted of
                          Some err \<Rightarrow> err
                        | None \<Rightarrow> ''Channel '' @ [CHR 0x27] @ wanted @ [CHR 0x27] @ '' is available and enabled''))
      | HandleClear \<Rightarrow> session_action ''Failed to clear chat history: '' ''Chat history cleared!'' (ClearHistory rt) s
      | HandleNew \<Rightarrow> session_action ''Failed to start a new conversation: '' ''Started a new conversation.'' (NewSession rt) s
      | HandleCompact \<Rightarrow> session_action ''Failed to compact conversation: '' ''Conversation compacted!'' (CompactConversation rt) s)"

section \<open>The executor\<close>

text \<open>What is done with a request: passed on, or handled with the text of the reply. \<open>reply\<close> gives the error of sending it.\<close>

datatype command_outcome = PassThrough | CommandHandled string string "string option"

definition executeDefinition ::
  "(string \<Rightarrow> string option) \<Rightarrow> CommandRequest \<Rightarrow> 's Runtime \<Rightarrow> CommandDefinition \<Rightarrow> 's \<Rightarrow> 's \<times> command_outcome" where
  "executeDefinition reply req rt def s =
     (let run = (\<lambda>h. case h of
            None \<Rightarrow> (s, PassThrough)
          | Some h \<Rightarrow> (let (s', t) = run_handler h req rt s in (s', CommandHandled (DefName def) t (reply t))));
          say = (\<lambda>t. (s, CommandHandled (DefName def) t (reply t)))
      in
      if DefSubCommands def = [] then run (DefHandler def)
      else
        let sub = nthToken (CmdText req) 1 in
        if sub = [] then say (''Usage: '' @ EffectiveUsage def)
        else
          case find (\<lambda>sc. normalizeCommandName (SubName sc) = normalizeCommandName sub) (DefSubCommands def) of
            Some sc \<Rightarrow> run (SubHandler sc)
          | None \<Rightarrow> say (''Unknown option: '' @ sub @ ''. Usage: '' @ EffectiveUsage def))"

definition execute_command ::
  "CommandRegistry option \<Rightarrow> (string \<Rightarrow> string option) \<Rightarrow> CommandRequest \<Rightarrow> 's Runtime \<Rightarrow> 's \<Rightarrow> 's \<times> command_outcome" where
  "execute_command reg reply req rt s =
     (case parseCommandName (CmdText req) of
        None \<Rightarrow> (s, PassThrough)
      | Some name \<Rightarrow>
          (case reg of
             None \<Rightarrow> (s, PassThrough)
           | Some r \<Rightarrow> (case Lookup r name of None \<Rightarrow> (s, PassThrough) | Some def \<Rightarrow> executeDefinition reply req rt def s)))"

definition mapCommandError :: "string \<Rightarrow> string \<Rightarrow> string" where
  "mapCommandError command err =
     (if command = [] then ''Failed to execute command: '' @ err else ''Failed to execute /'' @ command @ '': '' @ err)"

section \<open>The runtime of the agent loop\<close>

record command_state =
  CmdSessions :: SessionManager
  CmdSkills :: session_skills
  CmdSchemas :: ToolSchemaCache
  CmdAgent :: turn_agent

text \<open>\<open>EnvSave\<close> is the error of saving a session, \<open>EnvChannels\<close> the enabled channels, if there is a channel manager.\<close>

record command_env =
  EnvAgents :: "string list"
  EnvChannels :: "string list option"
  EnvProvider :: string
  EnvLLM :: llm
  EnvNow :: instant
  EnvSave :: "string option"

definition parseThinkingLevelStrict :: "string \<Rightarrow> string option" where
  "parseThinkingLevelStrict level =
     (let l = ToLower (TrimSpace level) in
      if l \<in> {''off'', ''adaptive'', ''low'', ''medium'', ''high'', ''xhigh''} then Some l else None)"

definition forget_session :: "instant \<Rightarrow> string \<Rightarrow> command_state \<Rightarrow> command_state" where
  "forget_session now key s =
     s\<lparr>CmdSessions := sm_SetDiscoveredTools now (sm_SetSummary now (sm_SetHistory now (CmdSessions s) key []) key []) key [],
       CmdSkills := ClearSessionSkillState (CmdSkills s) key,
       CmdSchemas := fst (InvalidateSession key (CmdSchemas s))\<rparr>"

definition clear_history :: "command_env \<Rightarrow> string \<Rightarrow> command_state \<Rightarrow> command_state \<times> string option" where
  "clear_history env key s = (forget_session (EnvNow env) key s, None)"

definition reset_session :: "command_env \<Rightarrow> string \<Rightarrow> command_state \<Rightarrow> command_state \<times> string option" where
  "reset_session env key s =
     (if TrimSpace key = [] then (s, Some ''session key is required'') else (forget_session (EnvNow env) key s, EnvSave env))"

definition compact_session :: "command_env \<Rightarrow> string \<Rightarrow> command_state \<Rightarrow> command_state \<times> string option" where
  "compact_session env key s =
     (case CompactSession (EnvLLM env) (TurnModel (CmdAgent s)) (AgentWindow (TurnLimits (CmdAgent s))) (EnvNow env) (CmdSessions s) key of
        None \<Rightarrow> (s, Some ''session key is required'')
      | Some sm \<Rightarrow> (s\<lparr>CmdSessions := sm\<rparr>, EnvSave env))"

definition switch_model :: "string \<Rightarrow> command_state \<Rightarrow> command_state \<times> (string + string)" where
  "switch_model wanted s = (s\<lparr>CmdAgent := (CmdAgent s)\<lparr>TurnModel := wanted\<rparr>\<rparr>, Inr (TurnModel (CmdAgent s)))"

definition switch_reasoning :: "(string \<Rightarrow> string) \<Rightarrow> string \<Rightarrow> command_state \<Rightarrow> command_state \<times> (string + string)" where
  "switch_reasoning quote wanted s =
     (case parseThinkingLevelStrict wanted of
        None \<Rightarrow> (s, Inl (''invalid reasoning level '' @ quote wanted @ ''. Allowed: off|low|medium|high|xhigh|adaptive''))
      | Some l \<Rightarrow> (s\<lparr>CmdAgent := (CmdAgent s)\<lparr>ThinkingLevel := l\<rparr>\<rparr>, Inr (ThinkingLevel (CmdAgent s))))"

definition check_channel :: "command_env \<Rightarrow> string \<Rightarrow> string option" where
  "check_channel env wanted =
     (case EnvChannels env of
        None \<Rightarrow> Some ''channel manager not initialized''
      | Some chans \<Rightarrow>
          if wanted \<notin> set chans \<and> wanted \<noteq> ''cli''
          then Some (''channel '' @ [CHR 0x27] @ wanted @ [CHR 0x27] @ '' not found or not enabled'') else None)"

definition buildCommandsRuntime ::
  "CommandRegistry \<Rightarrow> (string \<Rightarrow> string) \<Rightarrow> command_env \<Rightarrow> string \<Rightarrow> command_state Runtime" where
  "buildCommandsRuntime reg quote env key =
     \<lparr>GetModelInfo = Some (\<lambda>s. (TurnModel (CmdAgent s), EnvProvider env)), ListAgentIDs = Some (EnvAgents env),
      ListDefinitions = Some (RegDefs reg),
      GetEnabledChannels = Some (case EnvChannels env of None \<Rightarrow> [] | Some chans \<Rightarrow> chans),
      SwitchModel = Some switch_model, SwitchReasoning = Some (switch_reasoning quote), SwitchChannel = Some (check_channel env),
      ClearHistory = Some (clear_history env key), NewSession = Some (reset_session env key),
      CompactConversation = Some (compact_session env key)\<rparr>"

text \<open>\<open>None\<close> leaves the message to the model. The reply of a handler is only kept, so it never fails.\<close>

definition handleCommand ::
  "CommandRegistry option \<Rightarrow> (string \<Rightarrow> string) \<Rightarrow> command_env \<Rightarrow> CommandRequest \<Rightarrow> string \<Rightarrow> command_state \<Rightarrow>
   command_state \<times> string option" where
  "handleCommand cmdRegistry quote env req key s =
     (if \<not> HasCommandPrefix (CmdText req) then (s, None)
      else
        case cmdRegistry of
          None \<Rightarrow> (s, None)
        | Some reg \<Rightarrow>
            (case execute_command (Some reg) (\<lambda>_. None) req (buildCommandsRuntime reg quote env key) s of
               (s', PassThrough) \<Rightarrow> (s', None)
             | (s', CommandHandled command t (Some err)) \<Rightarrow> (s', Some (mapCommandError command err))
             | (s', CommandHandled command t None) \<Rightarrow> (s', Some t)))"

section \<open>Lookup\<close>

definition command_keys :: "CommandDefinition \<Rightarrow> string list" where
  "command_keys d = filter (\<lambda>k. k \<noteq> []) (map normalizeCommandName (DefName d # DefAliases d))"

lemma command_keys_iff: "k \<in> set (command_keys d) \<longleftrightarrow> k \<noteq> [] \<and> k \<in> set (map normalizeCommandName (DefName d # DefAliases d))"
  by (auto simp: command_keys_def)

lemma register_names:
  "fold (\<lambda>a. registerCommandName a i) names index k =
     (case index k of Some j \<Rightarrow> Some j | None \<Rightarrow> if k \<noteq> [] \<and> k \<in> set (map normalizeCommandName names) then Some i else None)"
  by (induction names arbitrary: index) (auto simp: registerCommandName_def Let_def split: option.splits)

lemma register_found:
  "k \<noteq> [] \<Longrightarrow> index k = None \<Longrightarrow>
   (case register_all i ds index k of None \<Rightarrow> find (\<lambda>d. k \<in> set (command_keys d)) ds = None
    | Some j \<Rightarrow> i \<le> j \<and> j < i + length ds \<and> find (\<lambda>d. k \<in> set (command_keys d)) ds = Some (ds ! (j - i)))"
proof (induction ds arbitrary: i index)
  case (Cons d ds)
  let ?ix = "fold (\<lambda>a. registerCommandName a i) (DefName d # DefAliases d) index"
  have keep: "j = j' " if "register_all n es ix k = Some j'" "ix k = Some j" for n es ix j j'
    using that
  proof (induction es arbitrary: n ix)
    case (Cons e es)
    from Cons.prems(2) have "fold (\<lambda>a. registerCommandName a n) (DefName e # DefAliases e) ix k = Some j"
      unfolding register_names by simp
    with Cons.IH Cons.prems(1) show ?case by (simp del: fold.simps)
  qed simp
  have some: "register_all n es ix k \<noteq> None" if "ix k \<noteq> None" for n es ix
    using that
  proof (induction es arbitrary: n ix)
    case (Cons e es)
    from Cons.prems have "fold (\<lambda>a. registerCommandName a n) (DefName e # DefAliases e) ix k \<noteq> None"
      unfolding register_names by (auto split: option.split)
    with Cons.IH show ?case by (simp del: fold.simps)
  qed simp
  show ?case
  proof (cases "k \<in> set (command_keys d)")
    case True
    with Cons.prems have ix: "?ix k = Some i" unfolding register_names command_keys_iff by simp
    from some [of ?ix "Suc i" ds] ix obtain j where j: "register_all (Suc i) ds ?ix k = Some j" by auto
    with keep [OF j ix] True show ?thesis by (simp del: fold.simps)
  next
    case False
    with Cons.prems have ix: "?ix k = None" unfolding register_names command_keys_iff by simp
    from Cons.IH [where index = ?ix and i = "Suc i", OF Cons.prems(1) ix] False show ?thesis
      by (auto simp del: fold.simps simp: nth_Cons' Suc_diff_le split: option.splits)
  qed
qed simp

text \<open>Lookup finds the first definition that has the name, as its name or as an alias, whatever the case and the white space around it.\<close>

theorem Lookup_exact:
  "Lookup (NewRegistry defs) name = find (\<lambda>d. normalizeCommandName name \<in> set (command_keys d)) defs"
proof (cases "normalizeCommandName name = []")
  case True
  then show ?thesis by (simp add: Lookup_def find_None_iff command_keys_def)
next
  case False
  from register_found [where index = "\<lambda>_. None" and i = 0 and ds = defs, OF this] False show ?thesis
    by (simp add: Lookup_def NewRegistry_def split: option.splits)
qed

section \<open>What a command may change\<close>

text \<open>A runtime whose operations stay within a frame, a reflexive relation of the state before and after.\<close>

locale framed_runtime =
  fixes rt :: "'s Runtime" and frame :: "'s \<Rightarrow> 's \<Rightarrow> bool"
  assumes frame_refl: "frame s s"
    and switch_model_frame: "SwitchModel rt = Some f \<Longrightarrow> frame s (fst (f v s))"
    and switch_reasoning_frame: "SwitchReasoning rt = Some f \<Longrightarrow> frame s (fst (f v s))"
    and clear_frame: "ClearHistory rt = Some g \<Longrightarrow> frame s (fst (g s))"
    and new_frame: "NewSession rt = Some g \<Longrightarrow> frame s (fst (g s))"
    and compact_frame: "CompactConversation rt = Some g \<Longrightarrow> frame s (fst (g s))"
begin

lemma action_frame: "(\<And>g. act = Some g \<Longrightarrow> frame s (fst (g s))) \<Longrightarrow> frame s (fst (session_action a b act s))"
  by (auto simp: session_action_def frame_refl split: option.split prod.split)

lemma switch_frame: "(\<And>f v. sw = Some f \<Longrightarrow> frame s (fst (f v s))) \<Longrightarrow> frame s (fst (switch_setting a b sw req s))"
  by (auto simp: switch_setting_def frame_refl Let_def split: option.split prod.split sum.split) (metis fst_conv)+

lemma handler_frame: "frame s (fst (run_handler h req rt s))"
  by (cases h) (simp_all add: run_handler_def frame_refl action_frame switch_frame switch_model_frame switch_reasoning_frame
    clear_frame new_frame compact_frame)

lemma definition_frame: "frame s (fst (executeDefinition reply req rt def s))"
  using handler_frame [of s]
  by (auto simp: executeDefinition_def Let_def frame_refl split: option.split prod.split) (metis fst_conv)+

lemma execute_frame: "frame s (fst (execute_command reg reply req rt s))"
  by (simp add: execute_command_def frame_refl definition_frame split: option.split)

end

text \<open>The frame of a session: other sessions are as before, and so is the agent apart from the name of its model and its thinking level.\<close>

definition within_session :: "string \<Rightarrow> command_state \<Rightarrow> command_state \<Rightarrow> bool" where
  "within_session key s s' \<longleftrightarrow>
     (\<forall>k. k \<noteq> key \<longrightarrow> sessions (CmdSessions s') k = sessions (CmdSessions s) k) \<and>
     (\<forall>k. normalizeSkillSessionKey k \<noteq> normalizeSkillSessionKey key \<longrightarrow> active_names (CmdSkills s') k = active_names (CmdSkills s) k) \<and>
     set (CmdSchemas s') \<subseteq> set (CmdSchemas s) \<and> (\<exists>m l. CmdAgent s' = (CmdAgent s)\<lparr>TurnModel := m, ThinkingLevel := l\<rparr>)"

lemma other_sessions:
  assumes "k \<noteq> key"
  shows "sessions (sm_SetHistory now sm key ms) k = sessions sm k" "sessions (sm_SetSummary now sm key t) k = sessions sm k"
    "sessions (sm_SetDiscoveredTools now sm key ns) k = sessions sm k" "sessions (sm_TruncateHistory now sm key n) k = sessions sm k"
  using assms by (auto simp: sm_defs Let_def split: option.split)

lemma other_skills:
  "normalizeSkillSessionKey k \<noteq> normalizeSkillSessionKey key \<Longrightarrow> active_names (ClearSessionSkillState st key) k = active_names st k"
  by (simp add: active_names_def ClearSessionSkillState_def Let_def)

lemma same_agent:
  "\<exists>m l. a = a\<lparr>TurnModel := m, ThinkingLevel := l\<rparr>" "\<exists>m. a\<lparr>TurnModel := w\<rparr> = a\<lparr>TurnModel := m, ThinkingLevel := ThinkingLevel a\<rparr>"
  "\<exists>m. a\<lparr>ThinkingLevel := v\<rparr> = a\<lparr>TurnModel := m, ThinkingLevel := v\<rparr>"
  "\<exists>m l. a\<lparr>TurnModel := w\<rparr> = a\<lparr>TurnModel := m, ThinkingLevel := l\<rparr>"
  "\<exists>m l. a\<lparr>ThinkingLevel := v\<rparr> = a\<lparr>TurnModel := m, ThinkingLevel := l\<rparr>"
  by (rule exI [of _ "TurnModel a"], rule exI [of _ "ThinkingLevel a"], simp, rule exI [of _ w], simp, rule exI [of _ "TurnModel a"], simp,
    rule exI [of _ w], rule exI [of _ "ThinkingLevel a"], simp, rule exI [of _ "TurnModel a"], rule exI [of _ v], simp)

lemma forget_frame: "within_session key s (forget_session now key s)"
  by (auto simp: within_session_def forget_session_def other_sessions other_skills InvalidateSession_def invalidateIf_def Let_def
    intro: same_agent)

lemma compact_frame: "within_session key s (fst (compact_session env key s))"
  by (auto simp: within_session_def compact_session_def CompactSession_def summarizeSession_def apply_summary_def other_sessions
    split: option.split intro: same_agent)

interpretation agent_commands: framed_runtime "buildCommandsRuntime reg quote env key" "within_session key"
proof unfold_locales
  show refl: "within_session key s s" for s by (auto simp: within_session_def intro: same_agent)
  show "within_session key s (fst (f v s))" if "SwitchModel (buildCommandsRuntime reg quote env key) = Some f" for f v s
    using that by (auto simp: buildCommandsRuntime_def switch_model_def within_session_def intro: same_agent)
  show "within_session key s (fst (f v s))" if "SwitchReasoning (buildCommandsRuntime reg quote env key) = Some f" for f v s
    using that by (cases "parseThinkingLevelStrict v") (auto simp: buildCommandsRuntime_def switch_reasoning_def within_session_def intro: same_agent)
  show "within_session key s (fst (g s))" if "ClearHistory (buildCommandsRuntime reg quote env key) = Some g" for g s
    using that forget_frame by (auto simp: buildCommandsRuntime_def clear_history_def)
  show "within_session key s (fst (g s))" if "NewSession (buildCommandsRuntime reg quote env key) = Some g" for g s
    using that forget_frame refl by (auto simp: buildCommandsRuntime_def reset_session_def)
  show "within_session key s (fst (g s))" if "CompactConversation (buildCommandsRuntime reg quote env key) = Some g" for g s
    using that compact_frame by (auto simp: buildCommandsRuntime_def)
qed


section \<open>Which messages are commands\<close>

definition builtin_registry :: CommandRegistry where
  "builtin_registry = NewRegistry BuiltinDefinitions"

lemma builtin_keys: "map command_keys BuiltinDefinitions = map (\<lambda>d. [DefName d]) BuiltinDefinitions"
  by code_simp

definition runnable :: "CommandDefinition \<Rightarrow> bool" where
  "runnable d \<longleftrightarrow> (if DefSubCommands d = [] then DefHandler d \<noteq> None else list_all (\<lambda>sc. SubHandler sc \<noteq> None) (DefSubCommands d))"

lemma builtin_runnable: "d \<in> set BuiltinDefinitions \<Longrightarrow> runnable d"
proof -
  have "list_all runnable BuiltinDefinitions" by code_simp
  then show "d \<in> set BuiltinDefinitions \<Longrightarrow> runnable d" by (simp add: list_all_iff)
qed

lemma parsed_normal: "parseCommandName input = Some n \<Longrightarrow> normalizeCommandName n = n \<and> n \<noteq> [] \<and> HasCommandPrefix input"
  by (auto simp: parseCommandName_def HasCommandPrefix_def Let_def normalizeCommandName_def TrimSpace_ToLower ToLower_idem
    split: if_splits option.splits)

lemma builtin_Lookup:
  assumes "normalizeCommandName n = n"
  shows "Lookup builtin_registry n = find (\<lambda>d. DefName d = n) BuiltinDefinitions"
proof -
  have "find (\<lambda>d. n \<in> set (command_keys d)) ds = find (\<lambda>d. DefName d = n) ds" if "map command_keys ds = map (\<lambda>d. [DefName d]) ds" for ds
    using that by (induction ds) auto
  from this [OF builtin_keys] show ?thesis by (simp add: builtin_registry_def Lookup_exact assms)
qed

lemma runnable_handled:
  assumes "runnable d"
  shows "\<exists>s' t. executeDefinition reply req rt d s = (s', CommandHandled (DefName d) t (reply t))"
proof -
  have run: "\<exists>s' t. (case run_handler h req rt s of (s', t) \<Rightarrow> (s', CommandHandled n t (reply t))) = (s', CommandHandled n t (reply t))" for h n
    by (cases "run_handler h req rt s") simp
  let ?found = "find (\<lambda>sc. normalizeCommandName (SubName sc) = normalizeCommandName (nthToken (CmdText req) 1)) (DefSubCommands d)"
  consider "DefSubCommands d = []" | "DefSubCommands d \<noteq> []" "nthToken (CmdText req) 1 = [] \<or> ?found = None"
    | sc where "DefSubCommands d \<noteq> []" "nthToken (CmdText req) 1 \<noteq> []" "?found = Some sc" by blast
  then show ?thesis
  proof cases
    case 1
    with assms run show ?thesis by (auto simp: executeDefinition_def runnable_def)
  next
    case 2
    then show ?thesis by (auto simp: executeDefinition_def Let_def)
  next
    case 3
    then have "sc \<in> set (DefSubCommands d)" by (auto simp: find_Some_iff)
    with assms 3(1) obtain h where "SubHandler sc = Some h" by (auto simp: runnable_def list_all_iff)
    with 3 run show ?thesis by (simp add: executeDefinition_def Let_def)
  qed
qed

lemma handle_known:
  assumes "parseCommandName (CmdText req) = Some n" and "find (\<lambda>d. DefName d = n) BuiltinDefinitions = Some d"
  shows "\<exists>t. executeDefinition (\<lambda>_. None) req (buildCommandsRuntime builtin_registry quote env key) d s =
      (fst (handleCommand (Some builtin_registry) quote env req key s), CommandHandled (DefName d) t None) \<and>
    snd (handleCommand (Some builtin_registry) quote env req key s) = Some t"
proof -
  from assms(2) have "d \<in> set BuiltinDefinitions" by (auto simp: find_Some_iff)
  then obtain s' t where run: "executeDefinition (\<lambda>_. None) req (buildCommandsRuntime builtin_registry quote env key) d s =
      (s', CommandHandled (DefName d) t None)"
    using runnable_handled [OF builtin_runnable, of d "\<lambda>_. None" req "buildCommandsRuntime builtin_registry quote env key" s] by blast
  with assms builtin_Lookup parsed_normal [OF assms(1)] show ?thesis
    by (simp add: handleCommand_def execute_command_def)
qed

text \<open>A message is a command exactly when its first word is the name of a built-in command after a slash or an exclamation mark, in any case
  and with or without the name of a bot; any other message goes to the model and changes nothing here.\<close>

theorem commands_recognized:
  "(snd (handleCommand (Some builtin_registry) quote env req key s) \<noteq> None \<longleftrightarrow>
      (case parseCommandName (CmdText req) of None \<Rightarrow> False | Some n \<Rightarrow> n \<in> set (map DefName BuiltinDefinitions))) \<and>
   (snd (handleCommand (Some builtin_registry) quote env req key s) = None \<longrightarrow>
      fst (handleCommand (Some builtin_registry) quote env req key s) = s)"
proof (cases "parseCommandName (CmdText req)")
  case None
  then show ?thesis by (simp add: handleCommand_def execute_command_def)
next
  case (Some n)
  note parsed = parsed_normal [OF Some]
  show ?thesis
  proof (cases "find (\<lambda>d. DefName d = n) BuiltinDefinitions")
    case None
    then have "n \<notin> set (map DefName BuiltinDefinitions)" by (auto simp: find_None_iff)
    with None Some parsed builtin_Lookup show ?thesis by (simp add: handleCommand_def execute_command_def)
  next
    case found: (Some d)
    then have "n \<in> set (map DefName BuiltinDefinitions)" by (auto simp: find_Some_iff)
    with Some handle_known [OF Some found, of quote env key s] show ?thesis by auto
  qed
qed

section \<open>Forgetting a conversation\<close>

lemma forget_session_effect:
  "sm_GetHistory (CmdSessions (forget_session now key s)) key = []"
  "sm_GetSummary (CmdSessions (forget_session now key s)) key = []"
  "sm_GetDiscoveredTools (CmdSessions (forget_session now key s)) key = []"
  "active_names (CmdSkills (forget_session now key s)) key = []"
  by (auto simp: forget_session_def sm_GetHistory_def sm_GetSummary_def sm_GetDiscoveredTools_def sm_defs newSession_def Let_def
    normalizeDiscoveredTools_def active_names_def ClearSessionSkillState_def split: option.splits)

lemma handle_simple:
  assumes "parseCommandName (CmdText req) = Some n" and "find (\<lambda>d. DefName d = n) BuiltinDefinitions = Some (simple_command n desc usage h)"
  shows "handleCommand (Some builtin_registry) quote env req key s =
    map_prod id Some (run_handler h req (buildCommandsRuntime builtin_registry quote env key) s)"
  using handle_known [OF assms, of quote env key s]
  by (cases "run_handler h req (buildCommandsRuntime builtin_registry quote env key) s")
     (auto simp: executeDefinition_def simple_command_def prod_eq_iff)

lemma find_clear: "find (\<lambda>d. DefName d = ''clear'') BuiltinDefinitions = Some (simple_command ''clear'' ''Clear the chat history'' ''/clear'' HandleClear)"
  by code_simp

lemma find_new: "find (\<lambda>d. DefName d = ''new'') BuiltinDefinitions = Some (simple_command ''new'' ''Start a new conversation'' ''/new'' HandleNew)"
  by code_simp

lemma clear_forgets_state:
  assumes "parseCommandName (CmdText req) = Some ''clear''"
  shows "fst (handleCommand (Some builtin_registry) quote env req key s) = forget_session (EnvNow env) key s"
  using handle_simple [OF assms find_clear, of quote env key s]
  by (simp add: run_handler_def session_action_def buildCommandsRuntime_def clear_history_def)

text \<open>After the command \<open>clear\<close> the session has no message, no summary, no discovered tool and no active skill.\<close>

theorem clear_forgets:
  assumes "parseCommandName (CmdText req) = Some ''clear''"
    and "handleCommand (Some builtin_registry) quote env req key s = (s', r)"
  shows "sm_GetHistory (CmdSessions s') key = [] \<and> sm_GetSummary (CmdSessions s') key = [] \<and>
    sm_GetDiscoveredTools (CmdSessions s') key = [] \<and> active_names (CmdSkills s') key = []"
  using clear_forgets_state [OF assms(1), of quote env key s] assms(2) by (simp add: forget_session_effect)

text \<open>A failed save is reported by the command \<open>new\<close> but not by \<open>clear\<close>, which says that the history was cleared although the file
  of the session still has it.\<close>

theorem clear_hides_failure:
  assumes "EnvSave env = Some err" and "TrimSpace key \<noteq> []"
    and "parseCommandName (CmdText req) = Some ''clear''" and "parseCommandName (CmdText req') = Some ''new''"
  shows "snd (handleCommand (Some builtin_registry) quote env req key s) = Some ''Chat history cleared!'' \<and>
    snd (handleCommand (Some builtin_registry) quote env req' key s) = Some (''Failed to start a new conversation: '' @ err)"
  using handle_simple [OF assms(3) find_clear, of quote env key s] handle_simple [OF assms(4) find_new, of quote env key s] assms(1,2)
  by (simp add: run_handler_def session_action_def buildCommandsRuntime_def clear_history_def reset_session_def)

section \<open>The name of a bot\<close>

lemma fields_word: "list_all (\<lambda>c. \<not> is_space c) w \<Longrightarrow> v @ w \<noteq> [] \<Longrightarrow> fields_from v w = [rev v @ w]"
  by (induction w arbitrary: v) auto

lemma first_word:
  assumes "list_all (\<lambda>c. \<not> is_space c) w" and "w \<noteq> []"
  shows "nthToken w 0 = w"
proof -
  have "trimmed w" using assms by (cases w rule: rev_cases) (auto simp: trimmed_def list_all_iff hd_append)
  then show ?thesis using assms by (simp add: nthToken_def Let_def TrimSpace_trimmed fields_word)
qed

text \<open>The name of a bot after a command is not compared with anything: \<open>/clear@other_bot\<close>, which asks another bot of the same group, clears
  the conversation here.\<close>

theorem command_for_other_bot:
  assumes "list_all (\<lambda>c. \<not> is_space c) name" and "CmdText req = ''/clear@'' @ name"
  shows "sm_GetHistory (CmdSessions (fst (handleCommand (Some builtin_registry) quote env req key s))) key = []"
proof -
  have "nthToken (''/clear@'' @ name) 0 = ''/clear@'' @ name"
    using assms(1) by (intro first_word) (auto simp: is_space_def)
  moreover have "Index (''clear@'' @ name) ''@'' = Some 5" by (simp add: HasPrefix_def)
  moreover have "normalizeCommandName ''clear'' = ''clear''" by code_simp
  ultimately have "parseCommandName (CmdText req) = Some ''clear''"
    by (simp add: parseCommandName_def trimCommandPrefix_def commandPrefixes_def assms(2) HasPrefix_def)
  from clear_forgets_state [OF this] show ?thesis by (simp add: forget_session_effect)
qed

section \<open>Switching the model\<close>

lemma one_candidate_switch:
  assumes "length (TurnCandidates a) = 1" and "LightCandidates a = []"
  shows "turn_model (a\<lparr>TurnModel := m\<rparr>) opts h = turn_model a opts h"
proof -
  obtain c where c: "TurnCandidates a = [c]" using assms(1) by (cases "TurnCandidates a") auto
  have name: "candidateProviderName [c] x = CandProvider c" for x by (simp add: candidateProviderName_def)
  show ?thesis
    by (simp add: turn_model_def override_candidate_def selectCandidates_def c name assms(2) orderCandidatesByContextWindow_def Let_def
      split: option.split)
qed

text \<open>With one candidate (no fallback, no light model), switching the model does not change the model that answers: the command says
  that it was switched and shows the new name from then on, but the candidates and the model of every turn are those from before. (The
  new name is only used for summaries and for the budget of the skills.)\<close>

theorem switched_model_not_asked:
  assumes "length (TurnCandidates (CmdAgent s)) = 1" and "LightCandidates (CmdAgent s) = []"
    and "switch_model wanted s = (s', Inr old)"
  shows "TurnModel (CmdAgent s') = wanted \<and> turn_model (CmdAgent s') opts h = turn_model (CmdAgent s) opts h"
proof -
  from assms(3) have "CmdAgent s' = (CmdAgent s)\<lparr>TurnModel := wanted\<rparr>" by (auto simp: switch_model_def)
  with one_candidate_switch [OF assms(1,2)] show ?thesis by simp
qed

section \<open>Examples\<close>

definition demo_command_state :: command_state where
  "demo_command_state =
     \<lparr>CmdSessions = (sm_AddFullMessage 1 \<lparr>sessions = (\<lambda>_. None), storage = []\<rparr> ''k'' (text_message ''user'' ''hi'')),
      CmdSkills = no_session_skills, CmdSchemas = [],
      CmdAgent = demo_turn_agent\<rparr>"

definition demo_command_env :: command_env where
  "demo_command_env =
     \<lparr>EnvAgents = [''main''], EnvChannels = None, EnvProvider = ''openai'', EnvLLM = demo_llm, EnvNow = 2, EnvSave = Some ''disk full''\<rparr>"

definition demo_command :: "string \<Rightarrow> CommandRequest" where
  "demo_command t = \<lparr>CmdChannel = ''telegram'', CmdChatID = ''1'', CmdSenderID = ''2'', CmdText = t\<rparr>"

theorem commands_recognized_witness:
  "snd (handleCommand (Some builtin_registry) id demo_command_env (demo_command ''/nope'') ''k'' demo_command_state) = None \<and>
   fst (handleCommand (Some builtin_registry) id demo_command_env (demo_command ''/nope'') ''k'' demo_command_state) = demo_command_state \<and>
   snd (handleCommand (Some builtin_registry) id demo_command_env (demo_command ''!HELP@bot me'') ''k'' demo_command_state) \<noteq> None"
proof -
  have "parseCommandName (CmdText (demo_command ''/nope'')) = Some ''nope''" "parseCommandName (CmdText (demo_command ''!HELP@bot me'')) = Some ''help''"
    by code_simp+
  moreover have "''nope'' \<notin> set (map DefName BuiltinDefinitions)" "''help'' \<in> set (map DefName BuiltinDefinitions)" by code_simp+
  ultimately show ?thesis
    using commands_recognized [of id demo_command_env "demo_command ''/nope''" "''k''" demo_command_state]
      commands_recognized [of id demo_command_env "demo_command ''!HELP@bot me''" "''k''" demo_command_state] by simp
qed

lemma demo_parsed:
  "parseCommandName (CmdText (demo_command ''/clear'')) = Some ''clear''" "parseCommandName (CmdText (demo_command ''/new'')) = Some ''new''"
  by code_simp+

theorem clear_forgets_witness:
  "sm_GetHistory (CmdSessions demo_command_state) ''k'' \<noteq> [] \<and>
   sm_GetHistory (CmdSessions (fst (handleCommand (Some builtin_registry) id demo_command_env (demo_command ''/clear'') ''k'' demo_command_state))) ''k'' = []"
  using clear_forgets [OF demo_parsed(1), of id demo_command_env "''k''" demo_command_state]
  by (cases "handleCommand (Some builtin_registry) id demo_command_env (demo_command ''/clear'') ''k'' demo_command_state")
     (simp add: demo_command_state_def sm_add_history)

theorem clear_hides_failure_witness:
  "snd (handleCommand (Some builtin_registry) id demo_command_env (demo_command ''/clear'') ''k'' demo_command_state) = Some ''Chat history cleared!''"
proof -
  have "EnvSave demo_command_env = Some ''disk full''" by (simp add: demo_command_env_def)
  moreover have "TrimSpace ''k'' \<noteq> []" by code_simp
  ultimately show ?thesis using clear_hides_failure [OF _ _ demo_parsed] by blast
qed

theorem command_for_other_bot_witness:
  "sm_GetHistory (CmdSessions (fst (handleCommand (Some builtin_registry) id demo_command_env (demo_command ''/clear@other'') ''k'' demo_command_state))) ''k'' = []"
proof -
  have "list_all (\<lambda>c. \<not> is_space c) ''other''" by code_simp
  from command_for_other_bot [OF this, of "demo_command ''/clear@other''"] show ?thesis by (simp add: demo_command_def)
qed

theorem switched_model_not_asked_witness:
  "turn_model (CmdAgent (fst (switch_model ''other'' demo_command_state))) demo_options [] = turn_model demo_turn_agent demo_options []"
  using switched_model_not_asked [of demo_command_state "''other''" "fst (switch_model ''other'' demo_command_state)" "''m''"]
  by (simp add: switch_model_def demo_command_state_def demo_turn_agent_def)

end
