(* ===== verification/Reload.thy ===== *)
theory Reload
  imports Dispatch Cooldown ToolRegistry
begin

text \<open>
  Reloading the agent loop: \<open>ReloadProviderAndConfig\<close> of \<open>pkg/agent/loop.go\<close>, the connections to MCP servers
  (\<open>pkg/agent/loop_mcp.go\<close>) and the refusal of messages while skills of two scopes collide (\<open>loop_skill_collision.go\<close>). What comes
  from outside (cancellation, the inventory of skills, the servers) is \<open>reload_env\<close>; a provider is its identity. Managers of
  connections are named by their agents; opening and closing them is recorded.
\<close>

section \<open>Connections to MCP servers\<close>

datatype reload_event =
  McpOpened string | McpClosed string | ToolRegistered string string bool | ProviderClosed string

record mcp_choice =
  McpOn :: bool
  DiscoveryOn :: bool
  UseBM25 :: bool
  UseRegex :: bool

text \<open>\<open>ServersOn\<close>: some server is configured and enabled. \<open>LoadMCP\<close> is the error of connecting, \<open>ServerTools\<close> the names of the tools of
  the servers of an agent.\<close>

record mcp_env =
  McpTool :: bool
  BrowserTool :: bool
  ServersOn :: bool
  ResolveMCP :: "string \<Rightarrow> string + mcp_choice"
  LoadMCP :: "string \<Rightarrow> string option"
  ServerTools :: "string \<Rightarrow> string list"
  BrowserTools :: "string \<Rightarrow> string + string list"

definition search_tools :: "mcp_choice \<Rightarrow> string \<Rightarrow> reload_event list" where
  "search_tools c a =
     (if McpOn c \<and> DiscoveryOn c then
        (if UseRegex c then [ToolRegistered a ''tool_search_tool_regex'' False] else []) @
        (if UseBM25 c then [ToolRegistered a ''tool_search_tool_bm25'' False] else [])
      else [])"

fun connect_agents :: "mcp_env \<Rightarrow> string list \<Rightarrow> string list \<Rightarrow> reload_event list \<times> (string + string list)" where
  "connect_agents env [] managers = ([], Inr managers)"
| "connect_agents env (a # as) managers =
     (case ResolveMCP env a of
        Inl err \<Rightarrow> ([], Inl err)
      | Inr c \<Rightarrow>
          (case LoadMCP env a of
             Some err \<Rightarrow> ([McpOpened a, McpClosed a], Inl err)
           | None \<Rightarrow>
               let opened = McpOpened a # map (\<lambda>t. ToolRegistered a t (DiscoveryOn c)) (ServerTools env a) in
               if McpOn c \<and> DiscoveryOn c \<and> \<not> UseBM25 c \<and> \<not> UseRegex c then
                 (opened @ [McpClosed a], Inl ''tool discovery is enabled but neither 'use_bm25' nor 'use_regex' is set to true in the configuration'')
               else
                 let (es, r) = connect_agents env as (managers @ [a]) in (opened @ search_tools c a @ es, r)))"

fun browser_agents :: "mcp_env \<Rightarrow> string list \<Rightarrow> reload_event list \<times> string option" where
  "browser_agents env [] = ([], None)"
| "browser_agents env (a # as) =
     (case BrowserTools env a of
        Inl err \<Rightarrow> ([], Some err)
      | Inr names \<Rightarrow>
          let (es, r) = browser_agents env as in (map (\<lambda>t. ToolRegistered a t False) names @ es, r))"

definition buildAndRegisterMCPManagers :: "mcp_env \<Rightarrow> string list \<Rightarrow> reload_event list \<times> (string + string list)" where
  "buildAndRegisterMCPManagers env agentIDs =
     (let (es, r) = (if McpTool env \<and> ServersOn env then connect_agents env agentIDs [] else ([], Inr []))
      in case r of
           Inl err \<Rightarrow> (es, Inl err)
         | Inr managers \<Rightarrow>
             if \<not> BrowserTool env then (es, Inr managers)
             else (let (es', failed) = browser_agents env agentIDs
                   in (es @ es', case failed of Some err \<Rightarrow> Inl err | None \<Rightarrow> Inr managers)))"

section \<open>The loop and its reload\<close>

record loop_core =
  CoreCfg :: RouteConfig
  CoreReg :: agent_registry
  CoreProvider :: string
  CoreTracker :: CooldownTracker
  CoreSchemas :: ToolSchemaCache
  CoreTopology :: "string \<rightharpoonup> nat"
  CoreCollision :: "string option"
  PreflightRejects :: nat
  ReloadRejects :: nat
  CoreMCP :: "string list"
  McpReady :: bool

text \<open>The three points where a cancellation is looked at are 0 (while the registry is created), 1 (after it) and 2 (before the new
  configuration is put in place). \<open>Inventory\<close> is the error of reading the skills, or the message of their collision.\<close>

record reload_env =
  CreationPanic :: "string option"
  CancelledAt :: "nat \<Rightarrow> bool"
  Inventory :: "string + string option"
  MCPServers :: mcp_env
  IsStateful :: "string \<Rightarrow> bool"

datatype reload_error =
  NilProvider | NilConfig | RegistryFailed string | CancelledWhileCreating | CancelledAfterCreation | InventoryFailed string
| CollisionRejected string | McpFailed string | CancelledBeforeCommit

definition close_old_provider :: "reload_env \<Rightarrow> loop_core \<Rightarrow> string \<Rightarrow> reload_event list" where
  "close_old_provider env core provider =
     (if GetDefaultAgent (CoreReg core) = None \<or> CoreProvider core = provider \<or> \<not> IsStateful env (CoreProvider core) then []
      else [ProviderClosed (CoreProvider core)])"

definition ReloadProviderAndConfig ::
  "reload_env \<Rightarrow> string option \<Rightarrow> RouteConfig option \<Rightarrow> loop_core \<Rightarrow> loop_core \<times> reload_event list \<times> reload_error option" where
  "ReloadProviderAndConfig env newProvider newCfg core =
     (case newProvider of None \<Rightarrow> (core, [], Some NilProvider) | Some provider \<Rightarrow>
     (case newCfg of None \<Rightarrow> (core, [], Some NilConfig) | Some cfg \<Rightarrow>
      if CancelledAt env 0 then (core, [], Some CancelledWhileCreating)
      else
     (case CreationPanic env of Some p \<Rightarrow> (core, [], Some (RegistryFailed p)) | None \<Rightarrow>
      if CancelledAt env 1 then (core, [], Some CancelledAfterCreation)
      else
        let reg = NewAgentRegistry cfg in
     (case Inventory env of Inl err \<Rightarrow> (core, [], Some (InventoryFailed err)) | Inr collision \<Rightarrow>
     (case collision of
        Some m \<Rightarrow> (core\<lparr>CoreCollision := Some m, ReloadRejects := Suc (ReloadRejects core)\<rparr>, [], Some (CollisionRejected m))
      | None \<Rightarrow>
     (case buildAndRegisterMCPManagers (MCPServers env) reg of
        (es, Inl err) \<Rightarrow> (core, es, Some (McpFailed err))
      | (es, Inr managers) \<Rightarrow>
          if CancelledAt env 2 then (core, es @ map McpClosed managers, Some CancelledBeforeCommit)
          else
            (core\<lparr>CoreCfg := cfg, CoreReg := reg, CoreProvider := provider, CoreTracker := NewCooldownTracker,
                  CoreCollision := None, CoreMCP := managers, McpReady := True, CoreSchemas := fst (InvalidateAll (CoreSchemas core)), CoreTopology := Map.empty\<rparr>,
             es @ map McpClosed (CoreMCP core) @ close_old_provider env core provider, None)))))))"

text \<open>The check before every message, and the first use of the servers.\<close>

definition skillCollisionRequestError :: "loop_core \<Rightarrow> loop_core \<times> string option" where
  "skillCollisionRequestError core =
     (case CoreCollision core of
        None \<Rightarrow> (core, None)
      | Some m \<Rightarrow> (core\<lparr>PreflightRejects := Suc (PreflightRejects core)\<rparr>, Some m))"

definition RefreshSkillCollisionState :: "string + string option \<Rightarrow> loop_core \<Rightarrow> loop_core \<times> string option" where
  "RefreshSkillCollisionState inventory core =
     (case inventory of Inl err \<Rightarrow> (core, Some err) | Inr collision \<Rightarrow> (core\<lparr>CoreCollision := collision\<rparr>, None))"

definition ensureMCPInitialized :: "mcp_env \<Rightarrow> loop_core \<Rightarrow> loop_core \<times> reload_event list \<times> string option" where
  "ensureMCPInitialized env core =
     (if CoreCollision core \<noteq> None \<or> \<not> McpTool env \<and> \<not> BrowserTool env \<or> McpReady core then (core, [], None)
      else
        case buildAndRegisterMCPManagers env (CoreReg core) of
          (es, Inl err) \<Rightarrow> (core, es, Some err)
        | (es, Inr managers) \<Rightarrow> (core\<lparr>CoreMCP := managers, McpReady := True\<rparr>, es, None))"

section \<open>Connections\<close>

definition still_open :: "reload_event list \<Rightarrow> string \<Rightarrow> int" where
  "still_open es a = int (count_list es (McpOpened a)) - int (count_list es (McpClosed a))"

lemma still_open_simps [simp]:
  "still_open [] a = 0" "still_open (McpOpened b # es) a = (if b = a then 1 else 0) + still_open es a"
  "still_open (McpClosed b # es) a = still_open es a - (if b = a then 1 else 0)"
  "still_open (ToolRegistered b t h # es) a = still_open es a" "still_open (ProviderClosed p # es) a = still_open es a"
  "still_open (xs @ ys) a = still_open xs a + still_open ys a"
  by (simp_all add: still_open_def)

lemma still_open_registered [simp]: "still_open (map (\<lambda>t. ToolRegistered b t h) ts) a = 0"
  by (induction ts) simp_all

lemma still_open_closed [simp]: "still_open (map McpClosed ms) a = - int (count_list ms a)"
  by (induction ms) simp_all

lemma still_open_search [simp]: "still_open (search_tools c b) a = 0"
  by (simp add: search_tools_def)

lemma connect_open:
  "connect_agents env as managers = (es, Inr ms) \<Longrightarrow> ms = managers @ as \<and> still_open es a = int (count_list as a)"
proof (induction as arbitrary: managers es)
  case (Cons b as)
  then obtain es' where "connect_agents env as (managers @ [b]) = (es', Inr ms)"
    and "still_open es a = (if b = a then 1 else 0) + still_open es' a"
    by (auto simp: Let_def split: sum.splits option.splits if_splits prod.splits)
  with Cons.IH [of "managers @ [b]" es'] show ?case by auto
qed simp

lemma browser_open: "browser_agents env as = (es, r) \<Longrightarrow> still_open es a = 0"
  by (induction as arbitrary: es r) (auto split: sum.splits prod.splits)

lemma build_open:
  assumes "buildAndRegisterMCPManagers env as = (es, Inr ms)"
  shows "still_open es a = int (count_list ms a)"
  using assms connect_open [of env as "[]" _ ms a] browser_open [of env as _ _ a]
  by (auto simp: buildAndRegisterMCPManagers_def Let_def split: if_splits prod.splits sum.splits option.splits)

lemma connect_failed: "connect_agents env as managers = (es, Inl err) \<Longrightarrow> 0 \<le> still_open es a \<and> (\<forall>p. ProviderClosed p \<notin> set es)"
proof (induction as arbitrary: managers es)
  case (Cons b as)
  show ?case
  proof (cases "\<exists>es'. connect_agents env as (managers @ [b]) = (es', Inl err) \<and> (\<forall>x. still_open es x = (if b = x then 1 else 0) + still_open es' x) \<and>
      (\<forall>p. ProviderClosed p \<in> set es \<longrightarrow> ProviderClosed p \<in> set es')")
    case True
    with Cons.IH show ?thesis by fastforce
  next
    case False
    with Cons.prems show ?thesis by (auto simp: Let_def search_tools_def split: sum.splits option.splits if_splits prod.splits)
  qed
qed simp

lemma connect_no_close: "connect_agents env as managers = (es, r) \<Longrightarrow> ProviderClosed p \<notin> set es"
  by (induction as arbitrary: managers es r) (auto simp: Let_def search_tools_def split: sum.splits option.splits if_splits prod.splits)

lemma browser_no_close: "browser_agents env as = (es, r) \<Longrightarrow> ProviderClosed p \<notin> set es"
  by (induction as arbitrary: es r) (auto split: sum.splits prod.splits)

lemma build_failed:
  assumes "buildAndRegisterMCPManagers env as = (es, r)"
  shows "0 \<le> still_open es a" and "ProviderClosed p \<notin> set es"
proof -
  obtain es1 r1 where c: "(if McpTool env \<and> ServersOn env then connect_agents env as [] else ([], Inr [])) = (es1, r1)" by fastforce
  have "0 \<le> still_open es1 a" using c connect_open [of env as "[]" es1 _ a] connect_failed [of env as "[]" es1 _ a]
    by (cases r1) (auto split: if_splits)
  moreover have "ProviderClosed p \<notin> set es1" using c connect_no_close [of env as "[]" es1 r1 p] by (auto split: if_splits)
  ultimately show "0 \<le> still_open es a" "ProviderClosed p \<notin> set es"
    using assms c browser_open [of env as _ _ a] browser_no_close [of env as _ _ p]
    by (auto simp: buildAndRegisterMCPManagers_def split: sum.splits if_splits prod.splits option.splits)
qed

lemma build_managers:
  "buildAndRegisterMCPManagers env as = (es, Inr ms) \<Longrightarrow> ms = (if McpTool env \<and> ServersOn env then as else [])"
  using connect_open [of env as "[]" _ ms]
  by (auto simp: buildAndRegisterMCPManagers_def split: if_splits prod.splits sum.splits option.splits)

text \<open>C26. A reload replaces everything or, but for the error of a collision, nothing. When it succeeds, the configuration and the provider
  are the given ones, the agents are those of the configuration, there is no cooldown, no cached schema and no collision, the
  managers are those of the new agents, and exactly their connections are open: with the ones that were open before, what was
  opened less what was closed. When it fails, the whole state of the loop is as before, no connection that was open before is closed
  and the provider is not; only a reload that is refused because skills collide also sets the collision error of the loop and counts
  the refusal (after which messages are refused under the old configuration).\<close>

theorem reload_all_or_nothing:
  assumes "ReloadProviderAndConfig env newProvider newCfg core = (core', es, failed)"
  shows "case failed of
      Some err \<Rightarrow> core' = (case err of CollisionRejected m \<Rightarrow> core\<lparr>CoreCollision := Some m, ReloadRejects := Suc (ReloadRejects core)\<rparr> | _ \<Rightarrow> core) \<and>
        (\<forall>a. 0 \<le> still_open es a) \<and> (\<forall>p. ProviderClosed p \<notin> set es)
    | None \<Rightarrow> newProvider = Some (CoreProvider core') \<and> newCfg = Some (CoreCfg core') \<and> CoreReg core' = NewAgentRegistry (CoreCfg core') \<and>
        CoreTracker core' = NewCooldownTracker \<and> CoreSchemas core' = [] \<and> CoreTopology core' = Map.empty \<and> CoreCollision core' = None \<and>
        McpReady core' \<and> CoreMCP core' = (if McpTool (MCPServers env) \<and> ServersOn (MCPServers env) then CoreReg core' else []) \<and>
        (\<forall>a. int (count_list (CoreMCP core) a) + still_open es a = int (count_list (CoreMCP core') a))"
proof (cases failed)
  case None
  have opened: "int (count_list (CoreMCP core) a) + still_open es a = int (count_list (CoreMCP core') a)" for a
    using assms None build_open [of "MCPServers env" _ _ _ a] unfolding ReloadProviderAndConfig_def Let_def
    by (auto simp: close_old_provider_def split: option.splits if_splits sum.splits prod.splits)
  have "newProvider = Some (CoreProvider core') \<and> newCfg = Some (CoreCfg core') \<and> CoreReg core' = NewAgentRegistry (CoreCfg core') \<and>
        CoreTracker core' = NewCooldownTracker \<and> CoreSchemas core' = [] \<and> CoreTopology core' = Map.empty \<and> CoreCollision core' = None \<and>
        McpReady core' \<and> CoreMCP core' = (if McpTool (MCPServers env) \<and> ServersOn (MCPServers env) then CoreReg core' else [])"
    using assms None build_managers [of "MCPServers env"] unfolding ReloadProviderAndConfig_def Let_def
    by (auto simp: InvalidateAll_def invalidateIf_def split: option.splits if_splits sum.splits prod.splits)
  with opened None show ?thesis by simp
next
  case (Some err)
  have "0 \<le> still_open es a" "ProviderClosed p \<notin> set es" for a p
    using assms Some build_failed(1) [of "MCPServers env" _ _ _ a] build_failed(2) [of "MCPServers env" _ _ _ p] build_open [of "MCPServers env" _ _ _ a] unfolding ReloadProviderAndConfig_def Let_def
    by (auto split: option.splits if_splits sum.splits prod.splits)
  moreover have "core' = (case err of CollisionRejected m \<Rightarrow> core\<lparr>CoreCollision := Some m, ReloadRejects := Suc (ReloadRejects core)\<rparr> | _ \<Rightarrow> core)"
    using assms Some unfolding ReloadProviderAndConfig_def Let_def
    by (auto split: option.splits if_splits sum.splits prod.splits)
  ultimately show ?thesis using Some by simp
qed

text \<open>A reload that succeeds opens and closes connections so that exactly those of the new configuration are open; one that is cancelled
  at the last moment closes what it opened.\<close>

theorem reload_connections:
  assumes "ReloadProviderAndConfig env newProvider newCfg core = (core', es, failed)"
    and "failed = None \<or> failed = Some CancelledBeforeCommit"
  shows "int (count_list (CoreMCP core) a) + still_open es a = int (count_list (CoreMCP core') a)"
  using assms build_open [of "MCPServers env" _ _ _ a]
  unfolding ReloadProviderAndConfig_def Let_def
  by (auto simp: close_old_provider_def split: option.splits if_splits sum.splits prod.splits)

text \<open>Connections leak: when the servers of the second agent cannot be reached, the reload fails and the connection of the first agent,
  which the reload opened, stays open although nothing refers to it.\<close>

theorem failed_reload_leaks:
  assumes "NewAgentRegistry cfg = a # b # rest" and "a \<noteq> b"
    and "McpTool (MCPServers env)" and "ServersOn (MCPServers env)"
    and "ResolveMCP (MCPServers env) a = Inr c" and "LoadMCP (MCPServers env) a = None" and "DiscoveryOn c \<longrightarrow> UseBM25 c \<or> UseRegex c"
    and "ResolveMCP (MCPServers env) b = Inr c'" and "LoadMCP (MCPServers env) b = Some err"
    and "CreationPanic env = None" and "\<not> CancelledAt env 0" and "\<not> CancelledAt env 1" and "Inventory env = Inr None"
  shows "\<exists>es. ReloadProviderAndConfig env (Some provider) (Some cfg) core = (core, es, Some (McpFailed err)) \<and> still_open es a = 1"
  using assms by (simp add: ReloadProviderAndConfig_def buildAndRegisterMCPManagers_def Let_def)

section \<open>Collisions\<close>

primrec reloads :: "(reload_env \<times> string option \<times> RouteConfig option) list \<Rightarrow> loop_core \<Rightarrow> loop_core \<times> reload_error option list" where
  "reloads [] core = (core, [])"
| "reloads (r # rs) core =
     (let (core', es, failed) = ReloadProviderAndConfig (fst r) (fst (snd r)) (snd (snd r)) core; (core'', outcomes) = reloads rs core'
      in (core'', failed # outcomes))"

lemma failed_keeps_collision:
  "ReloadProviderAndConfig env newProvider newCfg core = (core', es, Some err) \<Longrightarrow> CoreCollision core \<noteq> None \<Longrightarrow> CoreCollision core' \<noteq> None"
  unfolding ReloadProviderAndConfig_def Let_def
  by (auto split: option.splits if_splits sum.splits prod.splits)

lemma failed_keeps_config:
  "ReloadProviderAndConfig env newProvider newCfg core = (core', es, Some err) \<Longrightarrow> CoreCfg core' = CoreCfg core \<and> CoreReg core' = CoreReg core"
  unfolding ReloadProviderAndConfig_def Let_def
  by (auto split: option.splits if_splits sum.splits prod.splits)

lemma reloads_block:
  "CoreCollision core \<noteq> None \<Longrightarrow> list_all (\<lambda>r. r \<noteq> None) (snd (reloads rs core)) \<Longrightarrow>
   CoreCollision (fst (reloads rs core)) \<noteq> None \<and> CoreCfg (fst (reloads rs core)) = CoreCfg core"
proof (induction rs arbitrary: core)
  case (Cons r rs)
  obtain core' es failed where step: "ReloadProviderAndConfig (fst r) (fst (snd r)) (snd (snd r)) core = (core', es, failed)"
    by (metis prod_cases3)
  with Cons.prems(2) obtain err where "failed = Some err" by (auto split: prod.splits)
  with step have step: "ReloadProviderAndConfig (fst r) (fst (snd r)) (snd (snd r)) core = (core', es, Some err)" by simp
  from Cons.prems(2) step have "list_all (\<lambda>r. r \<noteq> None) (snd (reloads rs core'))" by (auto split: prod.splits)
  with Cons.IH [of core'] failed_keeps_collision [OF step Cons.prems(1)] failed_keeps_config [OF step] step show ?case
    by (auto split: prod.splits)
qed simp

text \<open>A reload that is refused because the skills of the new configuration collide blocks the old one: the loop keeps its configuration, but
  refuses every message, and goes on doing so through any number of further reloads that fail.\<close>

theorem refused_reload_blocks:
  assumes "ReloadProviderAndConfig env newProvider newCfg core = (core1, es, Some (CollisionRejected m))"
    and "list_all (\<lambda>r. r \<noteq> None) (snd (reloads rs core1))" and "core2 = fst (reloads rs core1)"
  shows "CoreCfg core2 = CoreCfg core \<and> snd (skillCollisionRequestError core2) \<noteq> None"
proof -
  from assms(1) have "CoreCollision core1 \<noteq> None"
    unfolding ReloadProviderAndConfig_def Let_def by (auto split: option.splits if_splits sum.splits prod.splits)
  from reloads_block [OF this assms(2)] failed_keeps_config [OF assms(1)] assms(3) show ?thesis
    by (auto simp: skillCollisionRequestError_def)
qed

section \<open>Examples\<close>

definition demo_mcp :: mcp_env where
  "demo_mcp =
     \<lparr>McpTool = True, BrowserTool = False, ServersOn = True,
      ResolveMCP = (\<lambda>_. Inr \<lparr>McpOn = True, DiscoveryOn = False, UseBM25 = False, UseRegex = False\<rparr>),
      LoadMCP = (\<lambda>a. if a = ''work'' then Some ''refused'' else None), ServerTools = (\<lambda>_. [''mcp_files_read'']), BrowserTools = (\<lambda>_. Inr [])\<rparr>"

definition demo_reload :: "string + string option \<Rightarrow> reload_env" where
  "demo_reload found = \<lparr>CreationPanic = None, CancelledAt = (\<lambda>_. False), Inventory = found, MCPServers = demo_mcp, IsStateful = (\<lambda>_. True)\<rparr>"

definition demo_route_config :: "string list \<Rightarrow> RouteConfig" where
  "demo_route_config ids = \<lparr>Agents = map (\<lambda>i. \<lparr>ConfID = i, Default = False\<rparr>) ids, Bindings = [], ConfDMScope = [], ConfIdentityLinks = []\<rparr>"

definition demo_core :: loop_core where
  "demo_core =
     \<lparr>CoreCfg = demo_route_config [''main''], CoreReg = [''main''], CoreProvider = ''p1'', CoreTracker = NewCooldownTracker, CoreSchemas = [],
      CoreTopology = Map.empty, CoreCollision = None, PreflightRejects = 0, ReloadRejects = 0, CoreMCP = [''main''], McpReady = True\<rparr>"

lemma demo_registry: "NewAgentRegistry (demo_route_config [''main'']) = [''main'']" "NewAgentRegistry (demo_route_config [''main'', ''work'']) = [''main'', ''work'']"
  by code_simp+

lemma demo_reloaded:
  "\<exists>core'. ReloadProviderAndConfig (demo_reload (Inr None)) (Some ''p2'') (Some (demo_route_config [''main''])) demo_core =
     (core', [McpOpened ''main'', ToolRegistered ''main'' ''mcp_files_read'' False, McpClosed ''main'', ProviderClosed ''p1''], None) \<and>
     CoreMCP core' = [''main''] \<and> CoreProvider core' = ''p2''"
  unfolding ReloadProviderAndConfig_def
  by (simp add: demo_registry Let_def demo_reload_def demo_mcp_def buildAndRegisterMCPManagers_def search_tools_def close_old_provider_def demo_core_def
    GetDefaultAgent_def)

theorem reload_all_or_nothing_witness:
  "\<exists>core' es. ReloadProviderAndConfig (demo_reload (Inr None)) (Some ''p2'') (Some (demo_route_config [''main''])) demo_core = (core', es, None) \<and>
     CoreTracker core' = NewCooldownTracker \<and> CoreCollision core' = None"
proof -
  from demo_reloaded obtain core' es where
    r: "ReloadProviderAndConfig (demo_reload (Inr None)) (Some ''p2'') (Some (demo_route_config [''main''])) demo_core = (core', es, None)" by blast
  from reload_all_or_nothing [OF r] r show ?thesis by auto
qed

theorem reload_connections_witness:
  "\<exists>core' es. ReloadProviderAndConfig (demo_reload (Inr None)) (Some ''p2'') (Some (demo_route_config [''main''])) demo_core = (core', es, None) \<and>
     1 + still_open es ''main'' = int (count_list (CoreMCP core') ''main'')"
proof -
  from demo_reloaded obtain core' es where
    r: "ReloadProviderAndConfig (demo_reload (Inr None)) (Some ''p2'') (Some (demo_route_config [''main''])) demo_core = (core', es, None)" by blast
  from reload_connections [OF r, of "''main''"] r show ?thesis by (auto simp: demo_core_def)
qed

theorem failed_reload_leaks_witness:
  "\<exists>es. ReloadProviderAndConfig (demo_reload (Inr None)) (Some ''p2'') (Some (demo_route_config [''main'', ''work''])) demo_core =
     (demo_core, es, Some (McpFailed ''refused'')) \<and> still_open es ''main'' = 1"
  by (rule failed_reload_leaks [OF demo_registry(2), where c = "\<lparr>McpOn = True, DiscoveryOn = False, UseBM25 = False, UseRegex = False\<rparr>"])
     (simp_all add: demo_reload_def demo_mcp_def)

theorem refused_reload_blocks_witness:
  "\<exists>core1 es. ReloadProviderAndConfig (demo_reload (Inr (Some ''collision''))) (Some ''p2'') (Some (demo_route_config [''main''])) demo_core =
     (core1, es, Some (CollisionRejected ''collision'')) \<and> CoreCfg core1 = CoreCfg demo_core \<and> snd (skillCollisionRequestError core1) \<noteq> None"
proof -
  have "\<exists>core1 es. ReloadProviderAndConfig (demo_reload (Inr (Some ''collision''))) (Some ''p2'') (Some (demo_route_config [''main''])) demo_core =
     (core1, es, Some (CollisionRejected ''collision''))"
    by (simp add: ReloadProviderAndConfig_def Let_def demo_reload_def)
  then obtain core1 es where r: "ReloadProviderAndConfig (demo_reload (Inr (Some ''collision''))) (Some ''p2'') (Some (demo_route_config [''main''])) demo_core =
     (core1, es, Some (CollisionRejected ''collision''))" by blast
  from refused_reload_blocks [OF r, of "[]" core1] r show ?thesis by auto
qed

end
