(* ===== verification/Inbound.thy ===== *)
theory Inbound
  imports Commands Reload Subagents
begin

text \<open>
  The way of a message through the agent loop (\<open>pkg/agent/loop.go\<close>): transcription of voice messages, the choice of the agent and
  its run lock (theory Dispatch), chat commands (theory Commands), the turn, and what is published in the end
  (\<open>handleInboundMessage\<close>); the other entrances of the loop (direct calls, heartbeats, webhooks); and the tool \<open>message\<close>
  (\<open>pkg/tools/message.go\<close>), whose use makes the final answer superfluous. The turn is an argument, which also lists what it
  publishes while it runs; a state of the loop gives every agent its \<open>command_state\<close>.
\<close>

section \<open>Messages\<close>

record chat_message = inbound_message +
  MsgContent :: string
  MsgMedia :: "string list"
  MsgMessageID :: string

datatype process_error = TypedError string string string string | PlainError string

text \<open>The last two fields of a typed error are the agent and how it was chosen. A published message is a text or an error, media files
  or an activity event (three channels of the bus).\<close>

record published =
  PubChannel :: string
  PubChatID :: string
  PubContent :: string
  PubErrorCode :: string
  PubErrorMessage :: string
  PubModel :: string
  PubAgent :: string
  PubMatchedBy :: string
  PubMedia :: "string list"
  PubActivity :: string

definition text_to :: "string \<Rightarrow> string \<Rightarrow> string \<Rightarrow> published" where
  "text_to channel chatID content =
     \<lparr>PubChannel = channel, PubChatID = chatID, PubContent = content, PubErrorCode = [], PubErrorMessage = [], PubModel = [], PubAgent = [],
      PubMatchedBy = [], PubMedia = [], PubActivity = []\<rparr>"

section \<open>Voice messages\<close>

definition IsAudioFile :: "string \<Rightarrow> string \<Rightarrow> bool" where
  "IsAudioFile filename contentType \<longleftrightarrow>
     list_ex (\<lambda>ext. HasSuffix (ToLower filename) ext) [''.mp3'', ''.wav'', ''.ogg'', ''.m4a'', ''.flac'', ''.aac'', ''.wma''] \<or>
     list_ex (\<lambda>t. HasPrefix (ToLower contentType) t) [''audio/'', ''application/ogg'', ''application/x-ogg'']"

text \<open>The length of an annotation \<open>[voice]\<close>, \<open>[audio]\<close> or \<open>[voice: ...]\<close> at the front of a text.\<close>

definition annotation_length :: "string \<Rightarrow> nat option" where
  "annotation_length s =
     (if HasPrefix s ''[voice'' \<or> HasPrefix s ''[audio'' then
        (case drop 6 s of
           [] \<Rightarrow> None
         | c # cs \<Rightarrow>
             if c = CHR '']'' then Some 7
             else if c = colon \<and> CHR '']'' \<in> set cs then Some (8 + length (takeWhile (\<lambda>d. d \<noteq> CHR '']'') cs))
             else None)
      else None)"

definition transcript :: "string \<Rightarrow> string" where
  "transcript t = ''[voice: '' @ t @ '']''"

lemma annotation_bounds: "annotation_length s = Some n \<Longrightarrow> 0 < n"
  by (auto simp: annotation_length_def split: if_splits list.splits)

text \<open>Annotations are replaced from left to right as long as there are texts; what is left of the texts is returned.\<close>

function replace_annotations :: "string list \<Rightarrow> string \<Rightarrow> string \<times> string list" where
  "replace_annotations ts [] = ([], ts)"
| "replace_annotations ts (c # cs) =
     (case annotation_length (c # cs) of
        None \<Rightarrow> (let (s, rest) = replace_annotations ts cs in (c # s, rest))
      | Some n \<Rightarrow>
          (case ts of
             [] \<Rightarrow> (let (s, rest) = replace_annotations [] (drop n (c # cs)) in (take n (c # cs) @ s, rest))
           | t # ts' \<Rightarrow> (let (s, rest) = replace_annotations ts' (drop n (c # cs)) in (transcript t @ s, rest))))"
  by pat_completeness auto
termination
  by (relation "measure (\<lambda>(ts, s). length s)") (auto dest: annotation_bounds)

text \<open>\<open>resolve\<close> gives the path, the name and the type of a reference; \<open>speech\<close> the text of a file, or \<open>None\<close> for an error.\<close>

record voice_env =
  VoiceReady :: bool
  VoiceResolve :: "string \<Rightarrow> (string \<times> string \<times> string) option"
  VoiceSpeech :: "string \<Rightarrow> string option"
  VoiceEcho :: bool
  HasChannels :: bool

definition transcriptions :: "voice_env \<Rightarrow> string list \<Rightarrow> string list" where
  "transcriptions env refs =
     List.map_filter (\<lambda>r.
       case VoiceResolve env r of
         None \<Rightarrow> None
       | Some (path, filename, contentType) \<Rightarrow>
           if \<not> IsAudioFile filename contentType then None
           else Some (case VoiceSpeech env path of Some t \<Rightarrow> t | None \<Rightarrow> [])) refs"

definition sendTranscriptionFeedback :: "voice_env \<Rightarrow> chat_message \<Rightarrow> string list \<Rightarrow> published list" where
  "sendTranscriptionFeedback env msg texts =
     (if \<not> VoiceEcho env \<or> \<not> HasChannels env then []
      else
        let nonEmpty = filter (\<lambda>t. t \<noteq> []) texts in
        [text_to (MsgChannel msg) (MsgChatID msg)
           (if nonEmpty = [] then ''No voice detected in the audio'' else ''Transcript: '' @ Join [lf] nonEmpty)])"

text \<open>The message, what is sent at once, and whether there was audio.\<close>

definition transcribeAudioInMessage :: "voice_env \<Rightarrow> chat_message \<Rightarrow> chat_message \<times> published list \<times> bool" where
  "transcribeAudioInMessage env msg =
     (let texts = (if VoiceReady env then transcriptions env (MsgMedia msg) else []) in
      if texts = [] then (msg, [], False)
      else
        let (content, rest) = replace_annotations texts (MsgContent msg) in
        (msg\<lparr>MsgContent := content @ concat (map (\<lambda>t. lf # transcript t) rest)\<rparr>, sendTranscriptionFeedback env msg texts, True))"

section \<open>The tool \<open>message\<close>\<close>

record message_call =
  CallContent :: "string option"
  CallChannel :: string
  CallChatID :: string

text \<open>One call of the tool in a turn of a chat: the mark that a message was sent, and the message. The call-back that registers the tool
  publishes on the bus and \<open>fails\<close> when that does.\<close>

definition message_Execute :: "bool \<Rightarrow> string \<Rightarrow> string \<Rightarrow> message_call \<Rightarrow> bool \<Rightarrow> bool \<times> published list" where
  "message_Execute fails ctxChannel ctxChatID c sent =
     (case CallContent c of
        None \<Rightarrow> (sent, [])
      | Some content \<Rightarrow>
          let channel = (if CallChannel c = [] then ctxChannel else CallChannel c);
              chatID = (if CallChatID c = [] then ctxChatID else CallChatID c)
          in if channel = [] \<or> chatID = [] \<or> fails then (sent, []) else (True, [text_to channel chatID content]))"

text \<open>What a turn publishes while it runs: messages of the tool, results of tools and notices for the user, media files of tools, and,
  on the channel \<open>supr\<close> only, activity events (among them the final answer).\<close>

datatype turn_output = ToolMessage message_call | ResultToChat string | MediaToChat "string list" | ActivityToChat string

definition publish_output :: "bool \<Rightarrow> string \<Rightarrow> string \<Rightarrow> turn_output \<Rightarrow> bool \<Rightarrow> bool \<times> published list" where
  "publish_output fails ch i out sent =
     (case out of
        ToolMessage c \<Rightarrow> message_Execute fails ch i c sent
      | ResultToChat t \<Rightarrow> (sent, if fails then [] else [text_to ch i t])
      | MediaToChat refs \<Rightarrow> (sent, if fails then [] else [(text_to ch i [])\<lparr>PubMedia := refs\<rparr>])
      | ActivityToChat e \<Rightarrow>
          (sent, if fails \<or> ch \<noteq> ''supr'' \<or> TrimSpace i = [] then [] else [(text_to ch i [])\<lparr>PubActivity := e\<rparr>]))"

primrec turn_outputs :: "bool \<Rightarrow> string \<Rightarrow> string \<Rightarrow> turn_output list \<Rightarrow> bool \<Rightarrow> bool \<times> published list" where
  "turn_outputs fails ch i [] sent = (sent, [])"
| "turn_outputs fails ch i (c # cs) sent =
     (let (sent1, ps) = publish_output fails ch i c sent; (sent2, qs) = turn_outputs fails ch i cs sent1 in (sent2, ps @ qs))"

section \<open>Processing a message\<close>

record inbound_state =
  RunLocks :: "string set"
  AgentStates :: "string \<Rightarrow> command_state"
  LoopCore :: loop_core

type_synonym turn_fn = "string \<Rightarrow> processOptions \<Rightarrow> command_state \<Rightarrow> command_state \<times> turn_output list \<times> (process_error + string \<times> string)"

record inbound_env =
  InVoice :: voice_env
  InCommands :: "string \<Rightarrow> command_env"
  InQuote :: "string \<Rightarrow> string"
  InTurn :: turn_fn
  InBusFails :: bool
  InMCP :: mcp_env

definition default_response :: string where
  "default_response = ''I've completed processing but have no response to give. Increase `max_tool_iterations` in config.json.''"

fun matched_name :: "MatchedBy \<Rightarrow> string" where
  "matched_name BindingPeer = ''binding.peer''"
| "matched_name BindingPeerParent = ''binding.peer.parent''"
| "matched_name BindingGuild = ''binding.guild''"
| "matched_name BindingTeam = ''binding.team''"
| "matched_name BindingAccount = ''binding.account''"
| "matched_name BindingChannel = ''binding.channel''"
| "matched_name DefaultRoute = ''default''"

definition route_meta :: "RouteConfig \<Rightarrow> inbound_message \<Rightarrow> message_route \<Rightarrow> string \<times> string" where
  "route_meta rcfg msg r =
     (MsgRouteAgentID r, if Explicit r then ''explicit'' else matched_name (RouteMatchedBy (ResolveRoute rcfg (route_input msg))))"

text \<open>The texts of the errors of admission.\<close>

definition admission_error :: "(string \<Rightarrow> string) \<Rightarrow> RouteConfig \<Rightarrow> inbound_message \<Rightarrow> (string \<times> string) option \<Rightarrow> request_error \<Rightarrow> process_error" where
  "admission_error quote rcfg msg meta e =
     (case e of
        AgentNotFound i \<Rightarrow> TypedError ''AGENT_NOT_FOUND'' (''requested agent_id '' @ quote i @ '' was not found'') i ''explicit''
      | NoAgentAvailable \<Rightarrow>
          PlainError (''no agent available for route (agent_id='' @ RouteAgentID (ResolveRoute rcfg (route_input msg)) @ '')'')
      | InvalidSessionKey raw \<Rightarrow>
          TypedError ''INVALID_SESSION_KEY'' (''session_key '' @ quote raw @ '' is reserved for internal heartbeat runs'') [] []
      | RunInProgress i \<Rightarrow>
          TypedError ''RUN_IN_PROGRESS'' (''agent '' @ quote i @ '' already has an active run'') i (case meta of Some (_, b) \<Rightarrow> b | None \<Rightarrow> []))"

definition message_meta :: "RouteConfig \<Rightarrow> agent_registry \<Rightarrow> inbound_message \<Rightarrow> (string \<times> string) option" where
  "message_meta rcfg reg msg =
     (case resolveMessageRoute rcfg reg msg of Inl _ \<Rightarrow> None | Inr (r, _) \<Rightarrow> Some (route_meta rcfg msg r))"

definition message_options :: "chat_message \<Rightarrow> string \<Rightarrow> processOptions" where
  "message_options msg key =
     \<lparr>OptSessionKey = key, OptChannel = MsgChannel msg, OptUserMessage = MsgContent msg, OptMedia = MsgMedia msg,
      OptDefaultResponse = default_response, OptSendResponse = True, OptMaxTokens = 0,
      OptModelOverride = inboundMetadata (inbound_message.truncate msg) ''model_override'', OptTrackRunControl = True, OptEnableSummary = True\<rparr>"

definition system_options :: "system_turn \<Rightarrow> processOptions" where
  "system_options t =
     \<lparr>OptSessionKey = SysSessionKey t, OptChannel = SysChannel t, OptUserMessage = SysMessage t, OptMedia = [],
      OptDefaultResponse = ''Background task completed.'', OptSendResponse = True, OptMaxTokens = 0, OptModelOverride = [],
      OptTrackRunControl = True, OptEnableSummary = False\<rparr>"

definition run_turn ::
  "inbound_env \<Rightarrow> string \<Rightarrow> processOptions \<Rightarrow> inbound_state \<Rightarrow> inbound_state \<times> turn_output list \<times> (process_error + string \<times> string)" where
  "run_turn env agent opts st =
     (let (s, calls, r) = InTurn env agent opts (AgentStates st agent)
      in (st\<lparr>AgentStates := (AgentStates st)(agent := s)\<rparr>, calls, r))"

text \<open>The route of the reply, what the turn publishes and the chat that it runs for, and the answer with the model.\<close>

record processed =
  ProcMeta :: "(string \<times> string) option"
  ProcCalls :: "turn_output list"
  ProcChat :: "string \<times> string"
  ProcResult :: "process_error + string \<times> string"

definition processMessageDetailed :: "inbound_env \<Rightarrow> chat_message \<Rightarrow> inbound_state \<Rightarrow> inbound_state \<times> published list \<times> processed" where
  "processMessageDetailed env msg0 st =
     (let (msg, feedback, hadAudio) = transcribeAudioInMessage (InVoice env) msg0;
          core = LoopCore st; rcfg = CoreCfg core; reg = CoreReg core; m = inbound_message.truncate msg;
          done = (\<lambda>meta calls chat r. \<lparr>ProcMeta = meta, ProcCalls = calls, ProcChat = chat, ProcResult = r\<rparr>)
      in
      if MsgChannel msg = ''system'' then
        (case processSystemMessage reg (MsgChannel msg) (MsgSenderID msg) (MsgChatID msg) (MsgContent msg) of
           Inl err \<Rightarrow> (st, feedback, done None [] ([], []) (Inl (PlainError err)))
         | Inr None \<Rightarrow> (st, feedback, done None [] ([], []) (Inr ([], [])))
         | Inr (Some t) \<Rightarrow>
             (case GetDefaultAgent reg of
                None \<Rightarrow> (st, feedback, done None [] ([], []) (Inl (PlainError ''no default agent for system message'')))
              | Some agent \<Rightarrow>
                  (let (st', calls, r) = run_turn env agent (system_options t) st
                   in (st', feedback, done None calls (SysChannel t, SysChatID t)
                        (case r of Inl e \<Rightarrow> Inl e | Inr (content, _) \<Rightarrow> Inr (content, []))))))
      else
        let meta = message_meta rcfg reg m in
        (case admit rcfg reg (RunLocks st) m of
           Inl e \<Rightarrow> (st, feedback, done meta [] ([], []) (Inl (admission_error (InQuote env) rcfg m meta e)))
         | Inr (r, held) \<Rightarrow>
             let locked = st\<lparr>RunLocks := held\<rparr>; agent = RunAgent r;
                 unlock = (\<lambda>s. s\<lparr>RunLocks := RunLocks s - {RunLock r}\<rparr>);
                 req = \<lparr>CmdChannel = MsgChannel msg, CmdChatID = MsgChatID msg, CmdSenderID = MsgSenderID msg, CmdText = MsgContent msg\<rparr>
             in
             (case handleCommand (Some builtin_registry) (InQuote env) (InCommands env agent) req (RunSession r) (AgentStates locked agent) of
                (s, Some response) \<Rightarrow>
                  (unlock (locked\<lparr>AgentStates := (AgentStates locked)(agent := s)\<rparr>), feedback,
                   done meta [] (MsgChannel msg, MsgChatID msg) (Inr (response, [])))
              | (s, None) \<Rightarrow>
                  (let (st', calls, res) = run_turn env agent (message_options msg (RunSession r)) locked
                   in (unlock st', feedback, done meta calls (MsgChannel msg, MsgChatID msg) res)))))"

text \<open>What is published for a message: the feedback, what the turn published and at most one answer or error.\<close>

definition answer_of :: "chat_message \<Rightarrow> (string \<times> string) option \<Rightarrow> bool \<Rightarrow> process_error + string \<times> string \<Rightarrow> published list" where
  "answer_of msg meta sent result =
     (let to = text_to (MsgChannel msg) (MsgChatID msg); metaAgent = (case meta of Some (a, _) \<Rightarrow> a | None \<Rightarrow> []);
          metaBy = (case meta of Some (_, b) \<Rightarrow> b | None \<Rightarrow> [])
      in case result of
           Inl (TypedError code m agent by) \<Rightarrow>
             [(to [])\<lparr>PubErrorCode := code, PubErrorMessage := m, PubAgent := (if agent = [] then metaAgent else agent),
                PubMatchedBy := (if by = [] then metaBy else by)\<rparr>]
         | _ \<Rightarrow>
             let (response, model) = (case result of Inl (PlainError e) \<Rightarrow> (''Error processing message: '' @ e, []) | Inr p \<Rightarrow> p | _ \<Rightarrow> ([], []))
             in if response = [] \<or> sent \<or> MsgChannel msg = ''supr'' then []
                else [(to response)\<lparr>PubModel := model, PubAgent := metaAgent, PubMatchedBy := metaBy\<rparr>])"

definition handleInboundMessage :: "inbound_env \<Rightarrow> chat_message \<Rightarrow> inbound_state \<Rightarrow> inbound_state \<times> published list" where
  "handleInboundMessage env msg st =
     (case skillCollisionRequestError (LoopCore st) of
        (core, Some m) \<Rightarrow>
          (st\<lparr>LoopCore := core\<rparr>,
           [(text_to (MsgChannel msg) (MsgChatID msg) [])\<lparr>PubErrorCode := ''SKILL_SCOPE_COLLISION'', PubErrorMessage := m\<rparr>])
      | (core, None) \<Rightarrow>
          (case processMessageDetailed env msg st of
             (st', feedback, p) \<Rightarrow>
               (case turn_outputs (InBusFails env) (fst (ProcChat p)) (snd (ProcChat p)) (ProcCalls p) False of
                  (sent, ps) \<Rightarrow> (st', feedback @ ps @ answer_of msg (ProcMeta p) sent (ProcResult p)))))"

section \<open>Other entrances\<close>

definition direct_message :: "string \<Rightarrow> string \<Rightarrow> string \<Rightarrow> string \<Rightarrow> string \<Rightarrow> chat_message" where
  "direct_message content sessionKey channel chatID requestedAgentID =
     \<lparr>MsgChannel = channel, MsgSenderID = ''cron'', MsgChatID = chatID, MsgSessionKey = sessionKey, MsgPeerKind = [], MsgPeerID = [],
      MsgMetadata = (let a = TrimSpace requestedAgentID in if a = [] then [] else [(''requested_agent_id'', a)]),
      MsgContent = content, MsgMedia = [], MsgMessageID = []\<rparr>"

text \<open>The check for collisions and the connections, before a run that does not come from the bus.\<close>

definition preflight :: "inbound_env \<Rightarrow> inbound_state \<Rightarrow> inbound_state \<times> process_error option" where
  "preflight env st =
     (case skillCollisionRequestError (LoopCore st) of
        (core, Some m) \<Rightarrow> (st\<lparr>LoopCore := core\<rparr>, Some (TypedError ''SKILL_SCOPE_COLLISION'' m [] []))
      | (core, None) \<Rightarrow>
          (case ensureMCPInitialized (InMCP env) core of
             (core', _, err) \<Rightarrow> (st\<lparr>LoopCore := core'\<rparr>, map_option PlainError err)))"

definition ProcessDirect ::
  "inbound_env \<Rightarrow> string \<Rightarrow> string \<Rightarrow> string \<Rightarrow> string \<Rightarrow> string \<Rightarrow> inbound_state \<Rightarrow>
   inbound_state \<times> published list \<times> (process_error + string)" where
  "ProcessDirect env content sessionKey channel chatID requestedAgentID st =
     (case preflight env st of
        (st1, Some e) \<Rightarrow> (st1, [], Inl e)
      | (st1, None) \<Rightarrow>
          (case processMessageDetailed env (direct_message content sessionKey channel chatID requestedAgentID) st1 of
             (st2, feedback, p) \<Rightarrow>
               (st2, feedback @ snd (turn_outputs (InBusFails env) (fst (ProcChat p)) (snd (ProcChat p)) (ProcCalls p) False),
                map_sum id fst (ProcResult p))))"

definition chosen_agent :: "agent_registry \<Rightarrow> string \<Rightarrow> string option" where
  "chosen_agent reg agentID =
     (case (if agentID = [] then None else GetAgent reg agentID) of Some a \<Rightarrow> Some a | None \<Rightarrow> GetDefaultAgent reg)"

definition heartbeat_options :: "string \<Rightarrow> string \<Rightarrow> string \<Rightarrow> int \<Rightarrow> processOptions" where
  "heartbeat_options key prompt channel maxTokens =
     \<lparr>OptSessionKey = key, OptChannel = channel, OptUserMessage = prompt, OptMedia = [], OptDefaultResponse = ''HEARTBEAT_OK'',
      OptSendResponse = False, OptMaxTokens = maxTokens, OptModelOverride = [], OptTrackRunControl = False, OptEnableSummary = False\<rparr>"

definition ProcessHeartbeat ::
  "inbound_env \<Rightarrow> string \<Rightarrow> string \<Rightarrow> string \<Rightarrow> string \<Rightarrow> string \<Rightarrow> int \<Rightarrow> inbound_state \<Rightarrow>
   inbound_state \<times> published list \<times> (process_error + string)" where
  "ProcessHeartbeat env agentID sessionKey prompt deliverChannel deliverChatID maxTokens st =
     (case preflight env st of
        (st1, Some e) \<Rightarrow> (st1, [], Inl e)
      | (st1, None) \<Rightarrow>
          (case chosen_agent (CoreReg (LoopCore st1)) agentID of
             None \<Rightarrow> (st1, [], Inl (PlainError ''no agent available for heartbeat''))
           | Some agent \<Rightarrow>
               let key = TrimSpace sessionKey in
               if key = [] then (st1, [], Inl (PlainError ''heartbeat session key is required''))
               else if \<not> IsHeartbeatSessionKey key then
                 (st1, [], Inl (PlainError (''session key '' @ InQuote env key @ '' is outside heartbeat namespace'')))
               else (let (st2, outs, r) = run_turn env agent (heartbeat_options key prompt deliverChannel maxTokens) st1
                     in (st2, snd (turn_outputs (InBusFails env) deliverChannel deliverChatID outs False), map_sum id fst r))))"

definition webhook_options :: "string \<Rightarrow> string \<Rightarrow> processOptions" where
  "webhook_options key message =
     \<lparr>OptSessionKey = key, OptChannel = [], OptUserMessage = message, OptMedia = [], OptDefaultResponse = default_response,
      OptSendResponse = False, OptMaxTokens = 0, OptModelOverride = [], OptTrackRunControl = False, OptEnableSummary = True\<rparr>"

definition ProcessWebhook ::
  "inbound_env \<Rightarrow> string \<Rightarrow> string \<Rightarrow> string \<Rightarrow> inbound_state \<Rightarrow> inbound_state \<times> published list \<times> (process_error + string)" where
  "ProcessWebhook env agentID sessionKey message st =
     (case preflight env st of
        (st1, Some e) \<Rightarrow> (st1, [], Inl e)
      | (st1, None) \<Rightarrow>
          (case chosen_agent (CoreReg (LoopCore st1)) agentID of
             None \<Rightarrow> (st1, [], Inl (PlainError ''no agent available for webhook''))
           | Some agent \<Rightarrow>
               let key = ToLower (TrimSpace sessionKey) in
               if key = [] then (st1, [], Inl (PlainError ''webhook session key is required''))
               else if \<not> HasPrefix key ''hook:'' then
                 (st1, [], Inl (PlainError (''session key '' @ InQuote env key @ '' is outside hook namespace'')))
               else if TrimSpace message = [] then (st1, [], Inl (PlainError ''webhook message is required''))
               else (let (st2, outs, r) = run_turn env agent (webhook_options key message) st1
                     in (st2, snd (turn_outputs (InBusFails env) [] [] outs False), map_sum id fst r))))"

section \<open>Locks and refusals\<close>

lemma run_turn_locks [simp]: "run_turn env a opts st = (st', calls, r) \<Longrightarrow> RunLocks st' = RunLocks st"
  by (auto simp: run_turn_def split: prod.splits)

lemma admit_lock: "admit rcfg reg ls m = Inr (r, ls') \<Longrightarrow> ls' - {RunLock r} = ls"
  by (auto simp: admit_def tryAcquireAgentRun_def split: sum.splits option.splits if_splits)

lemma process_locks: "processMessageDetailed env msg st = (st', ps, p) \<Longrightarrow> RunLocks st' = RunLocks st"
  unfolding processMessageDetailed_def Let_def
  by (auto simp: admit_lock split: prod.splits sum.splits option.splits if_splits)

text \<open>C10. Whatever comes of a message (a refusal, a command, a turn that succeeds, fails or is stopped), afterwards exactly those agents are
  locked that were locked before.\<close>

theorem locks_restored: "RunLocks (fst (handleInboundMessage env msg st)) = RunLocks st"
  by (auto simp: handleInboundMessage_def skillCollisionRequestError_def dest: process_locks split: option.splits prod.splits)

lemma no_voice: "\<not> VoiceReady env \<Longrightarrow> transcribeAudioInMessage env msg = (msg, [], False)"
  by (simp add: transcribeAudioInMessage_def)

text \<open>A message for an agent that is running is refused and lost: the sender gets the error \<open>RUN_IN_PROGRESS\<close>, and no session, lock or
  other part of the state changes.\<close>

theorem busy_message_refused:
  assumes "resolveMessageRoute (CoreCfg (LoopCore st)) (CoreReg (LoopCore st)) (inbound_message.truncate msg) = Inr (r, agent)"
    and "validateExplicitSessionKey (MsgSessionKey msg) = None" and "MsgRouteAgentID r \<in> RunLocks st"
    and "MsgChannel msg \<noteq> ''system''" and "CoreCollision (LoopCore st) = None" and "\<not> VoiceReady (InVoice env)"
  shows "fst (handleInboundMessage env msg st) = st \<and>
    (\<exists>p. snd (handleInboundMessage env msg st) = [p] \<and> PubChannel p = MsgChannel msg \<and> PubChatID p = MsgChatID msg \<and>
      PubErrorCode p = ''RUN_IN_PROGRESS'' \<and> PubAgent p = MsgRouteAgentID r)"
proof -
  have admit: "admit (CoreCfg (LoopCore st)) (CoreReg (LoopCore st)) (RunLocks st) (inbound_message.truncate msg) = Inl (RunInProgress (MsgRouteAgentID r))"
    using assms(1-3) by (simp add: admit_def tryAcquireAgentRun_def inbound_message.truncate_def)
  have meta: "message_meta (CoreCfg (LoopCore st)) (CoreReg (LoopCore st)) (inbound_message.truncate msg) =
      Some (route_meta (CoreCfg (LoopCore st)) (inbound_message.truncate msg) r)"
    by (simp add: message_meta_def assms(1))
  show ?thesis
    using assms(4-6) admit meta
    by (simp add: handleInboundMessage_def skillCollisionRequestError_def processMessageDetailed_def no_voice Let_def admission_error_def
      answer_of_def text_to_def route_meta_def)
qed

section \<open>Commands come before the turn\<close>

lemma commands_handled:
  assumes "parseCommandName (CmdText req) = Some n" and "n \<in> set (map DefName BuiltinDefinitions)"
  shows "\<exists>s' t. handleCommand (Some builtin_registry) quote cenv req key s = (s', Some t)"
proof -
  from assms(2) have "find (\<lambda>d. DefName d = n) BuiltinDefinitions \<noteq> None" unfolding find_None_iff by auto
  then obtain d where "find (\<lambda>d. DefName d = n) BuiltinDefinitions = Some d" by auto
  from handle_known [OF assms(1) this, of quote cenv key s] show ?thesis by (metis prod.collapse)
qed

text \<open>A chat command never reaches the model: what is done and published is the same whatever the turn would have done.\<close>

theorem commands_skip_turn:
  assumes "parseCommandName (MsgContent msg) = Some n" and "n \<in> set (map DefName BuiltinDefinitions)"
    and "MsgChannel msg \<noteq> ''system''" and "\<not> VoiceReady (InVoice env)"
  shows "handleInboundMessage (env\<lparr>InTurn := f\<rparr>) msg st = handleInboundMessage env msg st"
proof -
  have handled: "\<exists>s' t. handleCommand (Some builtin_registry) quote cenv
      \<lparr>CmdChannel = a, CmdChatID = b, CmdSenderID = c, CmdText = MsgContent msg\<rparr> key s = (s', Some t)" for quote cenv a b c key s
    using commands_handled [of "\<lparr>CmdChannel = a, CmdChatID = b, CmdSenderID = c, CmdText = MsgContent msg\<rparr>" n quote cenv key s] assms(1,2)
    by (metis CommandRequest.select_convs(4) option.exhaust prod.exhaust_sel)
  have "processMessageDetailed (env\<lparr>InTurn := f\<rparr>) msg st = processMessageDetailed env msg st"
  proof (cases "admit (CoreCfg (LoopCore st)) (CoreReg (LoopCore st)) (RunLocks st) (inbound_message.truncate msg)")
    case (Inl e)
    with assms(3,4) show ?thesis by (simp add: processMessageDetailed_def no_voice Let_def)
  next
    case (Inr x)
    obtain r ls where x: "x = (r, ls)" by fastforce
    obtain s' t where "handleCommand (Some builtin_registry) (InQuote env) (InCommands env (RunAgent r))
        \<lparr>CmdChannel = MsgChannel msg, CmdChatID = MsgChatID msg, CmdSenderID = MsgSenderID msg, CmdText = MsgContent msg\<rparr> (RunSession r)
        (AgentStates st (RunAgent r)) = (s', Some t)"
      using handled by blast
    with assms(3,4) Inr x show ?thesis by (simp add: processMessageDetailed_def no_voice Let_def)
  qed
  moreover have "InBusFails (env\<lparr>InTurn := f\<rparr>) = InBusFails env" by simp
  ultimately show ?thesis unfolding handleInboundMessage_def by simp
qed

section \<open>Answers that do not arrive\<close>

lemma turn_outputs_Nil [simp]: "turn_outputs fails ch i [] sent = (sent, [])"
  by simp

lemma feedback_channel: "p \<in> set (sendTranscriptionFeedback env msg texts) \<Longrightarrow> PubChannel p = MsgChannel msg"
  by (auto simp: sendTranscriptionFeedback_def text_to_def Let_def split: if_splits)

lemma transcribe_channel:
  "transcribeAudioInMessage env msg = (msg', ps, b) \<Longrightarrow> MsgChannel msg' = MsgChannel msg \<and> (\<forall>p \<in> set ps. PubChannel p = MsgChannel msg)"
  using feedback_channel [of _ env msg "transcriptions env (MsgMedia msg)"]
  by (cases "replace_annotations (transcriptions env (MsgMedia msg)) (MsgContent msg)")
     (auto simp: transcribeAudioInMessage_def Let_def split: if_splits)

lemma answer_channel: "p \<in> set (answer_of msg meta sent r) \<Longrightarrow> PubChannel p = MsgChannel msg \<and> PubChatID p = MsgChatID msg"
proof (cases r)
  case (Inl e)
  then show "p \<in> set (answer_of msg meta sent r) \<Longrightarrow> ?thesis"
    by (cases e) (simp_all add: answer_of_def text_to_def Let_def split: if_splits)
next
  case (Inr x)
  then show "p \<in> set (answer_of msg meta sent r) \<Longrightarrow> ?thesis"
    by (cases x) (simp add: answer_of_def text_to_def Let_def split: if_splits)
qed

lemma process_quiet:
  assumes "\<And>a opts s. fst (snd (InTurn env a opts s)) = []" and "processMessageDetailed env msg st = (st', ps, p)"
  shows "ProcCalls p = [] \<and> (\<forall>q \<in> set ps. PubChannel q = MsgChannel msg)"
proof -
  have turn: "calls = []" if "run_turn env a opts s = (s', calls, r)" for a opts s s' calls r
    using assms(1) [of a opts "AgentStates s a"] that
    by (cases "InTurn env a opts (AgentStates s a)") (simp add: run_turn_def)
  obtain msg' fb b where t: "transcribeAudioInMessage (InVoice env) msg = (msg', fb, b)" by (metis prod_cases3)
  note fb = transcribe_channel [OF t]
  note unfolded = assms(2) [unfolded processMessageDetailed_def t Let_def prod.case]
  show ?thesis
  proof (cases "MsgChannel msg' = ''system''")
    case True
    note sys = unfolded [unfolded if_P [OF True]]
    show ?thesis
    proof (cases "processSystemMessage (CoreReg (LoopCore st)) (MsgChannel msg') (MsgSenderID msg') (MsgChatID msg') (MsgContent msg')")
      case (Inl err)
      with sys fb show ?thesis by auto
    next
      case found: (Inr x)
      show ?thesis
      proof (cases x)
        case None
        with sys found fb show ?thesis by auto
      next
        case (Some t)
        show ?thesis
        proof (cases "GetDefaultAgent (CoreReg (LoopCore st))")
          case None
          with sys found Some fb show ?thesis by auto
        next
          case (Some a)
          obtain u calls r where run: "run_turn env a (system_options t) st = (u, calls, r)" by (metis prod_cases3)
          from sys found \<open>x = Some t\<close> Some run turn [OF run] fb show ?thesis by auto
        qed
      qed
    qed
  next
    case False
    note chat = unfolded [unfolded if_not_P [OF False]]
    show ?thesis
    proof (cases "admit (CoreCfg (LoopCore st)) (CoreReg (LoopCore st)) (RunLocks st) (inbound_message.truncate msg')")
      case (Inl e)
      with chat fb show ?thesis by auto
    next
      case (Inr x)
      obtain r ls where x: "x = (r, ls)" by fastforce
      obtain s reply where cmd: "handleCommand (Some builtin_registry) (InQuote env) (InCommands env (RunAgent r))
          \<lparr>CmdChannel = MsgChannel msg', CmdChatID = MsgChatID msg', CmdSenderID = MsgSenderID msg', CmdText = MsgContent msg'\<rparr> (RunSession r)
          (AgentStates st (RunAgent r)) = (s, reply)" by fastforce
      obtain u calls res where run: "run_turn env (RunAgent r) (message_options msg' (RunSession r)) (st\<lparr>RunLocks := ls\<rparr>) = (u, calls, res)"
        by (metis prod_cases3)
      from chat Inr x cmd run turn [OF run] fb show ?thesis by (cases reply) auto
    qed
  qed
qed

text \<open>The answer to a finished background task is not sent to the chat that the turn runs for: the loop publishes it on the channel
  \<open>system\<close>, which is internal. So when the turn itself publishes nothing while it runs (no message, result, media file or notice, and
  no activity event, which only the channel \<open>supr\<close> has), nothing is published on any other channel.\<close>

theorem background_answer_lost:
  assumes "MsgChannel msg = ''system''" and "\<And>a opts s. fst (snd (InTurn env a opts s)) = []"
  shows "list_all (\<lambda>p. IsInternalChannel (PubChannel p)) (snd (handleInboundMessage env msg st))"
proof (cases "CoreCollision (LoopCore st)")
  case None
  obtain st' ps p where step: "processMessageDetailed env msg st = (st', ps, p)" by (metis prod_cases3)
  from process_quiet [OF assms(2) step] have "ProcCalls p = []" and "\<forall>q \<in> set ps. PubChannel q = ''system''" using assms(1) by auto
  moreover have "PubChannel q = ''system''" if "q \<in> set (answer_of msg (ProcMeta p) False (ProcResult p))" for q
    using answer_channel [OF that] assms(1) by simp
  ultimately show ?thesis
    by (auto simp: handleInboundMessage_def skillCollisionRequestError_def None step list_all_iff IsInternalChannel_def)
next
  case (Some m)
  then show ?thesis by (simp add: handleInboundMessage_def skillCollisionRequestError_def text_to_def assms(1) IsInternalChannel_def)
qed

text \<open>A message that the model sends to another chat replaces the answer: when the turn used the tool \<open>message\<close> once, for another chat, nothing
  is published to the chat that asked, although the turn has an answer.\<close>

theorem message_elsewhere_silences:
  assumes "admit (CoreCfg (LoopCore st)) (CoreReg (LoopCore st)) (RunLocks st) (inbound_message.truncate msg) = Inr (r, held)"
    and "snd (handleCommand (Some builtin_registry) (InQuote env) (InCommands env (RunAgent r))
      \<lparr>CmdChannel = MsgChannel msg, CmdChatID = MsgChatID msg, CmdSenderID = MsgSenderID msg, CmdText = MsgContent msg\<rparr> (RunSession r)
      (AgentStates st (RunAgent r))) = None"
    and "InTurn env (RunAgent r) (message_options msg (RunSession r)) (AgentStates st (RunAgent r)) =
      (s', [ToolMessage \<lparr>CallContent = Some text, CallChannel = ch, CallChatID = i\<rparr>], Inr (response, model))"
    and "ch \<noteq> []" and "i \<noteq> []" and "i \<noteq> MsgChatID msg"
    and "MsgChannel msg \<noteq> ''system''" and "CoreCollision (LoopCore st) = None" and "\<not> VoiceReady (InVoice env)" and "\<not> InBusFails env"
  shows "snd (handleInboundMessage env msg st) = [text_to ch i text] \<and>
    filter (\<lambda>p. PubChatID p = MsgChatID msg) (snd (handleInboundMessage env msg st)) = []"
proof -
  obtain s where c: "handleCommand (Some builtin_registry) (InQuote env) (InCommands env (RunAgent r))
      \<lparr>CmdChannel = MsgChannel msg, CmdChatID = MsgChatID msg, CmdSenderID = MsgSenderID msg, CmdText = MsgContent msg\<rparr> (RunSession r)
      (AgentStates st (RunAgent r)) = (s, None)"
    using assms(2) by (metis prod.collapse)
  show ?thesis
    using assms(1,3-10) c
    by (simp add: handleInboundMessage_def skillCollisionRequestError_def processMessageDetailed_def no_voice Let_def run_turn_def
      publish_output_def message_Execute_def answer_of_def text_to_def)
qed

section \<open>Transcripts\<close>

lemma sublist_beside: "sublist a b \<Longrightarrow> sublist a (c @ b)" "sublist a b \<Longrightarrow> sublist a (b @ c)"
proof -
  assume "sublist a b"
  then obtain ps ss where b: "b = ps @ a @ ss" by (auto simp: sublist_def)
  have "c @ b = (c @ ps) @ a @ ss" "b @ c = ps @ a @ (ss @ c)" by (simp_all add: b)
  then show "sublist a (c @ b)" "sublist a (b @ c)" unfolding sublist_def by blast+
qed

lemma replace_used:
  "replace_annotations ts s = (s', rest) \<Longrightarrow> \<exists>used. ts = used @ rest \<and> (\<forall>t \<in> set used. sublist (transcript t) s')"
proof (induction ts s arbitrary: s' rest rule: replace_annotations.induct)
  case (1 ts)
  then show ?case by simp
next
  case (2 ts c cs)
  show ?case
  proof (cases "annotation_length (c # cs)")
    case None
    obtain u v where uv: "replace_annotations ts cs = (u, v)" by fastforce
    with 2(4) None have "s' = c # u" "rest = v" by auto
    with 2(1) [OF None uv] show ?thesis by (auto simp: sublist_Cons_right)
  next
    case (Some n)
    show ?thesis
    proof (cases ts)
      case Nil
      obtain u v where uv: "replace_annotations [] (drop n (c # cs)) = (u, v)" by fastforce
      with 2(4) Some Nil have "rest = v" by auto
      with 2(2) [OF Some Nil uv] Nil show ?thesis by auto
    next
      case (Cons t ts')
      obtain u v where uv: "replace_annotations ts' (drop n (c # cs)) = (u, v)" by fastforce
      with 2(4) Some Cons have s': "s' = transcript t @ u" "rest = v" by auto
      from 2(3) [OF Some Cons uv] obtain used where "ts' = used @ v" "\<forall>t \<in> set used. sublist (transcript t) u" by blast
      with s' Cons show ?thesis by (intro exI [of _ "t # used"]) (auto intro: sublist_beside)
    qed
  qed
qed

text \<open>No transcript is lost: the text of every voice message that came with a message is part of the content that the agent gets; without
  voice messages the content is unchanged.\<close>

theorem transcripts_kept:
  assumes "transcribeAudioInMessage env msg = (msg', ps, b)"
  shows "(VoiceReady env \<longrightarrow> (\<forall>t \<in> set (transcriptions env (MsgMedia msg)). sublist (transcript t) (MsgContent msg'))) \<and>
    (transcriptions env (MsgMedia msg) = [] \<longrightarrow> msg' = msg)"
proof (cases "VoiceReady env \<and> transcriptions env (MsgMedia msg) \<noteq> []")
  case True
  let ?ts = "transcriptions env (MsgMedia msg)"
  obtain s rest where r: "replace_annotations ?ts (MsgContent msg) = (s, rest)" by fastforce
  from replace_used [OF r] obtain used where used: "?ts = used @ rest" "\<forall>t \<in> set used. sublist (transcript t) s" by blast
  have tail: "sublist (transcript t) (concat (map (\<lambda>t. lf # transcript t) rest))" if "t \<in> set rest" for t
  proof -
    from that obtain xs ys where "rest = xs @ t # ys" by (meson split_list)
    then have "concat (map (\<lambda>t. lf # transcript t) rest) =
        (concat (map (\<lambda>t. lf # transcript t) xs) @ [lf]) @ transcript t @ concat (map (\<lambda>t. lf # transcript t) ys)" by simp
    then show ?thesis unfolding sublist_def by blast
  qed
  from True assms r have "MsgContent msg' = s @ concat (map (\<lambda>t. lf # transcript t) rest)"
    by (auto simp: transcribeAudioInMessage_def)
  with used tail True show ?thesis by (auto intro: sublist_beside)
next
  case False
  with assms show ?thesis by (auto simp: transcribeAudioInMessage_def split: if_splits)
qed

text \<open>A transcript is put in the wrong place: when the first of two voice files cannot be found, the text of the second one replaces the
  annotation of the first, and the annotation of the second stays as if it had not been understood.\<close>

theorem transcript_misplaced:
  assumes "VoiceReady env" and "MsgMedia msg = [a, b]" and "MsgContent msg = ''[voice: a.ogg] [voice: b.ogg]''"
    and "VoiceResolve env a = None" and "VoiceResolve env b = Some (path, ''b.ogg'', contentType)" and "VoiceSpeech env path = Some text"
  shows "MsgContent (fst (transcribeAudioInMessage env msg)) = transcript text @ '' [voice: b.ogg]''"
proof -
  have audio: "IsAudioFile ''b.ogg'' contentType"
  proof -
    have "list_ex (\<lambda>ext. HasSuffix (ToLower ''b.ogg'') ext) [''.mp3'', ''.wav'', ''.ogg'', ''.m4a'', ''.flac'', ''.aac'', ''.wma'']" by code_simp
    then show ?thesis unfolding IsAudioFile_def by (rule disjI1)
  qed
  have texts: "transcriptions env [a, b] = [text]"
    using assms(4-6) audio by (simp add: transcriptions_def List.map_filter_def)
  have one: "annotation_length ''[voice: a.ogg] [voice: b.ogg]'' = Some 14" by code_simp
  have rest: "replace_annotations [] '' [voice: b.ogg]'' = ('' [voice: b.ogg]'', [])" by code_simp
  have "replace_annotations [text] ''[voice: a.ogg] [voice: b.ogg]'' = (transcript text @ '' [voice: b.ogg]'', [])"
    using rest by (subst replace_annotations.simps(2)) (simp only: one, simp)
  with texts assms(1-3) show ?thesis by (simp add: transcribeAudioInMessage_def)
qed

section \<open>Sessions of the entrances\<close>

lemma preflight_turn [simp]: "preflight (env\<lparr>InTurn := f\<rparr>) st = preflight env st"
proof -
  have "InMCP (env\<lparr>InTurn := f\<rparr>) = InMCP env" by simp
  then show ?thesis unfolding preflight_def by simp
qed

lemma run_turn_cong: "f a opts (AgentStates st a) = InTurn env a opts (AgentStates st a) \<Longrightarrow> run_turn (env\<lparr>InTurn := f\<rparr>) a opts st = run_turn env a opts st"
  by (simp add: run_turn_def)

text \<open>C15. The entrances keep to their sessions: a heartbeat only runs turns in heartbeat sessions, a webhook only in sessions that start with
  \<open>hook:\<close>, and a message (on another channel than the internal \<open>system\<close>) only in others than heartbeat sessions, unless a channel is
  called like them; what turns would do elsewhere makes no difference.\<close>

theorem entrances_apart:
  assumes f: "\<And>a opts s. IsHeartbeatSessionKey (OptSessionKey opts) \<Longrightarrow> f a opts s = InTurn env a opts s"
    and g: "\<And>a opts s. HasPrefix (OptSessionKey opts) ''hook:'' \<Longrightarrow> g a opts s = InTurn env a opts s"
    and h: "\<And>a opts s. \<not> IsHeartbeatSessionKey (OptSessionKey opts) \<Longrightarrow> h a opts s = InTurn env a opts s"
    and channel: "\<not> HasPrefix (normalizeChannel (MsgChannel msg)) DefaultHeartbeatKey" "MsgChannel msg \<noteq> ''system''"
  shows "ProcessHeartbeat (env\<lparr>InTurn := f\<rparr>) agentID key prompt ch i n st = ProcessHeartbeat env agentID key prompt ch i n st \<and>
    ProcessWebhook (env\<lparr>InTurn := g\<rparr>) agentID key message st = ProcessWebhook env agentID key message st \<and>
    processMessageDetailed (env\<lparr>InTurn := h\<rparr>) msg st = processMessageDetailed env msg st"
proof (intro conjI)
  have hb: "run_turn (env\<lparr>InTurn := f\<rparr>) a (heartbeat_options k prompt ch n) t = run_turn env a (heartbeat_options k prompt ch n) t"
    if "IsHeartbeatSessionKey k" for a k t
    by (rule run_turn_cong) (simp add: f heartbeat_options_def that)
  show "ProcessHeartbeat (env\<lparr>InTurn := f\<rparr>) agentID key prompt ch i n st = ProcessHeartbeat env agentID key prompt ch i n st"
    by (simp add: ProcessHeartbeat_def Let_def hb split: prod.split option.split)
  have hook: "run_turn (env\<lparr>InTurn := g\<rparr>) a (webhook_options k message) t = run_turn env a (webhook_options k message) t"
    if "HasPrefix k ''hook:''" for a k t
    by (rule run_turn_cong) (simp add: g webhook_options_def that)
  show "ProcessWebhook (env\<lparr>InTurn := g\<rparr>) agentID key message st = ProcessWebhook env agentID key message st"
    by (simp add: ProcessWebhook_def Let_def hook split: prod.split option.split)
  obtain msg' fb b where t: "transcribeAudioInMessage (InVoice env) msg = (msg', fb, b)" by (metis prod_cases3)
  have ch: "MsgChannel msg' = MsgChannel msg" using transcribe_channel [OF t] by simp
  have turn: "run_turn (env\<lparr>InTurn := h\<rparr>) (RunAgent r) (message_options msg' (RunSession r)) u =
      run_turn env (RunAgent r) (message_options msg' (RunSession r)) u"
    if "admit c reg ls (inbound_message.truncate msg') = Inr (r, ls')" for c reg ls r ls' u
  proof (rule run_turn_cong, rule h)
    have "\<not> HasPrefix (normalizeChannel (MsgChannel (inbound_message.truncate msg'))) DefaultHeartbeatKey"
      using channel(1) by (simp add: inbound_message.truncate_def ch)
    from admitted_session_not_heartbeat [OF that this]
    show "\<not> IsHeartbeatSessionKey (OptSessionKey (message_options msg' (RunSession r)))" by (simp add: message_options_def)
  qed
  show "processMessageDetailed (env\<lparr>InTurn := h\<rparr>) msg st = processMessageDetailed env msg st"
  proof (cases "admit (CoreCfg (LoopCore st)) (CoreReg (LoopCore st)) (RunLocks st) (inbound_message.truncate msg')")
    case (Inl e)
    with channel(2) show ?thesis by (simp add: processMessageDetailed_def t ch Let_def)
  next
    case (Inr x)
    obtain r ls where x: "x = (r, ls)" by fastforce
    from channel(2) Inr turn [OF Inr [unfolded x]] show ?thesis by (simp add: processMessageDetailed_def t x ch Let_def)
  qed
qed

section \<open>Examples\<close>

definition demo_chat :: "string \<Rightarrow> string \<Rightarrow> chat_message" where
  "demo_chat channel content =
     \<lparr>MsgChannel = channel, MsgSenderID = ''7'', MsgChatID = ''42'', MsgSessionKey = [], MsgPeerKind = ''direct'', MsgPeerID = [],
      MsgMetadata = [], MsgContent = content, MsgMedia = [''m1'', ''m2''], MsgMessageID = []\<rparr>"

definition demo_turn :: "turn_output list \<Rightarrow> turn_fn" where
  "demo_turn calls a opts s = (s, calls, Inr (''Done.'', ''m''))"

definition demo_voice :: "bool \<Rightarrow> voice_env" where
  "demo_voice ready =
     \<lparr>VoiceReady = ready, VoiceResolve = (\<lambda>r. if r = ''m2'' then Some (''p'', ''b.ogg'', []) else None), VoiceSpeech = (\<lambda>_. Some ''hello''),
      VoiceEcho = False, HasChannels = False\<rparr>"

definition demo_inbound :: "turn_output list \<Rightarrow> inbound_env" where
  "demo_inbound calls =
     \<lparr>InVoice = demo_voice False, InCommands = (\<lambda>_. demo_command_env), InQuote = id, InTurn = demo_turn calls, InBusFails = False, InMCP = demo_mcp\<rparr>"

definition demo_loop :: "string set \<Rightarrow> inbound_state" where
  "demo_loop ls = \<lparr>RunLocks = ls, AgentStates = (\<lambda>_. demo_command_state), LoopCore = demo_core\<rparr>"

lemma demo_route_chat:
  "\<exists>r. resolveMessageRoute (CoreCfg demo_core) (CoreReg demo_core) (inbound_message.truncate (demo_chat ''telegram'' t)) = Inr (r, ''main'') \<and>
     MsgRouteAgentID r = ''main''"
proof -
  have "inbound_message.truncate (demo_chat ''telegram'' t) = inbound_message.truncate (demo_chat ''telegram'' [])"
    by (simp add: demo_chat_def inbound_message.truncate_def)
  moreover have "case resolveMessageRoute (CoreCfg demo_core) (CoreReg demo_core) (inbound_message.truncate (demo_chat ''telegram'' [])) of
      Inl _ \<Rightarrow> False | Inr (r, a) \<Rightarrow> MsgRouteAgentID r = ''main'' \<and> a = ''main''"
    by code_simp
  ultimately show ?thesis by (auto split: sum.splits)
qed

theorem busy_message_refused_witness:
  "fst (handleInboundMessage (demo_inbound []) (demo_chat ''telegram'' ''hi'') (demo_loop {''main''})) = demo_loop {''main''}"
proof -
  obtain r where r: "resolveMessageRoute (CoreCfg (LoopCore (demo_loop {''main''}))) (CoreReg (LoopCore (demo_loop {''main''})))
      (inbound_message.truncate (demo_chat ''telegram'' ''hi'')) = Inr (r, ''main'')" and "MsgRouteAgentID r = ''main''"
    using demo_route_chat [of "''hi''"] by (auto simp: demo_loop_def)
  moreover have "validateExplicitSessionKey (MsgSessionKey (demo_chat ''telegram'' ''hi'')) = None"
    by (simp add: demo_chat_def validateExplicitSessionKey_def)
  ultimately show ?thesis
    using busy_message_refused [OF r] by (simp add: demo_loop_def demo_chat_def demo_core_def demo_inbound_def demo_voice_def)
qed

theorem commands_skip_turn_witness:
  "handleInboundMessage ((demo_inbound [])\<lparr>InTurn := demo_turn [ToolMessage \<lparr>CallContent = None, CallChannel = [], CallChatID = []\<rparr>]\<rparr>)
     (demo_chat ''telegram'' ''/show model'') (demo_loop {}) =
   handleInboundMessage (demo_inbound []) (demo_chat ''telegram'' ''/show model'') (demo_loop {})"
proof (rule commands_skip_turn)
  show "parseCommandName (MsgContent (demo_chat ''telegram'' ''/show model'')) = Some ''show''" by code_simp
  show "''show'' \<in> set (map DefName BuiltinDefinitions)" by code_simp
qed (simp_all add: demo_chat_def demo_inbound_def demo_voice_def)

theorem background_answer_lost_witness:
  "list_all (\<lambda>p. IsInternalChannel (PubChannel p)) (snd (handleInboundMessage (demo_inbound []) (demo_chat ''system'' ''Result: ok'') (demo_loop {})))"
  by (rule background_answer_lost) (simp_all add: demo_chat_def demo_inbound_def demo_turn_def)

theorem message_elsewhere_silences_witness:
  "snd (handleInboundMessage (demo_inbound [ToolMessage \<lparr>CallContent = Some ''news'', CallChannel = ''telegram'', CallChatID = ''99''\<rparr>])
     (demo_chat ''telegram'' ''tell 99 and then answer me'') (demo_loop {})) = [text_to ''telegram'' ''99'' ''news'']"
proof -
  let ?t = "''tell 99 and then answer me''" and ?env = "demo_inbound [ToolMessage \<lparr>CallContent = Some ''news'', CallChannel = ''telegram'', CallChatID = ''99''\<rparr>]"
  obtain r where route: "resolveMessageRoute (CoreCfg demo_core) (CoreReg demo_core) (inbound_message.truncate (demo_chat ''telegram'' ?t)) = Inr (r, ''main'')"
    and "MsgRouteAgentID r = ''main''" using demo_route_chat [of ?t] by blast
  then have adm: "admit (CoreCfg (LoopCore (demo_loop {}))) (CoreReg (LoopCore (demo_loop {}))) (RunLocks (demo_loop {}))
      (inbound_message.truncate (demo_chat ''telegram'' ?t)) =
      Inr (\<lparr>RunAgent = ''main'', RunLock = ''main'', RunSession = MsgRouteSessionKey r\<rparr>, {''main''})"
    by (simp add: admit_def demo_loop_def tryAcquireAgentRun_def demo_chat_def validateExplicitSessionKey_def resolveScopeKey_def inbound_message.truncate_def)
  have plain: "\<not> HasCommandPrefix (MsgContent (demo_chat ''telegram'' ?t))" by code_simp
  have "snd (handleInboundMessage ?env (demo_chat ''telegram'' ?t) (demo_loop {})) = [text_to ''telegram'' ''99'' ''news''] \<and>
    filter (\<lambda>p. PubChatID p = MsgChatID (demo_chat ''telegram'' ?t)) (snd (handleInboundMessage ?env (demo_chat ''telegram'' ?t) (demo_loop {}))) = []"
    by (rule message_elsewhere_silences [OF adm, where s' = demo_command_state and response = "''Done.''" and model = "''m''"])
      (use plain in \<open>simp_all add: handleCommand_def demo_inbound_def demo_turn_def demo_loop_def demo_chat_def demo_core_def demo_voice_def\<close>)
  then show ?thesis by blast
qed

theorem transcripts_kept_witness:
  "sublist (transcript ''hello'') (MsgContent (fst (transcribeAudioInMessage (demo_voice True) (demo_chat ''telegram'' ''listen''))))"
proof -
  have "transcriptions (demo_voice True) (MsgMedia (demo_chat ''telegram'' ''listen'')) = [''hello'']" by code_simp
  with transcripts_kept [of "demo_voice True" "demo_chat ''telegram'' ''listen''"] show ?thesis
    by (cases "transcribeAudioInMessage (demo_voice True) (demo_chat ''telegram'' ''listen'')") (simp add: demo_voice_def)
qed

theorem transcript_misplaced_witness:
  "MsgContent (fst (transcribeAudioInMessage (demo_voice True) (demo_chat ''telegram'' ''[voice: a.ogg] [voice: b.ogg]''))) =
   transcript ''hello'' @ '' [voice: b.ogg]''"
  by (rule transcript_misplaced [of _ _ "''m1''" "''m2''" "''p''" "[]"]) (simp_all add: demo_voice_def demo_chat_def)

theorem entrances_apart_witness:
  "ProcessWebhook ((demo_inbound [])\<lparr>InTurn := (\<lambda>a opts s. if HasPrefix (OptSessionKey opts) ''hook:'' then demo_turn [] a opts s else (s, [], Inr ([], [])))\<rparr>)
     [] '' Hook:task:1 '' ''wake'' (demo_loop {}) = ProcessWebhook (demo_inbound []) [] '' Hook:task:1 '' ''wake'' (demo_loop {})"
proof -
  have "\<not> HasPrefix (normalizeChannel (MsgChannel (demo_chat ''telegram'' ''hi''))) DefaultHeartbeatKey" by code_simp
  moreover have "MsgChannel (demo_chat ''telegram'' ''hi'') \<noteq> ''system''" by (simp add: demo_chat_def)
  ultimately show ?thesis
    using entrances_apart [of "InTurn (demo_inbound [])" "demo_inbound []"
      "\<lambda>a opts s. if HasPrefix (OptSessionKey opts) ''hook:'' then demo_turn [] a opts s else (s, [], Inr ([], []))" "InTurn (demo_inbound [])"
      "demo_chat ''telegram'' ''hi''"]
    by (simp add: demo_inbound_def)
qed

end
