(* ===== verification/Configuration.thy ===== *)
theory Configuration
  imports ProviderFactory HostFs Heartbeat
begin

text \<open>
  The configuration (\<open>pkg/config/config.go\<close>): the checks of agents, heartbeats and MCP servers, the headers that a server gets for
  an agent, workspaces, and the keys of the model list between the file and memory (with \<open>Resolve\<close> of
  \<open>pkg/credential/credential.go\<close>). Time zones and the encryption of keys are arguments; a map of servers is a list in the order in
  which it is visited.
\<close>

section \<open>Agents\<close>

record agent_config =
  AcID :: string
  AcDefault :: bool
  AcScope :: string
  AcWorkspace :: string

datatype check_error =
  TimezoneRequired | TimezoneInvalid | NoParallelRuns | NoMainAgent | AgentIDRequired nat | ScopeRequired nat | ScopeInvalid nat
| GapNotPositive | NoHeartbeatJobs | JobAgentRequired nat | JobDuplicate nat nat | JobAgentUnknown nat | IntervalTooShort nat
| IdleNegative nat | TokensNegative nat | AckNegative nat | MaxIntervalNegative nat | MaxBelowInterval nat | HoursIncomplete nat
| HoursFormat nat | HoursValue nat
| ModeRequired string | ModeInvalid string | TransportInvalid string | URLRequired string | AuthRequired | ProjectRequired | RuntimeSecretRequired
| WorkforceSecretRequired | SupraSecretRequired | ServerUnknown string | AgentRequired string | AgentScopeRequired string | AgentScopeInvalid string
| ModelError nat entry_error

definition scope_ok :: "string \<Rightarrow> bool" where
  "scope_ok s \<longleftrightarrow> s = ''workforce'' \<or> s = ''supra''"

fun validateAgentScopes :: "nat \<Rightarrow> agent_config list \<Rightarrow> check_error option" where
  "validateAgentScopes i [] = None"
| "validateAgentScopes i (a # as) =
     (if TrimSpace (AcID a) = [] then Some (AgentIDRequired i)
      else if TrimSpace (AcScope a) = [] then Some (ScopeRequired i)
      else if \<not> scope_ok (AcScope a) then Some (ScopeInvalid i)
      else validateAgentScopes (Suc i) as)"

definition validateMainAgentInvariant :: "agent_config list \<Rightarrow> check_error option" where
  "validateMainAgentInvariant as = (if as = [] \<or> list_ex (\<lambda>a. TrimSpace (AcID a) = ''main'') as then None else Some NoMainAgent)"

definition validateTimezone :: "(string \<Rightarrow> bool) \<Rightarrow> string \<Rightarrow> check_error option" where
  "validateTimezone known zone =
     (let tz = TrimSpace zone in if tz = [] then Some TimezoneRequired else if \<not> known tz then Some TimezoneInvalid else None)"

section \<open>Heartbeats\<close>

record heartbeat_job =
  JobAgentID :: string
  JobInterval :: int
  JobIdleWindow :: int
  JobMaxTokens :: int
  JobSkipUnchanged :: bool
  JobHoursStart :: string
  JobHoursEnd :: string
  JobShowOk :: bool
  JobAckMax :: int
  JobAdaptive :: bool
  JobMaxInterval :: int

record heartbeat_config =
  HbEnabled :: bool
  HbGap :: int
  HbJobs :: "heartbeat_job list"

definition DefaultHeartbeatJobForAgent :: "string \<Rightarrow> heartbeat_job" where
  "DefaultHeartbeatJobForAgent agentID =
     \<lparr>JobAgentID = agentID, JobInterval = 30, JobIdleWindow = 15, JobMaxTokens = 0, JobSkipUnchanged = False, JobHoursStart = [], JobHoursEnd = [],
      JobShowOk = False, JobAckMax = 60, JobAdaptive = True, JobMaxInterval = 120\<rparr>"

definition knownAgentIDs :: "agent_config list \<Rightarrow> string list" where
  "knownAgentIDs as = (if as = [] then [''main''] else filter (\<lambda>i. i \<noteq> []) (map (\<lambda>a. TrimSpace (AcID a)) as))"

text \<open>The pattern of two digits, a colon and two digits, and then \<open>time.Parse\<close>.\<close>

definition validateHeartbeatHHMM :: "nat \<Rightarrow> string \<Rightarrow> check_error option" where
  "validateHeartbeatHHMM i s =
     (case s of
        [a, b, c, d, e] \<Rightarrow>
          if is_digit a \<and> is_digit b \<and> c = CHR '':'' \<and> is_digit d \<and> is_digit e then
            (if 10 * digit_of a + digit_of b \<le> 23 \<and> 10 * digit_of d + digit_of e \<le> 59 then None else Some (HoursValue i))
          else Some (HoursFormat i)
      | _ \<Rightarrow> Some (HoursFormat i))"

definition validate_job :: "string list \<Rightarrow> string list \<Rightarrow> nat \<Rightarrow> heartbeat_job \<Rightarrow> check_error option" where
  "validate_job known seen i j =
     (if JobAgentID j = [] then Some (JobAgentRequired i)
      else if JobAgentID j \<in> set seen then Some (JobDuplicate i (length (takeWhile (\<lambda>a. a \<noteq> JobAgentID j) seen)))
      else if JobAgentID j \<notin> set known then Some (JobAgentUnknown i)
      else if JobInterval j < 5 then Some (IntervalTooShort i)
      else if JobIdleWindow j < 0 then Some (IdleNegative i)
      else if JobMaxTokens j < 0 then Some (TokensNegative i)
      else if JobAckMax j < 0 then Some (AckNegative i)
      else if JobMaxInterval j < 0 then Some (MaxIntervalNegative i)
      else if 0 < JobMaxInterval j \<and> JobMaxInterval j < JobInterval j then Some (MaxBelowInterval i)
      else
        let hasStart = TrimSpace (JobHoursStart j) \<noteq> []; hasEnd = TrimSpace (JobHoursEnd j) \<noteq> [] in
        if hasStart \<noteq> hasEnd then Some (HoursIncomplete i)
        else if hasStart then
          (case validateHeartbeatHHMM i (JobHoursStart j) of Some e \<Rightarrow> Some e | None \<Rightarrow> validateHeartbeatHHMM i (JobHoursEnd j))
        else None)"

fun validate_heartbeat_jobs :: "string list \<Rightarrow> string list \<Rightarrow> heartbeat_job list \<Rightarrow> check_error option" where
  "validate_heartbeat_jobs known seen [] = None"
| "validate_heartbeat_jobs known seen (j # js) =
     (case validate_job known seen (length seen) j of Some e \<Rightarrow> Some e | None \<Rightarrow> validate_heartbeat_jobs known (seen @ [JobAgentID j]) js)"

definition validateHeartbeatConfig :: "agent_config list \<Rightarrow> heartbeat_config \<Rightarrow> check_error option" where
  "validateHeartbeatConfig as hb =
     (if \<not> HbEnabled hb \<and> HbJobs hb = [] then None
      else if HbGap hb \<le> 0 then Some GapNotPositive
      else if HbEnabled hb \<and> HbJobs hb = [] then Some NoHeartbeatJobs
      else validate_heartbeat_jobs (knownAgentIDs as) [] (HbJobs hb))"

section \<open>MCP servers\<close>

record runtime_auth =
  ProjectRef :: string
  RuntimeSecret :: string
  WorkforceScopeSecret :: string
  SupraScopeSecret :: string

record mcp_server =
  AuthMode :: string
  ServerType :: string
  ServerURL :: string
  ServerCommand :: string
  Headers :: "(string \<times> string) list"

definition auth_mode_ok :: "string \<Rightarrow> bool" where
  "auth_mode_ok m \<longleftrightarrow> m = ''static_headers'' \<or> m = ''runtime_scoped''"

definition validate_runtime_auth :: "runtime_auth option \<Rightarrow> check_error option" where
  "validate_runtime_auth auth =
     (case auth of
        None \<Rightarrow> Some AuthRequired
      | Some c \<Rightarrow>
          if TrimSpace (ProjectRef c) = [] then Some ProjectRequired
          else if TrimSpace (RuntimeSecret c) = [] then Some RuntimeSecretRequired
          else if TrimSpace (WorkforceScopeSecret c) = [] then Some WorkforceSecretRequired
          else if TrimSpace (SupraScopeSecret c) = [] then Some SupraSecretRequired
          else None)"

definition TransportType :: "mcp_server \<Rightarrow> string" where
  "TransportType s =
     (if TrimSpace (ServerType s) \<noteq> [] then TrimSpace (ServerType s)
      else if TrimSpace (ServerURL s) \<noteq> [] then ''sse''
      else if TrimSpace (ServerCommand s) \<noteq> [] then ''stdio''
      else [])"

definition validate_server :: "string \<Rightarrow> mcp_server \<Rightarrow> check_error option" where
  "validate_server name s =
     (if TrimSpace (AuthMode s) = [] then Some (ModeRequired name)
      else if \<not> auth_mode_ok (AuthMode s) then Some (ModeInvalid name)
      else if AuthMode s \<noteq> ''runtime_scoped'' then None
      else if TransportType s \<noteq> ''http'' \<and> TransportType s \<noteq> ''sse'' then Some (TransportInvalid name)
      else if TrimSpace (ServerURL s) = [] then Some (URLRequired name)
      else None)"

fun first_error :: "check_error option list \<Rightarrow> check_error option" where
  "first_error [] = None"
| "first_error (Some e # es) = Some e"
| "first_error (None # es) = first_error es"

definition validateMCPConfig :: "(string \<times> mcp_server) list \<Rightarrow> runtime_auth option \<Rightarrow> check_error option" where
  "validateMCPConfig servers auth =
     (case first_error (map (\<lambda>(name, s). validate_server name s) servers) of
        Some e \<Rightarrow> Some e
      | None \<Rightarrow>
          if list_all (\<lambda>(name, s). AuthMode s \<noteq> ''runtime_scoped'') servers \<and> auth = None then None else validate_runtime_auth auth)"

definition ScopeSecretFor :: "runtime_auth \<Rightarrow> string \<Rightarrow> string" where
  "ScopeSecretFor c scope =
     (if scope = ''workforce'' then TrimSpace (WorkforceScopeSecret c) else if scope = ''supra'' then TrimSpace (SupraScopeSecret c) else [])"

definition scoped_headers :: "runtime_auth \<Rightarrow> agent_config \<Rightarrow> (string \<times> string) list \<Rightarrow> (string \<times> string) list" where
  "scoped_headers c a h =
     assoc_put ''X-Suprclaw-Mcp-Scope-Secret'' (ScopeSecretFor c (AcScope a))
       (assoc_put ''X-Suprclaw-Agent-Id'' (TrimSpace (AcID a))
         (assoc_put ''X-Suprclaw-Project-Ref'' (TrimSpace (ProjectRef c))
           (assoc_put ''Authorization'' (''Bearer '' @ TrimSpace (RuntimeSecret c)) h)))"

definition ResolvedMCPServerConfigForAgent ::
  "(string \<times> mcp_server) list \<Rightarrow> runtime_auth option \<Rightarrow> string \<Rightarrow> agent_config \<Rightarrow> check_error + mcp_server" where
  "ResolvedMCPServerConfigForAgent servers auth name a =
     (case map_of servers name of
        None \<Rightarrow> Inl (ServerUnknown name)
      | Some s \<Rightarrow>
          if TrimSpace (AuthMode s) = [] then Inl (ModeRequired name)
          else if \<not> auth_mode_ok (AuthMode s) then Inl (ModeInvalid name)
          else if AuthMode s \<noteq> ''runtime_scoped'' then Inr s
          else
            case validate_runtime_auth auth of
              Some e \<Rightarrow> Inl e
            | None \<Rightarrow>
                if TrimSpace (AcID a) = [] then Inl (AgentRequired name)
                else if TrimSpace (AcScope a) = [] then Inl (AgentScopeRequired name)
                else if \<not> scope_ok (AcScope a) then Inl (AgentScopeInvalid name)
                else (case auth of None \<Rightarrow> Inl AuthRequired | Some c \<Rightarrow> Inr (s\<lparr>Headers := scoped_headers c a (Headers s)\<rparr>)))"

fun resolve_servers ::
  "(string \<times> mcp_server) list \<Rightarrow> runtime_auth option \<Rightarrow> agent_config \<Rightarrow> string list \<Rightarrow> check_error + (string \<times> mcp_server) list" where
  "resolve_servers servers auth a [] = Inr []"
| "resolve_servers servers auth a (n # ns) =
     (case ResolvedMCPServerConfigForAgent servers auth n a of
        Inl e \<Rightarrow> Inl e
      | Inr s \<Rightarrow> (case resolve_servers servers auth a ns of Inl e \<Rightarrow> Inl e | Inr r \<Rightarrow> Inr ((n, s) # r)))"

definition ResolvedMCPConfigForAgent ::
  "(string \<times> mcp_server) list \<Rightarrow> runtime_auth option \<Rightarrow> agent_config \<Rightarrow> check_error + (string \<times> mcp_server) list" where
  "ResolvedMCPConfigForAgent servers auth a = resolve_servers servers auth a (map fst servers)"

definition FindAgentConfig :: "agent_config list \<Rightarrow> string \<Rightarrow> agent_config option" where
  "FindAgentConfig as agentID = find (\<lambda>a. TrimSpace (ToLower (AcID a)) = TrimSpace (ToLower agentID)) as"

section \<open>Validation\<close>

record config =
  CfgAgents :: "agent_config list"
  CfgParallel :: int
  CfgTimezone :: string
  CfgHeartbeat :: heartbeat_config
  CfgModels :: "model_entry list"
  CfgServers :: "(string \<times> mcp_server) list"
  CfgAuth :: "runtime_auth option"

definition validateAgentsConfig :: "(string \<Rightarrow> bool) \<Rightarrow> config \<Rightarrow> check_error option" where
  "validateAgentsConfig known c =
     first_error
       [validateTimezone known (CfgTimezone c), if CfgParallel c \<le> 0 then Some NoParallelRuns else None,
        validateMainAgentInvariant (CfgAgents c), validateAgentScopes 0 (CfgAgents c), validateHeartbeatConfig (CfgAgents c) (CfgHeartbeat c)]"

definition ValidateModelList :: "model_entry list \<Rightarrow> check_error option" where
  "ValidateModelList ms = first_error (map (\<lambda>(i, m). map_option (ModelError i) (entry_Validate m)) (enumerate 0 ms))"

definition config_Validate :: "(string \<Rightarrow> bool) \<Rightarrow> config \<Rightarrow> check_error option" where
  "config_Validate known c =
     first_error [ValidateModelList (CfgModels c), validateAgentsConfig known c, validateMCPConfig (CfgServers c) (CfgAuth c)]"

text \<open>The checks that \<open>LoadConfig\<close> makes.\<close>

definition load_checks :: "(string \<Rightarrow> bool) \<Rightarrow> config \<Rightarrow> check_error option" where
  "load_checks known c = first_error [ValidateModelList (CfgModels c), validateAgentsConfig known c]"

section \<open>Workspaces\<close>

definition expandHome :: "string \<Rightarrow> string \<Rightarrow> string" where
  "expandHome home path =
     (case path of
        c # cs \<Rightarrow> if c = CHR ''~'' then (case cs of d # _ \<Rightarrow> if d = slash then home @ cs else home | [] \<Rightarrow> home) else path
      | [] \<Rightarrow> path)"

definition normalizeAgentIDForWorkspace :: "string \<Rightarrow> string" where
  "normalizeAgentIDForWorkspace ident =
     (let lower = ToLower (TrimSpace ident) in
      if lower = [] then ''main''
      else
        let r = take 64 (strip_trailing_dashes (strip_leading_dashes (collapse_invalid lower))) in if r = [] then ''main'' else r)"

definition ResolveAgentWorkspace :: "string \<Rightarrow> agent_config option \<Rightarrow> string \<Rightarrow> string" where
  "ResolveAgentWorkspace home agent defaultsWorkspace =
     (case agent of
        None \<Rightarrow> expandHome home defaultsWorkspace
      | Some a \<Rightarrow>
          if TrimSpace (AcWorkspace a) \<noteq> [] then expandHome home (TrimSpace (AcWorkspace a))
          else if AcDefault a \<or> TrimSpace (AcID a) = [] \<or> normalizeAgentIDForWorkspace (AcID a) = ''main'' then expandHome home defaultsWorkspace
          else Join_paths (expandHome home defaultsWorkspace) (''..'' @ slash # ''workspace-'' @ normalizeAgentIDForWorkspace (AcID a)))"

definition ResolveAgentWorkspaceByID :: "string \<Rightarrow> string \<Rightarrow> agent_config list \<Rightarrow> string \<Rightarrow> string" where
  "ResolveAgentWorkspaceByID home agentID as defaultsWorkspace =
     (let n = normalizeAgentIDForWorkspace agentID in
      case find (\<lambda>a. normalizeAgentIDForWorkspace (AcID a) = n) as of
        Some a \<Rightarrow> ResolveAgentWorkspace home (Some a) defaultsWorkspace
      | None \<Rightarrow> ResolveAgentWorkspace home (Some \<lparr>AcID = n, AcDefault = False, AcScope = [], AcWorkspace = []\<rparr>) defaultsWorkspace)"

section \<open>Keys\<close>

fun merge_keys :: "string list \<Rightarrow> string list \<Rightarrow> string list" where
  "merge_keys seen [] = []"
| "merge_keys seen (k # ks) =
     (if TrimSpace k = [] \<or> TrimSpace k \<in> set seen then merge_keys seen ks else TrimSpace k # merge_keys (TrimSpace k # seen) ks)"

definition MergeAPIKeys :: "string \<Rightarrow> string list \<Rightarrow> string list" where
  "MergeAPIKeys apiKey apiKeys = merge_keys [] (apiKey # apiKeys)"

text \<open>\<open>seal\<close> is the encryption with the pass phrase and the SSH key, \<open>unseal\<close> its inverse on texts with the prefix.\<close>

record key_codec =
  HasPassphrase :: bool
  seal :: "string \<Rightarrow> string option"
  unseal :: "string \<Rightarrow> string option"

definition is_sealed :: "string \<Rightarrow> bool" where
  "is_sealed k \<longleftrightarrow> HasPrefix k ''enc://'' \<or> HasPrefix k ''file://''"

fun encrypt_models :: "key_codec \<Rightarrow> model_entry list \<Rightarrow> (model_entry list \<times> bool) option" where
  "encrypt_models kc [] = Some ([], False)"
| "encrypt_models kc (m # ms) =
     (if EntryKey m = [] \<or> is_sealed (EntryKey m) then map_option (\<lambda>(r, b). (m # r, b)) (encrypt_models kc ms)
      else
        case seal kc (EntryKey m) of
          None \<Rightarrow> None
        | Some e \<Rightarrow> map_option (\<lambda>(r, b). (m\<lparr>EntryKey := e\<rparr> # r, True)) (encrypt_models kc ms))"

text \<open>The outer \<open>None\<close> is an error, the inner one says that nothing was changed.\<close>

definition encryptPlaintextAPIKeys :: "key_codec \<Rightarrow> model_entry list \<Rightarrow> model_entry list option option" where
  "encryptPlaintextAPIKeys kc ms = map_option (\<lambda>(r, changed). if changed then Some r else None) (encrypt_models kc ms)"

datatype key_error = NoFileName | KeyPathError fs_error | KeyEscapes | KeyReadError fs_error | KeyFileEmpty | PassphraseRequired | DecryptionFailed

definition resolve_key :: "key_codec \<Rightarrow> filesystem \<Rightarrow> string \<Rightarrow> string \<Rightarrow> key_error + string" where
  "resolve_key kc fs baseDir raw =
     (if raw = [] then Inr []
      else if HasPrefix raw ''file://'' then
        let fileName = TrimSpace (drop 7 raw) in
        if fileName = [] then Inl NoFileName
        else
          (case EvalSymlinks fs (Join_paths baseDir fileName) of
             Inl e \<Rightarrow> Inl (KeyPathError e)
           | Inr real \<Rightarrow>
               if \<not> (case Rel (Clean baseDir) (Clean real) of None \<Rightarrow> False | Some rel \<Rightarrow> IsLocal rel) then Inl KeyEscapes
               else
                 (case hostFs_ReadFile fs ''/'' real of
                    Inl e \<Rightarrow> Inl (KeyReadError e)
                  | Inr data \<Rightarrow> if TrimSpace data = [] then Inl KeyFileEmpty else Inr (TrimSpace data)))
      else if HasPrefix raw ''enc://'' then
        (if \<not> HasPassphrase kc then Inl PassphraseRequired
         else (case unseal kc raw of None \<Rightarrow> Inl DecryptionFailed | Some k \<Rightarrow> Inr k))
      else Inr raw)"

fun resolveAPIKeys :: "key_codec \<Rightarrow> filesystem \<Rightarrow> string \<Rightarrow> model_entry list \<Rightarrow> (key_error \<times> nat) + model_entry list" where
  "resolveAPIKeys kc fs dir [] = Inr []"
| "resolveAPIKeys kc fs dir (m # ms) =
     (case resolve_key kc fs dir (EntryKey m) of
        Inl e \<Rightarrow> Inl (e, 0)
      | Inr k \<Rightarrow>
          (case resolveAPIKeys kc fs dir ms of
             Inl (e, i) \<Rightarrow> Inl (e, Suc i)
           | Inr r \<Rightarrow> Inr (m\<lparr>EntryKey := k\<rparr> # r)))"

text \<open>The model list that \<open>SaveConfig\<close> writes.\<close>

definition saved_models :: "key_codec \<Rightarrow> model_entry list \<Rightarrow> model_entry list option" where
  "saved_models kc ms =
     (if \<not> HasPassphrase kc then Some ms
      else (case encryptPlaintextAPIKeys kc ms of None \<Rightarrow> None | Some None \<Rightarrow> Some ms | Some (Some r) \<Rightarrow> Some r))"

definition chinese_comma :: string where "chinese_comma = map char_of [0xEF :: nat, 0xBC, 0x8C]"

fun replace_commas :: "string \<Rightarrow> string" where
  "replace_commas (a # b # c # s) =
     (if [a, b, c] = chinese_comma then CHR '','' # replace_commas s else a # replace_commas (b # c # s))"
| "replace_commas s = s"

definition UnmarshalText :: "string \<Rightarrow> string list" where
  "UnmarshalText s = (if s = [] then [] else filter (\<lambda>p. p \<noteq> []) (map TrimSpace (split_at (CHR '','') (replace_commas s))))"

section \<open>What validation gives\<close>

lemma first_error_None [simp]: "first_error es = None \<longleftrightarrow> (\<forall>e \<in> set es. e = None)"
  by (induction es rule: first_error.induct) auto

lemma scopes_valid: "validateAgentScopes i as = None \<longleftrightarrow> (\<forall>a \<in> set as. TrimSpace (AcID a) \<noteq> [] \<and> TrimSpace (AcScope a) \<noteq> [] \<and> scope_ok (AcScope a))"
  by (induction as arbitrary: i) auto

lemma validated:
  assumes "config_Validate known c = None"
  shows "validateAgentScopes 0 (CfgAgents c) = None" "validateHeartbeatConfig (CfgAgents c) (CfgHeartbeat c) = None"
    "validateMCPConfig (CfgServers c) (CfgAuth c) = None" "validateAgentsConfig known c = None" "ValidateModelList (CfgModels c) = None"
  using assms by (auto simp: config_Validate_def validateAgentsConfig_def)

lemma server_resolves:
  assumes "validateMCPConfig servers auth = None" and "validateAgentScopes 0 as = None" and "a \<in> set as" and "name \<in> fst ` set servers"
  shows "\<exists>s. ResolvedMCPServerConfigForAgent servers auth name a = Inr s"
proof -
  from assms(4) obtain s where s: "map_of servers name = Some s" by (metis map_of_eq_None_iff not_None_eq)
  then have mem: "(name, s) \<in> set servers" by (rule map_of_SomeD)
  from assms(1) have ok: "validate_server name s = None"
    and auth: "list_all (\<lambda>(name, s). AuthMode s \<noteq> ''runtime_scoped'') servers \<and> auth = None \<or> validate_runtime_auth auth = None"
    using mem by (auto simp: validateMCPConfig_def split: option.splits if_splits)
  from assms(2,3) have agent: "TrimSpace (AcID a) \<noteq> [] \<and> TrimSpace (AcScope a) \<noteq> [] \<and> scope_ok (AcScope a)" by (auto simp: scopes_valid)
  show ?thesis
  proof (cases "AuthMode s = ''runtime_scoped''")
    case True
    with auth mem have v: "validate_runtime_auth auth = None" by (auto simp: list_all_iff)
    then obtain k where "auth = Some k" by (auto simp: validate_runtime_auth_def split: option.splits)
    with True s ok v agent show ?thesis by (auto simp: ResolvedMCPServerConfigForAgent_def validate_server_def split: if_splits)
  next
    case False
    with s ok show ?thesis by (auto simp: ResolvedMCPServerConfigForAgent_def validate_server_def split: if_splits)
  qed
qed

lemma resolve_all:
  "(\<And>n. n \<in> set ns \<Longrightarrow> \<exists>s. ResolvedMCPServerConfigForAgent servers auth n a = Inr s) \<Longrightarrow> \<exists>r. resolve_servers servers auth a ns = Inr r \<and> map fst r = ns"
proof (induction ns)
  case (Cons n ns)
  from Cons.prems [of n] obtain s where "ResolvedMCPServerConfigForAgent servers auth n a = Inr s" by auto
  moreover from Cons obtain r where "resolve_servers servers auth a ns = Inr r" "map fst r = ns" by auto
  ultimately show ?case by simp
qed simp

text \<open>A validated configuration can be used: for every agent in it, the settings of all its MCP servers can be worked out.\<close>

theorem validated_servers_resolve:
  assumes "config_Validate known c = None" and "a \<in> set (CfgAgents c)"
  shows "\<exists>r. ResolvedMCPConfigForAgent (CfgServers c) (CfgAuth c) a = Inr r \<and> map fst r = map fst (CfgServers c)"
  unfolding ResolvedMCPConfigForAgent_def
  using server_resolves [OF validated(3) [OF assms(1)] validated(1) [OF assms(1)] assms(2)] by (intro resolve_all) auto

text \<open>Loading a configuration does not check its MCP servers: one whose server needs run-time secrets that are missing is loaded without an
  error, but then the settings of its servers cannot be worked out for any agent.\<close>

theorem loaded_servers_fail:
  assumes "load_checks known c = None" and "(name, s) \<in> set servers" and "\<And>n t. (n, t) \<in> set servers \<Longrightarrow> AuthMode t = ''runtime_scoped''"
  shows "load_checks known (c\<lparr>CfgServers := servers, CfgAuth := None\<rparr>) = None \<and> (\<exists>e. ResolvedMCPConfigForAgent servers None a = Inl e)"
proof
  show "load_checks known (c\<lparr>CfgServers := servers, CfgAuth := None\<rparr>) = None"
    using assms(1) by (simp add: load_checks_def validateAgentsConfig_def)
  have "\<exists>e. ResolvedMCPServerConfigForAgent servers None n a = Inl e" if "n \<in> fst ` set servers" for n
  proof -
    from that obtain t where t: "map_of servers n = Some t" by (metis map_of_eq_None_iff not_None_eq)
    with assms(3) have "AuthMode t = ''runtime_scoped''" by (blast dest: map_of_SomeD)
    with t show ?thesis by (simp add: ResolvedMCPServerConfigForAgent_def validate_runtime_auth_def auth_mode_ok_def)
  qed
  then show "\<exists>e. ResolvedMCPConfigForAgent servers None a = Inl e"
  proof (cases servers)
    case Nil
    with assms(2) show ?thesis by simp
  next
    case (Cons p rest)
    then have "fst p \<in> fst ` set servers" by simp
    from this \<open>\<And>n. n \<in> fst ` set servers \<Longrightarrow> \<exists>e. ResolvedMCPServerConfigForAgent servers None n a = Inl e\<close>
    obtain e where "ResolvedMCPServerConfigForAgent servers None (fst p) a = Inl e" by blast
    with Cons show ?thesis by (simp add: ResolvedMCPConfigForAgent_def)
  qed
qed

text \<open>C36. What an agent is given of a server that resolves for it. A server whose mode is not \<open>runtime_scoped\<close> is as configured. One with run-time
  secrets needs their configuration and an agent of one of the two scopes, and differs from the configured one in four headers only: the
  secret of the agent's own scope and never that of the other, the agent's identifier, the project and the bearer of the run-time secret,
  all trimmed; any other header is as configured.\<close>

theorem scope_secret_exact:
  assumes "ResolvedMCPServerConfigForAgent servers auth name a = Inr s'" and "map_of servers name = Some s"
  shows "if AuthMode s \<noteq> ''runtime_scoped'' then s' = s
    else AcScope a \<in> {''workforce'', ''supra''} \<and> s' = s\<lparr>Headers := Headers s'\<rparr> \<and>
      (\<exists>k. auth = Some k \<and> (\<forall>h. map_of (Headers s') h =
        (if h = ''X-Suprclaw-Mcp-Scope-Secret'' then Some (TrimSpace (if AcScope a = ''workforce'' then WorkforceScopeSecret k else SupraScopeSecret k))
         else if h = ''X-Suprclaw-Agent-Id'' then Some (TrimSpace (AcID a))
         else if h = ''X-Suprclaw-Project-Ref'' then Some (TrimSpace (ProjectRef k))
         else if h = ''Authorization'' then Some (''Bearer '' @ TrimSpace (RuntimeSecret k))
         else map_of (Headers s) h)))"
proof (cases "AuthMode s = ''runtime_scoped''")
  case True
  with assms obtain k where k: "auth = Some k" and s': "s' = s\<lparr>Headers := scoped_headers k a (Headers s)\<rparr>" and scope: "scope_ok (AcScope a)"
    by (auto simp: ResolvedMCPServerConfigForAgent_def split: if_splits option.splits)
  have secret: "ScopeSecretFor k (AcScope a) = TrimSpace (if AcScope a = ''workforce'' then WorkforceScopeSecret k else SupraScopeSecret k)"
    using scope unfolding scope_ok_def by (elim disjE) (simp_all add: ScopeSecretFor_def)
  have found: "map_of (scoped_headers k a (Headers s)) h =
      (if h = ''X-Suprclaw-Mcp-Scope-Secret'' then Some (ScopeSecretFor k (AcScope a))
       else if h = ''X-Suprclaw-Agent-Id'' then Some (TrimSpace (AcID a))
       else if h = ''X-Suprclaw-Project-Ref'' then Some (TrimSpace (ProjectRef k))
       else if h = ''Authorization'' then Some (''Bearer '' @ TrimSpace (RuntimeSecret k))
       else map_of (Headers s) h)" for h
    unfolding scoped_headers_def map_of_assoc_put by (rule refl)
  have "AcScope a \<in> {''workforce'', ''supra''}" using scope unfolding scope_ok_def by blast
  moreover have "s' = s\<lparr>Headers := Headers s'\<rparr>" unfolding s' by simp
  moreover have hd: "Headers s' = scoped_headers k a (Headers s)" by (simp add: s')
  moreover have "map_of (Headers s') h =
      (if h = ''X-Suprclaw-Mcp-Scope-Secret'' then Some (TrimSpace (if AcScope a = ''workforce'' then WorkforceScopeSecret k else SupraScopeSecret k))
       else if h = ''X-Suprclaw-Agent-Id'' then Some (TrimSpace (AcID a))
       else if h = ''X-Suprclaw-Project-Ref'' then Some (TrimSpace (ProjectRef k))
       else if h = ''Authorization'' then Some (''Bearer '' @ TrimSpace (RuntimeSecret k))
       else map_of (Headers s) h)" for h
    unfolding hd found secret by (rule refl)
  ultimately have "AcScope a \<in> {''workforce'', ''supra''} \<and> s' = s\<lparr>Headers := Headers s'\<rparr> \<and>
      (\<exists>k. auth = Some k \<and> (\<forall>h. map_of (Headers s') h =
        (if h = ''X-Suprclaw-Mcp-Scope-Secret'' then Some (TrimSpace (if AcScope a = ''workforce'' then WorkforceScopeSecret k else SupraScopeSecret k))
         else if h = ''X-Suprclaw-Agent-Id'' then Some (TrimSpace (AcID a))
         else if h = ''X-Suprclaw-Project-Ref'' then Some (TrimSpace (ProjectRef k))
         else if h = ''Authorization'' then Some (''Bearer '' @ TrimSpace (RuntimeSecret k))
         else map_of (Headers s) h)))"
    using k by (intro conjI exI [of _ k] allI)
  then show ?thesis unfolding True by (simp only: not_True_eq_False simp_thms if_False)
next
  case False
  with assms have "s' = s" by (auto simp: ResolvedMCPServerConfigForAgent_def split: if_splits option.splits)
  with False show ?thesis by simp
qed

section \<open>Heartbeat jobs\<close>

lemma digit_bounds: "is_digit c \<Longrightarrow> 0 \<le> digit_of c"
  by (simp add: is_digit_def digit_of_def)

lemma hours_parse:
  assumes "validateHeartbeatHHMM i s = None"
  shows "\<exists>h m. parseHHMM s = Some (h, m)"
proof -
  from assms obtain a b c d e where s: "s = [a, b, c, d, e]" and c: "is_digit a" "is_digit b" "c = CHR '':''" "is_digit d" "is_digit e"
    and bounds: "10 * digit_of a + digit_of b \<le> 23" "10 * digit_of d + digit_of e \<le> 59"
    by (auto simp: validateHeartbeatHHMM_def split: list.splits if_splits)
  then show ?thesis using digit_bounds [of a] digit_bounds [of b] digit_bounds [of d] digit_bounds [of e]
    by (simp add: parseHHMM_def scan_two_def)
qed

definition job_ok :: "string list \<Rightarrow> heartbeat_job \<Rightarrow> bool" where
  "job_ok known j \<longleftrightarrow> JobAgentID j \<in> set known \<and> 5 \<le> JobInterval j \<and> 0 \<le> JobIdleWindow j \<and> 0 \<le> JobMaxTokens j \<and>
     (JobMaxInterval j = 0 \<or> JobInterval j \<le> JobMaxInterval j) \<and>
     (TrimSpace (JobHoursStart j) = [] \<and> TrimSpace (JobHoursEnd j) = [] \<or>
      (\<exists>h m h' m'. parseHHMM (JobHoursStart j) = Some (h, m) \<and> parseHHMM (JobHoursEnd j) = Some (h', m')))"

lemma job_valid:
  assumes "validate_job known seen i j = None"
  shows "job_ok known j \<and> JobAgentID j \<notin> set seen"
proof -
  from assms have ids: "JobAgentID j \<notin> set seen" "JobAgentID j \<in> set known" "5 \<le> JobInterval j" "0 \<le> JobIdleWindow j" "0 \<le> JobMaxTokens j"
    "JobMaxInterval j = 0 \<or> JobInterval j \<le> JobMaxInterval j"
    by (auto simp: validate_job_def split: if_splits)
  from assms have hours: "TrimSpace (JobHoursStart j) = [] \<and> TrimSpace (JobHoursEnd j) = [] \<or>
      validateHeartbeatHHMM i (JobHoursStart j) = None \<and> validateHeartbeatHHMM i (JobHoursEnd j) = None"
    by (auto simp: validate_job_def Let_def split: if_splits option.splits)
  with ids show ?thesis unfolding job_ok_def using hours_parse by blast
qed

lemma jobs_valid: "validate_heartbeat_jobs known seen js = None \<Longrightarrow> distinct (map JobAgentID js) \<and> set (map JobAgentID js) \<inter> set seen = {} \<and> list_all (job_ok known) js"
proof (induction js arbitrary: seen)
  case (Cons j js)
  then have j: "validate_job known seen (length seen) j = None" and js: "validate_heartbeat_jobs known (seen @ [JobAgentID j]) js = None"
    by (auto split: option.splits)
  from job_valid [OF j] Cons.IH [OF js] show ?case by auto
qed simp

text \<open>The heartbeat jobs of a validated configuration are for different agents of it, have sensible intervals, and have hours that the scheduler
  can read (or none).\<close>

theorem validated_heartbeat:
  assumes "config_Validate known c = None"
  shows "distinct (map JobAgentID (HbJobs (CfgHeartbeat c))) \<and> list_all (job_ok (knownAgentIDs (CfgAgents c))) (HbJobs (CfgHeartbeat c)) \<and>
    (HbEnabled (CfgHeartbeat c) \<longrightarrow> 0 < HbGap (CfgHeartbeat c) \<and> HbJobs (CfgHeartbeat c) \<noteq> [])"
  using validated(2) [OF assms] jobs_valid [of "knownAgentIDs (CfgAgents c)" "[]"]
  by (auto simp: validateHeartbeatConfig_def split: if_splits)

section \<open>Agents of one name\<close>

lemma jobs_more: "validate_heartbeat_jobs known seen js = None \<Longrightarrow> set known \<subseteq> set known' \<Longrightarrow> validate_heartbeat_jobs known' seen js = None"
proof (induction js arbitrary: seen)
  case (Cons j js)
  then have "validate_job known seen (length seen) j = None" by (auto split: option.splits)
  with Cons.prems(2) have "validate_job known' seen (length seen) j = None" by (auto simp: validate_job_def split: if_splits)
  with Cons show ?case by (auto split: option.splits)
qed simp

text \<open>Two agents with the same name, up to case, are accepted. The settings of the second one are then never found.\<close>

theorem duplicate_agents_accepted:
  assumes "config_Validate known c = None" and "b \<in> set (CfgAgents c)" and "TrimSpace (ToLower (AcID a)) = TrimSpace (ToLower (AcID b))"
    and "scope_ok (AcScope a)"
  shows "config_Validate known (c\<lparr>CfgAgents := CfgAgents c @ [a]\<rparr>) = None \<and>
    FindAgentConfig (CfgAgents c @ [a]) (AcID a) = FindAgentConfig (CfgAgents c) (AcID a) \<and> FindAgentConfig (CfgAgents c) (AcID a) \<noteq> None"
proof -
  have "TrimSpace (AcID b) \<noteq> []" using validated(1) [OF assms(1)] assms(2) by (auto simp: scopes_valid)
  moreover from assms(3) have "ToLower (TrimSpace (AcID a)) = ToLower (TrimSpace (AcID b))" by (simp only: TrimSpace_ToLower)
  ultimately have a: "TrimSpace (AcID a) \<noteq> []" by (auto simp: ToLower_def)
  have scope: "TrimSpace (AcScope a) \<noteq> []" using assms(4) by (auto simp: scope_ok_def TrimSpace_def TrimLeftSpace_def TrimRightSpace_def is_space_def)
  have more: "set (knownAgentIDs (CfgAgents c)) \<subseteq> set (knownAgentIDs (CfgAgents c @ [a]))"
    using assms(2) by (auto simp: knownAgentIDs_def)
  have "validateHeartbeatConfig (CfgAgents c @ [a]) (CfgHeartbeat c) = None"
    using validated(2) [OF assms(1)] jobs_more [OF _ more] by (auto simp: validateHeartbeatConfig_def split: if_splits)
  moreover have "validateMainAgentInvariant (CfgAgents c @ [a]) = None"
    using validated(4) [OF assms(1)] assms(2) by (auto simp: validateAgentsConfig_def validateMainAgentInvariant_def split: if_splits)
  moreover have "validateAgentScopes 0 (CfgAgents c @ [a]) = None"
    using validated(1) [OF assms(1)] a scope assms(4) by (auto simp: scopes_valid)
  ultimately have "config_Validate known (c\<lparr>CfgAgents := CfgAgents c @ [a]\<rparr>) = None"
    using validated [OF assms(1)] by (simp add: config_Validate_def validateAgentsConfig_def)
  moreover have found: "FindAgentConfig (CfgAgents c) (AcID a) \<noteq> None"
    using assms(2,3) unfolding FindAgentConfig_def find_None_iff by auto
  moreover have "find P (xs @ [a]) = find P xs" if "find P xs \<noteq> None" for P xs
    using that by (induction xs) auto
  ultimately show ?thesis by (simp add: FindAgentConfig_def)
qed

section \<open>Workspaces of agents\<close>

lemma resolve_dots_last: "c \<noteq> ''..'' \<Longrightarrow> resolve_dots rooted acc (xs @ [c]) = resolve_dots rooted acc xs @ [c]"
  by (induction rooted acc xs rule: resolve_dots.induct) (auto split: list.splits)

lemma elements_last: "slash \<notin> set c \<Longrightarrow> c \<noteq> [] \<Longrightarrow> c \<noteq> ''.'' \<Longrightarrow> elements (s @ slash # c) = elements s @ [c]"
proof -
  have "split_at slash (s @ slash # c) = split_at slash s @ [c]" if "slash \<notin> set c"
    using that by (induction s) (auto simp: split_at_plain split_at_nonempty split: list.splits)
  then show "slash \<notin> set c \<Longrightarrow> c \<noteq> [] \<Longrightarrow> c \<noteq> ''.'' \<Longrightarrow> ?thesis" by (simp add: elements_def)
qed

lemma workspace_id_valid: "list_all valid_char (normalizeAgentIDForWorkspace i)"
proof -
  have "list_all valid_char ''main''" by code_simp
  moreover have "list_all valid_char (take 64 (strip_trailing_dashes (strip_leading_dashes (collapse_invalid s))))" for s
    using strip_leading_valid [OF collapse_invalid_valid [of s]]
    by (auto simp: list_all_iff strip_trailing_dashes_def dest!: in_set_takeD set_dropWhileD)
  ultimately show ?thesis by (simp add: normalizeAgentIDForWorkspace_def Let_def)
qed

lemma last_comp:
  assumes "Join_paths w (''..'' @ slash # ''workspace-'' @ i) = Join_paths w (''..'' @ slash # ''workspace-'' @ j)"
    and "slash \<notin> set i" and "slash \<notin> set j"
  shows "i = j"
proof -
  have key: "comps (s @ slash # ''workspace-'' @ k) = resolve_dots (is_abs (s @ slash # ''workspace-'' @ k)) [] (elements s) @ [''workspace-'' @ k]"
    if "slash \<notin> set k" for s k
    using that by (simp add: comps_def elements_last resolve_dots_last)
  define s where "s = (if w = [] then ''..'' else w @ slash # ''..'')"
  have join: "Join_paths w (''..'' @ slash # ''workspace-'' @ k) = Clean (s @ slash # ''workspace-'' @ k)" for k
    by (simp add: Join_paths_def s_def)
  from assms(1) have "Clean (s @ slash # ''workspace-'' @ i) = Clean (s @ slash # ''workspace-'' @ j)" by (simp only: join)
  then have "comps (s @ slash # ''workspace-'' @ i) = comps (s @ slash # ''workspace-'' @ j)" by (metis comps_Clean)
  with key [OF assms(2)] key [OF assms(3)] show ?thesis by simp
qed

text \<open>Agents that do not name a workspace get different ones, unless one of them is the main or a default agent, when their identifiers differ after
  the normalization that is used for workspaces.\<close>

theorem workspaces_distinct:
  assumes "TrimSpace (AcWorkspace a) = []" "TrimSpace (AcWorkspace b) = []" "\<not> AcDefault a" "\<not> AcDefault b" "TrimSpace (AcID a) \<noteq> []" "TrimSpace (AcID b) \<noteq> []"
    and "normalizeAgentIDForWorkspace (AcID a) \<noteq> ''main''" "normalizeAgentIDForWorkspace (AcID b) \<noteq> ''main''"
    and "normalizeAgentIDForWorkspace (AcID a) \<noteq> normalizeAgentIDForWorkspace (AcID b)"
  shows "ResolveAgentWorkspace home (Some a) w \<noteq> ResolveAgentWorkspace home (Some b) w"
proof -
  have no: "slash \<notin> set (normalizeAgentIDForWorkspace i)" for i
    using workspace_id_valid [of i] by (auto simp: list_all_iff valid_char_def is_alnum_def is_digit_def is_lower_def)
  have path: "ResolveAgentWorkspace home (Some x) w = Join_paths (expandHome home w) (''..'' @ slash # ''workspace-'' @ normalizeAgentIDForWorkspace (AcID x))"
    if "TrimSpace (AcWorkspace x) = []" "\<not> AcDefault x" "TrimSpace (AcID x) \<noteq> []" "normalizeAgentIDForWorkspace (AcID x) \<noteq> ''main''" for x
    using that by (simp add: ResolveAgentWorkspace_def)
  show ?thesis
    unfolding path [OF assms(1,3,5,7)] path [OF assms(2,4,6,8)] using last_comp [OF _ no no] assms(9) by blast
qed

text \<open>That normalization is not the one of the agents' names: \<open>work\<close> and \<open>work-\<close> are two agents with one workspace, and so are the main agent
  and an agent that is marked as the default.\<close>

theorem workspace_shared:
  assumes "AcID a = ''work''" "AcID b = ''work-''" "TrimSpace (AcWorkspace a) = []" "TrimSpace (AcWorkspace b) = []" "AcDefault a = AcDefault b"
  shows "NormalizeAgentID (AcID a) \<noteq> NormalizeAgentID (AcID b) \<and> ResolveAgentWorkspace home (Some a) w = ResolveAgentWorkspace home (Some b) w"
proof -
  have "NormalizeAgentID ''work'' \<noteq> NormalizeAgentID ''work-''" "normalizeAgentIDForWorkspace ''work'' = normalizeAgentIDForWorkspace ''work-''"
    "TrimSpace ''work'' \<noteq> []" "TrimSpace ''work-'' \<noteq> []" by code_simp+
  with assms show ?thesis by (simp add: ResolveAgentWorkspace_def)
qed

section \<open>Keys between the file and memory\<close>

lemma merge_keys_spec:
  "distinct (merge_keys seen ks) \<and> set (merge_keys seen ks) = {TrimSpace k | k. k \<in> set ks \<and> TrimSpace k \<noteq> []} - set seen"
  by (induction seen ks rule: merge_keys.induct) auto

text \<open>Merging keys gives every key once, trimmed, without empty ones, and the single key first.\<close>

theorem MergeAPIKeys_exact:
  "distinct (MergeAPIKeys k ks) \<and> set (MergeAPIKeys k ks) = {TrimSpace x | x. x \<in> set (k # ks) \<and> TrimSpace x \<noteq> []} \<and>
    (TrimSpace k \<noteq> [] \<longrightarrow> hd (MergeAPIKeys k ks) = TrimSpace k)"
  using merge_keys_spec [of "[]" "k # ks"] by (simp add: MergeAPIKeys_def)

text \<open>What the program relies on: what is sealed carries the prefix and can be unsealed again.\<close>

definition key_laws :: "key_codec \<Rightarrow> bool" where
  "key_laws kc \<longleftrightarrow> (\<forall>k e. seal kc k = Some e \<longrightarrow> HasPrefix e ''enc://'' \<and> unseal kc e = Some k)"

lemma sealed_not_file: "HasPrefix e ''enc://'' \<Longrightarrow> \<not> HasPrefix e ''file://'' \<and> e \<noteq> []"
  by (cases e) (auto simp: HasPrefix_def)

lemma encrypt_resolve:
  assumes "key_laws kc" and "HasPassphrase kc"
  shows "encrypt_models kc ms = Some (ms', b) \<Longrightarrow> list_all (\<lambda>m. \<not> is_sealed (EntryKey m)) ms \<Longrightarrow>
    resolveAPIKeys kc fs dir ms' = Inr ms \<and> list_all (\<lambda>m. EntryKey m = [] \<or> HasPrefix (EntryKey m) ''enc://'') ms' \<and> (\<not> b \<longrightarrow> ms' = ms)"
proof (induction ms arbitrary: ms' b)
  case (Cons m ms)
  show ?case
  proof (cases "EntryKey m = []")
    case True
    with Cons.prems obtain r where r: "encrypt_models kc ms = Some (r, b)" "ms' = m # r" by auto
    from Cons.IH [OF r(1)] Cons.prems(2) True r(2) show ?thesis by (simp add: resolve_key_def)
  next
    case False
    with Cons.prems obtain e r b' where e: "seal kc (EntryKey m) = Some e" and r: "encrypt_models kc ms = Some (r, b')"
      and ms': "ms' = m\<lparr>EntryKey := e\<rparr> # r" and b: b by (auto split: option.splits)
    from assms(1) e have law: "HasPrefix e ''enc://''" "unseal kc e = Some (EntryKey m)" by (auto simp: key_laws_def)
    have "resolve_key kc fs dir e = Inr (EntryKey m)"
      using sealed_not_file [OF law(1)] law assms(2) by (simp add: resolve_key_def)
    with Cons.IH [OF r] Cons.prems(2) ms' b law(1) show ?thesis by simp
  qed
qed simp

text \<open>C38. With a pass phrase, saving and loading the model list gives the same keys, and no key that is written is in plain text: every entry is
  written with an empty key, if it had none, or a sealed one. This is for keys that do not look sealed themselves and for a sealing that
  can be undone (\<open>key_laws\<close>).\<close>

theorem saved_keys_load:
  assumes "key_laws kc" and "HasPassphrase kc" and "list_all (\<lambda>m. \<not> is_sealed (EntryKey m)) ms" and "saved_models kc ms = Some ms'"
  shows "resolveAPIKeys kc fs dir ms' = Inr ms \<and> list_all (\<lambda>m. EntryKey m = [] \<or> HasPrefix (EntryKey m) ''enc://'') ms'"
proof -
  from assms(2,4) obtain r b where r: "encrypt_models kc ms = Some (r, b)" and ms': "ms' = (if b then r else ms)"
    by (auto simp: saved_models_def encryptPlaintextAPIKeys_def split: option.splits if_splits)
  from encrypt_resolve [OF assms(1,2) r assms(3), of fs dir] ms' show ?thesis by (cases b) auto
qed

text \<open>A reference to a key file does not survive: without a pass phrase, loading and saving the configuration writes the contents of the file into
  the configuration in plain text, in the place of the reference.\<close>

theorem key_file_written_plain:
  assumes "HasPrefix (EntryKey m) ''file://''" and "\<not> HasPassphrase kc" and "resolveAPIKeys kc fs dir [m] = Inr loaded"
  shows "\<exists>k real data. saved_models kc loaded = Some [m\<lparr>EntryKey := k\<rparr>] \<and> k \<noteq> [] \<and>
    EvalSymlinks fs (Join_paths dir (TrimSpace (drop 7 (EntryKey m)))) = Inr real \<and> hostFs_ReadFile fs ''/'' real = Inr data \<and> k = TrimSpace data"
proof -
  from assms(1) have ne: "EntryKey m \<noteq> []" by (auto simp: HasPrefix_def)
  from assms(3) obtain k where k: "resolve_key kc fs dir (EntryKey m) = Inr k" and loaded: "loaded = [m\<lparr>EntryKey := k\<rparr>]"
    by (auto split: sum.splits)
  from k assms(1) ne obtain real data where "EvalSymlinks fs (Join_paths dir (TrimSpace (drop 7 (EntryKey m)))) = Inr real"
    "hostFs_ReadFile fs ''/'' real = Inr data" "k = TrimSpace data" "k \<noteq> []"
    by (auto simp: resolve_key_def Let_def split: if_splits sum.splits)
  with loaded assms(2) show ?thesis by (simp add: saved_models_def)
qed

text \<open>A key file lies in the directory of the configuration: whatever the reference and the links say, the file that is read is inside.\<close>

theorem key_file_inside:
  assumes "HasPrefix raw ''file://''" and "resolve_key kc fs dir raw = Inr k"
  shows "\<exists>real rel data. hostFs_ReadFile fs ''/'' real = Inr data \<and> k = TrimSpace data \<and> Rel (Clean dir) (Clean real) = Some rel \<and> IsLocal rel"
proof -
  from assms(1) have "raw \<noteq> []" by (auto simp: HasPrefix_def)
  with assms show ?thesis by (auto simp: resolve_key_def Let_def split: if_splits sum.splits option.splits)
qed

section \<open>Examples\<close>

definition demo_agents :: "agent_config list" where
  "demo_agents =
     [\<lparr>AcID = ''main'', AcDefault = True, AcScope = ''supra'', AcWorkspace = []\<rparr>, \<lparr>AcID = ''work'', AcDefault = False, AcScope = ''workforce'', AcWorkspace = []\<rparr>]"

definition demo_server :: mcp_server where
  "demo_server = \<lparr>AuthMode = ''runtime_scoped'', ServerType = [], ServerURL = ''https://mcp'', ServerCommand = [], Headers = [(''X-Team'', ''a'')]\<rparr>"

definition demo_auth :: runtime_auth where
  "demo_auth = \<lparr>ProjectRef = ''p'', RuntimeSecret = ''r'', WorkforceScopeSecret = ''w'', SupraScopeSecret = ''s''\<rparr>"

definition demo_full_config :: config where
  "demo_full_config =
     \<lparr>CfgAgents = demo_agents, CfgParallel = 2, CfgTimezone = ''UTC'',
      CfgHeartbeat = \<lparr>HbEnabled = True, HbGap = 10, HbJobs = [(DefaultHeartbeatJobForAgent ''main'')\<lparr>JobHoursStart := ''08:00'', JobHoursEnd := ''22:30''\<rparr>]\<rparr>,
      CfgModels = [], CfgServers = [(''crm'', demo_server)], CfgAuth = Some demo_auth\<rparr>"

lemma demo_config_valid: "config_Validate (\<lambda>z. z = ''UTC'') demo_full_config = None" "load_checks (\<lambda>z. z = ''UTC'') demo_full_config = None"
  by code_simp+

theorem validated_servers_resolve_witness:
  "\<exists>r. ResolvedMCPConfigForAgent (CfgServers demo_full_config) (CfgAuth demo_full_config) (hd demo_agents) = Inr r \<and> map fst r = [''crm'']"
  using validated_servers_resolve [OF demo_config_valid(1), of "hd demo_agents"] by (simp add: demo_full_config_def demo_agents_def)

theorem loaded_servers_fail_witness:
  "load_checks (\<lambda>z. z = ''UTC'') (demo_full_config\<lparr>CfgServers := [(''crm'', demo_server)], CfgAuth := None\<rparr>) = None \<and>
   (\<exists>e. ResolvedMCPConfigForAgent [(''crm'', demo_server)] None (hd demo_agents) = Inl e)"
  by (rule loaded_servers_fail [OF demo_config_valid(2), of "''crm''" demo_server]) (simp_all add: demo_server_def)

theorem scope_secret_exact_witness:
  "\<exists>s'. ResolvedMCPServerConfigForAgent [(''crm'', demo_server)] (Some demo_auth) ''crm'' (demo_agents ! 1) = Inr s' \<and>
     map_of (Headers s') ''X-Suprclaw-Mcp-Scope-Secret'' = Some ''w''"
proof -
  obtain s' where r: "ResolvedMCPServerConfigForAgent [(''crm'', demo_server)] (Some demo_auth) ''crm'' (demo_agents ! 1) = Inr s'"
    using server_resolves [of "[(''crm'', demo_server)]" "Some demo_auth" demo_agents "demo_agents ! 1" "''crm''"]
      validated(1,3) [OF demo_config_valid(1)] by (auto simp: demo_full_config_def demo_agents_def)
  have "TrimSpace ''w'' = ''w''" by code_simp
  with scope_secret_exact [OF r, of demo_server] r show ?thesis by (auto simp: demo_server_def demo_auth_def demo_agents_def)
qed

theorem validated_heartbeat_witness: "list_all (job_ok [''main'', ''work'']) (HbJobs (CfgHeartbeat demo_full_config))"
proof -
  have "knownAgentIDs (CfgAgents demo_full_config) = [''main'', ''work'']" by code_simp
  with validated_heartbeat [OF demo_config_valid(1)] show ?thesis by simp
qed

theorem duplicate_agents_accepted_witness:
  "config_Validate (\<lambda>z. z = ''UTC'') (demo_full_config\<lparr>CfgAgents := demo_agents @ [\<lparr>AcID = ''Work'', AcDefault = False, AcScope = ''supra'', AcWorkspace = []\<rparr>]\<rparr>) = None"
proof -
  have b: "demo_agents ! 1 \<in> set (CfgAgents demo_full_config)" by (simp add: demo_full_config_def demo_agents_def)
  have "TrimSpace (ToLower (AcID \<lparr>AcID = ''Work'', AcDefault = False, AcScope = ''supra'', AcWorkspace = []\<rparr>)) = TrimSpace (ToLower (AcID (demo_agents ! 1)))"
    by code_simp
  from duplicate_agents_accepted [OF demo_config_valid(1) b this] show ?thesis by (simp add: demo_full_config_def scope_ok_def)
qed

theorem workspaces_distinct_witness:
  "ResolveAgentWorkspace ''/home/u'' (Some \<lparr>AcID = ''work'', AcDefault = False, AcScope = [], AcWorkspace = []\<rparr>) ''~/ws'' \<noteq>
   ResolveAgentWorkspace ''/home/u'' (Some \<lparr>AcID = ''play'', AcDefault = False, AcScope = [], AcWorkspace = []\<rparr>) ''~/ws''"
proof -
  have "TrimSpace ''work'' \<noteq> []" "TrimSpace ''play'' \<noteq> []" "normalizeAgentIDForWorkspace ''work'' = ''work''" "normalizeAgentIDForWorkspace ''play'' = ''play''"
    by code_simp+
  then show ?thesis by (intro workspaces_distinct) simp_all
qed

theorem workspace_shared_witness:
  "ResolveAgentWorkspace ''/home/u'' (Some \<lparr>AcID = ''work'', AcDefault = False, AcScope = [], AcWorkspace = []\<rparr>) ''~/ws'' =
   ResolveAgentWorkspace ''/home/u'' (Some \<lparr>AcID = ''work-'', AcDefault = False, AcScope = [], AcWorkspace = []\<rparr>) ''~/ws''"
  by (rule workspace_shared [THEN conjunct2]) simp_all

theorem MergeAPIKeys_exact_witness: "hd (MergeAPIKeys '' k1 '' [''k2'', ''k1'']) = ''k1''"
proof -
  have "TrimSpace '' k1 '' = ''k1''" by code_simp
  with MergeAPIKeys_exact [of "'' k1 ''" "[''k2'', ''k1'']"] show ?thesis by simp
qed

definition demo_key_codec :: key_codec where
  "demo_key_codec = \<lparr>HasPassphrase = True, seal = (\<lambda>k. Some (''enc://'' @ k)), unseal = (\<lambda>e. Some (drop 6 e))\<rparr>"

theorem saved_keys_load_witness:
  "\<exists>ms'. saved_models demo_key_codec [blank_entry\<lparr>EntryKey := ''sk-1''\<rparr>] = Some ms' \<and>
     resolveAPIKeys demo_key_codec (\<lambda>_. None) ''/c'' ms' = Inr [blank_entry\<lparr>EntryKey := ''sk-1''\<rparr>]"
proof -
  have "key_laws demo_key_codec" by (simp add: key_laws_def demo_key_codec_def HasPrefix_def)
  moreover have "HasPassphrase demo_key_codec" by (simp add: demo_key_codec_def)
  moreover have plain: "list_all (\<lambda>m. \<not> is_sealed (EntryKey m)) [blank_entry\<lparr>EntryKey := ''sk-1''\<rparr>]" by (simp add: is_sealed_def HasPrefix_def)
  moreover have s: "saved_models demo_key_codec [blank_entry\<lparr>EntryKey := ''sk-1''\<rparr>] = Some [blank_entry\<lparr>EntryKey := ''enc://sk-1''\<rparr>]"
    by (simp add: saved_models_def encryptPlaintextAPIKeys_def demo_key_codec_def is_sealed_def HasPrefix_def)
  ultimately show ?thesis using saved_keys_load [of demo_key_codec] s by blast
qed

definition demo_key_fs :: filesystem where
  "demo_key_fs = (\<lambda>p. if p = [''c''] then Some DirNode else if p = [''c'', ''k''] then Some (FileNode ''secret'') else None)"

definition plain_codec :: key_codec where
  "plain_codec = \<lparr>HasPassphrase = False, seal = (\<lambda>_. None), unseal = (\<lambda>_. None)\<rparr>"

lemma demo_resolved: "resolve_key plain_codec demo_key_fs ''/c'' ''file://k'' = Inr ''secret''"
  by code_simp

theorem key_file_written_plain_witness:
  "saved_models plain_codec [blank_entry\<lparr>EntryKey := ''secret''\<rparr>] \<noteq> None \<and>
   (\<exists>k. saved_models plain_codec [blank_entry\<lparr>EntryKey := ''secret''\<rparr>] = Some [blank_entry\<lparr>EntryKey := k\<rparr>] \<and> k \<noteq> [])"
proof -
  have "HasPrefix (EntryKey (blank_entry\<lparr>EntryKey := ''file://k''\<rparr>)) ''file://''" by (simp add: HasPrefix_def)
  moreover have "\<not> HasPassphrase plain_codec" by (simp add: plain_codec_def)
  moreover have "resolveAPIKeys plain_codec demo_key_fs ''/c'' [blank_entry\<lparr>EntryKey := ''file://k''\<rparr>] = Inr [blank_entry\<lparr>EntryKey := ''secret''\<rparr>]"
    by (simp add: demo_resolved)
  ultimately show ?thesis using key_file_written_plain [of "blank_entry\<lparr>EntryKey := ''file://k''\<rparr>"] by fastforce
qed

theorem key_file_inside_witness: "\<exists>real data. hostFs_ReadFile demo_key_fs ''/'' real = Inr data \<and> ''secret'' = TrimSpace data"
  using key_file_inside [OF _ demo_resolved] by (auto simp: HasPrefix_def)

end
