(* ===== verification/Spec2Isabelle.thy ===== *)
theory Spec2Isabelle
  imports Route ModelRouting Fallback Sessions Cron Media Bus Split Compaction Turn ShellGuard ChannelDispatch Heartbeat Rollback Subagents SkillActivation PromptCache HostFs CronTool SearchCache CacheBreaks ProviderFactory Commands Reload Inbound Configuration
begin

text \<open>
  A verification development for the SuprClaw engine (the Go module under \<open>src/\<close>), a gateway that connects chat channels with
  language-model agents. It models the gateway's own logic: where a message goes, which session and agent it belongs to, what a turn of
  an agent does with model, tools and history, which provider answers and what happens when it fails, how sessions, checkpoints,
  schedules and files are kept, and how answers leave. Every definition that models code is a translation of the named source; clients
  of external services, command-line programs and pages are not modelled.

  \<^bold>\<open>How the parts interact.\<close> A channel hands a message to \<open>HandleMessage\<close> (Channels, Identity), which publishes it on the bus (Bus). The agent
  loop takes it (Inbound), resolves its route (Route, SessionKey, AgentId), takes the lock of the agent and registers the run (Dispatch),
  and carries out a chat command (Commands) or a turn (Turn). A turn builds the request from the history and the cached system prompt (History,
  PromptCache, SkillActivation, Skills), fits it into the context window (ContextBudget, Compaction, Summaries), sends it through the fallback
  chain (Fallback, Cooldown, ErrorClassifier, ModelRef, ModelRouting, ProviderFactory, ContextOverflow), runs the tools that the model
  calls (ToolRegistry, ToolResults, FileTools, Sandbox, HostFs, ShellGuard, CronTool, Subagents), logs and checkpoints them (Rollback,
  Checkpoint) and records everything in the session store (Sessions, JSONL, JSONLFaults). The answer goes over the bus to the
  dispatcher and the worker of its channel (ChannelDispatch), which splits it (Split, Runes) and sends it (Channels). Schedules and
  heartbeats start turns by themselves (Cron, CronTool, Heartbeat); a reload exchanges configuration, agents and provider (Reload,
  Configuration).

  \<^bold>\<open>Theories and code.\<close>
  \<^item> Prelude, Paths, Runes, Float64, Messages, ToolResults: Go's strings, paths, runes and doubles as the program uses them, the messages
    of a conversation (\<open>pkg/providers/protocoltypes\<close>) and tool results (\<open>pkg/tools/result.go\<close>).
  \<^item> AgentId, SessionKey, Route, ModelRouting: \<open>pkg/routing\<close>. ModelRef, ErrorClassifier, Cooldown, Fallback, ProviderFactory:
    \<open>pkg/providers\<close> and \<open>pkg/config/migration.go\<close>. Configuration: the checks and keys of \<open>pkg/config/config.go\<close> and
    \<open>pkg/credential/credential.go\<close>.
  \<^item> Bus: \<open>pkg/bus/bus.go\<close>. Identity, Channels, ChannelDispatch, Split: \<open>pkg/identity\<close>, \<open>pkg/channels\<close>. Media: \<open>pkg/media/store.go\<close>.
  \<^item> Sessions, JSONL, JSONLFaults: \<open>pkg/session\<close>, \<open>pkg/memory/jsonl.go\<close>. Checkpoint, Rollback: \<open>pkg/checkpoint\<close>.
  \<^item> Dispatch, Inbound, Turn, Summaries, Reload: \<open>pkg/agent/loop.go\<close>, \<open>run_control.go\<close>, \<open>registry.go\<close>, \<open>loop_mcp.go\<close>. History, PromptCache,
    SkillActivation: \<open>pkg/agent/context.go\<close>, \<open>memory.go\<close>. ContextBudget, Compaction, ContextOverflow, CacheBreaks: the files of
    these names in \<open>pkg/agent\<close>. Commands: \<open>pkg/commands\<close>.
  \<^item> ToolRegistry, Sandbox, FileTools, HostFs, ShellGuard, CronTool, Subagents: \<open>pkg/tools\<close>. Skills, SearchCache: \<open>pkg/skills\<close>. Cron: \<open>pkg/cron\<close>.
    Heartbeat: \<open>pkg/heartbeat\<close>.

  \<^bold>\<open>State.\<close> A struct that an operation changes is a record (\<open>manager\<close>, \<open>CronService\<close>, \<open>CooldownTracker\<close>, \<open>agent_registry\<close>, \<open>SessionManager\<close>,
  \<open>disk\<close>, \<open>commit_store\<close>, \<open>loop_core\<close>, \<open>turn_state\<close> \<open>...\<close>), and an operation is a function from the old state to the new one with its result, an
  error being the left of a sum. Where goroutines interleave, the atomic steps are an inductive relation and the properties are invariants of
  the reachable states: \<open>bus_step\<close>, \<open>out_step\<close> (dispatcher and workers), \<open>run_step\<close> (admission, stopping and finishing of runs),
  \<open>cron_step\<close>, \<open>sub_step\<close> (background tasks), and the runs \<open>registry_step\<close>, \<open>audit_step\<close>, \<open>prompt_op\<close> of events. Machine integers keep their
  wrap-around where it can be reached (\<open>wrap64\<close> in Cron, the counter of \<open>GetModelConfig\<close>).

  \<^bold>\<open>What the lemmas show.\<close> Routing: the cascade of bindings, keys that parse back. Conversations: what is sent is a conversation that a provider
  accepts, trimming and summaries keep what they promise, a turn records exactly its rounds. Budgets: bounds and outcomes of
  compaction, with the session that the second stage rewrites. Providers: no call to a provider that is cooling down, the exact
  schedule of cooldowns, the key and base of a client. Tools: only offered tools run, search and schema caches are transparent.
  Files: reads and writes stay in the workspace or the allow-list, edits replace once, what was written is read back. Stores: both
  session stores implement one conversation, faults lose at most what was in flight, checkpoints restore what they
  covered. Concurrency: the bus and the workers deliver in order and once, an agent that is locked runs once, a request to stop is
  not lost. Commands, entrances and reloads: what they leave alone. A theorem on a behaviour that contradicts the code's comments or its
  documents states the behaviour as it is.

  \<^bold>\<open>Interfaces.\<close> \<open>session_store\<close> (one conversation behind \<open>SessionStore\<close>) is interpreted by the in-memory manager and by the JSONL backend;
  \<open>file_store\<close> (what was written is read back; edits and appends) by the sandbox, the host and the file system that \<open>buildFs\<close> chooses;
  \<open>transparent_cache\<close> (an answer from a cache is the current one) by the search engine and the tool schemas; \<open>cooldown_gate\<close> by the tracker;
  \<open>turn_classifier\<close> by the rules of the model router; \<open>framed_runtime\<close> (every operation of a command's runtime keeps a frame) by the
  runtime of an agent.

  \<^bold>\<open>Parameters.\<close> Code outside the repository and the world are arguments. The JSON codec of the session store obeys \<open>json_laws\<close> (a small codec is
  shown to); the cron expressions of \<open>gronx\<close> are \<open>next_tick\<close>; providers, tools, prompts, the clock and requests to stop are
  \<open>turn_env\<close>, every consultation of which is numbered, so that two of them are independent; the model that writes summaries is
  \<open>llm\<close>; the loop of a subagent has \<open>loop_env\<close>; hashes, regular expressions of the configuration, the ranking of tools, parsers of Markdown and
  YAML, time zones, key sealing (\<open>key_laws\<close>), the visiting order of Go maps, MCP servers and the inventory of skills are
  arguments. The file system is a map from paths to nodes with symbolic links.

  \<^bold>\<open>Bounds and fuel.\<close> \<open>SplitMessage\<close> runs with fuel and is shown to end within one iteration for every rune (\<open>split_plain_total\<close>). Every other
  loop is total: the turn by its number of iterations and three attempts for each request, the fallback chain by its candidates, walks
  through links by the limits 255 (\<open>EvalSymlinks\<close>), 40 (kernel) and 8 (\<open>os.Root\<close>), retries of a channel by \<open>maxRetries\<close>, the webhook of a job
  by three attempts. Token counts and windows are below 2 ^ 53, where doubles are exact integers.

  \<^bold>\<open>Limits of the model.\<close> Case mapping and white space are those of ASCII. A time zone is a constant offset from UTC. A finite double is a
  rational that is rounded after each operation; overflow is not modelled, and conversions to \<open>int64\<close> are those of amd64. A disk operation
  is atomic but for torn appends. Not modelled: HTTP and SDK clients of providers and channels, web search and fetching, MCP
  transport, browser and device tools, the gateway's HTTP handlers and the launcher, migration from other installations, JSON decoding of
  the configuration, and logging.
\<close>

end
